(* ===== verification/Prelude.thy ===== *)
theory Prelude
  imports
    Complex_Main "HOL-Library.Word" "HOL-Library.List_Lexorder" "HOL-Library.Char_ord"
    "HOL-Library.Sublist" "HOL-Library.Multiset"
begin

text \<open>
  Shared vocabulary of the development: the machine types of the program (ROOT's
  UInt_t, Int_t, ULong_t on LP64), the collections of facts the component theories
  add to, and the two containers nearly every component is built on:

  \<^item> std::map keyed by std::string, as an association list sorted strictly by
    key (smap_get, smap_put, smap_erase), so that iteration order is key order;
  \<^item> std::list as a list, with erase of the first match.
\<close>

type_synonym u32 = "32 word"
type_synonym i32 = "32 word"
type_synonym u64 = "64 word"
type_synonym u16 = "16 word"
type_synonym u8 = "8 word"

named_theorems smap_simps \<open>rewriting of the ordered map operations\<close>
named_theorems inv_intros \<open>preservation of component invariants\<close>

subsection \<open>Ordered maps\<close>

fun smap_get :: "('k \<times> 'v) list \<Rightarrow> 'k \<Rightarrow> 'v option" where
  "smap_get [] k = None"
| "smap_get ((k', v) # m) k = (if k = k' then Some v else smap_get m k)"

fun smap_put :: "('k::linorder) \<Rightarrow> 'v \<Rightarrow> ('k \<times> 'v) list \<Rightarrow> ('k \<times> 'v) list" where
  "smap_put k v [] = [(k, v)]"
| "smap_put k v ((k', v') # m) =
     (if k < k' then (k, v) # (k', v') # m
      else if k = k' then (k, v) # m
      else (k', v') # smap_put k v m)"

fun smap_erase :: "'k \<Rightarrow> ('k \<times> 'v) list \<Rightarrow> ('k \<times> 'v) list" where
  "smap_erase k [] = []"
| "smap_erase k ((k', v') # m) = (if k = k' then m else (k', v') # smap_erase k m)"

definition smap_ok :: "(('k::linorder) \<times> 'v) list \<Rightarrow> bool" where
  "smap_ok m \<longleftrightarrow> sorted_wrt (<) (map fst m)"

lemma smap_ok_Nil [simp]: "smap_ok []"
  by (simp add: smap_ok_def)

lemma smap_ok_Cons [simp]:
  "smap_ok ((k, v) # m) \<longleftrightarrow> (\<forall>k' \<in> fst ` set m. k < k') \<and> smap_ok m"
  by (auto simp: smap_ok_def)

lemma smap_get_map_of: "smap_get m k = map_of m k"
  by (induction m) auto

lemma smap_get_put [simp, smap_simps]:
  "smap_get (smap_put k v m) k' = (if k' = k then Some v else smap_get m k')"
  by (induction m) auto

lemma smap_get_None_iff: "smap_get m k = None \<longleftrightarrow> k \<notin> fst ` set m"
  by (simp add: smap_get_map_of map_of_eq_None_iff)

lemma smap_get_SomeD: "smap_get m k = Some v \<Longrightarrow> (k, v) \<in> set m"
  by (simp add: smap_get_map_of map_of_SomeD)

lemma smap_keys_put [simp, smap_simps]: "fst ` set (smap_put k v m) = insert k (fst ` set m)"
proof (induction m)
  case (Cons a m)
  then show ?case by (cases a) (simp add: insert_commute)
qed simp

lemma smap_ok_put [simp, inv_intros]: "smap_ok m \<Longrightarrow> smap_ok (smap_put k v m)"
proof (induction m)
  case (Cons a m)
  then show ?case by (cases a) (auto dest: order.strict_trans)
qed simp

lemma smap_keys_erase [simp, smap_simps]:
  "smap_ok m \<Longrightarrow> fst ` set (smap_erase k m) = fst ` set m - {k}"
proof (induction m)
  case (Cons a m)
  then show ?case by (cases a) force
qed simp

lemma smap_set_erase_subset: "set (smap_erase k m) \<subseteq> set m"
  by (induction m) (auto split: if_splits)

lemma smap_ok_erase [simp, inv_intros]: "smap_ok m \<Longrightarrow> smap_ok (smap_erase k m)"
proof (induction m)
  case (Cons a m)
  then show ?case using smap_set_erase_subset [of k m] by (cases a) auto
qed simp

lemma smap_get_erase [simp, smap_simps]:
  "smap_ok m \<Longrightarrow> smap_get (smap_erase k m) k' = (if k' = k then None else smap_get m k')"
proof (induction m)
  case (Cons a m)
  then show ?case by (cases a) (auto simp: smap_get_None_iff)
qed simp

lemma smap_in_set_iff: "smap_ok m \<Longrightarrow> (k, v) \<in> set m \<longleftrightarrow> smap_get m k = Some v"
proof (induction m)
  case (Cons a m)
  then show ?case by (cases a) (force simp: smap_get_None_iff)
qed simp

lemma smap_set_put:
  "smap_ok m \<Longrightarrow> set (smap_put k v m) = insert (k, v) {e \<in> set m. fst e \<noteq> k}"
proof (induction m)
  case (Cons a m)
  then show ?case by (cases a) (force)
qed simp

lemma smap_set_put_fresh:
  "smap_get m k = None \<Longrightarrow> set (smap_put k v m) = insert (k, v) (set m)"
  by (induction m) (auto split: if_splits)

lemma smap_erase_absent: "smap_get m k = None \<Longrightarrow> smap_erase k m = m"
  by (induction m) (auto split: if_splits)

lemma smap_length_put:
  "smap_ok m \<Longrightarrow> length (smap_put k v m) = length m + (if smap_get m k = None then 1 else 0)"
proof (induction m)
  case (Cons a m)
  then show ?case by (cases a) (auto simp: smap_get_None_iff)
qed simp

lemma smap_length_erase:
  "length (smap_erase k m) = length m - (if smap_get m k = None then 0 else 1)"
proof (induction m)
  case (Cons a m)
  have "m \<noteq> []" if "smap_get m k \<noteq> None" using that by auto
  with Cons show ?case by (cases a) (auto simp: Suc_diff_le neq_Nil_conv)
qed simp

lemma smap_ext:
  assumes ok: "smap_ok m" "smap_ok m'" and eq: "\<And>k. smap_get m k = smap_get m' k"
  shows "m = m'"
proof -
  have s: "set m = set m'"
    using eq smap_in_set_iff [OF ok(1)] smap_in_set_iff [OF ok(2)] by auto
  moreover have "sorted (map fst m) \<and> distinct (map fst m)" "sorted (map fst m') \<and> distinct (map fst m')"
    using ok by (auto simp: smap_ok_def strict_sorted_iff)
  moreover from this have "inj_on fst (set m \<union> set m')"
    using s by (simp add: distinct_map)
  ultimately show ?thesis
    using map_sorted_distinct_set_unique [of fst m m'] by simp
qed

lemmas smap_facts = smap_ok_put smap_ok_erase smap_get_put smap_get_erase

subsection \<open>Lists with erase\<close>

text \<open>erase of the first element equal to x, as a loop over a std::list does it.\<close>

fun erase_first :: "'a \<Rightarrow> 'a list \<Rightarrow> 'a list" where
  "erase_first x [] = []"
| "erase_first x (y # ys) = (if y = x then ys else y # erase_first x ys)"

lemma erase_first_remove1: "erase_first x xs = remove1 x xs"
  by (induction xs) auto

lemma set_erase_first_distinct [simp]: "distinct xs \<Longrightarrow> set (erase_first x xs) = set xs - {x}"
  by (simp add: erase_first_remove1)

lemma distinct_erase_first [simp]: "distinct xs \<Longrightarrow> distinct (erase_first x xs)"
  by (simp add: erase_first_remove1)

subsection \<open>Decimal numbers\<close>

text \<open>What printf with %d, or a stream, writes for a number that is not negative.\<close>

fun show_nat :: "nat \<Rightarrow> string" where
  "show_nat n = (if n < 10 then [char_of (48 + n)] else show_nat (n div 10) @ [char_of (48 + n mod 10)])"

declare show_nat.simps [simp del]

definition read_digits :: "string \<Rightarrow> nat" where
  "read_digits cs = foldl (\<lambda>n c. 10 * n + (of_char c - 48)) 0 cs"

lemma read_show_nat [simp]: "read_digits (show_nat n) = n"
proof (induction n rule: show_nat.induct)
  case (1 n)
  have d: "of_char (char_of (48 + d) :: char) - 48 = d" if "d < 10" for d :: nat
    using that by simp
  show ?case
  proof (cases "n < 10")
    case True
    then show ?thesis using d [of n] by (subst show_nat.simps) (simp add: read_digits_def)
  next
    case False
    have "read_digits (show_nat n) = 10 * read_digits (show_nat (n div 10)) + n mod 10"
      using False d [of "n mod 10"] by (subst show_nat.simps) (simp add: read_digits_def)
    then show ?thesis using 1 False by simp
  qed
qed

lemma show_nat_inject [simp]: "show_nat m = show_nat n \<longleftrightarrow> m = n"
  by (metis read_show_nat)

end
