(* ===== verification/Events.thy ===== *)
theory Events
  imports Prelude
begin

text \<open>
  DopeVector, CValidValue/DopedValidValue and CEvent (src/main/Core/DopeVector.cpp,
  ValidValue.h, Event.h, Event.cpp).  An event is a vector of parameter slots that share
  one serial number: a slot is valid when the serial of its last assignment is the
  event's, so clearing the event is one increment.  The dope vector lists the indices
  assigned since the last clear.  Parameter values are finite doubles, represented by the
  rational they denote; None is the indeterminate value of a slot never assigned.
\<close>

type_synonym ptype = rat

subsection \<open>The dope vector\<close>

record dope_vector =
  dv_size :: u32
  dv_indices :: "u32 list"

definition dv_new :: dope_vector where
  "dv_new = \<lparr> dv_size = 0, dv_indices = [] \<rparr>"

definition dv_reset :: "dope_vector \<Rightarrow> dope_vector" where
  "dv_reset d = d\<lparr> dv_size := 0 \<rparr>"

definition dv_append :: "u32 \<Rightarrow> dope_vector \<Rightarrow> dope_vector" where
  "dv_append i d =
     (let ix = (if unat (dv_size d) < length (dv_indices d)
                then (dv_indices d)[unat (dv_size d) := i]
                else dv_indices d @ [i])
      in d\<lparr> dv_indices := ix, dv_size := dv_size d + 1 \<rparr>)"

datatype range_error = CRangeError int int int

text \<open>
  operator[](int): the second comparison is between an int and an unsigned, so it is done
  unsigned, after the first has excluded the negative indices.
\<close>

definition dv_at :: "dope_vector \<Rightarrow> i32 \<Rightarrow> range_error + u32" where
  "dv_at d i =
     (if sint i < 0 \<or> dv_size d \<le> i
      then Inl (CRangeError 0 (sint (dv_size d - 1)) (sint i))
      else Inr (dv_indices d ! unat i))"

definition dv_list :: "dope_vector \<Rightarrow> u32 list" where
  "dv_list d = take (unat (dv_size d)) (dv_indices d)"

definition dv_ok :: "dope_vector \<Rightarrow> bool" where
  "dv_ok d \<longleftrightarrow> unat (dv_size d) \<le> length (dv_indices d)"

lemma dv_ok_new [simp]: "dv_ok dv_new"
  by (simp add: dv_ok_def dv_new_def)

lemma dv_ok_reset [simp]: "dv_ok (dv_reset d)"
  by (simp add: dv_ok_def dv_reset_def)

lemma dv_list_reset [simp]: "dv_list (dv_reset d) = []"
  by (simp add: dv_list_def dv_reset_def)

lemma dv_list_new [simp]: "dv_list dv_new = []"
  by (simp add: dv_list_def dv_new_def)

lemma dv_size_length: "dv_ok d \<Longrightarrow> length (dv_list d) = unat (dv_size d)"
  by (simp add: dv_ok_def dv_list_def)

lemma dv_append_ok:
  assumes "dv_ok d" "length (dv_list d) < 2 ^ 32 - 1"
  shows "dv_ok (dv_append i d)" and "dv_list (dv_append i d) = dv_list d @ [i]"
proof -
  have lt: "unat (dv_size d) + 1 < 2 ^ 32"
    using assms dv_size_length by simp
  then have s: "unat (dv_size d + 1) = Suc (unat (dv_size d))"
    using unat_add_lem [of "dv_size d" 1] by simp
  show "dv_ok (dv_append i d)"
    using assms by (auto simp: dv_ok_def dv_append_def Let_def s)
  show "dv_list (dv_append i d) = dv_list d @ [i]"
    using assms(1) by (auto simp: dv_ok_def dv_list_def dv_append_def Let_def s take_Suc_conv_app_nth)
qed

subsection \<open>Parameter slots\<close>

record slot =
  sl_value :: "ptype option"
  sl_index :: u32
  sl_last :: u64

definition new_slot :: "u32 \<Rightarrow> u64 \<Rightarrow> slot" where
  "new_slot i serial = \<lparr> sl_value = None, sl_index = i, sl_last = serial - 1 \<rparr>"

definition isValid :: "u64 \<Rightarrow> slot \<Rightarrow> bool" where
  "isValid serial s \<longleftrightarrow> sl_last s = serial"

definition getValue :: "u64 \<Rightarrow> slot \<Rightarrow> string + ptype option" where
  "getValue serial s =
     (if \<not> isValid serial s then Inl ''Attempted getValue of unset ValidValue object''
      else Inr (sl_value s))"

definition setValid :: "u64 \<Rightarrow> bool \<Rightarrow> slot \<Rightarrow> slot" where
  "setValid serial b s = s\<lparr> sl_last := (if b then serial else serial - 1) \<rparr>"

definition slot_clear :: "u64 \<Rightarrow> slot \<Rightarrow> slot" where
  "slot_clear serial s = s\<lparr> sl_last := serial - 1 \<rparr>"

text \<open>DopedValidValue::operator=(const T&): the dope vector grows only when the slot was invalid.\<close>

definition slot_assign :: "u64 \<Rightarrow> ptype \<Rightarrow> slot \<times> dope_vector \<Rightarrow> slot \<times> dope_vector" where
  "slot_assign serial v sd =
     (let (s, d) = sd;
          d' = (if \<not> isValid serial s then dv_append (sl_index s) d else d)
      in (s\<lparr> sl_value := Some v, sl_last := serial \<rparr>, d'))"

subsection \<open>Events\<close>

record event =
  ev_dope :: dope_vector
  ev_params :: "slot list"
  ev_size :: i32
  ev_serial :: u64

definition knExpandSize :: nat where
  "knExpandSize = 256"

definition ExpandGranule :: "event \<Rightarrow> event" where
  "ExpandGranule e =
     (let ps = ev_params e @
                 map (\<lambda>i. new_slot (ev_size e + of_nat i) (ev_serial e)) [0..<knExpandSize]
      in e\<lparr> ev_params := ps, ev_size := of_nat (length ps) \<rparr>)"

lemma length_ExpandGranule [simp]:
  "length (ev_params (ExpandGranule e)) = length (ev_params e) + 256"
  by (simp add: ExpandGranule_def knExpandSize_def Let_def)

function Resize :: "u32 \<Rightarrow> event \<Rightarrow> event" where
  "Resize n e = (if length (ev_params e) < unat n then Resize n (ExpandGranule e) else e)"
  by pat_completeness auto
termination
  by (relation "measure (\<lambda>(n, e). unat n - length (ev_params e))") auto

declare Resize.simps [simp del]

definition new_event :: event where
  "new_event = \<lparr> ev_dope = dv_new, ev_params = [], ev_size = 0, ev_serial = 0 \<rparr>"

definition new_event_sized :: "u32 \<Rightarrow> event" where
  "new_event_sized n =
     (let e = Resize n new_event in e\<lparr> ev_size := of_nat (length (ev_params e)) \<rparr>)"

text \<open>
  operator[](UInt_t): the comparison with the int m_nSize is unsigned.  The result is the
  resized event and the position referred to; None is an access past the vector.
\<close>

definition ev_at :: "event \<Rightarrow> u32 \<Rightarrow> (event \<times> nat) option" where
  "ev_at e n =
     (let e' = (if ev_size e \<le> n then Resize (n + 1) e else e)
      in if unat n < length (ev_params e') then Some (e', unat n) else None)"

definition ev_set :: "u32 \<Rightarrow> ptype \<Rightarrow> event \<Rightarrow> event option" where
  "ev_set n v e = (case ev_at e n of
      None \<Rightarrow> None
    | Some (e', p) \<Rightarrow>
        (let (s, d) = slot_assign (ev_serial e') v (ev_params e' ! p, ev_dope e')
         in Some (e'\<lparr> ev_params := (ev_params e')[p := s], ev_dope := d \<rparr>)))"

definition ev_valid_at :: "u32 \<Rightarrow> event \<Rightarrow> (event \<times> bool) option" where
  "ev_valid_at n e = map_option (\<lambda>(e', p). (e', isValid (ev_serial e') (ev_params e' ! p))) (ev_at e n)"

definition ev_get :: "u32 \<Rightarrow> event \<Rightarrow> (event \<times> (string + ptype option)) option" where
  "ev_get n e = map_option (\<lambda>(e', p). (e', getValue (ev_serial e') (ev_params e' ! p))) (ev_at e n)"

text \<open>The idiom if(rEvent[n].isValid()) ... rEvent[n] ...: the value, if there is a valid one.\<close>

definition read_param :: "u32 \<Rightarrow> event \<Rightarrow> (event \<times> ptype option) option" where
  "read_param n e = (case ev_valid_at n e of
      None \<Rightarrow> None
    | Some (e', ok) \<Rightarrow>
        if \<not> ok then Some (e', None)
        else (case ev_get n e' of
                Some (e'', Inr (Some v)) \<Rightarrow> Some (e'', Some v)
              | _ \<Rightarrow> None))"

definition ev_clear :: "event \<Rightarrow> event" where
  "ev_clear e = e\<lparr> ev_serial := ev_serial e + 1, ev_dope := dv_reset (ev_dope e) \<rparr>"


subsection \<open>Invariant and abstraction\<close>

text \<open>
  Indices are ints in ExpandGranule, so everything is stated for events of at most
  2^31 - 256 slots; the serial number may not have wrapped.
\<close>

definition max_params :: nat where
  "max_params = 2 ^ 31 - 256"

definition slots_ok :: "event \<Rightarrow> bool" where
  "slots_ok e \<longleftrightarrow>
     length (ev_params e) \<le> max_params \<and> 256 dvd length (ev_params e) \<and>
     ev_size e = of_nat (length (ev_params e)) \<and> ev_serial e \<noteq> - 1 \<and>
     (\<forall>i < length (ev_params e).
        sl_index (ev_params e ! i) = of_nat i \<and>
        (sl_last (ev_params e ! i) = - 1 \<or> sl_last (ev_params e ! i) \<le> ev_serial e) \<and>
        (isValid (ev_serial e) (ev_params e ! i) \<longrightarrow> sl_value (ev_params e ! i) \<noteq> None))"

definition dope_ok :: "event \<Rightarrow> bool" where
  "dope_ok e \<longleftrightarrow>
     dv_ok (ev_dope e) \<and> distinct (dv_list (ev_dope e)) \<and>
     set (dv_list (ev_dope e)) =
       {of_nat i | i. i < length (ev_params e) \<and> isValid (ev_serial e) (ev_params e ! i)}"

definition ev_ok :: "event \<Rightarrow> bool" where
  "ev_ok e \<longleftrightarrow> slots_ok e \<and> dope_ok e"

definition ev_abs :: "event \<Rightarrow> nat \<Rightarrow> ptype option" where
  "ev_abs e i =
     (if i < length (ev_params e) \<and> isValid (ev_serial e) (ev_params e ! i)
      then sl_value (ev_params e ! i) else None)"

definition ev_order :: "event \<Rightarrow> nat list" where
  "ev_order e = map unat (dv_list (ev_dope e))"

lemma max_params_less: "i < max_params \<Longrightarrow> i < 2 ^ 32"
  by (simp add: max_params_def)

lemma unat_of_small: "i \<le> max_params \<Longrightarrow> unat (of_nat i :: u32) = i"
  by (simp add: max_params_def unat_of_nat)

lemma minus_one_max: "w \<noteq> - 1 \<Longrightarrow> w < (- 1 :: u64)"
  by (simp add: order.not_eq_order_implies_strict)

lemma ev_ok_new [simp]: "ev_ok new_event"
  by (simp add: ev_ok_def slots_ok_def dope_ok_def new_event_def max_params_def)

lemma ev_abs_new [simp]: "ev_abs new_event i = None"
  by (simp add: ev_abs_def new_event_def)

lemma nth_ExpandGranule:
  "i < length (ev_params e) + 256 \<Longrightarrow>
   ev_params (ExpandGranule e) ! i =
     (if i < length (ev_params e) then ev_params e ! i
      else new_slot (ev_size e + of_nat (i - length (ev_params e))) (ev_serial e))"
  by (simp add: ExpandGranule_def knExpandSize_def Let_def nth_append)

lemma ExpandGranule_sel [simp]:
  "ev_serial (ExpandGranule e) = ev_serial e" "ev_dope (ExpandGranule e) = ev_dope e"
  "ev_size (ExpandGranule e) = of_nat (length (ev_params e) + 256)"
  by (simp_all add: ExpandGranule_def knExpandSize_def Let_def)

lemma new_slot_invalid [simp]: "isValid s (new_slot i s) = False"
  by (simp add: isValid_def new_slot_def)

lemma new_slot_last: "sl_last (new_slot i s) = - 1 \<or> sl_last (new_slot i s) \<le> s"
proof (cases "s = 0")
  case False
  then have "s - 1 \<le> s" by (simp add: word_sub_le unat_gt_0 word_le_sub1 flip: word_neq_0_conv)
  then show ?thesis by (simp add: new_slot_def)
qed (simp add: new_slot_def)

lemma slots_ok_ExpandGranule:
  assumes "slots_ok e" "length (ev_params e) + 256 \<le> max_params"
  shows "slots_ok (ExpandGranule e)"
  unfolding slots_ok_def
proof (intro conjI allI impI)
  fix i assume i: "i < length (ev_params (ExpandGranule e))"
  show "sl_index (ev_params (ExpandGranule e) ! i) = word_of_nat i"
    using assms i by (simp add: slots_ok_def nth_ExpandGranule new_slot_def flip: of_nat_add)
qed (use assms new_slot_last in \<open>auto simp: slots_ok_def nth_ExpandGranule\<close>)

lemma valid_ExpandGranule:
  "i < length (ev_params e) + 256 \<Longrightarrow>
   isValid (ev_serial e) (ev_params (ExpandGranule e) ! i) \<longleftrightarrow>
     i < length (ev_params e) \<and> isValid (ev_serial e) (ev_params e ! i)"
  by (simp add: nth_ExpandGranule)

lemma ev_ok_ExpandGranule:
  assumes "ev_ok e" "length (ev_params e) + 256 \<le> max_params"
  shows "ev_ok (ExpandGranule e)"
  using assms slots_ok_ExpandGranule valid_ExpandGranule [of _ e]
  by (auto simp: ev_ok_def dope_ok_def cong: conj_cong)

lemma ev_abs_ExpandGranule: "ev_abs (ExpandGranule e) = ev_abs e"
  by (rule ext) (auto simp: ev_abs_def nth_ExpandGranule)

lemma Resize_spec:
  assumes "ev_ok e" "unat n \<le> max_params"
  shows "ev_ok (Resize n e) \<and> unat n \<le> length (ev_params (Resize n e)) \<and>
         ev_abs (Resize n e) = ev_abs e \<and> ev_dope (Resize n e) = ev_dope e \<and>
         ev_serial (Resize n e) = ev_serial e \<and>
         length (ev_params e) \<le> length (ev_params (Resize n e))"
  using assms
proof (induction n e rule: Resize.induct)
  case (1 n e)
  show ?case
  proof (cases "length (ev_params e) < unat n")
    case True
    have "256 dvd length (ev_params e)" using 1 by (simp add: ev_ok_def slots_ok_def)
    moreover have "256 dvd max_params" by (simp add: max_params_def)
    ultimately have "length (ev_params e) + 256 \<le> max_params"
      using True 1(3) by (elim dvdE) (simp add: max_params_def)
    then show ?thesis
      using 1 True ev_ok_ExpandGranule ev_abs_ExpandGranule
      by (simp add: Resize.simps [of n e])
  qed (use 1 in \<open>simp add: Resize.simps [of n e]\<close>)
qed

lemma ev_at_spec:
  assumes "ev_ok e" "unat n < max_params"
  obtains e' where "ev_at e n = Some (e', unat n)" "ev_ok e'" "unat n < length (ev_params e')"
    "ev_abs e' = ev_abs e" "ev_dope e' = ev_dope e" "ev_serial e' = ev_serial e"
    "length (ev_params e) \<le> length (ev_params e')"
proof (cases "ev_size e \<le> n")
  case True
  have "unat (n + 1) = Suc (unat n)"
    using assms(2) unat_add_lem [of n 1] by (simp add: max_params_def)
  then show ?thesis
    using that [of "Resize (n + 1) e"] Resize_spec [of e "n + 1"] assms True
    by (simp add: ev_at_def Let_def Suc_le_eq)
next
  case False
  have "unat (ev_size e) = length (ev_params e)"
    using assms(1) by (simp add: ev_ok_def slots_ok_def unat_of_small)
  then have "unat n < length (ev_params e)"
    using False by (simp add: word_le_nat_alt)
  then show ?thesis
    using that [of e] assms False by (simp add: ev_at_def Let_def)
qed


lemma word_of_nat_unat_self: "of_nat (unat (w :: u32)) = w"
  by simp

lemma of_nat_inj_small:
  "i < max_params \<Longrightarrow> j < max_params \<Longrightarrow> (of_nat i :: u32) = of_nat j \<longleftrightarrow> i = j"
  by (metis unat_of_small less_imp_le)

lemma dope_ok_mem:
  assumes "ev_ok e" "unat n < length (ev_params e)"
  shows "n \<in> set (dv_list (ev_dope e)) \<longleftrightarrow> isValid (ev_serial e) (ev_params e ! unat n)"
proof -
  have "n = of_nat i \<longleftrightarrow> unat n = i" if "i < length (ev_params e)" for i
    using that assms by (auto simp: ev_ok_def slots_ok_def unat_of_small)
  with assms show ?thesis by (auto simp: ev_ok_def dope_ok_def)
qed

lemma dope_ok_length:
  assumes "ev_ok e" shows "length (dv_list (ev_dope e)) \<le> length (ev_params e)"
proof -
  have d: "distinct (dv_list (ev_dope e))"
    and "set (dv_list (ev_dope e)) \<subseteq> of_nat ` {..<length (ev_params e)}"
    using assms by (auto simp: ev_ok_def dope_ok_def)
  then have "card (set (dv_list (ev_dope e))) \<le> card {..<length (ev_params e)}"
    by (meson card_image_le card_mono finite_imageI finite_lessThan le_trans)
  with d show ?thesis by (simp add: distinct_card)
qed

lemma slot_assign_ev_ok:
  fixes e :: event and n :: u32
  assumes ok: "ev_ok e" and n: "unat n < length (ev_params e)"
    and sa: "slot_assign (ev_serial e) v (ev_params e ! unat n, ev_dope e) = (s, d)"
  defines "e' \<equiv> e\<lparr> ev_params := (ev_params e)[unat n := s], ev_dope := d \<rparr>"
  shows "ev_ok e'" and "ev_abs e' = (ev_abs e)(unat n \<mapsto> v)"
    and "ev_order e' = (if unat n \<in> set (ev_order e) then ev_order e else ev_order e @ [unat n])"
proof -
  have ix: "sl_index (ev_params e ! unat n) = n"
    using ok n by (simp add: ev_ok_def slots_ok_def)
  have s: "s = \<lparr> sl_value = Some v, sl_index = n, sl_last = ev_serial e \<rparr>"
    and d: "d = (if isValid (ev_serial e) (ev_params e ! unat n) then ev_dope e else dv_append n (ev_dope e))"
    using sa ix by (auto simp: slot_assign_def Let_def)
  have len: "length (dv_list (ev_dope e)) < 2 ^ 32 - 1"
    using dope_ok_length [OF ok] ok by (simp add: ev_ok_def slots_ok_def max_params_def)
  have dok: "dv_ok (ev_dope e)" using ok by (simp add: ev_ok_def dope_ok_def)
  note app = dv_append_ok [OF dok len, of n]
  have mem: "n \<in> set (dv_list (ev_dope e)) \<longleftrightarrow> isValid (ev_serial e) (ev_params e ! unat n)"
    by (rule dope_ok_mem [OF ok n])
  have dl: "dv_list d = (if n \<in> set (dv_list (ev_dope e)) then dv_list (ev_dope e)
                         else dv_list (ev_dope e) @ [n])"
    using app mem d by simp
  have "slots_ok e'"
    using ok n unfolding ev_ok_def slots_ok_def e'_def s
    by (auto simp: nth_list_update)
  moreover have "set (dv_list d) = {of_nat i | i. i < length (ev_params e') \<and> isValid (ev_serial e') (ev_params e' ! i)}"
  proof -
    have "set (dv_list d) = insert n (set (dv_list (ev_dope e)))" using dl by auto
    also have "\<dots> = insert n {of_nat i | i. i < length (ev_params e) \<and> isValid (ev_serial e) (ev_params e ! i)}"
      using ok by (simp add: ev_ok_def dope_ok_def)
    also have "\<dots> = {of_nat i | i. i < length (ev_params e') \<and> isValid (ev_serial e') (ev_params e' ! i)}"
      using n by (auto simp: e'_def s nth_list_update isValid_def) (metis word_of_nat_unat_self)
    finally show ?thesis .
  qed
  ultimately show "ev_ok e'"
    using ok dl app d by (auto simp: ev_ok_def dope_ok_def e'_def)
  show "ev_abs e' = (ev_abs e)(unat n \<mapsto> v)"
    using n by (auto simp: ev_abs_def e'_def s nth_list_update isValid_def fun_eq_iff)
  show "ev_order e' = (if unat n \<in> set (ev_order e) then ev_order e else ev_order e @ [unat n])"
    using dl by (auto simp: ev_order_def e'_def dest: word_unat_eq_iff [THEN iffD2])
qed

lemma ev_set_spec:
  assumes "ev_ok e" "unat n < max_params"
  obtains e' where "ev_set n v e = Some e'" "ev_ok e'" "ev_abs e' = (ev_abs e)(unat n \<mapsto> v)"
    "ev_order e' = (if unat n \<in> set (ev_order e) then ev_order e else ev_order e @ [unat n])"
    "ev_serial e' = ev_serial e"
proof -
  obtain f where f: "ev_at e n = Some (f, unat n)" "ev_ok f" "unat n < length (ev_params f)"
    "ev_abs f = ev_abs e" "ev_dope f = ev_dope e" "ev_serial f = ev_serial e"
    "length (ev_params e) \<le> length (ev_params f)"
    using ev_at_spec [OF assms] by blast
  obtain s d where sd: "slot_assign (ev_serial f) v (ev_params f ! unat n, ev_dope f) = (s, d)"
    by fastforce
  show thesis
    using that [of "f\<lparr> ev_params := (ev_params f)[unat n := s], ev_dope := d \<rparr>"] f sd
      slot_assign_ev_ok [OF f(2,3) sd]
    by (simp add: ev_set_def ev_order_def)
qed

lemma ev_get_spec:
  assumes "ev_ok e" "unat n < max_params"
  obtains e' where "ev_ok e'" "ev_abs e' = ev_abs e" "ev_order e' = ev_order e"
    "length (ev_params e) \<le> length (ev_params e')" "ev_valid_at n e = Some (e', ev_abs e (unat n) \<noteq> None)"
    "ev_get n e = Some (e', case ev_abs e (unat n) of
         None \<Rightarrow> Inl ''Attempted getValue of unset ValidValue object''
       | Some v \<Rightarrow> Inr (Some v))"
proof -
  obtain f where f: "ev_at e n = Some (f, unat n)" "ev_ok f" "unat n < length (ev_params f)"
    "ev_abs f = ev_abs e" "ev_dope f = ev_dope e" "ev_serial f = ev_serial e"
    "length (ev_params e) \<le> length (ev_params f)"
    using ev_at_spec [OF assms] by blast
  have v: "isValid (ev_serial f) (ev_params f ! unat n) \<Longrightarrow> sl_value (ev_params f ! unat n) \<noteq> None"
    using f by (simp add: ev_ok_def slots_ok_def)
  have a: "ev_abs e (unat n) = (if isValid (ev_serial f) (ev_params f ! unat n)
                             then sl_value (ev_params f ! unat n) else None)"
    using f(3) fun_cong [OF f(4), of "unat n"] by (simp add: ev_abs_def)
  show thesis
  proof (rule that [of f])
    show "ev_get n e = Some (f, case ev_abs e (unat n) of
         None \<Rightarrow> Inl ''Attempted getValue of unset ValidValue object'' | Some v \<Rightarrow> Inr (Some v))"
      using f v a by (auto simp: ev_get_def getValue_def)
  qed (use f v a in \<open>auto simp: ev_valid_at_def ev_order_def\<close>)
qed

lemma read_param_spec:
  assumes "ev_ok e" "unat n < max_params"
  obtains e' where "read_param n e = Some (e', ev_abs e (unat n))" "ev_ok e'"
    "ev_abs e' = ev_abs e" "ev_order e' = ev_order e" "length (ev_params e) \<le> length (ev_params e')"
proof -
  obtain f where f: "ev_ok f" "ev_abs f = ev_abs e" "ev_order f = ev_order e"
    "length (ev_params e) \<le> length (ev_params f)"
    "ev_valid_at n e = Some (f, ev_abs e (unat n) \<noteq> None)"
    using ev_get_spec [OF assms] by metis
  obtain h where h: "ev_ok h" "ev_abs h = ev_abs f" "ev_order h = ev_order f"
    "length (ev_params f) \<le> length (ev_params h)"
    "ev_get n f = Some (h, case ev_abs f (unat n) of
         None \<Rightarrow> Inl ''Attempted getValue of unset ValidValue object'' | Some v \<Rightarrow> Inr (Some v))"
    using ev_get_spec [OF f(1) assms(2)] by metis
  show thesis
  proof (cases "ev_abs e (unat n)")
    case None
    then show ?thesis using that [of f] f by (simp add: read_param_def)
  next
    case (Some v)
    then show ?thesis using that [of h] f h by (simp add: read_param_def)
  qed
qed

lemma unat_minus_one_u64: "unat (- 1 :: u64) = 2 ^ 64 - 1"
  by (simp add: unsigned_minus_1_eq_mask mask_eq_exp_minus_1)

text \<open>Every serial recorded in a slot is older than the next one, so nothing survives a clear.\<close>

lemma stale_after_clear:
  assumes "unat (ev_serial e) < 2 ^ 64 - 2" "sl_last s = - 1 \<or> sl_last s \<le> ev_serial e"
  shows "\<not> isValid (ev_serial e + 1) s"
proof -
  have "unat (ev_serial e + 1) = unat (ev_serial e) + 1"
    using assms(1) unat_add_lem [of "ev_serial e" 1] by simp
  moreover have "ev_serial e + 1 \<noteq> - 1"
  proof
    assume "ev_serial e + 1 = - 1"
    then have "unat (ev_serial e + 1) = 2 ^ 64 - 1" by (simp only: unat_minus_one_u64)
    with calculation assms(1) show False by simp
  qed
  ultimately show ?thesis
    using assms by (auto simp: isValid_def word_le_nat_alt)
qed

lemma ev_clear_spec:
  assumes "ev_ok e" "unat (ev_serial e) < 2 ^ 64 - 2"
  shows "ev_ok (ev_clear e)" and "ev_abs (ev_clear e) = Map.empty" and "ev_order (ev_clear e) = []"
proof -
  have s: "unat (ev_serial e + 1) = unat (ev_serial e) + 1"
    using assms(2) unat_add_lem [of "ev_serial e" 1] by simp
  have inv: "\<not> isValid (ev_serial e + 1) (ev_params e ! i)" if "i < length (ev_params e)" for i
    using that assms by (intro stale_after_clear) (auto simp: ev_ok_def slots_ok_def)
  have ne: "ev_serial e + 1 \<noteq> - 1"
  proof
    assume "ev_serial e + 1 = - 1"
    then have "unat (ev_serial e + 1) = 2 ^ 64 - 1" by (simp only: unat_minus_one_u64)
    with s assms(2) show False by simp
  qed
  have "x \<le> ev_serial e + 1" if "x \<le> ev_serial e" for x
    using that s by (simp add: word_le_nat_alt)
  then have "slots_ok (ev_clear e)"
    using assms(1) inv ne by (auto simp: ev_ok_def slots_ok_def ev_clear_def)
  moreover have "dope_ok (ev_clear e)"
    using assms(1) inv by (auto simp: ev_ok_def dope_ok_def ev_clear_def)
  ultimately show "ev_ok (ev_clear e)" by (simp add: ev_ok_def)
  show "ev_abs (ev_clear e) = Map.empty"
    by (auto simp: ev_abs_def ev_clear_def fun_eq_iff dest: inv)
  show "ev_order (ev_clear e) = []" by (simp add: ev_order_def ev_clear_def)
qed


subsection \<open>A run of assignments\<close>

text \<open>The assignments an event processor makes to one event, in order.\<close>

fun ev_sets :: "(u32 \<times> ptype) list \<Rightarrow> event \<Rightarrow> event option" where
  "ev_sets [] e = Some e"
| "ev_sets ((n, v) # nvs) e = (case ev_set n v e of None \<Rightarrow> None | Some e' \<Rightarrow> ev_sets nvs e')"

fun first_seen :: "'a list \<Rightarrow> 'a list \<Rightarrow> 'a list" where
  "first_seen acc [] = acc"
| "first_seen acc (x # xs) = first_seen (if x \<in> set acc then acc else acc @ [x]) xs"

lemma set_first_seen: "set (first_seen acc xs) = set acc \<union> set xs"
  by (induction acc xs rule: first_seen.induct) auto

lemma distinct_first_seen: "distinct acc \<Longrightarrow> distinct (first_seen acc xs)"
  by (induction acc xs rule: first_seen.induct) auto

lemma ev_sets_spec:
  assumes "ev_ok e" "\<forall>(n, v) \<in> set nvs. unat n < max_params"
  shows "\<exists>e'. ev_sets nvs e = Some e' \<and> ev_ok e' \<and> ev_serial e' = ev_serial e \<and>
    ev_order e' = first_seen (ev_order e) (map (unat \<circ> fst) nvs) \<and>
    ev_abs e' = ev_abs e ++ map_of (rev (map (\<lambda>(n, v). (unat n, v)) nvs))"
  using assms
proof (induction nvs arbitrary: e)
  case (Cons nv nvs)
  obtain n v where nv: "nv = (n, v)" by fastforce
  obtain f where f: "ev_set n v e = Some f" "ev_ok f" "ev_abs f = (ev_abs e)(unat n \<mapsto> v)"
    "ev_order f = (if unat n \<in> set (ev_order e) then ev_order e else ev_order e @ [unat n])"
    "ev_serial f = ev_serial e"
    using ev_set_spec [OF Cons.prems(1), of n v thesis] Cons.prems(2) nv by auto
  have "ev_abs f ++ m = ev_abs e ++ (m' ++ m)" if "m' = [unat n \<mapsto> v]" for m m'
    using f(3) that by (simp add: map_add_def fun_eq_iff split: option.splits)
  then show ?case
    using Cons.IH [OF f(2)] Cons.prems(2) f(1,4,5) nv by (auto simp del: map_add_assoc)
qed simp

text \<open>
  C4. Filling a cleared event: after CEvent::clear, any sequence of assignments to
  parameters within the index range succeeds; the dope vector then holds exactly the
  assigned parameters, each once, in the order of their first assignment, and every
  parameter reads back as its last assigned value, all others being invalid.
\<close>

theorem event_refill:
  assumes "ev_ok e" "unat (ev_serial e) < 2 ^ 64 - 2" "\<forall>(n, v) \<in> set nvs. unat n < max_params"
  shows "\<exists>e'. ev_sets nvs (ev_clear e) = Some e' \<and> ev_ok e' \<and>
     ev_order e' = first_seen [] (map (unat \<circ> fst) nvs) \<and>
     ev_abs e' = map_of (rev (map (\<lambda>(n, v). (unat n, v)) nvs))"
  using ev_sets_spec [OF ev_clear_spec(1) [OF assms(1,2)] assms(3)] ev_clear_spec(2,3) [OF assms(1,2)]
  by auto

theorem event_refill_witness:
  "\<exists>e'. ev_sets [(2, 7), (300, 1/2), (2, 9)] (ev_clear new_event) = Some e' \<and> ev_ok e' \<and>
     ev_order e' = [2, 300] \<and> ev_abs e' 2 = Some 9 \<and> ev_abs e' 300 = Some (1/2) \<and> ev_abs e' 0 = None"
proof -
  have "unat (ev_serial new_event) < 2 ^ 64 - 2" by (simp add: new_event_def)
  from event_refill [OF ev_ok_new this, of "[(2, 7), (300, 1/2), (2, 9)]"]
  show ?thesis by (auto simp: max_params_def)
qed

end
