(* ===== verification/Geometry.thy ===== *)
theory Geometry
  imports Prelude
begin

text \<open>
  The arithmetic of the gates: single precision rounding (Float_t is float), truncation of
  a parameter value to UInt_t, and the point-in-polygon tests CPointListGate::Crosses,
  CBand::Interior and CContour::Inside (src/main/Core/PointlistGate.cpp, Band.cpp,
  Contour.cpp, C2Bands.cpp).  A finite float or double is the rational it denotes; every
  single precision operation rounds its exact result to nearest, ties to even, with
  gradual underflow.  Infinities and NaN are not represented.
\<close>

subsection \<open>Single precision\<close>

fun lg_up :: "nat \<Rightarrow> rat \<Rightarrow> int" where
  "lg_up k a = (if k = 0 \<or> a < 2 then 0 else 1 + lg_up (k - 1) (a / 2))"

fun lg_down :: "nat \<Rightarrow> rat \<Rightarrow> int" where
  "lg_down k a = (if k = 0 \<or> 1 \<le> a then 0 else lg_down (k - 1) (a * 2) - 1)"

declare lg_up.simps [simp del] lg_down.simps [simp del]

definition float_exponent :: "rat \<Rightarrow> int" where
  "float_exponent a = (if 1 \<le> a then lg_up 128 a else lg_down 126 a)"

definition round_even :: "rat \<Rightarrow> int" where
  "round_even q =
     (let f = \<lfloor>q\<rfloor>; r = q - of_int f
      in if r < 1 / 2 then f else if 1 / 2 < r then f + 1 else if even f then f else f + 1)"

definition pow2 :: "int \<Rightarrow> rat" where
  "pow2 e = (if 0 \<le> e then 2 ^ nat e else 1 / 2 ^ nat (- e))"

definition f32 :: "rat \<Rightarrow> rat" where
  "f32 x = (let u = pow2 (float_exponent \<bar>x\<bar> - 23) in of_int (round_even (x / u)) * u)"

text \<open>
  Conversion of a double to UInt_t.  Out of range the C++ conversion is undefined; the
  wrap-around is the one of a conversion through a 64-bit integer.
\<close>

definition to_u32 :: "rat \<Rightarrow> u32" where
  "to_u32 x = of_int (if 0 \<le> x then \<lfloor>x\<rfloor> else \<lceil>x\<rceil>)"

lemma round_even_of_int [simp]: "round_even (of_int n) = n"
  by (simp add: round_even_def)

lemma pow2_pos [simp]: "0 < pow2 e"
  by (simp add: pow2_def)

lemma pow2_inverse: "1 / pow2 e = pow2 (- e)"
  by (cases "e = 0") (auto simp: pow2_def)

lemma f32_fixed: "x / pow2 (float_exponent \<bar>x\<bar> - 23) = of_int n \<Longrightarrow> f32 x = x"
  by (simp add: f32_def Let_def field_simps) (metis mult_not_zero nonzero_eq_divide_eq pow2_pos order_less_irrefl)

lemma lg_up_nonneg: "0 \<le> lg_up k a"
proof (induction k a rule: lg_up.induct)
  case (1 k a)
  then show ?case by (subst lg_up.simps) auto
qed

lemma lg_up_le: "a < 2 ^ m \<Longrightarrow> 0 < m \<Longrightarrow> lg_up k a < int m"
proof (induction k a arbitrary: m rule: lg_up.induct)
  case (1 k a)
  show ?case
  proof (cases "k = 0 \<or> a < 2")
    case False
    with 1(2) have "m \<noteq> 1" by auto
    with 1(3) obtain m' where m: "m = Suc m'" "0 < m'" by (cases m) auto
    then show ?thesis using 1(1) [OF False, of m'] 1(2) False
      by (subst lg_up.simps) simp
  qed (use 1 in \<open>subst lg_up.simps; simp\<close>)
qed

text \<open>Every integer of magnitude below 2^24 is a float, so channel numbers lose nothing.\<close>

lemma f32_of_int:
  assumes "\<bar>n\<bar> < 2 ^ 24" shows "f32 (of_int n) = of_int n"
proof (cases "n = 0")
  case False
  then have ge: "1 \<le> \<bar>of_int n :: rat\<bar>" by linarith
  define e where "e = lg_up 128 \<bar>of_int n\<bar>"
  have "\<bar>of_int n :: rat\<bar> < 2 ^ 24" using assms by (metis of_int_abs of_int_less_iff of_int_numeral of_int_power)
  then have "e < 24" using lg_up_le [of "\<bar>of_int n\<bar>" 24 128] by (simp add: e_def)
  then obtain k where "23 - e = int k" using nonneg_int_cases [of "23 - e"] by auto
  then have k: "e - 23 = - int k" by simp
  have "pow2 (- int k) = 1 / 2 ^ k" by (cases "k = 0") (auto simp: pow2_def)
  then have "(of_int n :: rat) / pow2 (float_exponent \<bar>of_int n\<bar> - 23) = of_int (n * 2 ^ k)"
    using ge k by (simp add: float_exponent_def e_def)
  then show ?thesis by (rule f32_fixed)
qed (simp add: f32_def round_even_def)


subsection \<open>Point lists\<close>

type_synonym fpoint = "rat \<times> rat"

text \<open>Float_t operands give float results: every operation rounds.\<close>

definition Crosses :: "rat \<Rightarrow> rat \<Rightarrow> fpoint \<Rightarrow> fpoint \<Rightarrow> nat" where
  "Crosses x y f s =
     (let y1 = snd f; y2 = snd s in
      if y < y1 \<and> y < y2 then 0
      else if y1 \<le> y \<and> y2 \<le> y then 0
      else let x1 = fst f; x2 = fst s in
        if x < x1 \<and> x < x2 then 0
        else if x1 \<le> x \<and> x2 \<le> x then 1
        else if y2 = y1 then (if y = y2 then 1 else 0)
        else let invslope = f32 (f32 (x2 - x1) / f32 (y2 - y1));
                 xp = f32 (x1 + f32 (invslope * f32 (y - y1)))
             in if xp \<le> x then 1 else 0)"

text \<open>The loop of CBand::Interior over consecutive points, with its accumulator.\<close>

fun band_loop :: "rat \<Rightarrow> rat \<Rightarrow> fpoint list \<Rightarrow> nat \<Rightarrow> nat" where
  "band_loop x y (f # s # ps) c = band_loop x y (s # ps) (c + Crosses x y f s)"
| "band_loop x y ps c = c"

text \<open>Left and right limits of a band: its end points ordered by x.\<close>

definition GetLRLimits :: "fpoint list \<Rightarrow> fpoint \<times> fpoint" where
  "GetLRLimits pts = (let f = hd pts; l = last pts in if fst f < fst l then (f, l) else (l, f))"

text \<open>None is the failing assertion on the number of segments.\<close>

definition Interior :: "fpoint list \<Rightarrow> fpoint \<times> fpoint \<Rightarrow> rat \<Rightarrow> rat \<Rightarrow> bool option" where
  "Interior pts lr x y =
     (let c0 = (if y < snd (fst lr) \<and> fst (fst lr) \<le> x then 1 else 0);
          c1 = (if y < snd (snd lr) \<and> fst (snd lr) \<le> x then c0 + 1 else c0)
      in if length pts < 2 then None else Some (odd (band_loop x y pts c1)))"

fun min_element :: "('a \<Rightarrow> 'a \<Rightarrow> bool) \<Rightarrow> 'a \<Rightarrow> 'a list \<Rightarrow> 'a" where
  "min_element lt m [] = m"
| "min_element lt m (x # xs) = min_element lt (if lt x m then x else m) xs"

fun max_element :: "('a \<Rightarrow> 'a \<Rightarrow> bool) \<Rightarrow> 'a \<Rightarrow> 'a list \<Rightarrow> 'a" where
  "max_element lt m [] = m"
| "max_element lt m (x # xs) = max_element lt (if lt m x then x else m) xs"

definition YCompare :: "fpoint \<Rightarrow> fpoint \<Rightarrow> bool" where
  "YCompare p1 p2 \<longleftrightarrow> snd p1 < snd p2"

definition XCompare :: "fpoint \<Rightarrow> fpoint \<Rightarrow> bool" where
  "XCompare p1 p2 \<longleftrightarrow> fst p1 < fst p2"

text \<open>Lower left and upper right corners of the bounding box of a contour.\<close>

definition GenerateInterior :: "fpoint list \<Rightarrow> fpoint \<times> fpoint" where
  "GenerateInterior pts =
     (let yl = snd (min_element YCompare (hd pts) (tl pts));
          yh = snd (max_element YCompare (hd pts) (tl pts));
          xl = fst (min_element XCompare (hd pts) (tl pts));
          xh = fst (max_element XCompare (hd pts) (tl pts))
      in ((xl, yl), (xh, yh)))"

text \<open>The loop of CContour::Inside: after the last point the second iterator wraps to the first.\<close>

fun contour_loop :: "rat \<Rightarrow> rat \<Rightarrow> fpoint \<Rightarrow> fpoint list \<Rightarrow> nat \<Rightarrow> nat" where
  "contour_loop x y b (f # s # ps) c = contour_loop x y b (s # ps) (c + Crosses x y f s)"
| "contour_loop x y b [f] c = c + Crosses x y f b"
| "contour_loop x y b [] c = c"

definition Inside :: "fpoint list \<Rightarrow> fpoint \<times> fpoint \<Rightarrow> rat \<Rightarrow> rat \<Rightarrow> bool option" where
  "Inside pts box x y =
     (if x < fst (fst box) \<or> fst (snd box) < x \<or> y < snd (fst box) \<or> snd (snd box) < y
      then Some False
      else if length pts \<le> 2 then None
      else Some (odd (contour_loop x y (hd pts) pts 0)))"

text \<open>
  C2Bands::MarshallPoints joins two bands into one contour.  It reverses the caller's
  vectors in place, so they are part of the result.
\<close>

definition MarshallPoints ::
  "fpoint list \<Rightarrow> fpoint list \<Rightarrow> (fpoint list \<times> fpoint list) \<times> fpoint list" where
  "MarshallPoints low hi =
     (let low' = (if fst (low ! (length low - 1)) < fst (low ! 0) then rev low else low);
          hi' = (if fst (hi ! (length hi - 1)) < fst (hi ! 0) then rev hi else hi)
      in ((low', hi'), hi' @ rev low'))"

subsection \<open>Crossing counts\<close>

definition below :: "rat \<Rightarrow> fpoint \<Rightarrow> bool" where
  "below y p \<longleftrightarrow> y < snd p"

lemma Crosses_left: "x < fst f \<Longrightarrow> x < fst s \<Longrightarrow> Crosses x y f s = 0"
  by (simp add: Crosses_def Let_def)

lemma Crosses_right:
  "fst f \<le> x \<Longrightarrow> fst s \<le> x \<Longrightarrow> Crosses x y f s = (if below y f \<noteq> below y s then 1 else 0)"
  by (auto simp: Crosses_def Let_def below_def)

lemma Crosses_same_side: "below y f = below y s \<Longrightarrow> Crosses x y f s = 0"
  by (auto simp: Crosses_def Let_def below_def)

lemma Crosses_le_1: "Crosses x y f s \<le> 1"
  by (simp add: Crosses_def Let_def)

lemma band_loop_acc: "band_loop x y ps c = c + band_loop x y ps 0"
proof (induction ps arbitrary: c rule: induct_list012)
  case (3 f s ps)
  show ?case
    using 3(2) [of "c + Crosses x y f s"] 3(2) [of "Crosses x y f s"] by simp
qed auto

lemma band_loop_Cons: "band_loop x y (f # s # ps) 0 = Crosses x y f s + band_loop x y (s # ps) 0"
  using band_loop_acc [of x y "s # ps" "Crosses x y f s"] by simp

lemma band_loop_append:
  "band_loop x y (ps @ p # qs) 0 = band_loop x y (ps @ [p]) 0 + band_loop x y (p # qs) 0"
proof (induction ps)
  case (Cons a ps)
  then show ?case by (cases ps) (simp_all add: band_loop_Cons del: band_loop.simps(1))
qed simp

lemma band_loop_left: "\<forall>p \<in> set ps. x < fst p \<Longrightarrow> band_loop x y ps 0 = 0"
  by (induction ps rule: induct_list012) (simp_all add: Crosses_left)

lemma band_loop_same_side:
  "\<forall>p \<in> set ps. below y p = b \<Longrightarrow> band_loop x y ps 0 = 0"
  by (induction ps rule: induct_list012) (simp_all add: Crosses_same_side)

lemma band_loop_right:
  "\<forall>p \<in> set ps. fst p \<le> x \<Longrightarrow> ps \<noteq> [] \<Longrightarrow>
   odd (band_loop x y ps 0) \<longleftrightarrow> below y (hd ps) \<noteq> below y (last ps)"
proof (induction ps rule: induct_list012)
  case (3 f s ps)
  then show ?case by (auto simp: band_loop_Cons Crosses_right simp del: band_loop.simps(1))
qed auto

lemma contour_loop_band:
  "ps \<noteq> [] \<Longrightarrow> contour_loop x y b ps c = c + band_loop x y ps 0 + Crosses x y (last ps) b"
proof (induction ps arbitrary: c rule: induct_list012)
  case (3 f s ps)
  then show ?case using band_loop_Cons [of x y f s ps] by simp
qed auto

lemma min_element_le:
  fixes k :: "'a \<Rightarrow> rat"
  assumes "\<And>p q. lt p q \<longleftrightarrow> k p < k q"
  shows "p \<in> set (m # xs) \<Longrightarrow> k (min_element lt m xs) \<le> k p"
proof -
  have "k (min_element lt m xs) \<le> k m \<and> (\<forall>p \<in> set xs. k (min_element lt m xs) \<le> k p)"
  proof (induction xs arbitrary: m)
    case (Cons a xs)
    show ?case using Cons.IH [of a] Cons.IH [of m] by (auto simp: assms)
  qed simp
  then show "p \<in> set (m # xs) \<Longrightarrow> k (min_element lt m xs) \<le> k p" by auto
qed

lemma max_element_ge:
  fixes k :: "'a \<Rightarrow> rat"
  assumes "\<And>p q. lt p q \<longleftrightarrow> k p < k q"
  shows "p \<in> set (m # xs) \<Longrightarrow> k p \<le> k (max_element lt m xs)"
proof -
  have "k m \<le> k (max_element lt m xs) \<and> (\<forall>p \<in> set xs. k p \<le> k (max_element lt m xs))"
  proof (induction xs arbitrary: m)
    case (Cons a xs)
    show ?case using Cons.IH [of a] Cons.IH [of m] by (auto simp: assms)
  qed simp
  then show "p \<in> set (m # xs) \<Longrightarrow> k p \<le> k (max_element lt m xs)" by auto
qed

lemma GenerateInterior_bounds:
  assumes "p \<in> set pts"
  shows "fst (fst (GenerateInterior pts)) \<le> fst p" "fst p \<le> fst (snd (GenerateInterior pts))"
    "snd (fst (GenerateInterior pts)) \<le> snd p" "snd p \<le> snd (snd (GenerateInterior pts))"
proof -
  have p: "p \<in> set (hd pts # tl pts)" using assms by (cases pts) auto
  show "fst (fst (GenerateInterior pts)) \<le> fst p"
    using min_element_le [of XCompare fst, OF XCompare_def p] by (simp add: GenerateInterior_def Let_def)
  show "fst p \<le> fst (snd (GenerateInterior pts))"
    using max_element_ge [of XCompare fst, OF XCompare_def p] by (simp add: GenerateInterior_def Let_def)
  show "snd (fst (GenerateInterior pts)) \<le> snd p"
    using min_element_le [of YCompare snd, OF YCompare_def p] by (simp add: GenerateInterior_def Let_def)
  show "snd p \<le> snd (snd (GenerateInterior pts))"
    using max_element_ge [of YCompare snd, OF YCompare_def p] by (simp add: GenerateInterior_def Let_def)
qed

lemma even_beside_polygon:
  assumes "pts \<noteq> []"
    "(\<forall>p \<in> set pts. x < fst p) \<or> (\<forall>p \<in> set pts. fst p \<le> x) \<or>
     (\<forall>p \<in> set pts. y < snd p) \<or> (\<forall>p \<in> set pts. snd p \<le> y)"
  shows "even (contour_loop x y (hd pts) pts 0)"
proof -
  have hl: "hd pts \<in> set pts" "last pts \<in> set pts" using assms(1) by auto
  have c: "contour_loop x y (hd pts) pts 0 = band_loop x y pts 0 + Crosses x y (last pts) (hd pts)"
    using contour_loop_band [OF assms(1)] by simp
  from assms(2) show ?thesis
  proof (elim disjE)
    assume "\<forall>p \<in> set pts. x < fst p"
    then show ?thesis using c hl band_loop_left [of pts x y] by (simp add: Crosses_left)
  next
    assume "\<forall>p \<in> set pts. fst p \<le> x"
    then show ?thesis using c hl band_loop_right [of pts x y] assms(1) by (auto simp: Crosses_right)
  next
    assume "\<forall>p \<in> set pts. y < snd p"
    then show ?thesis using c hl band_loop_same_side [of pts y True x]
      by (simp add: below_def Crosses_same_side)
  next
    assume "\<forall>p \<in> set pts. snd p \<le> y"
    then have "\<forall>p \<in> set pts. below y p = False" by (simp add: below_def not_less)
    then show ?thesis using c hl band_loop_same_side [of pts y False x]
        Crosses_same_side [of y "last pts" "hd pts" x] by simp
  qed
qed

text \<open>
  C7. The bounding box test of CContour::Inside is a pure optimisation: for every contour
  of at least three points and every point of the plane the answer is the parity of the
  number of segments crossed, whatever the rounding of the slopes.
\<close>

theorem contour_inside_parity:
  assumes "2 < length pts"
  shows "Inside pts (GenerateInterior pts) x y = Some (odd (contour_loop x y (hd pts) pts 0))"
proof (cases "x < fst (fst (GenerateInterior pts)) \<or> fst (snd (GenerateInterior pts)) < x \<or>
              y < snd (fst (GenerateInterior pts)) \<or> snd (snd (GenerateInterior pts)) < y")
  case True
  have "even (contour_loop x y (hd pts) pts 0)"
  proof (rule even_beside_polygon)
    show "(\<forall>p \<in> set pts. x < fst p) \<or> (\<forall>p \<in> set pts. fst p \<le> x) \<or>
          (\<forall>p \<in> set pts. y < snd p) \<or> (\<forall>p \<in> set pts. snd p \<le> y)"
      using True GenerateInterior_bounds by (meson less_imp_le order.strict_trans1 order.strict_trans2)
  qed (use assms in auto)
  with True show ?thesis by (simp add: Inside_def)
next
  case False
  with assms show ?thesis by (auto simp: Inside_def)
qed

theorem contour_inside_parity_witness:
  "Inside [(0,0), (4,0), (0,4)] (GenerateInterior [(0,0), (4,0), (0,4)]) 1 1 =
   Some (odd (contour_loop 1 1 (0,0) [(0,0), (4,0), (0,4)] 0))"
  using contour_inside_parity [of "[(0,0), (4,0), (0,4)]" 1 1] by simp


text \<open>A band over points of increasing x decides with the one segment above or below the tested point.\<close>

lemma band_one_segment:
  assumes "sorted_wrt (<) (map fst (ps @ p # q # qs))" "fst p \<le> x" "x < fst q"
  shows "Interior (ps @ p # q # qs) (GetLRLimits (ps @ p # q # qs)) x y =
         Some ((y < snd p) \<noteq> (Crosses x y p q = 1))"
proof -
  let ?pts = "ps @ p # q # qs"
  have l: "\<forall>r \<in> set (ps @ [p]). fst r \<le> x" and r: "\<forall>r \<in> set (q # qs). x < fst r"
    using assms by (auto simp: sorted_wrt_append)
  have last: "x < fst (last ?pts)" using r by simp
  have h: "fst (hd ?pts) \<le> x" "hd (ps @ [p]) = hd ?pts" using l by (cases ps; simp)+
  have lim: "GetLRLimits ?pts = (hd ?pts, last ?pts)"
    using last h by (simp add: GetLRLimits_def Let_def)
  define c where "c = (if y < snd (hd ?pts) then 1 else 0 :: nat)"
  have I: "Interior ?pts (GetLRLimits ?pts) x y = Some (odd (band_loop x y ?pts c))"
    using last h by (simp add: Interior_def lim c_def Let_def)
  have "band_loop x y ?pts c = c + (band_loop x y (ps @ [p]) 0 + band_loop x y (p # q # qs) 0)"
    using band_loop_acc [of x y ?pts c] band_loop_append [of x y ps p "q # qs"] by simp
  moreover have "band_loop x y (p # q # qs) 0 = Crosses x y p q"
    using band_loop_Cons [of x y p q qs] band_loop_left [of "q # qs" x y] r by simp
  moreover have "odd (band_loop x y (ps @ [p]) 0) \<longleftrightarrow> (y < snd (hd ?pts)) \<noteq> (y < snd p)"
    using band_loop_right [OF l, of y] h(2) by (simp add: below_def)
  moreover have "odd (Crosses x y p q) \<longleftrightarrow> Crosses x y p q = 1"
    using Crosses_le_1 [of x y p q] by (cases "Crosses x y p q = 0") auto
  ultimately show ?thesis using I by (auto simp: c_def)
qed


end
