(* ===== verification/Gates.thy ===== *)
theory Gates
  imports Events Geometry
begin

text \<open>
  The gate hierarchy (src/main/Core/Gate.cpp and its subclasses) and the gate containers
  it is evaluated through (GateContainer.h).  A gate is its two CGate flags and a body, one
  constructor per class.  Compound gates hold pointers to containers; containers are nodes
  of the gate dictionary and are never removed from it, so a pointer is modelled by the
  container's name and the store is the dictionary's map.  Evaluation threads the store
  (cached values) and the event (mask gates index it without a bounds check and may resize
  it).  None is a computation that does not return (a gate that depends on itself, at any
  fuel) or is undefined.
\<close>

subsection \<open>Gates and containers\<close>

record plist =
  pl_nxId :: u32
  pl_nyId :: u32
  pl_points :: "fpoint list"

datatype gate_body =
    CCut rat rat u32
  | CBand plist "fpoint \<times> fpoint"
  | CContour plist "fpoint \<times> fpoint"
  | C2Bands plist "fpoint \<times> fpoint"
  | CAndGate "string list"
  | COrGate "string list"
  | CNot string
  | CTrueGate
  | CFalseGate
  | CDeletedGate
  | CMaskAndGate u32 u32
  | CMaskEqualGate u32 u32
  | CMaskNotGate u32 u32
  | CGammaCut rat rat "u32 list"
  | CGammaBand plist "fpoint \<times> fpoint" "u32 list"
  | CGammaContour plist "fpoint \<times> fpoint" "u32 list"

record gate =
  g_fChecked :: bool
  g_fCachedValue :: bool
  g_body :: gate_body

record container =
  gc_name :: string
  gc_number :: u32
  gc_gate :: gate

type_synonym gate_store = "(string \<times> container) list"

definition new_gate :: "gate_body \<Rightarrow> gate" where
  "new_gate b = \<lparr> g_fChecked = False, g_fCachedValue = False, g_body = b \<rparr>"

text \<open>The constructors that compute something: limits, bounding boxes, the joined bands.\<close>

definition mk_band :: "u32 \<Rightarrow> u32 \<Rightarrow> fpoint list \<Rightarrow> gate" where
  "mk_band x y pts =
     new_gate (CBand \<lparr> pl_nxId = x, pl_nyId = y, pl_points = pts \<rparr> (GetLRLimits pts))"

definition mk_contour :: "u32 \<Rightarrow> u32 \<Rightarrow> fpoint list \<Rightarrow> gate" where
  "mk_contour x y pts =
     new_gate (CContour \<lparr> pl_nxId = x, pl_nyId = y, pl_points = pts \<rparr> (GenerateInterior pts))"

definition mk_2bands :: "u32 \<Rightarrow> u32 \<Rightarrow> fpoint list \<Rightarrow> fpoint list \<Rightarrow> gate" where
  "mk_2bands x y low hi =
     (let pts = snd (MarshallPoints low hi)
      in new_gate (C2Bands \<lparr> pl_nxId = x, pl_nyId = y, pl_points = pts \<rparr> (GenerateInterior pts)))"

text \<open>The gamma gates pass the first two parameters to their base class.\<close>

definition mk_gamma_band :: "fpoint list \<Rightarrow> u32 list \<Rightarrow> gate" where
  "mk_gamma_band pts ps =
     new_gate (CGammaBand \<lparr> pl_nxId = ps ! 0, pl_nyId = ps ! 1, pl_points = pts \<rparr> (GetLRLimits pts) ps)"

definition mk_gamma_contour :: "fpoint list \<Rightarrow> u32 list \<Rightarrow> gate" where
  "mk_gamma_contour pts ps =
     new_gate (CGammaContour \<lparr> pl_nxId = ps ! 0, pl_nyId = ps ! 1, pl_points = pts \<rparr>
                 (GenerateInterior pts) ps)"

text \<open>
  clone copies the flags with CGate's copy constructor; CNot's copy constructor does not
  call it, and CDeletedGate inherits CFalseGate's clone.
\<close>

definition clone :: "gate \<Rightarrow> gate" where
  "clone g = (case g_body g of
      CNot n \<Rightarrow> new_gate (CNot n)
    | CDeletedGate \<Rightarrow> g\<lparr> g_body := CFalseGate \<rparr>
    | _ \<Rightarrow> g)"

definition new_container :: "string \<Rightarrow> u32 \<Rightarrow> gate \<Rightarrow> container" where
  "new_container nm n g = \<lparr> gc_name = nm, gc_number = n, gc_gate = clone g \<rparr>"

definition setGate :: "gate \<Rightarrow> container \<Rightarrow> container" where
  "setGate g c = c\<lparr> gc_gate := clone g \<rparr>"

text \<open>caches, Type (the const member the base class dispatches to) and getDependentGates.\<close>

definition caches :: "gate_body \<Rightarrow> bool" where
  "caches b = (case b of CTrueGate \<Rightarrow> False | CFalseGate \<Rightarrow> False | CDeletedGate \<Rightarrow> False | _ \<Rightarrow> True)"

definition gate_type :: "gate_body \<Rightarrow> string" where
  "gate_type b = (case b of
      CCut _ _ _ \<Rightarrow> ''s'' | CBand _ _ \<Rightarrow> ''b'' | CContour _ _ \<Rightarrow> ''c'' | C2Bands _ _ \<Rightarrow> ''c''
    | CAndGate _ \<Rightarrow> ''*'' | COrGate _ \<Rightarrow> ''+'' | CNot _ \<Rightarrow> ''-''
    | CTrueGate \<Rightarrow> ''T'' | CFalseGate \<Rightarrow> ''F'' | CDeletedGate \<Rightarrow> ''F''
    | CMaskAndGate _ _ \<Rightarrow> ''am'' | CMaskEqualGate _ _ \<Rightarrow> ''em'' | CMaskNotGate _ _ \<Rightarrow> ''nm''
    | CGammaCut _ _ _ \<Rightarrow> ''gs'' | CGammaBand _ _ _ \<Rightarrow> ''gb'' | CGammaContour _ _ _ \<Rightarrow> ''gc'')"

definition getDependentGates :: "gate_body \<Rightarrow> string list" where
  "getDependentGates b = (case b of CAndGate ns \<Rightarrow> ns | COrGate ns \<Rightarrow> ns | CNot n \<Rightarrow> [n] | _ \<Rightarrow> [])"

subsection \<open>Gates on parameters\<close>

text \<open>
  rEvent[id] where the code has tested id < rEvent.size(): no resize happens and the slot
  is read in place.  None is an invalid parameter.
\<close>

definition param_if_valid :: "event \<Rightarrow> u32 \<Rightarrow> ptype option" where
  "param_if_valid e n =
     (if isValid (ev_serial e) (ev_params e ! unat n) then sl_value (ev_params e ! unat n) else None)"

definition cut_inGate_x :: "rat \<Rightarrow> rat \<Rightarrow> rat \<Rightarrow> bool" where
  "cut_inGate_x low high x \<longleftrightarrow> low \<le> x \<and> x < high"

definition cut_inGate :: "rat \<Rightarrow> rat \<Rightarrow> u32 \<Rightarrow> event \<Rightarrow> bool" where
  "cut_inGate low high n e =
     (if ev_size e \<le> n then False
      else case param_if_valid e n of
             Some v \<Rightarrow> cut_inGate_x low high (f32 v)
           | None \<Rightarrow> False)"

definition pointlist_inGate :: "plist \<Rightarrow> (rat \<Rightarrow> rat \<Rightarrow> bool option) \<Rightarrow> event \<Rightarrow> bool option" where
  "pointlist_inGate pl inside e =
     (if pl_nxId pl < ev_size e \<and> pl_nyId pl < ev_size e
      then (case (param_if_valid e (pl_nxId pl), param_if_valid e (pl_nyId pl)) of
              (Some x, Some y) \<Rightarrow> inside (f32 x) (f32 y)
            | _ \<Rightarrow> Some False)
      else Some False)"

text \<open>Mask gates use rEvent[m_nId] twice, without a bounds check.\<close>

definition mask_inGate :: "u32 \<Rightarrow> (u32 \<Rightarrow> bool) \<Rightarrow> event \<Rightarrow> (bool \<times> event) option" where
  "mask_inGate n test e = map_option
     (\<lambda>(e', v). (case v of None \<Rightarrow> False | Some x \<Rightarrow> test (to_u32 x), e')) (read_param n e)"

definition maskand_test :: "u32 \<Rightarrow> u32 \<Rightarrow> bool" where
  "maskand_test cmp value \<longleftrightarrow> and value cmp = cmp"

definition maskequal_test :: "u32 \<Rightarrow> u32 \<Rightarrow> bool" where
  "maskequal_test cmp value \<longleftrightarrow> value = cmp"

text \<open>The complement is taken at 32 bits and then widened to unsigned long.\<close>

definition masknot_test :: "u32 \<Rightarrow> u32 \<Rightarrow> bool" where
  "masknot_test cmp value \<longleftrightarrow>
     (let comp = ucast (not cmp) :: u64 in and (ucast value) comp = comp)"

fun gammacut_inGate :: "rat \<Rightarrow> rat \<Rightarrow> u32 list \<Rightarrow> event \<Rightarrow> bool" where
  "gammacut_inGate low high [] e = False"
| "gammacut_inGate low high (n # ns) e =
     (if n < ev_size e \<and>
         (case param_if_valid e n of Some v \<Rightarrow> cut_inGate_x low high (f32 v) | None \<Rightarrow> False)
      then True else gammacut_inGate low high ns e)"

text \<open>
  The double loop of CGammaBand::inGate and CGammaContour::inGate: every pair of
  parameters, tried both ways round.
\<close>

definition gamma_pair :: "(rat \<Rightarrow> rat \<Rightarrow> bool option) \<Rightarrow> event \<Rightarrow> u32 \<Rightarrow> u32 \<Rightarrow> bool option" where
  "gamma_pair inside e i j =
     (if i < ev_size e \<and> j < ev_size e
      then (case (param_if_valid e i, param_if_valid e j) of
              (Some iv, Some jv) \<Rightarrow>
                (case inside (f32 iv) (f32 jv) of
                   None \<Rightarrow> None
                 | Some True \<Rightarrow> Some True
                 | Some False \<Rightarrow> inside (f32 jv) (f32 iv))
            | _ \<Rightarrow> Some False)
      else Some False)"

fun gamma_row :: "(rat \<Rightarrow> rat \<Rightarrow> bool option) \<Rightarrow> event \<Rightarrow> u32 \<Rightarrow> u32 list \<Rightarrow> bool option" where
  "gamma_row inside e i [] = Some False"
| "gamma_row inside e i (j # js) = (case gamma_pair inside e i j of
      None \<Rightarrow> None | Some True \<Rightarrow> Some True | Some False \<Rightarrow> gamma_row inside e i js)"

fun gamma_inGate :: "(rat \<Rightarrow> rat \<Rightarrow> bool option) \<Rightarrow> event \<Rightarrow> u32 list \<Rightarrow> bool option" where
  "gamma_inGate inside e [] = Some False"
| "gamma_inGate inside e (i # js) = (case gamma_row inside e i js of
      None \<Rightarrow> None | Some True \<Rightarrow> Some True | Some False \<Rightarrow> gamma_inGate inside e js)"

subsection \<open>Evaluation with cached values\<close>

text \<open>
  What operator() computes for a gate that is not compound and whose value is not cached.
  CBand::operator() names CPointListGate::inGate explicitly, so the virtual inGate of
  CGammaBand is not reached from it.
\<close>

definition leaf_inGate :: "gate_body \<Rightarrow> event \<Rightarrow> (bool \<times> event) option" where
  "leaf_inGate b e = (case b of
      CCut lo hi n \<Rightarrow> Some (cut_inGate lo hi n e, e)
    | CBand pl lr \<Rightarrow> map_option (\<lambda>r. (r, e)) (pointlist_inGate pl (Interior (pl_points pl) lr) e)
    | CContour pl bx \<Rightarrow> map_option (\<lambda>r. (r, e)) (pointlist_inGate pl (Inside (pl_points pl) bx) e)
    | C2Bands pl bx \<Rightarrow> map_option (\<lambda>r. (r, e)) (pointlist_inGate pl (Inside (pl_points pl) bx) e)
    | CMaskAndGate n c \<Rightarrow> mask_inGate n (maskand_test c) e
    | CMaskEqualGate n c \<Rightarrow> mask_inGate n (maskequal_test c) e
    | CMaskNotGate n c \<Rightarrow> mask_inGate n (masknot_test c) e
    | CGammaCut lo hi ps \<Rightarrow> Some (gammacut_inGate lo hi ps e, e)
    | CGammaBand pl lr ps \<Rightarrow> map_option (\<lambda>r. (r, e)) (pointlist_inGate pl (Interior (pl_points pl) lr) e)
    | CGammaContour pl bx ps \<Rightarrow> map_option (\<lambda>r. (r, e)) (gamma_inGate (Inside (pl_points pl) bx) e ps)
    | _ \<Rightarrow> None)"

type_synonym eval_state = "gate_store \<times> event"

definition set_cached :: "string \<Rightarrow> bool \<Rightarrow> gate_store \<Rightarrow> gate_store" where
  "set_cached nm v st = map (\<lambda>(k, c).
     (k, if k = nm then c\<lparr> gc_gate := (gc_gate c)\<lparr> g_fChecked := True, g_fCachedValue := v \<rparr> \<rparr> else c)) st"

text \<open>The loops of CAndGate::inGate and COrGate::inGate, over the containers' operator().\<close>

fun and_loop :: "(string \<Rightarrow> eval_state \<Rightarrow> (bool \<times> eval_state) option) \<Rightarrow>
    string list \<Rightarrow> eval_state \<Rightarrow> (bool \<times> eval_state) option" where
  "and_loop op [] s = Some (True, s)"
| "and_loop op (n # ns) s = (case op n s of
      None \<Rightarrow> None
    | Some (b, s') \<Rightarrow> if \<not> b then Some (False, s') else and_loop op ns s')"

fun or_loop :: "(string \<Rightarrow> eval_state \<Rightarrow> (bool \<times> eval_state) option) \<Rightarrow>
    string list \<Rightarrow> eval_state \<Rightarrow> (bool \<times> eval_state) option" where
  "or_loop op [] s = Some (False, s)"
| "or_loop op (n # ns) s = (case op n s of
      None \<Rightarrow> None
    | Some (b, s') \<Rightarrow> if b then Some (True, s') else or_loop op ns s')"

definition not_inGate :: "(string \<Rightarrow> eval_state \<Rightarrow> (bool \<times> eval_state) option) \<Rightarrow>
    string \<Rightarrow> eval_state \<Rightarrow> (bool \<times> eval_state) option" where
  "not_inGate op n s = map_option (\<lambda>(b, s'). (\<not> b, s')) (op n s)"

definition inGate :: "(string \<Rightarrow> eval_state \<Rightarrow> (bool \<times> eval_state) option) \<Rightarrow>
    gate_body \<Rightarrow> eval_state \<Rightarrow> (bool \<times> eval_state) option" where
  "inGate op b s = (case b of
      CAndGate ns \<Rightarrow> and_loop op ns s
    | COrGate ns \<Rightarrow> or_loop op ns s
    | CNot n \<Rightarrow> not_inGate op n s
    | _ \<Rightarrow> map_option (\<lambda>(r, e). (r, (fst s, e))) (leaf_inGate b (snd s)))"

text \<open>
  CGateContainer::operator() and the gates' operator(): the constant gates answer at
  once, all others evaluate once and then return the cached value until they are reset.
\<close>

fun gate_op :: "nat \<Rightarrow> string \<Rightarrow> eval_state \<Rightarrow> (bool \<times> eval_state) option" where
  "gate_op 0 nm s = None"
| "gate_op (Suc k) nm s = (case smap_get (fst s) nm of
      None \<Rightarrow> None
    | Some c \<Rightarrow>
       (case g_body (gc_gate c) of
          CTrueGate \<Rightarrow> Some (True, s)
        | CFalseGate \<Rightarrow> Some (False, s)
        | CDeletedGate \<Rightarrow> Some (False, s)
        | b \<Rightarrow>
          if g_fChecked (gc_gate c) then Some (g_fCachedValue (gc_gate c), s)
          else (case inGate (gate_op k) b s of
                  None \<Rightarrow> None
                | Some (v, (st', e')) \<Rightarrow> Some (v, (set_cached nm v st', e')))))"

definition reset_one :: "string \<Rightarrow> gate_store \<Rightarrow> gate_store" where
  "reset_one nm st = map (\<lambda>(k, c).
     (k, if k = nm then c\<lparr> gc_gate := (gc_gate c)\<lparr> g_fChecked := False \<rparr> \<rparr> else c)) st"

text \<open>
  RecursiveReset: compound gates reset their constituents too; CNot does not override the
  base class, so what it negates keeps its cached value.
\<close>

fun RecursiveReset :: "nat \<Rightarrow> string \<Rightarrow> gate_store \<Rightarrow> gate_store option" where
  "RecursiveReset 0 nm st = None"
| "RecursiveReset (Suc k) nm st = (case smap_get st nm of
      None \<Rightarrow> None
    | Some c \<Rightarrow>
       (case g_body (gc_gate c) of
          CAndGate ns \<Rightarrow> fold (\<lambda>n r. Option.bind r (RecursiveReset k n)) ns (Some (reset_one nm st))
        | COrGate ns \<Rightarrow> fold (\<lambda>n r. Option.bind r (RecursiveReset k n)) ns (Some (reset_one nm st))
        | _ \<Rightarrow> Some (reset_one nm st)))"

end
