(* ===== verification/GateSemantics.thy ===== *)
theory GateSemantics
  imports Gates
begin

text \<open>
  What the gates mean, and that the cached evaluation of Gates computes it.  The meaning
  (gate_den) depends on the valid parameters of the event only: no flags, no event resize,
  no evaluation order.  The fuel of gate_den bounds the depth of a dependency chain;
  rank_ok gives a bound for it.
\<close>

type_synonym params = "nat \<Rightarrow> ptype option"

definition pair_den :: "params \<Rightarrow> (rat \<Rightarrow> rat \<Rightarrow> bool option) \<Rightarrow> u32 \<Rightarrow> u32 \<Rightarrow> bool" where
  "pair_den ev inside i j = (case (ev (unat i), ev (unat j)) of
      (Some x, Some y) \<Rightarrow> inside (f32 x) (f32 y) = Some True | _ \<Rightarrow> False)"

definition mask_den :: "params \<Rightarrow> (u32 \<Rightarrow> bool) \<Rightarrow> u32 \<Rightarrow> bool" where
  "mask_den ev test n = (case ev (unat n) of Some v \<Rightarrow> test (to_u32 v) | None \<Rightarrow> False)"

definition cut_den :: "params \<Rightarrow> rat \<Rightarrow> rat \<Rightarrow> u32 \<Rightarrow> bool" where
  "cut_den ev lo hi n = (case ev (unat n) of Some v \<Rightarrow> cut_inGate_x lo hi (f32 v) | None \<Rightarrow> False)"

fun gamma_den :: "params \<Rightarrow> (rat \<Rightarrow> rat \<Rightarrow> bool option) \<Rightarrow> u32 list \<Rightarrow> bool" where
  "gamma_den ev inside [] = False"
| "gamma_den ev inside (i # js) =
     ((\<exists>j \<in> set js. pair_den ev inside i j \<or> pair_den ev inside j i) \<or> gamma_den ev inside js)"

definition leaf_den :: "gate_body \<Rightarrow> params \<Rightarrow> bool" where
  "leaf_den b ev = (case b of
      CCut lo hi n \<Rightarrow> cut_den ev lo hi n
    | CBand pl lr \<Rightarrow> pair_den ev (Interior (pl_points pl) lr) (pl_nxId pl) (pl_nyId pl)
    | CContour pl bx \<Rightarrow> pair_den ev (Inside (pl_points pl) bx) (pl_nxId pl) (pl_nyId pl)
    | C2Bands pl bx \<Rightarrow> pair_den ev (Inside (pl_points pl) bx) (pl_nxId pl) (pl_nyId pl)
    | CMaskAndGate n c \<Rightarrow> mask_den ev (maskand_test c) n
    | CMaskEqualGate n c \<Rightarrow> mask_den ev (maskequal_test c) n
    | CMaskNotGate n c \<Rightarrow> mask_den ev (masknot_test c) n
    | CGammaCut lo hi ps \<Rightarrow> (\<exists>n \<in> set ps. cut_den ev lo hi n)
    | CGammaBand pl lr ps \<Rightarrow> pair_den ev (Interior (pl_points pl) lr) (pl_nxId pl) (pl_nyId pl)
    | CGammaContour pl bx ps \<Rightarrow> gamma_den ev (Inside (pl_points pl) bx) ps
    | CTrueGate \<Rightarrow> True
    | _ \<Rightarrow> False)"

definition body_ok :: "gate_body \<Rightarrow> bool" where
  "body_ok b = (case b of
      CBand pl lr \<Rightarrow> 2 \<le> length (pl_points pl)
    | CContour pl bx \<Rightarrow> 2 < length (pl_points pl)
    | C2Bands pl bx \<Rightarrow> 2 < length (pl_points pl)
    | CMaskAndGate n c \<Rightarrow> unat n < max_params
    | CMaskEqualGate n c \<Rightarrow> unat n < max_params
    | CMaskNotGate n c \<Rightarrow> unat n < max_params
    | CGammaBand pl lr ps \<Rightarrow> 2 \<le> length (pl_points pl)
    | CGammaContour pl bx ps \<Rightarrow> 2 < length (pl_points pl)
    | _ \<Rightarrow> True)"

fun gate_den :: "nat \<Rightarrow> (string \<Rightarrow> gate_body option) \<Rightarrow> params \<Rightarrow> string \<Rightarrow> bool option" where
  "gate_den 0 B ev nm = None"
| "gate_den (Suc k) B ev nm = (case B nm of
      None \<Rightarrow> None
    | Some b \<Rightarrow> (case b of
        CAndGate ns \<Rightarrow> map_option (\<lambda>vs. \<forall>v \<in> set vs. v) (those (map (gate_den k B ev) ns))
      | COrGate ns \<Rightarrow> map_option (\<lambda>vs. \<exists>v \<in> set vs. v) (those (map (gate_den k B ev) ns))
      | CNot n \<Rightarrow> map_option Not (gate_den k B ev n)
      | _ \<Rightarrow> Some (leaf_den b ev)))"

definition bodies :: "gate_store \<Rightarrow> string \<Rightarrow> gate_body option" where
  "bodies st nm = map_option (\<lambda>c. g_body (gc_gate c)) (smap_get st nm)"

definition bodies_ok :: "gate_store \<Rightarrow> bool" where
  "bodies_ok st \<longleftrightarrow> (\<forall>(k, c) \<in> set st. body_ok (g_body (gc_gate c)))"

text \<open>Every constituent exists and has a smaller rank.\<close>

definition rank_ok :: "(string \<Rightarrow> nat) \<Rightarrow> gate_store \<Rightarrow> bool" where
  "rank_ok r st \<longleftrightarrow> (\<forall>(k, c) \<in> set st. \<forall>d \<in> set (getDependentGates (g_body (gc_gate c))).
      smap_get st d \<noteq> None \<and> r d < r k)"

definition consistent :: "gate_store \<Rightarrow> params \<Rightarrow> bool" where
  "consistent st ev \<longleftrightarrow> (\<forall>nm c. smap_get st nm = Some c \<longrightarrow>
      g_fChecked (gc_gate c) \<and> caches (g_body (gc_gate c)) \<longrightarrow>
      (\<exists>k. gate_den k (bodies st) ev nm = Some (g_fCachedValue (gc_gate c))))"

definition unflagged :: "container \<Rightarrow> container" where
  "unflagged c = c\<lparr> gc_gate := new_gate (g_body (gc_gate c)) \<rparr>"

definition skeleton :: "gate_store \<Rightarrow> gate_store" where
  "skeleton st = map (\<lambda>(k, c). (k, unflagged c)) st"

subsection \<open>Gates on parameters\<close>

lemma ev_size_less_iff:
  "ev_ok e \<Longrightarrow> n < ev_size e \<longleftrightarrow> unat n < length (ev_params e)"
  by (simp add: ev_ok_def slots_ok_def unat_of_small word_less_nat_alt)

lemma param_if_valid_abs:
  "ev_ok e \<Longrightarrow> ev_abs e (unat n) = (if n < ev_size e then param_if_valid e n else None)"
  by (auto simp: ev_size_less_iff ev_abs_def param_if_valid_def)

lemma cut_inGate_den: "ev_ok e \<Longrightarrow> cut_inGate lo hi n e = cut_den (ev_abs e) lo hi n"
  by (auto simp: cut_inGate_def cut_den_def param_if_valid_abs split: option.splits)

lemma Interior_Some:
  "2 \<le> length pts \<Longrightarrow> Interior pts lr x y = Some (the (Interior pts lr x y))"
  by (simp add: Interior_def Let_def)

lemma Inside_Some:
  "2 < length pts \<Longrightarrow> Inside pts bx x y = Some (the (Inside pts bx x y))"
  by (simp add: Inside_def)

lemma pointlist_den:
  "ev_ok e \<Longrightarrow> (\<And>x y. inside x y = Some (f x y)) \<Longrightarrow>
   pointlist_inGate pl inside e = Some (pair_den (ev_abs e) inside (pl_nxId pl) (pl_nyId pl))"
  by (auto simp: pointlist_inGate_def pair_den_def param_if_valid_abs split: option.splits)

lemma gammacut_den: "ev_ok e \<Longrightarrow> gammacut_inGate lo hi ps e = (\<exists>n \<in> set ps. cut_den (ev_abs e) lo hi n)"
  by (induction ps) (auto simp: cut_den_def param_if_valid_abs split: option.splits)

lemma gamma_pair_den:
  "ev_ok e \<Longrightarrow> (\<And>x y. inside x y = Some (f x y)) \<Longrightarrow>
   gamma_pair inside e i j = Some (pair_den (ev_abs e) inside i j \<or> pair_den (ev_abs e) inside j i)"
  by (auto simp: gamma_pair_def pair_den_def param_if_valid_abs split: option.splits bool.splits)

lemma gamma_row_den:
  "ev_ok e \<Longrightarrow> (\<And>x y. inside x y = Some (f x y)) \<Longrightarrow>
   gamma_row inside e i js = Some (\<exists>j \<in> set js. pair_den (ev_abs e) inside i j \<or> pair_den (ev_abs e) inside j i)"
  by (induction js) (auto simp: gamma_pair_den split: bool.splits)

lemma gamma_inGate_den:
  "ev_ok e \<Longrightarrow> (\<And>x y. inside x y = Some (f x y)) \<Longrightarrow>
   gamma_inGate inside e ps = Some (gamma_den (ev_abs e) inside ps)"
  by (induction ps) (auto simp: gamma_row_den split: bool.splits)

lemma mask_inGate_den:
  assumes "ev_ok e" "unat n < max_params"
  shows "\<exists>e'. mask_inGate n test e = Some (mask_den (ev_abs e) test n, e') \<and>
     ev_ok e' \<and> ev_abs e' = ev_abs e \<and> ev_order e' = ev_order e \<and>
     length (ev_params e) \<le> length (ev_params e')"
proof -
  obtain e' where "read_param n e = Some (e', ev_abs e (unat n))" "ev_ok e'"
    "ev_abs e' = ev_abs e" "ev_order e' = ev_order e" "length (ev_params e) \<le> length (ev_params e')"
    using read_param_spec [OF assms] by blast
  then show ?thesis by (simp add: mask_inGate_def mask_den_def)
qed

definition is_leaf :: "gate_body \<Rightarrow> bool" where
  "is_leaf b = (case b of CAndGate _ \<Rightarrow> False | COrGate _ \<Rightarrow> False | CNot _ \<Rightarrow> False
     | CTrueGate \<Rightarrow> False | CFalseGate \<Rightarrow> False | CDeletedGate \<Rightarrow> False | _ \<Rightarrow> True)"

lemma leaf_inGate_den:
  assumes "ev_ok e" "body_ok b" "is_leaf b"
  shows "\<exists>e'. leaf_inGate b e = Some (leaf_den b (ev_abs e), e') \<and>
     ev_ok e' \<and> ev_abs e' = ev_abs e \<and> ev_order e' = ev_order e \<and>
     length (ev_params e) \<le> length (ev_params e')"
proof -
  have I: "pointlist_inGate pl (Interior pts lr) e =
             Some (pair_den (ev_abs e) (Interior pts lr) (pl_nxId pl) (pl_nyId pl))"
    if "2 \<le> length pts" for pl pts lr
    by (rule pointlist_den [OF assms(1)]) (rule Interior_Some [OF that])
  have C: "pointlist_inGate pl (Inside pts bx) e =
             Some (pair_den (ev_abs e) (Inside pts bx) (pl_nxId pl) (pl_nyId pl))"
    "gamma_inGate (Inside pts bx) e ps = Some (gamma_den (ev_abs e) (Inside pts bx) ps)"
    if "2 < length pts" for pl pts bx ps
    by (rule pointlist_den [OF assms(1)], rule Inside_Some [OF that])
      (rule gamma_inGate_den [OF assms(1)], rule Inside_Some [OF that])
  show ?thesis
    using assms mask_inGate_den [OF assms(1)]
    by (cases b) (simp_all add: leaf_inGate_def leaf_den_def body_ok_def is_leaf_def
        cut_inGate_den gammacut_den I C)
qed

subsection \<open>Denotations\<close>

lemma those_Some_iff: "those xs = Some ys \<longleftrightarrow> xs = map Some ys"
proof (induction xs arbitrary: ys)
  case (Cons x xs)
  then show ?case by (cases ys) (auto split: option.splits)
qed auto

lemma gate_den_mono: "gate_den k B ev nm = Some v \<Longrightarrow> k \<le> k' \<Longrightarrow> gate_den k' B ev nm = Some v"
proof (induction k arbitrary: k' nm v)
  case (Suc k)
  from Suc.prems(2) obtain j where j: "k' = Suc j" "k \<le> j" by (cases k') auto
  from Suc.prems(1) obtain b where b: "B nm = Some b" by (auto split: option.splits)
  have those: "those (map (gate_den j B ev) ns) = Some vs"
    if "those (map (gate_den k B ev) ns) = Some vs" for ns vs
  proof -
    have "map (gate_den k B ev) ns = map Some vs" using that by (simp add: those_Some_iff)
    then have "map (gate_den j B ev) ns = map Some vs"
      using Suc.IH [OF _ j(2)] by (induction ns arbitrary: vs) auto
    then show ?thesis by (simp add: those_Some_iff)
  qed
  show ?case
    using Suc.prems(1) b Suc.IH [OF _ j(2)] those by (auto simp: j(1) split: gate_body.splits)
qed simp

lemma gate_den_unique:
  "gate_den k B ev nm = Some v \<Longrightarrow> gate_den k' B ev nm = Some v' \<Longrightarrow> v = v'"
  using gate_den_mono [of k B ev nm v "max k k'"] gate_den_mono [of k' B ev nm v' "max k k'"] by simp


subsection \<open>The store under evaluation\<close>

lemma smap_get_map_val [simp]:
  "smap_get (map (\<lambda>(k, c). (k, f k c)) st) nm = map_option (f nm) (smap_get st nm)"
  by (induction st) auto

lemma smap_get_set_cached [simp]:
  "smap_get (set_cached nm v st) k = map_option (\<lambda>c. if k = nm
     then c\<lparr> gc_gate := (gc_gate c)\<lparr> g_fChecked := True, g_fCachedValue := v \<rparr> \<rparr> else c) (smap_get st k)"
  by (simp add: set_cached_def)

lemma smap_get_reset_one [simp]:
  "smap_get (reset_one nm st) k = map_option (\<lambda>c. if k = nm
     then c\<lparr> gc_gate := (gc_gate c)\<lparr> g_fChecked := False \<rparr> \<rparr> else c) (smap_get st k)"
  by (simp add: reset_one_def)

lemma skeleton_set_cached [simp]: "skeleton (set_cached nm v st) = skeleton st"
  by (auto simp: skeleton_def set_cached_def unflagged_def)

lemma skeleton_reset_one [simp]: "skeleton (reset_one nm st) = skeleton st"
  by (auto simp: skeleton_def reset_one_def unflagged_def)

lemma bodies_skeleton: "bodies (skeleton st) = bodies st"
  by (rule ext) (simp add: bodies_def skeleton_def unflagged_def new_gate_def option.map_comp comp_def)

lemma skeleton_bodies: "skeleton st = skeleton st' \<Longrightarrow> bodies st = bodies st'"
  by (metis bodies_skeleton)

lemma bodies_set_cached [simp]: "bodies (set_cached nm v st) = bodies st"
  by (rule skeleton_bodies) simp

lemma bodies_reset_one [simp]: "bodies (reset_one nm st) = bodies st"
  by (rule skeleton_bodies) simp

lemma skeleton_keys: "skeleton st = skeleton st' \<Longrightarrow> map fst st = map fst st'"
  by (drule arg_cong [of _ _ "map fst"]) (simp add: skeleton_def comp_def case_prod_unfold)

lemma bodies_ok_skeleton: "bodies_ok (skeleton st) = bodies_ok st"
  by (auto simp: bodies_ok_def skeleton_def unflagged_def new_gate_def)

lemma bodies_ok_get: "bodies_ok st \<Longrightarrow> bodies st nm = Some b \<Longrightarrow> body_ok b"
  by (auto simp: bodies_ok_def bodies_def dest!: smap_get_SomeD)

lemma caches_iff: "caches b \<longleftrightarrow> b \<noteq> CTrueGate \<and> b \<noteq> CFalseGate \<and> b \<noteq> CDeletedGate"
  by (cases b) (simp_all add: caches_def)

lemma consistent_set_cached:
  "consistent st ev \<Longrightarrow> gate_den k (bodies st) ev nm = Some v \<Longrightarrow> consistent (set_cached nm v st) ev"
  by (auto simp: consistent_def)

definition same_eval :: "eval_state \<Rightarrow> eval_state \<Rightarrow> bool" where
  "same_eval s s' \<longleftrightarrow> skeleton (fst s) = skeleton (fst s') \<and> ev_abs (snd s) = ev_abs (snd s') \<and>
     ev_order (snd s) = ev_order (snd s') \<and>
     length (ev_params (snd s)) \<le> length (ev_params (snd s'))"

definition eval_ok :: "eval_state \<Rightarrow> bool" where
  "eval_ok s \<longleftrightarrow> bodies_ok (fst s) \<and> ev_ok (snd s) \<and> consistent (fst s) (ev_abs (snd s))"

lemma same_eval_refl [simp]: "same_eval s s"
  by (simp add: same_eval_def)

lemma same_eval_trans: "same_eval s t \<Longrightarrow> same_eval t u \<Longrightarrow> same_eval s u"
  by (simp add: same_eval_def)

lemma same_eval_den:
  "same_eval s s' \<Longrightarrow> gate_den k (bodies (fst s')) (ev_abs (snd s')) = gate_den k (bodies (fst s)) (ev_abs (snd s))"
  unfolding same_eval_def by (metis skeleton_bodies)

text \<open>An evaluator that agrees with a valuation of the names it is asked about.\<close>

definition evaluates :: "(string \<Rightarrow> eval_state \<Rightarrow> (bool \<times> eval_state) option) \<Rightarrow>
    eval_state \<Rightarrow> string \<Rightarrow> bool \<Rightarrow> bool" where
  "evaluates op s nm v \<longleftrightarrow> (\<forall>t. eval_ok t \<longrightarrow> same_eval s t \<longrightarrow>
     (\<exists>t'. op nm t = Some (v, t') \<and> eval_ok t' \<and> same_eval s t'))"

lemma and_loop_eval:
  "list_all2 (evaluates op s) ns vs \<Longrightarrow> eval_ok t \<Longrightarrow> same_eval s t \<Longrightarrow>
   \<exists>t'. and_loop op ns t = Some (\<forall>v \<in> set vs. v, t') \<and> eval_ok t' \<and> same_eval s t'"
proof (induction ns vs arbitrary: t rule: list_all2_induct)
  case (Cons n ns v vs)
  then obtain t' where "op n t = Some (v, t')" "eval_ok t'" "same_eval s t'"
    unfolding evaluates_def by blast
  then show ?case using Cons.IH [of t'] by (cases v) auto
qed auto

lemma or_loop_eval:
  "list_all2 (evaluates op s) ns vs \<Longrightarrow> eval_ok t \<Longrightarrow> same_eval s t \<Longrightarrow>
   \<exists>t'. or_loop op ns t = Some (\<exists>v \<in> set vs. v, t') \<and> eval_ok t' \<and> same_eval s t'"
proof (induction ns vs arbitrary: t rule: list_all2_induct)
  case (Cons n ns v vs)
  then obtain t' where "op n t = Some (v, t')" "eval_ok t'" "same_eval s t'"
    unfolding evaluates_def by blast
  then show ?case using Cons.IH [of t'] by (cases v) auto
qed auto

lemma leaf_eval:
  assumes "eval_ok s" "bodies (fst s) nm = Some b" "is_leaf b"
  shows "\<exists>t. inGate op b s = Some (leaf_den b (ev_abs (snd s)), t) \<and> eval_ok t \<and> same_eval s t"
proof -
  obtain e' where "leaf_inGate b (snd s) = Some (leaf_den b (ev_abs (snd s)), e')" "ev_ok e'"
    "ev_abs e' = ev_abs (snd s)" "ev_order e' = ev_order (snd s)"
    "length (ev_params (snd s)) \<le> length (ev_params e')"
    using leaf_inGate_den [OF _ _ assms(3)] assms(1,2) bodies_ok_get unfolding eval_ok_def by metis
  then have "inGate op b s = Some (leaf_den b (ev_abs (snd s)), (fst s, e'))"
    "eval_ok (fst s, e')" "same_eval s (fst s, e')"
    using assms(1,3) by (cases b; simp add: inGate_def is_leaf_def eval_ok_def same_eval_def)+
  then show ?thesis by blast
qed


lemma set_cached_eval_ok:
  assumes "eval_ok t" "same_eval s t" "gate_den k (bodies (fst s)) (ev_abs (snd s)) nm = Some v"
  shows "eval_ok (set_cached nm v (fst t), snd t)" "same_eval s (set_cached nm v (fst t), snd t)"
proof -
  have "gate_den k (bodies (fst t)) (ev_abs (snd t)) nm = Some v"
    using assms same_eval_den by metis
  then show "eval_ok (set_cached nm v (fst t), snd t)"
    using assms(1) consistent_set_cached bodies_ok_skeleton skeleton_set_cached
    unfolding eval_ok_def fst_conv snd_conv by metis
  show "same_eval s (set_cached nm v (fst t), snd t)"
    using assms(2) by (simp add: same_eval_def)
qed

lemma those_list_all2:
  "those (map f ns) = Some vs \<Longrightarrow> (\<And>n v. f n = Some v \<Longrightarrow> P n v) \<Longrightarrow> list_all2 P ns vs"
  by (induction ns arbitrary: vs) (auto split: option.splits)

lemma inGate_eval:
  assumes IH: "\<And>n w. gate_den k (bodies (fst s)) (ev_abs (snd s)) n = Some w \<Longrightarrow> evaluates (gate_op k) s n w"
    and d: "gate_den (Suc k) (bodies (fst s)) (ev_abs (snd s)) nm = Some v"
    and b: "bodies (fst s) nm = Some b" "b \<noteq> CTrueGate" "b \<noteq> CFalseGate" "b \<noteq> CDeletedGate"
    and t: "eval_ok t" "same_eval s t"
  shows "\<exists>t'. inGate (gate_op k) b t = Some (v, t') \<and> eval_ok t' \<and> same_eval s t'"
proof (cases "is_leaf b")
  case True
  have bt: "bodies (fst t) nm = Some b"
    using b t(2) skeleton_bodies unfolding same_eval_def by metis
  have "ev_abs (snd t) = ev_abs (snd s)" using t(2) by (simp add: same_eval_def)
  moreover have "v = leaf_den b (ev_abs (snd s))"
    using d b True by (cases b) (simp_all add: is_leaf_def)
  moreover obtain t' where "inGate (gate_op k) b t = Some (leaf_den b (ev_abs (snd t)), t')"
    "eval_ok t'" "same_eval t t'"
    using leaf_eval [OF t(1) bt True] by blast
  ultimately show ?thesis
    using same_eval_trans [OF t(2)] by auto
next
  case False
  then consider ns where "b = CAndGate ns" | ns where "b = COrGate ns" | n where "b = CNot n"
    using b by (cases b) (auto simp: is_leaf_def)
  then show ?thesis
  proof cases
    case (1 ns)
    then obtain vs where vs: "those (map (gate_den k (bodies (fst s)) (ev_abs (snd s))) ns) = Some vs"
      "v = (\<forall>w \<in> set vs. w)" using d b(1) by auto
    then show ?thesis
      using and_loop_eval [OF those_list_all2 [OF vs(1) IH] t] 1 by (auto simp: inGate_def)
  next
    case (2 ns)
    then obtain vs where vs: "those (map (gate_den k (bodies (fst s)) (ev_abs (snd s))) ns) = Some vs"
      "v = (\<exists>w \<in> set vs. w)" using d b(1) by auto
    then show ?thesis
      using or_loop_eval [OF those_list_all2 [OF vs(1) IH] t] 2 by (auto simp: inGate_def)
  next
    case (3 n)
    then obtain w where "gate_den k (bodies (fst s)) (ev_abs (snd s)) n = Some w" "v = (\<not> w)"
      using d b(1) by auto
    then show ?thesis
      using IH [of n w] t 3 unfolding evaluates_def by (fastforce simp: inGate_def not_inGate_def)
  qed
qed

lemma gate_op_evaluates:
  "gate_den k (bodies (fst s)) (ev_abs (snd s)) nm = Some v \<Longrightarrow> evaluates (gate_op k) s nm v"
proof (induction k arbitrary: nm v)
  case (Suc k)
  note d = Suc.prems
  show ?case
    unfolding evaluates_def
  proof (intro allI impI)
    fix t assume t: "eval_ok t" "same_eval s t"
    from d obtain b where b: "bodies (fst s) nm = Some b" by (auto split: option.splits)
    then have bt: "bodies (fst t) nm = Some b"
      using t(2) skeleton_bodies unfolding same_eval_def by metis
    then obtain c where c: "smap_get (fst t) nm = Some c" "g_body (gc_gate c) = b"
      by (auto simp: bodies_def)
    have dt: "gate_den (Suc k) (bodies (fst t)) (ev_abs (snd t)) nm = Some v"
      using d t(2) same_eval_den by metis
    show "\<exists>t'. gate_op (Suc k) nm t = Some (v, t') \<and> eval_ok t' \<and> same_eval s t'"
    proof (cases "b = CTrueGate \<or> b = CFalseGate \<or> b = CDeletedGate")
      case True
      then show ?thesis using d b c t by (cases t) (auto simp: leaf_den_def)
    next
      case const: False
      show ?thesis
      proof (cases "g_fChecked (gc_gate c)")
        case True
        then obtain k' where "gate_den k' (bodies (fst t)) (ev_abs (snd t)) nm = Some (g_fCachedValue (gc_gate c))"
          using t(1) c const caches_iff [of b] unfolding eval_ok_def consistent_def by blast
        then have "v = g_fCachedValue (gc_gate c)" using dt gate_den_unique by metis
        then show ?thesis using True c t const by (cases b) auto
      next
        case False
        obtain t' where t': "inGate (gate_op k) b t = Some (v, t')" "eval_ok t'" "same_eval s t'"
          using inGate_eval [OF Suc.IH d b _ _ _ t] const by blast
        have "gate_op (Suc k) nm t = Some (v, (set_cached nm v (fst t'), snd t'))"
          using c False const t'(1) by (cases b) (simp_all add: case_prod_unfold)
        then show ?thesis using set_cached_eval_ok [OF t'(2,3) d] by metis
      qed
    qed
  qed
qed simp

text \<open>One step of gate_op, with a value to compute or without.\<close>

lemma gate_op_computes:
  assumes "smap_get (fst s) nm = Some c" "caches (g_body (gc_gate c))" "\<not> g_fChecked (gc_gate c)"
  shows "gate_op (Suc k) nm s = map_option (\<lambda>(v, (st, e)). (v, (set_cached nm v st, e))) (inGate (gate_op k) (g_body (gc_gate c)) s)"
  using assms by (cases "g_body (gc_gate c)") (auto simp: caches_iff split: option.splits)

lemma gate_op_answers:
  assumes "smap_get (fst s) nm = Some c" "\<not> (caches (g_body (gc_gate c)) \<and> \<not> g_fChecked (gc_gate c))"
  shows "gate_op (Suc k) nm s =
    Some (if caches (g_body (gc_gate c)) then g_fCachedValue (gc_gate c) else g_body (gc_gate c) = CTrueGate, s)"
  using assms by (cases "g_body (gc_gate c)") (auto simp: caches_iff)

subsection \<open>Enough fuel\<close>

lemma gate_den_defined:
  assumes "rank_ok r st" "bodies st nm \<noteq> None" "r nm < k"
  shows "gate_den k (bodies st) ev nm \<noteq> None"
  using assms(2,3)
proof (induction k arbitrary: nm)
  case (Suc k)
  then obtain c b where c: "smap_get st nm = Some c" "g_body (gc_gate c) = b"
    by (auto simp: bodies_def)
  then have bn: "bodies st nm = Some b" by (simp add: bodies_def)
  have dep: "gate_den k (bodies st) ev d \<noteq> None" if "d \<in> set (getDependentGates b)" for d
    using that assms(1) c Suc.prems(2) Suc.IH [of d] smap_get_SomeD [OF c(1)]
    by (fastforce simp: rank_ok_def bodies_def)
  have those: "those (map (gate_den k (bodies st) ev) ns) \<noteq> None"
    if "\<forall>d \<in> set ns. gate_den k (bodies st) ev d \<noteq> None" for ns
    using that by (induction ns) auto
  show ?case
    using bn dep those by (cases b) (auto simp: getDependentGates_def)
qed simp


subsection \<open>Properties\<close>

lemma gate_evaluation_lemma:
  assumes "rank_ok r st" "bodies_ok st" "consistent st (ev_abs e)" "ev_ok e"
    "smap_get st nm \<noteq> None" "r nm < k"
  shows "\<exists>v st' e'. gate_op k nm (st, e) = Some (v, (st', e')) \<and>
      gate_den k (bodies st) (ev_abs e) nm = Some v \<and>
      skeleton st' = skeleton st \<and> consistent st' (ev_abs e') \<and>
      ev_ok e' \<and> ev_abs e' = ev_abs e \<and> ev_order e' = ev_order e \<and>
     length (ev_params e) \<le> length (ev_params e')"
proof -
  have "bodies st nm \<noteq> None" using assms(5) by (simp add: bodies_def)
  then obtain v where v: "gate_den k (bodies st) (ev_abs e) nm = Some v"
    using gate_den_defined [OF assms(1) _ assms(6)] by blast
  then have "evaluates (gate_op k) (st, e) nm v" by (intro gate_op_evaluates) simp
  moreover have "eval_ok (st, e)" using assms by (simp add: eval_ok_def)
  ultimately obtain t where "gate_op k nm (st, e) = Some (v, t)" "eval_ok t" "same_eval (st, e) t"
    unfolding evaluates_def using same_eval_refl by blast
  with v show ?thesis by (cases t) (auto simp: eval_ok_def same_eval_def)
qed

text \<open>
  C2. Evaluating a gate through its container computes its meaning: for gates whose
  dependencies are acyclic (rank_ok), whatever values are cached as long as they belong
  to this event, operator() returns the Boolean combination of the conditions on the valid
  parameters, leaves every gate's definition and every parameter unchanged, and leaves
  caches that are again right for the event.  Fuel above the rank of the gate is enough.
\<close>

theorem gate_evaluation:
  assumes "rank_ok r st" "bodies_ok st" "consistent st (ev_abs e)" "ev_ok e"
    "smap_get st nm \<noteq> None" "r nm < k"
  shows "\<exists>v st' e'. gate_op k nm (st, e) = Some (v, (st', e')) \<and>
      gate_den k (bodies st) (ev_abs e) nm = Some v \<and>
      skeleton st' = skeleton st \<and> consistent st' (ev_abs e') \<and>
      ev_ok e' \<and> ev_abs e' = ev_abs e \<and> ev_order e' = ev_order e \<and>
     length (ev_params e) \<le> length (ev_params e')"
  by (rule gate_evaluation_lemma [OF assms])

definition demo_store :: gate_store where
  "demo_store =
     [(''both'', new_container ''both'' 2 (new_gate (CAndGate [''cut'', ''not'']))),
      (''cut'', new_container ''cut'' 0 (new_gate (CCut 1 10 0))),
      (''not'', new_container ''not'' 1 (new_gate (CNot ''cut'')))]"

lemmas demo_store_simps = demo_store_def new_container_def clone_def new_gate_def

lemma demo_store_ok:
  "rank_ok (\<lambda>n. if n = ''both'' then 2 else if n = ''not'' then 1 else 0) demo_store"
  "bodies_ok demo_store" "consistent demo_store ev"
  by (simp_all add: demo_store_simps rank_ok_def bodies_ok_def getDependentGates_def body_ok_def consistent_def
      split: if_splits)

theorem gate_evaluation_witness:
  "\<exists>st' e'. gate_op 3 ''both'' (demo_store, new_event) = Some (False, (st', e')) \<and>
     skeleton st' = skeleton demo_store"
proof -
  have "gate_den 3 (bodies demo_store) (ev_abs new_event) ''both'' = Some False"
    by (simp add: numeral_eq_Suc bodies_def demo_store_simps leaf_den_def cut_den_def)
  moreover have "smap_get demo_store ''both'' \<noteq> None" by (simp add: demo_store_simps)
  ultimately show ?thesis
    using gate_evaluation [OF demo_store_ok(1) demo_store_ok(2) demo_store_ok(3) ev_ok_new, of "''both''" 3]
    by auto
qed

lemma self_dependent_lemma:
  assumes "smap_get st nm = Some c" "\<not> g_fChecked (gc_gate c)"
    "g_body (gc_gate c) = CAndGate (nm # ns) \<or> g_body (gc_gate c) = COrGate (nm # ns) \<or>
     g_body (gc_gate c) = CNot nm"
  shows "gate_op k nm (st, e) = None"
proof (induction k)
  case (Suc k)
  then show ?case using assms by (auto simp: inGate_def not_inGate_def)
qed simp

lemma masknot_bits: "masknot_test cmp v \<longleftrightarrow> (\<forall>n < 32. \<not> bit cmp n \<longrightarrow> bit v n)"
proof -
  have "masknot_test cmp v \<longleftrightarrow>
      (\<forall>n < 64. n < 32 \<and> \<not> bit cmp n \<longrightarrow> bit v n)"
    by (auto simp: masknot_test_def bit_eq_iff bit_and_iff bit_not_iff bit_unsigned_iff Let_def)
  also have "\<dots> \<longleftrightarrow> (\<forall>n < 32. \<not> bit cmp n \<longrightarrow> bit v n)"
    using less_trans [of _ 32 "64 :: nat"] by auto
  finally show ?thesis .
qed

text \<open>The mask gates read as bit sets.\<close>

lemma mask_tests:
  "(maskand_test cmp v = (\<forall>n < 32. bit cmp n \<longrightarrow> bit v n)) \<and>
   (masknot_test cmp v = (\<forall>n < 32. \<not> bit cmp n \<longrightarrow> bit v n)) \<and>
   (maskequal_test cmp v = (\<forall>n < 32. bit cmp n = bit v n))"
  by (auto simp: masknot_bits maskand_test_def maskequal_test_def bit_eq_iff bit_and_iff)


text \<open>A gamma band only ever looks at its first two parameters, in order.\<close>

lemma gamma_band_is_band:
  "leaf_inGate (CGammaBand pl lr ps) e = leaf_inGate (CBand pl lr) e \<and>
   (\<exists>pl lr ps e. gamma_inGate (Interior (pl_points pl) lr) e ps = Some True \<and>
      leaf_inGate (CGammaBand pl lr ps) e = Some (False, e))"
proof
  let ?pl = "\<lparr> pl_nxId = 0, pl_nyId = 1, pl_points = [(0, 10), (20, 10)] \<rparr>"
  obtain e0 where e0: "ev_ok e0" "ev_abs e0 = (ev_abs new_event)(0 \<mapsto> 5)"
    using ev_set_spec [OF ev_ok_new, of 0 5] by (auto simp: max_params_def)
  obtain e where e: "ev_ok e" "ev_abs e = (ev_abs new_event)(0 \<mapsto> 5, 2 \<mapsto> 5)"
    using ev_set_spec [OF e0(1), of 2 5] e0(2) by (auto simp: max_params_def)
  have f5: "f32 5 = 5" using f32_of_int [of 5] by simp
  have dn: "pair_den (ev_abs e) f i j \<longleftrightarrow> f 5 5 = Some True \<and> unat i \<in> {0, 2} \<and> unat j \<in> {0, 2}" for f i j
    by (auto simp: pair_den_def e(2) f5)
  have int: "Interior (pl_points ?pl) ((0, 10), (20, 10)) x y =
      Some (the (Interior (pl_points ?pl) ((0, 10), (20, 10)) x y))" for x y
    by (rule Interior_Some) simp
  have "Interior (pl_points ?pl) ((0, 10), (20, 10)) 5 5 = Some True"
    by (simp add: Interior_def Let_def Crosses_def)
  then have "gamma_inGate (Interior (pl_points ?pl) ((0, 10), (20, 10))) e [0, 1, 2] = Some True"
    by (subst gamma_inGate_den [OF e(1) int]) (simp add: dn)
  moreover have "leaf_inGate (CGammaBand ?pl ((0, 10), (20, 10)) [0, 1, 2]) e = Some (False, e)"
    unfolding leaf_inGate_def gate_body.case by (subst pointlist_den [OF e(1) int]) (simp add: dn)
  ultimately show "\<exists>pl lr ps e. gamma_inGate (Interior (pl_points pl) lr) e ps = Some True \<and>
      leaf_inGate (CGammaBand pl lr ps) e = Some (False, e)"
    by blast
qed (simp add: leaf_inGate_def)

end
