(* ===== verification/GateCycles.thy ===== *)
theory GateCycles
  imports GateSemantics
begin

text \<open>
  Gates that depend on themselves, directly or through others (ReplaceGate makes them without
  complaint).  The compound gates stop at the first constituent that decides, so a dependency
  matters for an event only if it is demanded: what evaluation does is stated as a big step
  semantics with the short circuits of CAndGate::inGate and COrGate::inGate, without caches,
  and a gate that comes to demand itself has no value in it.
\<close>

subsection \<open>Values with short circuits\<close>

definition compound :: "gate_body \<Rightarrow> bool" where
  "compound b = (case b of CAndGate _ \<Rightarrow> True | COrGate _ \<Rightarrow> True | CNot _ \<Rightarrow> True | _ \<Rightarrow> False)"

inductive has_value :: "(string \<Rightarrow> gate_body option) \<Rightarrow> params \<Rightarrow> string \<Rightarrow> bool \<Rightarrow> bool" for B ev where
  simple: "B n = Some b \<Longrightarrow> \<not> compound b \<Longrightarrow> has_value B ev n (leaf_den b ev)"
| and_all: "B n = Some (CAndGate ns) \<Longrightarrow> \<forall>d \<in> set ns. has_value B ev d True \<Longrightarrow> has_value B ev n True"
| and_stop: "B n = Some (CAndGate (pre @ d # post)) \<Longrightarrow> \<forall>p \<in> set pre. has_value B ev p True \<Longrightarrow>
    has_value B ev d False \<Longrightarrow> has_value B ev n False"
| or_all: "B n = Some (COrGate ns) \<Longrightarrow> \<forall>d \<in> set ns. has_value B ev d False \<Longrightarrow> has_value B ev n False"
| or_stop: "B n = Some (COrGate (pre @ d # post)) \<Longrightarrow> \<forall>p \<in> set pre. has_value B ev p False \<Longrightarrow>
    has_value B ev d True \<Longrightarrow> has_value B ev n True"
| negated: "B n = Some (CNot d) \<Longrightarrow> has_value B ev d v \<Longrightarrow> has_value B ev n (\<not> v)"

text \<open>The constituents that are reached, those before them not deciding.\<close>

inductive demands :: "(string \<Rightarrow> gate_body option) \<Rightarrow> params \<Rightarrow> string \<Rightarrow> string \<Rightarrow> bool" for B ev where
  demands_and: "B n = Some (CAndGate (pre @ d # post)) \<Longrightarrow> \<forall>p \<in> set pre. has_value B ev p True \<Longrightarrow> demands B ev n d"
| demands_or: "B n = Some (COrGate (pre @ d # post)) \<Longrightarrow> \<forall>p \<in> set pre. has_value B ev p False \<Longrightarrow> demands B ev n d"
| demands_not: "B n = Some (CNot d) \<Longrightarrow> demands B ev n d"

inductive_cases demandsE: "demands B ev n d"

lemma split_at_first:
  assumes "pre @ d # post = pre' @ d' # post'"
  shows "pre = pre' \<and> d = d' \<and> post = post' \<or> d \<in> set pre' \<or> d' \<in> set pre"
  using assms by (auto simp: append_eq_append_conv2 append_eq_Cons_conv Cons_eq_append_conv)

lemma has_value_unique: "has_value B ev n v \<Longrightarrow> has_value B ev n w \<Longrightarrow> v = w"
proof (induction arbitrary: w rule: has_value.induct)
  case (simple n b)
  from simple.prems simple.hyps show ?case by cases (auto simp: compound_def)
next
  case (and_all n ns)
  from and_all.prems and_all.hyps(1) and_all.IH show ?case by cases (auto simp: compound_def)
next
  case (and_stop n pre d post)
  from and_stop.prems show ?case
  proof cases
    case (and_all ns)
    then have "has_value B ev d True" using and_stop.hyps(1) by auto
    then show ?thesis using and_stop.IH(2) by blast
  qed (use and_stop.hyps(1) in \<open>auto simp: compound_def\<close>)
next
  case (or_all n ns)
  from or_all.prems or_all.hyps(1) or_all.IH show ?case by cases (auto simp: compound_def)
next
  case (or_stop n pre d post)
  from or_stop.prems show ?case
  proof cases
    case (or_all ns)
    then have "has_value B ev d False" using or_stop.hyps(1) by auto
    then show ?thesis using or_stop.IH(2) by blast
  qed (use or_stop.hyps(1) in \<open>auto simp: compound_def\<close>)
next
  case (negated n d v)
  from negated.prems negated.hyps(1) negated.IH show ?case by cases (auto simp: compound_def)
qed

text \<open>A gate with a value demands only gates for which demanding comes to an end.\<close>

lemma has_value_accp: "has_value B ev n v \<Longrightarrow> Wellfounded.accp (\<lambda>d n. demands B ev n d) n"
proof (induction rule: has_value.induct)
  case (simple n b)
  show ?case by (rule accp.intros) (use simple in \<open>auto elim!: demandsE simp: compound_def\<close>)
next
  case (and_all n ns)
  show ?case by (rule accp.intros) (use and_all in \<open>auto elim!: demandsE\<close>)
next
  case (and_stop n pre d post)
  show ?case
  proof (rule accp.intros)
    fix x assume "demands B ev n x"
    then show "Wellfounded.accp (\<lambda>d n. demands B ev n d) x"
    proof cases
      case (demands_and pre' post')
      then have "pre @ d # post = pre' @ x # post'" using and_stop.hyps(1) by simp
      moreover have "d \<notin> set pre'" using demands_and(2) and_stop.hyps(2) has_value_unique by blast
      ultimately show ?thesis using split_at_first [of pre d post pre' x post'] and_stop.IH by auto
    qed (use and_stop.hyps(1) in auto)
  qed
next
  case (or_all n ns)
  show ?case by (rule accp.intros) (use or_all in \<open>auto elim!: demandsE\<close>)
next
  case (or_stop n pre d post)
  show ?case
  proof (rule accp.intros)
    fix x assume "demands B ev n x"
    then show "Wellfounded.accp (\<lambda>d n. demands B ev n d) x"
    proof cases
      case (demands_or pre' post')
      then have "pre @ d # post = pre' @ x # post'" using or_stop.hyps(1) by simp
      moreover have "d \<notin> set pre'" using demands_or(2) or_stop.hyps(2) has_value_unique by blast
      ultimately show ?thesis using split_at_first [of pre d post pre' x post'] or_stop.IH by auto
    qed (use or_stop.hyps(1) in auto)
  qed
next
  case (negated n d v)
  show ?case by (rule accp.intros) (use negated in \<open>auto elim!: demandsE\<close>)
qed

lemma accp_no_cycle: "Wellfounded.accp R x \<Longrightarrow> \<not> R\<^sup>+\<^sup>+ x x"
proof (induction rule: accp_induct_rule)
  fix x assume IH: "\<And>y. R y x \<Longrightarrow> \<not> R\<^sup>+\<^sup>+ y y"
  show "\<not> R\<^sup>+\<^sup>+ x x"
  proof
    assume "R\<^sup>+\<^sup>+ x x"
    then obtain y where "R y x" "R\<^sup>*\<^sup>* x y" by (metis tranclp.cases tranclp_into_rtranclp rtranclp.rtrancl_refl)
    then show False using IH by (meson rtranclp_into_tranclp2)
  qed
qed

lemma demands_accp:
  "(demands B ev)\<^sup>*\<^sup>* n x \<Longrightarrow> Wellfounded.accp (\<lambda>d n. demands B ev n d) n \<Longrightarrow>
   Wellfounded.accp (\<lambda>d n. demands B ev n d) x"
  by (induction rule: rtranclp_induct) (auto dest: accp_downward)

lemma cycle_no_value:
  assumes "(demands B ev)\<^sup>*\<^sup>* n x" "(demands B ev)\<^sup>+\<^sup>+ x x"
  shows "\<not> has_value B ev n v"
proof
  assume "has_value B ev n v"
  then have "\<not> (\<lambda>d n. demands B ev n d)\<^sup>+\<^sup>+ x x"
    by (intro accp_no_cycle demands_accp [OF assms(1)] has_value_accp)
  moreover have "(\<lambda>d n. demands B ev n d) = (demands B ev)\<inverse>\<inverse>" by (simp add: fun_eq_iff)
  ultimately show False using assms(2) by (simp add: tranclp_converse)
qed

subsection \<open>Evaluation computes these values only\<close>

text \<open>The flags of the gates hold values of this event.\<close>

definition values_cached :: "gate_store \<Rightarrow> params \<Rightarrow> bool" where
  "values_cached st ev \<longleftrightarrow> (\<forall>nm c. smap_get st nm = Some c \<longrightarrow>
      g_fChecked (gc_gate c) \<and> caches (g_body (gc_gate c)) \<longrightarrow>
      has_value (bodies st) ev nm (g_fCachedValue (gc_gate c)))"

definition sound :: "(string \<Rightarrow> gate_body option) \<Rightarrow> params \<Rightarrow> eval_state \<Rightarrow> bool" where
  "sound B ev s \<longleftrightarrow> bodies (fst s) = B \<and> bodies_ok (fst s) \<and> ev_ok (snd s) \<and>
     ev_abs (snd s) = ev \<and> values_cached (fst s) ev"

lemma sound_set_cached:
  "sound B ev (st, e) \<Longrightarrow> has_value B ev nm v \<Longrightarrow> sound B ev (set_cached nm v st, e)"
  unfolding sound_def values_cached_def
  by (auto simp: bodies_ok_skeleton [symmetric, of "set_cached nm v st"] bodies_ok_skeleton)

definition computes :: "(string \<Rightarrow> gate_body option) \<Rightarrow> params \<Rightarrow>
    (string \<Rightarrow> eval_state \<Rightarrow> (bool \<times> eval_state) option) \<Rightarrow> bool" where
  "computes B ev op \<longleftrightarrow> (\<forall>n s v t. op n s = Some (v, t) \<longrightarrow> sound B ev s \<longrightarrow> has_value B ev n v \<and> sound B ev t)"

lemma and_loop_values:
  "and_loop op ns s = Some (v, t) \<Longrightarrow> computes B ev op \<Longrightarrow> sound B ev s \<Longrightarrow>
   sound B ev t \<and> (if v then \<forall>d \<in> set ns. has_value B ev d True
     else \<exists>pre d post. ns = pre @ d # post \<and> (\<forall>p \<in> set pre. has_value B ev p True) \<and> has_value B ev d False)"
proof (induction ns arbitrary: s)
  case (Cons n ns)
  then obtain b s' where b: "op n s = Some (b, s')" "has_value B ev n b" "sound B ev s'"
    unfolding computes_def by (auto split: option.splits)
  show ?case
  proof (cases b)
    case True
    then have "and_loop op ns s' = Some (v, t)" using Cons.prems(1) b(1) by simp
    note IH = Cons.IH [OF this Cons.prems(2) b(3)]
    show ?thesis
    proof (cases "v = True")
      case True
      then show ?thesis using IH b(2) \<open>b\<close> by simp
    next
      case False
      then obtain pre d post where d: "ns = pre @ d # post" "\<forall>p \<in> set pre. has_value B ev p True" "has_value B ev d False"
        using IH by auto
      then have "n # ns = (n # pre) @ d # post \<and> (\<forall>p \<in> set (n # pre). has_value B ev p True)"
        using b(2) \<open>b\<close> by simp
      then show ?thesis using IH d(3) False by (simp only: if_False if_True not_True_eq_False simp_thms) blast
    qed
  next
    case False
    then have "\<exists>pre d post. n # ns = pre @ d # post \<and> (\<forall>p \<in> set pre. has_value B ev p True) \<and> has_value B ev d False"
      using b(2) by (intro exI [of _ "[]"] exI [of _ n] exI [of _ ns]) simp
    moreover have "v = False \<and> t = s'" using Cons.prems(1) b(1) False by simp
    ultimately show ?thesis using b(3) by simp
  qed
qed simp

lemma or_loop_values:
  "or_loop op ns s = Some (v, t) \<Longrightarrow> computes B ev op \<Longrightarrow> sound B ev s \<Longrightarrow>
   sound B ev t \<and> (if \<not> v then \<forall>d \<in> set ns. has_value B ev d False
     else \<exists>pre d post. ns = pre @ d # post \<and> (\<forall>p \<in> set pre. has_value B ev p False) \<and> has_value B ev d True)"
proof (induction ns arbitrary: s)
  case (Cons n ns)
  then obtain b s' where b: "op n s = Some (b, s')" "has_value B ev n b" "sound B ev s'"
    unfolding computes_def by (auto split: option.splits)
  show ?case
  proof (cases b)
    case False
    then have "or_loop op ns s' = Some (v, t)" using Cons.prems(1) b(1) by simp
    note IH = Cons.IH [OF this Cons.prems(2) b(3)]
    show ?thesis
    proof (cases "v = False")
      case True
      then show ?thesis using IH b(2) \<open>\<not> b\<close> by simp
    next
      case False
      then obtain pre d post where d: "ns = pre @ d # post" "\<forall>p \<in> set pre. has_value B ev p False" "has_value B ev d True"
        using IH by auto
      then have "n # ns = (n # pre) @ d # post \<and> (\<forall>p \<in> set (n # pre). has_value B ev p False)"
        using b(2) \<open>\<not> b\<close> by simp
      then show ?thesis using IH d(3) False by (simp only: if_False if_True not_True_eq_False simp_thms) blast
    qed
  next
    case True
    then have "\<exists>pre d post. n # ns = pre @ d # post \<and> (\<forall>p \<in> set pre. has_value B ev p False) \<and> has_value B ev d True"
      using b(2) by (intro exI [of _ "[]"] exI [of _ n] exI [of _ ns]) simp
    moreover have "v = True \<and> t = s'" using Cons.prems(1) b(1) True by simp
    ultimately show ?thesis using b(3) by simp
  qed
qed simp

lemma leaf_values:
  assumes "sound B ev s" "B nm = Some b" "is_leaf b" "inGate op b s = Some (v, t)"
  shows "has_value B ev nm v \<and> sound B ev t"
proof -
  have ok: "body_ok b" using assms(1,2) bodies_ok_get unfolding sound_def by blast
  obtain e' where e': "leaf_inGate b (snd s) = Some (leaf_den b (ev_abs (snd s)), e')" "ev_ok e'" "ev_abs e' = ev_abs (snd s)"
    using leaf_inGate_den [OF _ ok assms(3)] assms(1) unfolding sound_def by blast
  have "\<not> compound b" using assms(3) by (cases b) (simp_all add: is_leaf_def compound_def)
  moreover have "v = leaf_den b ev \<and> t = (fst s, e')"
    using assms(1,3,4) e'(1) by (cases b) (auto simp: inGate_def is_leaf_def sound_def)
  ultimately show ?thesis using assms(1,2) e' has_value.simple [of B nm b ev] by (simp add: sound_def)
qed

lemma inGate_values:
  assumes "sound B ev s" "B nm = Some b" "caches b" "computes B ev op" "inGate op b s = Some (v, t)"
  shows "has_value B ev nm v \<and> sound B ev t"
proof (cases "is_leaf b")
  case False
  then consider ns where "b = CAndGate ns" | ns where "b = COrGate ns" | n where "b = CNot n"
    using assms(3) by (cases b) (auto simp: is_leaf_def caches_def)
  then show ?thesis
  proof cases
    case (1 ns)
    then have "and_loop op ns s = Some (v, t)" using assms(5) by (simp add: inGate_def)
    from and_loop_values [OF this assms(4,1)] show ?thesis
      using assms(2) 1 by (cases v) (auto intro: has_value.intros)
  next
    case (2 ns)
    then have "or_loop op ns s = Some (v, t)" using assms(5) by (simp add: inGate_def)
    from or_loop_values [OF this assms(4,1)] show ?thesis
      using assms(2) 2 by (cases v) (auto intro: has_value.intros)
  next
    case (3 n)
    then obtain w where "op n s = Some (w, t)" "v = (\<not> w)" using assms(5) by (auto simp: inGate_def not_inGate_def)
    then show ?thesis
      using assms(1,2,4) 3 has_value.negated [of B nm n ev w] unfolding computes_def by blast
  qed
qed (rule leaf_values [OF assms(1,2) _ assms(5)])

lemma gate_op_values: "computes B ev (gate_op k)"
proof (induction k)
  case (Suc k)
  show ?case
    unfolding computes_def
  proof (intro allI impI)
    fix nm s v t assume v: "gate_op (Suc k) nm s = Some (v, t)" and s: "sound B ev s"
    from v obtain c where c: "smap_get (fst s) nm = Some c" by (auto split: option.splits)
    then have b: "B nm = Some (g_body (gc_gate c))" using s by (auto simp: sound_def bodies_def)
    show "has_value B ev nm v \<and> sound B ev t"
    proof (cases "caches (g_body (gc_gate c)) \<and> \<not> g_fChecked (gc_gate c)")
      case True
      then have "gate_op (Suc k) nm s = map_option (\<lambda>(v, (st, e)). (v, (set_cached nm v st, e)))
          (inGate (gate_op k) (g_body (gc_gate c)) s)" using gate_op_computes [OF c] by blast
      with v have "map_option (\<lambda>(v, (st, e)). (v, (set_cached nm v st, e)))
          (inGate (gate_op k) (g_body (gc_gate c)) s) = Some (v, t)" by (rule HOL.trans [OF sym, rotated])
      then obtain st e where i: "inGate (gate_op k) (g_body (gc_gate c)) s = Some (v, (st, e))"
        "t = (set_cached nm v st, e)"
        by (auto simp: map_option_eq_Some)
      then show ?thesis using inGate_values [OF s b _ Suc.IH] True sound_set_cached by blast
    next
      case False
      then have a: "v = (if caches (g_body (gc_gate c)) then g_fCachedValue (gc_gate c) else g_body (gc_gate c) = CTrueGate)"
        "t = s" using v by (simp_all only: gate_op_answers [OF c False] option.inject prod.inject)
      show ?thesis
      proof (cases "caches (g_body (gc_gate c))")
        case True
        then show ?thesis using False a c s by (auto simp: sound_def values_cached_def)
      next
        case const: False
        then have "leaf_den (g_body (gc_gate c)) ev = v \<and> \<not> compound (g_body (gc_gate c))"
          using a by (auto simp: caches_iff leaf_den_def compound_def)
        then show ?thesis using has_value.simple [of B nm "g_body (gc_gate c)" ev] b a(2) s by auto
      qed
    qed
  qed
qed (simp add: computes_def)

subsection \<open>Properties\<close>

text \<open>
  C10. A gate whose evaluation comes to demand a gate that depends on itself never returns,
  whatever the fuel: the constituents that and, or and not gates reach (those before them not
  deciding) lead from the gate to one that leads back to itself, through any number of other
  gates.  What counts is that the constituent is reached: an and gate of a false gate and
  itself answers False.  The gates are well formed (as the factory makes them), and
  values cached before are right for the event, as they are when none is.
\<close>

theorem self_dependent_gate_diverges:
  assumes "bodies_ok st" "ev_ok e" "values_cached st (ev_abs e)"
    "(demands (bodies st) (ev_abs e))\<^sup>*\<^sup>* nm x" "(demands (bodies st) (ev_abs e))\<^sup>+\<^sup>+ x x"
  shows "gate_op k nm (st, e) = None"
proof -
  have "sound (bodies st) (ev_abs e) (st, e)" using assms(1-3) by (simp add: sound_def)
  then have "\<not> (\<exists>v t. gate_op k nm (st, e) = Some (v, t))"
    using gate_op_values cycle_no_value [OF assms(4,5)] unfolding computes_def by blast
  then show ?thesis by (cases "gate_op k nm (st, e)") auto
qed

definition demo_cycle :: gate_store where
  "demo_cycle =
     [(''a'', new_container ''a'' 1 (new_gate (CAndGate [''t'', ''b'']))),
      (''b'', new_container ''b'' 2 (new_gate (CNot ''a''))),
      (''or'', new_container ''or'' 3 (new_gate (COrGate [''a'', ''t'']))),
      (''t'', new_container ''t'' 0 (new_gate CTrueGate))]"

text \<open>Two gates that demand each other after a constituent that does not decide, and one above them.\<close>

theorem self_dependent_gate_diverges_witness:
  "(\<forall>k. gate_op k ''or'' (demo_cycle, new_event) = None) \<and>
   gate_op 2 ''t'' (demo_cycle, new_event) \<noteq> None"
proof -
  let ?B = "bodies demo_cycle" and ?ev = "ev_abs new_event"
  have b: "?B ''a'' = Some (CAndGate [''t'', ''b''])" "?B ''b'' = Some (CNot ''a'')"
    "?B ''or'' = Some (COrGate [''a'', ''t''])" "?B ''t'' = Some CTrueGate"
    by (simp_all add: bodies_def demo_cycle_def demo_store_simps)
  have "has_value ?B ?ev ''t'' True"
    using has_value.simple [of ?B "''t''" CTrueGate ?ev] b(4) by (simp add: compound_def leaf_den_def)
  then have "demands ?B ?ev ''a'' ''b''" using demands_and [of ?B "''a''" "[''t'']" "''b''" "[]" ?ev] b(1) by simp
  moreover have "demands ?B ?ev ''b'' ''a''" using b(2) by (rule demands_not)
  ultimately have c: "(demands ?B ?ev)\<^sup>+\<^sup>+ ''a'' ''a''" by (rule tranclp.trancl_into_trancl [OF tranclp.r_into_trancl])
  have o: "(demands ?B ?ev)\<^sup>*\<^sup>* ''or'' ''a''"
    using demands_or [of ?B "''or''" "[]" "''a''" "[''t'']" ?ev] b(3) by (simp add: r_into_rtranclp)
  have "bodies_ok demo_cycle" "values_cached demo_cycle ?ev"
    by (simp_all add: bodies_ok_def values_cached_def body_ok_def demo_cycle_def demo_store_simps)
  then have "\<forall>k. gate_op k ''or'' (demo_cycle, new_event) = None"
    using self_dependent_gate_diverges [OF _ ev_ok_new _ o c] by blast
  moreover have "gate_op 2 ''t'' (demo_cycle, new_event) \<noteq> None"
    by (simp add: numeral_eq_Suc demo_cycle_def demo_store_simps)
  ultimately show ?thesis ..
qed

end
