(* ===== verification/Dictionary.thy ===== *)
theory Dictionary
  imports Prelude
begin

text \<open>
  CDictionary and its observer manager (src/main/Core/Dictionary.h).  The map is an
  ordered association list, observers are the identities of the registered objects in
  registration order, and an operation that notifies returns the notifications it
  delivers, in delivery order.  None stands for undefined behaviour of the C++ code
  (erasing the past-the-end iterator).
\<close>

type_synonym obs_id = nat

datatype 'a notification =
    Added obs_id string 'a
  | Removed obs_id string 'a

record 'a dictionary =
  d_map :: "(string \<times> 'a) list"
  d_obs :: "obs_id list"

definition empty_dictionary :: "'a dictionary" where
  "empty_dictionary = \<lparr> d_map = [], d_obs = [] \<rparr>"

subsection \<open>The observer manager\<close>

definition addObserver :: "obs_id \<Rightarrow> 'a dictionary \<Rightarrow> 'a dictionary" where
  "addObserver ob d = d\<lparr> d_obs := d_obs d @ [ob] \<rparr>"

definition removeObserver :: "obs_id \<Rightarrow> 'a dictionary \<Rightarrow> 'a dictionary" where
  "removeObserver ob d = d\<lparr> d_obs := erase_first ob (d_obs d) \<rparr>"

fun invokeAdd :: "obs_id list \<Rightarrow> string \<Rightarrow> 'a \<Rightarrow> 'a notification list" where
  "invokeAdd [] nm it = []"
| "invokeAdd (i # obs) nm it = Added i nm it # invokeAdd obs nm it"

fun invokeRemove :: "obs_id list \<Rightarrow> string \<Rightarrow> 'a \<Rightarrow> 'a notification list" where
  "invokeRemove [] nm it = []"
| "invokeRemove (i # obs) nm it = Removed i nm it # invokeRemove obs nm it"

definition clearObservers :: "'a dictionary \<Rightarrow> 'a dictionary" where
  "clearObservers d = d\<lparr> d_obs := [] \<rparr>"

subsection \<open>The dictionary\<close>

definition Lookup :: "'a dictionary \<Rightarrow> string \<Rightarrow> 'a option" where
  "Lookup d nm = smap_get (d_map d) nm"

fun find_if :: "('a \<Rightarrow> bool) \<Rightarrow> 'a list \<Rightarrow> 'a option" where
  "find_if p [] = None"
| "find_if p (x # xs) = (if p x then Some x else find_if p xs)"

definition FindMatch :: "(string \<times> 'a \<Rightarrow> bool) \<Rightarrow> 'a dictionary \<Rightarrow> (string \<times> 'a) option" where
  "FindMatch p d = find_if p (d_map d)"

definition Enter :: "string \<Rightarrow> 'a \<Rightarrow> 'a dictionary \<Rightarrow> 'a dictionary \<times> 'a notification list" where
  "Enter nm it d = (d\<lparr> d_map := smap_put nm it (d_map d) \<rparr>, invokeAdd (d_obs d) nm it)"

text \<open>
  Only the notification is guarded by the test; the erase runs unconditionally, and
  erase(end()) is undefined.
\<close>

definition Remove :: "string \<Rightarrow> 'a dictionary \<Rightarrow> ('a dictionary \<times> 'a notification list) option" where
  "Remove nm d = (case Lookup d nm of
      None \<Rightarrow> None
    | Some it \<Rightarrow> Some (d\<lparr> d_map := smap_erase nm (d_map d) \<rparr>, invokeRemove (d_obs d) nm it))"

definition clear :: "'a dictionary \<Rightarrow> 'a dictionary" where
  "clear d = (clearObservers d)\<lparr> d_map := [] \<rparr>"

definition size_dict :: "'a dictionary \<Rightarrow> u32" where
  "size_dict d = of_nat (length (d_map d))"

text \<open>Copy construction and assignment take the map and not the observers.\<close>

definition copy_dictionary :: "'a dictionary \<Rightarrow> 'a dictionary" where
  "copy_dictionary r = \<lparr> d_map = d_map r, d_obs = [] \<rparr>"

definition assign_dictionary :: "'a dictionary \<Rightarrow> 'a dictionary \<Rightarrow> 'a dictionary" where
  "assign_dictionary d r = d\<lparr> d_map := d_map r \<rparr>"

definition dict_ok :: "'a dictionary \<Rightarrow> bool" where
  "dict_ok d \<longleftrightarrow> smap_ok (d_map d)"

subsection \<open>Lemmas\<close>

lemma invokeAdd_map: "invokeAdd obs nm it = map (\<lambda>i. Added i nm it) obs"
  by (induction obs) auto

lemma invokeRemove_map: "invokeRemove obs nm it = map (\<lambda>i. Removed i nm it) obs"
  by (induction obs) auto

lemma dict_ok_empty [simp]: "dict_ok empty_dictionary"
  by (simp add: dict_ok_def empty_dictionary_def)

lemma dict_ok_Enter [simp]: "dict_ok d \<Longrightarrow> dict_ok (fst (Enter nm it d))"
  by (simp add: dict_ok_def Enter_def)

lemma dict_ok_Remove: "dict_ok d \<Longrightarrow> Remove nm d = Some (d', ns) \<Longrightarrow> dict_ok d'"
  by (auto simp: dict_ok_def Remove_def split: option.splits)

lemma dict_ok_clear [simp]: "dict_ok (clear d)"
  by (simp add: dict_ok_def clear_def clearObservers_def)

lemma Lookup_empty [simp]: "Lookup empty_dictionary k = None"
  by (simp add: Lookup_def empty_dictionary_def)

lemma Lookup_Enter [simp]:
  "Lookup (fst (Enter nm it d)) k = (if k = nm then Some it else Lookup d k)"
  by (simp add: Lookup_def Enter_def)

lemma Lookup_Remove:
  "dict_ok d \<Longrightarrow> Remove nm d = Some (d', ns) \<Longrightarrow>
     Lookup d' k = (if k = nm then None else Lookup d k)"
  by (auto simp: dict_ok_def Remove_def Lookup_def split: option.splits)

lemma find_if_None_iff [simp]: "find_if p xs = None \<longleftrightarrow> (\<forall>x\<in>set xs. \<not> p x)"
  by (induction xs) auto

lemma find_if_SomeD: "find_if p xs = Some x \<Longrightarrow> x \<in> set xs \<and> p x"
  by (induction xs) (auto split: if_splits)

lemma FindMatch_SomeD: "FindMatch p d = Some (k, v) \<Longrightarrow> dict_ok d \<Longrightarrow> Lookup d k = Some v \<and> p (k, v)"
  by (auto simp: FindMatch_def dict_ok_def Lookup_def dest!: find_if_SomeD dest: smap_in_set_iff)

lemma FindMatch_None:
  "dict_ok d \<Longrightarrow> FindMatch p d = None \<longleftrightarrow> (\<forall>k v. Lookup d k = Some v \<longrightarrow> \<not> p (k, v))"
  by (auto simp: FindMatch_def dict_ok_def Lookup_def smap_in_set_iff)

lemmas dict_defs = Lookup_def FindMatch_def Enter_def Remove_def clear_def clearObservers_def
  size_dict_def dict_ok_def empty_dictionary_def

end
