(* ===== verification/Folds.thy ===== *)
theory Folds
  imports GateSemantics
begin

text \<open>
  Gamma spectra and folds (src/main/Core/CGammaSpectrum.cpp, CFold.cpp, Gamma1D.hpp,
  Gamma2D.hpp, Gamma2DD.hpp): the list of valid parameters of an event, what the three kinds
  of spectra fill for such a list, and how a gamma gate folds a spectrum, i.e. increments
  it with the parameters left after those in the gate are taken away.  Fill calls are the
  lists of their arguments.
\<close>

type_synonym fills = "ptype list list"

text \<open>A parameter's number and its value as a Float_t.\<close>

type_synonym par_values = "(u32 \<times> rat) list"

subsection \<open>Parameters of the event\<close>

fun CreateParameterList :: "u32 list \<Rightarrow> event \<Rightarrow> par_values" where
  "CreateParameterList [] e = []"
| "CreateParameterList (pnum # ps) e =
     (case (if pnum < ev_size e then param_if_valid e pnum else None) of
        Some v \<Rightarrow> (pnum, f32 v) # CreateParameterList ps e
      | None \<Rightarrow> CreateParameterList ps e)"

subsection \<open>Increments from a list of values\<close>

definition Increment_1D :: "par_values \<Rightarrow> fills" where
  "Increment_1D ps = map (\<lambda>p. [snd p]) ps"

fun Increment_2D :: "par_values \<Rightarrow> fills" where
  "Increment_2D [] = []"
| "Increment_2D (p # ps) = map (\<lambda>q. [snd p, snd q]) ps @ Increment_2D ps"

definition Increment_2DD :: "par_values \<Rightarrow> par_values \<Rightarrow> fills" where
  "Increment_2DD xs ys = concat (map (\<lambda>x. map (\<lambda>y. [snd x, snd y]) ys) xs)"

subsection \<open>Folds\<close>

definition CutDownParameters :: "par_values \<Rightarrow> u32 \<Rightarrow> par_values" where
  "CutDownParameters old removeMe = filter (\<lambda>p. fst p \<noteq> removeMe) old"

definition CutDownParameters2 :: "par_values \<Rightarrow> u32 \<Rightarrow> u32 \<Rightarrow> par_values" where
  "CutDownParameters2 old r1 r2 = filter (\<lambda>p. fst p \<noteq> r1 \<and> fst p \<noteq> r2) old"

text \<open>The loop over a gamma cut: op is CGammaCut::inGate(Float_t), inc the spectrum's Increment.\<close>

fun cut_fold :: "(rat \<Rightarrow> bool) \<Rightarrow> (par_values \<Rightarrow> fills) \<Rightarrow> par_values \<Rightarrow> par_values \<Rightarrow> fills" where
  "cut_fold op inc all [] = []"
| "cut_fold op inc all (p # ps) =
     (if op (snd p)
      then (let l = CutDownParameters all (fst p) in if l = [] then [] else inc l)
      else []) @ cut_fold op inc all ps"

text \<open>The inner and the outer loop over a gamma band or contour; the test is short-circuited.\<close>

definition either_way :: "(rat \<Rightarrow> rat \<Rightarrow> bool option) \<Rightarrow> rat \<Rightarrow> rat \<Rightarrow> bool option" where
  "either_way inside x y = (case inside x y of
      None \<Rightarrow> None | Some True \<Rightarrow> Some True | Some False \<Rightarrow> inside y x)"

fun pair_row :: "(rat \<Rightarrow> rat \<Rightarrow> bool option) \<Rightarrow> (par_values \<Rightarrow> fills) \<Rightarrow> par_values \<Rightarrow>
    u32 \<times> rat \<Rightarrow> par_values \<Rightarrow> fills option" where
  "pair_row inside inc all p [] = Some []"
| "pair_row inside inc all p (q # qs) = (case either_way inside (snd p) (snd q) of
      None \<Rightarrow> None
    | Some b \<Rightarrow> map_option ((@) (if b then inc (CutDownParameters2 all (fst p) (fst q)) else []))
        (pair_row inside inc all p qs))"

fun pair_rows :: "(rat \<Rightarrow> rat \<Rightarrow> bool option) \<Rightarrow> (par_values \<Rightarrow> fills) \<Rightarrow> par_values \<Rightarrow> par_values \<Rightarrow> fills option" where
  "pair_rows inside inc all [] = Some []"
| "pair_rows inside inc all (p # ps) = (case pair_row inside inc all p ps of
      None \<Rightarrow> None | Some fs \<Rightarrow> map_option ((@) fs) (pair_rows inside inc all ps))"

text \<open>
  rEvent.size()-1 wraps for an empty list: the int i then counts past its largest value,
  which is undefined.
\<close>

definition pair_fold :: "(rat \<Rightarrow> rat \<Rightarrow> bool option) \<Rightarrow> (par_values \<Rightarrow> fills) \<Rightarrow> par_values \<Rightarrow> fills option" where
  "pair_fold inside inc all = (if all = [] then None else pair_rows inside inc all all)"

text \<open>CFold::operator() for one list; the body is that of the gate the fold's container has.\<close>

definition fold_op :: "gate_body \<Rightarrow> (par_values \<Rightarrow> fills) \<Rightarrow> par_values \<Rightarrow> fills option" where
  "fold_op b inc vs = (case b of
      CGammaCut lo hi _ \<Rightarrow> Some (cut_fold (cut_inGate_x lo hi) inc vs vs)
    | CGammaBand pl lr _ \<Rightarrow> pair_fold (Interior (pl_points pl) lr) inc vs
    | CGammaContour pl bx _ \<Rightarrow> pair_fold (Inside (pl_points pl) bx) inc vs
    | _ \<Rightarrow> Some (inc vs))"

text \<open>Two lists: in both loops over a cut the parameter removed is the x parameter at the index.\<close>

fun cut_fold2 :: "(rat \<Rightarrow> bool) \<Rightarrow> (par_values \<Rightarrow> par_values \<Rightarrow> fills) \<Rightarrow> par_values \<Rightarrow> par_values \<Rightarrow> par_values \<Rightarrow> par_values \<Rightarrow> fills option" where
  "cut_fold2 op inc xs ys [] rest = Some []"
| "cut_fold2 op inc xs ys (p # ps) rest =
     (if op (snd p)
      then (case rest of
              [] \<Rightarrow> None
            | x # _ \<Rightarrow>
               (let xl = CutDownParameters xs (fst x); yl = CutDownParameters ys (fst x)
                in map_option ((@) (if xl \<noteq> [] \<and> yl \<noteq> [] then inc xl yl else []))
                     (cut_fold2 op inc xs ys ps (tl rest))))
      else cut_fold2 op inc xs ys ps (tl rest))"

fun pair_row2 :: "(rat \<Rightarrow> rat \<Rightarrow> bool option) \<Rightarrow> (par_values \<Rightarrow> par_values \<Rightarrow> fills) \<Rightarrow> par_values \<Rightarrow> par_values \<Rightarrow>
    u32 \<times> rat \<Rightarrow> par_values \<Rightarrow> fills option" where
  "pair_row2 inside inc xs ys p [] = Some []"
| "pair_row2 inside inc xs ys p (q # qs) = (case inside (snd p) (snd q) of
      None \<Rightarrow> None
    | Some b \<Rightarrow> map_option ((@) (if b then inc (CutDownParameters xs (fst p)) (CutDownParameters ys (fst q)) else []))
        (pair_row2 inside inc xs ys p qs))"

fun pair_rows2 :: "(rat \<Rightarrow> rat \<Rightarrow> bool option) \<Rightarrow> (par_values \<Rightarrow> par_values \<Rightarrow> fills) \<Rightarrow> par_values \<Rightarrow> par_values \<Rightarrow>
    par_values \<Rightarrow> fills option" where
  "pair_rows2 inside inc xs ys [] = Some []"
| "pair_rows2 inside inc xs ys (p # ps) = (case pair_row2 inside inc xs ys p ys of
      None \<Rightarrow> None | Some fs \<Rightarrow> map_option ((@) fs) (pair_rows2 inside inc xs ys ps))"

definition fold_op2 :: "gate_body \<Rightarrow> (par_values \<Rightarrow> par_values \<Rightarrow> fills) \<Rightarrow> par_values \<Rightarrow> par_values \<Rightarrow> fills option" where
  "fold_op2 b inc xs ys = (case b of
      CGammaCut lo hi _ \<Rightarrow>
        (case cut_fold2 (cut_inGate_x lo hi) inc xs ys xs xs of
           None \<Rightarrow> None
         | Some fs \<Rightarrow> map_option ((@) fs) (cut_fold2 (cut_inGate_x lo hi) inc xs ys ys xs))
    | CGammaBand pl lr _ \<Rightarrow> pair_rows2 (Interior (pl_points pl) lr) inc xs ys xs
    | CGammaContour pl bx _ \<Rightarrow> pair_rows2 (Inside (pl_points pl) bx) inc xs ys xs
    | _ \<Rightarrow> Some (inc xs ys))"

subsection \<open>What a fold means\<close>

definition valid_values :: "params \<Rightarrow> u32 list \<Rightarrow> par_values" where
  "valid_values ev ps = concat (map (\<lambda>n. case ev (unat n) of Some v \<Rightarrow> [(n, f32 v)] | None \<Rightarrow> []) ps)"

lemma CreateParameterList_values: "ev_ok e \<Longrightarrow> CreateParameterList ps e = valid_values (ev_abs e) ps"
  by (induction ps) (auto simp: valid_values_def param_if_valid_abs split: option.splits)

text \<open>The parameters other than those in a set, and the pairs of a list in order.\<close>

definition without :: "u32 set \<Rightarrow> par_values \<Rightarrow> par_values" where
  "without S vs = filter (\<lambda>p. fst p \<notin> S) vs"

fun ordered_pairs :: "'a list \<Rightarrow> ('a \<times> 'a) list" where
  "ordered_pairs [] = []"
| "ordered_pairs (x # xs) = map (Pair x) xs @ ordered_pairs xs"

lemma CutDown_without: "CutDownParameters vs r = without {r} vs" "CutDownParameters2 vs r1 r2 = without {r1, r2} vs"
  by (auto simp: CutDownParameters_def CutDownParameters2_def without_def)

lemma Increment_2D_pairs: "Increment_2D vs = map (\<lambda>(p, q). [snd p, snd q]) (ordered_pairs vs)"
  by (induction vs) auto

definition in_region :: "gate_body \<Rightarrow> rat \<Rightarrow> rat \<Rightarrow> bool" where
  "in_region b x y = (case b of
      CGammaBand pl lr _ \<Rightarrow> Interior (pl_points pl) lr x y = Some True
    | CGammaContour pl bx _ \<Rightarrow> Inside (pl_points pl) bx x y = Some True
    | _ \<Rightarrow> False)"

definition folded :: "gate_body \<Rightarrow> (par_values \<Rightarrow> fills) \<Rightarrow> par_values \<Rightarrow> fills" where
  "folded b inc vs = (case b of
      CGammaCut lo hi _ \<Rightarrow>
        concat (map (\<lambda>p. inc (without {fst p} vs)) (filter (\<lambda>p. lo \<le> snd p \<and> snd p < hi) vs))
    | CGammaBand _ _ _ \<Rightarrow> concat (map (\<lambda>(p, q). inc (without {fst p, fst q} vs))
        (filter (\<lambda>(p, q). in_region b (snd p) (snd q) \<or> in_region b (snd q) (snd p)) (ordered_pairs vs)))
    | CGammaContour _ _ _ \<Rightarrow> concat (map (\<lambda>(p, q). inc (without {fst p, fst q} vs))
        (filter (\<lambda>(p, q). in_region b (snd p) (snd q) \<or> in_region b (snd q) (snd p)) (ordered_pairs vs)))
    | _ \<Rightarrow> inc vs)"

text \<open>
  The second list of a fold by a cut runs over the y values, but takes the x parameter at
  the same index away.
\<close>

definition folded2 :: "gate_body \<Rightarrow> (par_values \<Rightarrow> par_values \<Rightarrow> fills) \<Rightarrow> par_values \<Rightarrow> par_values \<Rightarrow> fills" where
  "folded2 b inc xs ys = (case b of
      CGammaCut lo hi _ \<Rightarrow>
        concat (map (\<lambda>(x, _). inc (without {fst x} xs) (without {fst x} ys))
          (filter (\<lambda>(_, p). lo \<le> snd p \<and> snd p < hi) (zip xs xs @ zip xs ys)))
    | CGammaBand _ _ _ \<Rightarrow> concat (map (\<lambda>(x, y). inc (without {fst x} xs) (without {fst y} ys))
        (filter (\<lambda>(x, y). in_region b (snd x) (snd y)) (List.product xs ys)))
    | CGammaContour _ _ _ \<Rightarrow> concat (map (\<lambda>(x, y). inc (without {fst x} xs) (without {fst y} ys))
        (filter (\<lambda>(x, y). in_region b (snd x) (snd y)) (List.product xs ys)))
    | _ \<Rightarrow> inc xs ys)"

text \<open>Where the code is defined: no band or contour over nothing, no y index beyond the x list.\<close>

definition fold_safe :: "gate_body \<Rightarrow> par_values \<Rightarrow> bool" where
  "fold_safe b vs \<longleftrightarrow> (case b of CGammaBand _ _ _ \<Rightarrow> vs \<noteq> [] | CGammaContour _ _ _ \<Rightarrow> vs \<noteq> [] | _ \<Rightarrow> True)"

definition fold_safe2 :: "gate_body \<Rightarrow> par_values \<Rightarrow> par_values \<Rightarrow> bool" where
  "fold_safe2 b xs ys \<longleftrightarrow> (case b of
      CGammaCut lo hi _ \<Rightarrow> \<forall>y \<in> set (drop (length xs) ys). \<not> (lo \<le> snd y \<and> snd y < hi) | _ \<Rightarrow> True)"

lemma cut_fold_spec:
  assumes "inc [] = []"
  shows "cut_fold op inc all ps = concat (map (\<lambda>p. inc (without {fst p} all)) (filter (\<lambda>p. op (snd p)) ps))"
  using assms by (induction ps) (auto simp: CutDown_without Let_def)

lemma either_way_total:
  assumes "\<And>x y. inside x y \<noteq> None"
  shows "either_way inside x y = Some (inside x y = Some True \<or> inside y x = Some True)"
  using assms [of x y] assms [of y x] by (auto simp: either_way_def split: option.splits bool.splits)

lemma pair_rows_spec:
  assumes "\<And>x y. inside x y \<noteq> None"
  shows "pair_rows inside inc all ps = Some (concat (map (\<lambda>(p, q). inc (without {fst p, fst q} all))
    (filter (\<lambda>(p, q). inside (snd p) (snd q) = Some True \<or> inside (snd q) (snd p) = Some True) (ordered_pairs ps))))"
proof (induction ps)
  case (Cons p ps)
  have "pair_row inside inc all p qs = Some (concat (map (\<lambda>q. inc (without {fst p, fst q} all))
      (filter (\<lambda>q. inside (snd p) (snd q) = Some True \<or> inside (snd q) (snd p) = Some True) qs)))" for qs
    by (induction qs) (auto simp: either_way_total [OF assms] CutDown_without)
  then show ?case using Cons by (simp add: filter_map comp_def)
qed simp

lemma fold_op_spec:
  assumes "body_ok b" "fold_safe b vs" "inc [] = []"
  shows "fold_op b inc vs = Some (folded b inc vs)"
proof -
  have band: "Interior pts lr x y \<noteq> None" if "2 \<le> length pts" for pts lr x y
    by (metis Interior_Some [OF that] option.distinct(1))
  have cont: "Inside pts bx x y \<noteq> None" if "2 < length pts" for pts bx x y
    by (metis Inside_Some [OF that] option.distinct(1))
  show ?thesis
    using assms pair_rows_spec [OF band] pair_rows_spec [OF cont]
    by (cases b) (auto simp: fold_op_def folded_def fold_safe_def pair_fold_def body_ok_def in_region_def
        cut_fold_spec cut_inGate_x_def)
qed

lemma cut_fold2_spec:
  assumes "\<And>vs. inc [] vs = []" "\<And>vs. inc vs [] = []" "\<forall>p \<in> set (drop (length rest) ps). \<not> op (snd p)"
  shows "cut_fold2 op inc xs ys ps rest = Some (concat (map (\<lambda>(x, _). inc (without {fst x} xs) (without {fst x} ys))
     (filter (\<lambda>(_, p). op (snd p)) (zip rest ps))))"
  using assms(3)
proof (induction ps arbitrary: rest)
  case (Cons p ps)
  show ?case
  proof (cases rest)
    case Nil
    then show ?thesis using Cons.prems Cons.IH [of "[]"] by simp
  next
    case (Cons x rest')
    then show ?thesis using Cons.prems Cons.IH [of rest'] assms(1,2)
      by (auto simp: CutDown_without Let_def)
  qed
qed simp

lemma pair_rows2_spec:
  assumes "\<And>x y. inside x y \<noteq> None"
  shows "pair_rows2 inside inc xs ys ps = Some (concat (map (\<lambda>(x, y). inc (without {fst x} xs) (without {fst y} ys))
    (filter (\<lambda>(x, y). inside (snd x) (snd y) = Some True) (List.product ps ys))))"
proof (induction ps)
  case (Cons p ps)
  have "pair_row2 inside inc xs ys p qs = Some (concat (map (\<lambda>q. inc (without {fst p} xs) (without {fst q} ys))
      (filter (\<lambda>q. inside (snd p) (snd q) = Some True) qs)))" for qs
  proof (induction qs)
    case (Cons q qs)
    then show ?case using assms [of "snd p" "snd q"] by (auto simp: CutDown_without split: option.splits)
  qed simp
  then show ?case using Cons by (simp add: filter_map comp_def)
qed simp

lemma fold_op2_spec:
  assumes "body_ok b" "fold_safe2 b xs ys" "\<And>vs. inc [] vs = []" "\<And>vs. inc vs [] = []"
  shows "fold_op2 b inc xs ys = Some (folded2 b inc xs ys)"
proof -
  have band: "Interior pts lr x y \<noteq> None" if "2 \<le> length pts" for pts lr x y
    by (metis Interior_Some [OF that] option.distinct(1))
  have cont: "Inside pts bx x y \<noteq> None" if "2 < length pts" for pts bx x y
    by (metis Inside_Some [OF that] option.distinct(1))
  show ?thesis
  proof (cases b)
    case (CGammaCut lo hi ps)
    then have "cut_fold2 (cut_inGate_x lo hi) inc xs ys ws xs =
        Some (concat (map (\<lambda>(x, _). inc (without {fst x} xs) (without {fst x} ys))
          (filter (\<lambda>(_, p). cut_inGate_x lo hi (snd p)) (zip xs ws))))" if "ws \<in> {xs, ys}" for ws
      using that assms(2) by (intro cut_fold2_spec [where inc = inc]) (auto simp: fold_safe2_def cut_inGate_x_def assms(3,4))
    then show ?thesis using CGammaCut by (simp add: fold_op2_def folded2_def cut_inGate_x_def)
  qed (use assms(1) pair_rows2_spec [OF band] pair_rows2_spec [OF cont]
       in \<open>auto simp: fold_op2_def folded2_def body_ok_def in_region_def\<close>)
qed

lemma Increment_empty [simp]:
  "Increment_1D [] = []" "Increment_2DD [] vs = []" "Increment_2DD vs [] = []"
  by (auto simp: Increment_1D_def Increment_2DD_def)

end
