(* ===== verification/PointerList.thy ===== *)
theory PointerList
  imports Prelude
begin

text \<open>
  DynamicList (src/main/Core/DynamicList.h, DynamicList.cpp): a NULL-terminated array of
  pointers that grows by m_extendSize slots.  Users iterate over getList() until the
  terminating NULL, so the class has to keep a NULL behind its last element.  A pointer is
  an option, None being NULL; the array itself is None before the first add.  The locale
  pointer_bag is what the gate list and the spectrum lists rely on.
\<close>

record 'a dlist =
  dl_elements :: nat
  dl_maxElements :: nat
  dl_extendSize :: nat
  dl_array :: "'a option list option"

definition dl_new :: "'a dlist" where
  "dl_new = \<lparr> dl_elements = 0, dl_maxElements = 0, dl_extendSize = 256, dl_array = None \<rparr>"

definition dl_getList :: "'a dlist \<Rightarrow> 'a option list option" where
  "dl_getList d = dl_array d"

definition dl_capacity :: "'a dlist \<Rightarrow> nat" where
  "dl_capacity d = dl_maxElements d"

definition dl_setExtendSize :: "nat \<Rightarrow> 'a dlist \<Rightarrow> 'a dlist" where
  "dl_setExtendSize n d = d\<lparr> dl_extendSize := n \<rparr>"

definition dl_add :: "'a option \<Rightarrow> 'a dlist \<Rightarrow> 'a dlist" where
  "dl_add p d =
     (let d1 = (case dl_array d of
            None \<Rightarrow> d\<lparr> dl_array := Some (replicate (dl_extendSize d) None),
                      dl_maxElements := dl_maxElements d + dl_extendSize d \<rparr>
          | Some a \<Rightarrow>
              if dl_maxElements d - 1 \<le> dl_elements d
              then d\<lparr> dl_array := Some (a @ replicate (dl_extendSize d) None),
                      dl_maxElements := dl_maxElements d + dl_extendSize d \<rparr>
              else d)
      in d1\<lparr> dl_array := map_option (\<lambda>a. a[dl_elements d1 := p]) (dl_array d1),
             dl_elements := dl_elements d1 + 1 \<rparr>)"

text \<open>The loop of remove: the position of the first match among the m_elements in use.\<close>

fun dl_find :: "'a option \<Rightarrow> nat \<Rightarrow> 'a option list \<Rightarrow> nat \<Rightarrow> nat option" where
  "dl_find p n [] i = None"
| "dl_find p n (x # xs) i = (if i < n then (if x = p then Some i else dl_find p n xs (Suc i)) else None)"

definition dl_remove :: "'a option \<Rightarrow> 'a dlist \<Rightarrow> 'a dlist" where
  "dl_remove p d = (case dl_array d of
      None \<Rightarrow> d
    | Some a \<Rightarrow>
       (case dl_find p (dl_elements d) a 0 of
          None \<Rightarrow> d
        | Some i \<Rightarrow>
            let n = dl_elements d - 1
            in d\<lparr> dl_elements := n, dl_array := Some ((a[i := a ! n])[n := None]) \<rparr>))"

text \<open>
  What a user's while(*p) loop visits; None when it runs off the array.  A NULL array is
  not entered.
\<close>

fun scan :: "'a option list \<Rightarrow> 'a list option" where
  "scan [] = None"
| "scan (None # ps) = Some []"
| "scan (Some x # ps) = map_option (Cons x) (scan ps)"

definition dl_visited :: "'a dlist \<Rightarrow> 'a list option" where
  "dl_visited d = (case dl_getList d of None \<Rightarrow> Some [] | Some a \<Rightarrow> scan a)"

subsection \<open>Invariant and contents\<close>

definition dl_items :: "'a dlist \<Rightarrow> 'a list" where
  "dl_items d = (case dl_array d of None \<Rightarrow> [] | Some a \<Rightarrow> map the (take (dl_elements d) a))"

definition dl_ok :: "'a dlist \<Rightarrow> bool" where
  "dl_ok d \<longleftrightarrow> 2 \<le> dl_extendSize d \<and>
     (case dl_array d of
        None \<Rightarrow> dl_elements d = 0 \<and> dl_maxElements d = 0
      | Some a \<Rightarrow> length a = dl_maxElements d \<and> dl_elements d < dl_maxElements d \<and>
          (\<exists>xs. a = map Some xs @ replicate (dl_maxElements d - dl_elements d) None \<and>
                length xs = dl_elements d))"

lemma dl_okE:
  assumes "dl_ok d"
  obtains (null) "dl_array d = None" "dl_elements d = 0" "dl_maxElements d = 0" "dl_items d = []"
  | (array) "dl_array d = Some (map Some (dl_items d) @ replicate (dl_maxElements d - dl_elements d) None)"
      "length (dl_items d) = dl_elements d" "dl_elements d < dl_maxElements d"
proof (cases "dl_array d")
  case None
  with assms null show ?thesis by (simp add: dl_ok_def dl_items_def)
next
  case (Some a)
  then obtain xs where xs: "a = map Some xs @ replicate (dl_maxElements d - dl_elements d) None"
    "length xs = dl_elements d" and lt: "dl_elements d < dl_maxElements d"
    using assms by (auto simp: dl_ok_def)
  then have "dl_items d = xs" using Some by (simp add: dl_items_def comp_def)
  with array Some xs lt show ?thesis by simp
qed

lemma dl_okI:
  "2 \<le> dl_extendSize d \<Longrightarrow> dl_array d = Some (map Some xs @ replicate k None) \<Longrightarrow> 0 < k \<Longrightarrow>
   length xs = dl_elements d \<Longrightarrow> dl_maxElements d = dl_elements d + k \<Longrightarrow> dl_ok d \<and> dl_items d = xs"
  by (auto simp: dl_ok_def dl_items_def comp_def)

lemma dl_ok_extend: "dl_ok d \<Longrightarrow> 2 \<le> dl_extendSize d"
  by (simp add: dl_ok_def)

lemma dl_new_ok [simp]: "dl_ok dl_new" "dl_items dl_new = []"
  by (simp_all add: dl_new_def dl_ok_def dl_items_def)

lemma scan_map_Some: "scan (map Some xs @ None # ps) = Some xs"
  by (induction xs) auto

lemma dl_visited_items: "dl_ok d \<Longrightarrow> dl_visited d = Some (dl_items d)"
proof (elim dl_okE)
  assume "dl_array d = Some (map Some (dl_items d) @ replicate (dl_maxElements d - dl_elements d) None)"
    "dl_elements d < dl_maxElements d"
  moreover from this(2) obtain k where "dl_maxElements d - dl_elements d = Suc k"
    by (metis Suc_diff_Suc)
  ultimately show ?thesis by (simp add: dl_visited_def dl_getList_def scan_map_Some)
qed (simp add: dl_visited_def dl_getList_def)

lemma list_update_replicate_0: "0 < k \<Longrightarrow> (replicate k None)[0 := Some x] = Some x # replicate (k - 1) None"
  by (cases k) auto

lemma dl_add_spec:
  assumes ok: "dl_ok d"
  shows "dl_ok (dl_add (Some x) d) \<and> dl_items (dl_add (Some x) d) = dl_items d @ [x]"
  using ok
proof (cases rule: dl_okE)
  case null
  then show ?thesis using dl_ok_extend [OF ok]
    by (intro dl_okI [where k = "dl_extendSize d - 1"])
       (auto simp: dl_add_def Let_def list_update_replicate_0)
next
  case array
  define grow where "grow = (dl_maxElements d - 1 \<le> dl_elements d)"
  define k where "k = dl_maxElements d - dl_elements d + (if grow then dl_extendSize d else 0)"
  have k: "1 < k" using array(3) dl_ok_extend [OF ok] by (auto simp: k_def grow_def)
  have upd: "(map Some (dl_items d) @ replicate k None)[dl_elements d := Some x] =
        map Some (dl_items d @ [x]) @ replicate (k - 1) None"
    using k array(2) by (simp add: list_update_append list_update_replicate_0)
  have rep: "replicate (dl_maxElements d - dl_elements d) None @ replicate (dl_extendSize d) None =
        (replicate (dl_maxElements d + dl_extendSize d - dl_elements d) None :: 'a option list)"
    using array(3) by (simp flip: replicate_add)
  show ?thesis
    using dl_ok_extend [OF ok] k upd array
    by (intro dl_okI [where k = "k - 1"])
       (auto simp: dl_add_def Let_def k_def grow_def rep)
qed


lemma dl_find_spec:
  "dl_find (Some x) (i + length xs) (map Some xs @ replicate k None) i =
     (if x \<in> set xs then Some (i + length (takeWhile (\<lambda>y. y \<noteq> x) xs)) else None)"
proof (induction xs arbitrary: i)
  case Nil
  then show ?case by (cases k) auto
next
  case (Cons y xs)
  then show ?case using Cons.IH [of "Suc i"] by simp
qed

text \<open>remove moves the last element into the hole.\<close>

definition drop_swap :: "'a \<Rightarrow> 'a list \<Rightarrow> 'a list" where
  "drop_swap x xs =
     (if x \<in> set xs then butlast (xs[length (takeWhile (\<lambda>y. y \<noteq> x) xs) := last xs]) else xs)"

lemma takeWhile_hit:
  "x \<in> set xs \<Longrightarrow> length (takeWhile (\<lambda>y. y \<noteq> x) xs) < length xs \<and>
     xs ! length (takeWhile (\<lambda>y. y \<noteq> x) xs) = x"
  by (induction xs) auto

lemma mset_drop_swap: "mset (drop_swap x xs) = mset xs - {#x#}"
proof (cases "x \<in> set xs")
  case True
  define i where "i = length (takeWhile (\<lambda>y. y \<noteq> x) xs)"
  define ys where "ys = xs[i := last xs]"
  have i: "i < length xs" "xs ! i = x" using takeWhile_hit [OF True] by (simp_all add: i_def)
  then have ne: "ys \<noteq> []" by (auto simp: ys_def)
  have m: "mset ys = add_mset (last xs) (mset xs - {#x#})" using i by (simp add: ys_def mset_update)
  have "xs \<noteq> []" using i by auto
  then have l: "last ys = last xs" using i by (simp add: ys_def last_conv_nth nth_list_update)
  have "mset ys = add_mset (last ys) (mset (butlast ys))"
    using ne by (metis append_butlast_last_id mset.simps mset_append union_mset_add_mset_right add.right_neutral)
  with m l have "mset (butlast ys) = mset xs - {#x#}" by simp
  with True show ?thesis by (simp add: drop_swap_def ys_def i_def)
qed (simp add: drop_swap_def diff_single_trivial)

lemma dl_remove_spec:
  assumes ok: "dl_ok d"
  shows "dl_ok (dl_remove (Some x) d) \<and> dl_items (dl_remove (Some x) d) = drop_swap x (dl_items d)"
  using ok
proof (cases rule: dl_okE)
  case null
  then show ?thesis using ok by (simp add: dl_remove_def drop_swap_def)
next
  case array
  define xs where "xs = dl_items d"
  define k where "k = dl_maxElements d - dl_elements d"
  note arr = array [folded xs_def k_def]
  have f: "dl_find (Some x) (dl_elements d) (map Some xs @ replicate k None) 0 =
      (if x \<in> set xs then Some (length (takeWhile (\<lambda>y. y \<noteq> x) xs)) else None)"
    using dl_find_spec [of x 0 xs k] arr(2) by simp
  show ?thesis
  proof (cases "x \<in> set xs")
    case False
    then show ?thesis using ok arr(1) f by (simp add: dl_remove_def drop_swap_def flip: xs_def)
  next
    case True
    define i where "i = length (takeWhile (\<lambda>y. y \<noteq> x) xs)"
    have i: "i < length xs" using takeWhile_hit [OF True] by (simp add: i_def)
    define ys where "ys = xs[i := last xs]"
    have ys: "ys \<noteq> []" "length ys = length xs" using i by (auto simp: ys_def)
    have la: "(map Some xs @ replicate k None) ! (dl_elements d - 1) = Some (last xs)"
    proof -
      have "xs \<noteq> []" using i by auto
      then show ?thesis using i arr(2) by (simp add: nth_append last_conv_nth)
    qed
    have "(map Some xs @ replicate k None)[i := Some (last xs)] = map Some ys @ replicate k None"
      using i by (simp add: list_update_append ys_def map_update)
    also have "\<dots> = map Some (butlast ys) @ Some (last ys) # replicate k None"
      using arg_cong [OF append_butlast_last_id [OF ys(1)], of "map Some"] by simp
    finally have upd: "((map Some xs @ replicate k None)[i := Some (last xs)])[dl_elements d - 1 := None] =
        map Some (butlast ys) @ replicate (Suc k) None"
      using ys arr(2) by (simp add: list_update_append)
    have rm: "dl_remove (Some x) d = d\<lparr> dl_elements := dl_elements d - 1,
        dl_array := Some (map Some (butlast ys) @ replicate (Suc k) None) \<rparr>"
      unfolding dl_remove_def Let_def arr(1) option.case f if_P [OF True] i_def [symmetric] la upd ..
    have "dl_ok (dl_remove (Some x) d) \<and> dl_items (dl_remove (Some x) d) = butlast ys"
      using dl_ok_extend [OF ok] arr(2,3) ys i unfolding rm
      by (intro dl_okI [where k = "Suc k"]) (auto simp: k_def)
    moreover have "drop_swap x xs = butlast ys"
      using True by (simp add: drop_swap_def i_def ys_def)
    ultimately show ?thesis by (simp add: xs_def)
  qed
qed


subsection \<open>The contract of the list users\<close>

text \<open>
  An unordered collection of pointers: a user adds, removes and iterates.  The contents
  are a multiset, since remove may reorder them.
\<close>

locale pointer_bag =
  fixes empty :: 'b
    and add :: "'a \<Rightarrow> 'b \<Rightarrow> 'b"
    and remove :: "'a \<Rightarrow> 'b \<Rightarrow> 'b"
    and items :: "'b \<Rightarrow> 'a list"
    and visited :: "'b \<Rightarrow> 'a list option"
    and ok :: "'b \<Rightarrow> bool"
  assumes empty_ok: "ok empty" "items empty = []"
    and add_ok: "ok b \<Longrightarrow> ok (add x b)"
    and add_items: "ok b \<Longrightarrow> mset (items (add x b)) = add_mset x (mset (items b))"
    and remove_ok: "ok b \<Longrightarrow> ok (remove x b)"
    and remove_items: "ok b \<Longrightarrow> mset (items (remove x b)) = mset (items b) - {#x#}"
    and visits: "ok b \<Longrightarrow> visited b = Some (items b)"
begin

lemma set_add: "ok b \<Longrightarrow> set (items (add x b)) = insert x (set (items b))"
  using add_items [of b x] by (metis set_mset_add_mset_insert set_mset_mset)

lemma distinct_add: "ok b \<Longrightarrow> distinct (items (add x b)) \<longleftrightarrow> x \<notin> set (items b) \<and> distinct (items b)"
  using add_items [of b x] by (metis distinct.simps(2) mset.simps(2) mset_eq_imp_distinct_iff)

lemma distinct_remove: "ok b \<Longrightarrow> distinct (items b) \<Longrightarrow> distinct (items (remove x b))"
  using remove_items [of b x] by (metis distinct_remove1 mset_remove1 mset_eq_imp_distinct_iff)

lemma set_remove: "ok b \<Longrightarrow> distinct (items b) \<Longrightarrow> set (items (remove x b)) = set (items b) - {x}"
  using remove_items [of b x] by (metis mset_remove1 set_mset_mset set_remove1_eq)

lemma remove_absent: "ok b \<Longrightarrow> x \<notin> set (items b) \<Longrightarrow> mset (items (remove x b)) = mset (items b)"
  using remove_items [of b x] by (simp add: diff_single_trivial)

lemma remove_add: "ok b \<Longrightarrow> mset (items (remove x (add x b))) = mset (items b)"
  by (simp add: remove_items add_items add_ok)

end

interpretation dl: pointer_bag dl_new "\<lambda>x. dl_add (Some x)" "\<lambda>x. dl_remove (Some x)" dl_items dl_visited dl_ok
  by unfold_locales (simp_all add: dl_add_spec dl_remove_spec mset_drop_swap dl_visited_items)

lemmas dl_facts = dl.set_add dl.distinct_add dl.set_remove dl.distinct_remove dl.add_ok dl.remove_ok

text \<open>A DynamicList stays NULL-terminated: an iteration visits exactly its elements.\<close>

lemma dynamic_list_iteration:
  assumes "dl_ok d"
  shows "dl_visited d = Some (dl_items d) \<and>
    dl_visited (dl_add (Some x) d) = Some (dl_items d @ [x]) \<and>
    (\<exists>ys. dl_visited (dl_remove (Some x) d) = Some ys \<and> mset ys = mset (dl_items d) - {#x#})"
proof (intro conjI exI)
  show "dl_visited d = Some (dl_items d)" by (rule dl.visits [OF assms])
  show "dl_visited (dl_add (Some x) d) = Some (dl_items d @ [x])"
    using dl_add_spec [OF assms, of x] by (simp add: dl_visited_items)
  show "dl_visited (dl_remove (Some x) d) = Some (dl_items (dl_remove (Some x) d))"
    by (rule dl.visits [OF dl.remove_ok [OF assms]])
  show "mset (dl_items (dl_remove (Some x) d)) = mset (dl_items d) - {#x#}"
    by (rule dl.remove_items [OF assms])
qed


end
