(* ===== verification/Spectra.thy ===== *)
theory Spectra
  imports Folds PointerList
begin

text \<open>
  Spectra (src/main/Core/Spectrum.cpp, Spectrum1d.hpp, Spectrum2d.hpp, BitSpectrum.hpp,
  SummarySpectrum.hpp, CSpectrum2Dm.hpp, CGammaSummarySpectrum.hpp, CGammaSpectrum.cpp and the
  gamma spectra of Folds) and the per-parameter spectrum lists (CSpectrumByParameter.cpp).
  The histogram of a spectrum is ROOT's; it is represented by the Fill calls it received,
  in order, with their arguments, since it was last cleared.  A spectrum pointer is the
  spectrum's name: the dictionary maps each name to one object, which is taken off the lists
  before it leaves the dictionary.
\<close>

datatype spectrum_kind =
    CSpectrum1D u32
  | CSpectrum2D u32 u32
  | CBitSpectrum u32
  | CSummarySpectrum "u32 list"
  | CSpectrum2Dm "u32 list"
  | CGammaSummarySpectrum "u32 list list"
  | CGamma1D "u32 list"
  | CGamma2D "u32 list"
  | CGamma2DD "u32 list" "u32 list"

text \<open>m_pGate: the default TrueContainer, the histogrammer's NoGate, or a dictionary node.\<close>

datatype gate_ptr = DefaultGate | NoGate | GateNode string

text \<open>sp_fold is the gate of a gamma spectrum's fold; the other spectra have none.\<close>

record spectrum =
  sp_name :: string
  sp_number :: u32
  sp_kind :: spectrum_kind
  sp_gate :: gate_ptr
  sp_fold :: gate_ptr
  sp_fills :: "ptype list list"

definition ApplyGate :: "gate_ptr \<Rightarrow> spectrum \<Rightarrow> spectrum \<times> gate_ptr" where
  "ApplyGate g s = (s\<lparr> sp_gate := g \<rparr>, sp_gate s)"

definition Ungate :: "spectrum \<Rightarrow> spectrum \<times> gate_ptr" where
  "Ungate s = ApplyGate DefaultGate s"

definition Clear :: "spectrum \<Rightarrow> spectrum" where
  "Clear s = s\<lparr> sp_fills := [] \<rparr>"

text \<open>A gamma summary spectrum gives the set of its parameters, in order.\<close>

definition gsummary_ids :: "u32 list list \<Rightarrow> u32 list" where
  "gsummary_ids nss = sort (remdups (concat nss))"

definition gsummary_uses :: "u32 list list \<Rightarrow> u32 \<Rightarrow> bool" where
  "gsummary_uses nss n \<longleftrightarrow> (\<exists>ns \<in> set nss. n \<in> set ns)"

definition gamma_ids :: "u32 list \<Rightarrow> u32 list \<Rightarrow> u32 list" where
  "gamma_ids xs ys = xs @ ys"

definition gamma_uses :: "u32 list \<Rightarrow> u32 list \<Rightarrow> u32 \<Rightarrow> bool" where
  "gamma_uses xs ys n \<longleftrightarrow> n \<in> set xs \<or> n \<in> set ys"

definition GetParameterIds :: "spectrum_kind \<Rightarrow> u32 list" where
  "GetParameterIds k = (case k of
      CSpectrum1D n \<Rightarrow> [n] | CSpectrum2D x y \<Rightarrow> [x, y] | CBitSpectrum n \<Rightarrow> [n] | CSummarySpectrum ns \<Rightarrow> ns
    | CSpectrum2Dm ns \<Rightarrow> ns | CGammaSummarySpectrum nss \<Rightarrow> gsummary_ids nss
    | CGamma1D ns \<Rightarrow> gamma_ids ns [] | CGamma2D ns \<Rightarrow> gamma_ids ns [] | CGamma2DD xs ys \<Rightarrow> gamma_ids xs ys)"

definition needParameter :: "spectrum_kind \<Rightarrow> bool" where
  "needParameter k = (case k of
      CSpectrum1D _ \<Rightarrow> True | CSpectrum2D _ _ \<Rightarrow> True | CBitSpectrum _ \<Rightarrow> True | _ \<Rightarrow> False)"

definition UsesParameter :: "spectrum_kind \<Rightarrow> u32 \<Rightarrow> bool" where
  "UsesParameter k n = (case k of
      CSpectrum1D p \<Rightarrow> p = n | CSpectrum2D x y \<Rightarrow> x = n \<or> y = n
    | CBitSpectrum p \<Rightarrow> p = n | CSummarySpectrum ns \<Rightarrow> n \<in> set ns
    | CSpectrum2Dm ns \<Rightarrow> n \<in> set ns | CGammaSummarySpectrum nss \<Rightarrow> gsummary_uses nss n
    | CGamma1D ns \<Rightarrow> gamma_uses ns [] n | CGamma2D ns \<Rightarrow> gamma_uses ns [] n | CGamma2DD xs ys \<Rightarrow> gamma_uses xs ys n)"

text \<open>The fold of a gamma spectrum; taking it off sets the command's unfolded container.\<close>

definition isGammaSpectrum :: "spectrum_kind \<Rightarrow> bool" where
  "isGammaSpectrum k = (case k of CGamma1D _ \<Rightarrow> True | CGamma2D _ \<Rightarrow> True | CGamma2DD _ _ \<Rightarrow> True | _ \<Rightarrow> False)"

definition Fold :: "gate_ptr \<Rightarrow> spectrum \<Rightarrow> spectrum" where
  "Fold g s = s\<lparr> sp_fold := g \<rparr>"

text \<open>The gate a fold's container holds; None is a container that is not there.\<close>

definition fold_body :: "(string \<Rightarrow> gate_body option) \<Rightarrow> gate_ptr \<Rightarrow> gate_body option" where
  "fold_body B g = (case g of GateNode nm \<Rightarrow> B nm | _ \<Rightarrow> Some CTrueGate)"

definition isGammagate :: "gate_body \<Rightarrow> bool" where
  "isGammagate b \<longleftrightarrow> gate_type b = ''gb'' \<or> gate_type b = ''gc'' \<or> gate_type b = ''gs''"

definition haveFold :: "(string \<Rightarrow> gate_body option) \<Rightarrow> spectrum \<Rightarrow> bool" where
  "haveFold B s \<longleftrightarrow> (case sp_fold s of
      GateNode nm \<Rightarrow> (case B nm of Some b \<Rightarrow> isGammagate b \<and> nm \<noteq> [] | None \<Rightarrow> False) | _ \<Rightarrow> False)"

subsection \<open>Increment\<close>

definition inc_1d :: "u32 \<Rightarrow> event \<Rightarrow> (fills \<times> event) option" where
  "inc_1d n e = map_option (\<lambda>(e', v). (case v of Some x \<Rightarrow> [[x]] | None \<Rightarrow> [], e')) (read_param n e)"

text \<open>
  The reference to the x slot is taken before the y slot is looked up; if that grows the
  vector, the reference is no longer valid and its use is undefined.
\<close>

definition inc_2d :: "u32 \<Rightarrow> u32 \<Rightarrow> event \<Rightarrow> (fills \<times> event) option" where
  "inc_2d nx ny e = (case ev_at e nx of
      None \<Rightarrow> None
    | Some (e1, _) \<Rightarrow>
       (case ev_at e1 ny of
          None \<Rightarrow> None
        | Some (e2, _) \<Rightarrow>
            if length (ev_params e1) < length (ev_params e2) then None
            else (case read_param nx e2 of
                    None \<Rightarrow> None
                  | Some (e3, None) \<Rightarrow> Some ([], e3)
                  | Some (e3, Some x) \<Rightarrow>
                      map_option (\<lambda>(e4, v). (case v of Some y \<Rightarrow> [[x, y]] | None \<Rightarrow> [], e4))
                        (read_param ny e3))))"

text \<open>
  The while loop of CBitSpectrum::Increment.  The fuel is the number of iterations still
  allowed; 33 tests of the loop condition are enough (bit_fill_all).
\<close>

fun bit_fill :: "nat \<Rightarrow> u32 \<Rightarrow> u32 \<Rightarrow> ptype \<Rightarrow> fills option" where
  "bit_fill 0 nParam bt bitnum = None"
| "bit_fill (Suc k) nParam bt bitnum =
     (if nParam = 0 then Some []
      else if and bt nParam \<noteq> 0
           then map_option (Cons [bitnum]) (bit_fill k (and nParam (not bt)) (push_bit 1 bt) (bitnum + 1))
           else bit_fill k nParam (push_bit 1 bt) (bitnum + 1))"

definition inc_bit :: "u32 \<Rightarrow> event \<Rightarrow> (fills \<times> event) option" where
  "inc_bit n e =
     (if n < ev_size e
      then (case param_if_valid e n of
              Some v \<Rightarrow> map_option (\<lambda>fs. (fs, e)) (bit_fill 33 (to_u32 v) 1 0)
            | None \<Rightarrow> Some ([], e))
      else Some ([], e))"

fun inc_summary :: "ptype \<Rightarrow> u32 list \<Rightarrow> event \<Rightarrow> (fills \<times> event) option" where
  "inc_summary xchan [] e = Some ([], e)"
| "inc_summary xchan (pno # ps) e = (case read_param pno e of
      None \<Rightarrow> None
    | Some (e', v) \<Rightarrow>
        map_option (\<lambda>(fs, e''). (case v of Some y \<Rightarrow> [xchan, y] # fs | None \<Rightarrow> fs, e''))
          (inc_summary (xchan + 1) ps e'))"

definition IncPair :: "u32 \<Rightarrow> u32 \<Rightarrow> event \<Rightarrow> fills" where
  "IncPair nx ny e =
     (if nx < ev_size e \<and> ny < ev_size e
      then (case (param_if_valid e nx, param_if_valid e ny) of (Some x, Some y) \<Rightarrow> [[x, y]] | _ \<Rightarrow> [])
      else [])"

text \<open>The parameters two at a time; an odd one is read with what follows the list, which is undefined.\<close>

fun inc_2dm :: "u32 list \<Rightarrow> event \<Rightarrow> fills option" where
  "inc_2dm [] e = Some []"
| "inc_2dm [nx] e = None"
| "inc_2dm (nx # ny # ps) e = map_option ((@) (IncPair nx ny e)) (inc_2dm ps e)"

fun inc_gsummary_row :: "ptype \<Rightarrow> u32 list \<Rightarrow> event \<Rightarrow> fills" where
  "inc_gsummary_row x [] e = []"
| "inc_gsummary_row x (paramId # ps) e =
     (case (if paramId < ev_size e then param_if_valid e paramId else None) of
        Some v \<Rightarrow> [x, v] # inc_gsummary_row x ps e | None \<Rightarrow> inc_gsummary_row x ps e)"

fun inc_gsummary :: "ptype \<Rightarrow> u32 list list \<Rightarrow> event \<Rightarrow> fills" where
  "inc_gsummary x [] e = []"
| "inc_gsummary x (ps # pss) e = inc_gsummary_row x ps e @ inc_gsummary (x + 1) pss e"

text \<open>CGammaSpectrum::Increment; fb is the gate of the spectrum's fold.\<close>

definition inc_gamma :: "gate_body option \<Rightarrow> (par_values \<Rightarrow> fills) \<Rightarrow> u32 list \<Rightarrow> event \<Rightarrow> fills option" where
  "inc_gamma fb inc ps e = (case fb of None \<Rightarrow> None | Some b \<Rightarrow> fold_op b inc (CreateParameterList ps e))"

definition inc_gamma2 :: "gate_body option \<Rightarrow> u32 list \<Rightarrow> u32 list \<Rightarrow> event \<Rightarrow> fills option" where
  "inc_gamma2 fb xs ys e = (case fb of
      None \<Rightarrow> None
    | Some b \<Rightarrow> fold_op2 b Increment_2DD (CreateParameterList xs e) (CreateParameterList ys e))"

definition unchanged :: "event \<Rightarrow> fills option \<Rightarrow> (fills \<times> event) option" where
  "unchanged e r = map_option (\<lambda>fs. (fs, e)) r"

definition Increment :: "gate_body option \<Rightarrow> spectrum_kind \<Rightarrow> event \<Rightarrow> (fills \<times> event) option" where
  "Increment fb k e = (case k of
      CSpectrum1D n \<Rightarrow> inc_1d n e | CSpectrum2D x y \<Rightarrow> inc_2d x y e
    | CBitSpectrum n \<Rightarrow> inc_bit n e | CSummarySpectrum ns \<Rightarrow> inc_summary 0 ns e
    | CSpectrum2Dm ns \<Rightarrow> unchanged e (inc_2dm ns e)
    | CGammaSummarySpectrum nss \<Rightarrow> unchanged e (Some (inc_gsummary 0 nss e))
    | CGamma1D ns \<Rightarrow> unchanged e (inc_gamma fb Increment_1D ns e)
    | CGamma2D ns \<Rightarrow> unchanged e (inc_gamma fb Increment_2D ns e)
    | CGamma2DD xs ys \<Rightarrow> unchanged e (inc_gamma2 fb xs ys e))"

text \<open>The machine state of one event's histogramming: spectra, gates and event.\<close>

type_synonym hstate = "(string \<times> spectrum) list \<times> eval_state"

definition CheckGate :: "nat \<Rightarrow> gate_ptr \<Rightarrow> eval_state \<Rightarrow> (bool \<times> eval_state) option" where
  "CheckGate k g s = (case g of
      DefaultGate \<Rightarrow> Some (True, s) | NoGate \<Rightarrow> Some (True, s) | GateNode nm \<Rightarrow> gate_op k nm s)"

definition add_fills :: "string \<Rightarrow> fills \<Rightarrow> (string \<times> spectrum) list \<Rightarrow> (string \<times> spectrum) list" where
  "add_fills nm fs sp = map (\<lambda>(n, s). (n, if n = nm then s\<lparr> sp_fills := sp_fills s @ fs \<rparr> else s)) sp"

text \<open>CSpectrum::operator().\<close>

definition spectrum_op :: "nat \<Rightarrow> string \<Rightarrow> hstate \<Rightarrow> hstate option" where
  "spectrum_op k nm hs = (case smap_get (fst hs) nm of
      None \<Rightarrow> None
    | Some s \<Rightarrow>
       (case CheckGate k (sp_gate s) (snd hs) of
          None \<Rightarrow> None
        | Some (made, (st, e)) \<Rightarrow>
            if sp_gate s = DefaultGate \<or> made
            then map_option (\<lambda>(fs, e'). (add_fills nm fs (fst hs), (st, e'))) (Increment (fold_body (bodies st) (sp_fold s)) (sp_kind s) e)
            else Some (fst hs, (st, e))))"

subsection \<open>Lists of spectra by parameter\<close>

record spectrum_lists =
  sl_byParameter :: "string dlist option list"
  sl_remaining :: "string dlist"

definition new_spectrum_lists :: spectrum_lists where
  "new_spectrum_lists = \<lparr> sl_byParameter = [], sl_remaining = dl_new \<rparr>"

definition getSpectrumList :: "nat \<Rightarrow> spectrum_lists \<Rightarrow> string option list option" where
  "getSpectrumList n l =
     (if length (sl_byParameter l) \<le> n then None
      else case sl_byParameter l ! n of Some d \<Rightarrow> dl_getList d | None \<Rightarrow> None)"

definition addToParameter :: "string \<Rightarrow> u32 \<Rightarrow> spectrum_lists \<Rightarrow> spectrum_lists" where
  "addToParameter p n l =
     (let v = sl_byParameter l @ replicate (unat n + 1 - length (sl_byParameter l)) None;
          d = (case v ! unat n of Some d \<Rightarrow> d | None \<Rightarrow> dl_new)
      in l\<lparr> sl_byParameter := v[unat n := Some (dl_add (Some p) d)] \<rparr>)"

text \<open>parameterIds[0] of an empty vector is undefined; no spectrum that needs a parameter has none.\<close>

definition sl_onAdd :: "string \<Rightarrow> spectrum_kind \<Rightarrow> spectrum_lists \<Rightarrow> spectrum_lists" where
  "sl_onAdd p k l =
     (if \<not> needParameter k then l\<lparr> sl_remaining := dl_add (Some p) (sl_remaining l) \<rparr>
      else if - 1 \<in> set (GetParameterIds k) then l
      else addToParameter p (hd (GetParameterIds k)) l)"

definition sl_onRemove :: "string \<Rightarrow> spectrum_kind \<Rightarrow> spectrum_lists \<Rightarrow> spectrum_lists" where
  "sl_onRemove p k l =
     (if needParameter k
      then if - 1 \<in> set (GetParameterIds k) then l
           else let n = unat (hd (GetParameterIds k)) in
             if n < length (sl_byParameter l)
             then (case sl_byParameter l ! n of
                     Some d \<Rightarrow> l\<lparr> sl_byParameter := (sl_byParameter l)[n := Some (dl_remove (Some p) d)] \<rparr>
                   | None \<Rightarrow> l)
             else l
      else l\<lparr> sl_remaining := dl_remove (Some p) (sl_remaining l) \<rparr>)"

text \<open>incrementList over an array of pointers; a null array is not entered.\<close>

fun increment_array :: "(string \<Rightarrow> hstate \<Rightarrow> hstate option) \<Rightarrow> string option list \<Rightarrow> hstate \<Rightarrow> hstate option" where
  "increment_array op [] hs = None"
| "increment_array op (None # ps) hs = Some hs"
| "increment_array op (Some p # ps) hs = (case op p hs of
      None \<Rightarrow> None | Some hs' \<Rightarrow> increment_array op ps hs')"

definition incrementList :: "(string \<Rightarrow> hstate \<Rightarrow> hstate option) \<Rightarrow> string option list option \<Rightarrow> hstate \<Rightarrow> hstate option" where
  "incrementList op a hs = (case a of None \<Rightarrow> Some hs | Some ps \<Rightarrow> increment_array op ps hs)"

text \<open>The loop over the dope vector, indices i to i + n - 1.  A CRangeError ends the computation.\<close>

fun dope_loop :: "nat \<Rightarrow> spectrum_lists \<Rightarrow> nat \<Rightarrow> nat \<Rightarrow> hstate \<Rightarrow> hstate option" where
  "dope_loop k l i 0 hs = Some hs"
| "dope_loop k l i (Suc n) hs = (case dv_at (ev_dope (snd (snd hs))) (of_nat i) of
      Inl _ \<Rightarrow> None
    | Inr p \<Rightarrow>
       (case incrementList (spectrum_op k) (getSpectrumList (unat p) l) hs of
          None \<Rightarrow> None | Some hs' \<Rightarrow> dope_loop k l (Suc i) n hs'))"

definition lists_op :: "nat \<Rightarrow> spectrum_lists \<Rightarrow> hstate \<Rightarrow> hstate option" where
  "lists_op k l hs = (case incrementList (spectrum_op k) (dl_getList (sl_remaining l)) hs of
      None \<Rightarrow> None
    | Some hs' \<Rightarrow> dope_loop k l 0 (unat (dv_size (ev_dope (snd (snd hs'))))) hs')"

end
