(* ===== verification/SpectraSemantics.thy ===== *)
theory SpectraSemantics
  imports Spectra
begin

text \<open>
  What incrementing does: every Increment in terms of the valid parameters, the loop of the
  bit spectrum, and the per-parameter lists, whose only effect is to skip spectra that
  would not have been incremented anyway.
\<close>

definition pair_fill :: "params \<Rightarrow> u32 \<Rightarrow> u32 \<Rightarrow> fills" where
  "pair_fill ev nx ny = (case (ev (unat nx), ev (unat ny)) of (Some x, Some y) \<Rightarrow> [[x, y]] | _ \<Rightarrow> [])"

definition increments :: "gate_body option \<Rightarrow> spectrum_kind \<Rightarrow> params \<Rightarrow> fills" where
  "increments fb k ev = (case k of
      CSpectrum1D n \<Rightarrow> (case ev (unat n) of Some x \<Rightarrow> [[x]] | None \<Rightarrow> [])
    | CSpectrum2D nx ny \<Rightarrow> pair_fill ev nx ny
    | CBitSpectrum n \<Rightarrow> (case ev (unat n) of
          Some v \<Rightarrow> map (\<lambda>i. [of_nat i]) (filter (bit (to_u32 v)) [0..<32]) | None \<Rightarrow> [])
    | CSummarySpectrum ns \<Rightarrow> concat (map (\<lambda>(i, n). case ev (unat n) of
          Some y \<Rightarrow> [[of_nat i, y]] | None \<Rightarrow> []) (enumerate 0 ns))
    | CSpectrum2Dm ns \<Rightarrow> concat (map (\<lambda>i. pair_fill ev (ns ! (2 * i)) (ns ! (2 * i + 1))) [0..<length ns div 2])
    | CGammaSummarySpectrum nss \<Rightarrow> concat (map (\<lambda>(i, ns). concat (map (\<lambda>n. case ev (unat n) of
          Some y \<Rightarrow> [[of_nat i, y]] | None \<Rightarrow> []) ns)) (enumerate 0 nss))
    | CGamma1D ns \<Rightarrow> folded (the fb) (map (\<lambda>p. [snd p])) (valid_values ev ns)
    | CGamma2D ns \<Rightarrow> folded (the fb) (\<lambda>vs. map (\<lambda>(p, q). [snd p, snd q]) (ordered_pairs vs)) (valid_values ev ns)
    | CGamma2DD xs ys \<Rightarrow> folded2 (the fb) (\<lambda>vs ws. map (\<lambda>(x, y). [snd x, snd y]) (List.product vs ws))
        (valid_values ev xs) (valid_values ev ys))"

definition kind_ok :: "spectrum_kind \<Rightarrow> bool" where
  "kind_ok k \<longleftrightarrow> (\<forall>n \<in> set (GetParameterIds k). unat n < max_params)"

text \<open>
  Where an increment is defined: the y parameter of a two-dimensional spectrum lies inside
  the event, a spectrum of pairs has them all, and a gamma spectrum's fold exists, is well
  formed and is defined for the event's values.
\<close>

definition inc_safe :: "gate_body option \<Rightarrow> spectrum_kind \<Rightarrow> event \<Rightarrow> bool" where
  "inc_safe fb k e = (case k of
      CSpectrum2D nx ny \<Rightarrow> unat ny < length (ev_params e)
    | CSpectrum2Dm ns \<Rightarrow> even (length ns)
    | CGamma1D ns \<Rightarrow> (\<exists>b. fb = Some b \<and> body_ok b \<and> fold_safe b (valid_values (ev_abs e) ns))
    | CGamma2D ns \<Rightarrow> (\<exists>b. fb = Some b \<and> body_ok b \<and> fold_safe b (valid_values (ev_abs e) ns))
    | CGamma2DD xs ys \<Rightarrow> (\<exists>b. fb = Some b \<and> body_ok b \<and>
        fold_safe2 b (valid_values (ev_abs e) xs) (valid_values (ev_abs e) ys))
    | _ \<Rightarrow> True)"

definition grown :: "event \<Rightarrow> event \<Rightarrow> bool" where
  "grown e e' \<longleftrightarrow> ev_ok e' \<and> ev_abs e' = ev_abs e \<and> ev_order e' = ev_order e \<and>
     length (ev_params e) \<le> length (ev_params e')"

lemma grown_refl: "ev_ok e \<Longrightarrow> grown e e"
  by (simp add: grown_def)

lemma grown_trans: "grown e f \<Longrightarrow> grown f g \<Longrightarrow> grown e g"
  by (simp add: grown_def)

lemma read_param_grown:
  assumes "ev_ok e" "unat n < max_params"
  obtains e' where "read_param n e = Some (e', ev_abs e (unat n))" "grown e e'"
  using read_param_spec [OF assms] unfolding grown_def by metis

subsection \<open>The bit loop\<close>

lemma bit_single: "bit (2 ^ i :: u32) n \<longleftrightarrow> n = i \<and> i < 32"
  by (auto simp: bit_exp_iff possible_bit_def)

lemma and_single_zero: "i < 32 \<Longrightarrow> and (2 ^ i) v = (0 :: u32) \<longleftrightarrow> \<not> bit v i"
    by (auto simp: bit_eq_iff [where 'a = "32 word"] bit_and_iff bit_single)

lemma bit_fill_from:
  assumes "i \<le> 32" "\<forall>j < i. \<not> bit v j"
  shows "bit_fill (33 - i) v (2 ^ i) (of_nat i) =
         Some (map (\<lambda>n. [of_nat n]) (filter (bit v) [i..<32]))"
  using assms
proof (induction "32 - i" arbitrary: i v)
  case 0
  then have "i = 32" by simp
  moreover have "v = 0" using 0 \<open>i = 32\<close> by (auto simp: bit_eq_iff)
  ultimately show ?case by simp
next
  case (Suc m)
  then have i: "i < 32" "33 - i = Suc (33 - Suc i)" "m = 32 - Suc i" by auto
  let ?b = "2 ^ i :: u32"
  have nb: "push_bit 1 ?b = 2 ^ Suc i" by (simp add: push_bit_eq_mult)
  have up: "[i..<32] = i # [Suc i..<32]" using i by (simp add: upt_conv_Cons)
  show ?case
  proof (cases "v = 0")
    case True
    then show ?thesis using i by simp
  next
    case v: False
    show ?thesis
    proof (cases "bit v i")
      case True
      let ?v = "and v (not ?b)"
      have "\<forall>j < Suc i. \<not> bit ?v j"
        using Suc.prems by (auto simp: bit_and_iff bit_not_iff bit_single less_Suc_eq)
      then have "bit_fill (33 - Suc i) ?v (2 ^ Suc i) (of_nat (Suc i)) =
          Some (map (\<lambda>n. [of_nat n]) (filter (bit ?v) [Suc i..<32]))"
        using Suc.hyps(1) [OF i(3)] i(1) by simp
      moreover have "filter (bit ?v) [Suc i..<32] = filter (bit v) [Suc i..<32]"
        by (rule filter_cong) (auto simp: bit_and_iff bit_not_iff bit_single)
      ultimately show ?thesis
        using True v i by (simp add: up nb and_single_zero add.commute mult.commute)
    next
      case False
      have "\<forall>j < Suc i. \<not> bit v j" using Suc.prems False by (auto simp: less_Suc_eq)
      then have "bit_fill (33 - Suc i) v (2 ^ Suc i) (of_nat (Suc i)) =
          Some (map (\<lambda>n. [of_nat n]) (filter (bit v) [Suc i..<32]))"
        using Suc.hyps(1) [OF i(3)] i(1) by simp
      then show ?thesis
        using False v i by (simp add: up nb and_single_zero add.commute mult.commute)
    qed
  qed
qed

text \<open>
  C8. The shifting loop of CBitSpectrum::Increment ends after at most 33 tests of its
  condition for every 32-bit value and fills exactly the channels of the set bits, once
  each and in ascending order.
\<close>

theorem bit_fill_all:
  "bit_fill 33 v 1 0 = Some (map (\<lambda>n. [of_nat n]) (filter (bit v) [0..<32]))"
  using bit_fill_from [of 0 v] by simp

subsection \<open>Increment\<close>

lemma inc_summary_spec:
  assumes "ev_ok e" "\<forall>n \<in> set ns. unat n < max_params"
  shows "\<exists>e'. inc_summary (of_nat i) ns e = Some (concat (map (\<lambda>(i, n). case ev_abs e (unat n) of
          Some y \<Rightarrow> [[of_nat i, y]] | None \<Rightarrow> []) (enumerate i ns)), e') \<and> grown e e'"
  using assms
proof (induction ns arbitrary: e i)
  case Nil
  then show ?case by (auto intro: grown_refl)
next
  case (Cons n ns)
  obtain f where f: "read_param n e = Some (f, ev_abs e (unat n))" "grown e f"
    using read_param_grown [of e n] Cons.prems by auto
  then obtain e' where "inc_summary (of_nat (Suc i)) ns f = Some (concat (map (\<lambda>(i, n). case ev_abs f (unat n) of
          Some y \<Rightarrow> [[of_nat i, y]] | None \<Rightarrow> []) (enumerate (Suc i) ns)), e')" "grown f e'"
    using Cons.IH [of f "Suc i"] Cons.prems by (auto simp: grown_def)
  moreover have "ev_abs f = ev_abs e" using f by (simp add: grown_def)
  ultimately show ?case
    using f grown_trans by (fastforce simp: add.commute split: option.splits)
qed

lemma ev_at_inside:
  assumes "ev_ok e" "unat n < length (ev_params e)"
  shows "ev_at e n = Some (e, unat n)"
  using assms ev_size_less_iff [OF assms(1), of n] by (simp add: ev_at_def Let_def linorder_not_le [symmetric])

lemma inc_2d_spec:
  assumes ok: "ev_ok e" and n: "unat nx < max_params" "unat ny < max_params" "unat ny < length (ev_params e)"
  shows "\<exists>e'. inc_2d nx ny e = Some (increments fb (CSpectrum2D nx ny) (ev_abs e), e') \<and> grown e e'"
proof -
  obtain e1 where e1: "ev_at e nx = Some (e1, unat nx)" "ev_ok e1" "ev_abs e1 = ev_abs e"
    "ev_dope e1 = ev_dope e" "length (ev_params e) \<le> length (ev_params e1)"
    using ev_at_spec [OF ok n(1)] by metis
  have g1: "grown e e1" using e1 by (simp add: grown_def ev_order_def)
  have at: "ev_at e1 ny = Some (e1, unat ny)" using ev_at_inside [OF e1(2)] n(3) e1(5) by simp
  obtain e3 where e3: "read_param nx e1 = Some (e3, ev_abs e1 (unat nx))" "grown e1 e3"
    using read_param_grown [OF e1(2) n(1)] by blast
  obtain e4 where e4: "read_param ny e3 = Some (e4, ev_abs e3 (unat ny))" "grown e3 e4"
    using read_param_grown [of e3 ny] e3 n(2) by (auto simp: grown_def)
  have "ev_abs e3 = ev_abs e" using g1 e3 by (simp add: grown_def)
  then show ?thesis
    using e1 at e3 e4 g1 grown_trans [OF grown_trans [OF g1 e3(2)] e4(2)] grown_trans [OF g1 e3(2)]
    by (auto simp: inc_2d_def increments_def pair_fill_def split: option.splits)
qed

lemma inc_2dm_spec:
  assumes "ev_ok e" "even (length ns)"
  shows "inc_2dm ns e = Some (concat (map (\<lambda>i. pair_fill (ev_abs e) (ns ! (2 * i)) (ns ! (2 * i + 1))) [0..<length ns div 2]))"
  using assms(2)
proof (induction ns rule: induct_list012)
  case (3 nx ny ps)
  let ?G = "\<lambda>qs i. pair_fill (ev_abs e) (qs ! (2 * i)) (qs ! (2 * i + 1))"
  have "IncPair nx ny e = pair_fill (ev_abs e) nx ny"
    by (auto simp: IncPair_def pair_fill_def param_if_valid_abs [OF assms(1)] split: option.splits)
  then have "inc_2dm (nx # ny # ps) e = Some (pair_fill (ev_abs e) nx ny @ concat (map (?G ps) [0..<length ps div 2]))"
    using 3 by simp
  also have "pair_fill (ev_abs e) nx ny @ concat (map (?G ps) [0..<length ps div 2]) =
      concat (map (?G (nx # ny # ps)) (0 # map Suc [0..<length ps div 2]))"
    by (simp add: comp_def)
  also have "0 # map Suc [0..<length ps div 2] = [0..<length (nx # ny # ps) div 2]"
    by (simp add: upt_conv_Cons map_Suc_upt del: upt_Suc)
  finally show ?case .
qed simp_all

lemma inc_gsummary_spec:
  assumes "ev_ok e"
  shows "inc_gsummary (of_nat i) nss e = concat (map (\<lambda>(i, ns). concat (map (\<lambda>n. case ev_abs e (unat n) of
          Some y \<Rightarrow> [[of_nat i, y]] | None \<Rightarrow> []) ns)) (enumerate i nss))"
proof (induction nss arbitrary: i)
  case (Cons ns nss)
  have "inc_gsummary_row x ns e = concat (map (\<lambda>n. case ev_abs e (unat n) of
          Some y \<Rightarrow> [[x, y]] | None \<Rightarrow> []) ns)" for x
    by (induction ns) (auto simp: param_if_valid_abs [OF assms] split: option.splits)
  then show ?case using Cons.IH [of "Suc i"] by (simp add: add.commute)
qed simp

lemma Increment_2DD_product: "Increment_2DD xs ys = map (\<lambda>(x, y). [snd x, snd y]) (List.product xs ys)"
  by (induction xs) (auto simp: Increment_2DD_def)

lemma Increment_spec:
  assumes "ev_ok e" "kind_ok k" "inc_safe fb k e"
  shows "\<exists>e'. Increment fb k e = Some (increments fb k (ev_abs e), e') \<and> grown e e'"
proof -
  have same: "\<exists>e'. unchanged e (Some fs) = Some (fs, e') \<and> grown e e'" for fs
    using grown_refl [OF assms(1)] by (simp add: unchanged_def)
  show ?thesis
  proof (cases k)
    case (CSpectrum1D n)
    then show ?thesis using read_param_grown [OF assms(1), of n] assms(2)
      by (fastforce simp: Increment_def inc_1d_def increments_def kind_ok_def GetParameterIds_def)
  next
    case (CSpectrum2D nx ny)
    then show ?thesis using inc_2d_spec [OF assms(1)] assms(2,3)
      by (simp add: Increment_def inc_safe_def kind_ok_def GetParameterIds_def)
  next
    case (CBitSpectrum n)
    have "inc_bit n e = Some (increments fb (CBitSpectrum n) (ev_abs e), e)"
      by (auto simp: inc_bit_def increments_def param_if_valid_abs [OF assms(1)] bit_fill_all split: option.splits)
    then show ?thesis using CBitSpectrum grown_refl [OF assms(1)] by (simp add: Increment_def)
  next
    case (CSummarySpectrum ns)
    then show ?thesis using inc_summary_spec [OF assms(1), of ns 0] assms(2)
      by (simp add: Increment_def increments_def kind_ok_def GetParameterIds_def)
  next
    case (CSpectrum2Dm ns)
    then show ?thesis using inc_2dm_spec [OF assms(1)] assms(3) same
      by (simp add: Increment_def increments_def inc_safe_def)
  next
    case (CGammaSummarySpectrum nss)
    then show ?thesis using inc_gsummary_spec [OF assms(1), of 0] same by (simp add: Increment_def increments_def)
  next
    case (CGamma1D ns)
    then obtain b where b: "fb = Some b" "body_ok b" "fold_safe b (valid_values (ev_abs e) ns)"
      using assms(3) by (auto simp: inc_safe_def)
    then show ?thesis using fold_op_spec [OF b(2,3), of Increment_1D] same CGamma1D
      by (simp add: Increment_def increments_def inc_gamma_def CreateParameterList_values [OF assms(1)] Increment_1D_def [abs_def])
  next
    case (CGamma2D ns)
    then obtain b where b: "fb = Some b" "body_ok b" "fold_safe b (valid_values (ev_abs e) ns)"
      using assms(3) by (auto simp: inc_safe_def)
    have "Increment_2D = (\<lambda>vs. map (\<lambda>(p, q). [snd p, snd q]) (ordered_pairs vs))" using Increment_2D_pairs by blast
    then show ?thesis using fold_op_spec [OF b(2,3), of Increment_2D] same CGamma2D b(1)
      by (simp add: Increment_def increments_def inc_gamma_def CreateParameterList_values [OF assms(1)])
  next
    case (CGamma2DD xs ys)
    then obtain b where b: "fb = Some b" "body_ok b" "fold_safe2 b (valid_values (ev_abs e) xs) (valid_values (ev_abs e) ys)"
      using assms(3) by (auto simp: inc_safe_def)
    have "Increment_2DD = (\<lambda>vs ws. map (\<lambda>(x, y). [snd x, snd y]) (List.product vs ws))"
      using Increment_2DD_product by blast
    then show ?thesis using fold_op2_spec [OF b(2,3), of Increment_2DD] same CGamma2DD b(1)
      by (simp add: Increment_def increments_def inc_gamma2_def CreateParameterList_values [OF assms(1)])
  qed
qed


subsection \<open>Spectra and lists of spectra\<close>

definition gate_value :: "nat \<Rightarrow> gate_store \<Rightarrow> params \<Rightarrow> gate_ptr \<Rightarrow> bool option" where
  "gate_value k st ev g = (case g of GateNode nm \<Rightarrow> gate_den k (bodies st) ev nm | _ \<Rightarrow> Some True)"

definition bump :: "nat \<Rightarrow> eval_state \<Rightarrow> spectrum \<Rightarrow> spectrum" where
  "bump k es s = s\<lparr> sp_fills := sp_fills s @
     (if gate_value k (fst es) (ev_abs (snd es)) (sp_gate s) = Some True
      then increments (fold_body (bodies (fst es)) (sp_fold s)) (sp_kind s) (ev_abs (snd es)) else []) \<rparr>"

definition bump_those :: "nat \<Rightarrow> eval_state \<Rightarrow> string set \<Rightarrow>
    (string \<times> spectrum) list \<Rightarrow> (string \<times> spectrum) list" where
  "bump_those k es N sp = map (\<lambda>(n, s). (n, if n \<in> N then bump k es s else s)) sp"

definition spectra_ok :: "nat \<Rightarrow> hstate \<Rightarrow> bool" where
  "spectra_ok k hs \<longleftrightarrow> eval_ok (snd hs) \<and>
     (\<forall>nm s. smap_get (fst hs) nm = Some s \<longrightarrow> kind_ok (sp_kind s) \<and>
        inc_safe (fold_body (bodies (fst (snd hs))) (sp_fold s)) (sp_kind s) (snd (snd hs)) \<and>
        gate_value k (fst (snd hs)) (ev_abs (snd (snd hs))) (sp_gate s) \<noteq> None)"

lemma bump_sel [simp]:
  "sp_kind (bump k es s) = sp_kind s" "sp_gate (bump k es s) = sp_gate s"
  "sp_name (bump k es s) = sp_name s" "sp_number (bump k es s) = sp_number s" "sp_fold (bump k es s) = sp_fold s"
  by (simp_all add: bump_def)

lemma smap_get_bump_those [simp]:
  "smap_get (bump_those k es N sp) nm = map_option (\<lambda>s. if nm \<in> N then bump k es s else s) (smap_get sp nm)"
  by (simp add: bump_those_def)

lemma bump_those_empty [simp]: "bump_those k es {} sp = sp"
  by (auto simp: bump_those_def intro: map_idI)

lemma same_eval_gate_value:
  "same_eval es es' \<Longrightarrow> gate_value k (fst es') (ev_abs (snd es')) g = gate_value k (fst es) (ev_abs (snd es)) g"
  using same_eval_den by (cases g) (simp_all add: gate_value_def)

lemma same_eval_bump: "same_eval es es' \<Longrightarrow> bump k es' s = bump k es s"
  using same_eval_gate_value [of es es' k "sp_gate s"] skeleton_bodies [of "fst es" "fst es'"]
  by (simp add: bump_def same_eval_def)

lemma inc_safe_grow:
  "inc_safe fb k e \<Longrightarrow> length (ev_params e) \<le> length (ev_params e') \<Longrightarrow> ev_abs e' = ev_abs e \<Longrightarrow> inc_safe fb k e'"
  by (auto simp: inc_safe_def split: spectrum_kind.splits)

lemma spectra_ok_step:
  assumes "spectra_ok k hs" "eval_ok es'" "same_eval (snd hs) es'"
  shows "spectra_ok k (bump_those k es N (fst hs), es')"
proof -
  have "inc_safe fb q (snd es')" if "inc_safe fb q (snd (snd hs))" for fb q
    using inc_safe_grow [OF that] assms(3) by (simp add: same_eval_def)
  moreover have "bodies (fst es') = bodies (fst (snd hs))"
    using assms(3) skeleton_bodies unfolding same_eval_def by metis
  ultimately show ?thesis
    using assms same_eval_gate_value [OF assms(3)] by (auto simp: spectra_ok_def split: if_splits)
qed

lemma CheckGate_spec:
  assumes "eval_ok es" "gate_value k (fst es) (ev_abs (snd es)) g = Some v"
  shows "\<exists>es'. CheckGate k g es = Some (v, es') \<and> eval_ok es' \<and> same_eval es es'"
proof (cases g)
  case (GateNode nm)
  then have "evaluates (gate_op k) es nm v"
    using assms by (intro gate_op_evaluates) (simp add: gate_value_def)
  then have "\<exists>es'. gate_op k nm es = Some (v, es') \<and> eval_ok es' \<and> same_eval es es'"
    using assms(1) same_eval_refl unfolding evaluates_def by blast
  then show ?thesis using GateNode by (simp add: CheckGate_def)
qed (use assms in \<open>auto simp: CheckGate_def gate_value_def\<close>)

lemma add_fills_Nil [simp]: "add_fills nm [] sp = sp"
  by (induction sp) (auto simp: add_fills_def)

lemma add_fills_bump:
  "smap_get sp nm = Some s \<Longrightarrow> distinct (map fst sp) \<Longrightarrow> bump k es s = s\<lparr> sp_fills := sp_fills s @ fs \<rparr> \<Longrightarrow>
   add_fills nm fs sp = bump_those k es {nm} sp"
proof (induction sp)
  case (Cons a sp)
  then show ?case
    by (cases a) (auto simp: add_fills_def bump_those_def smap_get_map_of map_of_eq_None_iff image_iff
      split: if_splits)
qed simp

lemma spectrum_op_spec:
  assumes ok: "spectra_ok k hs" and s: "smap_get (fst hs) nm = Some s" and d: "distinct (map fst (fst hs))"
  shows "\<exists>es'. spectrum_op k nm hs = Some (bump_those k (snd hs) {nm} (fst hs), es') \<and>
     eval_ok es' \<and> same_eval (snd hs) es'"
proof -
  obtain v where v: "gate_value k (fst (snd hs)) (ev_abs (snd (snd hs))) (sp_gate s) = Some v"
    and k: "kind_ok (sp_kind s)" "inc_safe (fold_body (bodies (fst (snd hs))) (sp_fold s)) (sp_kind s) (snd (snd hs))"
    and e: "eval_ok (snd hs)"
    using ok s unfolding spectra_ok_def by blast
  obtain st f where cg: "CheckGate k (sp_gate s) (snd hs) = Some (v, (st, f))"
    and f: "eval_ok (st, f)" "same_eval (snd hs) (st, f)"
    using CheckGate_spec [OF e v] by auto
  have B: "bodies st = bodies (fst (snd hs))" using f(2) skeleton_bodies unfolding same_eval_def fst_conv by metis
  let ?fb = "fold_body (bodies st) (sp_fold s)"
  have def: "sp_gate s = DefaultGate \<Longrightarrow> v" using v by (simp add: gate_value_def)
  show ?thesis
  proof (cases v)
    case True
    have "inc_safe ?fb (sp_kind s) f" using inc_safe_grow k(2) f(2) B by (simp add: same_eval_def)
    then obtain e' where e': "Increment ?fb (sp_kind s) f = Some (increments ?fb (sp_kind s) (ev_abs f), e')" "grown f e'"
      using Increment_spec f(1) k(1) unfolding eval_ok_def snd_conv by blast
    have b: "bump k (snd hs) s = s\<lparr> sp_fills := sp_fills s @ increments ?fb (sp_kind s) (ev_abs f) \<rparr>"
      using v True f(2) B by (simp add: bump_def same_eval_def)
    have "spectrum_op k nm hs = Some (bump_those k (snd hs) {nm} (fst hs), (st, e'))"
      using s cg True e'(1) add_fills_bump [OF s d b] by (simp add: spectrum_op_def)
    moreover have "eval_ok (st, e')" "same_eval (snd hs) (st, e')"
      using f e'(2) by (auto simp: eval_ok_def same_eval_def grown_def)
    ultimately show ?thesis by blast
  next
    case False
    have "bump k (snd hs) s = s" using v False by (simp add: bump_def)
    then have "bump_those k (snd hs) {nm} (fst hs) = fst hs"
      using add_fills_bump [OF s d, of k "snd hs" "[]"] by simp
    then show ?thesis using s cg False def f by (auto simp: spectrum_op_def)
  qed
qed


text \<open>The spectra visited one after the other.\<close>

fun run :: "(string \<Rightarrow> hstate \<Rightarrow> hstate option) \<Rightarrow> string list \<Rightarrow> hstate \<Rightarrow> hstate option" where
  "run op [] hs = Some hs"
| "run op (x # xs) hs = (case op x hs of None \<Rightarrow> None | Some hs' \<Rightarrow> run op xs hs')"

lemma increment_array_run: "scan ps = Some ns \<Longrightarrow> increment_array op ps hs = run op ns hs"
proof (induction ps arbitrary: ns hs rule: scan.induct)
  case (3 x ps)
  then show ?case by (auto split: option.splits)
qed auto

lemma incrementList_run: "dl_ok d \<Longrightarrow> incrementList op (dl_getList d) hs = run op (dl_items d) hs"
  using dl.visits [of d]
  by (auto simp: incrementList_def dl_visited_def increment_array_run split: option.splits)

lemma bump_those_twice:
  assumes "same_eval es es'" "A \<inter> B = {}"
  shows "bump_those k es' B (bump_those k es A sp) = bump_those k es (A \<union> B) sp"
  using assms(2) same_eval_bump [OF assms(1)] by (auto simp: bump_those_def)

lemma keys_bump_those [simp]: "map fst (bump_those k es N sp) = map fst sp"
  by (induction sp) (auto simp: bump_those_def)

lemma run_spec:
  assumes "spectra_ok k hs" "distinct (map fst (fst hs))" "distinct ns" "set ns \<subseteq> fst ` set (fst hs)"
  shows "\<exists>es'. run (spectrum_op k) ns hs = Some (bump_those k (snd hs) (set ns) (fst hs), es') \<and>
     eval_ok es' \<and> same_eval (snd hs) es'"
  using assms
proof (induction ns arbitrary: hs)
  case Nil
  then show ?case by (cases hs) (auto simp: spectra_ok_def)
next
  case (Cons n ns)
  from Cons.prems(4) obtain s where s: "smap_get (fst hs) n = Some s"
    using smap_get_None_iff [of "fst hs" n] by auto
  obtain es1 where es1: "spectrum_op k n hs = Some (bump_those k (snd hs) {n} (fst hs), es1)"
    "eval_ok es1" "same_eval (snd hs) es1"
    using spectrum_op_spec [OF Cons.prems(1) s Cons.prems(2)] by blast
  let ?hs = "(bump_those k (snd hs) {n} (fst hs), es1)"
  have "spectra_ok k ?hs" by (rule spectra_ok_step [OF Cons.prems(1) es1(2,3)])
  moreover have "fst ` set (bump_those k (snd hs) {n} (fst hs)) = fst ` set (fst hs)"
    using keys_bump_those by (metis set_map)
  ultimately obtain es' where es': "run (spectrum_op k) ns ?hs =
      Some (bump_those k es1 (set ns) (bump_those k (snd hs) {n} (fst hs)), es')"
    "eval_ok es'" "same_eval es1 es'"
    using Cons.IH [of ?hs] Cons.prems by auto
  have "{n} \<inter> set ns = {}" using Cons.prems(3) by auto
  then have "bump_those k es1 (set ns) (bump_those k (snd hs) {n} (fst hs)) =
      bump_those k (snd hs) (set (n # ns)) (fst hs)"
    using bump_those_twice [OF es1(3)] by simp
  then show ?case using es1 es' same_eval_trans by auto
qed

lemma run_append: "run op (xs @ ys) hs = Option.bind (run op xs hs) (run op ys)"
  by (induction xs arbitrary: hs) (auto split: option.splits)

definition sl_items :: "spectrum_lists \<Rightarrow> nat \<Rightarrow> string list" where
  "sl_items l n = (if n < length (sl_byParameter l)
     then (case sl_byParameter l ! n of Some d \<Rightarrow> dl_items d | None \<Rightarrow> []) else [])"

definition sl_ok :: "spectrum_lists \<Rightarrow> bool" where
  "sl_ok l \<longleftrightarrow> dl_ok (sl_remaining l) \<and> (\<forall>d \<in> set (sl_byParameter l). case d of Some d \<Rightarrow> dl_ok d | None \<Rightarrow> True)"

lemma by_parameter_run:
  "sl_ok l \<Longrightarrow> incrementList op (getSpectrumList n l) hs = run op (sl_items l n) hs"
proof (cases "n < length (sl_byParameter l)")
  case True
  assume "sl_ok l"
  then have "case sl_byParameter l ! n of Some d \<Rightarrow> dl_ok d | None \<Rightarrow> True"
    using True by (auto simp: sl_ok_def dest: nth_mem)
  then show ?thesis
    using True
    by (cases "sl_byParameter l ! n")
       (simp_all add: getSpectrumList_def sl_items_def incrementList_run, simp add: incrementList_def)
qed (simp add: getSpectrumList_def sl_items_def incrementList_def)

lemma dv_at_order:
  assumes "ev_ok e" "i < length (ev_order e)"
  shows "\<exists>p. dv_at (ev_dope e) (of_nat i) = Inr p \<and> unat p = ev_order e ! i"
proof -
  let ?d = "ev_dope e"
  have l: "length (dv_list ?d) = unat (dv_size ?d)" "unat (dv_size ?d) \<le> length (dv_indices ?d)"
    using assms(1) by (auto simp: ev_ok_def dope_ok_def dv_size_length dv_ok_def)
  have i: "i < unat (dv_size ?d)" using assms(2) l by (simp add: ev_order_def)
  have "length (dv_list ?d) \<le> max_params"
    using dope_ok_length [OF assms(1)] assms(1) by (simp add: ev_ok_def slots_ok_def)
  then have b: "i < 2 ^ 31 - 256" using i l by (simp add: max_params_def)
  then have u: "unat (of_nat i :: u32) = i" by (simp add: unat_of_nat)
  have "sint (of_nat i :: i32) = int i"
    using b by (simp add: signed_of_nat signed_take_bit_int_eq_self)
  then show ?thesis using i l u by (simp add: dv_at_def ev_order_def dv_list_def word_le_nat_alt)
qed


lemma dope_loop_run:
  assumes "sl_ok l" "spectra_ok k hs" "distinct (map fst (fst hs))"
    "i + n = length (ev_order (snd (snd hs)))"
    "distinct (concat (map (sl_items l) (drop i (ev_order (snd (snd hs))))))"
    "set (concat (map (sl_items l) (drop i (ev_order (snd (snd hs)))))) \<subseteq> fst ` set (fst hs)"
  shows "dope_loop k l i n hs = run (spectrum_op k) (concat (map (sl_items l) (drop i (ev_order (snd (snd hs)))))) hs"
  using assms
proof (induction n arbitrary: i hs)
  case (Suc n)
  let ?o = "ev_order (snd (snd hs))"
  have i: "i < length ?o" using Suc.prems(4) by simp
  have ok: "ev_ok (snd (snd hs))" using Suc.prems(2) by (simp add: spectra_ok_def eval_ok_def)
  obtain p where p: "dv_at (ev_dope (snd (snd hs))) (of_nat i) = Inr p" "unat p = ?o ! i"
    using dv_at_order [OF ok i] by blast
  let ?xs = "sl_items l (?o ! i)" and ?ys = "concat (map (sl_items l) (drop (Suc i) ?o))"
  have drop: "drop i ?o = ?o ! i # drop (Suc i) ?o" using i by (simp add: Cons_nth_drop_Suc)
  obtain es' where es': "run (spectrum_op k) ?xs hs = Some (bump_those k (snd hs) (set ?xs) (fst hs), es')"
    "eval_ok es'" "same_eval (snd hs) es'"
    using run_spec [OF Suc.prems(2,3), of ?xs] Suc.prems(5,6) drop by auto
  let ?hs = "(bump_those k (snd hs) (set ?xs) (fst hs), es')"
  have o: "ev_order (snd (snd ?hs)) = ?o" using es'(3) by (simp add: same_eval_def)
  have keys: "fst ` set (fst ?hs) = fst ` set (fst hs)"
    using keys_bump_those by (metis fst_conv set_map)
  have "dope_loop k l (Suc i) n ?hs = run (spectrum_op k) ?ys ?hs"
    using Suc.IH [of ?hs "Suc i"] Suc.prems drop o keys spectra_ok_step [OF Suc.prems(2) es'(2,3)] by simp
  then show ?case
    using p es'(1) by_parameter_run [OF Suc.prems(1), of "spectrum_op k" "?o ! i" hs]
    by (simp add: drop run_append)
qed simp

subsection \<open>Dispatch by parameter\<close>

text \<open>Every spectrum of the dictionary is on the one list its definition puts it on.\<close>

definition sl_inv :: "spectrum_lists \<Rightarrow> (string \<times> spectrum) list \<Rightarrow> bool" where
  "sl_inv l sp \<longleftrightarrow> sl_ok l \<and> distinct (dl_items (sl_remaining l)) \<and> (\<forall>n. distinct (sl_items l n)) \<and>
     (\<forall>nm. nm \<in> set (dl_items (sl_remaining l)) \<longleftrightarrow>
        (\<exists>s. smap_get sp nm = Some s \<and> \<not> needParameter (sp_kind s))) \<and>
     (\<forall>nm n. nm \<in> set (sl_items l n) \<longleftrightarrow>
        (\<exists>s. smap_get sp nm = Some s \<and> needParameter (sp_kind s) \<and>
             - 1 \<notin> set (GetParameterIds (sp_kind s)) \<and> unat (hd (GetParameterIds (sp_kind s))) = n))"

lemma unat_minus_one_u32: "unat (- 1 :: u32) = 2 ^ 32 - 1"
  by (simp add: unsigned_minus_1_eq_mask mask_eq_exp_minus_1)

lemma ev_order_abs: "ev_ok e \<Longrightarrow> n \<in> set (ev_order e) \<longleftrightarrow> ev_abs e n \<noteq> None"
proof -
  assume ok: "ev_ok e"
  have v: "i < length (ev_params e) \<Longrightarrow> isValid (ev_serial e) (ev_params e ! i) \<Longrightarrow>
      sl_value (ev_params e ! i) \<noteq> None" for i
    using ok by (simp add: ev_ok_def slots_ok_def)
  have u: "i < length (ev_params e) \<Longrightarrow> unat (of_nat i :: u32) = i" for i
    using ok by (simp add: ev_ok_def slots_ok_def unat_of_small)
  have "n \<in> set (ev_order e) \<longleftrightarrow>
      (\<exists>i. n = unat (of_nat i :: u32) \<and> i < length (ev_params e) \<and> isValid (ev_serial e) (ev_params e ! i))"
    using ok by (auto simp: ev_order_def ev_ok_def dope_ok_def image_iff)
  also have "\<dots> \<longleftrightarrow> n < length (ev_params e) \<and> isValid (ev_serial e) (ev_params e ! n)"
    using u by (metis (no_types))
  finally show ?thesis using v by (auto simp: ev_abs_def)
qed

lemma distinct_ev_order: "ev_ok e \<Longrightarrow> distinct (ev_order e)"
  by (auto simp: ev_order_def ev_ok_def dope_ok_def distinct_map inj_on_def word_unat_eq_iff)

lemma increments_need_first:
  "needParameter k \<Longrightarrow> ev (unat (hd (GetParameterIds k))) = None \<Longrightarrow> increments fb k ev = []"
  by (auto simp: needParameter_def GetParameterIds_def increments_def pair_fill_def split: spectrum_kind.splits)

lemma distinct_visited:
  assumes "sl_inv l sp" "distinct ns"
  shows "distinct (dl_items (sl_remaining l) @ concat (map (sl_items l) ns))"
proof -
  have on: "nm \<in> set (sl_items l n) \<longleftrightarrow>
        (\<exists>s. smap_get sp nm = Some s \<and> needParameter (sp_kind s) \<and>
             - 1 \<notin> set (GetParameterIds (sp_kind s)) \<and> unat (hd (GetParameterIds (sp_kind s))) = n)"
    and dn: "distinct (sl_items l n)" for nm n
    using assms(1) by (auto simp: sl_inv_def)
  have u: "set (sl_items l n) \<inter> set (sl_items l m) = {}" if "n \<noteq> m" for n m
    using that on by auto
  have "distinct (concat (map (sl_items l) ns))"
    using assms(2)
  proof (induction ns)
    case (Cons n ns)
    then have "set (sl_items l n) \<inter> set (sl_items l m) = {}" if "m \<in> set ns" for m
      using that by (intro u) auto
    with Cons dn [of n] show ?case by auto
  qed simp
  moreover have "nm \<notin> set (sl_items l n)" if "nm \<in> set (dl_items (sl_remaining l))" for nm n
    using that assms(1) on by (auto simp: sl_inv_def)
  moreover have "distinct (dl_items (sl_remaining l))" using assms(1) by (simp add: sl_inv_def)
  ultimately show ?thesis by auto
qed

text \<open>
  The spectra the lists do not lead to are those the event would not have incremented, so
  the result is that of offering the event to every spectrum of the dictionary.
\<close>

lemma lists_op_spec:
  assumes inv: "sl_inv l (fst hs)" and ok: "spectra_ok k hs" and d: "distinct (map fst (fst hs))"
  shows "\<exists>es'. lists_op k l hs = Some (bump_those k (snd hs) UNIV (fst hs), es') \<and>
     eval_ok es' \<and> same_eval (snd hs) es'"
proof -
  let ?e = "snd (snd hs)" and ?rem = "dl_items (sl_remaining l)"
  let ?by = "concat (map (sl_items l) (ev_order ?e))"
  have e: "ev_ok ?e" using ok by (simp add: spectra_ok_def eval_ok_def)
  have slok: "sl_ok l" using inv by (simp add: sl_inv_def)
  have dis: "distinct (?rem @ ?by)" by (rule distinct_visited [OF inv distinct_ev_order [OF e]])
  have sub: "set (?rem @ ?by) \<subseteq> fst ` set (fst hs)"
  proof
    fix nm assume "nm \<in> set (?rem @ ?by)"
    then have "\<exists>s. smap_get (fst hs) nm = Some s" using inv by (auto simp: sl_inv_def)
    then show "nm \<in> fst ` set (fst hs)" using smap_get_None_iff [of "fst hs" nm] by auto
  qed
  obtain es1 where es1: "run (spectrum_op k) ?rem hs = Some (bump_those k (snd hs) (set ?rem) (fst hs), es1)"
    "eval_ok es1" "same_eval (snd hs) es1"
    using run_spec [OF ok d, of ?rem] dis sub by auto
  let ?hs = "(bump_those k (snd hs) (set ?rem) (fst hs), es1)"
  have o: "ev_order (snd es1) = ev_order ?e" using es1(3) by (simp add: same_eval_def)
  have e1: "ev_ok (snd es1)" using es1(2) by (simp add: eval_ok_def)
  have len: "unat (dv_size (ev_dope (snd es1))) = length (ev_order (snd es1))"
    using e1 by (simp add: ev_ok_def dope_ok_def dv_size_length ev_order_def)
  have keys: "fst ` set (fst ?hs) = fst ` set (fst hs)"
    using keys_bump_those by (metis fst_conv set_map)
  have "dope_loop k l 0 (length (ev_order (snd es1))) ?hs = run (spectrum_op k) ?by ?hs"
    using dope_loop_run [OF slok spectra_ok_step [OF ok es1(2,3)], where i = 0 and n = "length (ev_order (snd es1))"]
      d dis sub keys o by simp
  then have "lists_op k l hs = run (spectrum_op k) (?rem @ ?by) hs"
    using es1(1) incrementList_run [of "sl_remaining l" "spectrum_op k" hs] slok len
    by (simp add: lists_op_def sl_ok_def run_append)
  moreover obtain es' where es': "run (spectrum_op k) (?rem @ ?by) hs =
      Some (bump_those k (snd hs) (set (?rem @ ?by)) (fst hs), es')" "eval_ok es'" "same_eval (snd hs) es'"
    using run_spec [OF ok d dis sub] by blast
  moreover have "bump_those k (snd hs) (set (?rem @ ?by)) (fst hs) = bump_those k (snd hs) UNIV (fst hs)"
  proof -
    have "bump k (snd hs) s = s" if "(nm, s) \<in> set (fst hs)" "nm \<notin> set (?rem @ ?by)" for nm s
    proof -
      have g: "smap_get (fst hs) nm = Some s" using that(1) d by (simp add: smap_get_map_of)
      have k: "kind_ok (sp_kind s)" using ok g by (simp add: spectra_ok_def)
      then have no1: "- 1 \<notin> set (GetParameterIds (sp_kind s))"
        using unat_minus_one_u32 by (auto simp: kind_ok_def max_params_def)
      have need: "needParameter (sp_kind s)" using that(2) g inv by (auto simp: sl_inv_def)
      then have "nm \<in> set (sl_items l (unat (hd (GetParameterIds (sp_kind s)))))"
        using no1 g inv by (auto simp: sl_inv_def)
      then have "unat (hd (GetParameterIds (sp_kind s))) \<notin> set (ev_order ?e)" using that(2) by auto
      then have "increments fb (sp_kind s) (ev_abs ?e) = []" for fb
        using increments_need_first [OF need] ev_order_abs [OF e] by auto
      then show ?thesis by (simp add: bump_def)
    qed
    then show ?thesis by (auto simp: bump_those_def)
  qed
  ultimately show ?thesis by auto
qed

end
