(* ===== verification/Histogrammer.thy ===== *)
theory Histogrammer
  imports Dictionary SpectraSemantics
begin

text \<open>
  CHistogrammer (src/main/Core/Histogrammer.cpp) with the two observers its constructor
  registers: the flattened gate list (CFlattenedGateList.cpp) and the per-parameter
  spectrum lists (Spectra).  The three dictionaries are the singletons it uses.  Observers
  are identities; the two internal ones have the numbers gateListObs and listsObs, what is
  called on any other is recorded in h_calls.  A failing operation returns the exception it
  throws and no state, since every check precedes the first change.
\<close>

record parameter =
  pa_name :: string
  pa_number :: u32
  pa_scale :: u32
  pa_low :: rat
  pa_high :: rat
  pa_units :: string
  pa_scaled :: bool

datatype dict_error =
    DuplicateKey string
  | DuplicateKeyId u32
  | DuplicateId u32
  | NoSuchKey string

datatype callback =
    OnParameterAdd obs_id string
  | OnParameterRemove obs_id string
  | OnSpectrumAdd obs_id string
  | OnSpectrumRemove obs_id string
  | OnGateAdd obs_id string
  | OnGateChange obs_id string
  | OnApply obs_id gate_ptr string

record histogrammer =
  h_params :: "parameter dictionary"
  h_spectra :: "spectrum dictionary"
  h_gates :: "container dictionary"
  h_gateObservers :: "obs_id list"
  h_gatingObservers :: "obs_id list"
  h_gateList :: "string dlist"
  h_lists :: spectrum_lists
  h_calls :: "callback list"

definition gateListObs :: obs_id where
  "gateListObs = 0"

definition listsObs :: obs_id where
  "listsObs = 1"

definition log_call :: "callback \<Rightarrow> histogrammer \<Rightarrow> histogrammer" where
  "log_call c h = h\<lparr> h_calls := h_calls h @ [c] \<rparr>"

subsection \<open>Observers and construction\<close>

definition addGateObserver :: "obs_id \<Rightarrow> histogrammer \<Rightarrow> histogrammer" where
  "addGateObserver ob h = h\<lparr> h_gates := addObserver ob (h_gates h),
     h_gateObservers := h_gateObservers h @ [ob] \<rparr>"

text \<open>
  The loop erases the list node its iterator stands on and then advances that iterator:
  undefined whenever the observer is registered.
\<close>

definition removeGateObserver :: "obs_id \<Rightarrow> histogrammer \<Rightarrow> histogrammer option" where
  "removeGateObserver ob h =
     (let h' = h\<lparr> h_gates := removeObserver ob (h_gates h) \<rparr>
      in if ob \<in> set (h_gateObservers h) then None else Some h')"

definition addGatingObserver :: "obs_id \<Rightarrow> histogrammer \<Rightarrow> histogrammer" where
  "addGatingObserver ob h = h\<lparr> h_gatingObservers := h_gatingObservers h @ [ob] \<rparr>"

definition removeGatingObserver :: "obs_id \<Rightarrow> histogrammer \<Rightarrow> histogrammer option" where
  "removeGatingObserver ob h = (if ob \<in> set (h_gatingObservers h) then None else Some h)"

definition addSpectrumDictionaryObserver :: "obs_id \<Rightarrow> histogrammer \<Rightarrow> histogrammer" where
  "addSpectrumDictionaryObserver ob h = h\<lparr> h_spectra := addObserver ob (h_spectra h) \<rparr>"

definition removeSpectrumDictionaryObserver :: "obs_id \<Rightarrow> histogrammer \<Rightarrow> histogrammer" where
  "removeSpectrumDictionaryObserver ob h = h\<lparr> h_spectra := removeObserver ob (h_spectra h) \<rparr>"

definition addParameterObserver :: "obs_id \<Rightarrow> histogrammer \<Rightarrow> histogrammer" where
  "addParameterObserver ob h = h\<lparr> h_params := addObserver ob (h_params h) \<rparr>"

definition removeParameterObserver :: "obs_id \<Rightarrow> histogrammer \<Rightarrow> histogrammer" where
  "removeParameterObserver ob h = h\<lparr> h_params := removeObserver ob (h_params h) \<rparr>"

definition createListObservers :: "histogrammer \<Rightarrow> histogrammer" where
  "createListObservers h =
     addSpectrumDictionaryObserver listsObs
       ((addGateObserver gateListObs (h\<lparr> h_gateList := dl_new \<rparr>))\<lparr> h_lists := new_spectrum_lists \<rparr>)"

definition new_histogrammer :: histogrammer where
  "new_histogrammer = createListObservers
     \<lparr> h_params = empty_dictionary, h_spectra = empty_dictionary, h_gates = empty_dictionary,
       h_gateObservers = [], h_gatingObservers = [], h_gateList = dl_new,
       h_lists = new_spectrum_lists, h_calls = [] \<rparr>"

subsection \<open>Parameters\<close>

definition FindParameter :: "string \<Rightarrow> histogrammer \<Rightarrow> parameter option" where
  "FindParameter nm h = Lookup (h_params h) nm"

definition FindParameterById :: "u32 \<Rightarrow> histogrammer \<Rightarrow> parameter option" where
  "FindParameterById n h = map_option snd (FindMatch (\<lambda>i. pa_number (snd i) = n) (h_params h))"

fun tell_parameter :: "parameter notification \<Rightarrow> histogrammer \<Rightarrow> histogrammer" where
  "tell_parameter (Added ob nm p) h = log_call (OnParameterAdd ob nm) h"
| "tell_parameter (Removed ob nm p) h = log_call (OnParameterRemove ob nm) h"

text \<open>What the three AddParameter overloads share: the two checks and the entry.\<close>

definition enter_parameter :: "string \<Rightarrow> parameter \<Rightarrow> histogrammer \<Rightarrow> dict_error + histogrammer" where
  "enter_parameter nm p h =
     (if (case FindParameter nm h of Some q \<Rightarrow> pa_name q = nm | None \<Rightarrow> False) then Inl (DuplicateKey nm)
      else if FindParameterById (pa_number p) h \<noteq> None then Inl (DuplicateId (pa_number p))
      else let (d, ns) = Enter nm p (h_params h)
           in Inr (fold tell_parameter ns (h\<lparr> h_params := d \<rparr>)))"

definition AddParameter :: "string \<Rightarrow> u32 \<Rightarrow> string option \<Rightarrow> histogrammer \<Rightarrow> dict_error + histogrammer" where
  "AddParameter nm n units h = enter_parameter nm
     \<lparr> pa_name = nm, pa_number = n, pa_scale = 0, pa_low = 0, pa_high = 0,
       pa_units = (case units of Some u \<Rightarrow> u | None \<Rightarrow> []), pa_scaled = False \<rparr> h"

definition AddParameter_scaled :: "string \<Rightarrow> u32 \<Rightarrow> u32 \<Rightarrow> histogrammer \<Rightarrow> dict_error + histogrammer" where
  "AddParameter_scaled nm n scale h = enter_parameter nm
     \<lparr> pa_name = nm, pa_number = n, pa_scale = scale, pa_low = 0, pa_high = 0,
       pa_units = [], pa_scaled = True \<rparr> h"

definition AddParameter_mapped ::
  "string \<Rightarrow> u32 \<Rightarrow> u32 \<Rightarrow> rat \<Rightarrow> rat \<Rightarrow> string \<Rightarrow> histogrammer \<Rightarrow> dict_error + histogrammer" where
  "AddParameter_mapped nm n scale low high units h = enter_parameter nm
     \<lparr> pa_name = nm, pa_number = n, pa_scale = scale, pa_low = low, pa_high = high,
       pa_units = units, pa_scaled = True \<rparr> h"

definition RemoveParameter :: "string \<Rightarrow> histogrammer \<Rightarrow> histogrammer \<times> parameter option" where
  "RemoveParameter nm h = (case Lookup (h_params h) nm of
      None \<Rightarrow> (h, None)
    | Some p \<Rightarrow> (case Remove nm (h_params h) of
         None \<Rightarrow> (h, None)
       | Some (d, ns) \<Rightarrow> (fold tell_parameter ns (h\<lparr> h_params := d \<rparr>), Some p)))"

subsection \<open>Spectra\<close>

definition FindSpectrum :: "string \<Rightarrow> histogrammer \<Rightarrow> spectrum option" where
  "FindSpectrum nm h = Lookup (h_spectra h) nm"

definition FindSpectrumById :: "u32 \<Rightarrow> histogrammer \<Rightarrow> spectrum option" where
  "FindSpectrumById n h = map_option snd (FindMatch (\<lambda>i. sp_number (snd i) = n) (h_spectra h))"

fun tell_spectrum :: "spectrum notification \<Rightarrow> histogrammer \<Rightarrow> histogrammer" where
  "tell_spectrum (Added ob nm s) h =
     (if ob = listsObs then h\<lparr> h_lists := sl_onAdd nm (sp_kind s) (h_lists h) \<rparr>
      else log_call (OnSpectrumAdd ob nm) h)"
| "tell_spectrum (Removed ob nm s) h =
     (if ob = listsObs then h\<lparr> h_lists := sl_onRemove nm (sp_kind s) (h_lists h) \<rparr>
      else log_call (OnSpectrumRemove ob nm) h)"

definition AddSpectrum :: "spectrum \<Rightarrow> histogrammer \<Rightarrow> dict_error + histogrammer" where
  "AddSpectrum s h =
     (if (case FindSpectrum (sp_name s) h of Some q \<Rightarrow> sp_name q = sp_name s | None \<Rightarrow> False)
      then Inl (DuplicateKey (sp_name s))
      else if FindSpectrumById (sp_number s) h \<noteq> None then Inl (DuplicateKeyId (sp_number s))
      else let (d, ns) = Enter (sp_name s) s (h_spectra h)
           in Inr (fold tell_spectrum ns (h\<lparr> h_spectra := d \<rparr>)))"

text \<open>The observers are told before the entry is erased.\<close>

definition RemoveSpectrum :: "string \<Rightarrow> histogrammer \<Rightarrow> histogrammer \<times> spectrum option" where
  "RemoveSpectrum nm h = (case Lookup (h_spectra h) nm of
      None \<Rightarrow> (h, None)
    | Some s \<Rightarrow> (case Remove nm (h_spectra h) of
         None \<Rightarrow> (h, None)
       | Some (d, ns) \<Rightarrow> ((fold tell_spectrum ns h)\<lparr> h_spectra := d \<rparr>, Some s)))"

definition ClearSpectrum :: "string \<Rightarrow> histogrammer \<Rightarrow> dict_error + histogrammer" where
  "ClearSpectrum nm h = (case Lookup (h_spectra h) nm of
      None \<Rightarrow> Inl (NoSuchKey nm)
    | Some s \<Rightarrow> Inr (h\<lparr> h_spectra := (h_spectra h)\<lparr> d_map := smap_put nm (Clear s) (d_map (h_spectra h)) \<rparr> \<rparr>))"

definition ClearAllSpectra :: "histogrammer \<Rightarrow> histogrammer" where
  "ClearAllSpectra h = h\<lparr> h_spectra := (h_spectra h)\<lparr>
     d_map := map (\<lambda>(nm, s). (nm, Clear s)) (d_map (h_spectra h)) \<rparr> \<rparr>"

text \<open>CGammaSpectrum::Fold through a pointer to a spectrum of the dictionary.\<close>

definition fold_spectrum :: "string \<Rightarrow> gate_ptr \<Rightarrow> histogrammer \<Rightarrow> histogrammer" where
  "fold_spectrum nm g h = h\<lparr> h_spectra := (h_spectra h)\<lparr>
     d_map := map (\<lambda>(k, s). (k, if k = nm then Fold g s else s)) (d_map (h_spectra h)) \<rparr> \<rparr>"

subsection \<open>Gates and the flattened gate list\<close>

definition FindGate :: "string \<Rightarrow> histogrammer \<Rightarrow> container option" where
  "FindGate nm h = Lookup (h_gates h) nm"

definition FindGateById :: "u32 \<Rightarrow> histogrammer \<Rightarrow> container option" where
  "FindGateById n h = map_option snd (FindMatch (\<lambda>i. gc_number (snd i) = n) (h_gates h))"

text \<open>CFlattenedGateList::onAdd, onRemove and onChange; a container pointer is its name.\<close>

definition fl_onAdd :: "string \<Rightarrow> container \<Rightarrow> histogrammer \<Rightarrow> histogrammer" where
  "fl_onAdd nm c h =
     (if caches (g_body (gc_gate c))
      then h\<lparr> h_gateList := dl_add (map_option (\<lambda>_. nm) (FindGate nm h)) (h_gateList h) \<rparr>
      else h)"

fun fl_search :: "string \<Rightarrow> string option list \<Rightarrow> string option" where
  "fl_search nm [] = None"
| "fl_search nm (None # ps) = None"
| "fl_search nm (Some c # ps) = (if nm = c then Some c else fl_search nm ps)"

definition fl_onRemove :: "string \<Rightarrow> histogrammer \<Rightarrow> histogrammer" where
  "fl_onRemove nm h = (case dl_getList (h_gateList h) of
      None \<Rightarrow> h
    | Some ps \<Rightarrow> (case fl_search nm ps of
         None \<Rightarrow> h
       | Some c \<Rightarrow> h\<lparr> h_gateList := dl_remove (Some c) (h_gateList h) \<rparr>))"

definition fl_onChange :: "string \<Rightarrow> container \<Rightarrow> histogrammer \<Rightarrow> histogrammer" where
  "fl_onChange nm c h = fl_onAdd nm c (fl_onRemove nm h)"

fun tell_gate :: "container notification \<Rightarrow> histogrammer \<Rightarrow> histogrammer" where
  "tell_gate (Added ob nm c) h = (if ob = gateListObs then fl_onAdd nm c h else log_call (OnGateAdd ob nm) h)"
| "tell_gate (Removed ob nm c) h = (if ob = gateListObs then fl_onRemove nm h else h)"

text \<open>
  The container is built from a clone of the gate, and entering it in the dictionary
  assigns it to the new node, which clones once more.
\<close>

definition AddGate :: "string \<Rightarrow> u32 \<Rightarrow> gate \<Rightarrow> histogrammer \<Rightarrow> dict_error + histogrammer" where
  "AddGate nm n g h =
     (if FindGate nm h \<noteq> None then Inl (DuplicateKey nm)
      else if FindGateById n h \<noteq> None then Inl (DuplicateKey nm)
      else let c = new_container nm n g;
               (d, ns) = Enter nm (setGate (gc_gate c) c) (h_gates h)
           in Inr (fold tell_gate ns (h\<lparr> h_gates := d \<rparr>)))"

fun invokeGateChangedObservers :: "obs_id list \<Rightarrow> string \<Rightarrow> container \<Rightarrow> histogrammer \<Rightarrow> histogrammer" where
  "invokeGateChangedObservers [] nm c h = h"
| "invokeGateChangedObservers (ob # obs) nm c h = invokeGateChangedObservers obs nm c
     (if ob = gateListObs then fl_onChange nm c h else log_call (OnGateChange ob nm) h)"

definition ReplaceGate :: "string \<Rightarrow> gate \<Rightarrow> histogrammer \<Rightarrow> dict_error + histogrammer" where
  "ReplaceGate nm g h = (case FindGate nm h of
      None \<Rightarrow> Inl (NoSuchKey nm)
    | Some c \<Rightarrow>
        let c' = setGate g c;
            h' = h\<lparr> h_gates := (h_gates h)\<lparr> d_map := smap_put nm c' (d_map (h_gates h)) \<rparr> \<rparr>
        in Inr (invokeGateChangedObservers (h_gateObservers h) nm c' h'))"

definition DeleteGate :: "string \<Rightarrow> histogrammer \<Rightarrow> dict_error + histogrammer" where
  "DeleteGate nm h = ReplaceGate nm (new_gate CDeletedGate) h"

fun observeApplyGate :: "obs_id list \<Rightarrow> gate_ptr \<Rightarrow> string \<Rightarrow> histogrammer \<Rightarrow> histogrammer" where
  "observeApplyGate [] g sp h = h"
| "observeApplyGate (ob # obs) g sp h = observeApplyGate obs g sp (log_call (OnApply ob g sp) h)"

definition apply_to :: "string \<Rightarrow> gate_ptr \<Rightarrow> spectrum \<Rightarrow> histogrammer \<Rightarrow> histogrammer" where
  "apply_to sp g s h = h\<lparr> h_spectra := (h_spectra h)\<lparr>
     d_map := smap_put sp (fst (ApplyGate g s)) (d_map (h_spectra h)) \<rparr> \<rparr>"

definition h_ApplyGate :: "string \<Rightarrow> string \<Rightarrow> histogrammer \<Rightarrow> dict_error + histogrammer" where
  "h_ApplyGate g sp h = (case FindSpectrum sp h of
      None \<Rightarrow> Inl (NoSuchKey sp)
    | Some s \<Rightarrow> (case FindGate g h of
         None \<Rightarrow> Inl (NoSuchKey g)
       | Some c \<Rightarrow> Inr (observeApplyGate (h_gatingObservers h) (GateNode g) sp (apply_to sp (GateNode g) s h))))"

definition UnGate :: "string \<Rightarrow> histogrammer \<Rightarrow> dict_error + histogrammer" where
  "UnGate sp h = (case FindSpectrum sp h of
      None \<Rightarrow> Inl (NoSuchKey sp)
    | Some s \<Rightarrow> Inr (observeApplyGate (h_gatingObservers h) NoGate sp (apply_to sp NoGate s h)))"

subsection \<open>Histogramming\<close>

text \<open>Reset every gate on the flattened list, up to its terminating NULL.\<close>

fun reset_gates :: "string option list \<Rightarrow> gate_store \<Rightarrow> gate_store option" where
  "reset_gates [] st = None"
| "reset_gates (None # ps) st = Some st"
| "reset_gates (Some nm # ps) st = reset_gates ps (reset_one nm st)"

text \<open>
  CHistogrammer::operator()(const CEvent&).  None covers undefined behaviour, an evaluation
  that does not return within the fuel, and the CRangeError of the dope vector.
\<close>

definition hist_event :: "nat \<Rightarrow> histogrammer \<Rightarrow> event \<Rightarrow> (histogrammer \<times> event) option" where
  "hist_event k h e =
     (case (case dl_getList (h_gateList h) of None \<Rightarrow> Some (d_map (h_gates h))
            | Some ps \<Rightarrow> reset_gates ps (d_map (h_gates h))) of
        None \<Rightarrow> None
      | Some st \<Rightarrow> map_option (\<lambda>(sp, (st', e')).
          (h\<lparr> h_spectra := (h_spectra h)\<lparr> d_map := sp \<rparr>, h_gates := (h_gates h)\<lparr> d_map := st' \<rparr> \<rparr>, e'))
            (lists_op k (h_lists h) (d_map (h_spectra h), (st, e))))"

text \<open>operator()(CEventList&): stops at the first null event.\<close>

fun hist_events :: "nat \<Rightarrow> histogrammer \<Rightarrow> event option list \<Rightarrow> (histogrammer \<times> event option list) option" where
  "hist_events k h [] = Some (h, [])"
| "hist_events k h (None # es) = Some (h, None # es)"
| "hist_events k h (Some e # es) = (case hist_event k h e of
      None \<Rightarrow> None
    | Some (h', e') \<Rightarrow> map_option (\<lambda>(h'', es'). (h'', Some e' # es')) (hist_events k h' es))"

end
