(* ===== verification/HistogrammerProps.thy ===== *)
theory HistogrammerProps
  imports Histogrammer
begin

text \<open>
  The invariant of the histogrammer (hist_ok), its preservation by every operation, and
  what histogramming an event does to the spectra.
\<close>

subsection \<open>The two internal observers\<close>

definition gl_inv :: "string dlist \<Rightarrow> gate_store \<Rightarrow> bool" where
  "gl_inv gl st \<longleftrightarrow> dl_ok gl \<and> distinct (dl_items gl) \<and>
     (\<forall>nm. nm \<in> set (dl_items gl) \<longleftrightarrow> (\<exists>c. smap_get st nm = Some c \<and> caches (g_body (gc_gate c))))"

lemma fl_search_scan: "scan ps = Some ns \<Longrightarrow> fl_search nm ps = (if nm \<in> set ns then Some nm else None)"
  by (induction ps arbitrary: ns rule: scan.induct) auto

lemma fl_onRemove_list:
  assumes "dl_ok (h_gateList h)" "distinct (dl_items (h_gateList h))"
  obtains gl where "fl_onRemove nm h = h\<lparr> h_gateList := gl \<rparr>" "dl_ok gl" "distinct (dl_items gl)"
    "set (dl_items gl) = set (dl_items (h_gateList h)) - {nm}"
proof (cases "dl_getList (h_gateList h)")
  case None
  then have "dl_items (h_gateList h) = []" by (simp add: dl_items_def dl_getList_def)
  then show ?thesis using that [of "h_gateList h"] None assms by (simp add: fl_onRemove_def)
next
  case (Some ps)
  then have "fl_search nm ps = (if nm \<in> set (dl_items (h_gateList h)) then Some nm else None)"
    using dl_visited_items [OF assms(1)] by (simp add: dl_visited_def fl_search_scan)
  then show ?thesis
    using that [of "h_gateList h"] that [of "dl_remove (Some nm) (h_gateList h)"] Some assms
      dl.set_remove [OF assms, of nm] dl.distinct_remove [OF assms, of nm] dl.remove_ok [OF assms(1), of nm]
    by (cases "nm \<in> set (dl_items (h_gateList h))") (simp_all add: fl_onRemove_def)
qed

lemma fl_onAdd_calls [simp]: "fl_onAdd nm c (h\<lparr> h_calls := cs \<rparr>) = (fl_onAdd nm c h)\<lparr> h_calls := cs \<rparr>"
  by (simp add: fl_onAdd_def FindGate_def)

lemma fl_onRemove_calls [simp]: "fl_onRemove nm (h\<lparr> h_calls := cs \<rparr>) = (fl_onRemove nm h)\<lparr> h_calls := cs \<rparr>"
  by (simp add: fl_onRemove_def split: option.splits)

lemma fl_onChange_calls [simp]: "fl_onChange nm c (h\<lparr> h_calls := cs \<rparr>) = (fl_onChange nm c h)\<lparr> h_calls := cs \<rparr>"
  by (simp add: fl_onChange_def)

text \<open>An internal observer registered once is told once; the others only leave a record.\<close>

lemma count_1_split: "count_list xs x = 1 \<Longrightarrow> \<exists>a b. xs = a @ x # b \<and> x \<notin> set a \<and> x \<notin> set b"
proof -
  assume c: "count_list xs x = 1"
  then have "x \<in> set xs" by (metis count_notin zero_neq_one)
  then obtain a b where ab: "xs = a @ x # b" "x \<notin> set a" using split_list_first by fastforce
  then have "count_list b x = 0" using c by (simp add: count_list_append)
  then show ?thesis using ab by (auto simp: count_list_0_iff)
qed

lemma tell_gate_quiet:
  "gateListObs \<notin> set obs \<Longrightarrow> \<exists>cs. fold tell_gate (invokeAdd obs nm c) h = h\<lparr> h_calls := cs \<rparr>"
proof (induction obs arbitrary: h)
  case Nil
  then show ?case by (auto intro: exI [of _ "h_calls h"])
next
  case (Cons ob obs)
  then show ?case using Cons.IH [of "log_call (OnGateAdd ob nm) h"] by (auto simp: log_call_def)
qed

lemma tell_gate_once:
  assumes "count_list obs gateListObs = 1"
  shows "\<exists>cs. fold tell_gate (invokeAdd obs nm c) h = (fl_onAdd nm c h)\<lparr> h_calls := cs \<rparr>"
proof -
  obtain a b where ab: "obs = a @ gateListObs # b" "gateListObs \<notin> set a" "gateListObs \<notin> set b"
    using count_1_split [OF assms] by blast
  obtain cs where "fold tell_gate (invokeAdd a nm c) h = h\<lparr> h_calls := cs \<rparr>"
    using tell_gate_quiet [OF ab(2)] by blast
  then show ?thesis
    using tell_gate_quiet [OF ab(3), of nm c "(fl_onAdd nm c h)\<lparr> h_calls := cs \<rparr>"]
    by (auto simp: ab(1) invokeAdd_map)
qed

lemma change_quiet:
  "gateListObs \<notin> set obs \<Longrightarrow> \<exists>cs. invokeGateChangedObservers obs nm c h = h\<lparr> h_calls := cs \<rparr>"
proof (induction obs arbitrary: h)
  case Nil
  then show ?case by (auto intro: exI [of _ "h_calls h"])
next
  case (Cons ob obs)
  then show ?case using Cons.IH [of "log_call (OnGateChange ob nm) h"] by (auto simp: log_call_def)
qed

lemma change_append:
  "invokeGateChangedObservers (a @ b) nm c h = invokeGateChangedObservers b nm c (invokeGateChangedObservers a nm c h)"
  by (induction a arbitrary: h) auto

lemma change_once:
  assumes "count_list obs gateListObs = 1"
  shows "\<exists>cs. invokeGateChangedObservers obs nm c h = (fl_onChange nm c h)\<lparr> h_calls := cs \<rparr>"
proof -
  obtain a b where ab: "obs = a @ gateListObs # b" "gateListObs \<notin> set a" "gateListObs \<notin> set b"
    using count_1_split [OF assms] by blast
  obtain cs where "invokeGateChangedObservers a nm c h = h\<lparr> h_calls := cs \<rparr>"
    using change_quiet [OF ab(2)] by blast
  then show ?thesis
    using change_quiet [OF ab(3), of nm c "(fl_onChange nm c h)\<lparr> h_calls := cs \<rparr>"]
    by (auto simp: ab(1) change_append)
qed

lemma tell_spectrum_quiet:
  "listsObs \<notin> set obs \<Longrightarrow>
   (\<exists>cs. fold tell_spectrum (invokeAdd obs nm s) h = h\<lparr> h_calls := cs \<rparr>) \<and>
   (\<exists>cs. fold tell_spectrum (invokeRemove obs nm s) h = h\<lparr> h_calls := cs \<rparr>)"
proof (induction obs arbitrary: h)
  case Nil
  then show ?case by (auto intro: exI [of _ "h_calls h"])
next
  case (Cons ob obs)
  then show ?case
    using Cons.IH [of "log_call (OnSpectrumAdd ob nm) h"] Cons.IH [of "log_call (OnSpectrumRemove ob nm) h"]
    by (auto simp: log_call_def)
qed

lemma tell_spectrum_once:
  assumes "count_list obs listsObs = 1"
  shows "\<exists>cs. fold tell_spectrum (invokeAdd obs nm s) h =
      h\<lparr> h_lists := sl_onAdd nm (sp_kind s) (h_lists h), h_calls := cs \<rparr>"
    and "\<exists>cs. fold tell_spectrum (invokeRemove obs nm s) h =
      h\<lparr> h_lists := sl_onRemove nm (sp_kind s) (h_lists h), h_calls := cs \<rparr>"
proof -
  obtain a b where ab: "obs = a @ listsObs # b" "listsObs \<notin> set a" "listsObs \<notin> set b"
    using count_1_split [OF assms] by blast
  obtain cs where "fold tell_spectrum (invokeAdd a nm s) h = h\<lparr> h_calls := cs \<rparr>"
    using tell_spectrum_quiet [OF ab(2)] by blast
  then show "\<exists>cs. fold tell_spectrum (invokeAdd obs nm s) h =
      h\<lparr> h_lists := sl_onAdd nm (sp_kind s) (h_lists h), h_calls := cs \<rparr>"
    using tell_spectrum_quiet [OF ab(3), of nm s "h\<lparr> h_calls := cs, h_lists := sl_onAdd nm (sp_kind s) (h_lists h) \<rparr>"]
    by (auto simp: ab(1) invokeAdd_map)
  obtain cs where "fold tell_spectrum (invokeRemove a nm s) h = h\<lparr> h_calls := cs \<rparr>"
    using tell_spectrum_quiet [OF ab(2)] by blast
  then show "\<exists>cs. fold tell_spectrum (invokeRemove obs nm s) h =
      h\<lparr> h_lists := sl_onRemove nm (sp_kind s) (h_lists h), h_calls := cs \<rparr>"
    using tell_spectrum_quiet [OF ab(3), of nm s "h\<lparr> h_calls := cs, h_lists := sl_onRemove nm (sp_kind s) (h_lists h) \<rparr>"]
    by (auto simp: ab(1) invokeRemove_map)
qed

lemma tell_parameter_quiet:
  "(\<exists>cs. fold tell_parameter (invokeAdd obs nm p) h = h\<lparr> h_calls := cs \<rparr>) \<and>
   (\<exists>cs. fold tell_parameter (invokeRemove obs nm p) h = h\<lparr> h_calls := cs \<rparr>)"
proof (induction obs arbitrary: h)
  case Nil
  then show ?case by (auto intro: exI [of _ "h_calls h"])
next
  case (Cons ob obs)
  then show ?case
    using Cons.IH [of "log_call (OnParameterAdd ob nm) h"] Cons.IH [of "log_call (OnParameterRemove ob nm) h"]
    by (auto simp: log_call_def)
qed

lemma observeApplyGate_calls: "\<exists>cs. observeApplyGate obs g sp h = h\<lparr> h_calls := cs \<rparr>"
proof (induction obs arbitrary: h)
  case Nil
  then show ?case by (auto intro: exI [of _ "h_calls h"])
next
  case (Cons ob obs)
  then show ?case using Cons.IH [of "log_call (OnApply ob g sp) h"] by (auto simp: log_call_def)
qed

subsection \<open>The spectrum lists\<close>

lemma sl_items_remaining [simp]: "sl_items (l\<lparr> sl_remaining := r \<rparr>) = sl_items l"
  by (rule ext) (simp add: sl_items_def)

lemma sl_items_byParameter:
  "sl_items (l\<lparr> sl_byParameter := v \<rparr>) m =
     (if m < length v then (case v ! m of Some d \<Rightarrow> dl_items d | None \<Rightarrow> []) else [])"
  by (simp add: sl_items_def)

lemma sl_ok_update:
  "sl_ok l \<Longrightarrow> (case d of Some q \<Rightarrow> dl_ok q | None \<Rightarrow> True) \<Longrightarrow>
   (\<And>x. x \<in> set v \<Longrightarrow> case x of Some q \<Rightarrow> dl_ok q | None \<Rightarrow> True) \<Longrightarrow>
   sl_ok (l\<lparr> sl_byParameter := v[n := d] \<rparr>)"
  using set_update_subset_insert [of v n d] by (auto simp: sl_ok_def)

lemma addToParameter_spec:
  assumes "sl_ok l"
  shows "sl_ok (addToParameter p n l)" "sl_remaining (addToParameter p n l) = sl_remaining l"
    "sl_items (addToParameter p n l) m = (if m = unat n then sl_items l m @ [p] else sl_items l m)"
proof -
  define v where "v = sl_byParameter l @ replicate (unat n + 1 - length (sl_byParameter l)) None"
  define d where "d = (case v ! unat n of Some d \<Rightarrow> d | None \<Rightarrow> dl_new)"
  have def: "addToParameter p n l = l\<lparr> sl_byParameter := v[unat n := Some (dl_add (Some p) d)] \<rparr>"
    by (simp add: addToParameter_def v_def d_def Let_def)
  have len: "unat n < length v" by (simp add: v_def)
  have vok: "case x of Some d \<Rightarrow> dl_ok d | None \<Rightarrow> True" if "x \<in> set v" for x
    using that assms by (auto simp: v_def sl_ok_def)
  then have dok: "dl_ok d" using nth_mem [OF len] by (fastforce simp: d_def split: option.splits)
  show "sl_ok (addToParameter p n l)"
    unfolding def using sl_ok_update [OF assms _ vok] dl.add_ok [OF dok] by simp
  show "sl_remaining (addToParameter p n l) = sl_remaining l" by (simp add: def)
  have iv: "sl_items l m = (if m < length v then (case v ! m of Some d \<Rightarrow> dl_items d | None \<Rightarrow> []) else [])" for m
    by (auto simp: sl_items_def v_def nth_append)
  show "sl_items (addToParameter p n l) m = (if m = unat n then sl_items l m @ [p] else sl_items l m)"
    using len dl_add_spec [OF dok, of p] unfolding iv def sl_items_byParameter
    by (simp add: nth_list_update d_def split: option.splits)
qed

lemma sl_onRemove_spec:
  assumes "sl_ok l" "needParameter k" "- 1 \<notin> set (GetParameterIds k)"
  shows "sl_ok (sl_onRemove p k l)" "sl_remaining (sl_onRemove p k l) = sl_remaining l"
    "sl_items (sl_onRemove p k l) m =
       (if m = unat (hd (GetParameterIds k)) then drop_swap p (sl_items l m) else sl_items l m)"
proof -
  let ?n = "unat (hd (GetParameterIds k))"
  have nil: "drop_swap p [] = []" by (simp add: drop_swap_def)
  have dok: "dl_ok d" if "?n < length (sl_byParameter l)" "sl_byParameter l ! ?n = Some d" for d
    using that assms(1) nth_mem [OF that(1)] by (auto simp: sl_ok_def)
  have vok: "case x of Some d \<Rightarrow> dl_ok d | None \<Rightarrow> True" if "x \<in> set (sl_byParameter l)" for x
    using that assms(1) by (auto simp: sl_ok_def)
  have "sl_ok (sl_onRemove p k l) \<and> sl_remaining (sl_onRemove p k l) = sl_remaining l \<and>
    sl_items (sl_onRemove p k l) m = (if m = ?n then drop_swap p (sl_items l m) else sl_items l m)"
  proof (cases "?n < length (sl_byParameter l) \<and> sl_byParameter l ! ?n \<noteq> None")
    case True
    then obtain d where d: "?n < length (sl_byParameter l)" "sl_byParameter l ! ?n = Some d" by auto
    have def: "sl_onRemove p k l = l\<lparr> sl_byParameter := (sl_byParameter l)[?n := Some (dl_remove (Some p) d)] \<rparr>"
      using assms d by (simp add: sl_onRemove_def Let_def)
    show ?thesis
      unfolding def using sl_ok_update [OF assms(1) _ vok] dl_remove_spec [OF dok [OF d], of p] d
      by (simp add: sl_items_byParameter nth_list_update sl_items_def)
  next
    case False
    then have "sl_onRemove p k l = l" using assms by (auto simp: sl_onRemove_def Let_def)
    moreover have "sl_items l ?n = []" using False by (auto simp: sl_items_def)
    ultimately show ?thesis using assms(1) nil by simp
  qed
  then show "sl_ok (sl_onRemove p k l)" "sl_remaining (sl_onRemove p k l) = sl_remaining l"
    "sl_items (sl_onRemove p k l) m = (if m = ?n then drop_swap p (sl_items l m) else sl_items l m)"
    by blast+
qed


lemma drop_swap_set: "distinct xs \<Longrightarrow> set (drop_swap x xs) = set xs - {x} \<and> distinct (drop_swap x xs)"
  using mset_drop_swap [of x xs]
  by (metis distinct_remove1 mset_eq_imp_distinct_iff mset_remove1 set_mset_mset set_remove1_eq)

lemma sl_inv_onAdd:
  assumes inv: "sl_inv l sp" and fresh: "smap_get sp nm = None"
  shows "sl_inv (sl_onAdd nm (sp_kind s) l) (smap_put nm s sp)"
proof -
  let ?k = "sp_kind s"
  have ok: "sl_ok l" and rem: "dl_ok (sl_remaining l)" using inv by (auto simp: sl_inv_def sl_ok_def)
  have out: "nm \<notin> set (dl_items (sl_remaining l))" "nm \<notin> set (sl_items l n)" for n
    using inv fresh by (auto simp: sl_inv_def)
  consider "\<not> needParameter ?k" | "needParameter ?k" "- 1 \<in> set (GetParameterIds ?k)"
    | "needParameter ?k" "- 1 \<notin> set (GetParameterIds ?k)" by blast
  then show ?thesis
  proof cases
    case 1
    then have "sl_onAdd nm ?k l = l\<lparr> sl_remaining := dl_add (Some nm) (sl_remaining l) \<rparr>"
      by (simp add: sl_onAdd_def)
    then show ?thesis
      using 1 inv out fresh dl_add_spec [OF rem, of nm] by (auto simp: sl_inv_def sl_ok_def)
  next
    case 2
    then have "sl_onAdd nm ?k l = l" by (simp add: sl_onAdd_def)
    then show ?thesis using 2 inv fresh by (auto simp: sl_inv_def)
  next
    case 3
    then have "sl_onAdd nm ?k l = addToParameter nm (hd (GetParameterIds ?k)) l" by (simp add: sl_onAdd_def)
    then show ?thesis
      using 3 inv out fresh addToParameter_spec [OF ok, of nm "hd (GetParameterIds ?k)"]
      by (auto simp: sl_inv_def)
  qed
qed

lemma sl_inv_onRemove:
  assumes inv: "sl_inv l sp" and s: "smap_get sp nm = Some s" and smap: "smap_ok sp"
  shows "sl_inv (sl_onRemove nm (sp_kind s) l) (smap_erase nm sp)"
proof -
  let ?k = "sp_kind s"
  have ok: "sl_ok l" and rem: "dl_ok (sl_remaining l)" using inv by (auto simp: sl_inv_def sl_ok_def)
  have dis: "distinct (dl_items (sl_remaining l))" "distinct (sl_items l n)" for n
    using inv by (auto simp: sl_inv_def)
  consider "\<not> needParameter ?k" | "needParameter ?k" "- 1 \<in> set (GetParameterIds ?k)"
    | "needParameter ?k" "- 1 \<notin> set (GetParameterIds ?k)" by blast
  then show ?thesis
  proof cases
    case 1
    then have "sl_onRemove nm ?k l = l\<lparr> sl_remaining := dl_remove (Some nm) (sl_remaining l) \<rparr>"
      by (simp add: sl_onRemove_def)
    then show ?thesis
      using 1 inv s smap dl.remove_ok [OF rem, of nm] dl.set_remove [OF rem dis(1), of nm]
        dl.distinct_remove [OF rem dis(1), of nm]
      by (auto simp: sl_inv_def sl_ok_def)
  next
    case 2
    then have "sl_onRemove nm ?k l = l" by (simp add: sl_onRemove_def)
    then show ?thesis using 2 inv s smap by (auto simp: sl_inv_def)
  next
    case 3
    then show ?thesis
      using inv s smap sl_onRemove_spec [OF ok 3, of nm] drop_swap_set [OF dis(2), of nm]
      by (auto simp: sl_inv_def)
  qed
qed

lemma sl_inv_cong:
  "sl_inv l sp \<Longrightarrow> (\<And>nm. map_option sp_kind (smap_get sp' nm) = map_option sp_kind (smap_get sp nm)) \<Longrightarrow> sl_inv l sp'"
proof -
  assume inv: "sl_inv l sp"
    and eq: "\<And>nm. map_option sp_kind (smap_get sp' nm) = map_option sp_kind (smap_get sp nm)"
  have "(\<exists>s. smap_get sp' nm = Some s \<and> P (sp_kind s)) \<longleftrightarrow> (\<exists>s. smap_get sp nm = Some s \<and> P (sp_kind s))" for nm P
    using eq [of nm] by (cases "smap_get sp nm"; cases "smap_get sp' nm") auto
  note this [of _ "\<lambda>k. \<not> needParameter k"]
    this [of _ "\<lambda>k. needParameter k \<and> - 1 \<notin> set (GetParameterIds k) \<and> unat (hd (GetParameterIds k)) = n" for n]
  with inv show ?thesis unfolding sl_inv_def by simp
qed

subsection \<open>The invariant\<close>

definition unique_numbers :: "('a \<Rightarrow> u32) \<Rightarrow> (string \<times> 'a) list \<Rightarrow> bool" where
  "unique_numbers num m \<longleftrightarrow> (\<forall>a b x y. smap_get m a = Some x \<longrightarrow> smap_get m b = Some y \<longrightarrow> num x = num y \<longrightarrow> a = b)"

definition params_inv :: "histogrammer \<Rightarrow> bool" where
  "params_inv h \<longleftrightarrow> dict_ok (h_params h) \<and> unique_numbers pa_number (d_map (h_params h)) \<and>
     (\<forall>nm p. Lookup (h_params h) nm = Some p \<longrightarrow> pa_name p = nm)"

definition spectra_inv :: "histogrammer \<Rightarrow> bool" where
  "spectra_inv h \<longleftrightarrow> dict_ok (h_spectra h) \<and> unique_numbers sp_number (d_map (h_spectra h)) \<and>
     (\<forall>nm s. Lookup (h_spectra h) nm = Some s \<longrightarrow> sp_name s = nm) \<and>
     count_list (d_obs (h_spectra h)) listsObs = 1 \<and> sl_inv (h_lists h) (d_map (h_spectra h))"

definition gates_inv :: "histogrammer \<Rightarrow> bool" where
  "gates_inv h \<longleftrightarrow> dict_ok (h_gates h) \<and> unique_numbers gc_number (d_map (h_gates h)) \<and>
     (\<forall>nm c. Lookup (h_gates h) nm = Some c \<longrightarrow> gc_name c = nm) \<and>
     count_list (d_obs (h_gates h)) gateListObs = 1 \<and> count_list (h_gateObservers h) gateListObs = 1 \<and>
     gl_inv (h_gateList h) (d_map (h_gates h))"

text \<open>A spectrum is gated on a gate of the dictionary.\<close>

definition gating_inv :: "histogrammer \<Rightarrow> bool" where
  "gating_inv h \<longleftrightarrow> (\<forall>nm s g. Lookup (h_spectra h) nm = Some s \<longrightarrow> sp_gate s = GateNode g \<longrightarrow>
     Lookup (h_gates h) g \<noteq> None)"

definition hist_ok :: "histogrammer \<Rightarrow> bool" where
  "hist_ok h \<longleftrightarrow> params_inv h \<and> spectra_inv h \<and> gates_inv h \<and> gating_inv h"

lemmas hist_ok_defs = hist_ok_def params_inv_def spectra_inv_def gates_inv_def gating_inv_def

lemma unique_numbers_put:
  "unique_numbers num m \<Longrightarrow> smap_get m nm = None \<Longrightarrow>
   (\<And>k x. smap_get m k = Some x \<Longrightarrow> num x \<noteq> num v) \<Longrightarrow> unique_numbers num (smap_put nm v m)"
  by (auto simp: unique_numbers_def split: if_splits) (metis)

lemma unique_numbers_change:
  "unique_numbers num m \<Longrightarrow> smap_get m nm = Some x \<Longrightarrow> num v = num x \<Longrightarrow> unique_numbers num (smap_put nm v m)"
  by (auto simp: unique_numbers_def split: if_splits)

lemma unique_numbers_erase: "unique_numbers num m \<Longrightarrow> smap_ok m \<Longrightarrow> unique_numbers num (smap_erase nm m)"
  by (auto simp: unique_numbers_def split: if_splits)

lemma FindMatch_number_None:
  "dict_ok d \<Longrightarrow> map_option snd (FindMatch (\<lambda>i. num (snd i) = n) d) = None \<longleftrightarrow>
   (\<forall>k x. Lookup d k = Some x \<longrightarrow> num x \<noteq> n)"
  by (simp add: FindMatch_None)

lemma hist_ok_calls [simp]: "hist_ok (h\<lparr> h_calls := cs \<rparr>) = hist_ok h"
  by (simp add: hist_ok_defs)

lemma smap_ok_map_val [simp]: "smap_ok (map (\<lambda>(k, v). (k, f k v)) m) = smap_ok m"
  by (simp add: smap_ok_def comp_def case_prod_unfold)

lemma new_histogrammer_ok: "hist_ok new_histogrammer"
  by (simp add: hist_ok_defs new_histogrammer_def createListObservers_def addSpectrumDictionaryObserver_def
      addGateObserver_def addObserver_def dict_defs unique_numbers_def sl_inv_def sl_ok_def gl_inv_def
      new_spectrum_lists_def sl_items_def)

lemma enter_parameter_ok:
  "hist_ok h \<Longrightarrow> pa_name p = nm \<Longrightarrow> enter_parameter nm p h = Inr h' \<Longrightarrow> hist_ok h'"
proof -
  assume ok: "hist_ok h" and nm: "pa_name p = nm" and e: "enter_parameter nm p h = Inr h'"
  let ?d = "(h_params h)\<lparr> d_map := smap_put nm p (d_map (h_params h)) \<rparr>"
  obtain cs where "fold tell_parameter (invokeAdd (d_obs (h_params h)) nm p) (h\<lparr> h_params := ?d \<rparr>) =
      h\<lparr> h_params := ?d, h_calls := cs \<rparr>"
    using tell_parameter_quiet [of "d_obs (h_params h)" nm p "h\<lparr> h_params := ?d \<rparr>"] by auto
  then have "h' = h\<lparr> h_params := ?d, h_calls := cs \<rparr>"
    using e by (simp add: enter_parameter_def Enter_def split: if_splits)
  moreover have "Lookup (h_params h) nm = None"
    using e ok by (auto simp: enter_parameter_def FindParameter_def hist_ok_defs split: if_splits option.splits)
  moreover have "FindParameterById (pa_number p) h = None"
    using e by (simp add: enter_parameter_def split: if_splits)
  then have "\<forall>k x. Lookup (h_params h) k = Some x \<longrightarrow> pa_number x \<noteq> pa_number p"
    unfolding FindParameterById_def using ok by (subst (asm) FindMatch_number_None) (simp_all add: hist_ok_defs)
  ultimately show ?thesis
    using ok nm by (auto simp: hist_ok_defs dict_ok_def Lookup_def intro: unique_numbers_put)
qed

lemma RemoveParameter_ok: "hist_ok h \<Longrightarrow> hist_ok (fst (RemoveParameter nm h))"
proof (cases "Lookup (h_params h) nm")
  case (Some p)
  assume ok: "hist_ok h"
  let ?d = "(h_params h)\<lparr> d_map := smap_erase nm (d_map (h_params h)) \<rparr>"
  obtain cs where "fold tell_parameter (invokeRemove (d_obs (h_params h)) nm p) (h\<lparr> h_params := ?d \<rparr>) =
      h\<lparr> h_params := ?d, h_calls := cs \<rparr>"
    using tell_parameter_quiet [of "d_obs (h_params h)" nm p "h\<lparr> h_params := ?d \<rparr>"] by auto
  then have "fst (RemoveParameter nm h) = h\<lparr> h_params := ?d, h_calls := cs \<rparr>"
    using Some by (simp add: RemoveParameter_def Remove_def)
  then show ?thesis
    using ok by (auto simp: hist_ok_defs dict_ok_def Lookup_def unique_numbers_erase)
qed (simp add: RemoveParameter_def)


lemma AddSpectrum_ok:
  assumes ok: "hist_ok h" and e: "AddSpectrum s h = Inr h'"
    and g: "\<And>g. sp_gate s = GateNode g \<Longrightarrow> FindGate g h \<noteq> None"
  shows "hist_ok h' \<and> (\<exists>cs. h' = h\<lparr> h_spectra := fst (Enter (sp_name s) s (h_spectra h)),
      h_lists := sl_onAdd (sp_name s) (sp_kind s) (h_lists h), h_calls := cs \<rparr>)"
proof -
  let ?d = "(h_spectra h)\<lparr> d_map := smap_put (sp_name s) s (d_map (h_spectra h)) \<rparr>"
  have once: "count_list (d_obs (h_spectra h)) listsObs = 1" using ok by (simp add: hist_ok_defs)
  obtain cs where "fold tell_spectrum (invokeAdd (d_obs (h_spectra h)) (sp_name s) s) (h\<lparr> h_spectra := ?d \<rparr>) =
      h\<lparr> h_spectra := ?d, h_lists := sl_onAdd (sp_name s) (sp_kind s) (h_lists h), h_calls := cs \<rparr>"
    using tell_spectrum_once(1) [OF once, of "sp_name s" s "h\<lparr> h_spectra := ?d \<rparr>"] by auto
  then have h': "h' = h\<lparr> h_spectra := ?d, h_lists := sl_onAdd (sp_name s) (sp_kind s) (h_lists h), h_calls := cs \<rparr>"
    using e by (simp add: AddSpectrum_def Enter_def split: if_splits)
  have "Lookup (h_spectra h) (sp_name s) = None"
    using e ok by (auto simp: AddSpectrum_def FindSpectrum_def hist_ok_defs split: if_splits option.splits)
  moreover have "FindSpectrumById (sp_number s) h = None"
    using e by (simp add: AddSpectrum_def split: if_splits)
  then have "\<forall>k x. Lookup (h_spectra h) k = Some x \<longrightarrow> sp_number x \<noteq> sp_number s"
    unfolding FindSpectrumById_def using ok by (subst (asm) FindMatch_number_None) (simp_all add: hist_ok_defs)
  ultimately have "hist_ok h'"
    using ok h' g by (auto simp: hist_ok_defs dict_ok_def Lookup_def FindGate_def
        intro: unique_numbers_put sl_inv_onAdd)
  with h' show ?thesis by (auto simp: Enter_def)
qed

lemma RemoveSpectrum_ok: "hist_ok h \<Longrightarrow> hist_ok (fst (RemoveSpectrum nm h))"
proof (cases "Lookup (h_spectra h) nm")
  case (Some s)
  assume ok: "hist_ok h"
  let ?d = "(h_spectra h)\<lparr> d_map := smap_erase nm (d_map (h_spectra h)) \<rparr>"
  have once: "count_list (d_obs (h_spectra h)) listsObs = 1" using ok by (simp add: hist_ok_defs)
  obtain cs where "fold tell_spectrum (invokeRemove (d_obs (h_spectra h)) nm s) h =
      h\<lparr> h_lists := sl_onRemove nm (sp_kind s) (h_lists h), h_calls := cs \<rparr>"
    using tell_spectrum_once(2) [OF once, of nm s h] by auto
  then have "fst (RemoveSpectrum nm h) = h\<lparr> h_lists := sl_onRemove nm (sp_kind s) (h_lists h), h_calls := cs,
      h_spectra := ?d \<rparr>"
    using Some by (simp add: RemoveSpectrum_def Remove_def)
  then show ?thesis
    using ok Some by (auto simp: hist_ok_defs dict_ok_def Lookup_def unique_numbers_erase intro: sl_inv_onRemove)
qed (simp add: RemoveSpectrum_def)

text \<open>Changing fills or the gate of a spectrum in place.\<close>

lemma change_spectrum_ok:
  assumes ok: "hist_ok h" and s: "Lookup (h_spectra h) nm = Some s"
    and t: "sp_name t = sp_name s" "sp_number t = sp_number s" "sp_kind t = sp_kind s"
    and g: "\<And>g. sp_gate t = GateNode g \<Longrightarrow> Lookup (h_gates h) g \<noteq> None"
  shows "hist_ok (h\<lparr> h_spectra := (h_spectra h)\<lparr> d_map := smap_put nm t (d_map (h_spectra h)) \<rparr> \<rparr>)"
    (is "hist_ok ?h")
proof -
  have si: "spectra_inv h" and gi: "gating_inv h" using ok by (simp_all add: hist_ok_def)
  have "sl_inv (h_lists h) (smap_put nm t (d_map (h_spectra h)))"
  proof (rule sl_inv_cong)
    show "sl_inv (h_lists h) (d_map (h_spectra h))" using si by (simp add: spectra_inv_def)
    show "map_option sp_kind (smap_get (smap_put nm t (d_map (h_spectra h))) k) =
        map_option sp_kind (smap_get (d_map (h_spectra h)) k)" for k
      using s t(3) by (simp add: Lookup_def)
  qed
  moreover have "unique_numbers sp_number (smap_put nm t (d_map (h_spectra h)))"
    using si s t unique_numbers_change unfolding spectra_inv_def Lookup_def by metis
  moreover have "sp_name t = nm" using si s t(1) by (simp add: spectra_inv_def)
  ultimately have "spectra_inv ?h"
    using si by (simp add: spectra_inv_def dict_ok_def Lookup_def)
  moreover have "gating_inv ?h" using gi g by (simp add: gating_inv_def Lookup_def)
  ultimately show ?thesis using ok by (simp add: hist_ok_def params_inv_def gates_inv_def)
qed

lemma ClearSpectrum_ok: "hist_ok h \<Longrightarrow> ClearSpectrum nm h = Inr h' \<Longrightarrow> hist_ok h'"
  using change_spectrum_ok [of h nm _ "Clear s" for s]
  by (auto simp: ClearSpectrum_def Clear_def hist_ok_def gating_inv_def split: option.splits)

lemma map_spectra_ok:
  assumes ok: "hist_ok h"
    and f: "\<And>nm s. sp_name (f nm s) = sp_name s" "\<And>nm s. sp_number (f nm s) = sp_number s"
      "\<And>nm s. sp_kind (f nm s) = sp_kind s" "\<And>nm s. sp_gate (f nm s) = sp_gate s"
  shows "hist_ok (h\<lparr> h_spectra := (h_spectra h)\<lparr> d_map := map (\<lambda>(nm, s). (nm, f nm s)) (d_map (h_spectra h)) \<rparr> \<rparr>)"
    (is "hist_ok ?h")
proof -
  have si: "spectra_inv h" and gi: "gating_inv h" using ok by (simp_all add: hist_ok_def)
  have "sl_inv (h_lists h) (map (\<lambda>(nm, s). (nm, f nm s)) (d_map (h_spectra h)))"
  proof (rule sl_inv_cong)
    show "sl_inv (h_lists h) (d_map (h_spectra h))" using si by (simp add: spectra_inv_def)
    show "map_option sp_kind (smap_get (map (\<lambda>(nm, s). (nm, f nm s)) (d_map (h_spectra h))) k) =
        map_option sp_kind (smap_get (d_map (h_spectra h)) k)" for k
      by (simp add: option.map_comp comp_def f(3))
  qed
  moreover have "unique_numbers sp_number (map (\<lambda>(nm, s). (nm, f nm s)) (d_map (h_spectra h)))"
    using si f(2) by (auto simp: spectra_inv_def unique_numbers_def)
  ultimately have "spectra_inv ?h"
    using si f(1) by (auto simp: spectra_inv_def dict_ok_def Lookup_def)
  moreover have "gating_inv ?h" using gi f(4) by (auto simp: gating_inv_def Lookup_def)
  ultimately show ?thesis using ok by (simp add: hist_ok_def params_inv_def gates_inv_def)
qed

lemma ClearAllSpectra_ok: "hist_ok h \<Longrightarrow> hist_ok (ClearAllSpectra h)"
  unfolding ClearAllSpectra_def by (rule map_spectra_ok) (simp_all add: Clear_def)

lemma fold_spectrum_ok: "hist_ok h \<Longrightarrow> hist_ok (fold_spectrum nm g h)"
  unfolding fold_spectrum_def
  by (rule map_spectra_ok [where f = "\<lambda>k s. if k = nm then Fold g s else s"]) (simp_all add: Fold_def)

lemma h_ApplyGate_ok: "hist_ok h \<Longrightarrow> h_ApplyGate g sp h = Inr h' \<Longrightarrow> hist_ok h'"
proof -
  assume ok: "hist_ok h" and e: "h_ApplyGate g sp h = Inr h'"
  then obtain s c where s: "Lookup (h_spectra h) sp = Some s" "Lookup (h_gates h) g = Some c"
    and h': "h' = observeApplyGate (h_gatingObservers h) (GateNode g) sp (apply_to sp (GateNode g) s h)"
    by (auto simp: h_ApplyGate_def FindSpectrum_def FindGate_def split: option.splits)
  obtain cs where "h' = (apply_to sp (GateNode g) s h)\<lparr> h_calls := cs \<rparr>"
    using h' observeApplyGate_calls by metis
  moreover have "hist_ok (apply_to sp (GateNode g) s h)"
    unfolding apply_to_def using s by (intro change_spectrum_ok [OF ok s(1)]) (auto simp: ApplyGate_def)
  ultimately show ?thesis by simp
qed

lemma UnGate_ok: "hist_ok h \<Longrightarrow> UnGate sp h = Inr h' \<Longrightarrow> hist_ok h'"
proof -
  assume ok: "hist_ok h" and e: "UnGate sp h = Inr h'"
  then obtain s where s: "Lookup (h_spectra h) sp = Some s"
    and h': "h' = observeApplyGate (h_gatingObservers h) NoGate sp (apply_to sp NoGate s h)"
    by (auto simp: UnGate_def FindSpectrum_def split: option.splits)
  obtain cs where "h' = (apply_to sp NoGate s h)\<lparr> h_calls := cs \<rparr>"
    using h' observeApplyGate_calls by metis
  moreover have "hist_ok (apply_to sp NoGate s h)"
    unfolding apply_to_def using s by (intro change_spectrum_ok [OF ok s(1)]) (auto simp: ApplyGate_def)
  ultimately show ?thesis by simp
qed

subsection \<open>Gates\<close>

lemma clone_sel [simp]: "clone (clone g) = clone g"
  by (simp add: clone_def new_gate_def split: gate_body.splits)

lemma setGate_sel [simp]: "gc_name (setGate g c) = gc_name c" "gc_number (setGate g c) = gc_number c"
  "gc_gate (setGate g c) = clone g"
  by (simp_all add: setGate_def)

lemma new_container_sel [simp]: "gc_name (new_container nm n g) = nm" "gc_number (new_container nm n g) = n"
  "gc_gate (new_container nm n g) = clone g"
  by (simp_all add: new_container_def)

lemma fl_onAdd_list:
  assumes "FindGate nm h \<noteq> None" "dl_ok (h_gateList h)"
  obtains gl where "fl_onAdd nm c h = h\<lparr> h_gateList := gl \<rparr>" "dl_ok gl"
    "dl_items gl = dl_items (h_gateList h) @ (if caches (g_body (gc_gate c)) then [nm] else [])"
  using that [of "h_gateList h"] that [of "dl_add (Some nm) (h_gateList h)"] assms dl_add_spec [OF assms(2), of nm]
  by (cases "caches (g_body (gc_gate c))") (auto simp: fl_onAdd_def)

lemma AddGate_ok:
  assumes ok: "hist_ok h" and e: "AddGate nm n g h = Inr h'"
  shows "hist_ok h' \<and> h_spectra h' = h_spectra h \<and>
    d_map (h_gates h') = smap_put nm (new_container nm n g) (d_map (h_gates h))"
proof -
  let ?c = "setGate (clone g) (new_container nm n g)"
  let ?d = "(h_gates h)\<lparr> d_map := smap_put nm ?c (d_map (h_gates h)) \<rparr>"
  have c: "?c = new_container nm n g" by (simp add: setGate_def new_container_def)
  have once: "count_list (d_obs (h_gates h)) gateListObs = 1" using ok by (simp add: hist_ok_defs)
  obtain cs where cs: "fold tell_gate (invokeAdd (d_obs (h_gates h)) nm ?c) (h\<lparr> h_gates := ?d \<rparr>) =
      (fl_onAdd nm ?c (h\<lparr> h_gates := ?d \<rparr>))\<lparr> h_calls := cs \<rparr>"
    using tell_gate_once [OF once] by blast
  have gl: "gl_inv (h_gateList h) (d_map (h_gates h))" using ok by (simp add: hist_ok_defs)
  have "FindGateById n h = None" "FindGate nm h = None"
    using e by (simp_all add: AddGate_def split: if_splits)
  then have new: "Lookup (h_gates h) nm = None" "\<forall>k x. Lookup (h_gates h) k = Some x \<longrightarrow> gc_number x \<noteq> n"
    unfolding FindGateById_def FindGate_def using ok
    by (simp, subst (asm) FindMatch_number_None) (simp_all add: hist_ok_defs)
  obtain gl' where gl': "fl_onAdd nm ?c (h\<lparr> h_gates := ?d \<rparr>) = h\<lparr> h_gates := ?d, h_gateList := gl' \<rparr>" "dl_ok gl'"
    "dl_items gl' = dl_items (h_gateList h) @ (if caches (g_body (gc_gate ?c)) then [nm] else [])"
    using fl_onAdd_list [of nm "h\<lparr> h_gates := ?d \<rparr>" ?c] gl
    by (auto simp: gl_inv_def FindGate_def Lookup_def)
  have h': "h' = h\<lparr> h_gates := ?d, h_gateList := gl', h_calls := cs \<rparr>"
    using e cs gl'(1) by (simp add: AddGate_def Enter_def Let_def split: if_splits)
  have "gl_inv gl' (smap_put nm ?c (d_map (h_gates h)))"
    using gl gl' new(1) by (auto simp: gl_inv_def Lookup_def)
  then have "hist_ok h'"
    using ok h' new by (auto simp: hist_ok_defs dict_ok_def Lookup_def intro: unique_numbers_put)
  with h' c show ?thesis by simp
qed

lemma ReplaceGate_ok:
  assumes ok: "hist_ok h" and e: "ReplaceGate nm g h = Inr h'"
  shows "hist_ok h' \<and> (\<exists>c gl cs. Lookup (h_gates h) nm = Some c \<and>
    h' = h\<lparr> h_gates := (h_gates h)\<lparr> d_map := smap_put nm (setGate g c) (d_map (h_gates h)) \<rparr>,
            h_gateList := gl, h_calls := cs \<rparr>)"
proof -
  obtain c where c: "Lookup (h_gates h) nm = Some c"
    using e by (auto simp: ReplaceGate_def FindGate_def split: option.splits)
  let ?c = "setGate g c"
  let ?d = "(h_gates h)\<lparr> d_map := smap_put nm ?c (d_map (h_gates h)) \<rparr>"
  let ?h = "h\<lparr> h_gates := ?d \<rparr>"
  have once: "count_list (h_gateObservers h) gateListObs = 1" using ok by (simp add: hist_ok_defs)
  obtain cs where cs: "invokeGateChangedObservers (h_gateObservers h) nm ?c ?h = (fl_onChange nm ?c ?h)\<lparr> h_calls := cs \<rparr>"
    using change_once [OF once] by blast
  have gl: "gl_inv (h_gateList h) (d_map (h_gates h))" using ok by (simp add: hist_ok_defs)
  obtain g1 where g1: "fl_onRemove nm ?h = ?h\<lparr> h_gateList := g1 \<rparr>" "dl_ok g1" "distinct (dl_items g1)"
    "set (dl_items g1) = set (dl_items (h_gateList h)) - {nm}"
    using fl_onRemove_list [of ?h nm] gl by (auto simp: gl_inv_def)
  obtain gl' where gl': "fl_onAdd nm ?c (?h\<lparr> h_gateList := g1 \<rparr>) = ?h\<lparr> h_gateList := gl' \<rparr>" "dl_ok gl'"
    "dl_items gl' = dl_items g1 @ (if caches (g_body (gc_gate ?c)) then [nm] else [])"
    using fl_onAdd_list [of nm "?h\<lparr> h_gateList := g1 \<rparr>" ?c] g1(2) by (auto simp: FindGate_def Lookup_def)
  have h': "h' = h\<lparr> h_gates := ?d, h_gateList := gl', h_calls := cs \<rparr>"
    using e c cs g1(1) gl'(1) by (simp add: ReplaceGate_def FindGate_def fl_onChange_def Let_def)
  have "gl_inv gl' (smap_put nm ?c (d_map (h_gates h)))"
    using gl g1 gl' by (auto simp: gl_inv_def)
  then have "hist_ok h'"
    using ok h' c by (auto simp: hist_ok_defs dict_ok_def Lookup_def intro: unique_numbers_change)
  with h' c show ?thesis by blast
qed

end
