(* ===== verification/Histogramming.thy ===== *)
theory Histogramming
  imports HistogrammerProps
begin

text \<open>
  Histogramming events: the invariant survives it for any event, the set of reachable
  histogrammers, and the effect of one event on every spectrum.
\<close>

subsection \<open>What processing an event leaves alone\<close>

definition shape :: "(string \<times> spectrum) list \<Rightarrow> (string \<times> spectrum) list" where
  "shape sp = map (\<lambda>(n, s). (n, Clear s)) sp"

definition same_shape :: "hstate \<Rightarrow> hstate \<Rightarrow> bool" where
  "same_shape a b \<longleftrightarrow> shape (fst b) = shape (fst a) \<and> skeleton (fst (snd b)) = skeleton (fst (snd a))"

lemma same_shape_refl [simp]: "same_shape a a"
  by (simp add: same_shape_def)

lemma same_shape_trans: "same_shape a b \<Longrightarrow> same_shape b c \<Longrightarrow> same_shape a c"
  by (simp add: same_shape_def)

definition keeps :: "(string \<Rightarrow> eval_state \<Rightarrow> (bool \<times> eval_state) option) \<Rightarrow> bool" where
  "keeps op \<longleftrightarrow> (\<forall>n s v s'. op n s = Some (v, s') \<longrightarrow> skeleton (fst s') = skeleton (fst s))"

lemma keepsD: "keeps op \<Longrightarrow> op n s = Some (v, s') \<Longrightarrow> skeleton (fst s') = skeleton (fst s)"
  unfolding keeps_def by blast

lemma and_loop_skeleton:
  assumes k: "keeps op"
  shows "and_loop op ns s = Some (v, s') \<Longrightarrow> skeleton (fst s') = skeleton (fst s)"
proof (induction ns arbitrary: s)
  case (Cons n ns)
  then obtain b t where bt: "op n s = Some (b, t)" by (auto split: option.splits)
  then show ?case using Cons keepsD [OF k bt] by (cases b) auto
qed simp

lemma or_loop_skeleton:
  assumes k: "keeps op"
  shows "or_loop op ns s = Some (v, s') \<Longrightarrow> skeleton (fst s') = skeleton (fst s)"
proof (induction ns arbitrary: s)
  case (Cons n ns)
  then obtain b t where bt: "op n s = Some (b, t)" by (auto split: option.splits)
  then show ?case using Cons keepsD [OF k bt] by (cases b) auto
qed simp

lemma not_skeleton:
  "keeps op \<Longrightarrow> not_inGate op n s = Some (v, s') \<Longrightarrow> skeleton (fst s') = skeleton (fst s)"
  using keepsD [of op n s "\<not> v" s'] by (cases "op n s") (auto simp: not_inGate_def)

lemma inGate_skeleton:
  "keeps op \<Longrightarrow> inGate op b s = Some (v, s') \<Longrightarrow> skeleton (fst s') = skeleton (fst s)"
  by (cases b) (auto simp: inGate_def and_loop_skeleton or_loop_skeleton not_skeleton)

lemma keeps_gate_op: "keeps (gate_op k)"
proof (induction k)
  case 0
  then show ?case by (simp add: keeps_def)
next
  case (Suc k)
  show ?case
    unfolding keeps_def
  proof (intro allI impI)
    fix nm s v s' assume e: "gate_op (Suc k) nm s = Some (v, s')"
    then obtain c where c: "smap_get (fst s) nm = Some c" by (auto split: option.splits)
    have step: "skeleton st = skeleton (fst s)" if "inGate (gate_op k) b s = Some (w, (st, f))" for b w st f
      using inGate_skeleton [OF Suc that] by simp
    show "skeleton (fst s') = skeleton (fst s)"
      using e c by (auto split: gate_body.splits if_splits option.splits dest!: step)
  qed
qed

lemma gate_op_skeleton: "gate_op k nm s = Some (v, (st, f)) \<Longrightarrow> skeleton st = skeleton (fst s)"
  using keepsD [OF keeps_gate_op] by fastforce

lemma CheckGate_skeleton: "CheckGate k g s = Some (v, (st, f)) \<Longrightarrow> skeleton st = skeleton (fst s)"
  by (cases g) (auto simp: CheckGate_def dest: gate_op_skeleton)

lemma shape_add_fills [simp]: "shape (add_fills nm fs sp) = shape sp"
  by (auto simp: shape_def add_fills_def Clear_def)

lemma spectrum_op_shape: "spectrum_op k nm hs = Some hs' \<Longrightarrow> same_shape hs hs'"
  by (auto simp: spectrum_op_def same_shape_def split: option.splits if_splits dest!: CheckGate_skeleton)

lemma incrementList_shape: "incrementList (spectrum_op k) a hs = Some hs' \<Longrightarrow> same_shape hs hs'"
proof -
  have "increment_array (spectrum_op k) ps hs = Some hs' \<Longrightarrow> same_shape hs hs'" for ps
  proof (induction ps arbitrary: hs rule: scan.induct)
    case (3 p ps)
    then show ?case
      by (auto split: option.splits dest: spectrum_op_shape intro: same_shape_trans)
  qed auto
  then show "incrementList (spectrum_op k) a hs = Some hs' \<Longrightarrow> same_shape hs hs'"
    by (auto simp: incrementList_def split: option.splits)
qed

lemma dope_loop_shape: "dope_loop k l i n hs = Some hs' \<Longrightarrow> same_shape hs hs'"
proof (induction n arbitrary: i hs)
  case (Suc n)
  then show ?case
    by (auto split: sum.splits option.splits dest!: incrementList_shape intro: same_shape_trans)
qed simp

lemma lists_op_shape: "lists_op k l hs = Some hs' \<Longrightarrow> same_shape hs hs'"
  by (auto simp: lists_op_def split: option.splits dest!: incrementList_shape dope_loop_shape
      intro: same_shape_trans)

lemma reset_gates_scan: "scan ps = Some ns \<Longrightarrow> reset_gates ps st = Some (fold reset_one ns st)"
  by (induction ps arbitrary: ns st rule: scan.induct) auto

lemma skeleton_reset_gates: "skeleton (fold reset_one ns st) = skeleton st"
  by (induction ns arbitrary: st) auto

definition reset_list :: "histogrammer \<Rightarrow> gate_store" where
  "reset_list h = fold reset_one (dl_items (h_gateList h)) (d_map (h_gates h))"

text \<open>On a list in order the reset loop reaches every gate of it and stops.\<close>

lemma hist_event_list:
  assumes "gates_inv h"
  shows "hist_event k h e = map_option (\<lambda>(sp, (st', e')).
     (h\<lparr> h_spectra := (h_spectra h)\<lparr> d_map := sp \<rparr>, h_gates := (h_gates h)\<lparr> d_map := st' \<rparr> \<rparr>, e'))
       (lists_op k (h_lists h) (d_map (h_spectra h), (reset_list h, e)))"
proof (cases "dl_getList (h_gateList h)")
  case None
  then have "dl_items (h_gateList h) = []" by (simp add: dl_items_def dl_getList_def)
  then show ?thesis using None by (simp add: hist_event_def reset_list_def)
next
  case (Some ps)
  have "dl_ok (h_gateList h)" using assms by (simp add: gates_inv_def gl_inv_def)
  then have "scan ps = Some (dl_items (h_gateList h))"
    using dl_visited_items [of "h_gateList h"] Some by (simp add: dl_visited_def)
  then show ?thesis using Some by (simp add: hist_event_def reset_list_def reset_gates_scan)
qed

lemma shape_get: "shape sp' = shape sp \<Longrightarrow> map_option Clear (smap_get sp' nm) = map_option Clear (smap_get sp nm)"
  using smap_get_map_val [of "\<lambda>_. Clear"] unfolding shape_def by metis

lemma shape_keys: "shape sp' = shape sp \<Longrightarrow> map fst sp' = map fst sp"
  by (drule arg_cong [of _ _ "map fst"]) (simp add: shape_def comp_def case_prod_unfold)

lemma skeleton_get: "skeleton st' = skeleton st \<Longrightarrow> map_option unflagged (smap_get st' nm) = map_option unflagged (smap_get st nm)"
  using smap_get_map_val [of "\<lambda>_. unflagged"] unfolding skeleton_def by metis

lemma shape_getD:
  assumes "shape sp' = shape sp" "smap_get sp' nm = Some s'"
  obtains s where "smap_get sp nm = Some s" "sp_name s' = sp_name s" "sp_number s' = sp_number s"
    "sp_kind s' = sp_kind s" "sp_gate s' = sp_gate s" "sp_fold s' = sp_fold s"
proof -
  obtain s where "smap_get sp nm = Some s" "Clear s = Clear s'"
    using shape_get [OF assms(1), of nm] assms(2) by (cases "smap_get sp nm") auto
  then show ?thesis using that [of s] by (metis Clear_def spectrum.select_convs(1-5) spectrum.surjective spectrum.update_convs(6))
qed

lemma skeleton_getD:
  assumes "skeleton st' = skeleton st" "smap_get st' nm = Some c'"
  obtains c where "smap_get st nm = Some c" "gc_name c' = gc_name c" "gc_number c' = gc_number c"
    "g_body (gc_gate c') = g_body (gc_gate c)"
proof -
  obtain c where c: "smap_get st nm = Some c" "unflagged c = unflagged c'"
    using skeleton_get [OF assms(1), of nm] assms(2) by (cases "smap_get st nm") auto
  have "gc_name (unflagged x) = gc_name x" "gc_number (unflagged x) = gc_number x"
    "g_body (gc_gate (unflagged x)) = g_body (gc_gate x)" for x
    by (simp_all add: unflagged_def new_gate_def)
  then show ?thesis using that c by metis
qed


lemma unique_numbers_get:
  assumes "unique_numbers num m" "\<And>nm x'. smap_get m' nm = Some x' \<Longrightarrow> \<exists>x. smap_get m nm = Some x \<and> num x' = num x"
  shows "unique_numbers num m'"
  using assms unfolding unique_numbers_def by metis

lemma process_ok:
  assumes ok: "hist_ok h" and sh: "shape sp = shape (d_map (h_spectra h))"
    and sk: "skeleton st = skeleton (d_map (h_gates h))"
  shows "hist_ok (h\<lparr> h_spectra := (h_spectra h)\<lparr> d_map := sp \<rparr>, h_gates := (h_gates h)\<lparr> d_map := st \<rparr> \<rparr>)"
    (is "hist_ok ?h")
proof -
  have si: "spectra_inv h" and gi: "gates_inv h" and ai: "gating_inv h" using ok by (simp_all add: hist_ok_def)
  have keys: "map fst sp = map fst (d_map (h_spectra h))" "map fst st = map fst (d_map (h_gates h))"
    using shape_keys [OF sh] skeleton_keys [OF sk] by auto
  have oks: "smap_ok sp" "smap_ok st"
    using si gi keys by (auto simp: spectra_inv_def gates_inv_def dict_ok_def smap_ok_def)
  have "sl_inv (h_lists h) sp"
  proof (rule sl_inv_cong)
    show "sl_inv (h_lists h) (d_map (h_spectra h))" using si by (simp add: spectra_inv_def)
    show "map_option sp_kind (smap_get sp nm) = map_option sp_kind (smap_get (d_map (h_spectra h)) nm)" for nm
      using arg_cong [OF shape_get [OF sh, of nm], of "map_option sp_kind"]
      by (simp add: option.map_comp comp_def Clear_def)
  qed
  moreover have "unique_numbers sp_number sp"
  proof (rule unique_numbers_get)
    show "unique_numbers sp_number (d_map (h_spectra h))" using si by (simp add: spectra_inv_def)
    show "\<exists>x. smap_get (d_map (h_spectra h)) nm = Some x \<and> sp_number x' = sp_number x"
      if "smap_get sp nm = Some x'" for nm x'
      using shape_getD [OF sh that] by metis
  qed
  moreover have "sp_name s = nm" if "smap_get sp nm = Some s" for nm s
    using shape_getD [OF sh that] si by (metis Lookup_def spectra_inv_def)
  ultimately have "spectra_inv ?h" using si oks by (simp add: spectra_inv_def dict_ok_def Lookup_def)
  moreover have "gl_inv (h_gateList h) st"
  proof -
    have "(\<exists>c. smap_get st nm = Some c \<and> caches (g_body (gc_gate c))) \<longleftrightarrow>
        (\<exists>c. smap_get (d_map (h_gates h)) nm = Some c \<and> caches (g_body (gc_gate c)))" for nm
    proof -
      have "(\<exists>c. smap_get s nm = Some c \<and> caches (g_body (gc_gate c))) \<longleftrightarrow> (\<exists>b. bodies s nm = Some b \<and> caches b)"
        for s by (auto simp: bodies_def)
      then show ?thesis using skeleton_bodies [OF sk] by simp
    qed
    then show ?thesis using gi by (simp add: gates_inv_def gl_inv_def)
  qed
  moreover have "unique_numbers gc_number st"
  proof (rule unique_numbers_get)
    show "unique_numbers gc_number (d_map (h_gates h))" using gi by (simp add: gates_inv_def)
    show "\<exists>x. smap_get (d_map (h_gates h)) nm = Some x \<and> gc_number x' = gc_number x"
      if "smap_get st nm = Some x'" for nm x'
      using skeleton_getD [OF sk that] by metis
  qed
  moreover have "gc_name c = nm" if "smap_get st nm = Some c" for nm c
    using skeleton_getD [OF sk that] gi by (metis Lookup_def gates_inv_def)
  ultimately have "gates_inv ?h" using gi oks by (simp add: gates_inv_def dict_ok_def Lookup_def)
  moreover have "smap_get st g \<noteq> None" if "smap_get sp nm = Some s" "sp_gate s = GateNode g" for nm s g
  proof -
    have "smap_get (d_map (h_gates h)) g \<noteq> None"
      using shape_getD [OF sh that(1)] that(2) ai by (metis Lookup_def gating_inv_def)
    then show ?thesis using keys(2) unfolding smap_get_None_iff by (metis set_map)
  qed
  then have "gating_inv ?h" by (simp add: gating_inv_def Lookup_def)
  ultimately show ?thesis using \<open>spectra_inv ?h\<close> ok by (simp add: hist_ok_def params_inv_def)
qed

lemma hist_event_ok:
  assumes ok: "hist_ok h" and e: "hist_event k h e = Some (h', e')"
  shows "hist_ok h'"
proof -
  have "gates_inv h" using ok by (simp add: hist_ok_def)
  with e obtain sp st where l: "lists_op k (h_lists h) (d_map (h_spectra h), (reset_list h, e)) = Some (sp, (st, e'))"
    and h': "h' = h\<lparr> h_spectra := (h_spectra h)\<lparr> d_map := sp \<rparr>, h_gates := (h_gates h)\<lparr> d_map := st \<rparr> \<rparr>"
    by (auto simp: hist_event_list)
  have "shape sp = shape (d_map (h_spectra h))" "skeleton st = skeleton (d_map (h_gates h))"
    using lists_op_shape [OF l] skeleton_reset_gates by (auto simp: same_shape_def reset_list_def)
  then show ?thesis unfolding h' by (rule process_ok [OF ok])
qed

lemma hist_events_ok: "hist_ok h \<Longrightarrow> hist_events k h es = Some (h', es') \<Longrightarrow> hist_ok h'"
  by (induction k h es arbitrary: es' rule: hist_events.induct)
     (auto split: option.splits dest: hist_event_ok)

subsection \<open>Reachable histogrammers\<close>

text \<open>
  Every sequence of public operations, failing ones having no effect.  External observers
  are any but the two internal ones; new spectra are not gated.
\<close>

inductive hist_reach :: "histogrammer \<Rightarrow> bool" where
  start: "hist_reach new_histogrammer"
| add_parameter: "hist_reach h \<Longrightarrow> AddParameter nm n units h = Inr h' \<Longrightarrow> hist_reach h'"
| add_scaled: "hist_reach h \<Longrightarrow> AddParameter_scaled nm n sc h = Inr h' \<Longrightarrow> hist_reach h'"
| add_mapped: "hist_reach h \<Longrightarrow> AddParameter_mapped nm n sc lo hi u h = Inr h' \<Longrightarrow> hist_reach h'"
| remove_parameter: "hist_reach h \<Longrightarrow> hist_reach (fst (RemoveParameter nm h))"
| add_spectrum: "hist_reach h \<Longrightarrow> sp_gate s = DefaultGate \<Longrightarrow> AddSpectrum s h = Inr h' \<Longrightarrow> hist_reach h'"
| remove_spectrum: "hist_reach h \<Longrightarrow> hist_reach (fst (RemoveSpectrum nm h))"
| clear_spectrum: "hist_reach h \<Longrightarrow> ClearSpectrum nm h = Inr h' \<Longrightarrow> hist_reach h'"
| fold: "hist_reach h \<Longrightarrow> hist_reach (fold_spectrum nm g h)"
| clear_all: "hist_reach h \<Longrightarrow> hist_reach (ClearAllSpectra h)"
| add_gate: "hist_reach h \<Longrightarrow> AddGate nm n g h = Inr h' \<Longrightarrow> hist_reach h'"
| replace_gate: "hist_reach h \<Longrightarrow> ReplaceGate nm g h = Inr h' \<Longrightarrow> hist_reach h'"
| delete_gate: "hist_reach h \<Longrightarrow> DeleteGate nm h = Inr h' \<Longrightarrow> hist_reach h'"
| apply_gate: "hist_reach h \<Longrightarrow> h_ApplyGate g sp h = Inr h' \<Longrightarrow> hist_reach h'"
| ungate: "hist_reach h \<Longrightarrow> UnGate sp h = Inr h' \<Longrightarrow> hist_reach h'"
| gate_observer: "hist_reach h \<Longrightarrow> ob \<noteq> gateListObs \<Longrightarrow> hist_reach (addGateObserver ob h)"
| no_gate_observer: "hist_reach h \<Longrightarrow> ob \<noteq> gateListObs \<Longrightarrow> removeGateObserver ob h = Some h' \<Longrightarrow> hist_reach h'"
| gating_observer: "hist_reach h \<Longrightarrow> hist_reach (addGatingObserver ob h)"
| no_gating_observer: "hist_reach h \<Longrightarrow> removeGatingObserver ob h = Some h' \<Longrightarrow> hist_reach h'"
| spectrum_observer: "hist_reach h \<Longrightarrow> ob \<noteq> listsObs \<Longrightarrow> hist_reach (addSpectrumDictionaryObserver ob h)"
| no_spectrum_observer: "hist_reach h \<Longrightarrow> ob \<noteq> listsObs \<Longrightarrow> hist_reach (removeSpectrumDictionaryObserver ob h)"
| parameter_observer: "hist_reach h \<Longrightarrow> hist_reach (addParameterObserver ob h)"
| no_parameter_observer: "hist_reach h \<Longrightarrow> hist_reach (removeParameterObserver ob h)"
| event: "hist_reach h \<Longrightarrow> hist_event k h e = Some (h', e') \<Longrightarrow> hist_reach h'"
| events: "hist_reach h \<Longrightarrow> hist_events k h es = Some (h', es') \<Longrightarrow> hist_reach h'"

lemma count_list_erase_first: "x \<noteq> y \<Longrightarrow> count_list (erase_first x xs) y = count_list xs y"
  by (induction xs) auto

lemma observers_ok:
  "hist_ok h \<Longrightarrow> ob \<noteq> gateListObs \<Longrightarrow> hist_ok (addGateObserver ob h)"
  "hist_ok h \<Longrightarrow> hist_ok (addGatingObserver ob h)"
  "hist_ok h \<Longrightarrow> removeGatingObserver ob h = Some h' \<Longrightarrow> hist_ok h'"
  "hist_ok h \<Longrightarrow> ob \<noteq> listsObs \<Longrightarrow> hist_ok (addSpectrumDictionaryObserver ob h)"
  "hist_ok h \<Longrightarrow> ob \<noteq> listsObs \<Longrightarrow> hist_ok (removeSpectrumDictionaryObserver ob h)"
  "hist_ok h \<Longrightarrow> hist_ok (addParameterObserver ob h)"
  "hist_ok h \<Longrightarrow> hist_ok (removeParameterObserver ob h)"
  "hist_ok h \<Longrightarrow> ob \<noteq> gateListObs \<Longrightarrow> removeGateObserver ob h = Some h' \<Longrightarrow> hist_ok h'"
  by (auto simp: hist_ok_defs addGateObserver_def addGatingObserver_def removeGatingObserver_def
      addSpectrumDictionaryObserver_def removeSpectrumDictionaryObserver_def addParameterObserver_def
      removeParameterObserver_def removeGateObserver_def addObserver_def removeObserver_def
      Lookup_def dict_ok_def count_list_append count_list_erase_first split: if_splits)

lemma AddParameter_oks:
  "hist_ok h \<Longrightarrow> AddParameter nm n units h = Inr h' \<Longrightarrow> hist_ok h'"
  "hist_ok h \<Longrightarrow> AddParameter_scaled nm n sc h = Inr h' \<Longrightarrow> hist_ok h'"
  "hist_ok h \<Longrightarrow> AddParameter_mapped nm n sc lo hi u h = Inr h' \<Longrightarrow> hist_ok h'"
  unfolding AddParameter_def AddParameter_scaled_def AddParameter_mapped_def
  by (erule enter_parameter_ok [rotated 2]; simp)+

lemma AddSpectrum_ungated_ok: "hist_ok h \<Longrightarrow> sp_gate s = DefaultGate \<Longrightarrow> AddSpectrum s h = Inr h' \<Longrightarrow> hist_ok h'"
  using AddSpectrum_ok [of h s h'] by auto

lemma gate_ops_ok:
  "hist_ok h \<Longrightarrow> AddGate nm n g h = Inr h' \<Longrightarrow> hist_ok h'"
  "hist_ok h \<Longrightarrow> ReplaceGate nm g h = Inr h' \<Longrightarrow> hist_ok h'"
  "hist_ok h \<Longrightarrow> DeleteGate nm h = Inr h' \<Longrightarrow> hist_ok h'"
  using AddGate_ok ReplaceGate_ok unfolding DeleteGate_def by blast+

lemmas hist_op_oks = new_histogrammer_ok AddParameter_oks AddSpectrum_ungated_ok gate_ops_ok
  RemoveParameter_ok RemoveSpectrum_ok ClearSpectrum_ok ClearAllSpectra_ok fold_spectrum_ok h_ApplyGate_ok UnGate_ok
  observers_ok hist_event_ok hist_events_ok

text \<open>
  C3. The histogrammer's invariant holds in every reachable state: parameter, spectrum and
  gate names and numbers are unique, each entry carries the name it is filed under, the
  flattened list holds exactly the gates that cache, every spectrum is on exactly the list
  its parameters put it on, and every gate applied to a spectrum exists.
\<close>

theorem hist_reach_ok: "hist_reach h \<Longrightarrow> hist_ok h"
  by (induction rule: hist_reach.induct) (rule hist_op_oks; assumption)+

theorem hist_reach_ok_witness:
  "\<exists>h. AddGate ''t'' 0 (new_gate CTrueGate) new_histogrammer = Inr h \<and> hist_ok (ClearAllSpectra h)"
proof -
  obtain h where h: "AddGate ''t'' 0 (new_gate CTrueGate) new_histogrammer = Inr h"
    by (simp add: AddGate_def FindGate_def FindGateById_def Lookup_def FindMatch_def Let_def case_prod_unfold
        new_histogrammer_def createListObservers_def addSpectrumDictionaryObserver_def addGateObserver_def
        addObserver_def empty_dictionary_def)
  have "hist_reach (ClearAllSpectra h)"
    by (rule hist_reach.clear_all, rule hist_reach.add_gate [OF hist_reach.start h])
  from hist_reach_ok [OF this] h show ?thesis by blast
qed


subsection \<open>One event\<close>

lemma smap_get_reset_list:
  "smap_get (fold reset_one ns st) nm = map_option (\<lambda>c. if nm \<in> set ns
     then c\<lparr> gc_gate := (gc_gate c)\<lparr> g_fChecked := False \<rparr> \<rparr> else c) (smap_get st nm)"
proof (induction ns arbitrary: st)
  case (Cons n ns)
  then show ?case by (cases "smap_get st nm") auto
qed (simp add: option.map_ident)

text \<open>After the reset loop no gate that caches has a cached value.\<close>

lemma reset_list_consistent: "gates_inv h \<Longrightarrow> consistent (reset_list h) ev"
proof -
  assume gi: "gates_inv h"
  have "\<not> (g_fChecked (gc_gate c) \<and> caches (g_body (gc_gate c)))" if g: "smap_get (reset_list h) nm = Some c" for nm c
  proof -
    obtain d where d: "smap_get (d_map (h_gates h)) nm = Some d"
      and c: "c = (if nm \<in> set (dl_items (h_gateList h))
                 then d\<lparr> gc_gate := (gc_gate d)\<lparr> g_fChecked := False \<rparr> \<rparr> else d)"
      using g by (cases "smap_get (d_map (h_gates h)) nm") (auto simp: reset_list_def smap_get_reset_list)
    show ?thesis
    proof (cases "nm \<in> set (dl_items (h_gateList h))")
      case False
      then have "\<not> caches (g_body (gc_gate d))" using gi d by (simp add: gates_inv_def gl_inv_def)
      then show ?thesis using c False by simp
    qed (simp add: c)
  qed
  then show ?thesis by (auto simp: consistent_def)
qed

lemma hist_event_spec:
  assumes ok: "hist_ok h" and rank: "rank_ok r (d_map (h_gates h))" "bodies_ok (d_map (h_gates h))"
    and fuel: "\<And>g. FindGate g h \<noteq> None \<Longrightarrow> r g < k" and e: "ev_ok e"
    and kinds: "\<And>nm s. FindSpectrum nm h = Some s \<Longrightarrow> kind_ok (sp_kind s) \<and>
      inc_safe (fold_body (bodies (d_map (h_gates h))) (sp_fold s)) (sp_kind s) e"
  shows "\<exists>sp st e'. hist_event k h e =
      Some (h\<lparr> h_spectra := (h_spectra h)\<lparr> d_map := sp \<rparr>, h_gates := (h_gates h)\<lparr> d_map := st \<rparr> \<rparr>, e') \<and>
    sp = bump_those k (d_map (h_gates h), e) UNIV (d_map (h_spectra h)) \<and>
    skeleton st = skeleton (d_map (h_gates h)) \<and>
    ev_ok e' \<and> ev_abs e' = ev_abs e \<and> ev_order e' = ev_order e"
proof -
  have gi: "gates_inv h" and si: "spectra_inv h" and ai: "gating_inv h" using ok by (simp_all add: hist_ok_def)
  let ?hs = "(d_map (h_spectra h), (reset_list h, e))"
  have sk: "skeleton (reset_list h) = skeleton (d_map (h_gates h))"
    by (simp add: reset_list_def skeleton_reset_gates)
  have b: "bodies (reset_list h) = bodies (d_map (h_gates h))" using skeleton_bodies [OF sk] .
  have ev: "eval_ok (reset_list h, e)"
    using rank(2) e reset_list_consistent [OF gi] bodies_ok_skeleton sk unfolding eval_ok_def fst_conv snd_conv
    by metis
  have gv: "gate_value k (reset_list h) (ev_abs e) (sp_gate s) \<noteq> None" if "FindSpectrum nm h = Some s" for nm s
  proof (cases "sp_gate s")
    case (GateNode g)
    then have g: "FindGate g h \<noteq> None"
      using that ai by (auto simp: gating_inv_def FindSpectrum_def FindGate_def)
    then have "bodies (d_map (h_gates h)) g \<noteq> None" by (simp add: bodies_def FindGate_def Lookup_def)
    then show ?thesis using gate_den_defined [OF rank(1) _ fuel [OF g]] GateNode b by (simp add: gate_value_def)
  qed (simp_all add: gate_value_def)
  have "spectra_ok k ?hs"
    using ev kinds gv b by (auto simp: spectra_ok_def FindSpectrum_def Lookup_def)
  moreover have "sl_inv (h_lists h) (d_map (h_spectra h))" using si by (simp add: spectra_inv_def)
  moreover have "distinct (map fst (d_map (h_spectra h)))"
    using si by (simp add: spectra_inv_def dict_ok_def smap_ok_def strict_sorted_iff)
  ultimately obtain es where es: "lists_op k (h_lists h) ?hs =
      Some (bump_those k (reset_list h, e) UNIV (d_map (h_spectra h)), es)" "eval_ok es" "same_eval (reset_list h, e) es"
    using lists_op_spec [of "h_lists h" ?hs k] by auto
  have "same_eval (d_map (h_gates h), e) (reset_list h, e)" using sk by (simp add: same_eval_def)
  then have "bump_those k (reset_list h, e) UNIV sp = bump_those k (d_map (h_gates h), e) UNIV sp" for sp
    using same_eval_bump by (simp add: bump_those_def)
  then show ?thesis
    using es sk by (cases es) (auto simp: hist_event_list [OF gi] same_eval_def eval_ok_def)
qed

text \<open>
  C1. Histogramming an event: in a consistent histogrammer whose gates are acyclic, the
  call returns, and every spectrum of the dictionary has received exactly the Fill calls its
  definition gives for the event's valid parameters when its gate is true on the event, and
  none when it is false.  Neither the dispatch by the first parameter, nor cached gate
  values, nor the order of the lists shows in the result.
\<close>

theorem histogram_event:
  assumes "hist_ok h" "rank_ok r (d_map (h_gates h))" "bodies_ok (d_map (h_gates h))"
    "\<And>g. FindGate g h \<noteq> None \<Longrightarrow> r g < k" "ev_ok e"
    "\<And>nm s. FindSpectrum nm h = Some s \<Longrightarrow> kind_ok (sp_kind s) \<and>
      inc_safe (fold_body (bodies (d_map (h_gates h))) (sp_fold s)) (sp_kind s) e"
  shows "\<exists>h' e'. hist_event k h e = Some (h', e') \<and> hist_ok h' \<and> ev_abs e' = ev_abs e \<and>
    (\<forall>nm. FindSpectrum nm h' = map_option (\<lambda>s. s\<lparr> sp_fills := sp_fills s @
       (if gate_value k (d_map (h_gates h)) (ev_abs e) (sp_gate s) = Some True
        then increments (fold_body (bodies (d_map (h_gates h))) (sp_fold s)) (sp_kind s) (ev_abs e) else []) \<rparr>) (FindSpectrum nm h))"
proof -
  obtain sp st e' where s: "hist_event k h e =
      Some (h\<lparr> h_spectra := (h_spectra h)\<lparr> d_map := sp \<rparr>, h_gates := (h_gates h)\<lparr> d_map := st \<rparr> \<rparr>, e')"
    "sp = bump_those k (d_map (h_gates h), e) UNIV (d_map (h_spectra h))" "ev_abs e' = ev_abs e"
    using hist_event_spec [OF assms(1-3), of k e] assms(4-6) by metis
  moreover from s(1) have "hist_ok (h\<lparr> h_spectra := (h_spectra h)\<lparr> d_map := sp \<rparr>,
      h_gates := (h_gates h)\<lparr> d_map := st \<rparr> \<rparr>)"
    by (rule hist_event_ok [OF assms(1)])
  moreover have "bump k (d_map (h_gates h), e) = (\<lambda>s. s\<lparr> sp_fills := sp_fills s @
       (if gate_value k (d_map (h_gates h)) (ev_abs e) (sp_gate s) = Some True
        then increments (fold_body (bodies (d_map (h_gates h))) (sp_fold s)) (sp_kind s) (ev_abs e) else []) \<rparr>)"
    by (simp add: bump_def fun_eq_iff)
  ultimately show ?thesis by (simp add: FindSpectrum_def Lookup_def)
qed

text \<open>A histogrammer with one cut and one spectrum gated on it.\<close>

definition demo_spectrum :: spectrum where
  "demo_spectrum = \<lparr> sp_name = ''s'', sp_number = 0, sp_kind = CSpectrum1D 0, sp_gate = GateNode ''c'',
     sp_fold = DefaultGate, sp_fills = [] \<rparr>"

lemma demo_histogrammer:
  obtains h where "hist_ok h" "d_map (h_gates h) = [(''c'', new_container ''c'' 0 (new_gate (CCut 1 10 0)))]"
    "d_map (h_spectra h) = [(''s'', demo_spectrum)]"
proof -
  have n: "d_map (h_gates new_histogrammer) = []" "d_map (h_spectra new_histogrammer) = []"
    by (simp_all add: new_histogrammer_def createListObservers_def addSpectrumDictionaryObserver_def
        addGateObserver_def addObserver_def empty_dictionary_def)
  obtain h1 where h1: "AddGate ''c'' 0 (new_gate (CCut 1 10 0)) new_histogrammer = Inr h1"
    by (simp add: AddGate_def FindGate_def FindGateById_def Lookup_def FindMatch_def n Let_def case_prod_unfold)
  have g: "hist_ok h1" "h_spectra h1 = h_spectra new_histogrammer"
    "d_map (h_gates h1) = [(''c'', new_container ''c'' 0 (new_gate (CCut 1 10 0)))]"
    using AddGate_ok [OF new_histogrammer_ok h1] n by auto
  obtain h2 where h2: "AddSpectrum demo_spectrum h1 = Inr h2"
    by (simp add: AddSpectrum_def FindSpectrum_def FindSpectrumById_def Lookup_def FindMatch_def n g Let_def case_prod_unfold)
  have ex: "\<And>g. sp_gate demo_spectrum = GateNode g \<Longrightarrow> FindGate g h1 \<noteq> None"
    by (simp add: demo_spectrum_def FindGate_def Lookup_def g)
  show thesis
    using that [of h2] AddSpectrum_ok [OF g(1) h2 ex] g n by (auto simp: Enter_def demo_spectrum_def)
qed

theorem histogram_event_witness:
  "\<exists>h e h' e' s. ev_abs e 0 = Some 5 \<and> hist_event 1 h e = Some (h', e') \<and>
     FindSpectrum ''s'' h' = Some s \<and> sp_fills s = [[5]]"
proof -
  obtain h where h: "hist_ok h" "d_map (h_gates h) = [(''c'', new_container ''c'' 0 (new_gate (CCut 1 10 0)))]"
    "d_map (h_spectra h) = [(''s'', demo_spectrum)]"
    by (rule demo_histogrammer)
  obtain e where e: "ev_ok e" "ev_abs e = (ev_abs new_event)(0 \<mapsto> 5)"
    using ev_set_spec [OF ev_ok_new, of 0 5] by (auto simp: max_params_def)
  have f5: "f32 5 = 5" using f32_of_int [of 5] by simp
  have "\<exists>h' e'. hist_event 1 h e = Some (h', e') \<and> hist_ok h' \<and> ev_abs e' = ev_abs e \<and>
    (\<forall>nm. FindSpectrum nm h' = map_option (\<lambda>s. s\<lparr> sp_fills := sp_fills s @
       (if gate_value 1 (d_map (h_gates h)) (ev_abs e) (sp_gate s) = Some True
        then increments (fold_body (bodies (d_map (h_gates h))) (sp_fold s)) (sp_kind s) (ev_abs e) else []) \<rparr>) (FindSpectrum nm h))"
  proof (rule histogram_event [where r = "\<lambda>_. 0", OF h(1) _ _ _ e(1)])
    show "rank_ok (\<lambda>_. 0) (d_map (h_gates h))" "bodies_ok (d_map (h_gates h))"
      by (simp_all add: h(2) rank_ok_def bodies_ok_def demo_store_simps getDependentGates_def body_ok_def)
    show "kind_ok (sp_kind s) \<and>
      inc_safe (fold_body (bodies (d_map (h_gates h))) (sp_fold s)) (sp_kind s) e" if "FindSpectrum nm h = Some s" for nm s
      using that by (auto simp: FindSpectrum_def Lookup_def h(3) demo_spectrum_def kind_ok_def inc_safe_def
          GetParameterIds_def max_params_def split: if_splits)
  qed simp
  then obtain h' e' where r: "hist_event 1 h e = Some (h', e')"
    "FindSpectrum ''s'' h' = map_option (\<lambda>s. s\<lparr> sp_fills := sp_fills s @
       (if gate_value 1 (d_map (h_gates h)) (ev_abs e) (sp_gate s) = Some True
        then increments (fold_body (bodies (d_map (h_gates h))) (sp_fold s)) (sp_kind s) (ev_abs e) else []) \<rparr>) (FindSpectrum ''s'' h)"
    by blast
  have "gate_value 1 (d_map (h_gates h)) (ev_abs e) (GateNode ''c'') = Some True"
    using f5 by (simp add: gate_value_def h(2) e(2) bodies_def demo_store_simps leaf_den_def cut_den_def cut_inGate_x_def)
  then have "\<exists>s. FindSpectrum ''s'' h' = Some s \<and> sp_fills s = [[5]]"
    using r(2) e(2) by (simp add: FindSpectrum_def Lookup_def h(3) demo_spectrum_def increments_def)
  then show ?thesis using r(1) e(2) by force
qed

end
