(* ===== verification/Registry.thy ===== *)
theory Registry
  imports Histogramming
begin

text \<open>
  The contract the parameter, spectrum and gate dictionaries share towards their clients:
  names and numbers are given out once.  The locale states it as laws on lookup and add and
  proves what a client relies on; it is interpreted on the histogrammer's three Add
  operations.  The theory also holds the properties of deleted gates and of observer removal.
\<close>

locale registry =
  fixes get :: "'s \<Rightarrow> string \<Rightarrow> 'a option"
    and num :: "'a \<Rightarrow> u32"
    and add :: "string \<Rightarrow> 'a \<Rightarrow> 's \<Rightarrow> 'e + 's"
    and valid :: "string \<Rightarrow> 'a \<Rightarrow> bool"
    and ok :: "'s \<Rightarrow> bool"
  assumes dup_name: "ok s \<Longrightarrow> valid nm x \<Longrightarrow> get s nm \<noteq> None \<Longrightarrow> \<exists>e. add nm x s = Inl e"
    and dup_num: "ok s \<Longrightarrow> valid nm x \<Longrightarrow> get s k = Some y \<Longrightarrow> num y = num x \<Longrightarrow> \<exists>e. add nm x s = Inl e"
    and fresh: "ok s \<Longrightarrow> valid nm x \<Longrightarrow> get s nm = None \<Longrightarrow> (\<forall>k y. get s k = Some y \<longrightarrow> num y \<noteq> num x) \<Longrightarrow>
      \<exists>s'. add nm x s = Inr s' \<and> ok s' \<and>
        (\<forall>k. map_option num (get s' k) = (if k = nm then Some (num x) else map_option num (get s k)))"
begin

lemma add_iff:
  "ok s \<Longrightarrow> valid nm x \<Longrightarrow>
   (\<exists>s'. add nm x s = Inr s') \<longleftrightarrow> get s nm = None \<and> (\<forall>k y. get s k = Some y \<longrightarrow> num y \<noteq> num x)"
  using dup_name [of s nm x] dup_num [of s nm x] fresh [of s nm x] by (metis sum.distinct(1))

lemma added:
  assumes "ok s" "valid nm x" "add nm x s = Inr s'"
  shows "ok s'" "map_option num (get s' k) = (if k = nm then Some (num x) else map_option num (get s k))"
proof -
  have "get s nm = None" "\<forall>k y. get s k = Some y \<longrightarrow> num y \<noteq> num x"
    using add_iff [OF assms(1,2)] assms(3) by auto
  from fresh [OF assms(1,2) this] obtain t where "add nm x s = Inr t" "ok t"
    "\<forall>k. map_option num (get t k) = (if k = nm then Some (num x) else map_option num (get s k))" by blast
  then show "ok s'" "map_option num (get s' k) = (if k = nm then Some (num x) else map_option num (get s k))"
    using assms(3) by auto
qed

lemma name_taken:
  assumes "ok s" "valid nm x" "add nm x s = Inr s'" "valid nm y"
  shows "\<exists>e. add nm y s' = Inl e"
proof -
  have "get s' nm \<noteq> None" using added(2) [OF assms(1-3), of nm] by auto
  then show ?thesis by (rule dup_name [OF added(1) [OF assms(1-3)] assms(4)])
qed

lemma number_taken:
  assumes "ok s" "valid nm x" "add nm x s = Inr s'" "valid k y" "num y = num x"
  shows "\<exists>e. add k y s' = Inl e"
proof -
  obtain z where "get s' nm = Some z" "num z = num y"
    using added(2) [OF assms(1-3), of nm] assms(5) by (cases "get s' nm") auto
  then show ?thesis by (rule dup_num [OF added(1) [OF assms(1-3)] assms(4)])
qed

lemma others_kept:
  assumes "ok s" "valid nm x" "add nm x s = Inr s'" "k \<noteq> nm"
  shows "map_option num (get s' k) = map_option num (get s k)"
  using added(2) [OF assms(1-3), of k] assms(4) by simp

end

lemma hist_ok_dicts:
  "hist_ok h \<Longrightarrow> dict_ok (h_params h)" "hist_ok h \<Longrightarrow> dict_ok (h_spectra h)" "hist_ok h \<Longrightarrow> dict_ok (h_gates h)"
  "hist_ok h \<Longrightarrow> Lookup (h_params h) nm = Some p \<Longrightarrow> pa_name p = nm"
  "hist_ok h \<Longrightarrow> Lookup (h_spectra h) nm = Some s \<Longrightarrow> sp_name s = nm"
  by (simp_all add: hist_ok_defs)

lemma find_by_number:
  "hist_ok h \<Longrightarrow> FindParameterById n h = None \<longleftrightarrow> (\<forall>k y. FindParameter k h = Some y \<longrightarrow> pa_number y \<noteq> n)"
  "hist_ok h \<Longrightarrow> FindSpectrumById n h = None \<longleftrightarrow> (\<forall>k y. FindSpectrum k h = Some y \<longrightarrow> sp_number y \<noteq> n)"
  "hist_ok h \<Longrightarrow> FindGateById n h = None \<longleftrightarrow> (\<forall>k y. FindGate k h = Some y \<longrightarrow> gc_number y \<noteq> n)"
  unfolding FindParameterById_def FindSpectrumById_def FindGateById_def
    FindParameter_def FindSpectrum_def FindGate_def
  by (rule FindMatch_number_None; simp add: hist_ok_dicts)+

lemma enter_parameter_map:
  assumes "enter_parameter nm p h = Inr h'"
  shows "FindParameter k h' = (if k = nm then Some p else FindParameter k h)"
proof -
  let ?h = "h\<lparr> h_params := (h_params h)\<lparr> d_map := smap_put nm p (d_map (h_params h)) \<rparr> \<rparr>"
  obtain cs where "fold tell_parameter (invokeAdd (d_obs (h_params h)) nm p) ?h = ?h\<lparr> h_calls := cs \<rparr>"
    using tell_parameter_quiet by metis
  then have "h' = ?h\<lparr> h_calls := cs \<rparr>"
    using assms by (simp add: enter_parameter_def Enter_def split: if_splits)
  then show ?thesis by (simp add: FindParameter_def Lookup_def)
qed

interpretation param_registry: registry "\<lambda>h nm. FindParameter nm h" pa_number enter_parameter
  "\<lambda>nm p. pa_name p = nm" hist_ok
proof (unfold_locales, goal_cases)
  case (1 h nm p)
  then show ?case using hist_ok_dicts(4) by (fastforce simp: enter_parameter_def FindParameter_def)
next
  case (2 h nm p k y)
  then have "FindParameterById (pa_number p) h \<noteq> None" using find_by_number(1) by metis
  then show ?case by (simp add: enter_parameter_def)
next
  case (3 h nm p)
  then have "FindParameterById (pa_number p) h = None" using find_by_number(1) by metis
  then obtain h' where h': "enter_parameter nm p h = Inr h'"
    using 3 by (simp add: enter_parameter_def case_prod_unfold Let_def)
  then show ?case using 3 enter_parameter_ok enter_parameter_map [OF h'] by auto
qed

interpretation gate_registry: registry "\<lambda>h nm. FindGate nm h" gc_number
  "\<lambda>nm c. AddGate nm (gc_number c) (gc_gate c)" "\<lambda>nm c. True" hist_ok
proof (unfold_locales, goal_cases)
  case (1 h nm c)
  then show ?case by (simp add: AddGate_def)
next
  case (2 h nm c k y)
  then have "FindGateById (gc_number c) h \<noteq> None" using find_by_number(3) by metis
  then show ?case by (simp add: AddGate_def)
next
  case (3 h nm c)
  then have "FindGateById (gc_number c) h = None" using find_by_number(3) by metis
  then obtain h' where h': "AddGate nm (gc_number c) (gc_gate c) h = Inr h'"
    using 3 by (simp add: AddGate_def Let_def case_prod_unfold)
  then show ?case using AddGate_ok [OF 3(1) h'] by (auto simp: FindGate_def Lookup_def)
qed

interpretation spectrum_registry: registry "\<lambda>h nm. FindSpectrum nm h" sp_number "\<lambda>nm. AddSpectrum"
  "\<lambda>nm s. sp_name s = nm \<and> sp_gate s = DefaultGate" hist_ok
proof (unfold_locales, goal_cases)
  case (1 h nm s)
  then show ?case using hist_ok_dicts(5) by (fastforce simp: AddSpectrum_def FindSpectrum_def)
next
  case (2 h nm s k y)
  then have "FindSpectrumById (sp_number s) h \<noteq> None" using find_by_number(2) by metis
  then show ?case by (simp add: AddSpectrum_def)
next
  case (3 h nm s)
  then have "FindSpectrumById (sp_number s) h = None" using find_by_number(2) by metis
  then obtain h' where h': "AddSpectrum s h = Inr h'"
    using 3 by (auto simp: AddSpectrum_def case_prod_unfold Let_def)
  then show ?case
    using AddSpectrum_ok [OF 3(1) h'] 3(2) by (auto simp: FindSpectrum_def)
qed


subsection \<open>Properties\<close>

text \<open>What AddGate accepts and refuses.\<close>

lemma AddGate_outcome:
  assumes "hist_ok h"
  shows "(case AddGate nm n g h of
      Inl e \<Rightarrow> e = DuplicateKey nm \<and>
        (FindGate nm h \<noteq> None \<or> (\<exists>k c. FindGate k h = Some c \<and> gc_number c = n))
    | Inr h' \<Rightarrow> FindGate nm h = None \<and> (\<forall>k c. FindGate k h = Some c \<longrightarrow> gc_number c \<noteq> n) \<and> hist_ok h' \<and>
        (\<forall>k. FindGate k h' = (if k = nm then Some (new_container nm n g) else FindGate k h)))"
proof (cases "AddGate nm n g h")
  case (Inl e)
  then show ?thesis
    using find_by_number(3) [OF assms, of n]
    by (auto simp: AddGate_def Let_def case_prod_unfold split: if_splits)
next
  case (Inr h')
  have "\<exists>h'. AddGate nm (gc_number (new_container nm n g)) (gc_gate (new_container nm n g)) h = Inr h'"
    using Inr by (auto simp: AddGate_def Let_def case_prod_unfold split: if_splits)
  then have "FindGate nm h = None \<and> (\<forall>k c. FindGate k h = Some c \<longrightarrow> gc_number c \<noteq> n)"
    using gate_registry.add_iff [OF assms TrueI, of nm "new_container nm n g"] by simp
  then show ?thesis
    using Inr AddGate_ok [OF assms Inr] by (simp add: FindGate_def Lookup_def)
qed


text \<open>
  Numbers and names are given out once: after a parameter or a spectrum has been added, adding
  another one with its name or with its number is refused.
\<close>

lemma registration_exclusive:
  assumes "hist_ok h"
  shows "(AddParameter nm n u h = Inr h' \<longrightarrow>
      (\<exists>e. AddParameter nm m v h' = Inl e) \<and> (\<exists>e. AddParameter_scaled k n sc h' = Inl e)) \<and>
    (sp_gate s = DefaultGate \<and> AddSpectrum s h = Inr h2 \<and> sp_gate t = DefaultGate \<and>
      (sp_name t = sp_name s \<or> sp_number t = sp_number s) \<longrightarrow> (\<exists>e. AddSpectrum t h2 = Inl e))"
proof (intro conjI impI)
  assume a: "AddParameter nm n u h = Inr h'"
  show "\<exists>e. AddParameter nm m v h' = Inl e"
    using a unfolding AddParameter_def by (rule param_registry.name_taken [OF assms, rotated]) simp_all
  show "\<exists>e. AddParameter_scaled k n sc h' = Inl e"
    using a unfolding AddParameter_def AddParameter_scaled_def
    by (rule param_registry.number_taken [OF assms, rotated]) simp_all
next
  assume a: "sp_gate s = DefaultGate \<and> AddSpectrum s h = Inr h2 \<and> sp_gate t = DefaultGate \<and>
      (sp_name t = sp_name s \<or> sp_number t = sp_number s)"
  then show "\<exists>e. AddSpectrum t h2 = Inl e"
    using spectrum_registry.name_taken [OF assms, where nm = "sp_name s" and x = s and s' = h2 and y = t]
      spectrum_registry.number_taken [OF assms, where nm = "sp_name s" and x = s and s' = h2
        and k = "sp_name t" and y = t] by auto
qed

text \<open>
  C9. DeleteGate leaves a gate in place that is false on every event, whatever depends on
  it: the name still denotes a container with the same number, spectra gated on it are no
  longer incremented, and it has left the list of gates to reset.
\<close>

theorem DeleteGate_false:
  assumes "hist_ok h" "DeleteGate nm h = Inr h'"
  shows "hist_ok h' \<and> map_option gc_number (FindGate nm h') = map_option gc_number (FindGate nm h) \<and>
    gate_value (Suc k) (d_map (h_gates h')) ev (GateNode nm) = Some False \<and>
    nm \<notin> set (dl_items (h_gateList h')) \<and>
    (\<forall>g. g \<noteq> nm \<longrightarrow> FindGate g h' = FindGate g h)"
proof -
  obtain c gl cs where c: "Lookup (h_gates h) nm = Some c" and ok: "hist_ok h'"
    and h': "h' = h\<lparr> h_gates := (h_gates h)\<lparr> d_map := smap_put nm (setGate (new_gate CDeletedGate) c) (d_map (h_gates h)) \<rparr>,
            h_gateList := gl, h_calls := cs \<rparr>"
    using ReplaceGate_ok [OF assms(1)] assms(2) unfolding DeleteGate_def by blast
  have cl: "g_body (clone (new_gate CDeletedGate)) = CFalseGate" by (simp add: clone_def new_gate_def)
  have "nm \<notin> set (dl_items (h_gateList h'))"
    using ok cl by (simp add: h' hist_ok_defs gl_inv_def caches_def)
  then show ?thesis
    using ok c cl by (simp add: h' FindGate_def Lookup_def gate_value_def bodies_def leaf_den_def)
qed

theorem DeleteGate_false_witness:
  "\<exists>h h'. DeleteGate ''c'' h = Inr h' \<and>
     gate_value 1 (d_map (h_gates h')) (\<lambda>n. None) (GateNode ''c'') = Some False"
proof -
  obtain h where h: "hist_ok h" "d_map (h_gates h) = [(''c'', new_container ''c'' 0 (new_gate (CCut 1 10 0)))]"
    by (rule demo_histogrammer)
  then obtain h' where h': "DeleteGate ''c'' h = Inr h'"
    by (simp add: DeleteGate_def ReplaceGate_def FindGate_def Lookup_def Let_def)
  from DeleteGate_false [OF h(1) h', of 0 "\<lambda>n. None"] h' show ?thesis by auto
qed

text \<open>Removing a registered gate or gating observer advances the iterator just erased.\<close>

lemma removing_observer_undefined:
  "removeGateObserver ob (addGateObserver ob h) = None \<and>
   removeGatingObserver ob (addGatingObserver ob h) = None"
  by (simp add: removeGateObserver_def addGateObserver_def removeGatingObserver_def addGatingObserver_def Let_def)

end
