(* ===== verification/GateFactory.thy ===== *)
theory GateFactory
  imports Registry
begin

text \<open>
  CGateFactory (src/main/Core/GateFactory.cpp): how gates are made from the names, points and
  masks a user gives, and what is refused.  The factory reads the parameter and gate
  dictionaries of the histogrammer and the set of tree parameter vectors.  Its results are
  Returns, Throws with the reason and the gate type of the CGateFactoryException, or
  Undefined where the code indexes a vector past its end.
\<close>

subsection \<open>Types of the factory\<close>

datatype GateType =
    And_g | band_g | bandcontour_g | contour_g | cut_g | deleted_g | falseg_g | Not_g | Or_g | trueg_g
  | gammacut_g | gammaband_g | gammacontour_g | em_g | am_g | nm_g | vand_g | vor_g

datatype GateFactoryExceptionReason =
    WrongConstructor | WrongGateCount | WrongParameterCount | WrongPointCount | NoSuchParameter
  | MustBeBand | NoSuchGate | MustBeSameParams | NoSuchSpectrum

datatype 'a outcome = Returns 'a | Throws GateFactoryExceptionReason GateType | Undefined

text \<open>
  A new gate, a CVectorAndGate or CVectorOrGate on a named vector (these read the tree
  parameters and not the event), or the NULL of the mask factory.
\<close>

datatype creation = Gate gate | VectorAndGate string rat rat | VectorOrGate string rat rat | NullGate

fun bind_outcome :: "'a outcome \<Rightarrow> ('a \<Rightarrow> 'b outcome) \<Rightarrow> 'b outcome" where
  "bind_outcome (Returns x) f = f x"
| "bind_outcome (Throws r t) f = Throws r t"
| "bind_outcome Undefined f = Undefined"

definition returns_gate :: "gate \<Rightarrow> creation outcome" where
  "returns_gate g = Returns (Gate g)"

subsection \<open>Looking up names\<close>

definition ParameterToId :: "string \<Rightarrow> GateType \<Rightarrow> histogrammer \<Rightarrow> u32 outcome" where
  "ParameterToId nm t h = (case FindParameter nm h of
      None \<Rightarrow> Throws NoSuchParameter t
    | Some p \<Rightarrow> Returns (pa_number p))"

definition NameToSpec :: "string \<Rightarrow> GateType \<Rightarrow> histogrammer \<Rightarrow> string outcome" where
  "NameToSpec nm t h = (case FindSpectrum nm h of
      None \<Rightarrow> Throws NoSuchSpectrum t
    | Some s \<Rightarrow> Returns nm)"

definition NameToGate :: "string \<Rightarrow> GateType \<Rightarrow> histogrammer \<Rightarrow> string outcome" where
  "NameToGate nm t h = (case FindGate nm h of
      None \<Rightarrow> Throws NoSuchGate t
    | Some c \<Rightarrow> Returns nm)"

fun CreateGateList :: "string list \<Rightarrow> GateType \<Rightarrow> histogrammer \<Rightarrow> string list outcome" where
  "CreateGateList [] t h = Returns []"
| "CreateGateList (n # ns) t h = bind_outcome (NameToGate n t h)
     (\<lambda>g. bind_outcome (CreateGateList ns t h) (\<lambda>gs. Returns (g # gs)))"

definition getVector :: "string \<Rightarrow> GateType \<Rightarrow> string set \<Rightarrow> string outcome" where
  "getVector nm t vs = (if nm \<in> vs then Returns nm else Throws NoSuchParameter t)"

subsection \<open>One factory method per kind of gate\<close>

definition CreateBand :: "string list \<Rightarrow> fpoint list \<Rightarrow> histogrammer \<Rightarrow> creation outcome" where
  "CreateBand ps pts h =
     (if length ps \<noteq> 2 then Throws WrongParameterCount band_g
      else if length pts < 2 then Throws WrongPointCount band_g
      else bind_outcome (ParameterToId (ps ! 0) band_g h) (\<lambda>x.
           bind_outcome (ParameterToId (ps ! 1) band_g h) (\<lambda>y. returns_gate (mk_band x y pts))))"

definition CreateContour :: "string list \<Rightarrow> fpoint list \<Rightarrow> histogrammer \<Rightarrow> creation outcome" where
  "CreateContour ps pts h =
     (if length ps \<noteq> 2 then Throws WrongParameterCount contour_g
      else if length pts < 3 then Throws WrongPointCount contour_g
      else bind_outcome (ParameterToId (ps ! 0) contour_g h) (\<lambda>x.
           bind_outcome (ParameterToId (ps ! 1) contour_g h) (\<lambda>y. returns_gate (mk_contour x y pts))))"

definition CreateGammaCut :: "rat \<Rightarrow> rat \<Rightarrow> u32 list \<Rightarrow> creation outcome" where
  "CreateGammaCut lo hi ps = returns_gate (new_gate (CGammaCut lo hi ps))"

text \<open>The constructors of the other two read the first two parameters without a check.\<close>

definition CreateGammaBand :: "fpoint list \<Rightarrow> u32 list \<Rightarrow> creation outcome" where
  "CreateGammaBand pts ps =
     (if length pts < 2 then Throws WrongPointCount gammaband_g
      else if length ps < 2 then Undefined
      else returns_gate (mk_gamma_band pts ps))"

definition CreateGammaContour :: "fpoint list \<Rightarrow> u32 list \<Rightarrow> creation outcome" where
  "CreateGammaContour pts ps =
     (if length pts < 3 then Throws WrongPointCount gammacontour_g
      else if length ps < 2 then Undefined
      else returns_gate (mk_gamma_contour pts ps))"

text \<open>
  The two bands must be on the same parameters, possibly in the other order, when the points
  of the second are reflected.
\<close>

definition CreateBandContour :: "string list \<Rightarrow> histogrammer \<Rightarrow> creation outcome" where
  "CreateBandContour bs h =
     (if length bs \<noteq> 2 then Throws WrongGateCount bandcontour_g
      else bind_outcome (NameToGate (bs ! 0) bandcontour_g h) (\<lambda>n1.
           bind_outcome (NameToGate (bs ! 1) bandcontour_g h) (\<lambda>n2.
             (case (FindGate n1 h, FindGate n2 h) of
                (Some c1, Some c2) \<Rightarrow>
                  (let b1 = g_body (gc_gate c1); b2 = g_body (gc_gate c2)
                   in if gate_type b1 \<noteq> ''b'' \<or> gate_type b2 \<noteq> ''b'' then Throws MustBeBand bandcontour_g
                      else (case (b1, b2) of
                        (CBand p1 _, CBand p2 _) \<Rightarrow>
                          (if pl_nxId p1 = pl_nxId p2 \<and> pl_nyId p1 = pl_nyId p2
                           then returns_gate (mk_2bands (pl_nxId p1) (pl_nyId p1) (pl_points p1) (pl_points p2))
                           else if pl_nxId p1 = pl_nyId p2 \<and> pl_nyId p1 = pl_nxId p2
                           then returns_gate (mk_2bands (pl_nxId p1) (pl_nyId p1) (pl_points p1)
                                  (map (\<lambda>p. (snd p, fst p)) (pl_points p2)))
                           else Throws MustBeSameParams bandcontour_g)
                      | _ \<Rightarrow> Undefined))
              | _ \<Rightarrow> Undefined))))"

definition CreateNotGate :: "string \<Rightarrow> histogrammer \<Rightarrow> creation outcome" where
  "CreateNotGate nm h = bind_outcome (NameToGate nm Not_g h) (\<lambda>g. returns_gate (new_gate (CNot g)))"

definition CreateAndGate :: "string list \<Rightarrow> histogrammer \<Rightarrow> creation outcome" where
  "CreateAndGate ns h = bind_outcome (CreateGateList ns And_g h) (\<lambda>gs. returns_gate (new_gate (CAndGate gs)))"

definition CreateOrGate :: "string list \<Rightarrow> histogrammer \<Rightarrow> creation outcome" where
  "CreateOrGate ns h = bind_outcome (CreateGateList ns Or_g h) (\<lambda>gs. returns_gate (new_gate (COrGate gs)))"

definition CreateCut :: "string \<Rightarrow> rat \<Rightarrow> rat \<Rightarrow> histogrammer \<Rightarrow> creation outcome" where
  "CreateCut nm lo hi h = bind_outcome (ParameterToId nm cut_g h) (\<lambda>i. returns_gate (new_gate (CCut lo hi i)))"

text \<open>The comparison is a long; the gates keep it as UInt_t.\<close>

definition CreateMaskGate :: "(u32 \<Rightarrow> u32 \<Rightarrow> gate_body) \<Rightarrow> string list \<Rightarrow> u64 \<Rightarrow> histogrammer \<Rightarrow> creation outcome" where
  "CreateMaskGate mk ps cmp h = (case ps of
      [] \<Rightarrow> Undefined
    | p # _ \<Rightarrow> bind_outcome (ParameterToId p em_g h) (\<lambda>i. returns_gate (new_gate (mk i (ucast cmp)))))"

definition CreateMaskEqualGate :: "string list \<Rightarrow> u64 \<Rightarrow> histogrammer \<Rightarrow> creation outcome" where
  "CreateMaskEqualGate = CreateMaskGate CMaskEqualGate"

definition CreateMaskAndGate :: "string list \<Rightarrow> u64 \<Rightarrow> histogrammer \<Rightarrow> creation outcome" where
  "CreateMaskAndGate = CreateMaskGate CMaskAndGate"

definition CreateMaskNotGate :: "string list \<Rightarrow> u64 \<Rightarrow> histogrammer \<Rightarrow> creation outcome" where
  "CreateMaskNotGate = CreateMaskGate CMaskNotGate"

definition CreateVectorAndGate :: "string \<Rightarrow> rat \<Rightarrow> rat \<Rightarrow> string set \<Rightarrow> creation outcome" where
  "CreateVectorAndGate nm lo hi vs = bind_outcome (getVector nm vand_g vs) (\<lambda>v. Returns (VectorAndGate v lo hi))"

definition CreateVectorOrGate :: "string \<Rightarrow> rat \<Rightarrow> rat \<Rightarrow> string set \<Rightarrow> creation outcome" where
  "CreateVectorOrGate nm lo hi vs = bind_outcome (getVector nm vor_g vs) (\<lambda>v. Returns (VectorOrGate v lo hi))"

subsection \<open>The four dispatchers\<close>

definition CreateGate_names :: "GateType \<Rightarrow> string list \<Rightarrow> histogrammer \<Rightarrow> creation outcome" where
  "CreateGate_names t ns h = (case t of
      And_g \<Rightarrow> CreateAndGate ns h
    | bandcontour_g \<Rightarrow> CreateBandContour ns h
    | deleted_g \<Rightarrow> if length ns \<noteq> 0 then Throws WrongGateCount t else returns_gate (new_gate CDeletedGate)
    | falseg_g \<Rightarrow> if length ns \<noteq> 0 then Throws WrongGateCount t else returns_gate (new_gate CFalseGate)
    | Not_g \<Rightarrow> if length ns \<noteq> 1 then Throws WrongGateCount t else CreateNotGate (ns ! 0) h
    | Or_g \<Rightarrow> CreateOrGate ns h
    | trueg_g \<Rightarrow> if length ns \<noteq> 0 then Throws WrongGateCount t else returns_gate (new_gate CTrueGate)
    | _ \<Rightarrow> Throws WrongConstructor t)"

definition CreateGate_points ::
  "GateType \<Rightarrow> string list \<Rightarrow> fpoint list \<Rightarrow> histogrammer \<Rightarrow> string set \<Rightarrow> creation outcome" where
  "CreateGate_points t ps pts h vs =
     (if t = band_g then CreateBand ps pts h
      else if t = cut_g \<or> t = vand_g \<or> t = vor_g then
        (if length ps \<noteq> 1 then Throws WrongParameterCount t
         else if length pts \<noteq> 2 then Throws WrongPointCount t
         else let lo = min (fst (pts ! 0)) (fst (pts ! 1)); hi = max (fst (pts ! 0)) (fst (pts ! 1))
              in if t = cut_g then CreateCut (ps ! 0) lo hi h
                 else if t = vand_g then CreateVectorAndGate (ps ! 0) lo hi vs
                 else CreateVectorOrGate (ps ! 0) lo hi vs)
      else if t = contour_g then CreateContour ps pts h
      else Throws WrongConstructor t)"

definition CreateGate_gamma :: "GateType \<Rightarrow> fpoint list \<Rightarrow> u32 list \<Rightarrow> creation outcome" where
  "CreateGate_gamma t pts ps = (case t of
      gammacut_g \<Rightarrow>
        if length pts \<noteq> 2 then Throws WrongPointCount t
        else CreateGammaCut (min (fst (pts ! 0)) (fst (pts ! 1))) (max (fst (pts ! 0)) (fst (pts ! 1))) ps
    | gammaband_g \<Rightarrow> CreateGammaBand pts ps
    | gammacontour_g \<Rightarrow> CreateGammaContour pts ps
    | _ \<Rightarrow> Throws WrongConstructor t)"

text \<open>No exception for the other types here: a null pointer.\<close>

definition CreateGate_mask :: "GateType \<Rightarrow> string list \<Rightarrow> u64 \<Rightarrow> histogrammer \<Rightarrow> creation outcome" where
  "CreateGate_mask t ps cmp h = (case t of
      em_g \<Rightarrow> CreateMaskEqualGate ps cmp h
    | am_g \<Rightarrow> CreateMaskAndGate ps cmp h
    | nm_g \<Rightarrow> CreateMaskNotGate ps cmp h
    | _ \<Rightarrow> Returns NullGate)"

definition stringToGateType :: "string \<Rightarrow> GateType option" where
  "stringToGateType s =
     (if s = ''*'' then Some And_g else if s = ''b'' then Some band_g
      else if s = ''c2band'' then Some bandcontour_g else if s = ''c'' then Some contour_g
      else if s = ''s'' then Some cut_g else if s = ''F'' then Some falseg_g
      else if s = ''-'' then Some Not_g else if s = ''+'' then Some Or_g
      else if s = ''T'' then Some trueg_g else if s = ''gs'' then Some gammacut_g
      else if s = ''gb'' then Some gammaband_g else if s = ''gc'' then Some gammacontour_g
      else if s = ''em'' then Some em_g else if s = ''am'' then Some am_g
      else if s = ''nm'' then Some nm_g else if s = ''vs*'' then Some vand_g
      else if s = ''vs+'' then Some vor_g else None)"

subsection \<open>What the factory makes\<close>

text \<open>The gates the four dispatchers return for a gate type.\<close>

definition factory_makes :: "histogrammer \<Rightarrow> GateType \<Rightarrow> gate \<Rightarrow> bool" where
  "factory_makes h t g \<longleftrightarrow>
     (\<exists>ns. CreateGate_names t ns h = Returns (Gate g)) \<or>
     (\<exists>ps pts vs. CreateGate_points t ps pts h vs = Returns (Gate g)) \<or>
     (\<exists>pts ps. CreateGate_gamma t pts ps = Returns (Gate g)) \<or>
     (\<exists>ps cmp. CreateGate_mask t ps cmp h = Returns (Gate g))"

definition evaluable :: "histogrammer \<Rightarrow> bool" where
  "evaluable h \<longleftrightarrow> bodies_ok (d_map (h_gates h)) \<and> (\<exists>r. rank_ok r (d_map (h_gates h))) \<and>
     (\<forall>nm p. FindParameter nm h = Some p \<longrightarrow> unat (pa_number p) < max_params)"

definition sound_gate :: "histogrammer \<Rightarrow> GateType \<Rightarrow> gate \<Rightarrow> bool" where
  "sound_gate h t g \<longleftrightarrow> g = new_gate (g_body g) \<and> body_ok (g_body g) \<and>
     (\<forall>d \<in> set (getDependentGates (g_body g)). FindGate d h \<noteq> None) \<and>
     stringToGateType (gate_type (g_body g)) =
       Some (if t = bandcontour_g then contour_g else if t = deleted_g then falseg_g else t)"

lemma bind_Returns_iff:
  "bind_outcome m f = Returns y \<longleftrightarrow> (\<exists>x. m = Returns x \<and> f x = Returns y)"
  by (cases m) auto

lemma ParameterToId_Returns: "ParameterToId nm t h = Returns i \<longleftrightarrow> (\<exists>p. FindParameter nm h = Some p \<and> i = pa_number p)"
  by (auto simp: ParameterToId_def split: option.splits)

lemma NameToGate_Returns: "NameToGate nm t h = Returns g \<longleftrightarrow> FindGate nm h \<noteq> None \<and> g = nm"
  by (auto simp: NameToGate_def split: option.splits)

lemma CreateGateList_outcome:
  "CreateGateList ns t h =
     (if \<forall>n \<in> set ns. FindGate n h \<noteq> None then Returns ns else Throws NoSuchGate t)"
  by (induction ns) (auto simp: NameToGate_def split: option.splits)

lemmas factory_returns = bind_Returns_iff ParameterToId_Returns NameToGate_Returns CreateGateList_outcome
  returns_gate_def

lemmas sound_gate_simps = sound_gate_def new_gate_def body_ok_def getDependentGates_def gate_type_def
  stringToGateType_def

lemma CreateBand_sound: "CreateBand ps pts h = Returns (Gate g) \<Longrightarrow> sound_gate h band_g g"
  by (auto simp: CreateBand_def factory_returns sound_gate_simps mk_band_def split: if_splits)

lemma CreateContour_sound: "CreateContour ps pts h = Returns (Gate g) \<Longrightarrow> sound_gate h contour_g g"
  by (auto simp: CreateContour_def factory_returns sound_gate_simps mk_contour_def split: if_splits)

lemma CreateGammaBand_sound: "CreateGammaBand pts ps = Returns (Gate g) \<Longrightarrow> sound_gate h gammaband_g g"
  by (auto simp: CreateGammaBand_def factory_returns sound_gate_simps mk_gamma_band_def split: if_splits)

lemma CreateGammaContour_sound: "CreateGammaContour pts ps = Returns (Gate g) \<Longrightarrow> sound_gate h gammacontour_g g"
  by (auto simp: CreateGammaContour_def factory_returns sound_gate_simps mk_gamma_contour_def split: if_splits)

lemma length_MarshallPoints: "length (snd (MarshallPoints low hi)) = length low + length hi"
  by (simp add: MarshallPoints_def Let_def)

lemma mk_2bands_sound:
  "2 \<le> length pts \<Longrightarrow> 2 \<le> length pts' \<Longrightarrow> sound_gate h bandcontour_g (mk_2bands x y pts pts')"
  using length_MarshallPoints [of pts pts']
  by (simp add: mk_2bands_def sound_gate_simps Let_def)

lemma band_body_ok: "evaluable h \<Longrightarrow> FindGate n h = Some c \<Longrightarrow> body_ok (g_body (gc_gate c))"
  unfolding evaluable_def using bodies_ok_get [of "d_map (h_gates h)" n]
  by (auto simp: FindGate_def Lookup_def bodies_def)

lemma CreateBandContour_sound:
  assumes "evaluable h" "CreateBandContour bs h = Returns (Gate g)"
  shows "sound_gate h bandcontour_g g"
proof -
  obtain c1 c2 where c: "FindGate (bs ! 0) h = Some c1" "FindGate (bs ! 1) h = Some c2"
    using assms(2) by (auto simp: CreateBandContour_def factory_returns split: if_splits)
  obtain p1 l1 p2 l2 where b: "g_body (gc_gate c1) = CBand p1 l1" "g_body (gc_gate c2) = CBand p2 l2"
    using assms(2) c
    by (auto simp: CreateBandContour_def factory_returns Let_def split: if_splits gate_body.splits)
  have "2 \<le> length (pl_points p1)" "2 \<le> length (pl_points p2)"
    using band_body_ok [OF assms(1) c(1)] band_body_ok [OF assms(1) c(2)] b by (simp_all add: body_ok_def)
  then have s: "sound_gate h bandcontour_g (mk_2bands x y (pl_points p1) (pl_points p2))"
    "sound_gate h bandcontour_g (mk_2bands x y (pl_points p1) (map (\<lambda>p. (snd p, fst p)) (pl_points p2)))" for x y
    by (auto intro: mk_2bands_sound)
  show ?thesis
    using assms(2) c b s
    by (auto simp: CreateBandContour_def factory_returns gate_type_def split: if_splits)
qed

lemma CreateCut_sound: "CreateCut nm lo hi h = Returns (Gate g) \<Longrightarrow> sound_gate h cut_g g"
  by (auto simp: CreateCut_def factory_returns sound_gate_simps)

lemma CreateMask_sound:
  assumes "evaluable h"
  shows "CreateMaskEqualGate ps cmp h = Returns (Gate g) \<Longrightarrow> sound_gate h em_g g"
    "CreateMaskAndGate ps cmp h = Returns (Gate g) \<Longrightarrow> sound_gate h am_g g"
    "CreateMaskNotGate ps cmp h = Returns (Gate g) \<Longrightarrow> sound_gate h nm_g g"
  using assms
  by (auto simp: CreateMaskEqualGate_def CreateMaskAndGate_def CreateMaskNotGate_def CreateMaskGate_def
      factory_returns sound_gate_simps evaluable_def split: list.splits)

lemma CreateLogic_sound:
  "CreateAndGate ns h = Returns (Gate g) \<Longrightarrow> sound_gate h And_g g"
  "CreateOrGate ns h = Returns (Gate g) \<Longrightarrow> sound_gate h Or_g g"
  "CreateNotGate n h = Returns (Gate g) \<Longrightarrow> sound_gate h Not_g g"
  by (auto simp: CreateAndGate_def CreateOrGate_def CreateNotGate_def factory_returns sound_gate_simps
      split: if_splits)

lemma constant_sound:
  "sound_gate h trueg_g (new_gate CTrueGate)" "sound_gate h falseg_g (new_gate CFalseGate)"
  "sound_gate h deleted_g (new_gate CDeletedGate)" "sound_gate h gammacut_g (new_gate (CGammaCut lo hi ps))"
  by (simp_all add: sound_gate_simps)

lemma CreateNames_sound:
  assumes "evaluable h" "CreateGate_names t ns h = Returns (Gate g)"
  shows "sound_gate h t g"
  using assms(2) CreateBandContour_sound [OF assms(1)]
  by (cases t)
    (auto simp: CreateGate_names_def returns_gate_def constant_sound dest: CreateLogic_sound split: if_splits)

lemma CreatePoints_sound:
  "CreateGate_points t ps pts h vs = Returns (Gate g) \<Longrightarrow> sound_gate h t g"
  by (auto simp: CreateGate_points_def Let_def CreateVectorAndGate_def CreateVectorOrGate_def bind_Returns_iff
      dest: CreateBand_sound CreateContour_sound CreateCut_sound split: if_splits)

lemma CreateGamma_sound:
  "CreateGate_gamma t pts ps = Returns (Gate g) \<Longrightarrow> sound_gate h t g"
  by (cases t) (auto simp: CreateGate_gamma_def CreateGammaCut_def returns_gate_def constant_sound
      dest: CreateGammaBand_sound CreateGammaContour_sound split: if_splits)

lemma CreateMasks_sound:
  "evaluable h \<Longrightarrow> CreateGate_mask t ps cmp h = Returns (Gate g) \<Longrightarrow> sound_gate h t g"
  by (cases t) (auto simp: CreateGate_mask_def dest: CreateMask_sound)

lemma factory_sound: "evaluable h \<Longrightarrow> factory_makes h t g \<Longrightarrow> sound_gate h t g"
  unfolding factory_makes_def
  using CreateNames_sound CreatePoints_sound CreateGamma_sound CreateMasks_sound by blast

text \<open>Everything the dispatchers return, the vectors among the tree parameters being vs.\<close>

definition factory_creates :: "histogrammer \<Rightarrow> string set \<Rightarrow> GateType \<Rightarrow> creation \<Rightarrow> bool" where
  "factory_creates h vs t c \<longleftrightarrow>
     (\<exists>ns. CreateGate_names t ns h = Returns c) \<or>
     (\<exists>ps pts. CreateGate_points t ps pts h vs = Returns c) \<or>
     (\<exists>pts ps. CreateGate_gamma t pts ps = Returns c) \<or>
     (\<exists>ps cmp. CreateGate_mask t ps cmp h = Returns c)"

lemma creates_makes: "factory_creates h vs t (Gate g) \<Longrightarrow> factory_makes h t g"
  unfolding factory_creates_def factory_makes_def by blast

text \<open>Two dispatchers make gates only, one makes null pointers, and one makes vector gates.\<close>

lemma names_gates: "CreateGate_names t ns h = Returns c \<Longrightarrow> \<exists>g. c = Gate g"
  by (auto simp: CreateGate_names_def CreateAndGate_def CreateOrGate_def CreateNotGate_def CreateBandContour_def
      factory_returns Let_def split: GateType.splits if_splits option.splits gate_body.splits)

lemma gamma_gates: "CreateGate_gamma t pts ps = Returns c \<Longrightarrow> \<exists>g. c = Gate g"
  by (auto simp: CreateGate_gamma_def CreateGammaCut_def CreateGammaBand_def CreateGammaContour_def
      returns_gate_def split: GateType.splits if_splits)

lemma mask_gates:
  "CreateGate_mask t ps cmp h = Returns c \<Longrightarrow> (\<exists>g. c = Gate g) \<or> c = NullGate \<and> t \<notin> {em_g, am_g, nm_g}"
  by (auto simp: CreateGate_mask_def CreateMaskEqualGate_def CreateMaskAndGate_def CreateMaskNotGate_def
      CreateMaskGate_def factory_returns split: GateType.splits list.splits)

lemma points_gates:
  "CreateGate_points t ps pts h vs = Returns c \<Longrightarrow> (\<exists>g. c = Gate g) \<or>
   (\<exists>v lo hi. v \<in> vs \<and> lo \<le> hi \<and> (c = VectorAndGate v lo hi \<and> t = vand_g \<or> c = VectorOrGate v lo hi \<and> t = vor_g))"
  by (auto simp: CreateGate_points_def CreateBand_def CreateCut_def CreateContour_def CreateVectorAndGate_def
      CreateVectorOrGate_def getVector_def factory_returns Let_def split: if_splits)

subsection \<open>New gates among the old ones\<close>

lemma rank_fresh:
  assumes "rank_ok r st" "smap_get st nm = None"
    "\<forall>d \<in> set (getDependentGates (g_body (gc_gate c))). smap_get st d \<noteq> None"
  shows "rank_ok (r(nm := Suc (Max (insert 0 (r ` fst ` set st))))) (smap_put nm c st)"
proof -
  have nm: "nm \<notin> fst ` set st" using assms(2) by (simp add: smap_get_None_iff)
  have old: "d \<noteq> nm" if "smap_get st d \<noteq> None" for d using that assms(2) by auto
  have le: "r d < Suc (Max (insert 0 (r ` fst ` set st)))" if "smap_get st d \<noteq> None" for d
    using that by (auto simp: less_Suc_eq_le smap_get_None_iff intro!: Max_ge)
  show ?thesis
    unfolding rank_ok_def smap_set_put_fresh [OF assms(2)]
    using assms(1,3) old le nm by (force simp: rank_ok_def)
qed

lemma tell_gate_params: "h_params (fold tell_gate ns h) = h_params h"
proof (induction ns arbitrary: h)
  case (Cons n ns)
  have "h_params (tell_gate n h) = h_params h"
    by (cases n) (simp_all add: fl_onAdd_def fl_onRemove_def log_call_def split: option.split)
  then show ?case using Cons by simp
qed simp

lemma AddGate_params: "AddGate nm n g h = Inr h' \<Longrightarrow> h_params h' = h_params h"
  by (auto simp: AddGate_def Let_def case_prod_unfold tell_gate_params split: if_splits)

lemma AddGate_fresh: "AddGate nm n g h = Inr h' \<Longrightarrow> FindGate nm h = None"
  by (auto simp: AddGate_def split: if_splits)

lemma clone_new: "body_ok (g_body (clone (new_gate b))) = body_ok b"
  "getDependentGates (g_body (clone (new_gate b))) = getDependentGates b"
  by (cases b; simp add: clone_def new_gate_def body_ok_def getDependentGates_def)+

lemma evaluable_runs:
  assumes "evaluable h"
  shows "\<exists>k. \<forall>x e. FindGate x h \<noteq> None \<and> ev_ok e \<and> consistent (d_map (h_gates h)) (ev_abs e) \<longrightarrow>
    (\<exists>v s. gate_op k x (d_map (h_gates h), e) = Some (v, s))"
proof -
  obtain r where r: "rank_ok r (d_map (h_gates h))" "bodies_ok (d_map (h_gates h))"
    using assms unfolding evaluable_def by blast
  let ?k = "Suc (Max (insert 0 (r ` fst ` set (d_map (h_gates h)))))"
  have "\<exists>v s. gate_op ?k x (d_map (h_gates h), e) = Some (v, s)"
    if x: "FindGate x h \<noteq> None" and e: "ev_ok e" "consistent (d_map (h_gates h)) (ev_abs e)" for x e
  proof -
    have g: "smap_get (d_map (h_gates h)) x \<noteq> None" using x by (simp add: FindGate_def Lookup_def)
    then have "r x < ?k" by (auto simp: less_Suc_eq_le smap_get_None_iff intro!: Max_ge)
    from gate_evaluation_lemma [OF r e(2,1) g this] show ?thesis by blast
  qed
  then show ?thesis by blast
qed

lemma AddGate_evaluable:
  assumes "hist_ok h" "evaluable h" "sound_gate h t g" "AddGate nm n g h = Inr h'"
  shows "evaluable h'"
proof -
  obtain b where b: "g = new_gate b" "body_ok b" "\<forall>d \<in> set (getDependentGates b). FindGate d h \<noteq> None"
    using assms(3) unfolding sound_gate_def by (metis gate.select_convs(3) new_gate_def)
  let ?st = "d_map (h_gates h)" and ?c = "new_container nm n g"
  have fresh: "smap_get ?st nm = None" using AddGate_fresh [OF assms(4)] by (simp add: FindGate_def Lookup_def)
  have st': "d_map (h_gates h') = smap_put nm ?c ?st" using AddGate_ok [OF assms(1,4)] by blast
  obtain r where "rank_ok r ?st" "bodies_ok ?st" using assms(2) unfolding evaluable_def by blast
  then have "\<exists>r. rank_ok r (d_map (h_gates h'))" "bodies_ok (d_map (h_gates h'))"
    using rank_fresh [of r ?st nm ?c] fresh b
    by (auto simp: st' smap_set_put_fresh bodies_ok_def new_container_def clone_new FindGate_def Lookup_def)
  then show ?thesis
    using assms(2) AddGate_params [OF assms(4)] by (simp add: evaluable_def FindParameter_def)
qed

lemma AddGate_new_name:
  "hist_ok h \<Longrightarrow> AddGate nm n g h = Inr h' \<Longrightarrow>
   FindGate k h' = (if k = nm then Some (new_container nm n g) else FindGate k h)"
  using AddGate_ok [of h nm n g h'] by (simp add: FindGate_def Lookup_def)

lemma evaluable_new: "evaluable new_histogrammer"
  by (simp add: evaluable_def bodies_ok_def rank_ok_def FindParameter_def Lookup_def new_histogrammer_def
      createListObservers_def addSpectrumDictionaryObserver_def addGateObserver_def addObserver_def
      empty_dictionary_def)

lemma no_gates_new: "FindGate nm new_histogrammer = None" "FindGateById n new_histogrammer = None"
  by (simp_all add: FindGate_def FindGateById_def Lookup_def FindMatch_def new_histogrammer_def
      createListObservers_def addSpectrumDictionaryObserver_def addGateObserver_def addObserver_def
      empty_dictionary_def)

text \<open>A histogrammer with one gate, and the factory's negation of it.\<close>

lemma demo_gates:
  obtains h where "hist_ok h" "evaluable h" "FindGate ''t'' h = Some (new_container ''t'' 0 (new_gate CTrueGate))"
    "FindGate ''n'' h = None" "FindGateById 1 h = None" "factory_makes h Not_g (new_gate (CNot ''t''))"
proof -
  obtain h where h: "AddGate ''t'' 0 (new_gate CTrueGate) new_histogrammer = Inr h"
    by (simp add: AddGate_def no_gates_new Let_def case_prod_unfold)
  note nn = AddGate_new_name [OF new_histogrammer_ok h]
  have t: "FindGate ''t'' h = Some (new_container ''t'' 0 (new_gate CTrueGate))" "FindGate ''n'' h = None"
    by (simp_all add: nn no_gates_new)
  have ok: "hist_ok h" using AddGate_ok [OF new_histogrammer_ok h] by blast
  have "gc_number c \<noteq> 1" if "FindGate k h = Some c" for k c
    using that by (auto simp: nn no_gates_new new_container_def split: if_splits)
  then have "FindGateById 1 h = None" using find_by_number(3) [OF ok] by blast
  moreover have "factory_makes h Not_g (new_gate (CNot ''t''))"
    unfolding factory_makes_def
    by (rule disjI1, rule exI [of _ "[''t'']"]) (simp add: CreateGate_names_def CreateNotGate_def NameToGate_def t returns_gate_def)
  moreover have "evaluable h"
    by (rule AddGate_evaluable [OF new_histogrammer_ok evaluable_new constant_sound(1) h])
  ultimately show thesis using that ok t by blast
qed

subsection \<open>Properties\<close>

text \<open>
  C11. What the factory returns, by whichever of its four dispatchers.  A gate is well
  formed: its point list is long enough for its test, its parameters are in range for the mask
  gates, every gate it combines exists, it starts without a cached value, and its type string is
  that of the type asked for, except that a contour of two bands is a contour from then on and a
  deleted gate a false gate.  A gate on a vector is made for the two vector types only, on a
  vector that exists and with its limits in order.  A null pointer comes back
  only from the mask dispatcher asked for another type.
\<close>

theorem factory_gate_sound:
  assumes "evaluable h" "factory_creates h vs t c"
  shows "case c of
      Gate g \<Rightarrow> g = new_gate (g_body g) \<and> body_ok (g_body g) \<and>
        (\<forall>d \<in> set (getDependentGates (g_body g)). FindGate d h \<noteq> None) \<and>
        stringToGateType (gate_type (g_body g)) =
          Some (if t = bandcontour_g then contour_g else if t = deleted_g then falseg_g else t)
    | VectorAndGate v lo hi \<Rightarrow> t = vand_g \<and> v \<in> vs \<and> lo \<le> hi
    | VectorOrGate v lo hi \<Rightarrow> t = vor_g \<and> v \<in> vs \<and> lo \<le> hi
    | NullGate \<Rightarrow> t \<notin> {em_g, am_g, nm_g} \<and> (\<exists>ps cmp. CreateGate_mask t ps cmp h = Returns c)"
proof (cases c)
  case (Gate g)
  then show ?thesis
    using factory_sound [OF assms(1) creates_makes] assms(2) by (simp add: sound_gate_def)
next
  case (VectorAndGate v lo hi)
  then show ?thesis
    using assms(2) names_gates gamma_gates mask_gates points_gates unfolding factory_creates_def by fastforce
next
  case (VectorOrGate v lo hi)
  then show ?thesis
    using assms(2) names_gates gamma_gates mask_gates points_gates unfolding factory_creates_def by fastforce
next
  case NullGate
  then show ?thesis
    using assms(2) names_gates gamma_gates mask_gates points_gates unfolding factory_creates_def by fastforce
qed

theorem factory_gate_sound_witness:
  "(\<exists>h. FindGate ''t'' h \<noteq> None \<and> body_ok (CNot ''t'') \<and> stringToGateType (gate_type (CNot ''t'')) = Some Not_g) \<and>
   (\<exists>v lo hi. CreateGate_points vand_g [''v''] [(9, 0), (4, 0)] new_histogrammer {''v''} = Returns (VectorAndGate v lo hi) \<and>
      v = ''v'' \<and> lo \<le> hi)"
proof
  obtain h where h: "evaluable h" "factory_makes h Not_g (new_gate (CNot ''t''))" by (rule demo_gates)
  then have "\<exists>vs. factory_creates h vs Not_g (Gate (new_gate (CNot ''t'')))"
    unfolding factory_creates_def factory_makes_def by blast
  then obtain vs where "factory_creates h vs Not_g (Gate (new_gate (CNot ''t'')))" by blast
  from factory_gate_sound [OF h(1) this]
  have "body_ok (CNot ''t'') \<and> FindGate ''t'' h \<noteq> None \<and> stringToGateType (gate_type (CNot ''t'')) = Some Not_g"
    by (simp add: new_gate_def getDependentGates_def)
  then show "\<exists>h. FindGate ''t'' h \<noteq> None \<and> body_ok (CNot ''t'') \<and>
      stringToGateType (gate_type (CNot ''t'')) = Some Not_g" by blast
next
  let ?c = "VectorAndGate ''v'' (4 :: rat) 9"
  have c: "CreateGate_points vand_g [''v''] [(9, 0), (4, 0)] new_histogrammer {''v''} = Returns ?c"
    by (simp add: CreateGate_points_def CreateVectorAndGate_def getVector_def Let_def)
  then have "factory_creates new_histogrammer {''v''} vand_g ?c" unfolding factory_creates_def by blast
  from factory_gate_sound [OF evaluable_new this] c
  show "\<exists>v lo hi. CreateGate_points vand_g [''v''] [(9, 0), (4, 0)] new_histogrammer {''v''} = Returns (VectorAndGate v lo hi) \<and>
      v = ''v'' \<and> lo \<le> hi" by auto
qed

text \<open>
  C12. Adding a gate the factory made under a new name keeps every gate evaluable: some
  fuel suffices for all gates, the new one included, on every event whose cached values are
  its own.  Only replacing a gate can make evaluation diverge.
\<close>

theorem added_gate_evaluable:
  assumes "hist_ok h" "evaluable h" "factory_makes h t g" "AddGate nm n g h = Inr h'"
  shows "evaluable h' \<and> FindGate nm h' \<noteq> None \<and>
    (\<exists>k. \<forall>x e. FindGate x h' \<noteq> None \<and> ev_ok e \<and> consistent (d_map (h_gates h')) (ev_abs e) \<longrightarrow>
       (\<exists>v s. gate_op k x (d_map (h_gates h'), e) = Some (v, s)))"
proof -
  have ev: "evaluable h'" by (rule AddGate_evaluable [OF assms(1,2) factory_sound [OF assms(2,3)] assms(4)])
  then show ?thesis using evaluable_runs [OF ev] AddGate_new_name [OF assms(1,4)] by simp
qed

theorem added_gate_evaluable_witness:
  "\<exists>h h'. AddGate ''n'' 1 (new_gate (CNot ''t'')) h = Inr h' \<and> evaluable h'"
proof -
  obtain h where h: "hist_ok h" "evaluable h" "factory_makes h Not_g (new_gate (CNot ''t''))"
    "FindGate ''n'' h = None" "FindGateById 1 h = None" by (rule demo_gates)
  then obtain h' where h': "AddGate ''n'' 1 (new_gate (CNot ''t'')) h = Inr h'"
    by (simp add: AddGate_def Let_def case_prod_unfold)
  with added_gate_evaluable [OF h(1-3) h'] show ?thesis by blast
qed

end
