(* ===== verification/SpecTclApi.thy ===== *)
theory SpecTclApi
  imports GateFactory
begin

text \<open>
  The programming interface (class SpecTcl, src/main/Core/SpecTcl.cpp): its operations on
  parameters, spectra, gates and filters, over the dictionary singletons and, when the event
  sink is a histogrammer, through it (api_attached).  Then what the gate command package does
  with it (GatePackage.cpp).  A result is a value, a CDictionaryException, or ApiUndefined.
\<close>

record api =
  api_hist :: histogrammer
  api_attached :: bool
  api_nGateId :: u32
  api_filters :: "nat dictionary"

datatype 'a api_result = ApiOk 'a | ApiThrows dict_error | ApiUndefined

fun of_sum :: "dict_error + 'a \<Rightarrow> 'a api_result" where
  "of_sum (Inl e) = ApiThrows e"
| "of_sum (Inr x) = ApiOk x"

fun map_result :: "('a \<Rightarrow> 'b) \<Rightarrow> 'a api_result \<Rightarrow> 'b api_result" where
  "map_result f (ApiOk x) = ApiOk (f x)"
| "map_result f (ApiThrows e) = ApiThrows e"
| "map_result f ApiUndefined = ApiUndefined"

definition with_hist :: "api \<Rightarrow> dict_error + histogrammer \<Rightarrow> api api_result" where
  "with_hist s r = map_result (\<lambda>h. s\<lparr> api_hist := h \<rparr>) (of_sum r)"

subsection \<open>Parameters\<close>

fun assign_loop :: "u32 \<Rightarrow> u32 list \<Rightarrow> u32" where
  "assign_loop i [] = i"
| "assign_loop i (x # xs) = (if i \<noteq> x then i else assign_loop (i + 1) xs)"

definition AssignParameterId :: "api \<Rightarrow> u32" where
  "AssignParameterId s = assign_loop 0 (sort (map (pa_number \<circ> snd) (d_map (h_params (api_hist s)))))"

definition api_FindParameter :: "string \<Rightarrow> api \<Rightarrow> parameter option" where
  "api_FindParameter nm s = Lookup (h_params (api_hist s)) nm"

definition api_FindParameterById :: "u32 \<Rightarrow> api \<Rightarrow> parameter option" where
  "api_FindParameterById n s =
     map_option snd (FindMatch (\<lambda>i. pa_number (snd i) = n) (h_params (api_hist s)))"

text \<open>The three AddParameter overloads differ in the parameter they build.\<close>

definition api_enter_parameter :: "string \<Rightarrow> parameter \<Rightarrow> api \<Rightarrow> api api_result" where
  "api_enter_parameter nm p s =
     (if api_FindParameter nm s \<noteq> None then ApiThrows (DuplicateKey nm)
      else if api_FindParameterById (pa_number p) s \<noteq> None then ApiThrows (DuplicateId (pa_number p))
      else let (d, ns) = Enter nm p (h_params (api_hist s))
           in ApiOk (s\<lparr> api_hist := fold tell_parameter ns ((api_hist s)\<lparr> h_params := d \<rparr>) \<rparr>))"

definition api_AddParameter :: "string \<Rightarrow> u32 \<Rightarrow> string \<Rightarrow> api \<Rightarrow> api api_result" where
  "api_AddParameter nm n units s = api_enter_parameter nm
     \<lparr> pa_name = nm, pa_number = n, pa_scale = 0, pa_low = 0, pa_high = 0,
       pa_units = units, pa_scaled = False \<rparr> s"

definition api_AddParameter_scaled :: "string \<Rightarrow> u32 \<Rightarrow> u32 \<Rightarrow> api \<Rightarrow> api api_result" where
  "api_AddParameter_scaled nm n scale s = api_enter_parameter nm
     \<lparr> pa_name = nm, pa_number = n, pa_scale = scale, pa_low = 0, pa_high = 0,
       pa_units = [], pa_scaled = True \<rparr> s"

definition api_AddParameter_mapped ::
  "string \<Rightarrow> u32 \<Rightarrow> u32 \<Rightarrow> rat \<Rightarrow> rat \<Rightarrow> string \<Rightarrow> api \<Rightarrow> api api_result" where
  "api_AddParameter_mapped nm n scale low high units s = api_enter_parameter nm
     \<lparr> pa_name = nm, pa_number = n, pa_scale = scale, pa_low = low, pa_high = high,
       pa_units = units, pa_scaled = True \<rparr> s"

text \<open>
  The pointer RemoveParameter returns is to the erased node; only whether it is null can
  be used.
\<close>

definition api_RemoveParameter :: "string \<Rightarrow> api \<Rightarrow> api \<times> bool" where
  "api_RemoveParameter nm s = (case api_FindParameter nm s of
      None \<Rightarrow> (s, False)
    | Some p \<Rightarrow> (case Remove nm (h_params (api_hist s)) of
         None \<Rightarrow> (s, True)
       | Some (d, ns) \<Rightarrow>
           (s\<lparr> api_hist := fold tell_parameter ns ((api_hist s)\<lparr> h_params := d \<rparr>) \<rparr>, True)))"

fun parameterIds :: "string list \<Rightarrow> api \<Rightarrow> u32 list option" where
  "parameterIds [] s = Some []"
| "parameterIds (nm # nms) s = (case api_FindParameter nm s of
      None \<Rightarrow> None
    | Some p \<Rightarrow> map_option (\<lambda>ids. pa_number p # ids) (parameterIds nms s))"

subsection \<open>Spectra\<close>

definition api_AddSpectrum :: "spectrum \<Rightarrow> api \<Rightarrow> api api_result" where
  "api_AddSpectrum sp s =
     (if api_attached s then with_hist s (AddSpectrum sp (api_hist s))
      else let (d, ns) = Enter (sp_name sp) sp (h_spectra (api_hist s))
           in ApiOk (s\<lparr> api_hist := fold tell_spectrum ns ((api_hist s)\<lparr> h_spectra := d \<rparr>) \<rparr>))"

definition api_RemoveSpectrum :: "string \<Rightarrow> api \<Rightarrow> api \<times> spectrum option" where
  "api_RemoveSpectrum nm s =
     (let (h, sp) = RemoveSpectrum nm (api_hist s) in (s\<lparr> api_hist := h \<rparr>, sp))"

definition api_FindSpectrum :: "string \<Rightarrow> api \<Rightarrow> spectrum option" where
  "api_FindSpectrum nm s =
     (if api_attached s then FindSpectrum nm (api_hist s) else Lookup (h_spectra (api_hist s)) nm)"

text \<open>The predicate without a histogrammer assigns the number to its copy of the id.\<close>

definition api_FindSpectrumById :: "u32 \<Rightarrow> api \<Rightarrow> spectrum option" where
  "api_FindSpectrumById n s =
     (if api_attached s then FindSpectrumById n (api_hist s)
      else map_option snd (FindMatch (\<lambda>i. sp_number (snd i) \<noteq> 0) (h_spectra (api_hist s))))"

definition api_ClearSpectrum :: "string \<Rightarrow> api \<Rightarrow> api api_result" where
  "api_ClearSpectrum nm s =
     (if api_attached s then with_hist s (ClearSpectrum nm (api_hist s)) else ApiOk s)"

definition api_ClearAllSpectra :: "api \<Rightarrow> api" where
  "api_ClearAllSpectra s =
     (if api_attached s then s\<lparr> api_hist := ClearAllSpectra (api_hist s) \<rparr> else s)"

definition api_addSpectrumDictionaryObserver :: "obs_id \<Rightarrow> api \<Rightarrow> api" where
  "api_addSpectrumDictionaryObserver ob s =
     (if api_attached s then s\<lparr> api_hist := addSpectrumDictionaryObserver ob (api_hist s) \<rparr> else s)"

definition api_removeSpectrumDictionaryObserver :: "obs_id \<Rightarrow> api \<Rightarrow> api" where
  "api_removeSpectrumDictionaryObserver ob s =
     (if api_attached s then s\<lparr> api_hist := removeSpectrumDictionaryObserver ob (api_hist s) \<rparr> else s)"

subsection \<open>Gates\<close>

definition api_FindGate :: "string \<Rightarrow> api \<Rightarrow> container option" where
  "api_FindGate nm s = Lookup (h_gates (api_hist s)) nm"

definition api_FindGateById :: "u32 \<Rightarrow> api \<Rightarrow> container option" where
  "api_FindGateById n s = find_if (\<lambda>c. gc_number c = n) (map snd (d_map (h_gates (api_hist s))))"

text \<open>The number is used up even when the histogrammer then refuses the gate.\<close>

definition AssignId :: "api \<Rightarrow> u32 \<times> api" where
  "AssignId s = (api_nGateId s, s\<lparr> api_nGateId := api_nGateId s + 1 \<rparr>)"

definition api_AddGate :: "string \<Rightarrow> gate \<Rightarrow> api \<Rightarrow> api \<times> unit api_result" where
  "api_AddGate nm g s =
     (if api_FindGate nm s \<noteq> None then (s, ApiThrows (DuplicateKey nm))
      else let (n, s') = AssignId s
           in if api_attached s'
              then (case AddGate nm n g (api_hist s') of
                      Inl e \<Rightarrow> (s', ApiThrows e)
                    | Inr h \<Rightarrow> (s'\<lparr> api_hist := h \<rparr>, ApiOk ()))
              else let c = new_container nm n g;
                       (d, ns) = Enter nm (setGate (gc_gate c) c) (h_gates (api_hist s'))
                   in (s'\<lparr> api_hist := fold tell_gate ns ((api_hist s')\<lparr> h_gates := d \<rparr>) \<rparr>, ApiOk ()))"

definition api_ReplaceGate :: "string \<Rightarrow> gate \<Rightarrow> api \<Rightarrow> api api_result" where
  "api_ReplaceGate nm g s = (case api_FindGate nm s of
      None \<Rightarrow> ApiThrows (NoSuchKey nm)
    | Some c \<Rightarrow>
        (if api_attached s then with_hist s (ReplaceGate nm g (api_hist s))
         else ApiOk (s\<lparr> api_hist := (api_hist s)\<lparr> h_gates := (h_gates (api_hist s))\<lparr>
                d_map := smap_put nm (setGate g c) (d_map (h_gates (api_hist s))) \<rparr> \<rparr> \<rparr>)))"

definition api_DeleteGate :: "string \<Rightarrow> api \<Rightarrow> api api_result" where
  "api_DeleteGate nm s = api_ReplaceGate nm (new_gate CFalseGate) s"

definition api_ApplyGate :: "string \<Rightarrow> string \<Rightarrow> api \<Rightarrow> api api_result" where
  "api_ApplyGate g sp s =
     (if api_attached s then with_hist s (h_ApplyGate g sp (api_hist s))
      else (case api_FindGate g s of
              None \<Rightarrow> ApiThrows (NoSuchKey g)
            | Some c \<Rightarrow> (case api_FindSpectrum sp s of
                 None \<Rightarrow> ApiThrows (NoSuchKey sp)
               | Some p \<Rightarrow> ApiOk (s\<lparr> api_hist := apply_to sp (GateNode g) p (api_hist s) \<rparr>))))"

text \<open>Without a histogrammer the exception for an unknown spectrum is built but not thrown.\<close>

definition api_UnGate :: "string \<Rightarrow> api \<Rightarrow> api api_result" where
  "api_UnGate sp s =
     (if api_attached s then with_hist s (UnGate sp (api_hist s))
      else (case api_FindSpectrum sp s of
              None \<Rightarrow> ApiUndefined
            | Some p \<Rightarrow> ApiOk (s\<lparr> api_hist := apply_to sp NoGate p (api_hist s) \<rparr>)))"

text \<open>
  CGateFactory's creator for a condition on alternate parameters: one cut per x (or y)
  parameter is added under a derived name, then their or-gate is made.  A failure leaves the
  cuts added so far.
\<close>

fun add_component_cuts :: "string \<Rightarrow> string list \<Rightarrow> rat \<Rightarrow> rat \<Rightarrow> api \<Rightarrow>
    api \<times> (string list outcome + dict_error)" where
  "add_component_cuts final [] lo hi s = (s, Inl (Returns []))"
| "add_component_cuts final (p # ps) lo hi s = (case CreateCut p lo hi (api_hist s) of
      Returns (Gate g) \<Rightarrow>
        (let nm = final @ ''_'' @ p; (s', r) = api_AddGate nm g s
         in case r of
              ApiOk _ \<Rightarrow>
                (let (s'', names) = add_component_cuts final (drop 1 ps) lo hi s'
                 in (s'', case names of Inl out \<Rightarrow> Inl (bind_outcome out (\<lambda>ns. Returns (nm # ns))) | Inr e \<Rightarrow> Inr e))
            | ApiThrows e \<Rightarrow> (s', Inr e)
            | ApiUndefined \<Rightarrow> (s', Inl Undefined))
    | Throws r t \<Rightarrow> (s, Inl (Throws r t))
    | _ \<Rightarrow> (s, Inl Undefined))"

definition CreateOrGate_components ::
  "string \<Rightarrow> bool \<Rightarrow> string list \<Rightarrow> fpoint list \<Rightarrow> api \<Rightarrow> api \<times> (creation outcome + dict_error)" where
  "CreateOrGate_components final x ps pts s =
     (let picked = (if x then ps else drop 1 ps)
      in if picked \<noteq> [] \<and> length pts < 2 then (s, Inl Undefined)
         else let (s', r) = add_component_cuts final picked (fst (pts ! 0)) (fst (pts ! 1)) s
              in (s', case r of Inl out \<Rightarrow> Inl (bind_outcome out (\<lambda>ns. CreateOrGate ns (api_hist s'))) | Inr e \<Rightarrow> Inr e))"

text \<open>The creators that take parameter names for gamma gates.\<close>

definition api_CreateGammaCut :: "rat \<Rightarrow> rat \<Rightarrow> string list \<Rightarrow> api \<Rightarrow> creation outcome" where
  "api_CreateGammaCut lo hi ps s = (case parameterIds ps s of
      None \<Rightarrow> Throws NoSuchParameter gammacut_g
    | Some ids \<Rightarrow> CreateGammaCut lo hi ids)"

definition api_CreateGammaBand :: "fpoint list \<Rightarrow> string list \<Rightarrow> api \<Rightarrow> creation outcome" where
  "api_CreateGammaBand pts ps s = (case parameterIds ps s of
      None \<Rightarrow> Throws NoSuchParameter gammaband_g
    | Some ids \<Rightarrow> CreateGammaBand pts ids)"

definition api_CreateGammaContour :: "fpoint list \<Rightarrow> string list \<Rightarrow> api \<Rightarrow> creation outcome" where
  "api_CreateGammaContour pts ps s = (case parameterIds ps s of
      None \<Rightarrow> Throws NoSuchParameter gammacontour_g
    | Some ids \<Rightarrow> CreateGammaContour pts ids)"

subsection \<open>Filters\<close>

text \<open>Filters are identities; the filter dictionary has no observers of interest.\<close>

definition findFilter :: "string \<Rightarrow> api \<Rightarrow> nat option" where
  "findFilter nm s = Lookup (api_filters s) nm"

definition createFilter :: "string \<Rightarrow> nat \<Rightarrow> api \<Rightarrow> api api_result" where
  "createFilter nm f s =
     (if findFilter nm s \<noteq> None then ApiThrows (DuplicateKey nm)
      else ApiOk (s\<lparr> api_filters := fst (Enter nm f (api_filters s)) \<rparr>))"

fun filter_in :: "nat \<Rightarrow> (string \<times> nat) list \<Rightarrow> bool" where
  "filter_in f [] = False"
| "filter_in f (p # ps) = (if snd p = f then True else filter_in f ps)"

definition filterExists :: "nat \<Rightarrow> api \<Rightarrow> bool" where
  "filterExists f s = filter_in f (d_map (api_filters s))"

text \<open>The loop of deleteFilter does not advance its iterator; k bounds its rounds.\<close>

fun deleteFilter_loop :: "nat \<Rightarrow> nat \<Rightarrow> (string \<times> nat) list \<Rightarrow> api \<Rightarrow> api option" where
  "deleteFilter_loop 0 f ps s = None"
| "deleteFilter_loop (Suc k) f [] s = Some s"
| "deleteFilter_loop (Suc k) f (p # ps) s =
     (if snd p = f
      then map_option (\<lambda>(d, ns). s\<lparr> api_filters := d \<rparr>) (Remove (fst p) (api_filters s))
      else deleteFilter_loop k f (p # ps) s)"

definition deleteFilter :: "nat \<Rightarrow> nat \<Rightarrow> api \<Rightarrow> api option" where
  "deleteFilter k f s = deleteFilter_loop k f (d_map (api_filters s)) s"

definition deleteFilter_name :: "string \<Rightarrow> api \<Rightarrow> api api_result" where
  "deleteFilter_name nm s = (case Remove nm (api_filters s) of
      None \<Rightarrow> ApiUndefined
    | Some (d, ns) \<Rightarrow> ApiOk (s\<lparr> api_filters := d \<rparr>))"

subsection \<open>The gate package\<close>

text \<open>CGatePackage::AddGate: replace, and if that throws anything at all, add.\<close>

definition package_AddGate :: "string \<Rightarrow> gate \<Rightarrow> api \<Rightarrow> api \<times> bool" where
  "package_AddGate nm g s = (case api_ReplaceGate nm g s of
      ApiOk s' \<Rightarrow> (s', True)
    | _ \<Rightarrow> (case api_AddGate nm g s of (s', r) \<Rightarrow> (s', r = ApiOk ())))"

fun package_DeleteGates :: "string list \<Rightarrow> api \<Rightarrow> api \<times> string list" where
  "package_DeleteGates [] s = (s, [])"
| "package_DeleteGates (nm # nms) s = (case api_DeleteGate nm s of
      ApiOk s' \<Rightarrow> package_DeleteGates nms s'
    | _ \<Rightarrow> (case package_DeleteGates nms s of (s', failed) \<Rightarrow> (s', nm # failed)))"

text \<open>By number: the names of the gates that exist, then as above.\<close>

definition package_DeleteGates_ids :: "u32 list \<Rightarrow> api \<Rightarrow> api \<times> bool" where
  "package_DeleteGates_ids ids s =
     (let found = List.map_filter (\<lambda>n. map_option gc_name (api_FindGateById n s)) ids;
          nFailed = length (filter (\<lambda>n. api_FindGateById n s = None) ids);
          (s', failed) = package_DeleteGates found s
      in (s', failed = [] \<and> nFailed = 0))"

subsection \<open>Numbers\<close>

lemma assign_loop_mex:
  "sorted_wrt (<) ys \<Longrightarrow> \<forall>y \<in> set ys. i \<le> y \<Longrightarrow> unat i + length ys < 2 ^ 32 \<Longrightarrow>
   i \<le> assign_loop i ys \<and> assign_loop i ys \<notin> set ys \<and> (\<forall>m. i \<le> m \<and> m < assign_loop i ys \<longrightarrow> m \<in> set ys)"
proof (induction ys arbitrary: i)
  case (Cons x ys)
  show ?case
  proof (cases "i = x")
    case True
    have i1: "unat (i + 1) = unat i + 1"
      using Cons.prems(3) by (simp add: unat_word_ariths)
    have "\<forall>y \<in> set ys. i + 1 \<le> y"
      using Cons.prems(1) True i1 by (auto simp: word_le_nat_alt word_less_nat_alt)
    then have IH: "i + 1 \<le> assign_loop (i + 1) ys" "assign_loop (i + 1) ys \<notin> set ys"
      "\<forall>m. i + 1 \<le> m \<and> m < assign_loop (i + 1) ys \<longrightarrow> m \<in> set ys"
      using Cons.IH [of "i + 1"] Cons.prems i1 by auto
    have "i < assign_loop (i + 1) ys" using IH(1) i1 by (simp add: word_le_nat_alt word_less_nat_alt)
    moreover have "m = i \<or> i + 1 \<le> m" if "i \<le> m" for m
      using that i1 by (auto simp: word_le_nat_alt word_unat_eq_iff)
    ultimately show ?thesis using IH True by auto
  qed (use Cons.prems in auto)
qed (auto simp: not_less [symmetric])

lemma distinct_numbers:
  "smap_ok m \<Longrightarrow> unique_numbers num m \<Longrightarrow> distinct (map (num \<circ> snd) m)"
  unfolding distinct_map
proof
  assume ok: "smap_ok m" and u: "unique_numbers num m"
  show "distinct m" using ok distinct_map [of fst m] by (simp add: smap_ok_def strict_sorted_iff)
  show "inj_on (num \<circ> snd) (set m)"
  proof (rule inj_onI, goal_cases)
    case (1 x y)
    then have "smap_get m (fst x) = Some (snd x)" "smap_get m (fst y) = Some (snd y)"
      using smap_in_set_iff [OF ok] by (metis prod.collapse)+
    then show ?case using u 1 by (metis comp_apply option.inject prod_eqI unique_numbers_def)
  qed
qed

lemma AssignParameterId_mex:
  assumes "hist_ok (api_hist s)" "length (d_map (h_params (api_hist s))) < 2 ^ 32"
  shows "AssignParameterId s \<notin> pa_number ` snd ` set (d_map (h_params (api_hist s)))"
    "m < AssignParameterId s \<Longrightarrow> m \<in> pa_number ` snd ` set (d_map (h_params (api_hist s)))"
proof -
  let ?ns = "map (pa_number \<circ> snd) (d_map (h_params (api_hist s)))"
  have "distinct ?ns"
    using assms(1) by (intro distinct_numbers) (simp_all add: hist_ok_defs dict_ok_def)
  then have "sorted_wrt (<) (sort ?ns)" by (simp add: strict_sorted_iff)
  then have "assign_loop 0 (sort ?ns) \<notin> set (sort ?ns) \<and>
      (\<forall>m. 0 \<le> m \<and> m < assign_loop 0 (sort ?ns) \<longrightarrow> m \<in> set (sort ?ns))"
    using assms(2) assign_loop_mex [of "sort ?ns" 0] by simp
  then show "AssignParameterId s \<notin> pa_number ` snd ` set (d_map (h_params (api_hist s)))"
    "m < AssignParameterId s \<Longrightarrow> m \<in> pa_number ` snd ` set (d_map (h_params (api_hist s)))"
    by (auto simp: AssignParameterId_def image_comp)
qed

lemma api_FindParameterById_iff:
  "hist_ok (api_hist s) \<Longrightarrow>
   api_FindParameterById n s \<noteq> None \<longleftrightarrow> n \<in> pa_number ` snd ` set (d_map (h_params (api_hist s)))"
  by (force simp: api_FindParameterById_def FindMatch_def)

subsection \<open>Through the histogrammer\<close>

lemma api_ReplaceGate_attached:
  "api_attached s \<Longrightarrow> api_ReplaceGate nm g s = with_hist s (ReplaceGate nm g (api_hist s))"
  by (auto simp: api_ReplaceGate_def api_FindGate_def ReplaceGate_def FindGate_def with_hist_def split: option.splits)

lemma ReplaceGate_deleted: "ReplaceGate nm (new_gate CFalseGate) h = DeleteGate nm h"
  by (auto simp: ReplaceGate_def DeleteGate_def setGate_def clone_def new_gate_def Let_def split: option.splits)

definition ids_below :: "api \<Rightarrow> bool" where
  "ids_below s \<longleftrightarrow> (\<forall>nm c. FindGate nm (api_hist s) = Some c \<longrightarrow> gc_number c < api_nGateId s)"

lemma AddGate_fresh_number:
  assumes "hist_ok h" "FindGate nm h = None" "\<forall>k c. FindGate k h = Some c \<longrightarrow> gc_number c \<noteq> n"
  obtains h' where "AddGate nm n g h = Inr h'"
proof -
  have "FindGateById n h = None" using find_by_number(3) [OF assms(1)] assms(3) by blast
  then show thesis using assms(2) that by (simp add: AddGate_def Let_def case_prod_unfold)
qed

lemma less_succ: "(n :: u32) \<noteq> - 1 \<Longrightarrow> n < n + 1"
proof -
  assume "n \<noteq> - 1"
  then have "unat n \<noteq> 2 ^ 32 - 1"
    by (simp add: word_unat_eq_iff unsigned_minus_1_eq_mask mask_eq_exp_minus_1)
  moreover have "unat n < 2 ^ LENGTH(32)" by (rule unsigned_less)
  ultimately have "unat n + 1 < 2 ^ 32" by simp
  then show ?thesis by (simp add: word_less_nat_alt unat_word_ariths)
qed

lemma api_AddGate_attached:
  assumes "hist_ok (api_hist s)" "api_attached s" "ids_below s" "api_nGateId s \<noteq> - 1"
    "FindGate nm (api_hist s) = None"
  obtains h where "api_AddGate nm g s = (s\<lparr> api_nGateId := api_nGateId s + 1, api_hist := h \<rparr>, ApiOk ())"
    "hist_ok h" "ids_below (s\<lparr> api_nGateId := api_nGateId s + 1, api_hist := h \<rparr>)"
    "FindGate nm h = Some (new_container nm (api_nGateId s) g)"
proof -
  obtain h where h: "AddGate nm (api_nGateId s) g (api_hist s) = Inr h"
    using AddGate_fresh_number [OF assms(1,5), of "api_nGateId s"] assms(3) unfolding ids_below_def
    by (metis less_irrefl)
  have lt: "api_nGateId s < api_nGateId s + 1"
    by (rule less_succ [OF assms(4)])
  have "ids_below (s\<lparr> api_nGateId := api_nGateId s + 1, api_hist := h \<rparr>)"
    using assms(3) lt by (auto simp: ids_below_def AddGate_new_name [OF assms(1) h] new_container_def
        dest: less_trans)
  then show thesis
    using that [of h] h assms(2,5) AddGate_ok [OF assms(1) h] AddGate_new_name [OF assms(1) h]
    by (simp add: api_AddGate_def AssignId_def api_FindGate_def FindGate_def)
qed

lemma ReplaceGate_find:
  assumes "hist_ok h" "ReplaceGate nm g h = Inr h'"
  shows "hist_ok h'" "\<exists>c. FindGate nm h = Some c \<and> FindGate nm h' = Some (setGate g c)"
    "k \<noteq> nm \<Longrightarrow> FindGate k h' = FindGate k h"
  using ReplaceGate_ok [OF assms] by (auto simp: FindGate_def Lookup_def)

lemma package_AddGate_attached:
  assumes "hist_ok (api_hist s)" "api_attached s" "ids_below s" "api_nGateId s \<noteq> - 1"
  obtains s' where "package_AddGate nm g s = (s', True)" "hist_ok (api_hist s')" "ids_below s'"
    "map_option (g_body \<circ> gc_gate) (FindGate nm (api_hist s')) = Some (g_body (clone g))"
    "\<And>n. map_option gc_number (FindGate nm (api_hist s)) = Some n \<Longrightarrow>
       map_option gc_number (FindGate nm (api_hist s')) = Some n"
proof (cases "FindGate nm (api_hist s)")
  case None
  have r: "api_ReplaceGate nm g s = ApiThrows (NoSuchKey nm)"
    using None by (simp add: api_ReplaceGate_def api_FindGate_def FindGate_def)
  obtain h where h: "api_AddGate nm g s = (s\<lparr> api_nGateId := api_nGateId s + 1, api_hist := h \<rparr>, ApiOk ())"
    "hist_ok h" "ids_below (s\<lparr> api_nGateId := api_nGateId s + 1, api_hist := h \<rparr>)"
    "FindGate nm h = Some (new_container nm (api_nGateId s) g)"
    using api_AddGate_attached [OF assms None, of g] by blast
  then show ?thesis
    using None r that [of "s\<lparr> api_nGateId := api_nGateId s + 1, api_hist := h \<rparr>"]
    by (simp add: package_AddGate_def new_container_def)
next
  case (Some c)
  obtain h where h: "ReplaceGate nm g (api_hist s) = Inr h"
    using Some by (simp add: ReplaceGate_def Let_def)
  note f = ReplaceGate_find [OF assms(1) h]
  have nm: "FindGate nm h = Some (setGate g c)" using f(2) Some by auto
  have "ids_below (s\<lparr> api_hist := h \<rparr>)"
    unfolding ids_below_def
  proof (intro allI impI)
    fix k d assume "FindGate k (api_hist (s\<lparr>api_hist := h\<rparr>)) = Some d"
    then show "gc_number d < api_nGateId (s\<lparr>api_hist := h\<rparr>)"
      using assms(3) nm f(3) [of k] Some by (cases "k = nm") (auto simp: ids_below_def setGate_def)
  qed
  then show ?thesis
    using that [of "s\<lparr> api_hist := h \<rparr>"] h f(1) nm Some
    by (simp add: package_AddGate_def api_ReplaceGate_attached [OF assms(2)] with_hist_def setGate_def)
qed

lemma api_enter_parameter_same:
  assumes "hist_ok (api_hist s)"
  shows "api_enter_parameter nm p s = with_hist s (enter_parameter nm p (api_hist s))"
proof -
  have "pa_name p = nm" if "Lookup (h_params (api_hist s)) nm = Some p" for p
    using hist_ok_dicts(4) [OF assms that] .
  then show ?thesis
    by (auto simp: api_enter_parameter_def enter_parameter_def api_FindParameter_def FindParameter_def
        api_FindParameterById_def FindParameterById_def with_hist_def Let_def split: option.splits prod.splits)
qed

text \<open>Entering a parameter with a free name and number.\<close>

lemma api_enter_parameter_fresh:
  assumes "hist_ok (api_hist s)" "pa_name p = nm" "api_FindParameter nm s = None"
    "api_FindParameterById (pa_number p) s = None"
  obtains h where "api_enter_parameter nm p s = ApiOk (s\<lparr> api_hist := h \<rparr>)" "hist_ok h"
    "\<And>k. FindParameter k h = (if k = nm then Some p else FindParameter k (api_hist s))"
proof -
  obtain h where "enter_parameter nm p (api_hist s) = Inr h"
    using assms(3,4) by (simp add: enter_parameter_def FindParameter_def api_FindParameter_def
        FindParameterById_def api_FindParameterById_def Let_def case_prod_unfold)
  then show thesis
    using that [of h] api_enter_parameter_same [OF assms(1)] enter_parameter_ok [OF assms(1,2)] enter_parameter_map
    by (simp add: with_hist_def)
qed

subsection \<open>Properties\<close>

text \<open>The number assigned is the least one free.\<close>

lemma AssignParameterId_least_free:
  assumes "hist_ok (api_hist s)" "length (d_map (h_params (api_hist s))) < 2 ^ 32"
  shows "api_FindParameterById (AssignParameterId s) s = None \<and>
    (\<forall>m. m < AssignParameterId s \<longrightarrow> api_FindParameterById m s \<noteq> None)"
  using AssignParameterId_mex [OF assms] api_FindParameterById_iff [OF assms(1)] by blast

definition new_api :: api where
  "new_api = \<lparr> api_hist = new_histogrammer, api_attached = True, api_nGateId = 0, api_filters = empty_dictionary \<rparr>"

lemma new_api_facts:
  "hist_ok (api_hist new_api)" "api_attached new_api" "ids_below new_api" "api_nGateId new_api \<noteq> - 1"
  "d_map (h_params (api_hist new_api)) = []"
  by (simp_all add: new_api_def new_histogrammer_ok ids_below_def no_gates_new)
    (simp add: new_histogrammer_def createListObservers_def addSpectrumDictionaryObserver_def addGateObserver_def
      addObserver_def empty_dictionary_def)


text \<open>
  Adding parameters through the API and through the histogrammer is the same
  operation: same checks in the same order, same exception, same state.
\<close>

theorem api_parameter_same:
  assumes "hist_ok (api_hist s)"
  shows "api_AddParameter nm n u s = with_hist s (AddParameter nm n (Some u) (api_hist s)) \<and>
    api_AddParameter_scaled nm n sc s = with_hist s (AddParameter_scaled nm n sc (api_hist s)) \<and>
    api_AddParameter_mapped nm n sc lo hi u s = with_hist s (AddParameter_mapped nm n sc lo hi u (api_hist s))"
  using api_enter_parameter_same [OF assms]
  by (simp add: api_AddParameter_def AddParameter_def api_AddParameter_scaled_def AddParameter_scaled_def
      api_AddParameter_mapped_def AddParameter_mapped_def)

theorem api_parameter_same_witness:
  "api_AddParameter ''p'' 3 ''mm'' new_api = with_hist new_api (AddParameter ''p'' 3 (Some ''mm'') new_histogrammer)"
  using api_parameter_same [OF new_api_facts(1)] by (simp add: new_api_def)

text \<open>The API's deletion is the histogrammer's.\<close>

lemma api_DeleteGate_same:
  assumes "api_attached s"
  shows "api_DeleteGate nm s = with_hist s (DeleteGate nm (api_hist s))"
  by (simp add: api_DeleteGate_def api_ReplaceGate_attached [OF assms] ReplaceGate_deleted)


text \<open>
  C13. The gate command never fails to install a gate: while numbers are left,
  it replaces the gate of that name, which keeps its number, or adds one with a number
  no other gate has; the name then evaluates a clone of the new gate.
\<close>

theorem package_AddGate_total:
  assumes "hist_ok (api_hist s)" "api_attached s" "ids_below s" "api_nGateId s \<noteq> - 1"
  shows "\<exists>s'. package_AddGate nm g s = (s', True) \<and> hist_ok (api_hist s') \<and> ids_below s' \<and>
    map_option (g_body \<circ> gc_gate) (FindGate nm (api_hist s')) = Some (g_body (clone g)) \<and>
    (\<forall>n. map_option gc_number (FindGate nm (api_hist s)) = Some n \<longrightarrow>
       map_option gc_number (FindGate nm (api_hist s')) = Some n)"
  using package_AddGate_attached [OF assms, of nm g] by metis

theorem package_AddGate_total_witness:
  "\<exists>s'. package_AddGate ''g'' (new_gate CTrueGate) new_api = (s', True) \<and> ids_below s'"
  using package_AddGate_total [OF new_api_facts(1-4), of "''g''" "new_gate CTrueGate"] by blast

text \<open>A user can make a gate that depends on itself, and evaluating it never returns.\<close>

lemma cyclic_gate_accepted:
  assumes "hist_ok (api_hist s)" "api_attached s" "ids_below s" "api_nGateId s \<noteq> - 1"
    "FindGate nm (api_hist s) \<noteq> None"
  shows "\<exists>g s'. CreateGate_names And_g [nm] (api_hist s) = Returns (Gate g) \<and>
    package_AddGate nm g s = (s', True) \<and>
    (\<forall>k e. gate_op k nm (d_map (h_gates (api_hist s')), e) = None)"
proof -
  let ?g = "new_gate (CAndGate [nm])"
  have mk: "CreateGate_names And_g [nm] (api_hist s) = Returns (Gate ?g)"
    using assms(5) by (simp add: CreateGate_names_def CreateAndGate_def CreateGateList_outcome returns_gate_def)
  obtain c where c: "FindGate nm (api_hist s) = Some c" using assms(5) by blast
  obtain h where h: "ReplaceGate nm ?g (api_hist s) = Inr h" using c by (simp add: ReplaceGate_def Let_def)
  have "FindGate nm h = Some (setGate ?g c)" using ReplaceGate_find(2) [OF assms(1) h] c by auto
  then have "gate_op k nm (d_map (h_gates h), e) = None" for k e
    by (intro self_dependent_lemma [of _ _ "setGate ?g c"])
      (simp_all add: FindGate_def Lookup_def setGate_def clone_def new_gate_def)
  moreover have "package_AddGate nm ?g s = (s\<lparr> api_hist := h \<rparr>, True)"
    by (simp add: package_AddGate_def api_ReplaceGate_attached [OF assms(2)] with_hist_def h)
  ultimately show ?thesis using mk by force
qed


text \<open>Deleting a filter by pointer returns only when there is none or the filter is the first.\<close>

lemma deleteFilter_returns:
  "(\<exists>k. deleteFilter k f s \<noteq> None) \<longleftrightarrow>
     (case d_map (api_filters s) of [] \<Rightarrow> True | p # ps \<Rightarrow> snd p = f)"
proof (cases "d_map (api_filters s)")
  case Nil
  then show ?thesis by (auto simp: deleteFilter_def intro: exI [of _ 1])
next
  case (Cons p ps)
  show ?thesis
  proof (cases "snd p = f")
    case True
    then have "deleteFilter 1 f s \<noteq> None"
      using Cons by (cases p) (simp add: deleteFilter_def Remove_def Lookup_def)
    then show ?thesis using Cons True by auto
  next
    case False
    then have "deleteFilter_loop k f (p # ps) s = None" for k
      by (induction k) auto
    then show ?thesis using Cons False by (simp add: deleteFilter_def)
  qed
qed

end
