(* ===== verification/FoldCommand.thy ===== *)
theory FoldCommand
  imports SpecTclApi
begin

text \<open>
  The fold command (src/main/Core/CFoldCommand.cpp): applying a gamma gate as the fold of a
  list of gamma spectra, taking a fold off, and listing them.  An error is the reason the
  command's result string gives; Tcl's string match is an argument.
\<close>

datatype fold_error =
    FoldUsage
  | NoFoldGate string
  | NotGammaGate string
  | BadSpectra "string list"
  | NoFoldSpectrum string
  | NotGammaSpectrum string

text \<open>Spectra that do not exist or are not gamma spectra, and the others, in order.\<close>

fun sort_spectra :: "string list \<Rightarrow> api \<Rightarrow> string list \<times> string list" where
  "sort_spectra [] s = ([], [])"
| "sort_spectra (nm # nms) s =
     (let (bad, good) = sort_spectra nms s
      in case api_FindSpectrum nm s of
           None \<Rightarrow> (nm # bad, good)
         | Some sp \<Rightarrow> if isGammaSpectrum (sp_kind sp) then (bad, nm # good) else (nm # bad, good))"

definition fold_all :: "string list \<Rightarrow> gate_ptr \<Rightarrow> api \<Rightarrow> api" where
  "fold_all nms g s = s\<lparr> api_hist := fold (\<lambda>nm. fold_spectrum nm g) nms (api_hist s) \<rparr>"

definition applyFold :: "string list \<Rightarrow> api \<Rightarrow> api \<times> fold_error option" where
  "applyFold args s = (case args of
      [] \<Rightarrow> (s, Some FoldUsage)
    | [gateName] \<Rightarrow> (s, Some FoldUsage)
    | gateName # spectrumNames \<Rightarrow>
       (case api_FindGate gateName s of
          None \<Rightarrow> (s, Some (NoFoldGate gateName))
        | Some c \<Rightarrow>
            if \<not> isGammagate (g_body (gc_gate c)) then (s, Some (NotGammaGate gateName))
            else (let (bad, good) = sort_spectra spectrumNames s
                  in if bad \<noteq> [] then (s, Some (BadSpectra bad))
                     else (fold_all good (GateNode gateName) s, None))))"

definition removeFold :: "string list \<Rightarrow> api \<Rightarrow> api \<times> fold_error option" where
  "removeFold args s = (case args of
      [nm] \<Rightarrow> (case api_FindSpectrum nm s of
          None \<Rightarrow> (s, Some (NoFoldSpectrum nm))
        | Some sp \<Rightarrow>
            if \<not> isGammaSpectrum (sp_kind sp) then (s, Some (NotGammaSpectrum nm))
            else (fold_all [nm] DefaultGate s, None))
    | _ \<Rightarrow> (s, Some FoldUsage))"

text \<open>getFoldName of a fold that is there: the name of its container.\<close>

definition fold_name :: "gate_ptr \<Rightarrow> string" where
  "fold_name g = (case g of GateNode nm \<Rightarrow> nm | _ \<Rightarrow> [])"

definition listFolds :: "(string \<Rightarrow> string \<Rightarrow> bool) \<Rightarrow> string list \<Rightarrow> api \<Rightarrow> fold_error + (string \<times> string) list" where
  "listFolds string_match args s =
     (if 1 < length args then Inl FoldUsage
      else let pattern = (case args of [] \<Rightarrow> ''*'' | p # _ \<Rightarrow> p)
           in Inr (map (\<lambda>(nm, sp). (nm, fold_name (sp_fold sp)))
                (filter (\<lambda>(nm, sp). string_match nm pattern \<and> isGammaSpectrum (sp_kind sp) \<and>
                           haveFold (bodies (d_map (h_gates (api_hist s)))) sp)
                   (d_map (h_spectra (api_hist s))))))"

text \<open>Without a histogrammer the command succeeds and does nothing.\<close>

definition fold_command :: "(string \<Rightarrow> string \<Rightarrow> bool) \<Rightarrow> string list \<Rightarrow> api \<Rightarrow>
    api \<times> (fold_error + (string \<times> string) list)" where
  "fold_command string_match argv s =
     (if \<not> api_attached s then (s, Inr [])
      else case argv of
        [] \<Rightarrow> (s, Inl FoldUsage)
      | subcommand # args \<Rightarrow>
         (if subcommand = ''-apply''
          then (case applyFold args s of (s', None) \<Rightarrow> (s', Inr []) | (s', Some e) \<Rightarrow> (s', Inl e))
          else if subcommand = ''-remove''
          then (case removeFold args s of (s', None) \<Rightarrow> (s', Inr []) | (s', Some e) \<Rightarrow> (s', Inl e))
          else if subcommand = ''-list'' then (s, listFolds string_match args s)
          else (s, Inl FoldUsage)))"

subsection \<open>What the command does\<close>

lemma api_FindSpectrum_get: "api_FindSpectrum nm s = smap_get (d_map (h_spectra (api_hist s))) nm"
  by (simp add: api_FindSpectrum_def FindSpectrum_def Lookup_def)

definition gamma_spectrum :: "string \<Rightarrow> api \<Rightarrow> bool" where
  "gamma_spectrum nm s \<longleftrightarrow> (\<exists>sp. api_FindSpectrum nm s = Some sp \<and> isGammaSpectrum (sp_kind sp))"

lemma sort_spectra_filter:
  "sort_spectra nms s = (filter (\<lambda>nm. \<not> gamma_spectrum nm s) nms, filter (\<lambda>nm. gamma_spectrum nm s) nms)"
  by (induction nms) (auto simp: gamma_spectrum_def split: option.splits)

lemma find_fold_spectrum:
  "smap_get (d_map (h_spectra (fold_spectrum nm g h))) k =
     map_option (\<lambda>sp. if k = nm then Fold g sp else sp) (smap_get (d_map (h_spectra h)) k)"
  by (simp add: fold_spectrum_def)

lemma find_fold_all:
  "api_FindSpectrum k (fold_all nms g s) = map_option (\<lambda>sp. if k \<in> set nms then Fold g sp else sp) (api_FindSpectrum k s)"
proof (induction nms arbitrary: s)
  case Nil
  then show ?case by (simp add: fold_all_def api_FindSpectrum_get option.map_ident)
next
  case (Cons nm nms)
  have "fold_all (nm # nms) g s = fold_all nms g (s\<lparr> api_hist := fold_spectrum nm g (api_hist s) \<rparr>)"
    by (simp add: fold_all_def)
  then show ?case using Cons.IH [of "s\<lparr> api_hist := fold_spectrum nm g (api_hist s) \<rparr>"]
    by (auto simp: api_FindSpectrum_get find_fold_spectrum Fold_def option.map_comp comp_def
        intro: option.map_cong split: option.splits)
qed

lemma fold_all_ok: "hist_ok (api_hist s) \<Longrightarrow> hist_ok (api_hist (fold_all nms g s))"
proof -
  have "hist_ok h \<Longrightarrow> hist_ok (fold (\<lambda>nm. fold_spectrum nm g) nms h)" for h
    by (induction nms arbitrary: h) (simp_all add: fold_spectrum_ok)
  then show "hist_ok (api_hist s) \<Longrightarrow> hist_ok (api_hist (fold_all nms g s))" by (simp add: fold_all_def)
qed

text \<open>
  C14. The fold command's -apply: it works when the gate exists and is a gamma gate and every
  name is a gamma spectrum; then exactly the named spectra have the gate as their fold, and
  nothing else of any spectrum has changed.  Otherwise nothing changes at all, and the
  error names the gate or exactly the names that are no gamma spectra, in order.
\<close>

theorem applyFold_outcome:
  assumes "hist_ok (api_hist s)" "nms \<noteq> []"
  shows "case api_FindGate g s of
      None \<Rightarrow> applyFold (g # nms) s = (s, Some (NoFoldGate g))
    | Some c \<Rightarrow>
        if \<not> isGammagate (g_body (gc_gate c)) then applyFold (g # nms) s = (s, Some (NotGammaGate g))
        else if \<exists>nm \<in> set nms. \<not> gamma_spectrum nm s
        then applyFold (g # nms) s = (s, Some (BadSpectra (filter (\<lambda>nm. \<not> gamma_spectrum nm s) nms)))
        else (\<exists>s'. applyFold (g # nms) s = (s', None) \<and> hist_ok (api_hist s') \<and>
               (\<forall>k. api_FindSpectrum k s' = map_option
                  (\<lambda>sp. if k \<in> set nms then sp\<lparr> sp_fold := GateNode g \<rparr> else sp) (api_FindSpectrum k s)))"
proof -
  obtain nm nms' where n: "nms = nm # nms'" using assms(2) by (cases nms) auto
  have good: "filter (\<lambda>nm. gamma_spectrum nm s) nms = nms" if "\<not> (\<exists>nm \<in> set nms. \<not> gamma_spectrum nm s)"
    using that by (simp add: filter_id_conv)
  show ?thesis
  proof (cases "api_FindGate g s")
    case (Some c)
    show ?thesis
    proof (cases "isGammagate (g_body (gc_gate c)) \<and> \<not> (\<exists>nm \<in> set nms. \<not> gamma_spectrum nm s)")
      case True
      then have "applyFold (g # nms) s = (fold_all nms (GateNode g) s, None)"
        using Some good n by (simp add: applyFold_def sort_spectra_filter)
      then show ?thesis using Some True fold_all_ok [OF assms(1)] find_fold_all [of _ nms "GateNode g" s, unfolded Fold_def]
        by auto
    next
      case False
      then show ?thesis using Some n
        by (auto simp: applyFold_def sort_spectra_filter filter_empty_conv split: if_splits)
    qed
  qed (simp add: n applyFold_def)
qed

theorem applyFold_outcome_witness: "applyFold [''g'', ''s''] new_api = (new_api, Some (NoFoldGate ''g''))"
proof -
  have "api_FindGate ''g'' new_api = None" using no_gates_new by (simp add: api_FindGate_def new_api_def FindGate_def)
  then show ?thesis using applyFold_outcome [OF new_api_facts(1), of "[''s'']" "''g''"] by simp
qed

end
