(* ===== verification/Analyzer.thy ===== *)
theory Analyzer
  imports Events
begin

text \<open>
  CAnalyzer (src/main/Core/Analyzer.cpp, Analyzer.h) and the event lists it owns
  (EventList.cpp): the loop of OnPhysics over the entities of a decoded buffer, which
  unpacks each into an event, collects the accepted ones and hands them to
  HistogramEvents (EventMessage.cpp) in batches, recycling the events through a pool.
  Events are heap objects: a pointer is an address of an_heap, None there a freed one, and
  addresses are not reused.  The virtual OnEvent, which the derived classes override, is
  an argument of the loop; 's is the state of the derived class.
\<close>

subsection \<open>Event lists\<close>

type_synonym event_list = "nat option list"

definition knExpandSize_list :: nat where
  "knExpandSize_list = 512"

definition Expand :: "event_list \<Rightarrow> event_list" where
  "Expand l = l @ replicate knExpandSize_list None"

function el_at :: "nat \<Rightarrow> event_list \<Rightarrow> event_list" where
  "el_at n l = (if length l \<le> n then el_at n (Expand l) else l)"
  by pat_completeness auto
termination
  by (relation "measure (\<lambda>(n, l). Suc n - length l)") (auto simp: Expand_def knExpandSize_list_def)

declare el_at.simps [simp del]

definition el_set :: "nat \<Rightarrow> nat option \<Rightarrow> event_list \<Rightarrow> event_list" where
  "el_set n p l = (el_at n l)[n := p]"

subsection \<open>State\<close>

record 's analyzer =
  an_threshold :: u32
  an_parameters :: u32
  an_list :: event_list
  an_pool :: event_list
  an_heap :: "nat \<Rightarrow> event option"
  an_next :: nat
  an_abort :: bool
  an_partial :: bool
  an_derived :: 's
  an_out :: "event list list"

text \<open>The constructor: a list of as many null pointers as the threshold, a pool of one.\<close>

definition new_analyzer :: "u32 \<Rightarrow> u32 \<Rightarrow> 's \<Rightarrow> 's analyzer" where
  "new_analyzer nParams nThreshold s =
     \<lparr> an_threshold = nThreshold, an_parameters = nParams,
       an_list = replicate (unat nThreshold) None, an_pool = [None],
       an_heap = Map.empty, an_next = 0, an_abort = False, an_partial = False,
       an_derived = s, an_out = [] \<rparr>"

text \<open>
  What a call of OnEvent ends with: the size it returns, an event format error that knows
  the event's size or not, or another exception.
\<close>

datatype oe_result = Size u32 | FormatError bool | OtherError

text \<open>
  OnEvent is given the position of the entity in the body, the event and the derived
  state; besides these it returns whether it called AbortEvent and entityNotDone.
\<close>

type_synonym 's on_event = "nat \<Rightarrow> event \<Rightarrow> 's \<Rightarrow> 's \<times> event \<times> bool \<times> bool \<times> oe_result"

subsection \<open>Allocation and recycling of events\<close>

definition new_CEvent :: "'s analyzer \<Rightarrow> 's analyzer \<times> nat" where
  "new_CEvent a =
     (a\<lparr> an_heap := (an_heap a)(an_next a \<mapsto> new_event_sized (an_parameters a)), an_next := Suc (an_next a) \<rparr>,
      an_next a)"

definition CreateEvent :: "'s analyzer \<Rightarrow> ('s analyzer \<times> nat) option" where
  "CreateEvent a =
     (if an_pool a = [] then
        (let (a', p) = new_CEvent a
         in case an_heap a' p of Some e \<Rightarrow> Some (a'\<lparr> an_heap := (an_heap a')(p \<mapsto> ev_clear e) \<rparr>, p))
      else
        (let a' = a\<lparr> an_pool := butlast (an_pool a) \<rparr>
         in case last (an_pool a) of
              None \<Rightarrow> Some (new_CEvent a')
            | Some p \<Rightarrow> (case an_heap a' p of
                 None \<Rightarrow> None
               | Some e \<Rightarrow> Some (a'\<lparr> an_heap := (an_heap a')(p \<mapsto> ev_clear e) \<rparr>, p))))"

definition ReturnEvent :: "nat \<Rightarrow> 's analyzer \<Rightarrow> 's analyzer" where
  "ReturnEvent p a = a\<lparr> an_pool := an_pool a @ [Some p] \<rparr>"

definition ClearEventList :: "'s analyzer \<Rightarrow> 's analyzer" where
  "ClearEventList a =
     a\<lparr> an_pool := an_pool a @ filter (\<lambda>p. p \<noteq> None) (an_list a),
        an_list := map (\<lambda>_. None) (an_list a) \<rparr>"

text \<open>delete: of an event already freed it is undefined.\<close>

definition delete_event :: "nat \<Rightarrow> 's analyzer \<Rightarrow> 's analyzer option" where
  "delete_event p a =
     (if an_heap a p = None then None else Some (a\<lparr> an_heap := (an_heap a)(p := None) \<rparr>))"

text \<open>
  HistogramEvents in a serial SpecTcl: the event sinks read the list up to its first null
  pointer.  The contents they see are recorded; a freed event among them is undefined.
\<close>

fun read_events :: "(nat \<Rightarrow> event option) \<Rightarrow> event_list \<Rightarrow> event list option" where
  "read_events hp [] = Some []"
| "read_events hp (None # ps) = Some []"
| "read_events hp (Some p # ps) = (case hp p of
      None \<Rightarrow> None
    | Some e \<Rightarrow> map_option ((#) e) (read_events hp ps))"

definition HistogramEvents :: "'s analyzer \<Rightarrow> 's analyzer option" where
  "HistogramEvents a = (case read_events (an_heap a) (an_list a) of
      None \<Rightarrow> None
    | Some es \<Rightarrow> Some (a\<lparr> an_out := an_out a @ [es] \<rparr>))"

definition entityNotDone :: "'s analyzer \<Rightarrow> 's analyzer" where
  "entityNotDone a = a\<lparr> an_partial := True \<rparr>"

definition AbortEvent :: "'s analyzer \<Rightarrow> 's analyzer" where
  "AbortEvent a = a\<lparr> an_abort := True \<rparr>"

subsection \<open>OnPhysics\<close>

text \<open>
  The local variables of the loop.  The pointer into the body is an offset that does not
  wrap, nOffset is its 32 bit count; nEventSize is uninitialised until the first event.
\<close>

record locals =
  lo_events :: u32
  lo_no :: nat
  lo_data :: nat
  lo_offset :: u32
  lo_size :: "u32 option"

datatype 's iteration = Next "'s analyzer" locals | Return "'s analyzer" | Undef

fun end_call :: "'s analyzer option \<Rightarrow> 's iteration" where
  "end_call None = Undef"
| "end_call (Some a) = Return a"

definition histogram_and_clear :: "'s analyzer \<Rightarrow> 's analyzer option" where
  "histogram_and_clear a = map_option ClearEventList (HistogramEvents a)"

text \<open>The call of OnEvent on the event p, with what it does to the flags.\<close>

definition call_OnEvent :: "'s on_event \<Rightarrow> nat \<Rightarrow> nat \<Rightarrow> 's analyzer \<Rightarrow> 's analyzer \<times> oe_result" where
  "call_OnEvent oe d p a =
     (let (s, e, ab, pa, r) = oe d (the (an_heap a p)) (an_derived a);
          a' = a\<lparr> an_heap := (an_heap a)(p \<mapsto> e), an_derived := s \<rparr>;
          a'' = (if ab then AbortEvent a' else a');
          a3 = (if pa then entityNotDone a'' else a'')
      in (a3, r))"

text \<open>The part of the loop body after the try block, when nothing propagates.\<close>

definition next_entity :: "'s analyzer \<Rightarrow> locals \<Rightarrow> 's iteration" where
  "next_entity a lo = (case lo_size lo of
      None \<Rightarrow> Undef
    | Some n \<Rightarrow>
       (let lo' = lo\<lparr> lo_events := (if an_partial a then lo_events lo else lo_events lo - 1),
                      lo_data := lo_data lo + unat n, lo_offset := lo_offset lo + n \<rparr>
        in if unat (an_threshold a) \<le> lo_no lo'
           then (case histogram_and_clear a of
                   None \<Rightarrow> Undef
                 | Some a' \<Rightarrow> Next a' (lo'\<lparr> lo_no := 0 \<rparr>))
           else Next a lo'))"

text \<open>The event just unpacked goes to the list, or back to the pool when it was aborted.\<close>

definition keep_event :: "nat \<Rightarrow> 's analyzer \<Rightarrow> locals \<Rightarrow> 's analyzer \<times> locals" where
  "keep_event p a lo =
     (if \<not> an_abort a
      then (a\<lparr> an_list := el_set (lo_no lo) (Some p) (an_list a) \<rparr>, lo\<lparr> lo_no := Suc (lo_no lo) \<rparr>)
      else (ReturnEvent p a, lo))"

definition physics_entity :: "'s on_event \<Rightarrow> 's analyzer \<Rightarrow> locals \<Rightarrow> 's iteration" where
  "physics_entity oe a lo = (case CreateEvent a of
      None \<Rightarrow> Undef
    | Some (a1, p) \<Rightarrow>
       (case call_OnEvent oe (lo_data lo) p (a1\<lparr> an_abort := False \<rparr>) of
          (a2, Size n) \<Rightarrow>
            (let (a3, lo3) = keep_event p a2 (lo\<lparr> lo_size := Some n \<rparr>)
             in if n = 0 \<and> \<not> an_partial a3 then end_call (delete_event p a3)
                else next_entity a3 lo3)
        | (a2, FormatError sizeOk) \<Rightarrow>
            (if \<not> sizeOk then end_call (delete_event p a2)
             else (case delete_event p a2 of
                     None \<Rightarrow> Undef
                   | Some a3 \<Rightarrow> next_entity a3 lo))
        | (a2, OtherError) \<Rightarrow> end_call (delete_event p a2)))"

definition physics_step :: "'s on_event \<Rightarrow> u32 \<Rightarrow> 's analyzer \<Rightarrow> locals \<Rightarrow> 's iteration" where
  "physics_step oe nBufferSize a lo =
     (let a = a\<lparr> an_partial := False \<rparr>
      in if nBufferSize \<le> lo_offset lo then
           (if lo_offset lo = 0 \<and> nBufferSize = 0 then Return (ClearEventList a)
            else end_call (histogram_and_clear a))
         else physics_entity oe a lo)"

text \<open>The loop may run forever, so it is given fuel.\<close>

datatype 's physics = Done "'s analyzer" | Undefined | OutOfFuel

fun physics_loop :: "nat \<Rightarrow> 's on_event \<Rightarrow> u32 \<Rightarrow> 's analyzer \<Rightarrow> locals \<Rightarrow> 's physics" where
  "physics_loop 0 oe nBufferSize a lo = OutOfFuel"
| "physics_loop (Suc k) oe nBufferSize a lo =
     (if lo_events lo = 0 then
        (if lo_no lo \<noteq> 0
         then (case histogram_and_clear a of None \<Rightarrow> Undefined | Some a' \<Rightarrow> Done a')
         else Done a)
      else (case physics_step oe nBufferSize a lo of
              Undef \<Rightarrow> Undefined
            | Return a' \<Rightarrow> Done a'
            | Next a' lo' \<Rightarrow> physics_loop k oe nBufferSize a' lo'))"

definition start_locals :: "u32 \<Rightarrow> locals" where
  "start_locals nEvents =
     \<lparr> lo_events = nEvents, lo_no = 0, lo_data = 0, lo_offset = 0, lo_size = None \<rparr>"

definition OnPhysics :: "nat \<Rightarrow> 's on_event \<Rightarrow> u32 \<Rightarrow> u32 \<Rightarrow> 's analyzer \<Rightarrow> 's physics" where
  "OnPhysics k oe nEvents nBufferSize a = physics_loop k oe nBufferSize a (start_locals nEvents)"

end
