(* ===== verification/AnalyzerProps.thy ===== *)
theory AnalyzerProps
  imports Analyzer
begin

text \<open>
  What CAnalyzer::OnPhysics delivers to the event sinks.  The contract of OnEvent is the
  locale packer; for the overrides that meet it, recycling of the events is invisible,
  nothing is lost, repeated or leaked, and the loop ends.  The last section has what
  happens when the contract is broken.
\<close>

subsection \<open>Reference\<close>

text \<open>What a sink can see of an event: its values and the order they were set in.\<close>

definition view :: "event \<Rightarrow> (nat \<Rightarrow> ptype option) \<times> nat list" where
  "view e = (ev_abs e, ev_order e)"

definition blank :: "event \<Rightarrow> bool" where
  "blank e \<longleftrightarrow> ev_ok e \<and> view e = (Map.empty, [])"

text \<open>
  The accepted events of a body, each unpacked into an event of its own, and the derived
  state at the end.
\<close>

function unpack_all ::
  "'s on_event \<Rightarrow> nat \<Rightarrow> nat \<Rightarrow> nat \<Rightarrow> 's \<Rightarrow> event list \<times> 's" where
  "unpack_all oe bs n d s =
     (if n = 0 \<or> bs \<le> d then ([], s)
      else (case oe d new_event s of
              (s', e, ab, pa, Size m) \<Rightarrow>
                if m = 0 then ([], s')
                else (let (es, s'') = unpack_all oe bs (if pa then n else n - 1) (d + unat m) s'
                      in ((if ab then [] else [e]) @ es, s''))
            | (s', _) \<Rightarrow> ([], s')))"
  by pat_completeness auto
termination
proof (relation "measure (\<lambda>(oe, bs, n, d, s). n + (bs - d))", goal_cases)
  case (2 oe bs n d s x y s' e' z ab w pa m)
  then have "0 < n" "d < bs" "0 < unat m" by (auto simp: unat_gt_0)
  then show ?case by (cases pa) auto
qed simp

declare unpack_all.simps [simp del]

subsection \<open>The contract of OnEvent\<close>

locale packer =
  fixes oe :: "'s on_event" and bs :: nat and good :: "nat \<Rightarrow> 's \<Rightarrow> bool"
  assumes step:
    "good d s \<Longrightarrow> d < bs \<Longrightarrow> blank e \<Longrightarrow>
       \<exists>s' e' ab pa m. oe d e s = (s', e', ab, pa, Size m) \<and> 0 < m \<and> d + unat m < 2 ^ 32 \<and>
         ev_ok e' \<and> ev_serial e' = ev_serial e \<and> good (d + unat m) s'"
    and recycled:
    "good d s \<Longrightarrow> d < bs \<Longrightarrow> blank e \<Longrightarrow>
       oe d e s = (s1, e1, ab1, pa1, r1) \<Longrightarrow> oe d new_event s = (s2, e2, ab2, pa2, r2) \<Longrightarrow>
       s1 = s2 \<and> view e1 = view e2 \<and> ab1 = ab2 \<and> pa1 = pa2 \<and> r1 = r2"

subsection \<open>Ownership of the events\<close>

text \<open>
  Every live event is referred to once: from the list (ps), from the loop (xs) or from
  the pool; m more calls of clear leave their serial numbers in range.
\<close>

definition pool_ptrs :: "event_list \<Rightarrow> nat list" where
  "pool_ptrs l = map the (filter (\<lambda>p. p \<noteq> None) l)"

lemma pool_ptrs_simps [simp]:
  "pool_ptrs [] = []"
  "pool_ptrs (l @ l') = pool_ptrs l @ pool_ptrs l'"
  "pool_ptrs (None # l) = pool_ptrs l" "pool_ptrs (Some p # l) = p # pool_ptrs l"
  "pool_ptrs (map Some ps) = ps" "pool_ptrs (replicate k None) = []"
  by (simp_all add: pool_ptrs_def filter_map o_def)

lemma pool_ptrs_filter [simp]: "pool_ptrs (filter (\<lambda>p. p \<noteq> None) l) = pool_ptrs l"
  by (simp add: pool_ptrs_def)

definition list_holds :: "event_list \<Rightarrow> nat list \<Rightarrow> bool" where
  "list_holds l ps \<longleftrightarrow> (\<exists>k. l = map Some ps @ replicate k None)"

definition event_usable :: "(nat \<Rightarrow> event option) \<Rightarrow> nat \<Rightarrow> nat \<Rightarrow> bool" where
  "event_usable hp m p \<longleftrightarrow> (\<exists>e. hp p = Some e \<and> ev_ok e \<and> unat (ev_serial e) + m < 2 ^ 64 - 2)"

definition owned :: "'s analyzer \<Rightarrow> nat list \<Rightarrow> nat list \<Rightarrow> nat \<Rightarrow> bool" where
  "owned a ps xs m \<longleftrightarrow>
     list_holds (an_list a) ps \<and> distinct (ps @ xs @ pool_ptrs (an_pool a)) \<and>
     {p. an_heap a p \<noteq> None} = set (ps @ xs @ pool_ptrs (an_pool a)) \<and>
     (\<forall>p \<in> set (ps @ xs @ pool_ptrs (an_pool a)). event_usable (an_heap a) m p) \<and>
     (\<forall>p. an_heap a p \<noteq> None \<longrightarrow> p < an_next a) \<and> unat (an_parameters a) \<le> max_params"

abbreviation at_rest :: "'s analyzer \<Rightarrow> nat \<Rightarrow> bool" where
  "at_rest a m \<equiv> owned a [] [] m"

definition list_views :: "'s analyzer \<Rightarrow> nat list \<Rightarrow> ((nat \<Rightarrow> ptype option) \<times> nat list) list" where
  "list_views a ps = map (\<lambda>p. view (the (an_heap a p))) ps"

lemma blank_new_event [simp]: "blank new_event"
  by (auto simp: blank_def view_def ev_order_def) (simp add: new_event_def)

lemma new_sized_blank:
  assumes "unat n \<le> max_params"
  shows "blank (new_event_sized n)" and "ev_serial (new_event_sized n) = 0"
proof -
  let ?e = "Resize n new_event"
  have r: "ev_ok ?e" "ev_abs ?e = ev_abs new_event" "ev_dope ?e = ev_dope new_event"
    "ev_serial ?e = ev_serial new_event"
    using Resize_spec [OF ev_ok_new assms] by auto
  moreover have "new_event_sized n = ?e"
    using r(1) by (metis (no_types, lifting) event.surjective event.update_convs(3)
        ev_ok_def new_event_sized_def slots_ok_def)
  ultimately show "blank (new_event_sized n)" "ev_serial (new_event_sized n) = 0"
    using blank_new_event by (simp_all add: blank_def view_def ev_order_def) (simp add: new_event_def)
qed

lemma clear_blank:
  "ev_ok e \<Longrightarrow> unat (ev_serial e) < 2 ^ 64 - 2 \<Longrightarrow> blank (ev_clear e)"
  using ev_clear_spec [of e] by (simp add: blank_def view_def)

lemma serial_clear: "unat (ev_serial e) < 2 ^ 64 - 2 \<Longrightarrow> unat (ev_serial (ev_clear e)) = Suc (unat (ev_serial e))"
  using unat_add_lem [of "ev_serial e" 1] by (simp add: ev_clear_def)

lemma event_usable_mono: "event_usable hp m p \<Longrightarrow> m' \<le> m \<Longrightarrow> event_usable hp m' p"
  by (force simp: event_usable_def)

lemma owned_mono: "owned a ps xs m \<Longrightarrow> m' \<le> m \<Longrightarrow> owned a ps xs m'"
  by (auto simp: owned_def intro: event_usable_mono)

lemma owned_move:
  assumes o: "owned a ps xs m" and l: "list_holds (an_list a') ps'"
    and h: "an_heap a' = an_heap a" "an_next a' = an_next a" "an_parameters a' = an_parameters a"
    and m: "mset (ps' @ xs' @ pool_ptrs (an_pool a')) = mset (ps @ xs @ pool_ptrs (an_pool a))"
  shows "owned a' ps' xs' m"
  using o l mset_eq_setD [OF m] mset_eq_imp_distinct_iff [OF m] unfolding owned_def h by simp

lemma owned_partial [simp]: "owned (a\<lparr> an_partial := b \<rparr>) ps xs m = owned a ps xs m"
  by (simp add: owned_def)

lemma new_CEvent_owned:
  assumes "owned a ps [] m" "Suc m < 2 ^ 64 - 2" and n: "new_CEvent a = (a', p)"
  shows "owned a' ps [p] m \<and> (\<exists>e. an_heap a' p = Some e \<and> blank e \<and> unat (ev_serial e) + Suc m < 2 ^ 64 - 2) \<and>
    an_list a' = an_list a \<and> (\<forall>q \<in> set ps. an_heap a' q = an_heap a q)"
proof -
  have p: "p = an_next a" and a': "a' = a\<lparr> an_heap := (an_heap a)(p \<mapsto> new_event_sized (an_parameters a)), an_next := Suc p \<rparr>"
    using n by (auto simp: new_CEvent_def)
  have o: "distinct (ps @ pool_ptrs (an_pool a))" "{q. an_heap a q \<noteq> None} = set (ps @ pool_ptrs (an_pool a))"
    "\<forall>q \<in> set (ps @ pool_ptrs (an_pool a)). event_usable (an_heap a) m q"
    "\<forall>q. an_heap a q \<noteq> None \<longrightarrow> q < an_next a" "unat (an_parameters a) \<le> max_params"
    "list_holds (an_list a) ps"
    using assms(1) by (simp_all add: owned_def)
  have fresh: "p \<notin> set (ps @ pool_ptrs (an_pool a))"
    using o(2,4) p by (metis (mono_tags, lifting) less_irrefl mem_Collect_eq)
  have e: "blank (new_event_sized (an_parameters a))" "ev_serial (new_event_sized (an_parameters a)) = 0"
    using new_sized_blank [OF o(5)] by simp_all
  have u: "event_usable (an_heap a') m p"
    using e assms(2) by (simp add: a' event_usable_def blank_def)
  have "event_usable (an_heap a') m q" if "q \<in> set (ps @ pool_ptrs (an_pool a))" for q
    using that o(3) fresh by (auto simp: a' event_usable_def)
  moreover have "{q. an_heap a' q \<noteq> None} = insert p (set (ps @ pool_ptrs (an_pool a)))"
    using o(2) by (auto simp: a' split: if_splits)
  ultimately have "owned a' ps [p] m"
    using o fresh u by (auto simp: owned_def a' p split: if_splits)
  then show ?thesis using e assms(2) fresh by (auto simp: a')
qed

text \<open>
  CreateEvent takes over a blank event that nothing else refers to.
\<close>

lemma CreateEvent_owned:
  assumes o: "owned a ps [] (Suc m)" and m: "Suc m < 2 ^ 64 - 2"
  shows "\<exists>a' p e. CreateEvent a = Some (a', p) \<and> owned a' ps [p] m \<and> an_heap a' p = Some e \<and>
    blank e \<and> an_list a' = an_list a \<and> (\<forall>q \<in> set ps. an_heap a' q = an_heap a q) \<and>
    an_out a' = an_out a \<and> an_derived a' = an_derived a \<and> an_threshold a' = an_threshold a \<and>
    an_partial a' = an_partial a"
proof (cases "an_pool a = []")
  case True
  obtain a1 p where n: "new_CEvent a = (a1, p)" by fastforce
  obtain e where e: "owned a1 ps [p] m" "an_heap a1 p = Some e"
    "blank e" "unat (ev_serial e) + Suc m < 2 ^ 64 - 2" "an_list a1 = an_list a"
    "\<forall>q \<in> set ps. an_heap a1 q = an_heap a q"
    using new_CEvent_owned [OF owned_mono [OF o, of m] m n] by auto
  let ?a = "a1\<lparr> an_heap := (an_heap a1)(p \<mapsto> ev_clear e) \<rparr>"
  have c: "blank (ev_clear e)" "unat (ev_serial (ev_clear e)) + m < 2 ^ 64 - 2"
    using e clear_blank [of e] serial_clear [of e] by (auto simp: blank_def)
  have "p \<notin> set ps" using e(1) by (auto simp: owned_def)
  moreover have "owned ?a ps [p] m"
    using e(1,2) c by (auto simp: owned_def event_usable_def blank_def)
  ultimately show ?thesis
    using True n e c by (intro exI [of _ ?a] exI [of _ p] exI [of _ "ev_clear e"])
      (auto simp: CreateEvent_def new_CEvent_def)
next
  case False
  let ?b = "a\<lparr> an_pool := butlast (an_pool a) \<rparr>"
  have pool: "an_pool a = butlast (an_pool a) @ [last (an_pool a)]" using False by simp
  show ?thesis
  proof (cases "last (an_pool a)")
    case None
    obtain a1 p where n: "new_CEvent ?b = (a1, p)" by fastforce
    have "pool_ptrs (an_pool a) = pool_ptrs (butlast (an_pool a))"
      by (subst pool) (simp add: None)
    then have "owned ?b ps [] m"
      using owned_mono [OF o, of m] by (simp add: owned_def)
    from new_CEvent_owned [OF this m n] show ?thesis
      using False None n by (auto simp: CreateEvent_def new_CEvent_def)
  next
    case (Some p)
    have pp: "pool_ptrs (an_pool a) = pool_ptrs (butlast (an_pool a)) @ [p]"
      by (subst pool) (simp add: Some)
    then have "event_usable (an_heap a) (Suc m) p" using o by (simp add: owned_def)
    then obtain e where e: "an_heap a p = Some e" "ev_ok e" "unat (ev_serial e) + Suc m < 2 ^ 64 - 2"
      by (auto simp: event_usable_def)
    let ?a = "?b\<lparr> an_heap := (an_heap ?b)(p \<mapsto> ev_clear e) \<rparr>"
    have c: "blank (ev_clear e)" "unat (ev_serial (ev_clear e)) + m < 2 ^ 64 - 2"
      using e clear_blank [of e] serial_clear [of e] by auto
    have "p \<notin> set ps" using o pp by (auto simp: owned_def)
    moreover have "owned ?a ps [p] m"
      using owned_mono [OF o, of m] e c pp by (auto simp: owned_def blank_def event_usable_def)
    ultimately show ?thesis
      using False Some e c by (intro exI [of _ ?a] exI [of _ p] exI [of _ "ev_clear e"])
        (auto simp: CreateEvent_def)
  qed
qed

lemma el_at_le: "n < length l \<Longrightarrow> el_at n l = l"
  by (simp add: el_at.simps)

lemma el_at_prefix: "\<exists>k. el_at n l = l @ replicate k None \<and> n < length (el_at n l)"
proof (induction n l rule: el_at.induct)
  case (1 n l)
  show ?case
  proof (cases "length l \<le> n")
    case True
    obtain k where "el_at n (Expand l) = Expand l @ replicate k None" "n < length (el_at n (Expand l))"
      using 1 [OF True] by blast
    then show ?thesis
      using True by (intro exI [of _ "knExpandSize_list + k"])
        (simp add: el_at.simps [of n l] Expand_def replicate_add)
  qed (simp add: el_at.simps)
qed

lemma el_set_holds: "list_holds l ps \<Longrightarrow> list_holds (el_set (length ps) (Some p) l) (ps @ [p])"
proof -
  assume "list_holds l ps"
  then obtain k where l: "l = map Some ps @ replicate k None" by (auto simp: list_holds_def)
  obtain j where j: "el_at (length ps) l = l @ replicate j None" "length ps < length (el_at (length ps) l)"
    using el_at_prefix [of "length ps" l] by blast
  then have "el_at (length ps) l = map Some ps @ replicate (k + j) None" "0 < k + j"
    using l by (auto simp: replicate_add)
  then show ?thesis
    by (cases "k + j") (auto simp: list_holds_def el_set_def list_update_append)
qed

subsection \<open>Delivery\<close>

definition seen :: "'s analyzer \<Rightarrow> ((nat \<Rightarrow> ptype option) \<times> nat list) list" where
  "seen a = map view (concat (an_out a))"

definition batches_within :: "'s analyzer \<Rightarrow> bool" where
  "batches_within a \<longleftrightarrow> (\<forall>b \<in> set (an_out a). length b \<le> unat (an_threshold a))"

lemma read_events_prefix:
  "\<forall>p \<in> set ps. hp p \<noteq> None \<Longrightarrow>
     read_events hp (map Some ps @ replicate k None) = Some (map (\<lambda>p. the (hp p)) ps)"
  by (induction ps) (auto simp: neq_Nil_conv split: option.splits, cases k, auto)

lemma histogram_and_clear_owned:
  assumes o: "owned a ps [] m"
  shows "\<exists>a'. histogram_and_clear a = Some a' \<and> at_rest a' m \<and> seen a' = seen a @ list_views a ps \<and>
    an_derived a' = an_derived a \<and> an_threshold a' = an_threshold a \<and>
    (batches_within a \<longrightarrow> length ps \<le> unat (an_threshold a) \<longrightarrow> batches_within a')"
proof -
  obtain k where l: "an_list a = map Some ps @ replicate k None"
    using o by (auto simp: owned_def list_holds_def)
  have live: "\<forall>p \<in> set ps. an_heap a p \<noteq> None"
    using o by (auto simp: owned_def event_usable_def)
  let ?b = "a\<lparr> an_out := an_out a @ [map (\<lambda>p. the (an_heap a p)) ps] \<rparr>"
  have h: "HistogramEvents a = Some ?b"
    using read_events_prefix [OF live, of k] by (simp add: HistogramEvents_def l)
  have f: "filter (\<lambda>p. p \<noteq> None) (an_list a) = map Some ps"
    by (simp add: l filter_map o_def)
  have e: "list_holds (map (\<lambda>_. None) (an_list a)) []"
    by (auto simp: list_holds_def map_replicate_const)
  have "at_rest (ClearEventList ?b) m"
    using o e f by (auto simp: owned_def ClearEventList_def)
  then show ?thesis
    using h by (auto simp: histogram_and_clear_def ClearEventList_def seen_def list_views_def batches_within_def)
qed

text \<open>The event just unpacked, still referred to by the loop only.\<close>

lemma call_OnEvent_owned:
  assumes o: "owned a ps [p] m" and e: "an_heap a p = Some e"
    and c: "oe d e (an_derived a) = (s', e', ab, pa, r)" "ev_ok e'" "ev_serial e' = ev_serial e"
  shows "\<exists>a'. call_OnEvent oe d p (a\<lparr> an_abort := False \<rparr>) = (a', r) \<and> owned a' ps [p] m \<and>
    an_heap a' p = Some e' \<and> an_abort a' = ab \<and> an_partial a' = (pa \<or> an_partial a) \<and>
    an_derived a' = s' \<and> list_views a' ps = list_views a ps \<and> an_list a' = an_list a \<and>
    an_out a' = an_out a \<and> an_threshold a' = an_threshold a"
proof -
  let ?h = "(an_heap a)(p \<mapsto> e')"
  have np: "p \<notin> set ps" "p \<notin> set (pool_ptrs (an_pool a))" using o by (auto simp: owned_def)
  have "event_usable (an_heap a) m p" using o by (auto simp: owned_def)
  then have u: "event_usable ?h m p" using e c(2,3) by (auto simp: event_usable_def)
  have us: "event_usable ?h m q" if "q \<in> set (ps @ [p] @ pool_ptrs (an_pool a))" for q
    using that o u by (cases "q = p") (auto simp: owned_def event_usable_def)
  have dom: "{q. ?h q \<noteq> None} = {q. an_heap a q \<noteq> None}" using e by auto
  let ?a = "a\<lparr> an_heap := ?h, an_derived := s', an_abort := ab, an_partial := (pa \<or> an_partial a) \<rparr>"
  have "owned ?a ps [p] m"
    unfolding owned_def using o us dom e by (auto simp: owned_def)
  moreover have "call_OnEvent oe d p (a\<lparr> an_abort := False \<rparr>) = (?a, r)"
    using e c(1) by (cases ab; cases pa) (simp_all add: call_OnEvent_def AbortEvent_def entityNotDone_def Let_def)
  moreover have "list_views ?a ps = list_views a ps"
    using np by (auto simp: list_views_def)
  ultimately show ?thesis by auto
qed

lemma keep_event_owned:
  assumes o: "owned a ps [p] m" and n: "length ps = lo_no lo" and e: "an_heap a p = Some e"
    and k: "keep_event p a lo = (a', lo')"
  defines "ps' \<equiv> (if an_abort a then ps else ps @ [p])"
  shows "owned a' ps' [] m \<and> length ps' = lo_no lo' \<and>
    list_views a' ps' = list_views a ps @ (if an_abort a then [] else [view e]) \<and>
    lo_no lo' \<le> Suc (lo_no lo) \<and> lo_data lo' = lo_data lo \<and> lo_offset lo' = lo_offset lo \<and>
    lo_events lo' = lo_events lo \<and> lo_size lo' = lo_size lo \<and> an_derived a' = an_derived a \<and>
    an_out a' = an_out a \<and> an_threshold a' = an_threshold a \<and> an_partial a' = an_partial a"
proof (cases "an_abort a")
  case True
  then have k: "a' = ReturnEvent p a" "lo' = lo" using k by (auto simp: keep_event_def)
  have "owned a' ps [] m"
    by (rule owned_move [OF o]) (use o k in \<open>auto simp: ReturnEvent_def owned_def\<close>)
  then show ?thesis
    using True k n by (simp add: ps'_def list_views_def ReturnEvent_def)
next
  case False
  then have k: "a' = a\<lparr> an_list := el_set (lo_no lo) (Some p) (an_list a) \<rparr>" "lo' = lo\<lparr> lo_no := Suc (lo_no lo) \<rparr>"
    using k by (auto simp: keep_event_def)
  have "list_holds (an_list a) ps" using o by (simp add: owned_def)
  then have "list_holds (an_list a') (ps @ [p])"
    using el_set_holds [of "an_list a" ps p] n k by simp
  then have "owned a' (ps @ [p]) [] m"
    by (rule owned_move [OF o]) (use k in auto)
  then show ?thesis
    using False k n e by (simp add: ps'_def list_views_def)
qed

text \<open>The state of the loop between two entities, ps being the list so far.\<close>

definition between :: "nat \<Rightarrow> 's analyzer \<Rightarrow> locals \<Rightarrow> nat list \<Rightarrow> nat \<Rightarrow> bool" where
  "between m a lo ps d \<longleftrightarrow>
     owned a ps [] m \<and> length ps = lo_no lo \<and> lo_no lo < unat (an_threshold a) \<and>
     lo_data lo = d \<and> unat (lo_offset lo) = d \<and> batches_within a"

lemma next_entity_between:
  assumes o: "owned a ps [] m" and n: "length ps = lo_no lo" "lo_no lo \<le> unat (an_threshold a)"
    and t: "an_threshold a \<noteq> 0" and d: "lo_data lo = d" "unat (lo_offset lo) = d" "lo_size lo = Some k"
    "d + unat k < 2 ^ 32" and b: "batches_within a"
  shows "\<exists>a' lo' ps'. next_entity a lo = Next a' lo' \<and> between m a' lo' ps' (d + unat k) \<and>
     lo_events lo' = (if an_partial a then lo_events lo else lo_events lo - 1) \<and>
     an_derived a' = an_derived a \<and> an_threshold a' = an_threshold a \<and>
     seen a' @ list_views a' ps' = seen a @ list_views a ps"
proof -
  have off: "unat (lo_offset lo + k) = d + unat k"
    using d unat_add_lem [of "lo_offset lo" k] by simp
  show ?thesis
  proof (cases "unat (an_threshold a) \<le> lo_no lo")
    case True
    obtain a' where a': "histogram_and_clear a = Some a'" "at_rest a' m" "seen a' = seen a @ list_views a ps"
      "an_derived a' = an_derived a" "an_threshold a' = an_threshold a" "batches_within a'"
      using histogram_and_clear_owned [OF o] n b by auto
    have "0 < unat (an_threshold a)" using t by (simp add: unat_gt_0)
    then show ?thesis
      using True a' off d(1,3) by (auto simp: next_entity_def between_def list_views_def Let_def)
  next
    case False
    then show ?thesis
      using o n b off d(1,3) by (auto simp: next_entity_def between_def Let_def)
  qed
qed

context packer
begin

lemma entity_step:
  assumes st: "between (Suc m) a lo ps d" and m: "Suc m < 2 ^ 64 - 2"
    and g: "good d (an_derived a)" and d: "d < bs" "bs = unat nBufferSize"
  shows "\<exists>a' lo' ps' s' e ab pa k. oe d new_event (an_derived a) = (s', e, ab, pa, Size k) \<and> k \<noteq> 0 \<and>
     physics_step oe nBufferSize a lo = Next a' lo' \<and> between m a' lo' ps' (d + unat k) \<and>
     lo_events lo' = (if pa then lo_events lo else lo_events lo - 1) \<and>
     an_derived a' = s' \<and> good (d + unat k) s' \<and> an_threshold a' = an_threshold a \<and>
     seen a' @ list_views a' ps' = (seen a @ list_views a ps) @ (if ab then [] else [view e])"
proof -
  let ?a = "a\<lparr> an_partial := False \<rparr>"
  have o: "owned ?a ps [] (Suc m)"
    using st by (simp add: between_def)
  obtain a1 p e1 where c: "CreateEvent ?a = Some (a1, p)" "owned a1 ps [p] m" "an_heap a1 p = Some e1"
    "blank e1" "an_list a1 = an_list a" "\<forall>q \<in> set ps. an_heap a1 q = an_heap a q"
    "an_out a1 = an_out a" "an_derived a1 = an_derived a" "an_threshold a1 = an_threshold a" "\<not> an_partial a1"
    using CreateEvent_owned [OF o m] by auto
  have v1: "list_views a1 ps = list_views a ps" using c(6) by (simp add: list_views_def)
  obtain s' e' ab pa k where e': "oe d e1 (an_derived a) = (s', e', ab, pa, Size k)" "0 < k"
    "d + unat k < 2 ^ 32" "ev_ok e'" "ev_serial e' = ev_serial e1" "good (d + unat k) s'"
    using step [OF g d(1) c(4)] by blast
  obtain e where e: "oe d new_event (an_derived a) = (s', e, ab, pa, Size k)" "view e' = view e"
    using recycled [OF g d(1) c(4) e'(1)] by (cases "oe d new_event (an_derived a)") auto
  obtain a2 where a2: "call_OnEvent oe d p (a1\<lparr> an_abort := False \<rparr>) = (a2, Size k)" "owned a2 ps [p] m"
    "an_heap a2 p = Some e'" "an_abort a2 = ab" "an_partial a2 = pa" "an_derived a2 = s'"
    "list_views a2 ps = list_views a ps" "an_out a2 = an_out a" "an_threshold a2 = an_threshold a"
    using call_OnEvent_owned [OF c(2,3), of oe d s' e' ab pa "Size k"] e' c v1 by auto
  let ?lo = "lo\<lparr> lo_size := Some k \<rparr>"
  obtain a3 lo3 where k3: "keep_event p a2 ?lo = (a3, lo3)" by fastforce
  have n2: "length ps = lo_no ?lo" using st by (simp add: between_def)
  let ?ps = "if an_abort a2 then ps else ps @ [p]"
  have a3: "owned a3 ?ps [] m" "length ?ps = lo_no lo3"
    "list_views a3 ?ps = list_views a2 ps @ (if an_abort a2 then [] else [view e'])"
    "lo_no lo3 \<le> Suc (lo_no lo)" "lo_data lo3 = lo_data lo" "lo_offset lo3 = lo_offset lo"
    "lo_events lo3 = lo_events lo" "lo_size lo3 = Some k" "an_derived a3 = s'"
    "an_out a3 = an_out a" "an_threshold a3 = an_threshold a" "an_partial a3 = pa"
    using keep_event_owned [OF a2(2) n2 a2(3) k3] by (simp_all add: a2)
  have n3: "lo_no lo3 \<le> unat (an_threshold a3)" "an_threshold a3 \<noteq> 0" "batches_within a3"
    using a3(4,10,11) st by (auto simp: between_def batches_within_def)
  obtain a4 lo4 ps4 where a4: "next_entity a3 lo3 = Next a4 lo4" "between m a4 lo4 ps4 (d + unat k)"
    "lo_events lo4 = (if pa then lo_events lo else lo_events lo - 1)" "an_derived a4 = s'"
    "an_threshold a4 = an_threshold a" "seen a4 @ list_views a4 ps4 = seen a3 @ list_views a3 ?ps"
    using next_entity_between [OF a3(1,2) n3(1,2) _ _ a3(8) e'(3) n3(3)] a3 st by (auto simp: between_def)
  have "physics_step oe nBufferSize a lo = Next a4 lo4"
    using st d c(1) a2(1) k3 e'(2) a4(1)
    by (auto simp: physics_step_def physics_entity_def Let_def between_def word_le_nat_alt)
  moreover have "seen a3 = seen a" using a3(10) by (simp add: seen_def)
  ultimately show ?thesis
    using e e'(2,6) a4 a3(3) a2(4,7) by (intro exI [of _ a4] exI [of _ lo4] exI [of _ ps4]) auto
qed

text \<open>The whole loop against the reference.\<close>

lemma loop_delivers:
  assumes "between m a lo ps d" "good d (an_derived a)" "bs = unat nBufferSize" "bs = 0 \<Longrightarrow> ps = []"
    and "unat (lo_events lo) + (bs - d) \<le> m" "m < 2 ^ 64 - 2" "unat (lo_events lo) + (bs - d) < k"
  shows "\<exists>a'. physics_loop k oe nBufferSize a lo = Done a' \<and>
     at_rest a' (m - (unat (lo_events lo) + (bs - d))) \<and> batches_within a' \<and>
     an_threshold a' = an_threshold a \<and>
     seen a' = seen a @ list_views a ps @
       map view (fst (unpack_all oe bs (unat (lo_events lo)) d (an_derived a))) \<and>
     an_derived a' = snd (unpack_all oe bs (unat (lo_events lo)) d (an_derived a))"
  using assms
proof (induction k arbitrary: m a lo ps d)
  case (Suc k)
  have o: "owned a ps [] m" and n: "length ps = lo_no lo" "lo_no lo \<le> unat (an_threshold a)"
    and d: "unat (lo_offset lo) = d" and b: "batches_within a"
    using Suc.prems(1) by (auto simp: between_def)
  let ?b = "a\<lparr> an_partial := False \<rparr>" and ?k = "m - (unat (lo_events lo) + (bs - d))"
  have flush: "\<exists>a'. histogram_and_clear b = Some a' \<and> at_rest a' ?k \<and> seen a' = seen a @ list_views a ps \<and>
      an_derived a' = an_derived a \<and> an_threshold a' = an_threshold a \<and> batches_within a'"
    if "b \<in> {a, ?b}" for b
  proof -
    have "owned b ps [] ?k" "seen b = seen a" "list_views b ps = list_views a ps" "an_derived b = an_derived a"
      "an_threshold b = an_threshold a" "batches_within b"
      using owned_mono [OF o, of ?k] b that by (auto simp: seen_def list_views_def batches_within_def)
    then show ?thesis using histogram_and_clear_owned [of b ps ?k] n by auto
  qed
  consider "lo_events lo = 0" | "lo_events lo \<noteq> 0" "bs \<le> d" | "lo_events lo \<noteq> 0" "d < bs" by linarith
  then show ?case
  proof cases
    case 1
    show ?thesis
    proof (cases "lo_no lo = 0")
      case True
      then have "ps = []" using n by simp
      then show ?thesis
        using 1 True owned_mono [OF o, of ?k] b by (simp add: list_views_def unpack_all.simps)
    next
      case False
      then show ?thesis using flush [of a] 1 by (auto simp: unpack_all.simps)
    qed
  next
    case 2
    have le: "nBufferSize \<le> lo_offset lo" using 2 d Suc.prems(3) by (simp add: word_le_nat_alt)
    show ?thesis
    proof (cases "lo_offset lo = 0 \<and> nBufferSize = 0")
      case True
      then have ps: "ps = []" using Suc.prems(3,4) by simp
      have "at_rest (ClearEventList ?b) ?k"
        by (rule owned_move [OF owned_mono [OF o, of ?k]])
          (use o ps in \<open>auto simp: ClearEventList_def list_holds_def owned_def map_replicate_const\<close>)
      then show ?thesis
        using True ps 2 le b
        by (auto simp: physics_step_def unpack_all.simps list_views_def seen_def ClearEventList_def batches_within_def)
    next
      case False
      then show ?thesis using flush [of ?b] 2 le by (auto simp: physics_step_def unpack_all.simps Let_def)
    qed
  next
    case 3
    obtain m' where m': "m = Suc m'" using 3 Suc.prems(5) by (cases m) auto
    obtain a' lo' ps' s' e ab pa j where s: "oe d new_event (an_derived a) = (s', e, ab, pa, Size j)" "j \<noteq> 0"
      "physics_step oe nBufferSize a lo = Next a' lo'" "between m' a' lo' ps' (d + unat j)"
      "lo_events lo' = (if pa then lo_events lo else lo_events lo - 1)" "an_derived a' = s'"
      "good (d + unat j) s'" "an_threshold a' = an_threshold a"
      "seen a' @ list_views a' ps' = (seen a @ list_views a ps) @ (if ab then [] else [view e])"
      using entity_step [OF Suc.prems(1) [unfolded m'] _ Suc.prems(2) 3(2) Suc.prems(3)] Suc.prems(6) m'
      by auto
    have n': "unat (lo_events lo') = (if pa then unat (lo_events lo) else unat (lo_events lo) - 1)"
      using s(5) 3(1) by (simp add: unat_minus_one)
    have pos: "0 < unat j" "0 < unat (lo_events lo)" using s(2) 3(1) by (simp_all add: unat_gt_0)
    from pos have dec: "unat (lo_events lo') + (bs - (d + unat j)) < unat (lo_events lo) + (bs - d)"
      using n' 3(2) by auto
    have "\<exists>a''. physics_loop k oe nBufferSize a' lo' = Done a'' \<and>
     at_rest a'' (m' - (unat (lo_events lo') + (bs - (d + unat j)))) \<and> batches_within a'' \<and>
     an_threshold a'' = an_threshold a' \<and>
     seen a'' = seen a' @ list_views a' ps' @
       map view (fst (unpack_all oe bs (unat (lo_events lo')) (d + unat j) (an_derived a'))) \<and>
     an_derived a'' = snd (unpack_all oe bs (unat (lo_events lo')) (d + unat j) (an_derived a'))"
      using Suc.IH [OF s(4) _ Suc.prems(3)] s(6,7) 3(2) dec Suc.prems(5,6,7) m' by auto
    moreover have "?k \<le> m' - (unat (lo_events lo') + (bs - (d + unat j)))" using dec m' by linarith
    moreover have "unpack_all oe bs (unat (lo_events lo)) d (an_derived a) =
        (let (es, s'') = unpack_all oe bs (unat (lo_events lo')) (d + unat j) s'
         in ((if ab then [] else [e]) @ es, s''))"
      using s(1,2) 3(2) n' pos by (subst unpack_all.simps) (simp add: not_le)
    ultimately show ?thesis
      using 3 s(3,6,8,9) by (auto simp: case_prod_unfold Let_def intro: owned_mono)
  qed
qed simp

text \<open>OnPhysics on an analyzer that holds no events in its list.\<close>

lemma OnPhysics_delivers:
  assumes "at_rest a m" "batches_within a" "an_threshold a \<noteq> 0" "good 0 (an_derived a)"
    and "bs = unat nBufferSize" "unat nEvents + bs \<le> m" "m < 2 ^ 64 - 2" "unat nEvents + bs < k"
  shows "\<exists>a'. OnPhysics k oe nEvents nBufferSize a = Done a' \<and>
     at_rest a' (m - (unat nEvents + bs)) \<and> batches_within a' \<and> an_threshold a' = an_threshold a \<and>
     seen a' = seen a @ map view (fst (unpack_all oe bs (unat nEvents) 0 (an_derived a))) \<and>
     an_derived a' = snd (unpack_all oe bs (unat nEvents) 0 (an_derived a))"
proof -
  have "between m a (start_locals nEvents) [] 0"
    using assms(1-3) by (simp add: between_def start_locals_def unat_gt_0)
  from loop_delivers [OF this assms(4,5), of k] show ?thesis
    using assms(6-8) by (auto simp: OnPhysics_def start_locals_def list_views_def)
qed

end

lemma new_analyzer_at_rest [simp]:
  "unat nParams \<le> max_params \<Longrightarrow> at_rest (new_analyzer nParams nThreshold s) m"
  by (auto simp: owned_def new_analyzer_def list_holds_def)

lemma new_analyzer_fields [simp]:
  "an_derived (new_analyzer nParams nThreshold s) = s" "seen (new_analyzer nParams nThreshold s) = []"
  "an_threshold (new_analyzer nParams nThreshold s) = nThreshold"
  "batches_within (new_analyzer nParams nThreshold s)" "an_out (new_analyzer nParams nThreshold s) = []"
  by (simp_all add: new_analyzer_def seen_def batches_within_def)

text \<open>
  C18. OnPhysics with an OnEvent that keeps its contract (it reports the size of each
  entity, and what it makes of an event depends only on the event being empty): within
  one iteration per entity and byte it returns; the event sinks have then seen the events
  accepted from the body, each once, in order, with the contents they have when every
  entity is unpacked into an event of its own, in batches of at most the threshold; the
  event list is empty again and every event allocated is back in the pool.
\<close>

theorem physics_delivers:
  assumes "packer oe (unat nBufferSize) good" and "at_rest a m" "batches_within a" "an_threshold a \<noteq> 0"
    and "good 0 (an_derived a)" "unat nEvents + unat nBufferSize \<le> m" "m < 2 ^ 64 - 2"
  shows "\<exists>a'. OnPhysics (Suc (unat nEvents + unat nBufferSize)) oe nEvents nBufferSize a = Done a' \<and>
     seen a' = seen a @ map view (fst (unpack_all oe (unat nBufferSize) (unat nEvents) 0 (an_derived a))) \<and>
     an_derived a' = snd (unpack_all oe (unat nBufferSize) (unat nEvents) 0 (an_derived a)) \<and>
     batches_within a' \<and> at_rest a' (m - (unat nEvents + unat nBufferSize))"
  using packer.OnPhysics_delivers [OF assms(1-5) refl assms(6,7) lessI] by auto

text \<open>A packer that sets parameter 3 to the offset of each entity and rejects the second.\<close>

definition demo_packer :: "nat on_event" where
  "demo_packer d e s =
     (Suc s, (case ev_set 3 (of_nat d) e of Some e' \<Rightarrow> e' | None \<Rightarrow> e), d = 4, False, Size 4)"

lemma demo_view:
  assumes "blank e"
  shows "\<exists>e'. ev_set 3 v e = Some e' \<and> ev_ok e' \<and> ev_serial e' = ev_serial e \<and> view e' = ([3 \<mapsto> v], [3])"
proof -
  have e: "ev_ok e" "ev_abs e = Map.empty" "ev_order e = []" and l: "unat (3 :: u32) < max_params"
    using assms by (auto simp: blank_def view_def max_params_def)
  show ?thesis by (rule ev_set_spec [OF e(1) l, of v]) (auto simp: view_def e)
qed

lemma demo_packer: "packer demo_packer 12 (\<lambda>d s. True)"
proof (unfold_locales, goal_cases)
  case (1 d s e)
  then show ?case using demo_view [of e "of_nat d"] by (auto simp: demo_packer_def)
next
  case (2 d s e)
  then show ?case
    using demo_view [of e "of_nat d"] demo_view [of new_event "of_nat d"] by (auto simp: demo_packer_def)
qed

lemma demo_views: "map view (fst (unpack_all demo_packer 12 3 0 s)) = [([3 \<mapsto> 0], [3]), ([3 \<mapsto> 8], [3])]"
  using demo_view [of new_event 0] demo_view [of new_event 8]
  by (auto simp: unpack_all.simps demo_packer_def)

theorem physics_delivers_witness:
  "\<exists>a'. OnPhysics 16 demo_packer 3 12 (new_analyzer 16 2 0) = Done a' \<and>
     seen a' = [([3 \<mapsto> 0], [3]), ([3 \<mapsto> 8], [3])]"
  using physics_delivers [of demo_packer 12 "\<lambda>d s. True" "new_analyzer 16 2 0" 15 3] demo_packer demo_views
  by (auto simp: max_params_def)

subsection \<open>Broken contracts\<close>

text \<open>The first entity of a buffer, whatever OnEvent does with it.\<close>

lemma first_entity:
  assumes o: "owned a ps [] (Suc m)" and m: "Suc m < 2 ^ 64 - 2" 
  shows "\<exists>a1 p e1. blank e1 \<and> an_heap a1 p = Some e1 \<and> owned a1 ps [p] m \<and>
     an_list a1 = an_list a \<and> (\<forall>q \<in> set ps. an_heap a1 q = an_heap a q) \<and>
     an_out a1 = an_out a \<and> an_derived a1 = an_derived a \<and> an_threshold a1 = an_threshold a \<and>
     \<not> an_partial a1 \<and> CreateEvent (a\<lparr> an_partial := False \<rparr>) = Some (a1, p) \<and>
     (\<forall>lo. lo_offset lo < nBufferSize \<longrightarrow> lo_events lo \<noteq> 0 \<longrightarrow>
        physics_step oe nBufferSize a lo = physics_entity oe (a\<lparr> an_partial := False \<rparr>) lo)"
proof -
  have o': "owned (a\<lparr> an_partial := False \<rparr>) ps [] (Suc m)" using o by simp
  show ?thesis
    using CreateEvent_owned [OF o' m] by (auto simp: physics_step_def Let_def)
qed

lemma delete_owned:
  assumes o: "owned a ps [p] m"
  shows "\<exists>a'. delete_event p a = Some a' \<and> owned a' ps [] m \<and> an_heap a' = (an_heap a)(p := None) \<and>
    an_list a' = an_list a \<and> an_pool a' = an_pool a \<and> an_out a' = an_out a \<and>
    an_derived a' = an_derived a \<and> an_threshold a' = an_threshold a"
proof -
  have p: "an_heap a p \<noteq> None" "p \<notin> set ps" "p \<notin> set (pool_ptrs (an_pool a))"
    using o by (auto simp: owned_def event_usable_def)
  let ?a = "a\<lparr> an_heap := (an_heap a)(p := None) \<rparr>"
  have "{q. an_heap ?a q \<noteq> None} = {q. an_heap a q \<noteq> None} - {p}" by auto
  moreover have "event_usable (an_heap ?a) m q" if "q \<in> set (ps @ pool_ptrs (an_pool a))" for q
    using that o p by (cases "q = p") (auto simp: owned_def event_usable_def)
  ultimately have "owned ?a ps [] m"
    using o p unfolding owned_def by auto
  then show ?thesis using p(1) by (simp add: delete_event_def)
qed

lemma CreateEvent_freed:
  "an_pool a = l @ [Some p] \<Longrightarrow> an_heap a p = None \<Longrightarrow> CreateEvent a = None"
  by (simp add: CreateEvent_def)

text \<open>An event of size zero is freed while the event list or the pool still refers to it.\<close>

lemma zero_size_event:
  assumes "at_rest a (Suc m)" "Suc m < 2 ^ 64 - 2" "nEvents \<noteq> 0" "nBufferSize \<noteq> 0"
    and oe: "\<forall>e. blank e \<longrightarrow> (\<exists>s' e'. oe 0 e (an_derived a) = (s', e', ab, False, Size 0))"
  shows "\<exists>a' p. OnPhysics (Suc k) oe nEvents nBufferSize a = Done a' \<and> an_heap a' p = None \<and>
     (if ab then (\<forall>k' oe' nEvents' nBufferSize'. nEvents' \<noteq> 0 \<and> nBufferSize' \<noteq> 0 \<longrightarrow>
                    OnPhysics (Suc k') oe' nEvents' nBufferSize' a' = Undefined)
      else an_list a' ! 0 = Some p)"
proof -
  let ?lo = "start_locals nEvents"
  obtain a1 p e1 where c: "blank e1" "an_heap a1 p = Some e1" "owned a1 [] [p] m" "an_list a1 = an_list a"
    "an_derived a1 = an_derived a" "\<not> an_partial a1" "CreateEvent (a\<lparr> an_partial := False \<rparr>) = Some (a1, p)"
    "\<forall>lo. lo_offset lo < nBufferSize \<longrightarrow> lo_events lo \<noteq> 0 \<longrightarrow>
        physics_step oe nBufferSize a lo = physics_entity oe (a\<lparr> an_partial := False \<rparr>) lo"
    using first_entity [OF assms(1,2), of nBufferSize oe] by auto
  obtain s' e' where e': "oe 0 e1 (an_derived a1) = (s', e', ab, False, Size 0)" using oe c(1,5) by auto
  obtain a2 where a2: "call_OnEvent oe 0 p (a1\<lparr> an_abort := False \<rparr>) = (a2, Size 0)" "an_heap a2 p = Some e'"
    "an_abort a2 = ab" "\<not> an_partial a2" "an_list a2 = an_list a1"
    using e' c(2,6) by (auto simp: call_OnEvent_def Let_def AbortEvent_def)
  have st: "physics_step oe nBufferSize a ?lo = physics_entity oe (a\<lparr> an_partial := False \<rparr>) ?lo"
    using c(8) assms(3,4) by (simp add: start_locals_def word_neq_0_conv)
  show ?thesis
  proof (cases ab)
    case True
    let ?a = "(ReturnEvent p a2)\<lparr> an_heap := (an_heap a2)(p := None) \<rparr>"
    have "OnPhysics (Suc k) oe nEvents nBufferSize a = Done ?a"
      using st c(7) a2 assms(3) True
      by (simp add: OnPhysics_def physics_entity_def keep_event_def ReturnEvent_def delete_event_def start_locals_def)
    moreover have "CreateEvent (?a\<lparr> an_partial := False \<rparr>) = None"
      by (rule CreateEvent_freed [where l = "an_pool a2" and p = p]) (simp_all add: ReturnEvent_def)
    then have "OnPhysics (Suc k') oe' n' b' ?a = Undefined" if "n' \<noteq> 0" "b' \<noteq> 0" for k' oe' n' b'
      using that by (simp add: OnPhysics_def physics_step_def physics_entity_def start_locals_def)
    ultimately show ?thesis using True by (intro exI [of _ ?a] exI [of _ p]) auto
  next
    case False
    let ?l = "el_set 0 (Some p) (an_list a2)"
    let ?a = "a2\<lparr> an_list := ?l, an_heap := (an_heap a2)(p := None) \<rparr>"
    have "OnPhysics (Suc k) oe nEvents nBufferSize a = Done ?a"
      using st c(7) a2 assms(3) False
      by (simp add: OnPhysics_def physics_entity_def keep_event_def delete_event_def start_locals_def)
    moreover have "?l ! 0 = Some p"
      using el_at_prefix [of 0 "an_list a2"] by (auto simp: el_set_def)
    ultimately show ?thesis using False by (intro exI [of _ ?a] exI [of _ p]) auto
  qed
qed

text \<open>The buffer of one accepted entity that follows.\<close>

lemma one_entity:
  assumes o: "owned a (p0 # ps) [] (Suc m)" and m: "Suc m < 2 ^ 64 - 2" and b: "nBufferSize \<noteq> 0"
    and t: "1 < unat (an_threshold a)"
    and oe: "\<forall>e. blank e \<longrightarrow> (\<exists>s' e'. oe 0 e (an_derived a) = (s', e', False, False, Size n) \<and> view e' = v)"
    and n: "n \<noteq> 0"
  shows "\<exists>a' es. OnPhysics (Suc (Suc k)) oe 1 nBufferSize a = Done a' \<and> an_out a' = an_out a @ [es] \<and>
     map view es = v # list_views a ps \<and> an_heap a' p0 \<noteq> None \<and>
     p0 \<notin> set (pool_ptrs (an_pool a')) \<and> Some p0 \<notin> set (an_list a')"
proof -
  let ?lo = "start_locals 1"
  obtain a1 p e1 where c: "blank e1" "an_heap a1 p = Some e1" "owned a1 (p0 # ps) [p] m" "an_list a1 = an_list a"
    "\<forall>q \<in> set ps. an_heap a1 q = an_heap a q" "an_out a1 = an_out a"
    "an_derived a1 = an_derived a" "an_threshold a1 = an_threshold a" "\<not> an_partial a1"
    "CreateEvent (a\<lparr> an_partial := False \<rparr>) = Some (a1, p)"
    "\<forall>lo. lo_offset lo < nBufferSize \<longrightarrow> lo_events lo \<noteq> 0 \<longrightarrow>
        physics_step oe nBufferSize a lo = physics_entity oe (a\<lparr> an_partial := False \<rparr>) lo"
    using first_entity [OF o m, of nBufferSize oe] by auto
  obtain s' e' where e': "oe 0 e1 (an_derived a1) = (s', e', False, False, Size n)" "view e' = v"
    using oe c(1,7) by auto
  obtain k where l: "an_list a = map Some (p0 # ps) @ replicate k None"
    using o by (auto simp: owned_def list_holds_def)
  have d: "p \<notin> set (p0 # ps)" "p0 \<notin> set ps" "p0 \<notin> set (pool_ptrs (an_pool a1))"
    and live: "an_heap a1 p0 \<noteq> None" "\<forall>q \<in> set ps. an_heap a1 q \<noteq> None"
    using c(3) by (auto simp: owned_def event_usable_def)
  let ?l = "map Some (p # ps) @ replicate k None"
  let ?h = "(an_heap a1)(p \<mapsto> e')"
  let ?a = "a1\<lparr> an_heap := ?h, an_derived := s', an_abort := False, an_list := ?l \<rparr>"
  have ls: "el_set 0 (Some p) (an_list a1) = ?l"
    using l c(4) by (simp add: el_set_def el_at_le)
  have pos: "0 < nBufferSize" using b by (simp add: word_neq_0_conv)
  have st: "physics_step oe nBufferSize a ?lo =
      Next ?a (?lo\<lparr> lo_events := 0, lo_no := 1, lo_size := Some n, lo_data := unat n, lo_offset := n \<rparr>)"
    using c(8,9,10,11) pos e'(1) c(2) ls n t
    by (simp add: start_locals_def physics_entity_def call_OnEvent_def keep_event_def next_entity_def)
  have eq: "map (\<lambda>q. the (?h q)) ps = map (\<lambda>q. the (an_heap a q)) ps" using c(5) d(1) by auto
  have "read_events ?h ?l = Some (e' # map (\<lambda>q. the (an_heap a q)) ps)"
    using read_events_prefix [of "p # ps" ?h k] live(2) d(1) eq by simp
  then have h: "histogram_and_clear ?a =
      Some (ClearEventList (?a\<lparr> an_out := an_out a @ [e' # map (\<lambda>q. the (an_heap a q)) ps] \<rparr>))"
    using c(6) by (simp add: histogram_and_clear_def HistogramEvents_def)
  show ?thesis
    using st h d live(1) e'(2) by (auto simp: OnPhysics_def start_locals_def ClearEventList_def list_views_def)
qed

text \<open>
  C19. When OnEvent throws an exception that is not recovered, the events accepted before
  it in the same buffer are not histogrammed with it, but stay in the event list.  The
  next buffer overwrites them from the front: if it holds one accepted event, the sinks
  get that event together with all of the old events but the first, and the first old
  event is neither delivered nor returned to the pool.
\<close>

theorem exception_events_linger:
  assumes st: "between (Suc (Suc m)) a lo (p0 # ps) d" and m: "Suc (Suc m) < 2 ^ 64 - 2"
    and lo: "lo_events lo \<noteq> 0" "d < unat nBufferSize"
    and throws: "\<forall>e. blank e \<longrightarrow> (\<exists>e' ab pa. oe d e (an_derived a) = (s', e', ab, pa, OtherError))"
    and accepts: "\<forall>e. blank e \<longrightarrow> (\<exists>s'' e'. oe' 0 e s' = (s'', e', False, False, Size n) \<and> view e' = v)"
    and n: "n \<noteq> 0"
  shows "\<exists>a' a'' es. physics_loop (Suc k) oe nBufferSize a lo = Done a' \<and> an_out a' = an_out a \<and>
     OnPhysics (Suc (Suc k)) oe' 1 nBufferSize a' = Done a'' \<and> an_out a'' = an_out a @ [es] \<and>
     map view es = v # list_views a ps \<and> an_heap a'' p0 \<noteq> None \<and>
     p0 \<notin> set (pool_ptrs (an_pool a'')) \<and> Some p0 \<notin> set (an_list a'')"
proof -
  have o: "owned a (p0 # ps) [] (Suc (Suc m))" and t: "1 < unat (an_threshold a)" and b: "nBufferSize \<noteq> 0"
    and off: "lo_offset lo < nBufferSize" "lo_data lo = d"
    using st lo by (auto simp: between_def word_less_nat_alt)
  obtain a1 p e1 where c: "blank e1" "an_heap a1 p = Some e1" "owned a1 (p0 # ps) [p] (Suc m)"
    "\<forall>q \<in> set (p0 # ps). an_heap a1 q = an_heap a q" "an_out a1 = an_out a"
    "an_derived a1 = an_derived a" "an_threshold a1 = an_threshold a"
    "CreateEvent (a\<lparr> an_partial := False \<rparr>) = Some (a1, p)"
    "physics_step oe nBufferSize a lo = physics_entity oe (a\<lparr> an_partial := False \<rparr>) lo"
    using first_entity [OF o m, of nBufferSize oe] off(1) lo(1) by auto
  have vs: "list_views a1 ps = list_views a ps" using c(4) by (simp add: list_views_def)
  obtain e' ab pa where e': "oe d e1 (an_derived a1) = (s', e', ab, pa, OtherError)"
    using throws c(1,6) by auto
  let ?a2 = "a1\<lparr> an_heap := (an_heap a1)(p := None), an_derived := s', an_abort := ab,
                an_partial := (pa \<or> an_partial a1) \<rparr>"
  have "physics_loop (Suc k) oe nBufferSize a lo = Done ?a2"
    using lo(1) c(2,8,9) e' off(2)
    by (cases ab; cases pa)
      (simp_all add: physics_entity_def call_OnEvent_def delete_event_def AbortEvent_def entityNotDone_def)
  moreover have "owned ?a2 (p0 # ps) [] (Suc m)"
    using delete_owned [OF c(3)] c(2) by (auto simp: delete_event_def owned_def)
  moreover have "list_views ?a2 ps = list_views a ps"
    using vs c(3) by (auto simp: list_views_def owned_def)
  ultimately show ?thesis
    using one_entity [of ?a2 p0 ps m nBufferSize oe' n v k] m b t accepts n c(5,7) by auto
qed


text \<open>Two events are in the list when the third entity of the buffer throws.\<close>

definition two_events :: "nat analyzer" where
  "two_events = (new_analyzer 16 3 0)\<lparr>
     an_list := [Some 0, Some 1, None], an_pool := [],
     an_heap := [0 \<mapsto> new_event, Suc 0 \<mapsto> new_event], an_next := 2 \<rparr>"

definition at_third :: locals where
  "at_third = \<lparr> lo_events = 2, lo_no = 2, lo_data = 8, lo_offset = 8, lo_size = Some 4 \<rparr>"

theorem exception_events_linger_witness:
  "\<exists>a' a'' es. physics_loop (Suc 0) (\<lambda>d e s. (s, e, False, False, OtherError)) 16 two_events at_third = Done a' \<and>
     an_out a' = [] \<and> OnPhysics (Suc (Suc 0)) demo_packer 1 16 a' = Done a'' \<and> an_out a'' = [es] \<and>
     map view es = [([3 \<mapsto> 0], [3]), (Map.empty, [])] \<and> an_heap a'' 0 \<noteq> None \<and>
     0 \<notin> set (pool_ptrs (an_pool a''))"
proof -
  have "ev_serial new_event = 0" by (simp add: new_event_def)
  moreover have "list_holds (an_list two_events) [0, Suc 0]"
    by (auto simp: list_holds_def two_events_def intro: exI [of _ 1])
  ultimately have b: "between (Suc (Suc 0)) two_events at_third [0, Suc 0] 8"
    by (auto simp: between_def owned_def two_events_def at_third_def new_analyzer_def
        event_usable_def batches_within_def max_params_def)
  have v: "list_views two_events [Suc 0] = [(Map.empty, [])]"
    using blank_new_event by (simp add: list_views_def two_events_def blank_def)
  have acc: "\<forall>e. blank e \<longrightarrow> (\<exists>s'' e'. demo_packer 0 e 0 = (s'', e', False, False, Size 4) \<and> view e' = ([3 \<mapsto> 0], [3]))"
    using demo_view [of _ 0] by (fastforce simp: demo_packer_def)
  let ?oe = "(\<lambda>d e s. (s, e, False, False, OtherError)) :: nat on_event"
  have thr: "\<forall>e. blank e \<longrightarrow> (\<exists>e' ab pa. ?oe 8 e (an_derived two_events) = (0, e', ab, pa, OtherError))"
    by (simp add: two_events_def new_analyzer_def, blast)
  obtain a' a'' es where *: "physics_loop (Suc 0) ?oe 16 two_events at_third = Done a'" "an_out a' = an_out two_events"
    "OnPhysics (Suc (Suc 0)) demo_packer 1 16 a' = Done a''" "an_out a'' = an_out two_events @ [es]"
    "map view es = ([3 \<mapsto> 0], [3]) # list_views two_events [Suc 0]" "an_heap a'' 0 \<noteq> None"
    "0 \<notin> set (pool_ptrs (an_pool a''))"
    using exception_events_linger [where m = 0 and s' = 0 and n = 4 and oe = ?oe and nBufferSize = 16 and k = 0 and oe' = demo_packer,
        OF b _ _ _ thr acc]
    by (auto simp: at_third_def simp del: physics_loop.simps)
  moreover have "an_out two_events = []" by (simp add: two_events_def)
  ultimately show ?thesis
    using v by (intro exI [of _ a'] exI [of _ a''] exI [of _ es]) (simp del: physics_loop.simps)
qed

end
