(* ===== verification/Pipelines.thy ===== *)
theory Pipelines
  imports Prelude
begin

text \<open>
  Event processing pipelines (src/main/Core/CPipelineManager.cpp, with the wrappers of
  SpecTcl.cpp) and the event sink pipeline (EventSinkPipeline.cpp).  Processors and sinks are
  identities; their OnAttach and OnDetach calls are recorded in order.  A pipeline is
  never deleted, so the pointer to the current one is its name; a list iterator is a
  position in the list it belongs to, and a position past the end is undefined.
\<close>

subsection \<open>The pipeline manager\<close>

type_synonym element = "string \<times> nat"

datatype pm_error =
    DuplicateProcessor string
  | NoSuchProcessor string
  | DuplicatePipeline string
  | NoSuchPipeline string
  | NotInPipeline string string
  | NotRegistered

datatype pm_call = OnAttach nat | OnDetach nat

record pipelines =
  pm_pipelines :: "(string \<times> element list) list"
  pm_processors :: "(string \<times> nat) list"
  pm_pCurrent :: "string option"
  pm_currentName :: string
  pm_calls :: "pm_call list"

datatype 'a pm_result = PmOk 'a | PmThrows pm_error | PmUndefined

fun bind_pm :: "'a pm_result \<Rightarrow> ('a \<Rightarrow> 'b pm_result) \<Rightarrow> 'b pm_result" where
  "bind_pm (PmOk x) f = f x"
| "bind_pm (PmThrows e) f = PmThrows e"
| "bind_pm PmUndefined f = PmUndefined"

definition pm_log :: "pm_call list \<Rightarrow> pipelines \<Rightarrow> pipelines" where
  "pm_log cs s = s\<lparr> pm_calls := pm_calls s @ cs \<rparr>"

definition registerEventProcessor :: "string \<Rightarrow> nat \<Rightarrow> pipelines \<Rightarrow> pipelines pm_result" where
  "registerEventProcessor nm p s =
     (if smap_get (pm_processors s) nm \<noteq> None then PmThrows (DuplicateProcessor nm)
      else PmOk (s\<lparr> pm_processors := smap_put nm p (pm_processors s) \<rparr>))"

definition unregisterEventProcessor :: "string \<Rightarrow> pipelines \<Rightarrow> (pipelines \<times> nat) pm_result" where
  "unregisterEventProcessor nm s = (case smap_get (pm_processors s) nm of
      Some p \<Rightarrow> PmOk (s\<lparr> pm_processors := smap_erase nm (pm_processors s) \<rparr>, p)
    | None \<Rightarrow> PmThrows (NoSuchProcessor nm))"

definition createPipeline :: "string \<Rightarrow> pipelines \<Rightarrow> pipelines pm_result" where
  "createPipeline nm s =
     (if smap_get (pm_pipelines s) nm \<noteq> None then PmThrows (DuplicatePipeline nm)
      else PmOk (s\<lparr> pm_pipelines := smap_put nm [] (pm_pipelines s) \<rparr>))"

definition attachIfCurrent :: "string \<Rightarrow> nat \<Rightarrow> pipelines \<Rightarrow> pipelines" where
  "attachIfCurrent pipe p s = (if pm_pCurrent s = Some pipe then pm_log [OnAttach p] s else s)"

text \<open>
  The condition is an assignment to the argument: true whenever there is a current
  pipeline, whichever pipeline the processor is taken from.
\<close>

definition detachIfCurrent :: "string \<Rightarrow> nat \<Rightarrow> pipelines \<Rightarrow> pipelines" where
  "detachIfCurrent pipe p s = (if pm_pCurrent s \<noteq> None then pm_log [OnDetach p] s else s)"

definition set_pipe :: "string \<Rightarrow> element list \<Rightarrow> pipelines \<Rightarrow> pipelines" where
  "set_pipe nm els s = s\<lparr> pm_pipelines := smap_put nm els (pm_pipelines s) \<rparr>"

definition appendEventProcessor :: "string \<Rightarrow> string \<Rightarrow> pipelines \<Rightarrow> pipelines pm_result" where
  "appendEventProcessor pipe evp s = (case smap_get (pm_pipelines s) pipe of
      None \<Rightarrow> PmThrows (NoSuchPipeline pipe)
    | Some els \<Rightarrow> (case smap_get (pm_processors s) evp of
         None \<Rightarrow> PmThrows (NoSuchProcessor evp)
       | Some p \<Rightarrow> PmOk (attachIfCurrent pipe p (set_pipe pipe (els @ [(evp, p)]) s))))"

definition insertEventProcessor :: "string \<Rightarrow> string \<Rightarrow> nat \<Rightarrow> pipelines \<Rightarrow> pipelines pm_result" where
  "insertEventProcessor pipe evp i s = (case smap_get (pm_pipelines s) pipe of
      None \<Rightarrow> PmThrows (NoSuchPipeline pipe)
    | Some els \<Rightarrow> (case smap_get (pm_processors s) evp of
         None \<Rightarrow> PmThrows (NoSuchProcessor evp)
       | Some p \<Rightarrow>
           (if length els < i then PmUndefined
            else PmOk (attachIfCurrent pipe p (set_pipe pipe (take i els @ (evp, p) # drop i els) s)))))"

definition removeEventProcessor_at :: "string \<Rightarrow> nat \<Rightarrow> pipelines \<Rightarrow> pipelines pm_result" where
  "removeEventProcessor_at pipe i s = (case smap_get (pm_pipelines s) pipe of
      None \<Rightarrow> PmThrows (NoSuchPipeline pipe)
    | Some els \<Rightarrow>
       (if length els \<le> i then PmUndefined
        else PmOk (set_pipe pipe (take i els @ drop (Suc i) els) (detachIfCurrent pipe (snd (els ! i)) s))))"

fun find_processor :: "nat \<Rightarrow> nat \<Rightarrow> element list \<Rightarrow> nat option" where
  "find_processor p i [] = None"
| "find_processor p i (e # els) = (if p = snd e then Some i else find_processor p (Suc i) els)"

definition removeEventProcessor :: "string \<Rightarrow> string \<Rightarrow> pipelines \<Rightarrow> pipelines pm_result" where
  "removeEventProcessor pipe evp s = (case smap_get (pm_pipelines s) pipe of
      None \<Rightarrow> PmThrows (NoSuchPipeline pipe)
    | Some els \<Rightarrow> (case smap_get (pm_processors s) evp of
         None \<Rightarrow> PmThrows (NoSuchProcessor evp)
       | Some p \<Rightarrow> (case find_processor p 0 els of
            Some i \<Rightarrow> removeEventProcessor_at pipe i s
          | None \<Rightarrow> PmThrows (NotInPipeline evp pipe))))"

definition current_elements :: "pipelines \<Rightarrow> element list" where
  "current_elements s = (case pm_pCurrent s of
      None \<Rightarrow> []
    | Some nm \<Rightarrow> (case smap_get (pm_pipelines s) nm of Some els \<Rightarrow> els | None \<Rightarrow> []))"

definition detachAll :: "pipelines \<Rightarrow> pipelines" where
  "detachAll s = pm_log (map (\<lambda>e. OnDetach (snd e)) (current_elements s)) s"

definition attachAll :: "pipelines \<Rightarrow> pipelines" where
  "attachAll s = pm_log (map (\<lambda>e. OnAttach (snd e)) (current_elements s)) s"

definition setCurrentPipeline :: "string \<Rightarrow> pipelines \<Rightarrow> pipelines pm_result" where
  "setCurrentPipeline nm s = (case smap_get (pm_pipelines s) nm of
      None \<Rightarrow> PmThrows (NoSuchPipeline nm)
    | Some els \<Rightarrow> PmOk (attachAll ((detachAll s)\<lparr> pm_pCurrent := Some nm, pm_currentName := nm \<rparr>)))"

definition clonePipeline :: "string \<Rightarrow> string \<Rightarrow> pipelines \<Rightarrow> pipelines pm_result" where
  "clonePipeline from to s = (case smap_get (pm_pipelines s) from of
      None \<Rightarrow> PmThrows (NoSuchPipeline from)
    | Some els \<Rightarrow> bind_pm (createPipeline to s) (\<lambda>s'. PmOk (set_pipe to els s')))"

definition new_pipelines :: "pipelines pm_result" where
  "new_pipelines = bind_pm (createPipeline ''default''
       \<lparr> pm_pipelines = [], pm_processors = [], pm_pCurrent = None, pm_currentName = [], pm_calls = [] \<rparr>)
     (setCurrentPipeline ''default'')"

definition getEventProcessorsInPipeline :: "string \<Rightarrow> pipelines \<Rightarrow> string list pm_result" where
  "getEventProcessorsInPipeline nm s = (case smap_get (pm_pipelines s) nm of
      None \<Rightarrow> PmThrows (NoSuchPipeline nm)
    | Some els \<Rightarrow> PmOk (map fst els))"

fun lookup_loop :: "nat \<Rightarrow> (string \<times> nat) list \<Rightarrow> string pm_result" where
  "lookup_loop p [] = PmThrows NotRegistered"
| "lookup_loop p (e # es) = (if p = snd e then PmOk (fst e) else lookup_loop p es)"

definition lookupEventProcessor :: "nat \<Rightarrow> pipelines \<Rightarrow> string pm_result" where
  "lookupEventProcessor p s = lookup_loop p (pm_processors s)"

definition pipelinesUsing :: "string \<Rightarrow> pipelines \<Rightarrow> string list" where
  "pipelinesUsing evp s =
     map fst (filter (\<lambda>(nm, els). list_ex (\<lambda>e. fst e = evp) els) (pm_pipelines s))"

subsection \<open>The wrappers of the API\<close>

definition getEventPipeline :: "string \<Rightarrow> pipelines \<Rightarrow> element list pm_result" where
  "getEventPipeline nm s = (case smap_get (pm_pipelines s) nm of
      None \<Rightarrow> PmThrows (NoSuchPipeline nm) | Some els \<Rightarrow> PmOk els)"

text \<open>
  Whatever registration throws is dropped: a name that is taken makes this append the
  processor registered earlier under that name.
\<close>

definition AddEventProcessor :: "nat \<Rightarrow> string \<Rightarrow> pipelines \<Rightarrow> pipelines pm_result" where
  "AddEventProcessor p nm s =
     (let s' = (case registerEventProcessor nm p s of PmOk t \<Rightarrow> t | _ \<Rightarrow> s)
      in appendEventProcessor (pm_currentName s') nm s')"

definition InsertEventProcessor :: "string \<Rightarrow> nat \<Rightarrow> nat \<Rightarrow> string \<Rightarrow> pipelines \<Rightarrow> pipelines pm_result" where
  "InsertEventProcessor pipe p i nm s =
     (let s' = (case registerEventProcessor nm p s of PmOk t \<Rightarrow> t | _ \<Rightarrow> s)
      in insertEventProcessor pipe nm i s')"

fun find_element :: "(element \<Rightarrow> bool) \<Rightarrow> nat \<Rightarrow> element list \<Rightarrow> nat option" where
  "find_element P i [] = None"
| "find_element P i (e # els) = (if P e then Some i else find_element P (Suc i) els)"

definition FindEventProcessor :: "string \<Rightarrow> string \<Rightarrow> pipelines \<Rightarrow> nat pm_result" where
  "FindEventProcessor pipe evp s = bind_pm (getEventPipeline pipe s) (\<lambda>els.
     case find_element (\<lambda>e. evp = fst e) 0 els of None \<Rightarrow> PmThrows (NotInPipeline evp pipe) | Some i \<Rightarrow> PmOk i)"

definition FindEventProcessor_ref :: "string \<Rightarrow> nat \<Rightarrow> pipelines \<Rightarrow> nat pm_result" where
  "FindEventProcessor_ref pipe p s = bind_pm (getEventPipeline pipe s) (\<lambda>els.
     case find_element (\<lambda>e. p = snd e) 0 els of None \<Rightarrow> PmThrows (NotInPipeline [] pipe) | Some i \<Rightarrow> PmOk i)"

fun remove_names :: "string \<Rightarrow> string list \<Rightarrow> pipelines \<Rightarrow> pipelines pm_result" where
  "remove_names pipe [] s = PmOk s"
| "remove_names pipe (n # ns) s = bind_pm (removeEventProcessor pipe n s) (remove_names pipe ns)"

definition ClearPipeline :: "string \<Rightarrow> pipelines \<Rightarrow> pipelines pm_result" where
  "ClearPipeline pipe s = bind_pm (getEventProcessorsInPipeline pipe s) (\<lambda>ns. remove_names pipe ns s)"

subsection \<open>The event sink pipeline\<close>

record sink_pipeline =
  es_sinks :: "element list"
  es_nSequence :: u32
  es_calls :: "pm_call list"

definition new_sinks :: sink_pipeline where
  "new_sinks = \<lparr> es_sinks = [], es_nSequence = 0, es_calls = [] \<rparr>"

text \<open>operator(): every sink processes the event list in turn, and may change it.\<close>

fun sinks_op :: "(nat \<Rightarrow> 'l \<Rightarrow> 'l) \<Rightarrow> element list \<Rightarrow> 'l \<Rightarrow> 'l" where
  "sinks_op f [] l = l"
| "sinks_op f (e # es) l = sinks_op f es (f (snd e) l)"

text \<open>FindSink gives the position of the first match, or the end.\<close>

definition FindSink :: "string \<Rightarrow> sink_pipeline \<Rightarrow> nat" where
  "FindSink nm s = (case find_element (\<lambda>e. fst e = nm) 0 (es_sinks s) of Some i \<Rightarrow> i | None \<Rightarrow> length (es_sinks s))"

definition FindSink_ref :: "nat \<Rightarrow> sink_pipeline \<Rightarrow> nat" where
  "FindSink_ref p s = (case find_element (\<lambda>e. snd e = p) 0 (es_sinks s) of Some i \<Rightarrow> i | None \<Rightarrow> length (es_sinks s))"

text \<open>The sequence number is unsigned but printed with %d.\<close>

definition show_i32 :: "i32 \<Rightarrow> string" where
  "show_i32 w = (if 0 \<le> sint w then show_nat (unat w) else ''-'' @ show_nat (nat (- sint w)))"

fun AssignName :: "nat \<Rightarrow> sink_pipeline \<Rightarrow> (string \<times> sink_pipeline) option" where
  "AssignName 0 s = None"
| "AssignName (Suc k) s =
     (let s' = s\<lparr> es_nSequence := es_nSequence s + 1 \<rparr>; nm = ''Anonymous::'' @ show_i32 (es_nSequence s')
      in if FindSink nm s' = length (es_sinks s') then Some (nm, s') else AssignName k s')"

definition InsertSink :: "nat \<Rightarrow> nat \<Rightarrow> nat \<Rightarrow> string option \<Rightarrow> sink_pipeline \<Rightarrow> sink_pipeline option" where
  "InsertSink k p i nm s =
     (if length (es_sinks s) < i then None
      else (case (case nm of Some n \<Rightarrow> Some (n, s) | None \<Rightarrow> AssignName k s) of
              None \<Rightarrow> None
            | Some (n, s') \<Rightarrow> Some (s'\<lparr> es_sinks := take i (es_sinks s') @ (n, p) # drop i (es_sinks s'),
                es_calls := es_calls s' @ [OnAttach p] \<rparr>)))"

definition AddEventSink :: "nat \<Rightarrow> nat \<Rightarrow> string option \<Rightarrow> sink_pipeline \<Rightarrow> sink_pipeline option" where
  "AddEventSink k p nm s = InsertSink k p (length (es_sinks s)) nm s"

definition RemoveEventSink_ref :: "nat \<Rightarrow> sink_pipeline \<Rightarrow> sink_pipeline" where
  "RemoveEventSink_ref p s = s\<lparr> es_sinks := filter (\<lambda>e. snd e \<noteq> p) (es_sinks s),
     es_calls := es_calls s @ [OnDetach p] \<rparr>"

text \<open>remove_if takes all entries of the name; the last one it meets is detached and returned.\<close>

fun last_match :: "string \<Rightarrow> nat option \<Rightarrow> element list \<Rightarrow> nat option" where
  "last_match nm m [] = m"
| "last_match nm m (e # es) = last_match nm (if fst e = nm then Some (snd e) else m) es"

definition RemoveEventSink :: "string \<Rightarrow> sink_pipeline \<Rightarrow> sink_pipeline \<times> nat option" where
  "RemoveEventSink nm s =
     (let s' = s\<lparr> es_sinks := filter (\<lambda>e. fst e \<noteq> nm) (es_sinks s) \<rparr>
      in case last_match nm None (es_sinks s) of
           None \<Rightarrow> (s', None)
         | Some p \<Rightarrow> (s'\<lparr> es_calls := es_calls s' @ [OnDetach p] \<rparr>, Some p))"

definition RemoveEventSink_at :: "nat \<Rightarrow> sink_pipeline \<Rightarrow> (sink_pipeline \<times> nat) option" where
  "RemoveEventSink_at i s =
     (if length (es_sinks s) \<le> i then None
      else let p = snd (es_sinks s ! i)
           in Some (s\<lparr> es_sinks := take i (es_sinks s) @ drop (Suc i) (es_sinks s),
                es_calls := es_calls s @ [OnDetach p] \<rparr>, p))"

subsection \<open>Attachments\<close>

definition bal :: "nat \<Rightarrow> pm_call list \<Rightarrow> int" where
  "bal p cs = int (count_list cs (OnAttach p)) - int (count_list cs (OnDetach p))"

definition occ :: "nat \<Rightarrow> element list \<Rightarrow> int" where
  "occ p els = int (count_list (map snd els) p)"

lemma bal_simps [simp]:
  "bal p [] = 0" "bal p (cs @ ds) = bal p cs + bal p ds"
  "bal p (OnAttach q # cs) = bal p cs + (if q = p then 1 else 0)"
  "bal p (OnDetach q # cs) = bal p cs - (if q = p then 1 else 0)"
  by (simp_all add: bal_def)

lemma occ_simps [simp]:
  "occ p [] = 0" "occ p (els @ els') = occ p els + occ p els'"
  "occ p (e # els) = occ p els + (if snd e = p then 1 else 0)"
  by (simp_all add: occ_def)

lemma bal_all [simp]:
  "bal p (map (\<lambda>e. OnAttach (snd e)) els) = occ p els" "bal p (map (\<lambda>e. OnDetach (snd e)) els) = - occ p els"
  by (induction els) auto

lemma occ_split: "i \<le> length els \<Longrightarrow> occ p els = occ p (take i els) + occ p (drop i els)"
  by (metis append_take_drop_id occ_simps(2))

lemma occ_without:
  assumes "i < length els"
  shows "occ p (take i els) + occ p (drop (Suc i) els) = occ p els - (if snd (els ! i) = p then 1 else 0)"
proof -
  have "els = take i els @ els ! i # drop (Suc i) els" using assms by (rule id_take_nth_drop)
  then have "occ p els = occ p (take i els @ els ! i # drop (Suc i) els)" by simp
  then show ?thesis by simp
qed

definition pm_inv :: "pipelines \<Rightarrow> bool" where
  "pm_inv s \<longleftrightarrow> smap_ok (pm_pipelines s) \<and> smap_ok (pm_processors s) \<and>
     pm_pCurrent s = Some (pm_currentName s) \<and> smap_get (pm_pipelines s) (pm_currentName s) \<noteq> None \<and>
     (\<forall>p. bal p (pm_calls s) = occ p (current_elements s))"

lemma current_set_pipe:
  "pm_pCurrent s = Some c \<Longrightarrow>
   current_elements (set_pipe nm els s) = (if nm = c then els else current_elements s)"
  by (simp add: current_elements_def set_pipe_def)

lemma pm_log_sel [simp]:
  "pm_pipelines (pm_log cs s) = pm_pipelines s" "pm_processors (pm_log cs s) = pm_processors s"
  "pm_pCurrent (pm_log cs s) = pm_pCurrent s" "pm_currentName (pm_log cs s) = pm_currentName s"
  "current_elements (pm_log cs s) = current_elements s" "pm_calls (pm_log cs s) = pm_calls s @ cs"
  by (simp_all add: pm_log_def current_elements_def cong: option.case_cong)

lemma set_pipe_sel [simp]:
  "pm_pipelines (set_pipe nm els s) = smap_put nm els (pm_pipelines s)"
  "pm_processors (set_pipe nm els s) = pm_processors s" "pm_pCurrent (set_pipe nm els s) = pm_pCurrent s"
  "pm_currentName (set_pipe nm els s) = pm_currentName s" "pm_calls (set_pipe nm els s) = pm_calls s"
  by (simp_all add: set_pipe_def)

lemma current_of_inv:
  "pm_inv s \<Longrightarrow> current_elements s = the (smap_get (pm_pipelines s) (pm_currentName s))"
  by (auto simp: pm_inv_def current_elements_def split: option.splits)

text \<open>What each operation does to the invariant.\<close>

lemma put_pipe_inv:
  assumes "pm_inv s" "smap_get (pm_pipelines s) pipe = Some els"
    "\<And>p. occ p els' = occ p els + bal p cs" "pipe \<noteq> pm_currentName s \<Longrightarrow> cs = []"
  shows "pm_inv (pm_log cs (set_pipe pipe els' s))"
  using assms current_of_inv [OF assms(1)]
  by (auto simp: pm_inv_def current_set_pipe)

lemma attachIfCurrent_inv:
  assumes "pm_inv s" "smap_get (pm_pipelines s) pipe = Some els"
    "\<And>q. occ q els' = occ q els + (if p = q then 1 else 0)"
  shows "pm_inv (attachIfCurrent pipe p (set_pipe pipe els' s))"
proof (cases "pipe = pm_currentName s")
  case True
  then have "pm_pCurrent (set_pipe pipe els' s) = Some pipe" using assms(1) by (simp add: pm_inv_def)
  then show ?thesis
    using put_pipe_inv [OF assms(1,2), of els' "[OnAttach p]"] assms(3) True
    by (simp add: attachIfCurrent_def)
next
  case False
  then have "pm_pCurrent (set_pipe pipe els' s) \<noteq> Some pipe" using assms(1) by (simp add: pm_inv_def)
  moreover have "pm_inv (set_pipe pipe els' s)"
    using assms(1) False by (auto simp: pm_inv_def current_set_pipe)
  ultimately show ?thesis by (simp add: attachIfCurrent_def)
qed

lemma append_inv: "pm_inv s \<Longrightarrow> appendEventProcessor pipe evp s = PmOk s' \<Longrightarrow> pm_inv s'"
  by (auto simp: appendEventProcessor_def split: option.splits intro!: attachIfCurrent_inv)

lemma insert_inv: "pm_inv s \<Longrightarrow> insertEventProcessor pipe evp i s = PmOk s' \<Longrightarrow> pm_inv s'"
proof -
  assume i: "pm_inv s" and e: "insertEventProcessor pipe evp i s = PmOk s'"
  then obtain els p where els: "smap_get (pm_pipelines s) pipe = Some els" "i \<le> length els"
    "s' = attachIfCurrent pipe p (set_pipe pipe (take i els @ (evp, p) # drop i els) s)"
    by (auto simp: insertEventProcessor_def split: option.splits if_splits)
  show "pm_inv s'"
    unfolding els(3) by (rule attachIfCurrent_inv [OF i els(1)]) (simp add: occ_split [OF els(2)])
qed

lemma register_inv: "pm_inv s \<Longrightarrow> registerEventProcessor nm p s = PmOk s' \<Longrightarrow> pm_inv s'"
  by (auto simp: registerEventProcessor_def pm_inv_def current_elements_def split: if_splits)

lemma unregister_inv: "pm_inv s \<Longrightarrow> unregisterEventProcessor nm s = PmOk (s', p) \<Longrightarrow> pm_inv s'"
  by (auto simp: unregisterEventProcessor_def pm_inv_def current_elements_def split: option.splits)

lemma create_inv: "pm_inv s \<Longrightarrow> createPipeline nm s = PmOk s' \<Longrightarrow> pm_inv s' \<and> s' = set_pipe nm [] s"
  by (auto simp: createPipeline_def pm_inv_def set_pipe_def current_elements_def split: if_splits)

lemma clone_inv: "pm_inv s \<Longrightarrow> clonePipeline from to s = PmOk s' \<Longrightarrow> pm_inv s'"
proof -
  assume i: "pm_inv s" and c: "clonePipeline from to s = PmOk s'"
  obtain els where els: "createPipeline to s = PmOk (set_pipe to [] s)" "s' = set_pipe to els (set_pipe to [] s)"
    using c create_inv [OF i] by (cases "createPipeline to s") (auto simp: clonePipeline_def split: option.splits)
  then have "to \<noteq> pm_currentName s" using i by (auto simp: createPipeline_def pm_inv_def split: if_splits)
  then show "pm_inv s'" using i els(2) by (auto simp: pm_inv_def current_set_pipe)
qed

lemma remove_current_inv:
  assumes "pm_inv s" "removeEventProcessor_at (pm_currentName s) i s = PmOk s'"
  shows "pm_inv s'"
proof -
  obtain els where els: "smap_get (pm_pipelines s) (pm_currentName s) = Some els" "i < length els"
    "s' = set_pipe (pm_currentName s) (take i els @ drop (Suc i) els) (detachIfCurrent (pm_currentName s) (snd (els ! i)) s)"
    using assms(2) by (auto simp: removeEventProcessor_at_def split: option.splits if_splits)
  have c: "current_elements s = els" using current_of_inv [OF assms(1)] els(1) by simp
  have d: "detachIfCurrent (pm_currentName s) q s = pm_log [OnDetach q] s" for q
    using assms(1) by (simp add: detachIfCurrent_def pm_inv_def)
  have p: "pm_pCurrent (pm_log cs s) = Some (pm_currentName s)" for cs using assms(1) by (simp add: pm_inv_def)
  show ?thesis
    using assms(1) els c by (auto simp: pm_inv_def d current_set_pipe [OF p] occ_without)
qed

lemma setCurrent_inv: "pm_inv s \<Longrightarrow> setCurrentPipeline nm s = PmOk s' \<Longrightarrow> pm_inv s'"
  by (auto simp: setCurrentPipeline_def detachAll_def attachAll_def pm_inv_def split: option.splits)

lemma new_pipelines_inv: "new_pipelines = PmOk s \<Longrightarrow> pm_inv s"
  by (auto simp: new_pipelines_def createPipeline_def setCurrentPipeline_def detachAll_def attachAll_def pm_inv_def
      current_elements_def pm_log_def)

subsection \<open>Reachable managers\<close>

text \<open>
  Everything the manager offers, except taking a processor out of a pipeline that is not
  the current one.
\<close>

inductive pm_reach :: "pipelines \<Rightarrow> bool" where
  init: "new_pipelines = PmOk s \<Longrightarrow> pm_reach s"
| register: "pm_reach s \<Longrightarrow> registerEventProcessor nm p s = PmOk s' \<Longrightarrow> pm_reach s'"
| unregister: "pm_reach s \<Longrightarrow> unregisterEventProcessor nm s = PmOk (s', p) \<Longrightarrow> pm_reach s'"
| create: "pm_reach s \<Longrightarrow> createPipeline nm s = PmOk s' \<Longrightarrow> pm_reach s'"
| append: "pm_reach s \<Longrightarrow> appendEventProcessor pipe evp s = PmOk s' \<Longrightarrow> pm_reach s'"
| insert: "pm_reach s \<Longrightarrow> insertEventProcessor pipe evp i s = PmOk s' \<Longrightarrow> pm_reach s'"
| remove: "pm_reach s \<Longrightarrow> removeEventProcessor_at (pm_currentName s) i s = PmOk s' \<Longrightarrow> pm_reach s'"
| current: "pm_reach s \<Longrightarrow> setCurrentPipeline nm s = PmOk s' \<Longrightarrow> pm_reach s'"
| clone: "pm_reach s \<Longrightarrow> clonePipeline from to s = PmOk s' \<Longrightarrow> pm_reach s'"

lemma pm_reach_inv: "pm_reach s \<Longrightarrow> pm_inv s"
proof (induction rule: pm_reach.induct)
  case (create s nm s')
  then show ?case using create_inv by blast
qed (blast intro: new_pipelines_inv register_inv unregister_inv append_inv insert_inv
      remove_current_inv setCurrent_inv clone_inv)+

lemma detachIfCurrent_log: "pm_inv s \<Longrightarrow> detachIfCurrent pipe p s = pm_log [OnDetach p] s"
  by (simp add: detachIfCurrent_def pm_inv_def)

lemma remove_first:
  assumes "smap_get (pm_pipelines s) pipe = Some ((n, p) # els)" "smap_get (pm_processors s) n = Some p"
  shows "removeEventProcessor pipe n s = PmOk (set_pipe pipe els (detachIfCurrent pipe p s))"
  using assms by (simp add: removeEventProcessor_def removeEventProcessor_at_def)

lemma detachIfCurrent_sel [simp]:
  "pm_pipelines (detachIfCurrent pipe p s) = pm_pipelines s"
  "pm_processors (detachIfCurrent pipe p s) = pm_processors s"
  by (simp_all add: detachIfCurrent_def)

lemma remove_names_all:
  assumes "smap_get (pm_pipelines s) pipe = Some els"
    "\<forall>(n, p) \<in> set els. smap_get (pm_processors s) n = Some p"
  shows "\<exists>s'. remove_names pipe (map fst els) s = PmOk s' \<and> smap_get (pm_pipelines s') pipe = Some [] \<and>
    (\<forall>k. k \<noteq> pipe \<longrightarrow> smap_get (pm_pipelines s') k = smap_get (pm_pipelines s) k) \<and>
    pm_processors s' = pm_processors s"
  using assms
proof (induction els arbitrary: s)
  case (Cons e els)
  obtain n p where e: "e = (n, p)" by fastforce
  let ?s = "set_pipe pipe els (detachIfCurrent pipe p s)"
  have "removeEventProcessor pipe n s = PmOk ?s" using remove_first Cons.prems e by simp
  moreover have "\<exists>s'. remove_names pipe (map fst els) ?s = PmOk s' \<and> smap_get (pm_pipelines s') pipe = Some [] \<and>
    (\<forall>k. k \<noteq> pipe \<longrightarrow> smap_get (pm_pipelines s') k = smap_get (pm_pipelines ?s) k) \<and>
    pm_processors s' = pm_processors ?s"
    by (rule Cons.IH) (use Cons.prems in auto)
  ultimately show ?case using e by auto
qed simp

lemma find_element_None: "find_element P i els = None \<longleftrightarrow> (\<forall>e \<in> set els. \<not> P e)"
  by (induction els arbitrary: i) auto

lemma find_element_bounds: "find_element P i els = Some j \<Longrightarrow> i \<le> j \<and> j < i + length els"
  by (induction els arbitrary: i) (fastforce split: if_splits)+

lemma FindSink_end: "FindSink nm s = length (es_sinks s) \<longleftrightarrow> nm \<notin> fst ` set (es_sinks s)"
proof (cases "find_element (\<lambda>e. fst e = nm) 0 (es_sinks s)")
  case None
  then have "\<forall>e \<in> set (es_sinks s). fst e \<noteq> nm" by (simp add: find_element_None)
  then show ?thesis using None by (auto simp: FindSink_def)
next
  case (Some j)
  then have "\<not> (\<forall>e \<in> set (es_sinks s). fst e \<noteq> nm)"
    using find_element_None [of "\<lambda>e. fst e = nm" 0 "es_sinks s"] by simp
  moreover have "j < length (es_sinks s)" using find_element_bounds [OF Some] by simp
  ultimately show ?thesis using Some by (auto simp: FindSink_def)
qed

lemma show_i32_small: "unat w < 2 ^ 31 \<Longrightarrow> show_i32 w = show_nat (unat w)"
proof -
  assume w: "unat w < 2 ^ 31"
  have "sint w = signed_take_bit 31 (uint w)" by (simp add: sint_uint)
  moreover have "uint w < 2 ^ 31" using w by (metis of_nat_less_iff of_nat_numeral of_nat_power uint_nat)
  moreover have "- (2 ^ 31) \<le> uint w" by (rule order_trans [OF _ uint_ge_0]) simp
  ultimately have "sint w = uint w" by (simp only: signed_take_bit_int_eq_self)
  then show ?thesis by (simp add: show_i32_def)
qed

text \<open>Among more names than there are sinks, one is free.\<close>

lemma AssignName_tries:
  assumes "unat (es_nSequence s) + k < 2 ^ 31" "AssignName k s = None"
  shows "\<forall>i \<in> {1..k}. ''Anonymous::'' @ show_nat (unat (es_nSequence s) + i) \<in> fst ` set (es_sinks s)"
  using assms
proof (induction k arbitrary: s)
  case (Suc k)
  let ?s = "s\<lparr> es_nSequence := es_nSequence s + 1 \<rparr>"
  have u: "unat (es_nSequence s + 1) = unat (es_nSequence s) + 1"
    using Suc.prems(1) by (simp add: unat_word_ariths)
  then have sh: "show_i32 (es_nSequence s + 1) = show_nat (unat (es_nSequence s) + 1)"
    using Suc.prems(1) by (simp add: show_i32_small)
  have "AssignName k ?s = None" "''Anonymous::'' @ show_nat (unat (es_nSequence s) + 1) \<in> fst ` set (es_sinks s)"
    using Suc.prems(2) FindSink_end [of "''Anonymous::'' @ show_nat (unat (es_nSequence s) + 1)" ?s]
    by (auto simp: Let_def sh split: if_splits)
  moreover from this(1) have "\<forall>i \<in> {1..k}. ''Anonymous::'' @ show_nat (unat (es_nSequence s) + 1 + i) \<in> fst ` set (es_sinks s)"
    using Suc.IH [of ?s] Suc.prems(1) u by simp
  ultimately have *: "\<forall>i \<in> {1..k}. ''Anonymous::'' @ show_nat (unat (es_nSequence s) + Suc i) \<in> fst ` set (es_sinks s)"
    "''Anonymous::'' @ show_nat (unat (es_nSequence s) + 1) \<in> fst ` set (es_sinks s)" by simp_all
  have r: "{1..Suc k} = insert 1 (Suc ` {1..k})" by (simp add: atLeastAtMost_insertL)
  show ?case unfolding r using * by blast
qed simp

lemma AssignName_fresh:
  "AssignName k s = Some (nm, s') \<Longrightarrow> nm \<notin> fst ` set (es_sinks s) \<and> es_sinks s' = es_sinks s \<and> es_calls s' = es_calls s"
proof (induction k arbitrary: s)
  case (Suc k)
  let ?s = "s\<lparr> es_nSequence := es_nSequence s + 1 \<rparr>"
  show ?case
    using Suc.prems Suc.IH [of ?s] FindSink_end [of _ ?s] by (auto simp: Let_def split: if_splits)
qed simp

lemma AssignName_enough:
  assumes "unat (es_nSequence s) + Suc (length (es_sinks s)) < 2 ^ 31"
  shows "AssignName (Suc (length (es_sinks s))) s \<noteq> None"
proof
  let ?k = "Suc (length (es_sinks s))"
  let ?f = "\<lambda>i. ''Anonymous::'' @ show_nat (unat (es_nSequence s) + i)"
  assume "AssignName ?k s = None"
  then have "?f ` {1..?k} \<subseteq> fst ` set (es_sinks s)"
    using AssignName_tries [OF assms] by blast
  then have "card (?f ` {1..?k}) \<le> card (fst ` set (es_sinks s))" by (intro card_mono) auto
  also have "\<dots> \<le> length (es_sinks s)" by (metis card_length length_map set_map)
  finally have "card (?f ` {1..?k}) \<le> length (es_sinks s)" .
  moreover have "card (?f ` {1..?k}) = ?k" by (subst card_image) (auto simp: inj_on_def)
  ultimately show False by simp
qed

subsection \<open>Properties\<close>

text \<open>
  C17. Attach calls are balanced: in every state reached without taking processors out of a
  pipeline that is not current, each processor has been attached exactly as many times
  more than detached as it stands in the current pipeline, which always exists.
\<close>

theorem pipeline_attachments:
  assumes "pm_reach s"
  shows "\<exists>els. smap_get (pm_pipelines s) (pm_currentName s) = Some els \<and> (\<forall>p. bal p (pm_calls s) = occ p els)"
  using pm_reach_inv [OF assms] current_of_inv [OF pm_reach_inv [OF assms]] by (auto simp: pm_inv_def)

definition demo_pipelines :: "pipelines pm_result" where
  "demo_pipelines = bind_pm new_pipelines (\<lambda>s. bind_pm (registerEventProcessor ''e'' 7 s) (\<lambda>s.
     bind_pm (appendEventProcessor ''default'' ''e'' s) (\<lambda>s. bind_pm (createPipeline ''other'' s) (\<lambda>s.
     appendEventProcessor ''other'' ''e'' s))))"

lemma bind_pm_iff: "bind_pm m f = PmOk y \<longleftrightarrow> (\<exists>x. m = PmOk x \<and> f x = PmOk y)"
  by (cases m) auto

lemma demo_pipelines_reach: "demo_pipelines = PmOk s \<Longrightarrow> pm_reach s"
  unfolding demo_pipelines_def bind_pm_iff
  by (elim exE conjE) (rule pm_reach.append, rule pm_reach.create, rule pm_reach.append, rule pm_reach.register,
    erule pm_reach.init, assumption+)

lemma demo_pipelines_value:
  "demo_pipelines = PmOk \<lparr> pm_pipelines = [(''default'', [(''e'', 7)]), (''other'', [(''e'', 7)])],
     pm_processors = [(''e'', 7)], pm_pCurrent = Some ''default'', pm_currentName = ''default'',
     pm_calls = [OnAttach 7] \<rparr>"
  by (simp add: demo_pipelines_def new_pipelines_def createPipeline_def registerEventProcessor_def
      appendEventProcessor_def setCurrentPipeline_def attachAll_def detachAll_def current_elements_def
      pm_log_def set_pipe_def attachIfCurrent_def)

theorem pipeline_attachments_witness: "\<exists>s. demo_pipelines = PmOk s \<and> bal 7 (pm_calls s) = 1"
  using pipeline_attachments [OF demo_pipelines_reach [OF demo_pipelines_value]] demo_pipelines_value
  by (auto simp: occ_def)

text \<open>Removing a processor from a pipeline that is not current detaches it all the same.\<close>

lemma remove_elsewhere_detaches:
  assumes "pm_reach s" "pipe \<noteq> pm_currentName s" "smap_get (pm_pipelines s) pipe = Some els" "i < length els"
  shows "\<exists>s'. removeEventProcessor_at pipe i s = PmOk s' \<and> current_elements s' = current_elements s \<and>
    pm_calls s' = pm_calls s @ [OnDetach (snd (els ! i))] \<and>
    bal (snd (els ! i)) (pm_calls s') = occ (snd (els ! i)) (current_elements s') - 1"
proof -
  have i: "pm_inv s" by (rule pm_reach_inv [OF assms(1)])
  then have c: "pm_pCurrent (pm_log [OnDetach (snd (els ! i))] s) = Some (pm_currentName s)" by (simp add: pm_inv_def)
  show ?thesis
    using assms(2-4) i current_set_pipe [OF c, of pipe]
    by (simp add: removeEventProcessor_at_def detachIfCurrent_log pm_inv_def)
qed


text \<open>Clearing a pipeline of registered processors empties it and touches no other pipeline.\<close>

lemma clear_pipeline:
  assumes "smap_get (pm_pipelines s) pipe = Some els"
    "\<forall>(n, p) \<in> set els. smap_get (pm_processors s) n = Some p"
  shows "\<exists>s'. ClearPipeline pipe s = PmOk s' \<and> smap_get (pm_pipelines s') pipe = Some [] \<and>
    (\<forall>k. k \<noteq> pipe \<longrightarrow> smap_get (pm_pipelines s') k = smap_get (pm_pipelines s) k) \<and>
    pm_processors s' = pm_processors s"
  using remove_names_all [OF assms] assms(1) by (simp add: ClearPipeline_def getEventProcessorsInPipeline_def)


text \<open>An unnamed sink gets a name of its own within one more try than there are sinks.\<close>

lemma anonymous_sink:
  assumes "unat (es_nSequence s) + Suc (length (es_sinks s)) < 2 ^ 31"
  shows "\<exists>nm s'. AddEventSink (Suc (length (es_sinks s))) p None s = Some s' \<and>
    es_sinks s' = es_sinks s @ [(nm, p)] \<and> nm \<notin> fst ` set (es_sinks s) \<and> es_calls s' = es_calls s @ [OnAttach p]"
proof -
  obtain nm t where t: "AssignName (Suc (length (es_sinks s))) s = Some (nm, t)"
    using AssignName_enough [OF assms] by fastforce
  show ?thesis
    using t AssignName_fresh [OF t] by (simp add: AddEventSink_def InsertSink_def del: AssignName.simps)
qed


end
