(* ===== verification/TclAnalyzer.thy ===== *)
theory TclAnalyzer
  imports AnalyzerProps Pipelines
begin

text \<open>
  CTclAnalyzer (src/main/Core/TCLAnalyzer.cpp): the analyzer whose OnEvent runs the current
  event processing pipeline, with its statistics counters and run state variables.  The
  event processors are arguments, looked up by the identity the pipeline manager holds;
  the state they share among themselves is ta_world.
\<close>

subsection \<open>State\<close>

datatype counter =
    RunsAnalyzed | EventsAnalyzed | EventsAnalyzedThisRun | EventsAccepted
  | EventsAcceptedThisRun | EventsRejected | EventsRejectedThisRun

fun counter_index :: "counter \<Rightarrow> nat" where
  "counter_index RunsAnalyzed = 0"
| "counter_index EventsAnalyzed = 1"
| "counter_index EventsAnalyzedThisRun = 2"
| "counter_index EventsAccepted = 3"
| "counter_index EventsAcceptedThisRun = 4"
| "counter_index EventsRejected = 5"
| "counter_index EventsRejectedThisRun = 6"

definition CounterTable :: "(counter \<times> string \<times> bool) list" where
  "CounterTable =
     [(RunsAnalyzed, ''RunsAnalyzed'', False),
      (EventsAnalyzed, ''EventsAnalyzed'', False),
      (EventsAnalyzedThisRun, ''EventsAnalyzedThisRun'', True),
      (EventsAccepted, ''EventsAccepted'', False),
      (EventsAcceptedThisRun, ''EventsAcceptedThisRun'', True),
      (EventsRejected, ''EventsRejected'', False),
      (EventsRejectedThisRun, ''EventsRejectedThisRun'', True)]"

record 'p tcl =
  ta_nBuffersAnalyzed :: i32
  ta_nLastSequence :: i32
  ta_runNumber :: string
  ta_runTitle :: string
  ta_runState :: string
  ta_nEventSize :: u32
  ta_statistics :: "i32 list"
  ta_nSequence :: u32
  ta_initialized :: bool
  ta_pipelines :: pipelines
  ta_world :: 'p

text \<open>m_nEventSize is not initialized: its first value is an argument.\<close>

definition new_tcl :: "u32 \<Rightarrow> pipelines \<Rightarrow> 'p \<Rightarrow> 'p tcl" where
  "new_tcl nEventSize pm w =
     \<lparr> ta_nBuffersAnalyzed = 1, ta_nLastSequence = 0, ta_runNumber = ''0'',
       ta_runTitle = ''>>> Unknown <<<'', ta_runState = ''>>> Unknown <<<'',
       ta_nEventSize = nEventSize, ta_statistics = map (\<lambda>_. 0) CounterTable, ta_nSequence = 0,
       ta_initialized = False, ta_pipelines = pm, ta_world = w \<rparr>"

definition IncrementCounter :: "counter \<Rightarrow> u32 \<Rightarrow> 'p tcl \<Rightarrow> 'p tcl" where
  "IncrementCounter c incr t =
     t\<lparr> ta_statistics := (ta_statistics t)[counter_index c := ta_statistics t ! counter_index c + incr] \<rparr>"

definition ClearCounter :: "counter \<Rightarrow> 'p tcl \<Rightarrow> 'p tcl" where
  "ClearCounter c t = t\<lparr> ta_statistics := (ta_statistics t)[counter_index c := 0] \<rparr>"

definition SetEventSize :: "u32 \<Rightarrow> 'p tcl \<Rightarrow> 'p tcl" where
  "SetEventSize n t = t\<lparr> ta_nEventSize := n \<rparr>"

definition IncrementEventSize :: "u32 \<Rightarrow> 'p tcl \<Rightarrow> 'p tcl" where
  "IncrementEventSize n t = t\<lparr> ta_nEventSize := ta_nEventSize t + n \<rparr>"

definition setBuffersAnalyzed :: "u32 \<Rightarrow> 'p tcl \<Rightarrow> 'p tcl" where
  "setBuffersAnalyzed n t = t\<lparr> ta_nBuffersAnalyzed := n \<rparr>"

definition incrementBuffersAnalyzed :: "u32 \<Rightarrow> 'p tcl \<Rightarrow> 'p tcl" where
  "incrementBuffersAnalyzed n t = t\<lparr> ta_nBuffersAnalyzed := ta_nBuffersAnalyzed t + n \<rparr>"

definition setLastSequence :: "u32 \<Rightarrow> 'p tcl \<Rightarrow> 'p tcl" where
  "setLastSequence n t = t\<lparr> ta_nLastSequence := n \<rparr>"

definition setRunNumber :: "u32 \<Rightarrow> 'p tcl \<Rightarrow> 'p tcl" where
  "setRunNumber n t = t\<lparr> ta_runNumber := show_nat (unat n) \<rparr>"

definition setTitle :: "string \<Rightarrow> 'p tcl \<Rightarrow> 'p tcl" where
  "setTitle s t = t\<lparr> ta_runTitle := s \<rparr>"

definition setRunState :: "bool \<Rightarrow> 'p tcl \<Rightarrow> 'p tcl" where
  "setRunState active t = t\<lparr> ta_runState := (if active then ''Active'' else ''Halted'') \<rparr>"

subsection \<open>Event processors\<close>

text \<open>
  How a call of an event processor ends: with its success flag, an exception the analyzer
  takes for a failure, an event format error, or another CException.
\<close>

datatype ep_result = Success bool | Throws | ThrowsFormat bool | ThrowsCException

text \<open>
  A processor's members.  The event handler also returns whether it called
  entityNotDone; the others return their flag.
\<close>

record 'p event_processor =
  ep_operator :: "nat \<Rightarrow> event \<Rightarrow> 'p tcl \<Rightarrow> 'p tcl \<times> event \<times> bool \<times> ep_result"
  ep_OnBegin :: "'p tcl \<Rightarrow> 'p tcl \<times> bool"
  ep_OnEnd :: "'p tcl \<Rightarrow> 'p tcl \<times> bool"
  ep_OnPause :: "'p tcl \<Rightarrow> 'p tcl \<times> bool"
  ep_OnResume :: "'p tcl \<Rightarrow> 'p tcl \<times> bool"
  ep_OnOther :: "u32 \<Rightarrow> 'p tcl \<Rightarrow> 'p tcl \<times> bool"
  ep_OnInitialize :: "'p tcl \<Rightarrow> 'p tcl \<times> bool"
  ep_OnEventSourceEOF :: "'p tcl \<Rightarrow> 'p tcl \<times> bool"

type_synonym 'p processors = "nat \<Rightarrow> 'p event_processor"

definition current_processors :: "'p processors \<Rightarrow> 'p tcl \<Rightarrow> 'p event_processor list" where
  "current_processors ps t = map (\<lambda>e. ps (snd e)) (current_elements (ta_pipelines t))"

subsection \<open>OnEvent\<close>

definition count_rejected :: "'p tcl \<Rightarrow> 'p tcl" where
  "count_rejected t = IncrementCounter EventsRejectedThisRun 1 (IncrementCounter EventsRejected 1 t)"

text \<open>The result of the loop over the pipeline, in the form CAnalyzer's OnEvent has it.\<close>

fun run_pipeline :: "'p event_processor list \<Rightarrow> nat \<Rightarrow> event \<Rightarrow> 'p tcl \<Rightarrow>
    'p tcl \<times> event \<times> bool \<times> bool \<times> oe_result" where
  "run_pipeline [] d e t = (t, e, False, False, Size (ta_nEventSize t))"
| "run_pipeline (p # ps) d e t =
     (case ep_operator p d e t of
        (t', e', pa, Success True) \<Rightarrow>
          (let (t2, e2, ab, pa2, r) = run_pipeline ps d e' t' in (t2, e2, ab, pa \<or> pa2, r))
      | (t', e', pa, ThrowsFormat sizeOk) \<Rightarrow> (count_rejected t', e', False, pa, FormatError sizeOk)
      | (t', e', pa, ThrowsCException) \<Rightarrow> (count_rejected t', e', False, pa, OtherError)
      | (t', e', pa, _) \<Rightarrow> (count_rejected t', e', True, pa, Size (ta_nEventSize (count_rejected t'))))"

text \<open>
  tree stands for CTreeParameter::setEvent and CTreeParameterVector::BeginEvent, whose
  state the processors share.
\<close>

definition tcl_OnEvent :: "('p \<Rightarrow> 'p) \<Rightarrow> 'p processors \<Rightarrow> 'p tcl on_event" where
  "tcl_OnEvent tree ps d e t =
     (let t1 = IncrementCounter EventsAnalyzedThisRun 1 (IncrementCounter EventsAnalyzed 1 t);
          t2 = t1\<lparr> ta_world := tree (ta_world t1) \<rparr>
      in run_pipeline (current_processors ps t2) d e t2)"

subsection \<open>State transitions and other buffers\<close>

text \<open>The loops that stop at the first processor that returns false.\<close>

fun while_true :: "('t \<Rightarrow> 't \<times> bool) list \<Rightarrow> 't \<Rightarrow> 't" where
  "while_true [] t = t"
| "while_true (f # fs) t = (let (t', go) = f t in if go then while_true fs t' else t')"

record decoder_view =
  dc_run :: u32
  dc_title :: string
  dc_sequence :: u32
  dc_type :: u32

definition clear_counters :: "'p tcl \<Rightarrow> 'p tcl" where
  "clear_counters t = fold (\<lambda>(c, _, zero) t. if zero then ClearCounter c t else t) CounterTable t"

definition tcl_OnBegin :: "'p processors \<Rightarrow> decoder_view \<Rightarrow> 'p tcl \<Rightarrow> 'p tcl" where
  "tcl_OnBegin ps dc t =
     (let t1 = t\<lparr> ta_nBuffersAnalyzed := - 1, ta_nLastSequence := 0, ta_runState := ''Active'',
                  ta_runNumber := show_i32 (dc_run dc), ta_runTitle := dc_title dc \<rparr>;
          t2 = clear_counters (IncrementCounter RunsAnalyzed 1 t1)
      in while_true (map ep_OnBegin (current_processors ps t2)) t2)"

definition tcl_OnEnd :: "'p processors \<Rightarrow> 'p tcl \<Rightarrow> 'p tcl" where
  "tcl_OnEnd ps t =
     (let t1 = t\<lparr> ta_runState := ''Halted'' \<rparr>
      in while_true (map ep_OnEnd (current_processors ps t1)) t1)"

definition tcl_OnPause :: "'p processors \<Rightarrow> 'p tcl \<Rightarrow> 'p tcl" where
  "tcl_OnPause ps t =
     (let t1 = t\<lparr> ta_runState := ''Paused'' \<rparr>
      in while_true (map ep_OnPause (current_processors ps t1)) t1)"

definition tcl_OnResume :: "'p processors \<Rightarrow> 'p tcl \<Rightarrow> 'p tcl" where
  "tcl_OnResume ps t =
     (let t1 = t\<lparr> ta_runState := ''Active'' \<rparr>
      in while_true (map ep_OnResume (current_processors ps t1)) t1)"

definition BEGRUNBF :: u32 where "BEGRUNBF = 11"
definition ENDRUNBF :: u32 where "ENDRUNBF = 12"
definition PAUSEBF :: u32 where "PAUSEBF = 13"
definition RESUMEBF :: u32 where "RESUMEBF = 14"

definition tcl_OnStateChange :: "'p processors \<Rightarrow> u32 \<Rightarrow> decoder_view \<Rightarrow> 'p tcl \<Rightarrow> 'p tcl" where
  "tcl_OnStateChange ps nType dc t =
     (if nType = BEGRUNBF then tcl_OnBegin ps dc t
      else if nType = ENDRUNBF then tcl_OnEnd ps t
      else if nType = PAUSEBF then tcl_OnPause ps t
      else if nType = RESUMEBF then tcl_OnResume ps t
      else t)"

definition tcl_OnOther :: "'p processors \<Rightarrow> u32 \<Rightarrow> 'p tcl \<Rightarrow> 'p tcl" where
  "tcl_OnOther ps nType t = while_true (map (\<lambda>p. ep_OnOther p nType) (current_processors ps t)) t"

definition tcl_OnScaler :: "'p processors \<Rightarrow> decoder_view \<Rightarrow> 'p tcl \<Rightarrow> 'p tcl" where
  "tcl_OnScaler ps dc t = tcl_OnOther ps (dc_type dc) t"

definition tcl_OnEndFile :: "'p processors \<Rightarrow> 'p tcl \<Rightarrow> 'p tcl" where
  "tcl_OnEndFile ps t =
     (while_true (map ep_OnEventSourceEOF (current_processors ps t)) t)\<lparr> ta_runState := ''Halted'' \<rparr>"

text \<open>OnPhysics, on the base analyzer whose derived state this is.\<close>

definition tcl_OnPhysics :: "nat \<Rightarrow> ('p \<Rightarrow> 'p) \<Rightarrow> 'p processors \<Rightarrow> u32 \<Rightarrow> u32 \<Rightarrow> decoder_view \<Rightarrow>
    'p tcl analyzer \<Rightarrow> 'p tcl physics" where
  "tcl_OnPhysics k tree ps nEvents nBufferSize dc a =
     (case OnPhysics k (tcl_OnEvent tree ps) nEvents nBufferSize a of
        Done a' \<Rightarrow> Done (a'\<lparr> an_derived := (an_derived a')\<lparr>
            ta_nBuffersAnalyzed := ta_nBuffersAnalyzed (an_derived a') + 1,
            ta_nLastSequence := dc_sequence dc \<rparr> \<rparr>)
      | r \<Rightarrow> r)"

subsection \<open>Initialization\<close>

text \<open>All processors are asked; the names of those that fail are collected, then removed.\<close>

fun initialize_all :: "'p processors \<Rightarrow> element list \<Rightarrow> 'p tcl \<Rightarrow> 'p tcl \<times> string list" where
  "initialize_all ps [] t = (t, [])"
| "initialize_all ps (e # es) t =
     (let (t', good) = ep_OnInitialize (ps (snd e)) t; (t'', names) = initialize_all ps es t'
      in (t'', (if good then [] else [fst e]) @ names))"

definition tcl_OnInitialize :: "'p processors \<Rightarrow> 'p tcl \<Rightarrow> 'p tcl pm_result" where
  "tcl_OnInitialize ps t =
     (let (t', names) = initialize_all ps (current_elements (ta_pipelines t)) (t\<lparr> ta_initialized := True \<rparr>)
      in bind_pm (remove_names (pm_currentName (ta_pipelines t')) names (ta_pipelines t'))
           (\<lambda>pm. PmOk (t'\<lparr> ta_pipelines := pm \<rparr>)))"

text \<open>
  The name for a processor that has none; names are those of the registered processors.
\<close>

fun tcl_AssignName :: "nat \<Rightarrow> string list \<Rightarrow> 'p tcl \<Rightarrow> ('p tcl \<times> string) option" where
  "tcl_AssignName 0 names t = None"
| "tcl_AssignName (Suc k) names t =
     (let nm = ''Anonymous::'' @ show_i32 (ta_nSequence t); t' = t\<lparr> ta_nSequence := ta_nSequence t + 1 \<rparr>
      in if nm \<notin> set names then Some (t', nm) else tcl_AssignName k names t')"

subsection \<open>Counters\<close>

definition counter_of :: "'p tcl \<Rightarrow> counter \<Rightarrow> i32" where
  "counter_of t c = ta_statistics t ! counter_index c"

lemma counter_index_less: "counter_index c < 7"
  by (cases c) auto

lemma counter_index_inject [simp]: "counter_index c = counter_index c' \<longleftrightarrow> c = c'"
  by (cases c; cases c') auto

lemma counter_Increment [simp]:
  "length (ta_statistics t) = 7 \<Longrightarrow>
     counter_of (IncrementCounter c n t) c' = counter_of t c' + (if c' = c then n else 0)"
  using counter_index_less [of c] by (simp add: counter_of_def IncrementCounter_def nth_list_update)

lemma length_Increment [simp]: "length (ta_statistics (IncrementCounter c n t)) = length (ta_statistics t)"
  by (simp add: IncrementCounter_def)

lemma counter_Clear [simp]:
  "length (ta_statistics t) = 7 \<Longrightarrow> counter_of (ClearCounter c t) c' = (if c' = c then 0 else counter_of t c')"
  using counter_index_less [of c] by (simp add: counter_of_def ClearCounter_def nth_list_update)

lemma length_Clear [simp]: "length (ta_statistics (ClearCounter c t)) = length (ta_statistics t)"
  by (simp add: ClearCounter_def)

lemma counter_world [simp]: "counter_of (t\<lparr> ta_world := w \<rparr>) c = counter_of t c"
  by (simp add: counter_of_def)

definition keeps_statistics :: "'p event_processor \<Rightarrow> bool" where
  "keeps_statistics p \<longleftrightarrow> (\<forall>d e t. ta_statistics (fst (ep_operator p d e t)) = ta_statistics t)"

definition rejected :: "bool \<Rightarrow> oe_result \<Rightarrow> bool" where
  "rejected ab r \<longleftrightarrow> ab \<or> (\<forall>n. r \<noteq> Size n)"

lemma run_pipeline_counts:
  assumes "\<forall>p \<in> set ps. keeps_statistics p" "length (ta_statistics t) = 7"
    and "run_pipeline ps d e t = (t', e', ab, pa, r)"
  shows "length (ta_statistics t') = 7 \<and> counter_of t' c = counter_of t c +
    (if rejected ab r \<and> c \<in> {EventsRejected, EventsRejectedThisRun} then 1 else 0)"
  using assms
proof (induction ps arbitrary: e t t' e' ab pa r)
  case Nil
  then show ?case by (auto simp: rejected_def)
next
  case (Cons p ps)
  obtain t1 e1 pa1 r1 where op: "ep_operator p d e t = (t1, e1, pa1, r1)" by (metis surj_pair)
  have "keeps_statistics p" using Cons.prems(1) by simp
  then have st: "ta_statistics t1 = ta_statistics t"
    unfolding keeps_statistics_def using op by (metis fst_conv)
  then have c1: "counter_of t1 c = counter_of t c" "length (ta_statistics t1) = 7"
    using Cons.prems(2) by (simp_all add: counter_of_def)
  show ?case
  proof (cases "r1 = Success True")
    case True
    obtain t2 e2 ab2 pa2 r2 where rec: "run_pipeline ps d e1 t1 = (t2, e2, ab2, pa2, r2)" by (metis surj_pair)
    then have eq: "t2 = t'" "ab2 = ab" "r2 = r" using True op Cons.prems(3) by auto
    have "\<forall>p \<in> set ps. keeps_statistics p" using Cons.prems(1) by simp
    from Cons.IH [OF this c1(2) rec] show ?thesis by (simp add: eq c1(1))
  next
    case False
    then have "t' = count_rejected t1" "rejected ab r"
      using op Cons.prems(3) by (auto simp: rejected_def split: ep_result.splits bool.splits)
    then show ?thesis using c1 by (auto simp: count_rejected_def)
  qed
qed

text \<open>The counters of analyzed, accepted and rejected events.\<close>

lemma event_counters:
  assumes "\<forall>e \<in> set (current_elements (ta_pipelines t)). keeps_statistics (ps (snd e))"
    and "length (ta_statistics t) = 7" and "tcl_OnEvent tree ps d e t = (t', e', ab, pa, r)"
  shows "counter_of t' c = counter_of t c +
     (if c \<in> {EventsAnalyzed, EventsAnalyzedThisRun} then 1
      else if c \<in> {EventsRejected, EventsRejectedThisRun} \<and> rejected ab r then 1 else 0)"
proof -
  let ?t = "IncrementCounter EventsAnalyzedThisRun 1 (IncrementCounter EventsAnalyzed 1 t)"
  let ?u = "?t\<lparr> ta_world := tree (ta_world ?t) \<rparr>"
  have pl: "ta_pipelines ?t = ta_pipelines t" by (simp add: IncrementCounter_def)
  have "counter_of t' c = counter_of ?u c +
    (if rejected ab r \<and> c \<in> {EventsRejected, EventsRejectedThisRun} then 1 else 0)"
    using run_pipeline_counts [of "current_processors ps ?u" ?u d e t' e' ab pa r c] assms pl
    by (auto simp: tcl_OnEvent_def current_processors_def Let_def)
  then show ?thesis using assms(2) by auto
qed

definition failing_processor :: "'p event_processor" where
  "failing_processor =
     \<lparr> ep_operator = (\<lambda>d e t. (t, e, False, Success False)), ep_OnBegin = (\<lambda>t. (t, True)),
       ep_OnEnd = (\<lambda>t. (t, True)), ep_OnPause = (\<lambda>t. (t, True)), ep_OnResume = (\<lambda>t. (t, True)),
       ep_OnOther = (\<lambda>n t. (t, True)), ep_OnInitialize = (\<lambda>t. (t, False)),
       ep_OnEventSourceEOF = (\<lambda>t. (t, True)) \<rparr>"

definition demo_pipelines :: pipelines where
  "demo_pipelines = \<lparr> pm_pipelines = [(''default'', [(''a'', 0), (''b'', 1)])],
     pm_processors = [(''a'', 0), (''b'', 1)], pm_pCurrent = Some ''default'',
     pm_currentName = ''default'', pm_calls = [] \<rparr>"

definition demo_processors :: "nat processors" where
  "demo_processors i = (if i = 0 then failing_processor\<lparr> ep_operator := (\<lambda>d e t. (t, e, False, Success True)),
       ep_OnInitialize := (\<lambda>t. (t, True)) \<rparr> else failing_processor)"


subsection \<open>Initialization drops what failed\<close>

lemma find_processor_first:
  "p \<notin> snd ` set els \<Longrightarrow> find_processor p i (els @ (n, p) # els') = Some (i + length els)"
  by (induction els arbitrary: i) auto

lemma remove_middle:
  assumes "smap_get (pm_pipelines s) pipe = Some (els @ (n, p) # els')" "smap_get (pm_processors s) n = Some p"
    "p \<notin> snd ` set els"
  shows "removeEventProcessor pipe n s = PmOk (set_pipe pipe (els @ els') (detachIfCurrent pipe p s))"
  using assms find_processor_first [OF assms(3), of 0 n els']
  by (simp add: removeEventProcessor_def removeEventProcessor_at_def)

lemma split_first_bad:
  "filter P els = e # bad \<Longrightarrow> \<exists>us vs. els = us @ e # vs \<and> (\<forall>u \<in> set us. \<not> P u) \<and> P e \<and> bad = filter P vs"
  by (simp add: filter_eq_Cons_iff)

text \<open>Removing the elements with a bad processor by name, in order, leaves the others in order.\<close>

lemma remove_names_bad:
  assumes "smap_get (pm_pipelines s) pipe = Some els" "filter (\<lambda>e. \<not> ok (snd e)) els = bad"
    "\<forall>(n, p) \<in> set els. smap_get (pm_processors s) n = Some p"
  shows "\<exists>s'. remove_names pipe (map fst bad) s = PmOk s' \<and> pm_pCurrent s' = pm_pCurrent s \<and>
    pm_currentName s' = pm_currentName s \<and>
    smap_get (pm_pipelines s') pipe = Some (filter (\<lambda>e. ok (snd e)) els)"
  using assms
proof (induction bad arbitrary: s els)
  case Nil
  then have "filter (\<lambda>e. ok (snd e)) els = els" by (simp add: filter_empty_conv)
  then show ?case using Nil by simp
next
  case (Cons e bad)
  obtain us vs where uv: "els = us @ e # vs" "\<forall>u \<in> set us. ok (snd u)" "\<not> ok (snd e)"
    "bad = filter (\<lambda>e. \<not> ok (snd e)) vs"
    using split_first_bad [OF Cons.prems(2)] by auto
  obtain n p where e: "e = (n, p)" by fastforce
  let ?s = "set_pipe pipe (us @ vs) (detachIfCurrent pipe p s)"
  have r: "removeEventProcessor pipe n s = PmOk ?s"
    by (rule remove_middle) (use Cons.prems uv e in auto)
  have c: "pm_pCurrent ?s = pm_pCurrent s" "pm_currentName ?s = pm_currentName s"
    by (simp_all add: detachIfCurrent_def)
  have "filter (\<lambda>e. \<not> ok (snd e)) us = []" using uv(2) by (simp add: filter_empty_conv)
  then have "\<exists>s'. remove_names pipe (map fst bad) ?s = PmOk s' \<and> pm_pCurrent s' = pm_pCurrent ?s \<and>
    pm_currentName s' = pm_currentName ?s \<and>
    smap_get (pm_pipelines s') pipe = Some (filter (\<lambda>e. ok (snd e)) (us @ vs))"
    by (intro Cons.IH) (use Cons.prems uv in auto)
  then show ?case using r c uv e by auto
qed

definition initializes :: "'p processors \<Rightarrow> (nat \<Rightarrow> bool) \<Rightarrow> bool" where
  "initializes ps ok \<longleftrightarrow>
     (\<forall>p t. snd (ep_OnInitialize (ps p) t) = ok p \<and> ta_pipelines (fst (ep_OnInitialize (ps p) t)) = ta_pipelines t)"

lemma initialize_all_names:
  assumes "initializes ps ok"
  shows "snd (initialize_all ps els t) = map fst (filter (\<lambda>e. \<not> ok (snd e)) els) \<and>
    ta_pipelines (fst (initialize_all ps els t)) = ta_pipelines t"
proof (induction els arbitrary: t)
  case (Cons e els)
  obtain t1 good where o1: "ep_OnInitialize (ps (snd e)) t = (t1, good)" by fastforce
  then have g: "good = ok (snd e)" "ta_pipelines t1 = ta_pipelines t"
    using assms unfolding initializes_def by (metis snd_conv, metis fst_conv)
  show ?case using Cons.IH [of t1] o1 g by (simp add: case_prod_unfold Let_def)
qed simp

text \<open>OnInitialize takes out exactly the processors that returned false.\<close>

lemma initialize_drops_failed:
  assumes "initializes ps ok" and pm: "pm_inv (ta_pipelines t)"
    and reg: "\<forall>(n, p) \<in> set (current_elements (ta_pipelines t)). smap_get (pm_processors (ta_pipelines t)) n = Some p"
  shows "\<exists>t'. tcl_OnInitialize ps t = PmOk t' \<and>
     current_elements (ta_pipelines t') = filter (\<lambda>e. ok (snd e)) (current_elements (ta_pipelines t))"
proof -
  let ?pm = "ta_pipelines t" and ?els = "current_elements (ta_pipelines t)"
  have cur: "pm_pCurrent ?pm = Some (pm_currentName ?pm)"
    "smap_get (pm_pipelines ?pm) (pm_currentName ?pm) = Some ?els"
    using pm current_of_inv [OF pm] by (auto simp: pm_inv_def)
  obtain t1 names where i: "initialize_all ps ?els (t\<lparr> ta_initialized := True \<rparr>) = (t1, names)" by fastforce
  then have n: "names = map fst (filter (\<lambda>e. \<not> ok (snd e)) ?els)" "ta_pipelines t1 = ?pm"
    using initialize_all_names [OF assms(1), of ?els "t\<lparr> ta_initialized := True \<rparr>"] by auto
  obtain s' where s': "remove_names (pm_currentName ?pm) names ?pm = PmOk s'" "pm_pCurrent s' = pm_pCurrent ?pm"
    "smap_get (pm_pipelines s') (pm_currentName ?pm) = Some (filter (\<lambda>e. ok (snd e)) ?els)"
    using remove_names_bad [OF cur(2) refl reg, of ok] n(1) by auto
  then show ?thesis
    using i n(2) cur(1) by (auto simp: tcl_OnInitialize_def current_elements_def)
qed


end
