(* ===== verification/Bytes.thy ===== *)
theory Bytes
  imports Prelude
begin

text \<open>
  Memory as lists of bytes on a little-endian machine, and the buffer translators
  (src/main/Core/BufferTranslator.h, BufferTranslator.cpp) through which the decoders read
  integers of either byte order.  Reading past the end of a list is None.
\<close>

subsection \<open>Little-endian integers\<close>

fun nat_bytes :: "nat \<Rightarrow> nat \<Rightarrow> u8 list" where
  "nat_bytes 0 x = []"
| "nat_bytes (Suc n) x = of_nat (x mod 256) # nat_bytes n (x div 256)"

fun bytes_nat :: "u8 list \<Rightarrow> nat" where
  "bytes_nat [] = 0"
| "bytes_nat (b # bs) = unat b + 256 * bytes_nat bs"

definition get_nat :: "nat \<Rightarrow> u8 list \<Rightarrow> nat option" where
  "get_nat n bs = (if length bs < n then None else Some (bytes_nat (take n bs)))"

definition get16 :: "u8 list \<Rightarrow> u16 option" where
  "get16 bs = map_option of_nat (get_nat 2 bs)"

definition get32 :: "u8 list \<Rightarrow> u32 option" where
  "get32 bs = map_option of_nat (get_nat 4 bs)"

definition get64 :: "u8 list \<Rightarrow> u64 option" where
  "get64 bs = map_option of_nat (get_nat 8 bs)"

definition put16 :: "u16 \<Rightarrow> u8 list" where "put16 w = nat_bytes 2 (unat w)"
definition put32 :: "u32 \<Rightarrow> u8 list" where "put32 w = nat_bytes 4 (unat w)"
definition put64 :: "u64 \<Rightarrow> u8 list" where "put64 w = nat_bytes 8 (unat w)"

lemma unat_less_power: "unat (w :: 'a::len word) < 2 ^ LENGTH('a)"
  by (rule unsigned_less)

lemma length_nat_bytes [simp]: "length (nat_bytes n x) = n"
  by (induction n arbitrary: x) auto

lemma length_put [simp]: "length (put16 v) = 2" "length (put32 w) = 4" "length (put64 x) = 8"
  by (simp_all add: put16_def put32_def put64_def)

lemma bytes_nat_bytes: "bytes_nat (nat_bytes n x) = x mod 256 ^ n"
proof (induction n arbitrary: x)
  case (Suc n)
  have "unat (of_nat (x mod 256) :: u8) = x mod 256" by (simp add: unat_of_nat)
  then show ?case using Suc by (simp add: mod_mult2_eq)
qed simp

lemma bytes_nat_less: "bytes_nat bs < 256 ^ length bs"
proof (induction bs)
  case (Cons b bs)
  have "unat b < 256" using unat_less_power [of b] by simp
  then show ?case using Cons by simp
qed simp

lemma nat_bytes_bytes: "nat_bytes (length bs) (bytes_nat bs) = bs"
proof (induction bs)
  case (Cons b bs)
  have "unat b < 256" using unat_less_power [of b] by simp
  then show ?case using Cons by (simp add: unat_of_nat)
qed simp

lemma get_nat_bytes: "get_nat n (nat_bytes n x @ r) = Some (x mod 256 ^ n)"
  by (simp add: get_nat_def bytes_nat_bytes)

lemma get_put [simp]:
  "get16 (put16 v @ r) = Some v" "get32 (put32 w @ r) = Some w" "get64 (put64 x @ r) = Some x"
  using unat_less_power [of v] unat_less_power [of w] unat_less_power [of x]
  by (simp_all add: get16_def get32_def get64_def put16_def put32_def put64_def get_nat_bytes)

lemma get32_prefix: "4 \<le> length p \<Longrightarrow> get32 (p @ r) = get32 p"
  by (simp add: get32_def get_nat_def)

lemma get32_Some: "4 \<le> length p \<Longrightarrow> get32 p \<noteq> None"
  by (simp add: get32_def get_nat_def)

subsection \<open>Strings\<close>

text \<open>A C string up to its terminator, and what follows it; None is a missing terminator.\<close>

fun get_cstring :: "u8 list \<Rightarrow> (string \<times> u8 list) option" where
  "get_cstring [] = None"
| "get_cstring (b # bs) =
     (if b = 0 then Some ([], bs)
      else map_option (\<lambda>(s, r). (char_of (unat b) # s, r)) (get_cstring bs))"

definition put_cstring :: "string \<Rightarrow> u8 list" where
  "put_cstring s = map (\<lambda>c. of_nat (of_char c)) s @ [0]"

definition c_string :: "string \<Rightarrow> bool" where
  "c_string s \<longleftrightarrow> CHR 0x00 \<notin> set s"

lemma length_put_cstring [simp]: "length (put_cstring s) = length s + 1"
  by (simp add: put_cstring_def)

lemma of_char_byte: "unat (of_nat (of_char c) :: u8) = of_char c"
proof -
  have "(of_char c :: nat) < 256" by (metis nat_of_char_less_256)
  then show ?thesis by (simp add: unat_of_nat)
qed

lemma get_put_cstring [simp]: "c_string s \<Longrightarrow> get_cstring (put_cstring s @ r) = Some (s, r)"
proof (induction s)
  case (Cons c s)
  have "c \<noteq> CHR 0x00" using Cons.prems by (auto simp: c_string_def)
  then have "of_char c \<noteq> (of_char (CHR 0x00) :: nat)" by (simp only: of_char_eq_iff not_False_eq_True)
  then have "unat (of_nat (of_char c) :: u8) \<noteq> 0" unfolding of_char_byte by simp
  then have "(of_nat (of_char c) :: u8) \<noteq> 0" by force
  moreover have "c_string s" using Cons.prems by (simp add: c_string_def)
  ultimately show ?case using Cons.IH by (simp add: put_cstring_def of_char_byte)
qed (simp add: put_cstring_def)

subsection \<open>Buffer translators\<close>

datatype translator = NonSwappingBufferTranslator | SwappingBufferTranslator

text \<open>GetBlock copies bytes out of the buffer; the swapping one reverses them.\<close>

definition GetBlock :: "translator \<Rightarrow> nat \<Rightarrow> nat \<Rightarrow> u8 list \<Rightarrow> u8 list option" where
  "GetBlock t n iOffset buf =
     (if length buf < iOffset + n then None
      else let item = take n (drop iOffset buf)
           in Some (case t of NonSwappingBufferTranslator \<Rightarrow> item | SwappingBufferTranslator \<Rightarrow> rev item))"

definition GetByte :: "translator \<Rightarrow> nat \<Rightarrow> u8 list \<Rightarrow> u8 option" where
  "GetByte t iOffset buf = map_option (\<lambda>b. of_nat (bytes_nat b)) (GetBlock t 1 iOffset buf)"

definition GetWord :: "translator \<Rightarrow> nat \<Rightarrow> u8 list \<Rightarrow> u16 option" where
  "GetWord t iOffset buf = map_option (\<lambda>b. of_nat (bytes_nat b)) (GetBlock t 2 iOffset buf)"

text \<open>Long_t is a long, of eight bytes.\<close>

definition GetLongword :: "translator \<Rightarrow> nat \<Rightarrow> u8 list \<Rightarrow> u64 option" where
  "GetLongword t iOffset buf = map_option (\<lambda>b. of_nat (bytes_nat b)) (GetBlock t 8 iOffset buf)"

text \<open>TranslateLong makes the value the buffer for the time of one GetLongword.\<close>

definition TranslateLong :: "translator \<Rightarrow> u64 \<Rightarrow> u64" where
  "TranslateLong t v = (case GetLongword t 0 (put64 v) of Some w \<Rightarrow> w | None \<Rightarrow> 0)"

text \<open>Its use on a uint32_t: widened for the call, truncated after it.\<close>

definition translate32 :: "translator \<Rightarrow> u32 \<Rightarrow> u32" where
  "translate32 t w = ucast (TranslateLong t (ucast w))"

definition getQuad :: "translator \<Rightarrow> u64 \<Rightarrow> u64" where
  "getQuad t v = (case t of
      NonSwappingBufferTranslator \<Rightarrow> v
    | SwappingBufferTranslator \<Rightarrow>
       (let low = translate32 t (ucast (drop_bit 32 v)); high = translate32 t (ucast v)
        in or (push_bit 32 (ucast high)) (ucast low)))"

definition CreateBuffer :: "u32 \<Rightarrow> translator" where
  "CreateBuffer Signature32 =
     (if Signature32 = 0x01020304 then NonSwappingBufferTranslator else SwappingBufferTranslator)"

lemma translate32_native [simp]: "translate32 NonSwappingBufferTranslator w = w"
proof -
  have "unat (ucast w :: u64) = unat w" using unat_less_power [of w] by (simp add: unsigned_ucast_eq take_bit_nat_eq_self)
  moreover have "bytes_nat (nat_bytes 8 (unat w)) = unat w"
    using unat_less_power [of w] by (simp add: bytes_nat_bytes)
  moreover have "ucast (ucast w :: u64) = w"
    by (rule bit_word_eqI) (simp add: bit_simps)
  ultimately show ?thesis
    by (simp add: translate32_def TranslateLong_def GetLongword_def GetBlock_def put64_def)
qed

text \<open>
  A swapped 32 bit integer always comes out as zero: the eight bytes of the widened value are
  reversed, which leaves the four bytes of interest in the upper half.
\<close>

lemma bytes_nat_append: "bytes_nat (xs @ ys) = bytes_nat xs + 256 ^ length xs * bytes_nat ys"
  by (induction xs) (auto simp: algebra_simps)

lemma nat_bytes_small: "x < 256 ^ m \<Longrightarrow> nat_bytes (m + n) x = nat_bytes m x @ replicate n 0"
proof (induction m arbitrary: x)
  case 0
  then show ?case by (induction n) auto
next
  case (Suc m)
  then have "x div 256 < 256 ^ m" by (simp add: div_less_iff_less_mult mult.commute)
  then show ?case using Suc.IH by simp
qed

lemma bytes_nat_zeros [simp]: "bytes_nat (replicate n 0) = 0"
  by (induction n) auto

lemma translate32_swapped [simp]: "translate32 SwappingBufferTranslator w = 0"
proof -
  have u: "unat (ucast w :: u64) = unat w" using unat_less_power [of w] by (simp add: unsigned_ucast_eq take_bit_nat_eq_self)
  have "nat_bytes (4 + 4) (unat w) = nat_bytes 4 (unat w) @ replicate 4 0"
    by (rule nat_bytes_small) (use unat_less_power [of w] in simp)
  then have r: "bytes_nat (rev (nat_bytes 8 (unat w))) = 2 ^ 32 * bytes_nat (rev (nat_bytes 4 (unat w)))"
    by (simp add: bytes_nat_append)
  have t: "TranslateLong SwappingBufferTranslator (ucast w) =
      of_nat (2 ^ 32 * bytes_nat (rev (nat_bytes 4 (unat w))))"
    using r by (simp add: TranslateLong_def GetLongword_def GetBlock_def put64_def u)
  have "unat (ucast (of_nat (2 ^ 32 * k) :: u64) :: u32) = 0" for k
    unfolding unsigned_ucast_eq unat_of_nat take_bit_eq_mod by (simp add: mod_mod_cancel)
  then have "ucast (of_nat (2 ^ 32 * k) :: u64) = (0 :: u32)" for k by (simp add: unsigned_eq_0_iff)
  then show ?thesis by (simp add: translate32_def t)
qed

lemma getQuad_swapped [simp]: "getQuad SwappingBufferTranslator v = 0"
  by (simp add: getQuad_def)

end
