(* ===== verification/RingDecoder.thy ===== *)
theory RingDecoder
  imports Bytes
begin

text \<open>
  CRingBufferDecoder (src/main/Core/CRingBufferDecoder.cpp): buffers of ring item data are
  cut into ring items, which need not respect the buffers' boundaries, and each item is
  dispatched to the analyzer.  Memory is a list of bytes: the cursor into a buffer is the
  rest of its bytes.  The format helpers (RingFormatHelper.h), which interpret the items with
  the unified format library, and the handler of unrecognized items are arguments.  What the
  decoder calls is recorded, with what its getters return at the time of the call.
\<close>

subsection \<open>Item types\<close>

text \<open>The ring item types of src/main/Core/DataFormat12.h and the buffer types of buftypes.h.\<close>

definition BEGIN_RUN :: u32 where "BEGIN_RUN = 1"
definition END_RUN :: u32 where "END_RUN = 2"
definition PAUSE_RUN :: u32 where "PAUSE_RUN = 3"
definition RESUME_RUN :: u32 where "RESUME_RUN = 4"
definition PACKET_TYPES :: u32 where "PACKET_TYPES = 10"
definition MONITORED_VARIABLES :: u32 where "MONITORED_VARIABLES = 11"
definition RING_FORMAT :: u32 where "RING_FORMAT = 12"
definition PERIODIC_SCALERS :: u32 where "PERIODIC_SCALERS = 20"
definition PHYSICS_EVENT :: u32 where "PHYSICS_EVENT = 30"
definition PHYSICS_EVENT_COUNT :: u32 where "PHYSICS_EVENT_COUNT = 31"

text \<open>
  mapType: the last assignment to an index counts, and INCREMENTAL_SCALERS is
  PERIODIC_SCALERS' 20 again.
\<close>

definition typeMapping :: "(u32 \<times> u32) list" where
  "typeMapping = [(BEGIN_RUN, 11), (END_RUN, 12), (PAUSE_RUN, 13), (RESUME_RUN, 14), (PACKET_TYPES, 6),
     (MONITORED_VARIABLES, 5), (PERIODIC_SCALERS, 2), (20, 2), (PHYSICS_EVENT, 1)]"

definition mapType :: "u32 \<Rightarrow> u32" where
  "mapType t = (case map_of typeMapping t of Some m \<Rightarrow> m | None \<Rightarrow> t)"

subsection \<open>Format helpers\<close>

text \<open>None is an exception; the body pointer is an offset into the item.\<close>

record format_helper =
  fh_hasBodyHeader :: "u8 list \<Rightarrow> bool"
  fh_getBodyPointer :: "u8 list \<Rightarrow> nat"
  fh_getTitle :: "u8 list \<Rightarrow> string option"
  fh_getRunNumber :: "translator \<Rightarrow> u8 list \<Rightarrow> u32 option"
  fh_getStringCount :: "translator \<Rightarrow> u8 list \<Rightarrow> u32 option"
  fh_getScalerCount :: "translator \<Rightarrow> u8 list \<Rightarrow> u32 option"
  fh_getTriggerCount :: "translator \<Rightarrow> u8 list \<Rightarrow> u64 option"

text \<open>CRingFormatHelperFactory: creators by major and minor version.\<close>

type_synonym helper_factory = "((nat \<times> nat) \<times> format_helper) list"

definition create_helper :: "u16 \<Rightarrow> u16 \<Rightarrow> helper_factory \<Rightarrow> format_helper option" where
  "create_helper major minor f = smap_get f (unat major, unat minor)"

fun vers_put :: "nat \<times> nat \<Rightarrow> 'v \<Rightarrow> ((nat \<times> nat) \<times> 'v) list \<Rightarrow> ((nat \<times> nat) \<times> 'v) list" where
  "vers_put k v [] = [(k, v)]"
| "vers_put k v ((k', v') # m) =
     (if fst k < fst k' \<or> fst k = fst k' \<and> snd k < snd k' then (k, v) # (k', v') # m
      else if k = k' then (k, v) # m
      else (k', v') # vers_put k v m)"

definition removeCreator :: "nat \<Rightarrow> nat \<Rightarrow> helper_factory \<Rightarrow> helper_factory" where
  "removeCreator major minor f = smap_erase (major, minor) f"

definition addCreator :: "nat \<Rightarrow> nat \<Rightarrow> format_helper \<Rightarrow> helper_factory \<Rightarrow> helper_factory" where
  "addCreator major minor h f = vers_put (major, minor) h (removeCreator major minor f)"

definition default_factory :: "format_helper \<Rightarrow> format_helper \<Rightarrow> format_helper \<Rightarrow> helper_factory" where
  "default_factory h10 h11 h12 =
     fold (\<lambda>(major, minor, h). addCreator major minor h)
       [(10, 0, h10), (10, 1, h10), (10, 2, h10), (11, 0, h11), (11, 1, h11), (11, 2, h11), (11, 3, h11),
        (11, 4, h12), (12, 0, h12)] []"

subsection \<open>State\<close>

text \<open>What the getters of the decoder return to the code it calls.\<close>

record item_view =
  iv_item :: "u8 list"
  iv_bodyOffset :: nat
  iv_bodySize :: u32
  iv_entities :: u32
  iv_triggers :: u32
  iv_run :: u32
  iv_title :: string

datatype ring_call =
    CallStateChange u32 item_view | CallOther u32 item_view | CallScaler item_view | CallPhysics item_view
  | BeginRun u32 string | EndRun u32 string
  | SendRingItem "u8 list" | BroadcastRingItem "u8 list"

record 'u dispatch =
  di_title :: string
  di_runNumber :: u32
  di_item :: "u8 list"
  di_bodyOffset :: nat
  di_nBodySize :: u32
  di_nCurrentItemType :: u32
  di_nEntityCount :: u32
  di_nTriggerCount :: u32
  di_pCurrentHelper :: "format_helper option"
  di_pDefaultHelper :: "format_helper option"
  di_pFallbackHelper :: format_helper
  di_pFactory :: helper_factory
  di_handler :: 'u
  di_calls :: "ring_call list"

text \<open>
  The environment: whether this is the root of an MPI SpecTcl, and the handler of
  unrecognized items with its own state.
\<close>

record 'u ring_env =
  en_mpiRoot :: bool
  en_handler :: "u8 list \<Rightarrow> 'u \<Rightarrow> 'u \<times> bool"

text \<open>An exception anywhere below operator() makes SpecTcl exit.\<close>

datatype 'a ring_result = RingOk 'a | RingExit | RingUndefined

fun rbind :: "'a ring_result \<Rightarrow> ('a \<Rightarrow> 'b ring_result) \<Rightarrow> 'b ring_result" where
  "rbind (RingOk x) f = f x"
| "rbind RingExit f = RingExit"
| "rbind RingUndefined f = RingUndefined"

fun or_exit :: "'a option \<Rightarrow> 'a ring_result" where
  "or_exit None = RingExit"
| "or_exit (Some x) = RingOk x"

subsection \<open>Dispatching an item\<close>

definition getFormatHelper :: "'u dispatch \<Rightarrow> format_helper" where
  "getFormatHelper d = (case di_pCurrentHelper d of Some h \<Rightarrow> h
     | None \<Rightarrow> (case di_pDefaultHelper d of Some h \<Rightarrow> h | None \<Rightarrow> di_pFallbackHelper d))"

definition invalidateCurrentHelper :: "'u dispatch \<Rightarrow> 'u dispatch" where
  "invalidateCurrentHelper d = d\<lparr> di_pCurrentHelper := None \<rparr>"

definition the_view :: "'u dispatch \<Rightarrow> item_view" where
  "the_view d = \<lparr> iv_item = di_item d, iv_bodyOffset = di_bodyOffset d, iv_bodySize = di_nBodySize d,
     iv_entities = di_nEntityCount d, iv_triggers = di_nTriggerCount d, iv_run = di_runNumber d,
     iv_title = di_title d \<rparr>"

definition ring_log :: "ring_call list \<Rightarrow> 'u dispatch \<Rightarrow> 'u dispatch" where
  "ring_log cs d = d\<lparr> di_calls := di_calls d @ cs \<rparr>"

definition handle_unrecognized :: "'u ring_env \<Rightarrow> u8 list \<Rightarrow> 'u dispatch \<Rightarrow> 'u dispatch \<times> bool" where
  "handle_unrecognized env item d =
     (let (u, done) = en_handler env item (di_handler d) in (d\<lparr> di_handler := u \<rparr>, done))"

text \<open>
  The header of the item: its format helper, when it is a format item, its body and type.
\<close>

definition item_header :: "translator \<Rightarrow> u8 list \<Rightarrow> u32 \<Rightarrow> u32 \<Rightarrow> 'u dispatch \<Rightarrow> 'u dispatch ring_result" where
  "item_header t item isize type d =
     rbind (if type = RING_FORMAT
            then (case (get16 (drop 12 item), get16 (drop 14 item)) of
                    (Some major, Some minor) \<Rightarrow>
                      RingOk (d\<lparr> di_pCurrentHelper := create_helper major minor (di_pFactory d) \<rparr>)
                  | _ \<Rightarrow> RingUndefined)
            else RingOk d)
       (\<lambda>d. let b = fh_getBodyPointer (getFormatHelper d) item
            in RingOk (d\<lparr> di_item := item, di_bodyOffset := b, di_nBodySize := isize - of_nat b,
                 di_nCurrentItemType := mapType type \<rparr>))"

text \<open>What the root of an MPI SpecTcl does with the item instead of analyzing it.\<close>

definition mpi_root :: "'u ring_env \<Rightarrow> translator \<Rightarrow> u8 list \<Rightarrow> u32 \<Rightarrow> 'u dispatch \<Rightarrow> 'u dispatch ring_result" where
  "mpi_root env t item type d =
     (let h = getFormatHelper d
      in if type = PHYSICS_EVENT then RingOk (ring_log [SendRingItem item] d)
         else (let (d', done) = handle_unrecognized env item d
               in if done then RingOk d'
                  else (let d2 = ring_log [BroadcastRingItem item] d'
                        in if type = BEGIN_RUN \<or> type = END_RUN
                           then rbind (or_exit (fh_getRunNumber h t item)) (\<lambda>run.
                                rbind (or_exit (fh_getTitle h item)) (\<lambda>title.
                                RingOk (ring_log [if type = BEGIN_RUN then BeginRun run title else EndRun run title] d2)))
                           else RingOk d2)))"

text \<open>The cases of the switch; the first four share their tail.\<close>

definition state_transition :: "bool \<Rightarrow> translator \<Rightarrow> u8 list \<Rightarrow> u32 \<Rightarrow> 'u dispatch \<Rightarrow> 'u dispatch ring_result" where
  "state_transition processLocally t item type d =
     (let h = getFormatHelper d; d1 = (if type = BEGIN_RUN then d\<lparr> di_nTriggerCount := 0 \<rparr> else d)
      in rbind (or_exit (fh_getTitle h item)) (\<lambda>title.
         rbind (or_exit (fh_getRunNumber h t item)) (\<lambda>run.
           let d2 = (if processLocally \<and> type = BEGIN_RUN then ring_log [BeginRun run title] d1
                     else if processLocally \<and> type = END_RUN then ring_log [EndRun run title] d1 else d1);
               d3 = d2\<lparr> di_title := title, di_runNumber := run, di_nEntityCount := 0 \<rparr>
           in RingOk (if processLocally then ring_log [CallStateChange (di_nCurrentItemType d3) (the_view d3)] d3 else d3))))"

definition process_item ::
  "'u ring_env \<Rightarrow> bool \<Rightarrow> translator \<Rightarrow> u8 list \<Rightarrow> u32 \<Rightarrow> 'u dispatch \<Rightarrow> 'u dispatch ring_result" where
  "process_item env processLocally t item type d =
     (let h = getFormatHelper d; other = (\<lambda>d. ring_log [CallOther (di_nCurrentItemType d) (the_view d)] d) in
      if type \<in> {BEGIN_RUN, END_RUN, PAUSE_RUN, RESUME_RUN} then state_transition processLocally t item type d
      else if type = PACKET_TYPES \<or> type = MONITORED_VARIABLES then
        rbind (or_exit (fh_getStringCount h t item)) (\<lambda>n. let d1 = d\<lparr> di_nEntityCount := n \<rparr>
          in RingOk (if processLocally then other d1 else d1))
      else if type = PERIODIC_SCALERS then
        rbind (or_exit (fh_getScalerCount h t item)) (\<lambda>n. let d1 = d\<lparr> di_nEntityCount := n \<rparr>
          in RingOk (if processLocally then ring_log [CallScaler (the_view d1)] d1 else d1))
      else if type = PHYSICS_EVENT then
        (let d1 = d\<lparr> di_nEntityCount := 1, di_nTriggerCount := di_nTriggerCount d + 1 \<rparr>
         in RingOk (if processLocally then ring_log [CallPhysics (the_view d1)] d1 else d1))
      else if type = PHYSICS_EVENT_COUNT then
        rbind (or_exit (fh_getTriggerCount h t item)) (\<lambda>n. let d1 = d\<lparr> di_nTriggerCount := ucast n \<rparr>
          in RingOk (if processLocally then other d1 else d1))
      else RingOk (if processLocally
        then (let (d', done) = handle_unrecognized env item d in if done then d' else other d')
        else d))"

definition dispatchEvent :: "'u ring_env \<Rightarrow> translator \<Rightarrow> u8 list \<Rightarrow> 'u dispatch \<Rightarrow> 'u dispatch ring_result" where
  "dispatchEvent env t mem d = (case (get32 mem, get32 (drop 4 mem)) of
      (Some s, Some ty) \<Rightarrow>
       (let isize = translate32 t s; type = translate32 t ty; item = take (unat isize) mem in
        rbind (item_header t item isize type d) (\<lambda>d1.
        rbind (if en_mpiRoot env then mpi_root env t item type d1 else RingOk d1) (\<lambda>d2.
        process_item env (\<not> en_mpiRoot env) t item type d2)))
    | _ \<Rightarrow> RingUndefined)"

subsection \<open>Cutting buffers into items\<close>

text \<open>
  The partial event is the part of it that has come so far, with the size of the whole; the
  glued buffer holds the bytes left over when there were too few for a header.
\<close>

record 'u ring_decoder =
  rd_pPartialEvent :: "u8 list option"
  rd_nPartialEventSize :: nat
  rd_pGluedBuffer :: "u8 list option"
  rd_pTranslator :: "translator option"
  rd_dispatch :: "'u dispatch"

definition header_size :: nat where
  "header_size = 8"

definition createTranslator :: "u8 list \<Rightarrow> 'u ring_decoder \<Rightarrow> 'u ring_decoder ring_result" where
  "createTranslator buf r = (case get32 (drop 4 buf) of
      None \<Rightarrow> RingUndefined
    | Some ty \<Rightarrow> RingOk (r\<lparr> rd_pTranslator := Some
        (if and ty 0xffff0000 \<noteq> 0 then SwappingBufferTranslator else NonSwappingBufferTranslator) \<rparr>))"

definition dispatch_now :: "'u ring_env \<Rightarrow> translator \<Rightarrow> u8 list \<Rightarrow> 'u ring_decoder \<Rightarrow> 'u ring_decoder ring_result" where
  "dispatch_now env t mem r =
     rbind (dispatchEvent env t mem (rd_dispatch r)) (\<lambda>d. RingOk (r\<lparr> rd_dispatch := d \<rparr>))"

text \<open>The loop over what remains of the buffer.\<close>

function process_items :: "'u ring_env \<Rightarrow> translator \<Rightarrow> u8 list \<Rightarrow> 'u ring_decoder \<Rightarrow> 'u ring_decoder ring_result" where
  "process_items env t rest r =
     (if rest = [] then RingOk r
      else if header_size < length rest then
        (case get32 rest of
           None \<Rightarrow> RingUndefined
         | Some s \<Rightarrow>
            (let isize = unat (translate32 t s) in
             if isize = 0 then RingExit
             else if length rest < isize then
               RingOk (r\<lparr> rd_pPartialEvent := Some rest, rd_nPartialEventSize := isize, rd_pGluedBuffer := None \<rparr>)
             else rbind (dispatch_now env t rest r) (\<lambda>r1.
                  let rest' = drop isize rest;
                      r2 = (if rest' = [] then r1\<lparr> rd_pGluedBuffer := None \<rparr> else r1)
                  in process_items env t rest' r2)))
      else RingOk (r\<lparr> rd_pGluedBuffer := Some rest \<rparr>))"
  by pat_completeness auto
termination
  by (relation "measure (\<lambda>(env, t, rest, r). length rest)") auto

declare process_items.simps [simp del]

text \<open>The part before the loop: first the partial event, then the glued buffer.\<close>

definition fill_partial :: "'u ring_env \<Rightarrow> translator \<Rightarrow> u8 list \<Rightarrow> 'u ring_decoder \<Rightarrow> ('u ring_decoder \<times> u8 list) ring_result" where
  "fill_partial env t buf r = (case rd_pPartialEvent r of
      None \<Rightarrow> RingOk (r, buf)
    | Some p \<Rightarrow>
       (let remaining = rd_nPartialEventSize r - length p;
            append = (if remaining \<le> length buf then remaining else length buf);
            p' = p @ take append buf;
            rest = drop append buf
        in if rd_nPartialEventSize r \<le> length p'
           then rbind (dispatch_now env t p' r) (\<lambda>r1. RingOk (r1\<lparr> rd_pPartialEvent := None \<rparr>, rest))
           else RingOk (r\<lparr> rd_pPartialEvent := Some p' \<rparr>, rest)))"

definition processBuffer :: "'u ring_env \<Rightarrow> translator \<Rightarrow> u8 list \<Rightarrow> 'u ring_decoder \<Rightarrow> 'u ring_decoder ring_result" where
  "processBuffer env t buf r =
     rbind (fill_partial env t buf r) (\<lambda>(r1, rest).
       process_items env t (case rd_pGluedBuffer r1 of Some g \<Rightarrow> g @ buf | None \<Rightarrow> rest) r1)"

definition ring_operator :: "'u ring_env \<Rightarrow> u8 list \<Rightarrow> 'u ring_decoder \<Rightarrow> 'u ring_decoder ring_result" where
  "ring_operator env buf r =
     rbind (if rd_pPartialEvent r = None \<and> rd_pGluedBuffer r = None then createTranslator buf r else RingOk r)
       (\<lambda>r1. case rd_pTranslator r1 of
           None \<Rightarrow> RingUndefined
         | Some t \<Rightarrow> processBuffer env t buf r1)"

fun ring_buffers :: "'u ring_env \<Rightarrow> u8 list list \<Rightarrow> 'u ring_decoder \<Rightarrow> 'u ring_decoder ring_result" where
  "ring_buffers env [] r = RingOk r"
| "ring_buffers env (b # bs) r = rbind (ring_operator env b r) (ring_buffers env bs)"

text \<open>Data sources come and go: the current helper does not outlive them.\<close>

definition OnSourceAttach :: "'u ring_decoder \<Rightarrow> 'u ring_decoder" where
  "OnSourceAttach r = r\<lparr> rd_dispatch := invalidateCurrentHelper (rd_dispatch r) \<rparr>"

definition OnSourceDetach :: "'u ring_decoder \<Rightarrow> 'u ring_decoder" where
  "OnSourceDetach r = r\<lparr> rd_dispatch := invalidateCurrentHelper (rd_dispatch r) \<rparr>"

definition OnEndFile :: "'u ring_decoder \<Rightarrow> 'u ring_decoder" where
  "OnEndFile r = r\<lparr> rd_dispatch := invalidateCurrentHelper (rd_dispatch r) \<rparr>"

definition new_ring_decoder :: "format_helper \<Rightarrow> format_helper \<Rightarrow> format_helper \<Rightarrow> 'u \<Rightarrow> 'u ring_decoder" where
  "new_ring_decoder h10 h11 h12 u =
     \<lparr> rd_pPartialEvent = None, rd_nPartialEventSize = 0, rd_pGluedBuffer = None, rd_pTranslator = None,
       rd_dispatch = \<lparr> di_title = [], di_runNumber = 0, di_item = [], di_bodyOffset = 0, di_nBodySize = 0,
         di_nCurrentItemType = 0, di_nEntityCount = 0, di_nTriggerCount = 0, di_pCurrentHelper = None,
         di_pDefaultHelper = None, di_pFallbackHelper = h11, di_pFactory = default_factory h10 h11 h12,
         di_handler = u, di_calls = [] \<rparr> \<rparr>"

end
