(* ===== verification/RingStream.thy ===== *)
theory RingStream
  imports RingDecoder
begin

text \<open>
  A stream of ring items is dispatched item by item, however it is cut into buffers; and a
  stream of the other byte order is never decoded.
\<close>

subsection \<open>Well-formed items\<close>

definition good_item :: "u8 list \<Rightarrow> bool" where
  "good_item it \<longleftrightarrow> header_size < length it \<and> length it < 2 ^ 32 \<and>
     get32 it = Some (of_nat (length it)) \<and> (\<exists>ty. get32 (drop 4 it) = Some ty \<and> and ty 0xffff0000 = 0)"

abbreviation Native :: translator where "Native \<equiv> NonSwappingBufferTranslator"

fun dispatch_all :: "'u ring_env \<Rightarrow> u8 list list \<Rightarrow> 'u dispatch \<Rightarrow> 'u dispatch ring_result" where
  "dispatch_all env [] d = RingOk d"
| "dispatch_all env (it # its) d = rbind (dispatchEvent env Native it d) (dispatch_all env its)"

lemma rbind_assoc [simp]: "rbind (rbind x f) g = rbind x (\<lambda>y. rbind (f y) g)"
  by (cases x) auto

lemma rbind_RingOk [simp]: "rbind x RingOk = x"
  by (cases x) auto

lemma rbind_cong: "(\<And>y. x = RingOk y \<Longrightarrow> f y = g y) \<Longrightarrow> rbind x f = rbind x g"
  by (cases x) auto

lemma dispatch_all_append: "dispatch_all env (xs @ ys) d = rbind (dispatch_all env xs d) (dispatch_all env ys)"
  by (induction xs arbitrary: d) (auto intro: rbind_cong)

lemma good_item_size: "good_item it \<Longrightarrow> get32 (it @ r) = Some (of_nat (length it)) \<and> unat (of_nat (length it) :: u32) = length it"
  by (auto simp: good_item_def header_size_def get32_prefix unat_of_nat)

lemma dispatchEvent_more: "good_item it \<Longrightarrow> dispatchEvent env Native (it @ r) d = dispatchEvent env Native it d"
  using good_item_size [of it r] good_item_size [of it "[]"]
  by (auto simp: dispatchEvent_def good_item_def header_size_def get32_prefix)

subsection \<open>What the decoder keeps between buffers\<close>

text \<open>The bytes pend of an item that is not complete, and the size n of the whole if it is known.\<close>

definition parked :: "nat \<Rightarrow> u8 list \<Rightarrow> 'u dispatch \<Rightarrow> 'u ring_decoder" where
  "parked n pend d =
     \<lparr> rd_pPartialEvent = (if header_size < length pend then Some pend else None),
       rd_nPartialEventSize = n,
       rd_pGluedBuffer = (if pend \<noteq> [] \<and> length pend \<le> header_size then Some pend else None),
       rd_pTranslator = Some Native, rd_dispatch = d \<rparr>"

lemma parked_sel [simp]:
  "rd_nPartialEventSize (parked n pend d) = n" "rd_dispatch (parked n pend d) = d"
  "rd_pTranslator (parked n pend d) = Some Native"
  "(parked n pend d)\<lparr> rd_pTranslator := Some Native \<rparr> = parked n pend d"
  by (simp_all add: parked_def)

definition pending :: "u8 list \<Rightarrow> u8 list list \<Rightarrow> bool" where
  "pending pend todo \<longleftrightarrow> pend = [] \<or> (todo \<noteq> [] \<and> length pend < length (hd todo))"

lemma pending_Nil [simp]: "pending [] todo"
  by (simp add: pending_def)

definition known_size :: "u8 list \<Rightarrow> u8 list list \<Rightarrow> nat \<Rightarrow> nat" where
  "known_size pend todo n = (if header_size < length pend then length (hd todo) else n)"

definition ready :: "u8 list \<Rightarrow> 'u ring_decoder \<Rightarrow> bool" where
  "ready rest r \<longleftrightarrow> rd_pPartialEvent r = None \<and> rd_pTranslator r = Some Native \<and>
     (rest = [] \<longrightarrow> rd_pGluedBuffer r = None)"

text \<open>
  The loop over a buffer, from any state without a partial event: it dispatches the items the
  rest of the buffer completes and parks what is left.
\<close>

lemma process_items_stream:
  assumes "\<forall>it \<in> set todo. good_item it" "rest @ R = concat todo"
  shows "\<exists>gone todo' pend. todo = gone @ todo' \<and> rest = concat gone @ pend \<and> pending pend todo' \<and>
     (\<forall>r. ready rest r \<longrightarrow> process_items env Native rest r =
       rbind (dispatch_all env gone (rd_dispatch r))
         (\<lambda>d. RingOk (parked (known_size pend todo' (rd_nPartialEventSize r)) pend d)))"
  using assms
proof (induction todo arbitrary: rest)
  case Nil
  then have "process_items env Native rest r = RingOk (parked (rd_nPartialEventSize r) [] (rd_dispatch r))"
    if "ready rest r" for r :: "'a ring_decoder"
    using that by (cases r) (simp add: process_items.simps parked_def ready_def)
  then show ?case using Nil by (intro exI [of _ "[]"]) (simp add: pending_def known_size_def)
next
  case (Cons it todo)
  have it: "good_item it" using Cons.prems(1) by simp
  have sz: "get32 (it @ x) = Some (of_nat (length it))" "unat (of_nat (length it) :: u32) = length it" for x
    using good_item_size [OF it] by auto
  consider "rest = []" | "rest \<noteq> []" "length rest \<le> header_size"
    | "header_size < length rest" "length rest < length it" | "header_size < length rest" "length it \<le> length rest"
    by linarith
  then show ?case
  proof cases
    case 1
    then have "process_items env Native rest r = RingOk (parked (rd_nPartialEventSize r) [] (rd_dispatch r))"
      if "ready rest r" for r :: "'a ring_decoder"
      using that by (cases r) (simp add: process_items.simps parked_def ready_def)
    then show ?thesis using 1 by (intro exI [of _ "[] :: u8 list list"] exI [of _ "it # todo"]) (simp add: pending_def known_size_def)
  next
    case 2
    then have "process_items env Native rest r = RingOk (parked (rd_nPartialEventSize r) rest (rd_dispatch r))"
      if "ready rest r" for r :: "'a ring_decoder"
      using that by (cases r) (simp add: process_items.simps parked_def ready_def)
    moreover have "length rest < length it" using 2 it by (simp add: good_item_def)
    ultimately show ?thesis
      using 2 by (intro exI [of _ "[] :: u8 list list"] exI [of _ "it # todo"]) (simp add: pending_def known_size_def)
  next
    case 3
    have "take (length rest) (rest @ R) = take (length rest) (it @ concat todo)" using Cons.prems(2) by simp
    then have x: "it = rest @ drop (length rest) it"
      using 3(2) by (metis append_take_drop_id append_eq_conv_conj diff_is_0_eq' less_imp_le_nat take_0 take_append append_Nil2)
    have "get32 rest = get32 (rest @ drop (length rest) it)"
      using 3(1) by (simp add: get32_prefix header_size_def)
    then have "get32 rest = Some (of_nat (length it))" using sz(1) [of "[]"] x by simp
    moreover have "length it \<noteq> 0" "rest \<noteq> []" using 3 by auto
    ultimately have "process_items env Native rest r = RingOk (parked (length it) rest (rd_dispatch r))"
      if "ready rest r" for r :: "'a ring_decoder"
      using 3 sz(2) that
      by (cases r) (simp add: process_items.simps [of env Native rest] parked_def ready_def Let_def)
    then show ?thesis
      using 3 by (intro exI [of _ "[] :: u8 list list"] exI [of _ "it # todo"]) (simp add: pending_def known_size_def)
  next
    case 4
    obtain rest' where rest': "rest = it @ rest'" "rest' @ R = concat todo"
      using Cons.prems(2) 4(2) by (auto simp: append_eq_append_conv2)
    have ne: "length it \<noteq> 0" "rest \<noteq> []" using 4 it by (auto simp: good_item_def)
    have p: "process_items env Native rest r =
        rbind (dispatchEvent env Native it (rd_dispatch r)) (\<lambda>d. process_items env Native rest'
          (r\<lparr> rd_dispatch := d, rd_pGluedBuffer := (if rest' = [] then None else rd_pGluedBuffer r) \<rparr>))"
      for r :: "'a ring_decoder"
    proof -
      have "process_items env Native rest r =
        rbind (dispatch_now env Native rest r) (\<lambda>r1. process_items env Native rest'
          (if rest' = [] then r1\<lparr> rd_pGluedBuffer := None \<rparr> else r1))"
        using 4 ne sz(1) [of rest'] sz(2) rest'(1)
        by (simp add: process_items.simps [of env Native "it @ rest'"] Let_def)
      then show ?thesis
        using dispatchEvent_more [OF it, of env rest'] rest'(1)
        by (auto simp: dispatch_now_def intro!: rbind_cong)
    qed
    obtain gone todo' pend where ih: "todo = gone @ todo'" "rest' = concat gone @ pend" "pending pend todo'"
      "\<And>r. ready rest' r \<Longrightarrow> process_items env Native rest' r =
         rbind (dispatch_all env gone (rd_dispatch r))
           (\<lambda>d. RingOk (parked (known_size pend todo' (rd_nPartialEventSize r)) pend d))"
      using Cons.IH [OF _ rest'(2)] Cons.prems(1) by auto
    have "process_items env Native rest r = rbind (dispatch_all env (it # gone) (rd_dispatch r))
         (\<lambda>d. RingOk (parked (known_size pend todo' (rd_nPartialEventSize r)) pend d))"
      if "ready rest r" for r :: "'a ring_decoder"
    proof -
      have "ready rest' (r\<lparr> rd_dispatch := d, rd_pGluedBuffer := (if rest' = [] then None else rd_pGluedBuffer r) \<rparr>)" for d
        using that by (simp add: ready_def)
      then show ?thesis by (simp add: p ih(4))
    qed
    then show ?thesis
      using ih(1-3) rest'(1) by (intro exI [of _ "it # gone"] exI [of _ todo'] exI [of _ pend]) simp
  qed
qed

text \<open>One buffer of at least a header, from a parked state.\<close>

lemma get32_take: "4 \<le> n \<Longrightarrow> get32 (take n bs) = get32 bs"
  by (simp add: get32_def get_nat_def min_def)

lemma same_type:
  assumes "good_item it" "header_size \<le> length buf" "buf @ R = it @ S"
  shows "get32 (drop 4 buf) = get32 (drop 4 it)"
proof -
  have "take 4 (drop 4 (buf @ R)) = take 4 (drop 4 (it @ S))" using assms(3) by simp
  then have "take 4 (drop 4 buf) = take 4 (drop 4 it)"
    using assms(1,2) by (simp add: good_item_def header_size_def)
  then show ?thesis by (metis get32_take order_refl)
qed

lemma createTranslator_native:
  assumes "good_item it" "header_size \<le> length buf" "buf @ R = it @ S"
  shows "createTranslator buf r = RingOk (r\<lparr> rd_pTranslator := Some Native \<rparr>)"
  using same_type [OF assms] assms(1) by (auto simp: createTranslator_def good_item_def)

lemma operator_stream:
  assumes good: "\<forall>it \<in> set todo. good_item it" and st: "pend @ buf @ R = concat todo"
    and pd: "pending pend todo" and len: "header_size \<le> length buf"
  shows "\<exists>gone todo' pend'. todo = gone @ todo' \<and> pend @ buf = concat gone @ pend' \<and> pending pend' todo' \<and>
     (\<forall>n d tr. (pend \<noteq> [] \<longrightarrow> tr = Some Native) \<longrightarrow>
        ring_operator env buf ((parked (known_size pend todo n) pend d)\<lparr> rd_pTranslator := tr \<rparr>) =
          rbind (dispatch_all env gone d)
            (\<lambda>d. RingOk (parked (known_size pend' todo' (known_size pend todo n)) pend' d)))"
proof -
  have ne: "buf \<noteq> []" using len by (auto simp: header_size_def)
  then obtain it its where todo: "todo = it # its" using st by (cases todo) auto
  have it: "good_item it" using good todo by simp
  consider "pend = []" | "pend \<noteq> []" "length pend \<le> header_size" | "header_size < length pend" by linarith
  then show ?thesis
  proof cases
    case 1
    then have st': "buf @ R = concat todo" using st by simp
    have ct: "createTranslator buf r = RingOk (r\<lparr> rd_pTranslator := Some Native \<rparr>)" for r :: "'a ring_decoder"
      using createTranslator_native [OF it len, of R "concat its"] st' todo by simp
    obtain gone todo' pend' where p: "todo = gone @ todo'" "buf = concat gone @ pend'" "pending pend' todo'"
      "\<And>r. ready buf r \<Longrightarrow> process_items env Native buf r = rbind (dispatch_all env gone (rd_dispatch r))
         (\<lambda>d. RingOk (parked (known_size pend' todo' (rd_nPartialEventSize r)) pend' d))"
      using process_items_stream [OF good st'] by blast
    have r: "ready buf (parked n [] d)" for n and d :: "'a dispatch" by (simp add: parked_def ready_def)
    have "ring_operator env buf ((parked n [] d)\<lparr> rd_pTranslator := tr \<rparr>) =
        process_items env Native buf (parked n [] d)" for n d tr
      by (simp add: ring_operator_def ct processBuffer_def fill_partial_def parked_def)
    then have op: "ring_operator env buf ((parked n [] d)\<lparr> rd_pTranslator := tr \<rparr>) =
        rbind (dispatch_all env gone d) (\<lambda>d. RingOk (parked (known_size pend' todo' n) pend' d))" for n d tr
      by (simp add: p(4) [OF r])
    show ?thesis
      by (rule exI [of _ gone], rule exI [of _ todo'], rule exI [of _ pend'])
        (use p(1-3) 1 op in \<open>auto simp: known_size_def [of "[]"]\<close>)
  next
    case 2
    have st': "(pend @ buf) @ R = concat todo" using st by simp
    obtain gone todo' pend' where p: "todo = gone @ todo'" "pend @ buf = concat gone @ pend'" "pending pend' todo'"
      "\<And>r. ready (pend @ buf) r \<Longrightarrow> process_items env Native (pend @ buf) r = rbind (dispatch_all env gone (rd_dispatch r))
         (\<lambda>d. RingOk (parked (known_size pend' todo' (rd_nPartialEventSize r)) pend' d))"
      using process_items_stream [OF good st'] by blast
    have r: "ready (pend @ buf) (parked n pend d)" for n and d :: "'a dispatch"
      using 2 by (simp add: parked_def ready_def)
    have "ring_operator env buf (parked n pend d) = process_items env Native (pend @ buf) (parked n pend d)" for n d
      using 2 by (simp add: ring_operator_def processBuffer_def fill_partial_def parked_def)
    then have op: "ring_operator env buf (parked n pend d) =
        rbind (dispatch_all env gone d) (\<lambda>d. RingOk (parked (known_size pend' todo' n) pend' d))" for n d
      by (simp add: p(4) [OF r])
    show ?thesis
      by (rule exI [of _ gone], rule exI [of _ todo'], rule exI [of _ pend'])
        (use p(1-3) 2 op in \<open>auto simp: known_size_def [of pend]\<close>)
  next
    case 3
    have lt: "length pend < length it" using pd 3 todo by (auto simp: pending_def)
    let ?k = "length it - length pend"
    have "take (length it) (pend @ buf @ R) = it" using st todo by simp
    then have split: "pend @ take ?k (buf @ R) = it" using lt by simp
    show ?thesis
    proof (cases "?k \<le> length buf")
      case True
      let ?rest = "drop ?k buf"
      have b: "pend @ take ?k buf = it" using split True by simp
      have "pend @ buf = (pend @ take ?k buf) @ ?rest" by simp
      then have e: "pend @ buf = it @ ?rest" unfolding b .
      have "(pend @ buf) @ R = it @ concat its" using st todo by simp
      then have rest: "?rest @ R = concat its" "pend @ buf = it @ ?rest" using e by simp_all
      have good': "\<forall>it \<in> set its. good_item it" using good todo by simp
      obtain gone todo' pend' where p: "its = gone @ todo'" "?rest = concat gone @ pend'" "pending pend' todo'"
        "\<And>r. ready ?rest r \<Longrightarrow> process_items env Native ?rest r = rbind (dispatch_all env gone (rd_dispatch r))
           (\<lambda>d. RingOk (parked (known_size pend' todo' (rd_nPartialEventSize r)) pend' d))"
        using process_items_stream [OF good' rest(1), of env] by blast
      have f: "fill_partial env Native buf (parked (length it) pend d) =
          rbind (dispatchEvent env Native it d) (\<lambda>d. RingOk (parked (length it) [] d, ?rest))" for d
        using 3 True b lt by (simp add: fill_partial_def parked_def dispatch_now_def Let_def)
      have g: "ready ?rest (parked (length it) [] d)" for d :: "'a dispatch" by (simp add: ready_def parked_def)
      have op: "ring_operator env buf (parked (length it) pend d) = rbind (dispatch_all env (it # gone) d)
            (\<lambda>d. RingOk (parked (known_size pend' todo' (length it)) pend' d))" for d
        using 3 p(4) [OF g] f
        by (simp add: ring_operator_def processBuffer_def parked_def)
      show ?thesis
        by (rule exI [of _ "it # gone"], rule exI [of _ todo'], rule exI [of _ pend'])
          (use p(1-3) rest(2) 3 todo op in \<open>auto simp: known_size_def [of pend]\<close>)
    next
      case False
      then have nle: "\<not> length it \<le> length pend + length buf" by linarith
      have f: "fill_partial env Native buf (parked (length it) pend d) = RingOk (parked (length it) (pend @ buf) d, [])"
        for d using 3 False lt nle by (simp add: fill_partial_def parked_def Let_def)
      have op: "ring_operator env buf (parked (length it) pend d) = RingOk (parked (length it) (pend @ buf) d)" for d
        using 3 f by (simp add: ring_operator_def processBuffer_def process_items.simps parked_def)
      show ?thesis
        by (rule exI [of _ "[]"], rule exI [of _ todo], rule exI [of _ "pend @ buf"])
          (use 3 False todo op in \<open>auto simp: known_size_def pending_def\<close>)
    qed
  qed
qed

subsection \<open>A stream of items in any buffers\<close>

lemma buffers_stream:
  assumes "\<forall>it \<in> set todo. good_item it" "pend @ concat bufs @ R = concat todo" "pending pend todo"
    and "\<forall>b \<in> set bufs. header_size \<le> length b"
  shows "\<exists>gone todo' pend'. todo = gone @ todo' \<and> pend @ concat bufs = concat gone @ pend' \<and> pending pend' todo' \<and>
     (\<forall>n d. \<exists>n'. ring_buffers env bufs (parked (known_size pend todo n) pend d) =
          rbind (dispatch_all env gone d) (\<lambda>d. RingOk (parked (known_size pend' todo' n') pend' d)))"
  using assms
proof (induction bufs arbitrary: todo pend)
  case Nil
  show ?case
    by (rule exI [of _ "[]"], rule exI [of _ todo], rule exI [of _ pend]) (use Nil in auto)
next
  case (Cons b bufs)
  have len: "header_size \<le> length b" using Cons.prems(4) by simp
  have st: "pend @ b @ (concat bufs @ R) = concat todo" using Cons.prems(2) by simp
  obtain g1 t1 p1 where one: "todo = g1 @ t1" "pend @ b = concat g1 @ p1" "pending p1 t1"
    "\<And>n d. ring_operator env b (parked (known_size pend todo n) pend d) =
       rbind (dispatch_all env g1 d) (\<lambda>d. RingOk (parked (known_size p1 t1 (known_size pend todo n)) p1 d))"
    using operator_stream [OF Cons.prems(1) st Cons.prems(3) len, of env] by (metis parked_sel(4))
  have "(pend @ b) @ (concat bufs @ R) = concat g1 @ concat t1" using st one(1) by simp
  then have "p1 @ concat bufs @ R = concat t1" unfolding one(2) by simp
  moreover have "\<forall>it \<in> set t1. good_item it" "\<forall>b \<in> set bufs. header_size \<le> length b"
    using Cons.prems(1,4) one(1) by auto
  ultimately obtain g2 t2 p2 where two: "t1 = g2 @ t2" "p1 @ concat bufs = concat g2 @ p2" "pending p2 t2"
    "\<And>n d. \<exists>n'. ring_buffers env bufs (parked (known_size p1 t1 n) p1 d) =
       rbind (dispatch_all env g2 d) (\<lambda>d. RingOk (parked (known_size p2 t2 n') p2 d))"
    using Cons.IH [of t1 p1] one(3) by blast
  have run: "\<exists>n'. ring_buffers env (b # bufs) (parked (known_size pend todo n) pend d) =
          rbind (dispatch_all env (g1 @ g2) d) (\<lambda>d. RingOk (parked (known_size p2 t2 n') p2 d))" for n d
  proof (cases "dispatch_all env g1 d")
    case (RingOk d1)
    then show ?thesis
      using two(4) [of "known_size pend todo n" d1] by (auto simp: one(4) dispatch_all_append)
  qed (auto simp: one(4) dispatch_all_append)
  have "pend @ concat (b # bufs) = (pend @ b) @ concat bufs" by simp
  also have "\<dots> = concat g1 @ (p1 @ concat bufs)" unfolding one(2) by simp
  also have "\<dots> = concat (g1 @ g2) @ p2" unfolding two(2) by simp
  finally have split: "pend @ concat (b # bufs) = concat (g1 @ g2) @ p2" .
  show ?case
    by (rule exI [of _ "g1 @ g2"], rule exI [of _ t2], rule exI [of _ p2]) (use run split one(1) two(1,3) in auto)
qed

text \<open>
  C20. Ring items in the machine's byte order, of more than a header each, cut into buffers at
  any place whatever (each buffer of at least eight bytes): the decoder dispatches exactly the
  items that are complete, in the order of the stream and with the same effects as if each
  came alone, and keeps the incomplete rest for the next buffer.  Once the stream is
  complete every item has been dispatched and nothing is kept.
\<close>

theorem ring_stream_dispatch:
  assumes "\<forall>it \<in> set items. good_item it" "concat bufs @ R = concat items" "bufs \<noteq> []"
    and "\<forall>b \<in> set bufs. header_size \<le> length b"
    and "rd_pPartialEvent r = None" "rd_pGluedBuffer r = None"
  shows "\<exists>gone todo pend n. items = gone @ todo \<and> concat bufs = concat gone @ pend \<and> pending pend todo \<and>
     (R = [] \<longrightarrow> todo = [] \<and> pend = []) \<and>
     ring_buffers env bufs r = rbind (dispatch_all env gone (rd_dispatch r)) (\<lambda>d. RingOk (parked n pend d))"
proof -
  obtain b bs where bufs: "bufs = b # bs" using assms(3) by (cases bufs) auto
  have st: "[] @ b @ (concat bs @ R) = concat items" using assms(2) bufs by simp
  have len: "header_size \<le> length b" "\<forall>b \<in> set bs. header_size \<le> length b" using assms(4) bufs by auto
  let ?n = "rd_nPartialEventSize r" and ?d = "rd_dispatch r"
  have r: "r = (parked ?n [] ?d)\<lparr> rd_pTranslator := rd_pTranslator r \<rparr>"
    using assms(5,6) by (cases r) (simp add: parked_def)
  obtain g1 t1 p1 where one: "items = g1 @ t1" "b = concat g1 @ p1" "pending p1 t1"
    "\<And>n d tr. ring_operator env b ((parked n [] d)\<lparr> rd_pTranslator := tr \<rparr>) =
       rbind (dispatch_all env g1 d) (\<lambda>d. RingOk (parked (known_size p1 t1 n) p1 d))"
    using operator_stream [OF assms(1) st pending_Nil len(1), of env] by (auto simp: known_size_def [of "[]"])
  have "b @ (concat bs @ R) = concat g1 @ concat t1" using st one(1) by simp
  then have st1: "p1 @ concat bs @ R = concat t1" unfolding one(2) by simp
  have "\<forall>it \<in> set t1. good_item it" using assms(1) one(1) by auto
  then obtain g2 t2 p2 where two: "t1 = g2 @ t2" "p1 @ concat bs = concat g2 @ p2" "pending p2 t2"
    "\<And>n d. \<exists>n'. ring_buffers env bs (parked (known_size p1 t1 n) p1 d) =
       rbind (dispatch_all env g2 d) (\<lambda>d. RingOk (parked (known_size p2 t2 n') p2 d))"
    using buffers_stream [OF _ st1 one(3) len(2), of env] by blast
  have "\<exists>n. ring_buffers env bufs r = rbind (dispatch_all env (g1 @ g2) ?d) (\<lambda>d. RingOk (parked n p2 d))"
  proof (cases "dispatch_all env g1 ?d")
    case (RingOk d1)
    then show ?thesis
      using two(4) [of ?n d1] bufs by (subst r) (auto simp: one(4) dispatch_all_append)
  qed (use bufs in \<open>(subst r, auto simp: one(4) dispatch_all_append)+\<close>)
  then obtain n where run: "ring_buffers env bufs r = rbind (dispatch_all env (g1 @ g2) ?d) (\<lambda>d. RingOk (parked n p2 d))"
    by blast
  have "concat bufs = concat g1 @ (p1 @ concat bs)" using bufs one(2) by simp
  also have "\<dots> = concat (g1 @ g2) @ p2" unfolding two(2) by simp
  finally have split: "concat bufs = concat (g1 @ g2) @ p2" .
  have all: "items = (g1 @ g2) @ t2" using one(1) two(1) by simp
  have "t2 = [] \<and> p2 = []" if "R = []"
  proof -
    have "concat t2 = p2" using assms(2) that split all by simp
    moreover have "hd t2 \<noteq> []" if "t2 \<noteq> []"
      using that assms(1) all by (cases t2) (auto simp: good_item_def)
    ultimately show ?thesis using two(3) by (cases t2) (auto simp: pending_def)
  qed
  then show ?thesis using all split two(3) run by blast
qed

text \<open>A stream in the other byte order stops SpecTcl at its first buffer.\<close>

lemma swapped_stream_exits:
  assumes "get32 (drop 4 buf) = Some ty" "and ty 0xffff0000 \<noteq> 0" "header_size < length buf"
    and "rd_pPartialEvent r = None" "rd_pGluedBuffer r = None"
  shows "ring_operator env buf r = RingExit"
proof -
  have "get32 buf \<noteq> None" using assms(3) by (intro get32_Some) (simp add: header_size_def)
  moreover have "buf \<noteq> []" using assms(3) by auto
  ultimately show ?thesis
    using assms by (auto simp: ring_operator_def createTranslator_def processBuffer_def fill_partial_def
        process_items.simps [of env SwappingBufferTranslator buf])
qed

text \<open>Two physics events of twelve bytes each, cut after ten.\<close>

definition demo_item :: "u8 list" where
  "demo_item = put32 12 @ put32 PHYSICS_EVENT @ [1, 2, 3, 4]"

definition demo_helper :: format_helper where
  "demo_helper = \<lparr> fh_hasBodyHeader = (\<lambda>_. False), fh_getBodyPointer = (\<lambda>_. 8), fh_getTitle = (\<lambda>_. None),
     fh_getRunNumber = (\<lambda>_ _. None), fh_getStringCount = (\<lambda>_ _. None), fh_getScalerCount = (\<lambda>_ _. None),
     fh_getTriggerCount = (\<lambda>_ _. None) \<rparr>"

definition demo_env :: "unit ring_env" where
  "demo_env = \<lparr> en_mpiRoot = False, en_handler = (\<lambda>_ u. (u, False)) \<rparr>"

definition demo_decoder :: "unit ring_decoder" where
  "demo_decoder = new_ring_decoder demo_helper demo_helper demo_helper ()"

lemma demo_item_facts:
  "demo_item = [12, 0, 0, 0, 30, 0, 0, 0, 1, 2, 3, 4]" "get32 demo_item = Some 12"
  "get32 (drop 4 demo_item) = Some 30" "and (30 :: u32) 0xffff0000 = 0" "length demo_item = 12"
  by code_simp+

lemma demo_item_good: "good_item demo_item"
  using demo_item_facts by (auto simp: good_item_def header_size_def)

lemma demo_dispatch:
  assumes "di_pCurrentHelper d = None" "di_pDefaultHelper d = None" "di_pFallbackHelper d = demo_helper"
  shows "\<exists>d'. dispatchEvent demo_env Native demo_item d = RingOk d' \<and>
     length (di_calls d') = Suc (length (di_calls d)) \<and>
     di_pCurrentHelper d' = None \<and> di_pDefaultHelper d' = None \<and> di_pFallbackHelper d' = demo_helper"
  using assms
  by (simp add: dispatchEvent_def demo_item_facts(2,3,5) item_header_def demo_env_def
      process_item_def getFormatHelper_def demo_helper_def RING_FORMAT_def BEGIN_RUN_def END_RUN_def PAUSE_RUN_def
      RESUME_RUN_def PACKET_TYPES_def MONITORED_VARIABLES_def PERIODIC_SCALERS_def PHYSICS_EVENT_def
      PHYSICS_EVENT_COUNT_def ring_log_def Let_def)

theorem ring_stream_dispatch_witness:
  "\<exists>r'. ring_buffers demo_env [take 10 (demo_item @ demo_item), drop 10 (demo_item @ demo_item)] demo_decoder = RingOk r' \<and>
     length (di_calls (rd_dispatch r')) = 2"
proof -
  let ?s = "demo_item @ demo_item"
  have len: "\<forall>b \<in> set [take 10 ?s, drop 10 ?s]. header_size \<le> length b"
    by (simp add: demo_item_facts(5) header_size_def)
  have idle: "rd_pPartialEvent demo_decoder = None" "rd_pGluedBuffer demo_decoder = None"
    by (simp_all add: demo_decoder_def new_ring_decoder_def)
  have d: "di_pCurrentHelper (rd_dispatch demo_decoder) = None" "di_pDefaultHelper (rd_dispatch demo_decoder) = None"
    "di_pFallbackHelper (rd_dispatch demo_decoder) = demo_helper" "di_calls (rd_dispatch demo_decoder) = []"
    by (simp_all add: demo_decoder_def new_ring_decoder_def)
  have "\<exists>gone todo pend n. [demo_item, demo_item] = gone @ todo \<and>
     concat [take 10 ?s, drop 10 ?s] = concat gone @ pend \<and> pending pend todo \<and>
     (([] :: u8 list) = [] \<longrightarrow> todo = [] \<and> pend = []) \<and>
     ring_buffers demo_env [take 10 ?s, drop 10 ?s] demo_decoder =
       rbind (dispatch_all demo_env gone (rd_dispatch demo_decoder)) (\<lambda>d. RingOk (parked n pend d))"
    by (rule ring_stream_dispatch) (use demo_item_good len idle in \<open>auto simp del: take_append drop_append\<close>)
  then obtain n where run: "ring_buffers demo_env [take 10 ?s, drop 10 ?s] demo_decoder =
       rbind (dispatch_all demo_env [demo_item, demo_item] (rd_dispatch demo_decoder)) (\<lambda>d. RingOk (parked n [] d))"
    by auto
  obtain d1 where d1: "dispatchEvent demo_env Native demo_item (rd_dispatch demo_decoder) = RingOk d1"
    "length (di_calls d1) = 1" "di_pCurrentHelper d1 = None" "di_pDefaultHelper d1 = None" "di_pFallbackHelper d1 = demo_helper"
    using demo_dispatch [OF d(1-3)] d(4) by auto
  obtain d2 where d2: "dispatchEvent demo_env Native demo_item d1 = RingOk d2" "length (di_calls d2) = 2"
    using demo_dispatch [OF d1(3-5)] d1(2) by auto
  show ?thesis using run d1(1) d2 by simp
qed


end
