(* ===== verification/TreeParameter.thy ===== *)
theory TreeParameter
  imports SpecTclApi
begin

text \<open>
  Tree parameters (src/main/Core/CTreeParameter.cpp): named objects through which event
  processors set the event's parameters.  An object is found by its identity in tw_objs; the
  static members of the class, the object registry, the event and the strictness flag, are
  the other components of the state, beside the API's dictionaries.  The pointer a bound
  object keeps into the parameter dictionary is the name of the entry, so bound parameters
  are taken not to be removed and added again.  A value is the rational a double denotes.
\<close>

subsection \<open>Double precision\<close>

definition double_exponent :: "rat \<Rightarrow> int" where
  "double_exponent a = (if 1 \<le> a then lg_up 1024 a else lg_down 1022 a)"

definition f64 :: "rat \<Rightarrow> rat" where
  "f64 x = (let u = pow2 (double_exponent \<bar>x\<bar> - 52) in of_int (round_even (x / u)) * u)"

subsection \<open>Objects and static members\<close>

record tree_param =
  tp_name :: string
  tp_units :: string
  tp_low :: rat
  tp_high :: rat
  tp_channels :: u32
  tp_changed :: bool
  tp_parameter :: "string option"
  tp_initialized :: bool

record tree_world =
  tw_api :: api
  tw_event :: "event option"
  tw_objs :: "(nat \<times> tree_param) list"
  tw_registry :: "(string \<times> nat) list"
  tw_strict :: bool

datatype tree_error =
    Bound | NotBound | DoubleInit | UnitsMismatch | NoValue string | DictionaryError dict_error
  | InvalidIndex | OutOfRange | NoSuchVector string

datatype 'a tree_result = TOk 'a tree_world | TThrows tree_error tree_world | TUndef

type_synonym 'a tree_op = "tree_world \<Rightarrow> 'a tree_result"

fun tbind :: "'a tree_result \<Rightarrow> ('a \<Rightarrow> 'b tree_op) \<Rightarrow> 'b tree_result" where
  "tbind (TOk x w) f = f x w"
| "tbind (TThrows e w) f = TThrows e w"
| "tbind TUndef f = TUndef"

text \<open>Access through a pointer to an object; None is a dead object.\<close>

definition obj_of :: "nat \<Rightarrow> tree_world \<Rightarrow> tree_param option" where
  "obj_of p w = smap_get (tw_objs w) p"

definition put_obj :: "nat \<Rightarrow> tree_param \<Rightarrow> tree_world \<Rightarrow> tree_world" where
  "put_obj p t w = w\<lparr> tw_objs := smap_put p t (tw_objs w) \<rparr>"

definition with_obj :: "nat \<Rightarrow> (tree_param \<Rightarrow> 'a tree_op) \<Rightarrow> 'a tree_op" where
  "with_obj p f w = (case obj_of p w of None \<Rightarrow> TUndef | Some t \<Rightarrow> f t w)"

definition update_obj :: "nat \<Rightarrow> (tree_param \<Rightarrow> tree_param) \<Rightarrow> unit tree_op" where
  "update_obj p f = with_obj p (\<lambda>t w. TOk () (put_obj p (f t) w))"

text \<open>The default constructor, and what the others start from.\<close>

definition raw_param :: tree_param where
  "raw_param = \<lparr> tp_name = [], tp_units = [], tp_low = 1, tp_high = 100, tp_channels = 100,
     tp_changed = False, tp_parameter = None, tp_initialized = False \<rparr>"

subsection \<open>Registration\<close>

definition isRegistered :: "nat \<Rightarrow> tree_world \<Rightarrow> bool" where
  "isRegistered p w \<longleftrightarrow> p \<in> snd ` set (tw_registry w)"

text \<open>multimap::insert puts a new entry after the entries with the same key.\<close>

fun multimap_insert :: "string \<Rightarrow> nat \<Rightarrow> (string \<times> nat) list \<Rightarrow> (string \<times> nat) list" where
  "multimap_insert k v [] = [(k, v)]"
| "multimap_insert k v ((k', v') # m) =
     (if k < k' then (k, v) # (k', v') # m else (k', v') # multimap_insert k v m)"

definition Register :: "nat \<Rightarrow> string \<Rightarrow> tree_world \<Rightarrow> tree_world" where
  "Register p nm w =
     (if isRegistered p w then w else w\<lparr> tw_registry := multimap_insert nm p (tw_registry w) \<rparr>)"

fun erase_registration :: "nat \<Rightarrow> (string \<times> nat) list \<Rightarrow> (string \<times> nat) list" where
  "erase_registration p [] = []"
| "erase_registration p (e # m) = (if snd e = p then m else e # erase_registration p m)"

definition Unregister :: "nat \<Rightarrow> tree_world \<Rightarrow> tree_world" where
  "Unregister p w = w\<lparr> tw_registry := erase_registration p (tw_registry w) \<rparr>"

text \<open>The destructor; the object's identity is not used again.\<close>

definition destroy_param :: "nat \<Rightarrow> tree_world \<Rightarrow> tree_world" where
  "destroy_param p w = (Unregister p w)\<lparr> tw_objs := smap_erase p (tw_objs w) \<rparr>"

subsection \<open>Initialization\<close>

definition throwIfDoubleInit :: "nat \<Rightarrow> string \<Rightarrow> unit tree_op" where
  "throwIfDoubleInit p nm = with_obj p (\<lambda>t w.
     if tp_initialized t \<and> tp_name t \<noteq> nm then TThrows DoubleInit w else TOk () w)"

definition Initialize_name :: "nat \<Rightarrow> string \<Rightarrow> unit tree_op" where
  "Initialize_name p nm w = tbind (throwIfDoubleInit p nm w) (\<lambda>_. with_obj p (\<lambda>t w.
     if tp_parameter t \<noteq> None then TThrows Bound w
     else TOk () (put_obj p (t\<lparr> tp_name := nm, tp_units := ''unknown'', tp_low := 1, tp_high := 100,
            tp_channels := 100, tp_changed := False, tp_initialized := True \<rparr>) (Register p nm w))))"

definition Initialize_units :: "nat \<Rightarrow> string \<Rightarrow> string \<Rightarrow> unit tree_op" where
  "Initialize_units p nm u w = tbind (throwIfDoubleInit p nm w) (\<lambda>_ w.
     tbind (Initialize_name p nm w) (\<lambda>_. update_obj p (\<lambda>t. t\<lparr> tp_units := u, tp_initialized := True \<rparr>)))"

definition Initialize_channels ::
  "nat \<Rightarrow> string \<Rightarrow> u32 \<Rightarrow> rat \<Rightarrow> rat \<Rightarrow> string \<Rightarrow> unit tree_op" where
  "Initialize_channels p nm n lo hi u w = tbind (throwIfDoubleInit p nm w) (\<lambda>_ w.
     tbind (Initialize_units p nm u w) (\<lambda>_. update_obj p (\<lambda>t.
       t\<lparr> tp_low := lo, tp_high := hi, tp_channels := n, tp_initialized := True \<rparr>)))"

text \<open>1 << resolution in int; a shift out of the int is undefined.\<close>

definition Initialize_resolution :: "nat \<Rightarrow> string \<Rightarrow> u32 \<Rightarrow> unit tree_op" where
  "Initialize_resolution p nm res w = tbind (throwIfDoubleInit p nm w) (\<lambda>_ w.
     tbind (Initialize_name p nm w) (\<lambda>_ w.
       if 31 \<le> unat res then TUndef
       else update_obj p (\<lambda>t. t\<lparr> tp_low := 0, tp_channels := push_bit (unat res) 1,
              tp_high := f32 (of_nat (unat (push_bit (unat res) 1 :: u32))),
              tp_changed := False, tp_initialized := True \<rparr>) w))"

definition Initialize_width ::
  "nat \<Rightarrow> string \<Rightarrow> u32 \<Rightarrow> rat \<Rightarrow> rat \<Rightarrow> string \<Rightarrow> bool \<Rightarrow> unit tree_op" where
  "Initialize_width p nm res lo hw u given w = tbind (throwIfDoubleInit p nm w) (\<lambda>_ w.
     if 31 \<le> unat res then TUndef
     else let n = push_bit (unat res) 1 :: u32;
              hi = (if \<not> given then hw else f64 (lo + f64 (of_nat (unat n) * hw)))
          in tbind (Initialize_channels p nm n lo hi u w) (\<lambda>_. update_obj p (\<lambda>t. t\<lparr> tp_initialized := True \<rparr>)))"

text \<open>The constructors: a raw object, then Initialize.\<close>

definition construct :: "nat \<Rightarrow> unit tree_op \<Rightarrow> unit tree_op" where
  "construct p init w = (if obj_of p w \<noteq> None then TUndef else init (put_obj p raw_param w))"

definition new_param :: "nat \<Rightarrow> string \<Rightarrow> rat \<Rightarrow> rat \<Rightarrow> string \<Rightarrow> unit tree_op" where
  "new_param p nm lo hi u = construct p (Initialize_channels p nm 100 lo hi u)"

definition new_param_like :: "nat \<Rightarrow> string \<Rightarrow> tree_param \<Rightarrow> unit tree_op" where
  "new_param_like p nm t =
     construct p (Initialize_channels p nm (tp_channels t) (tp_low t) (tp_high t) (tp_units t))"

subsection \<open>Binding\<close>

definition Bind :: "nat \<Rightarrow> unit tree_op" where
  "Bind p = with_obj p (\<lambda>t w. case api_FindParameter (tp_name t) (tw_api w) of
      None \<Rightarrow>
       (case api_AddParameter (tp_name t) (AssignParameterId (tw_api w)) (tp_units t) (tw_api w) of
          ApiOk a \<Rightarrow> TOk () (put_obj p (t\<lparr> tp_parameter := Some (tp_name t) \<rparr>) (w\<lparr> tw_api := a \<rparr>))
        | ApiThrows e \<Rightarrow> TThrows (DictionaryError e) w
        | ApiUndefined \<Rightarrow> TUndef)
    | Some q \<Rightarrow>
        TOk () (put_obj p (t\<lparr> tp_units := pa_units q, tp_parameter := Some (tp_name t) \<rparr>) w))"

fun for_each_param :: "(nat \<Rightarrow> unit tree_op) \<Rightarrow> nat list \<Rightarrow> unit tree_op" where
  "for_each_param f [] w = TOk () w"
| "for_each_param f (p # ps) w = tbind (f p w) (\<lambda>_. for_each_param f ps)"

definition BindParameters :: "unit tree_op" where
  "BindParameters w = for_each_param Bind (map snd (tw_registry w)) w"

definition setEvent :: "event \<Rightarrow> tree_world \<Rightarrow> tree_world" where
  "setEvent e w = w\<lparr> tw_event := Some e \<rparr>"

definition isBound :: "nat \<Rightarrow> bool tree_op" where
  "isBound p = with_obj p (\<lambda>t w. TOk (tp_parameter t \<noteq> None \<and> tw_event w \<noteq> None) w)"

subsection \<open>Values\<close>

definition getId :: "nat \<Rightarrow> u32 tree_op" where
  "getId p = with_obj p (\<lambda>t w. case tp_parameter t of
      None \<Rightarrow> TThrows NotBound w
    | Some nm \<Rightarrow> (case api_FindParameter nm (tw_api w) of
         None \<Rightarrow> TUndef
       | Some q \<Rightarrow> TOk (pa_number q) w))"

definition tp_getValue :: "nat \<Rightarrow> rat tree_op" where
  "tp_getValue p w = (case tw_event w of
      None \<Rightarrow> TThrows NotBound w
    | Some e \<Rightarrow> tbind (getId p w) (\<lambda>n. with_obj p (\<lambda>t w.
        case ev_get n e of
          None \<Rightarrow> TUndef
        | Some (e', Inl msg) \<Rightarrow> TThrows (NoValue (tp_name t @ '' (tree parameter) : '' @ msg)) (setEvent e' w)
        | Some (e', Inr None) \<Rightarrow> TUndef
        | Some (e', Inr (Some v)) \<Rightarrow> TOk v (setEvent e' w))))"

text \<open>Only the parameter pointer is checked; without an event this is a null dereference.\<close>

definition tp_setValue :: "nat \<Rightarrow> rat \<Rightarrow> unit tree_op" where
  "tp_setValue p v w = tbind (getId p w) (\<lambda>n w. case tw_event w of
      None \<Rightarrow> TUndef
    | Some e \<Rightarrow> (case ev_set n v e of
         None \<Rightarrow> TUndef
       | Some e' \<Rightarrow> TOk () (setEvent e' w)))"

definition tp_isValid :: "nat \<Rightarrow> bool tree_op" where
  "tp_isValid p w = tbind (getId p w) (\<lambda>n w. case tw_event w of
      None \<Rightarrow> TThrows NotBound w
    | Some e \<Rightarrow> (case ev_valid_at n e of
         None \<Rightarrow> TUndef
       | Some (e', b) \<Rightarrow> TOk b (setEvent e' w)))"

text \<open>rEvent[n].clear(): the slot becomes invalid, the dope vector keeps its index.\<close>

definition ev_clear_slot :: "u32 \<Rightarrow> event \<Rightarrow> event option" where
  "ev_clear_slot n e = map_option (\<lambda>(e', i).
     e'\<lparr> ev_params := (ev_params e')[i := slot_clear (ev_serial e') (ev_params e' ! i)] \<rparr>) (ev_at e n)"

definition setInvalid :: "nat \<Rightarrow> unit tree_op" where
  "setInvalid p w = tbind (getId p w) (\<lambda>n w. case tw_event w of
      None \<Rightarrow> TThrows NotBound w
    | Some e \<Rightarrow> (case ev_clear_slot n e of
         None \<Rightarrow> TUndef
       | Some e' \<Rightarrow> TOk () (setEvent e' w)))"

definition ResetAll :: "unit tree_op" where
  "ResetAll w = for_each_param setInvalid (map snd (tw_registry w)) w"

text \<open>The arithmetic operators read, compute in double and set.\<close>

definition modify_value :: "(rat \<Rightarrow> rat) \<Rightarrow> nat \<Rightarrow> rat tree_op" where
  "modify_value f p w = tbind (tp_getValue p w) (\<lambda>v w. tbind (tp_setValue p (f64 (f v)) w) (\<lambda>_. TOk v))"

definition tp_plus :: "nat \<Rightarrow> rat \<Rightarrow> rat tree_op" where
  "tp_plus p r = modify_value (\<lambda>v. v + r) p"

definition tp_minus :: "nat \<Rightarrow> rat \<Rightarrow> rat tree_op" where
  "tp_minus p r = modify_value (\<lambda>v. v - r) p"

definition tp_times :: "nat \<Rightarrow> rat \<Rightarrow> rat tree_op" where
  "tp_times p r = modify_value (\<lambda>v. v * r) p"

text \<open>A division by zero gives an infinity or NaN, which is not represented.\<close>

definition tp_divide :: "nat \<Rightarrow> rat \<Rightarrow> rat tree_op" where
  "tp_divide p r w = (if r = 0 then tbind (tp_getValue p w) (\<lambda>_ _. TUndef) else modify_value (\<lambda>v. v / r) p w)"

definition tp_increment :: "nat \<Rightarrow> rat tree_op" where
  "tp_increment p = modify_value (\<lambda>v. v + 1) p"

definition tp_decrement :: "nat \<Rightarrow> rat tree_op" where
  "tp_decrement p = modify_value (\<lambda>v. v - 1) p"

text \<open>Assignment from another tree parameter, with the optional comparison of units.\<close>

definition tp_assign :: "nat \<Rightarrow> nat \<Rightarrow> unit tree_op" where
  "tp_assign p q w =
     (if p = q then TOk () w
      else case (obj_of p w, obj_of q w) of
             (Some t, Some u) \<Rightarrow>
               (if tw_strict w \<and> tp_units u \<noteq> tp_units t then TThrows UnitsMismatch w
                else tbind (tp_getValue q w) (\<lambda>v. tp_setValue p v))
           | _ \<Rightarrow> TUndef)"

subsection \<open>Definition of the axis\<close>

definition tp_setBins :: "nat \<Rightarrow> u32 \<Rightarrow> unit tree_op" where
  "tp_setBins p n = update_obj p (\<lambda>t. t\<lparr> tp_channels := n, tp_changed := True \<rparr>)"

definition tp_setStart :: "nat \<Rightarrow> rat \<Rightarrow> unit tree_op" where
  "tp_setStart p lo = update_obj p (\<lambda>t. t\<lparr> tp_low := lo, tp_changed := True \<rparr>)"

definition tp_setStop :: "nat \<Rightarrow> rat \<Rightarrow> unit tree_op" where
  "tp_setStop p hi = update_obj p (\<lambda>t. t\<lparr> tp_high := hi, tp_changed := True \<rparr>)"

definition tp_getInc :: "nat \<Rightarrow> rat tree_op" where
  "tp_getInc p = with_obj p (\<lambda>t w. if tp_channels t = 0 then TUndef
     else TOk (f64 (f64 (tp_high t - tp_low t) / of_nat (unat (tp_channels t)))) w)"

definition tp_setInc :: "nat \<Rightarrow> rat \<Rightarrow> unit tree_op" where
  "tp_setInc p width = update_obj p (\<lambda>t.
     t\<lparr> tp_high := f64 (tp_low t + f64 (of_nat (unat (tp_channels t)) * width)), tp_changed := True \<rparr>)"

definition tp_setUnit :: "nat \<Rightarrow> string \<Rightarrow> unit tree_op" where
  "tp_setUnit p u = update_obj p (\<lambda>t. t\<lparr> tp_units := u, tp_changed := True \<rparr>)"

subsection \<open>Bound parameters\<close>

definition bound :: "nat \<Rightarrow> u32 \<Rightarrow> tree_world \<Rightarrow> bool" where
  "bound p n w \<longleftrightarrow> (\<exists>t nm q. obj_of p w = Some t \<and> tp_parameter t = Some nm \<and>
     api_FindParameter nm (tw_api w) = Some q \<and> pa_number q = n)"

lemma setEvent_sel [simp]:
  "tw_event (setEvent e w) = Some e" "tw_api (setEvent e w) = tw_api w" "obj_of p (setEvent e w) = obj_of p w"
  "bound p n (setEvent e w) = bound p n w" "setEvent e' (setEvent e w) = setEvent e' w"
  by (simp_all add: setEvent_def obj_of_def bound_def)

lemma put_obj_sel [simp]:
  "obj_of q (put_obj p t w) = (if q = p then Some t else obj_of q w)" "tw_api (put_obj p t w) = tw_api w"
  "tw_event (put_obj p t w) = tw_event w"
  by (simp_all add: obj_of_def put_obj_def)

lemma getId_bound: "bound p n w \<Longrightarrow> getId p w = TOk n w"
  by (auto simp: bound_def getId_def with_obj_def)

lemma setValue_bound:
  assumes "bound p n w" "tw_event w = Some e" "ev_set n v e = Some e'"
  shows "tp_setValue p v w = TOk () (setEvent e' w)"
  using assms by (simp add: tp_setValue_def getId_bound)

lemma getValue_bound:
  assumes "bound p n w" "tw_event w = Some e" "ev_ok e" "unat n < max_params"
  shows "\<exists>e'. ev_ok e' \<and> ev_abs e' = ev_abs e \<and> ev_order e' = ev_order e \<and>
    tp_getValue p w = (case ev_abs e (unat n) of
      None \<Rightarrow> TThrows (NoValue (tp_name (the (obj_of p w)) @
                '' (tree parameter) : Attempted getValue of unset ValidValue object'')) (setEvent e' w)
    | Some v \<Rightarrow> TOk v (setEvent e' w))"
proof -
  obtain t where t: "obj_of p w = Some t" using assms(1) unfolding bound_def by blast
  obtain e' where e': "ev_ok e'" "ev_abs e' = ev_abs e" "ev_order e' = ev_order e"
    "ev_get n e = Some (e', case ev_abs e (unat n) of
         None \<Rightarrow> Inl ''Attempted getValue of unset ValidValue object'' | Some v \<Rightarrow> Inr (Some v))"
    using ev_get_spec [OF assms(3,4)] by metis
  have "tp_getValue p w = (case ev_abs e (unat n) of
      None \<Rightarrow> TThrows (NoValue (tp_name t @ '' (tree parameter) : '' @
                ''Attempted getValue of unset ValidValue object'')) (setEvent e' w)
    | Some v \<Rightarrow> TOk v (setEvent e' w))"
    using assms(2) t e'(4) by (auto simp: tp_getValue_def getId_bound [OF assms(1)] with_obj_def split: option.splits)
  then show ?thesis using e'(1-3) t by (intro exI [of _ e'] conjI) (simp_all split: option.split)
qed

lemma setInvalid_bound:
  assumes "bound p n w" "tw_event w = Some e" "ev_clear_slot n e = Some e'"
  shows "setInvalid p w = TOk () (setEvent e' w)"
  using assms by (simp add: setInvalid_def getId_bound)

subsection \<open>Setting a parameter again after making it invalid\<close>

lemma ev_at_within: "ev_ok e \<Longrightarrow> unat n < length (ev_params e) \<Longrightarrow> ev_at e n = Some (e, unat n)"
  using ev_size_less_iff [of e n] by (simp add: ev_at_def not_less [symmetric])

lemma reset_and_set:
  assumes ok: "ev_ok e" and n: "unat n < length (ev_params e)" "ev_abs e (unat n) \<noteq> None"
  obtains f g where "ev_clear_slot n e = Some f" "ev_set n v f = Some g"
    "dv_ok (ev_dope g)" "dv_list (ev_dope g) = dv_list (ev_dope e) @ [n]"
    "ev_abs g = (ev_abs e)(unat n \<mapsto> v)" "ev_at g n = Some (g, unat n)"
    "isValid (ev_serial g) (ev_params g ! unat n)" "sl_value (ev_params g ! unat n) = Some v"
proof -
  let ?s = "slot_clear (ev_serial e) (ev_params e ! unat n)"
  let ?f = "e\<lparr> ev_params := (ev_params e)[unat n := ?s] \<rparr>"
  let ?t = "?s\<lparr> sl_value := Some v, sl_last := ev_serial e \<rparr>"
  let ?g = "e\<lparr> ev_params := (ev_params e)[unat n := ?t], ev_dope := dv_append n (ev_dope e) \<rparr>"
  have sz: "n < ev_size e" using ev_size_less_iff [OF ok] n(1) by simp
  have ix: "sl_index (ev_params e ! unat n) = n" using ok n(1) by (simp add: ev_ok_def slots_ok_def)
  have f: "ev_clear_slot n e = Some ?f" using ev_at_within [OF ok n(1)] by (simp add: ev_clear_slot_def)
  have "\<not> isValid (ev_serial e) ?s" by (simp add: isValid_def slot_clear_def)
  then have g: "ev_set n v ?f = Some ?g"
    using sz n(1) ix by (simp add: ev_set_def ev_at_def not_le [symmetric] slot_assign_def Let_def) (simp add: slot_clear_def)
  have len: "length (dv_list (ev_dope e)) < 2 ^ 32 - 1"
    using dope_ok_length [OF ok] ok by (simp add: ev_ok_def slots_ok_def max_params_def)
  have "dv_ok (ev_dope e)" using ok by (simp add: ev_ok_def dope_ok_def)
  note app = dv_append_ok [OF this len, of n]
  have "ev_abs ?g = (ev_abs e)(unat n \<mapsto> v)"
    using n(1) by (auto simp: ev_abs_def fun_eq_iff nth_list_update isValid_def)
  moreover have "ev_at ?g n = Some (?g, unat n)" using sz n(1) by (simp add: ev_at_def not_le [symmetric])
  ultimately show thesis
    using that [OF f g] app n(1) by (simp add: isValid_def)
qed

lemma read_param_here:
  "ev_at e n = Some (e, i) \<Longrightarrow> isValid (ev_serial e) (ev_params e ! i) \<Longrightarrow>
   sl_value (ev_params e ! i) = Some v \<Longrightarrow> read_param n e = Some (e, Some v)"
  by (simp add: read_param_def ev_valid_at_def ev_get_def getValue_def)

lemma distinct_set_single: "distinct xs \<Longrightarrow> set xs = {x} \<Longrightarrow> xs = [x]"
  by (cases xs rule: remdups_adj.cases) auto

text \<open>The dope loop over a vector that lists one parameter twice.\<close>

lemma dope_twice:
  assumes d: "dv_ok (ev_dope e)" "dv_list (ev_dope e) = [n, n]"
    and l: "sl_ok l" "sl_items l (unat n) = [nm]"
    and r: "read_param n e = Some (e, Some v)"
    and s: "sp_kind s = CSpectrum1D n" "sp_gate s = DefaultGate"
  shows "dope_loop k l 0 2 ([(nm, s)], (st, e)) = Some ([(nm, s\<lparr> sp_fills := sp_fills s @ [[v], [v]] \<rparr>)], (st, e))"
proof -
  have sz: "unat (dv_size (ev_dope e)) = 2"
    using d dv_size_length [OF d(1)] by simp
  have "take 2 (dv_indices (ev_dope e)) = [n, n]" using d(2) sz by (simp add: dv_list_def)
  then have "dv_indices (ev_dope e) = n # n # drop 2 (dv_indices (ev_dope e))"
    by (metis append_Cons append_Nil append_take_drop_id)
  then have "dv_indices (ev_dope e) ! 0 = n" "dv_indices (ev_dope e) ! 1 = n"
    by (metis nth_Cons_0, metis One_nat_def nth_Cons_0 nth_Cons_Suc)
  then have at: "dv_at (ev_dope e) 0 = Inr n" "dv_at (ev_dope e) 1 = Inr n"
    using sz by (auto simp: dv_at_def word_le_nat_alt)
  have op: "spectrum_op k nm ([(nm, t)], (st, e)) = Some ([(nm, t\<lparr> sp_fills := sp_fills t @ [[v]] \<rparr>)], (st, e))"
    if "sp_kind t = CSpectrum1D n" "sp_gate t = DefaultGate" for t
    using that r by (simp add: spectrum_op_def CheckGate_def Increment_def inc_1d_def add_fills_def)
  have "incrementList (spectrum_op k) (getSpectrumList (unat n) l) hs = run (spectrum_op k) [nm] hs" for hs
    using by_parameter_run [OF l(1)] l(2) by metis
  then show ?thesis
    using at s by (simp add: numeral_2_eq_2 op)
qed

subsection \<open>Binding\<close>

lemma Bind_result:
  assumes ok: "hist_ok (api_hist (tw_api w))" "length (d_map (h_params (api_hist (tw_api w)))) < 2 ^ 32"
    and t: "obj_of p w = Some t"
  shows "\<exists>w' q. Bind p w = TOk () w' \<and> hist_ok (api_hist (tw_api w')) \<and> bound p (pa_number q) w' \<and>
    api_FindParameter (tp_name t) (tw_api w') = Some q \<and>
    (case api_FindParameter (tp_name t) (tw_api w) of
       Some q' \<Rightarrow> q = q' | None \<Rightarrow> pa_number q = AssignParameterId (tw_api w)) \<and>
    (\<forall>k. k \<noteq> tp_name t \<longrightarrow> api_FindParameter k (tw_api w') = api_FindParameter k (tw_api w)) \<and>
    map_option tp_units (obj_of p w') = Some (pa_units q) \<and> tw_event w' = tw_event w"
proof (cases "api_FindParameter (tp_name t) (tw_api w)")
  case None
  let ?q = "\<lparr> pa_name = tp_name t, pa_number = AssignParameterId (tw_api w), pa_scale = 0, pa_low = 0, pa_high = 0,
       pa_units = tp_units t, pa_scaled = False \<rparr>"
  have "api_FindParameterById (AssignParameterId (tw_api w)) (tw_api w) = None"
    using AssignParameterId_mex(1) [OF ok] api_FindParameterById_iff [OF ok(1)] by blast
  then obtain h where h: "api_enter_parameter (tp_name t) ?q (tw_api w) = ApiOk ((tw_api w)\<lparr> api_hist := h \<rparr>)" "hist_ok h"
    "\<And>k. FindParameter k h = (if k = tp_name t then Some ?q else FindParameter k (api_hist (tw_api w)))"
    using api_enter_parameter_fresh [OF ok(1) _ None, of ?q] by auto
  let ?w = "put_obj p (t\<lparr> tp_parameter := Some (tp_name t) \<rparr>) (w\<lparr> tw_api := (tw_api w)\<lparr> api_hist := h \<rparr> \<rparr>)"
  have "Bind p w = TOk () ?w"
    using t None h(1) by (simp add: Bind_def with_obj_def api_AddParameter_def)
  then show ?thesis
    using h None
    by (intro exI [of _ ?w] exI [of _ ?q]) (simp add: bound_def api_FindParameter_def FindParameter_def)
next
  case (Some q)
  let ?w = "put_obj p (t\<lparr> tp_units := pa_units q, tp_parameter := Some (tp_name t) \<rparr>) w"
  have "Bind p w = TOk () ?w" using t Some by (simp add: Bind_def with_obj_def)
  then show ?thesis using ok Some by (intro exI [of _ ?w] exI [of _ q]) (simp add: bound_def)
qed

subsection \<open>Properties\<close>

text \<open>Binding takes the parameter of the name, or makes one with a free number; other parameters are untouched.\<close>

lemma tree_bind:
  assumes "hist_ok (api_hist (tw_api w))" "length (d_map (h_params (api_hist (tw_api w)))) < 2 ^ 32"
    "obj_of p w = Some t"
  shows "\<exists>w' q. Bind p w = TOk () w' \<and> hist_ok (api_hist (tw_api w')) \<and> getId p w' = TOk (pa_number q) w' \<and>
    api_FindParameter (tp_name t) (tw_api w') = Some q \<and>
    (case api_FindParameter (tp_name t) (tw_api w) of
       Some q' \<Rightarrow> q = q' | None \<Rightarrow> pa_number q = AssignParameterId (tw_api w)) \<and>
    (\<forall>k. k \<noteq> tp_name t \<longrightarrow> api_FindParameter k (tw_api w') = api_FindParameter k (tw_api w)) \<and>
    map_option tp_units (obj_of p w') = Some (pa_units q) \<and> tw_event w' = tw_event w"
  using Bind_result [OF assms] by (elim exE conjE) (intro exI conjI; (assumption | erule getId_bound))

text \<open>A world with one object, not yet bound.\<close>

definition demo_world :: tree_world where
  "demo_world = \<lparr> tw_api = new_api, tw_event = Some new_event,
     tw_objs = [(0, raw_param\<lparr> tp_name := ''a'' \<rparr>)], tw_registry = [(''a'', 0)], tw_strict = False \<rparr>"

lemma demo_world_facts:
  "hist_ok (api_hist (tw_api demo_world))" "length (d_map (h_params (api_hist (tw_api demo_world)))) < 2 ^ 32"
  "obj_of 0 demo_world = Some (raw_param\<lparr> tp_name := ''a'' \<rparr>)" "tw_event demo_world = Some new_event"
  "AssignParameterId (tw_api demo_world) = 0" "api_FindParameter k (tw_api demo_world) = None"
  using new_api_facts
  by (simp_all add: demo_world_def obj_of_def AssignParameterId_def api_FindParameter_def Lookup_def)


lemma demo_bound: obtains w where "bound 0 0 w" "tw_event w = Some new_event"
  using Bind_result [OF demo_world_facts(1-3)] that by (auto simp: demo_world_facts)

text \<open>
  C15. A tree parameter is a view of the event: after setting one, every tree parameter
  bound to the same number reads that value, every other one reads or fails to read as
  before, and the event holds the value where gates and spectra look for it.
\<close>

theorem tree_set_get:
  assumes "bound p n w" "unat n < max_params" "tw_event w = Some e" "ev_ok e"
    "bound q m w" "unat m < max_params"
  shows "\<exists>w' e'. tp_setValue p v w = TOk () w' \<and> tw_event w' = Some e' \<and> ev_ok e' \<and>
    ev_abs e' = (ev_abs e)(unat n \<mapsto> v) \<and>
    (case (if m = n then Some v else ev_abs e (unat m)) of
       Some x \<Rightarrow> \<exists>w2. tp_getValue q w' = TOk x w2
     | None \<Rightarrow> \<exists>msg w2. tp_getValue q w' = TThrows (NoValue msg) w2)"
proof -
  obtain e' where e': "ev_set n v e = Some e'" "ev_ok e'" "ev_abs e' = (ev_abs e)(unat n \<mapsto> v)"
    using ev_set_spec [OF assms(4,2)] by metis
  let ?w = "setEvent e' w"
  have "bound q m ?w" "tw_event ?w = Some e'" using assms(5) by simp_all
  from getValue_bound [OF this e'(2) assms(6)] obtain e2 where
    "tp_getValue q ?w = (case ev_abs e' (unat m) of
      None \<Rightarrow> TThrows (NoValue (tp_name (the (obj_of q ?w)) @
                '' (tree parameter) : Attempted getValue of unset ValidValue object'')) (setEvent e2 ?w)
    | Some v \<Rightarrow> TOk v (setEvent e2 ?w))" by blast
  moreover have "ev_abs e' (unat m) = (if m = n then Some v else ev_abs e (unat m))"
    by (simp add: e'(3) word_unat_eq_iff)
  ultimately show ?thesis
    using setValue_bound [OF assms(1,3) e'(1)] e'(2,3)
    by (intro exI [of _ ?w] exI [of _ e']) (auto split: option.splits if_splits)
qed

theorem tree_set_get_witness: "\<exists>w w' w2. tp_setValue 0 5 w = TOk () w' \<and> tp_getValue 0 w' = TOk 5 w2"
proof -
  obtain w where w: "bound 0 0 w" "tw_event w = Some new_event" by (rule demo_bound)
  from tree_set_get [OF w(1) _ w(2) ev_ok_new w(1), of 5] show ?thesis by (auto simp: max_params_def)
qed

text \<open>Setting, invalidating and setting again lists a parameter twice in the dope vector.\<close>

lemma tree_reset_counts_twice:
  assumes "bound p n w" "unat n < max_params" "tw_event w = Some new_event"
    "sp_kind s = CSpectrum1D n" "sp_gate s = DefaultGate" "sl_inv l [(nm, s)]"
  shows "\<exists>w1 w2 w3 e. tp_setValue p u w = TOk () w1 \<and> setInvalid p w1 = TOk () w2 \<and>
    tp_setValue p v w2 = TOk () w3 \<and> tw_event w3 = Some e \<and> ev_abs e = [unat n \<mapsto> v] \<and>
    lists_op k l ([(nm, s)], ([], e)) = Some ([(nm, s\<lparr> sp_fills := sp_fills s @ [[v], [v]] \<rparr>)], ([], e))"
proof -
  obtain e1 where e1: "ev_set n u new_event = Some e1" "ev_ok e1" "ev_abs e1 = (ev_abs new_event)(unat n \<mapsto> u)"
    "ev_order e1 = (if unat n \<in> set (ev_order new_event) then ev_order new_event else ev_order new_event @ [unat n])"
    using ev_set_spec [OF ev_ok_new assms(2)] by metis
  have new: "ev_abs new_event = Map.empty" "ev_order new_event = []"
    by (simp_all add: new_event_def ev_abs_def ev_order_def dv_list_def dv_new_def fun_eq_iff)
  have "map unat (dv_list (ev_dope e1)) = [unat n]" using e1(4) new by (simp add: ev_order_def)
  then have l1: "dv_list (ev_dope e1) = [n]" by (cases "dv_list (ev_dope e1)") (auto simp: word_unat_eq_iff)
  have a1: "ev_abs e1 (unat n) = Some u" by (simp add: e1(3))
  then have n1: "unat n < length (ev_params e1)" by (simp add: ev_abs_def split: if_splits)
  obtain f g where fg: "ev_clear_slot n e1 = Some f" "ev_set n v f = Some g" "dv_ok (ev_dope g)"
    "dv_list (ev_dope g) = dv_list (ev_dope e1) @ [n]" "ev_abs g = (ev_abs e1)(unat n \<mapsto> v)"
    "ev_at g n = Some (g, unat n)" "isValid (ev_serial g) (ev_params g ! unat n)"
    "sl_value (ev_params g ! unat n) = Some v"
    using reset_and_set [OF e1(2) n1, of v] a1 by blast
  let ?w1 = "setEvent e1 w" and ?w2 = "setEvent f w" and ?w3 = "setEvent g w"
  have ops: "tp_setValue p u w = TOk () ?w1" "setInvalid p ?w1 = TOk () ?w2" "tp_setValue p v ?w2 = TOk () ?w3"
    using setValue_bound [OF assms(1,3) e1(1)] setInvalid_bound [of p n ?w1 e1 f] setValue_bound [of p n ?w2 f v g]
      assms(1) fg by simp_all
  have ids: "needParameter (sp_kind s)" "GetParameterIds (sp_kind s) = [n]" "n \<noteq> - 1"
    using assms(2,4) unat_minus_one_u32 by (auto simp: needParameter_def GetParameterIds_def max_params_def)
  have "x \<notin> set (dl_items (sl_remaining l))" for x
    using assms(6) ids by (cases "x = nm") (auto simp: sl_inv_def)
  moreover have "set (sl_items l (unat n)) = {nm}" "distinct (sl_items l (unat n))" "sl_ok l"
    using assms(6) ids by (auto simp: sl_inv_def split: if_splits)
  ultimately have items: "sl_items l (unat n) = [nm]" "dl_items (sl_remaining l) = []" "sl_ok l"
    using distinct_set_single [of "sl_items l (unat n)" nm] last_in_set [of "dl_items (sl_remaining l)"] by blast+
  have sz: "unat (dv_size (ev_dope g)) = 2" using dv_size_length [OF fg(3)] fg(4) l1 by simp
  have "incrementList (spectrum_op k) (dl_getList (sl_remaining l)) hs = Some hs" for hs
    using incrementList_run [of "sl_remaining l"] items(2,3) by (simp add: sl_ok_def)
  then have "lists_op k l ([(nm, s)], ([], g)) = Some ([(nm, s\<lparr> sp_fills := sp_fills s @ [[v], [v]] \<rparr>)], ([], g))"
    using dope_twice [OF fg(3) _ items(3,1) read_param_here [OF fg(6-8)] assms(4,5)] fg(4) l1 sz
    by (simp add: lists_op_def)
  then show ?thesis using ops fg(5) e1(3) new by auto
qed


end
