(* ===== verification/FribFilter.thy ===== *)
theory FribFilter
  imports Bytes TreeParameter
begin

text \<open>
  The FRIB filter format: CFRIBFilterFormat (src/main/Core/FRIBFilterFormatter.cpp) writes
  parameter definitions, variable values and events as ring items, and ParameterDecoder
  (ParameterDecoding.cpp) reads them back into tree parameters and events.  The layouts are
  the packed structs of AnalysisRingItems.h.  The ring item factory of the unified format
  library is an argument, and so is the bit pattern of a double; what a pattern denotes is
  defined here.
\<close>

subsection \<open>Doubles\<close>

text \<open>The finite double of a bit pattern.\<close>

definition f64_value :: "u64 \<Rightarrow> rat" where
  "f64_value w =
     (let ex = unat (take_bit 11 (drop_bit 52 w)); fr = unat (take_bit 52 w);
          m = (if ex = 0 then fr else 2 ^ 52 + fr)
      in (if bit w 63 then - 1 else 1) * of_nat m * pow2 (int (max ex 1) - 1075))"

subsection \<open>Item types\<close>

definition PARAMETER_DEFINITIONS :: u32 where "PARAMETER_DEFINITIONS = 32768"
definition VARIABLE_VALUES :: u32 where "VARIABLE_VALUES = 32769"
definition PARAMETER_DATA :: u32 where "PARAMETER_DATA = 32770"
definition MAX_UNITS_LENGTH :: nat where "MAX_UNITS_LENGTH = 32"

subsection \<open>The formatter\<close>

text \<open>
  The item maker turns a type and a body into the bytes of a ring item without a body
  header; the doubles' patterns come from bits_of.
\<close>

record frib_env =
  fe_item :: "u32 \<Rightarrow> u8 list \<Rightarrow> u8 list"
  fe_bits :: "ptype \<Rightarrow> u64"

record frib_format =
  ff_trigger :: u64
  ff_ids :: "u32 list"
  ff_file :: "u8 list"

definition frib_open :: "frib_format \<Rightarrow> frib_format" where
  "frib_open f = f\<lparr> ff_trigger := 0, ff_ids := [], ff_file := [] \<rparr>"

definition write_item :: "u8 list \<Rightarrow> frib_format \<Rightarrow> frib_format" where
  "write_item it f = f\<lparr> ff_file := ff_file f @ it \<rparr>"

text \<open>ids[i] for i below the number of names; None is an id that is missing.\<close>

fun definition_bytes :: "string list \<Rightarrow> u32 list \<Rightarrow> u8 list option" where
  "definition_bytes [] ids = Some []"
| "definition_bytes (nm # nms) [] = None"
| "definition_bytes (nm # nms) (i # ids) =
     map_option (\<lambda>r. put32 i @ put_cstring nm @ r) (definition_bytes nms ids)"

definition writeParameterDescriptions ::
  "frib_env \<Rightarrow> string list \<Rightarrow> u32 list \<Rightarrow> frib_format \<Rightarrow> frib_format option" where
  "writeParameterDescriptions env names ids f = (case definition_bytes names ids of
      None \<Rightarrow> None
    | Some b \<Rightarrow> Some (write_item (fe_item env PARAMETER_DEFINITIONS (put32 (of_nat (length names)) @ b)) f))"

text \<open>strncpy of the units pads with zeros, and leaves no terminator when they are too long.\<close>

definition strncpy_units :: "string \<Rightarrow> u8 list" where
  "strncpy_units u =
     (let b = map (\<lambda>c. of_nat (of_char c)) (take MAX_UNITS_LENGTH u)
      in b @ replicate (MAX_UNITS_LENGTH - length b) 0)"

type_synonym tree_variable = "string \<times> ptype \<times> string"

definition variable_bytes :: "frib_env \<Rightarrow> tree_variable \<Rightarrow> u8 list" where
  "variable_bytes env v = (case v of (nm, x, units) \<Rightarrow>
     put64 (fe_bits env x) @ strncpy_units units @ put_cstring nm)"

definition writeVariableDefs :: "frib_env \<Rightarrow> tree_variable list \<Rightarrow> frib_format \<Rightarrow> frib_format" where
  "writeVariableDefs env vars f =
     write_item (fe_item env VARIABLE_VALUES
       (put32 (of_nat (length vars)) @ concat (map (variable_bytes env) vars))) f"

definition DescribeEvent ::
  "frib_env \<Rightarrow> tree_variable list \<Rightarrow> string list \<Rightarrow> u32 list \<Rightarrow> frib_format \<Rightarrow> frib_format option" where
  "DescribeEvent env vars names ids f =
     map_option (\<lambda>f'. (writeVariableDefs env vars f')\<lparr> ff_ids := ids \<rparr>)
       (writeParameterDescriptions env names ids f)"

text \<open>The parameters of the event that are valid; looking may lengthen the event.\<close>

fun collect_present :: "u32 list \<Rightarrow> event \<Rightarrow> (event \<times> u32 list) option" where
  "collect_present [] e = Some (e, [])"
| "collect_present (p # ps) e = (case ev_valid_at p e of
      None \<Rightarrow> None
    | Some (e', b) \<Rightarrow> (case collect_present ps e' of
         None \<Rightarrow> None
       | Some (e'', present) \<Rightarrow> Some (e'', if b then p # present else present)))"

text \<open>The value read is that of a double; an uninitialised or invalid one does not occur here.\<close>

fun value_bytes :: "frib_env \<Rightarrow> u32 list \<Rightarrow> event \<Rightarrow> (event \<times> u8 list) option" where
  "value_bytes env [] e = Some (e, [])"
| "value_bytes env (p # ps) e = (case ev_get p e of
      Some (e', Inr (Some v)) \<Rightarrow> (case value_bytes env ps e' of
         None \<Rightarrow> None
       | Some (e'', b) \<Rightarrow> Some (e'', put32 p @ put64 (fe_bits env v) @ b))
    | _ \<Rightarrow> None)"

definition frib_event :: "frib_env \<Rightarrow> event \<Rightarrow> frib_format \<Rightarrow> (frib_format \<times> event) option" where
  "frib_event env e f = (case collect_present (ff_ids f) e of
      None \<Rightarrow> None
    | Some (e', present) \<Rightarrow> (case value_bytes env present e' of
         None \<Rightarrow> None
       | Some (e'', b) \<Rightarrow>
           Some (write_item (fe_item env PARAMETER_DATA
                   (put64 (ff_trigger f) @ put32 (of_nat (length present)) @ b))
                 (f\<lparr> ff_trigger := ff_trigger f + 1 \<rparr>), e'')))"

subsection \<open>The decoder\<close>

text \<open>
  The parameter map holds pointers to tree parameters; pd_next is the identity of the next
  one made.  The event list has one event, which the tree parameters refer to while an item
  is processed; pd_out are the contents HistogramEvents is given.
\<close>

record 'v param_decoder =
  pd_map :: "nat option list"
  pd_vars :: "(string \<times> (string \<times> ptype)) list"
  pd_event :: event
  pd_next :: nat
  pd_world :: tree_world
  pd_out :: "event list"
  pd_observer :: "(u8 list \<Rightarrow> 'v \<Rightarrow> 'v \<times> bool) option"
  pd_view :: 'v

definition new_param_decoder :: "nat \<Rightarrow> tree_world \<Rightarrow> 'v \<Rightarrow> 'v param_decoder" where
  "new_param_decoder k w v = \<lparr> pd_map = [], pd_vars = [], pd_event = new_event, pd_next = k,
     pd_world = w, pd_out = [], pd_observer = None, pd_view = v \<rparr>"

definition setObserver ::
  "(u8 list \<Rightarrow> 'v \<Rightarrow> 'v \<times> bool) option \<Rightarrow> 'v param_decoder \<Rightarrow> 'v param_decoder \<times> (u8 list \<Rightarrow> 'v \<Rightarrow> 'v \<times> bool) option" where
  "setObserver ob d = (d\<lparr> pd_observer := ob \<rparr>, pd_observer d)"

definition getVariableDefinition :: "string \<Rightarrow> 'v param_decoder \<Rightarrow> (string \<times> ptype) option" where
  "getVariableDefinition nm d = smap_get (pd_vars d) nm"

text \<open>None is a read past the item, an undefined use of a tree parameter, or an exception it throws.\<close>

fun tree_run :: "unit tree_result \<Rightarrow> tree_world option" where
  "tree_run (TOk x w) = Some w"
| "tree_run (TThrows e w) = None"
| "tree_run TUndef = None"

text \<open>
  createParameter: the parameter command's errors are dropped; then a new tree parameter of
  the name, with the identity p.
\<close>

definition createParameter :: "string \<Rightarrow> nat \<Rightarrow> tree_world \<Rightarrow> tree_world option" where
  "createParameter nm p w =
     (let w1 = (if api_FindParameter nm (tw_api w) = None
                then (case api_AddParameter nm (AssignParameterId (tw_api w)) [] (tw_api w) of
                        ApiOk a \<Rightarrow> w\<lparr> tw_api := a \<rparr> | _ \<Rightarrow> w)
                else w)
      in tree_run (construct p (Initialize_name p nm) w1))"

definition resize_map :: "nat \<Rightarrow> nat option list \<Rightarrow> nat option list" where
  "resize_map n m = take n m @ replicate (n - length m) None"

text \<open>
  One definition: the new parameter replaces, and deletes, the one its id had.  id + 1 is
  computed in 32 bits, so that the largest id shrinks the map to nothing and is then an
  index past its end.
\<close>

definition define_parameter :: "u32 \<Rightarrow> string \<Rightarrow> 'v param_decoder \<Rightarrow> 'v param_decoder option" where
  "define_parameter i nm d = (case createParameter nm (pd_next d) (pd_world d) of
      None \<Rightarrow> None
    | Some w \<Rightarrow>
       (let m = (if length (pd_map d) \<le> unat i then resize_map (unat (i + 1)) (pd_map d) else pd_map d)
        in if length m \<le> unat i then None
           else let w' = (case m ! unat i of None \<Rightarrow> w | Some old \<Rightarrow> destroy_param old w)
                in Some (d\<lparr> pd_map := m[unat i := Some (pd_next d)], pd_next := Suc (pd_next d), pd_world := w' \<rparr>)))"

fun define_all :: "nat \<Rightarrow> u8 list \<Rightarrow> 'v param_decoder \<Rightarrow> 'v param_decoder option" where
  "define_all 0 bs d = Some d"
| "define_all (Suc n) bs d = (case (get32 bs, get_cstring (drop 4 bs)) of
      (Some i, Some (nm, rest)) \<Rightarrow>
        (case define_parameter i nm d of None \<Rightarrow> None | Some d' \<Rightarrow> define_all n rest d')
    | _ \<Rightarrow> None)"

definition item_body :: "u8 list \<Rightarrow> u8 list" where
  "item_body it = drop 12 it"

definition processParameterDefs :: "u8 list \<Rightarrow> 'v param_decoder \<Rightarrow> 'v param_decoder option" where
  "processParameterDefs it d = (case get32 (item_body it) of
      None \<Rightarrow> None
    | Some n \<Rightarrow> (case define_all (unat n) (drop 4 (item_body it)) d of
         None \<Rightarrow> None
       | Some d' \<Rightarrow> map_option (\<lambda>w. d'\<lparr> pd_world := w \<rparr>) (tree_run (BindParameters (pd_world d')))))"

fun set_all :: "nat \<Rightarrow> u8 list \<Rightarrow> nat option list \<Rightarrow> tree_world \<Rightarrow> tree_world option" where
  "set_all 0 bs m w = Some w"
| "set_all (Suc n) bs m w = (case (get32 bs, get64 (drop 4 bs)) of
      (Some i, Some x) \<Rightarrow>
        (case (if unat i < length m then m ! unat i else None) of
           None \<Rightarrow> set_all n (drop 12 bs) m w
         | Some p \<Rightarrow> (case tree_run (tp_setValue p (f64_value x) w) of
              None \<Rightarrow> None | Some w' \<Rightarrow> set_all n (drop 12 bs) m w'))
    | _ \<Rightarrow> None)"

definition processParameterItem :: "u8 list \<Rightarrow> 'v param_decoder \<Rightarrow> 'v param_decoder option" where
  "processParameterItem it d = (case get32 (drop 8 (item_body it)) of
      None \<Rightarrow> None
    | Some n \<Rightarrow> (case set_all (unat n) (drop 12 (item_body it)) (pd_map d) (setEvent (pd_event d) (pd_world d)) of
         None \<Rightarrow> None
       | Some w \<Rightarrow> (case tw_event w of
            None \<Rightarrow> None
          | Some e \<Rightarrow> Some (d\<lparr> pd_world := setEvent (ev_clear e) w, pd_event := ev_clear e,
                pd_out := pd_out d @ [e] \<rparr>))))"

fun define_variables :: "nat \<Rightarrow> u8 list \<Rightarrow> (string \<times> (string \<times> ptype)) list \<Rightarrow>
    (string \<times> (string \<times> ptype)) list option" where
  "define_variables 0 bs vs = Some vs"
| "define_variables (Suc n) bs vs =
     (case (get64 bs, get_cstring (drop 8 bs), get_cstring (drop (8 + MAX_UNITS_LENGTH) bs)) of
        (Some x, Some (units, _), Some (nm, rest)) \<Rightarrow>
          define_variables n rest (smap_put nm (units, f64_value x) vs)
      | _ \<Rightarrow> None)"

definition processVariableDefs :: "u8 list \<Rightarrow> 'v param_decoder \<Rightarrow> 'v param_decoder option" where
  "processVariableDefs it d = (case get32 (item_body it) of
      None \<Rightarrow> None
    | Some n \<Rightarrow> map_option (\<lambda>vs. d\<lparr> pd_vars := vs \<rparr>)
        (define_variables (unat n) (drop 4 (item_body it)) (pd_vars d)))"

definition pd_operator :: "u8 list \<Rightarrow> 'v param_decoder \<Rightarrow> ('v param_decoder \<times> bool) option" where
  "pd_operator it d = (case get32 (drop 4 it) of
      None \<Rightarrow> None
    | Some ty \<Rightarrow>
        if ty = PARAMETER_DEFINITIONS then map_option (\<lambda>d. (d, True)) (processParameterDefs it d)
        else if ty = VARIABLE_VALUES then map_option (\<lambda>d. (d, True)) (processVariableDefs it d)
        else if ty = PARAMETER_DATA then map_option (\<lambda>d. (d, True)) (processParameterItem it d)
        else (case pd_observer d of
                Some ob \<Rightarrow> (let (v, b) = ob it (pd_view d) in Some (d\<lparr> pd_view := v \<rparr>, b))
              | None \<Rightarrow> Some (d, False)))"


end
