(* ===== verification/FribRoundtrip.thy ===== *)
theory FribRoundtrip
  imports FribFilter
begin

text \<open>
  The FRIB filter format read back: what CFRIBFilterFormat writes for an event is what
  ParameterDecoder gives to HistogramEvents, and parameter definitions and variable values
  survive the file as far as their layout allows.
\<close>

subsection \<open>Items\<close>

text \<open>What the item factory is relied on for: the header the decoder looks at.\<close>

definition item_layout :: "frib_env \<Rightarrow> u32 \<Rightarrow> u8 list \<Rightarrow> bool" where
  "item_layout env ty body \<longleftrightarrow> (\<exists>n u. fe_item env ty body = put32 n @ put32 ty @ put32 u @ body)"

lemma item_layoutE:
  assumes "item_layout env ty body"
  shows "get32 (drop 4 (fe_item env ty body)) = Some ty" "item_body (fe_item env ty body) = body"
proof -
  obtain n u where "fe_item env ty body = put32 n @ put32 ty @ put32 u @ body"
    using assms unfolding item_layout_def by blast
  then show "get32 (drop 4 (fe_item env ty body)) = Some ty" "item_body (fe_item env ty body) = body"
    by (simp_all add: item_body_def)
qed

lemma item_types_distinct [simp]:
  "VARIABLE_VALUES \<noteq> PARAMETER_DEFINITIONS" "PARAMETER_DATA \<noteq> PARAMETER_DEFINITIONS"
  "PARAMETER_DATA \<noteq> VARIABLE_VALUES"
  by (simp_all add: VARIABLE_VALUES_def PARAMETER_DEFINITIONS_def PARAMETER_DATA_def)

subsection \<open>Events\<close>

definition present :: "event \<Rightarrow> u32 list \<Rightarrow> u32 list" where
  "present e ps = filter (\<lambda>p. ev_abs e (unat p) \<noteq> None) ps"

definition pair_bytes :: "frib_env \<Rightarrow> (u32 \<times> ptype) list \<Rightarrow> u8 list" where
  "pair_bytes env nvs = concat (map (\<lambda>(n, v). put32 n @ put64 (fe_bits env v)) nvs)"

lemma collect_present_spec:
  assumes "ev_ok e" "\<forall>p \<in> set ps. unat p < max_params"
  shows "\<exists>e'. collect_present ps e = Some (e', present e ps) \<and> ev_ok e' \<and> ev_abs e' = ev_abs e"
  using assms
proof (induction ps arbitrary: e)
  case (Cons p ps)
  have "unat p < max_params" using Cons.prems(2) by simp
  from ev_get_spec [OF Cons.prems(1) this] obtain f where f: "ev_ok f" "ev_abs f = ev_abs e"
    "ev_valid_at p e = Some (f, ev_abs e (unat p) \<noteq> None)" by metis
  with Cons.IH [OF f(1)] Cons.prems(2) show ?case by (auto simp: present_def)
qed (simp add: present_def)

lemma value_bytes_spec:
  assumes "ev_ok e" "\<forall>p \<in> set ps. unat p < max_params" "\<forall>p \<in> set ps. ev_abs e (unat p) \<noteq> None"
  shows "\<exists>e'. value_bytes env ps e =
    Some (e', pair_bytes env (map (\<lambda>p. (p, the (ev_abs e (unat p)))) ps)) \<and> ev_ok e' \<and> ev_abs e' = ev_abs e"
  using assms
proof (induction ps arbitrary: e)
  case (Cons p ps)
  obtain v where v: "ev_abs e (unat p) = Some v" using Cons.prems(3) by auto
  have "unat p < max_params" using Cons.prems(2) by simp
  from ev_get_spec [OF Cons.prems(1) this] obtain f where f: "ev_ok f" "ev_abs f = ev_abs e"
    "ev_get p e = Some (f, Inr (Some v))" by (metis v option.simps(5))
  with Cons.IH [OF f(1)] Cons.prems(2,3) v show ?case by (auto simp: pair_bytes_def)
qed (simp add: pair_bytes_def)

lemma frib_event_spec:
  assumes "ev_ok e" "\<forall>p \<in> set (ff_ids f). unat p < max_params"
  shows "\<exists>e'. frib_event env e f = Some (write_item (fe_item env PARAMETER_DATA
      (put64 (ff_trigger f) @ put32 (of_nat (length (present e (ff_ids f)))) @
       pair_bytes env (map (\<lambda>p. (p, the (ev_abs e (unat p)))) (present e (ff_ids f)))))
      (f\<lparr> ff_trigger := ff_trigger f + 1 \<rparr>), e') \<and> ev_ok e' \<and> ev_abs e' = ev_abs e"
proof -
  obtain g where g: "collect_present (ff_ids f) e = Some (g, present e (ff_ids f))" "ev_ok g" "ev_abs g = ev_abs e"
    using collect_present_spec [OF assms] by blast
  have "\<forall>p \<in> set (present e (ff_ids f)). unat p < max_params"
    "\<forall>p \<in> set (present e (ff_ids f)). ev_abs g (unat p) \<noteq> None"
    using assms(2) g(3) by (auto simp: present_def)
  from value_bytes_spec [OF g(2) this, of env] g show ?thesis by (auto simp: frib_event_def)
qed

text \<open>The assignments the decoder makes, through the tree parameters of its map.\<close>

definition decodes :: "nat option list \<Rightarrow> (u32 \<Rightarrow> u32) \<Rightarrow> tree_world \<Rightarrow> u32 \<Rightarrow> bool" where
  "decodes m num w p \<longleftrightarrow> unat p < length m \<and> unat (num p) < max_params \<and>
     (\<exists>q. m ! unat p = Some q \<and> bound q (num p) w)"

lemma decodes_setEvent [simp]: "decodes m num (setEvent e w) p = decodes m num w p"
  by (simp add: decodes_def)

lemma set_all_spec:
  assumes "ev_ok e" "tw_event w = Some e" "\<forall>(p, v) \<in> set nvs. decodes m num w p \<and> f64_value (fe_bits env v) = v"
  shows "\<exists>e'. set_all (length nvs) (pair_bytes env nvs @ r) m w = Some (setEvent e' w) \<and>
    ev_sets (map (\<lambda>(p, v). (num p, v)) nvs) e = Some e'"
  using assms
proof (induction nvs arbitrary: e w)
  case Nil
  have "setEvent e w = w" using Nil.prems(2) by (simp add: setEvent_def)
  then show ?case by (auto simp: setEvent_def)
next
  case (Cons nv nvs)
  obtain p v where nv: "nv = (p, v)" by fastforce
  obtain q where q: "unat p < length m" "unat (num p) < max_params" "m ! unat p = Some q" "bound q (num p) w"
    "f64_value (fe_bits env v) = v"
    using Cons.prems(3) nv by (auto simp: decodes_def)
  from ev_set_spec [OF Cons.prems(1) q(2), of v] obtain f where f: "ev_set (num p) v e = Some f" "ev_ok f" by metis
  have "\<forall>(p, v) \<in> set nvs. decodes m num (setEvent f w) p \<and> f64_value (fe_bits env v) = v"
    using Cons.prems(3) by auto
  from Cons.IH [OF f(2) _ this] setValue_bound [OF q(4) Cons.prems(2) f(1)] show ?case
    using q(1,3,5) f(1) nv by (auto simp: pair_bytes_def)
qed

text \<open>The later of two equal assignments changes nothing.\<close>

lemma map_of_rev_image:
  assumes "inj_on f (set ps)"
  shows "p \<in> set ps \<Longrightarrow> map_of (rev (map (\<lambda>p. (f p, h p)) ps)) (f p) = Some (h p)"
    and "k \<notin> f ` set ps \<Longrightarrow> map_of (rev (map (\<lambda>p. (f p, h p)) ps)) k = None"
proof -
  show "p \<in> set ps \<Longrightarrow> map_of (rev (map (\<lambda>p. (f p, h p)) ps)) (f p) = Some (h p)"
  proof -
    assume p: "p \<in> set ps"
    then have "map_of (rev (map (\<lambda>p. (f p, h p)) ps)) (f p) \<noteq> None"
      unfolding map_of_eq_None_iff by (simp add: image_image)
    then obtain x where x: "map_of (rev (map (\<lambda>p. (f p, h p)) ps)) (f p) = Some x" by blast
    from map_of_SomeD [OF this] obtain q where "q \<in> set ps" "f q = f p" "x = h q" by auto
    with p assms x show ?thesis by (auto dest: inj_onD)
  qed
  show "k \<notin> f ` set ps \<Longrightarrow> map_of (rev (map (\<lambda>p. (f p, h p)) ps)) k = None"
    by (force simp: map_of_eq_None_iff)
qed

lemma processParameterItem_spec:
  assumes ok: "ev_ok (pd_event d)" "unat (ev_serial (pd_event d)) < 2 ^ 64 - 2" "ev_abs (pd_event d) = Map.empty"
    and len: "length nvs < 2 ^ 32"
    and dec: "\<forall>(p, v) \<in> set nvs. decodes (pd_map d) num (pd_world d) p \<and> f64_value (fe_bits env v) = v"
    and body: "item_body it = put64 t @ put32 (of_nat (length nvs)) @ pair_bytes env nvs"
  shows "\<exists>d' o1. processParameterItem it d = Some d' \<and> pd_out d' = pd_out d @ [o1] \<and> ev_ok o1 \<and>
    ev_abs o1 = map_of (rev (map (\<lambda>(p, v). (unat (num p), v)) nvs)) \<and>
    ev_ok (pd_event d') \<and> ev_abs (pd_event d') = Map.empty \<and> pd_map d' = pd_map d"
proof -
  let ?w = "setEvent (pd_event d) (pd_world d)"
  have n: "unat (of_nat (length nvs) :: u32) = length nvs" using len by (simp add: unat_of_nat)
  obtain e where e: "set_all (length nvs) (pair_bytes env nvs) (pd_map d) ?w = Some (setEvent e ?w)"
    "ev_sets (map (\<lambda>(p, v). (num p, v)) nvs) (pd_event d) = Some e"
    using set_all_spec [OF ok(1), of ?w nvs "pd_map d" num env "[]"] dec by auto
  have "\<forall>(n, v) \<in> set (map (\<lambda>(p, v). (num p, v)) nvs). unat n < max_params"
    using dec by (auto simp: decodes_def)
  from ev_sets_spec [OF ok(1) this] e(2) have o1: "ev_ok e" "ev_serial e = ev_serial (pd_event d)"
    "ev_abs e = map_of (rev (map (\<lambda>(n, v). (unat n, v)) (map (\<lambda>(p, v). (num p, v)) nvs)))"
    using ok(3) by auto
  have abs: "ev_abs e = map_of (rev (map (\<lambda>(p, v). (unat (num p), v)) nvs))"
    unfolding o1(3) by (rule arg_cong [of _ _ "\<lambda>m. map_of (rev m)"]) (simp split: prod.split)
  have "ev_ok (ev_clear e)" "ev_abs (ev_clear e) = Map.empty"
    using ev_clear_spec [OF o1(1)] ok(2) o1(2) by simp_all
  then show ?thesis
    using e(1) o1(1) by (simp add: processParameterItem_def body n abs)
qed

text \<open>
  C25. An event written in the FRIB format and read back: whatever parameters of the header's
  list are valid in the event, the decoder gives HistogramEvents one event in which the
  parameter each listed number was mapped to has the value it had, if any, and nothing else
  is set; the decoder's event is empty again for the next item.  The item factory is relied
  on for the item's header and the doubles' patterns for denoting them; the mapped tree
  parameters are bound.
\<close>

theorem frib_event_roundtrip:
  assumes "ev_ok e" "\<forall>p \<in> set (ff_ids f). unat p < max_params" "length (ff_ids f) < 2 ^ 32"
    "\<And>body. item_layout env PARAMETER_DATA body"
    "\<forall>i v. ev_abs e i = Some v \<longrightarrow> f64_value (fe_bits env v) = v"
    "ev_ok (pd_event d)" "unat (ev_serial (pd_event d)) < 2 ^ 64 - 2" "ev_abs (pd_event d) = Map.empty"
    "\<forall>p \<in> set (ff_ids f). decodes (pd_map d) num (pd_world d) p" "inj_on num (set (ff_ids f))"
  shows "\<exists>it e' d' o1. frib_event env e f = Some (write_item it (f\<lparr> ff_trigger := ff_trigger f + 1 \<rparr>), e') \<and>
    pd_operator it d = Some (d', True) \<and> pd_out d' = pd_out d @ [o1] \<and> ev_ok o1 \<and>
    (\<forall>p \<in> set (ff_ids f). ev_abs o1 (unat (num p)) = ev_abs e (unat p)) \<and>
    (\<forall>k. k \<notin> (\<lambda>p. unat (num p)) ` set (ff_ids f) \<longrightarrow> ev_abs o1 k = None) \<and>
    ev_ok (pd_event d') \<and> ev_abs (pd_event d') = Map.empty"
proof -
  let ?ps = "present e (ff_ids f)" and ?val = "\<lambda>p. the (ev_abs e (unat p))"
  let ?nvs = "map (\<lambda>p. (p, ?val p)) ?ps"
  let ?body = "put64 (ff_trigger f) @ put32 (of_nat (length ?ps)) @ pair_bytes env ?nvs"
  let ?it = "fe_item env PARAMETER_DATA ?body"
  have sub: "set ?ps \<subseteq> set (ff_ids f)" by (auto simp: present_def)
  have len: "length ?nvs < 2 ^ 32"
    using assms(3) le_less_trans [OF length_filter_le] by (simp add: present_def)
  obtain e' where w: "frib_event env e f =
      Some (write_item ?it (f\<lparr> ff_trigger := ff_trigger f + 1 \<rparr>), e')"
    using frib_event_spec [OF assms(1,2), of env] by blast
  have dec: "\<forall>(p, v) \<in> set ?nvs. decodes (pd_map d) num (pd_world d) p \<and> f64_value (fe_bits env v) = v"
    using assms(5,9) by (auto simp: present_def)
  have "item_body ?it = put64 (ff_trigger f) @ put32 (of_nat (length ?nvs)) @ pair_bytes env ?nvs"
    using item_layoutE(2) [OF assms(4)] by simp
  from processParameterItem_spec [OF assms(6-8) len dec this] obtain d' o1 where
    d': "processParameterItem ?it d = Some d'" "pd_out d' = pd_out d @ [o1]" "ev_ok o1"
    "ev_abs o1 = map_of (rev (map (\<lambda>(p, v). (unat (num p), v)) ?nvs))"
    "ev_ok (pd_event d')" "ev_abs (pd_event d') = Map.empty" by blast
  have inj0: "p = q" if "p \<in> set (ff_ids f)" "q \<in> set (ff_ids f)" "unat (num p) = unat (num q)" for p q
    using that assms(10) by (meson inj_on_eq_iff word_unat_eq_iff)
  have inj: "inj_on (\<lambda>p. unat (num p)) (set ?ps)"
    by (rule inj_onI, rule inj0) (use sub in auto)
  have abs: "ev_abs o1 = map_of (rev (map (\<lambda>p. (unat (num p), ?val p)) ?ps))"
    using d'(4) by (simp add: comp_def)
  have "ev_abs o1 (unat (num p)) = ev_abs e (unat p)" if "p \<in> set (ff_ids f)" for p
  proof (cases "ev_abs e (unat p)")
    case None
    have "unat (num p) \<notin> (\<lambda>p. unat (num p)) ` set ?ps"
    proof
      assume "unat (num p) \<in> (\<lambda>p. unat (num p)) ` set ?ps"
      then obtain q where q: "unat (num p) = unat (num q)" "q \<in> set ?ps" by (rule imageE)
      with sub that have "p = q" by (intro inj0) auto
      with q(2) None show False by (simp add: present_def)
    qed
    from map_of_rev_image(2) [OF inj this, of ?val] show ?thesis by (simp only: abs None)
  next
    case (Some v)
    then have "p \<in> set ?ps" using that by (simp add: present_def)
    then show ?thesis using map_of_rev_image(1) [OF inj, of p ?val] abs Some by simp
  qed
  moreover have "ev_abs o1 k = None" if "k \<notin> (\<lambda>p. unat (num p)) ` set (ff_ids f)" for k
  proof -
    have "k \<notin> (\<lambda>p. unat (num p)) ` set ?ps" using that sub by blast
    from map_of_rev_image(2) [OF inj this, of ?val] show ?thesis by (simp only: abs)
  qed
  moreover have "pd_operator ?it d = Some (d', True)"
    using item_layoutE(1) [OF assms(4)] d'(1) by (simp add: pd_operator_def)
  ultimately show ?thesis using w d'(2,3,5,6) by blast
qed

text \<open>A factory of bare items and the patterns of zero and five.\<close>

definition demo_frib_env :: frib_env where
  "demo_frib_env = \<lparr> fe_item = (\<lambda>ty body. put32 (of_nat (12 + length body)) @ put32 ty @ put32 0 @ body),
     fe_bits = (\<lambda>x. if x = 5 then 0x4014000000000000 else 0) \<rparr>"

lemma demo_layout: "item_layout demo_frib_env ty body"
  by (auto simp: item_layout_def demo_frib_env_def)

lemma demo_bits: "f64_value (fe_bits demo_frib_env 5) = 5"
proof -
  have "take_bit 11 (drop_bit 52 (0x4014000000000000 :: u64)) = 1025" "take_bit 52 (0x4014000000000000 :: u64) = 2 ^ 50"
    "\<not> bit (0x4014000000000000 :: u64) 63"
    by (simp_all add: bit_eq_iff take_bit_eq_mod)
  then show ?thesis by (simp add: f64_value_def demo_frib_env_def Let_def pow2_def)
qed

theorem frib_event_roundtrip_witness:
  "\<exists>e f e' f' w it d' o1. frib_event demo_frib_env e f = Some (write_item it f', e') \<and> ev_abs e 3 = Some 5 \<and>
     pd_operator it ((new_param_decoder 1 w ())\<lparr> pd_map := [None, None, None, Some 0] \<rparr>) = Some (d', True) \<and>
     pd_out d' = [o1] \<and> ev_abs o1 0 = Some 5"
proof -
  obtain w where w: "bound 0 0 w" by (rule demo_bound)
  let ?d = "(new_param_decoder 1 w ())\<lparr> pd_map := [None, None, None, Some 0] \<rparr>"
  let ?f = "\<lparr> ff_trigger = 0, ff_ids = [3], ff_file = [] \<rparr>"
  obtain e where e: "ev_ok e" "ev_abs e = [3 \<mapsto> 5]"
    by (rule ev_set_spec [OF ev_ok_new, of 3 5]) (auto simp: max_params_def fun_eq_iff)
  have "ev_serial new_event = 0" by (simp add: new_event_def)
  moreover have "decodes (pd_map ?d) (\<lambda>_. 0) (pd_world ?d) 3"
    using w by (simp add: decodes_def new_param_decoder_def max_params_def)
  moreover have "\<forall>i v. ev_abs e i = Some v \<longrightarrow> f64_value (fe_bits demo_frib_env v) = v"
    using e(2) demo_bits by (auto split: if_splits)
  ultimately obtain it e' d' o1 where "frib_event demo_frib_env e ?f = Some (write_item it (?f\<lparr> ff_trigger := 1 \<rparr>), e')"
    "pd_operator it ?d = Some (d', True)" "pd_out d' = pd_out ?d @ [o1]" "ev_abs o1 (unat (0 :: u32)) = ev_abs e (unat (3 :: u32))"
    using frib_event_roundtrip [OF e(1) _ _ demo_layout, of ?f ?d "\<lambda>_. 0"]
    by (auto simp: new_param_decoder_def max_params_def fun_eq_iff)
  moreover from this have "pd_out d' = [o1]" "ev_abs o1 0 = Some 5" "ev_abs e 3 = Some 5"
    using e(2) by (simp_all add: new_param_decoder_def)
  ultimately show ?thesis by blast
qed

end
