(* ===== verification/FribDefinitions.thy ===== *)
theory FribDefinitions
  imports FribRoundtrip
begin

text \<open>
  The parameter definitions of the FRIB format: after the decoder has read the item that
  CFRIBFilterFormat wrote, every parameter number of the file leads to a tree parameter
  bound to the parameter of the same name.
\<close>

subsection \<open>The parameters of a world\<close>

definition world_params :: "tree_world \<Rightarrow> (string \<times> parameter) list" where
  "world_params w = d_map (h_params (api_hist (tw_api w)))"

definition find_param :: "tree_world \<Rightarrow> string \<Rightarrow> parameter option" where
  "find_param w k = api_FindParameter k (tw_api w)"

lemma find_param_get: "find_param w k = smap_get (world_params w) k"
  by (simp add: find_param_def world_params_def api_FindParameter_def Lookup_def)

lemma world_params_ok: "hist_ok (api_hist (tw_api w)) \<Longrightarrow> smap_ok (world_params w)"
  by (simp add: hist_ok_defs dict_ok_def world_params_def)

text \<open>A step that adds at most the parameter nm.\<close>

definition adds_param :: "string \<Rightarrow> tree_world \<Rightarrow> tree_world \<Rightarrow> bool" where
  "adds_param nm w w' \<longleftrightarrow> hist_ok (api_hist (tw_api w')) \<and> find_param w' nm \<noteq> None \<and>
     (\<forall>k. k \<noteq> nm \<longrightarrow> find_param w' k = find_param w k) \<and>
     (find_param w nm \<noteq> None \<longrightarrow> find_param w' nm = find_param w nm)"

lemma adds_param_length:
  assumes "hist_ok (api_hist (tw_api w))" "adds_param nm w w'"
  shows "length (world_params w') \<le> Suc (length (world_params w))"
proof -
  have "smap_ok (world_params w)" "smap_ok (world_params w')"
    using assms world_params_ok by (auto simp: adds_param_def)
  then have d: "distinct (map fst (world_params w))" "distinct (map fst (world_params w'))"
    by (simp_all add: smap_ok_def strict_sorted_iff)
  have "k \<in> insert nm (fst ` set (world_params w))" if "k \<in> fst ` set (world_params w')" for k
  proof (cases "k = nm")
    case False
    then have "smap_get (world_params w') k = smap_get (world_params w) k"
      using assms(2) by (simp add: adds_param_def find_param_get)
    then show ?thesis using that smap_get_None_iff by (metis insertCI)
  qed simp
  then have "card (set (map fst (world_params w'))) \<le> card (insert nm (set (map fst (world_params w))))"
    by (intro card_mono) auto
  also have "\<dots> \<le> Suc (card (set (map fst (world_params w))))" by (rule card_insert_le_m1) simp_all
  finally show ?thesis using d by (simp only: distinct_card length_map)
qed

lemma adds_param_keeps: "adds_param nm w w' \<Longrightarrow> find_param w k = Some p \<Longrightarrow> find_param w' k = Some p"
  by (cases "k = nm") (auto simp: adds_param_def)

subsection \<open>Registered objects\<close>

text \<open>Registered objects exist, once each; identities from k on are not in use.\<close>

definition tree_ok :: "nat \<Rightarrow> tree_world \<Rightarrow> bool" where
  "tree_ok k w \<longleftrightarrow> hist_ok (api_hist (tw_api w)) \<and> smap_ok (tw_objs w) \<and>
     distinct (map snd (tw_registry w)) \<and> (\<forall>q. isRegistered q w \<longrightarrow> obj_of q w \<noteq> None) \<and>
     (\<forall>q \<ge> k. obj_of q w = None)"

lemma set_multimap_insert: "set (multimap_insert k v m) = insert (k, v) (set m)"
  by (induction k v m rule: multimap_insert.induct) auto

lemma mset_snd_multimap_insert: "mset (map snd (multimap_insert k v m)) = add_mset v (mset (map snd m))"
  by (induction k v m rule: multimap_insert.induct) auto

lemma distinct_multimap_insert:
  "distinct (map snd (multimap_insert k v m)) \<longleftrightarrow> v \<notin> snd ` set m \<and> distinct (map snd m)"
  by (metis distinct.simps(2) list.set_map mset.simps(2) mset_eq_imp_distinct_iff mset_snd_multimap_insert)

lemma length_multimap_insert [simp]: "length (multimap_insert k v m) = Suc (length m)"
  by (induction k v m rule: multimap_insert.induct) auto

lemma erase_registration_snd: "map snd (erase_registration p m) = remove1 p (map snd m)"
  by (induction p m rule: erase_registration.induct) auto

lemma length_erase_registration: "length (erase_registration p m) \<le> length m"
  by (induction p m rule: erase_registration.induct) auto

lemma Register_spec:
  assumes "\<not> isRegistered p w"
  shows "isRegistered q (Register p nm w) \<longleftrightarrow> q = p \<or> isRegistered q w"
    "distinct (map snd (tw_registry (Register p nm w))) = distinct (map snd (tw_registry w))"
    "length (tw_registry (Register p nm w)) = Suc (length (tw_registry w))"
    "tw_api (Register p nm w) = tw_api w" "tw_objs (Register p nm w) = tw_objs w"
    "tw_event (Register p nm w) = tw_event w"
  using assms by (auto simp: Register_def isRegistered_def set_multimap_insert distinct_multimap_insert)

lemma destroy_spec:
  assumes "tree_ok k w"
  shows "tree_ok k (destroy_param p w)"
    "obj_of q (destroy_param p w) = (if q = p then None else obj_of q w)"
    "isRegistered q (destroy_param p w) \<longleftrightarrow> q \<noteq> p \<and> isRegistered q w"
    "length (tw_registry (destroy_param p w)) \<le> length (tw_registry w)"
    "tw_api (destroy_param p w) = tw_api w"
proof -
  have d: "distinct (map snd (tw_registry w))" and o1: "smap_ok (tw_objs w)"
    using assms by (simp_all add: tree_ok_def)
  have r: "isRegistered q (destroy_param p w) \<longleftrightarrow> q \<noteq> p \<and> isRegistered q w" for q
  proof -
    have "snd ` set (tw_registry (destroy_param p w)) = set (remove1 p (map snd (tw_registry w)))"
      by (simp add: destroy_param_def Unregister_def flip: erase_registration_snd)
    also have "\<dots> = snd ` set (tw_registry w) - {p}" by (simp add: set_remove1_eq [OF d])
    finally show ?thesis by (auto simp: isRegistered_def)
  qed
  have o2: "obj_of q (destroy_param p w) = (if q = p then None else obj_of q w)" for q
    using o1 by (simp add: obj_of_def destroy_param_def Unregister_def)
  show "isRegistered q (destroy_param p w) \<longleftrightarrow> q \<noteq> p \<and> isRegistered q w" by (rule r)
  show "obj_of q (destroy_param p w) = (if q = p then None else obj_of q w)" by (rule o2)
  show "length (tw_registry (destroy_param p w)) \<le> length (tw_registry w)"
    by (simp add: destroy_param_def Unregister_def length_erase_registration)
  show api: "tw_api (destroy_param p w) = tw_api w" by (simp add: destroy_param_def Unregister_def)
  have "smap_ok (tw_objs (destroy_param p w))" "distinct (map snd (tw_registry (destroy_param p w)))"
    using o1 d by (simp_all add: destroy_param_def Unregister_def erase_registration_snd)
  then show "tree_ok k (destroy_param p w)"
    using assms r o2 api by (auto simp: tree_ok_def)
qed

subsection \<open>New parameters\<close>

lemma add_free_number:
  assumes h: "hist_ok (api_hist (tw_api w))" and room: "length (world_params w) < 2 ^ 32"
    and None: "api_FindParameter nm (tw_api w) = None"
  obtains a where "api_AddParameter nm (AssignParameterId (tw_api w)) u (tw_api w) = ApiOk a"
    "\<And>w'. tw_api w' = a \<Longrightarrow> adds_param nm w w'"
proof -
  let ?q = "\<lparr> pa_name = nm, pa_number = AssignParameterId (tw_api w), pa_scale = 0, pa_low = 0, pa_high = 0,
     pa_units = u, pa_scaled = False \<rparr>"
  have "api_FindParameterById (AssignParameterId (tw_api w)) (tw_api w) = None"
    using AssignParameterId_mex(1) [OF h room [unfolded world_params_def]] api_FindParameterById_iff [OF h] by blast
  then obtain g where g: "api_enter_parameter nm ?q (tw_api w) = ApiOk ((tw_api w)\<lparr> api_hist := g \<rparr>)" "hist_ok g"
    "\<And>k. FindParameter k g = (if k = nm then Some ?q else FindParameter k (api_hist (tw_api w)))"
    using api_enter_parameter_fresh [OF h _ None, of ?q] by auto
  show thesis
  proof (rule that [of "(tw_api w)\<lparr> api_hist := g \<rparr>"])
    show "api_AddParameter nm (AssignParameterId (tw_api w)) u (tw_api w) = ApiOk ((tw_api w)\<lparr> api_hist := g \<rparr>)"
      using g(1) by (simp add: api_AddParameter_def)
  qed (use g(2,3) None in \<open>auto simp: adds_param_def find_param_def api_FindParameter_def FindParameter_def\<close>)
qed

lemma adds_param_refl: "hist_ok (api_hist (tw_api w)) \<Longrightarrow> find_param w nm = Some p \<Longrightarrow> tw_api w' = tw_api w \<Longrightarrow> adds_param nm w w'"
  by (simp add: adds_param_def find_param_def)

lemma createParameter_spec:
  assumes ok: "tree_ok p w" and room: "length (world_params w) < 2 ^ 32"
  obtains w' t where "createParameter nm p w = Some w'" "tree_ok (Suc p) w'" "adds_param nm w w'"
    "obj_of p w' = Some t" "tp_name t = nm" "\<And>q. q \<noteq> p \<Longrightarrow> obj_of q w' = obj_of q w"
    "\<And>q. isRegistered q w' \<longleftrightarrow> q = p \<or> isRegistered q w"
    "length (tw_registry w') = Suc (length (tw_registry w))"
proof -
  have h: "hist_ok (api_hist (tw_api w))" using ok by (simp add: tree_ok_def)
  define w1 where "w1 = (if api_FindParameter nm (tw_api w) = None
                then (case api_AddParameter nm (AssignParameterId (tw_api w)) [] (tw_api w) of
                        ApiOk a \<Rightarrow> w\<lparr> tw_api := a \<rparr> | _ \<Rightarrow> w)
                else w)"
  have "adds_param nm w w1 \<and> (\<exists>a. w1 = w\<lparr> tw_api := a \<rparr>)"
  proof (cases "api_FindParameter nm (tw_api w)")
    case (Some q)
    then have e: "w1 = w\<lparr> tw_api := tw_api w \<rparr>" by (simp add: w1_def)
    have "adds_param nm w w1"
      by (rule adds_param_refl [OF h, of nm q]) (simp_all add: Some find_param_def e)
    then show ?thesis using e by blast
  next
    case None
    from add_free_number [OF h room None] obtain a where
      "api_AddParameter nm (AssignParameterId (tw_api w)) [] (tw_api w) = ApiOk a"
      "\<And>w'. tw_api w' = a \<Longrightarrow> adds_param nm w w'" by blast
    then show ?thesis using None by (auto simp: w1_def)
  qed
  then obtain a where a: "adds_param nm w w1" "w1 = w\<lparr> tw_api := a \<rparr>" by blast
  have fresh: "obj_of p w1 = None" "\<not> isRegistered p w1"
    using ok a(2) by (auto simp: tree_ok_def obj_of_def isRegistered_def)
  let ?t = "raw_param\<lparr> tp_name := nm, tp_units := ''unknown'', tp_initialized := True \<rparr>"
  define w' where "w' = put_obj p ?t (Register p nm (put_obj p raw_param w1))"
  have nr: "\<not> isRegistered p (put_obj p raw_param w1)"
    using fresh(2) by (simp add: isRegistered_def put_obj_def)
  note reg = Register_spec [OF nr]
  have c: "createParameter nm p w = Some w'"
    using fresh(1) by (simp add: createParameter_def Let_def w1_def [symmetric] construct_def Initialize_name_def
        throwIfDoubleInit_def with_obj_def raw_param_def w'_def)
  have sel: "tw_api w' = a" "tw_registry w' = tw_registry (Register p nm (put_obj p raw_param w1))"
    "obj_of q w' = (if q = p then Some ?t else obj_of q w)" for q
    using reg(4,5) a(2) by (simp_all add: put_obj_def obj_of_def w'_def)
  have r: "isRegistered q w' \<longleftrightarrow> q = p \<or> isRegistered q w" for q
    using reg(1) [of q] a(2) by (simp add: isRegistered_def sel(2) put_obj_def)
  have ad: "adds_param nm w w'" using a sel(1) by (simp add: adds_param_def find_param_def)
  have len: "length (tw_registry w') = Suc (length (tw_registry w))"
    using reg(3) a(2) by (simp add: sel(2) put_obj_def)
  have "smap_ok (tw_objs w')" "distinct (map snd (tw_registry w'))"
    using ok reg(2,5) a(2) by (simp_all add: sel(2) put_obj_def tree_ok_def w'_def)
  then have "tree_ok (Suc p) w'"
    using ok ad r sel(3) by (auto simp: tree_ok_def adds_param_def)
  then show thesis using that [OF c _ ad] sel(3) r len by simp
qed

subsection \<open>Binding every registered object\<close>

definition named_bound :: "nat \<Rightarrow> tree_world \<Rightarrow> bool" where
  "named_bound p w \<longleftrightarrow> (\<exists>t. obj_of p w = Some t \<and> tp_parameter t = Some (tp_name t) \<and> find_param w (tp_name t) \<noteq> None)"

lemma named_bound_bound:
  "named_bound p w \<Longrightarrow> map_option tp_name (obj_of p w) = Some nm \<Longrightarrow> \<exists>q. find_param w nm = Some q \<and> bound p (pa_number q) w"
  by (auto simp: named_bound_def bound_def find_param_def)

lemma Bind_step:
  assumes ok: "tree_ok k w" and room: "length (world_params w) < 2 ^ 32" and t: "obj_of p w = Some t"
  obtains w' where "Bind p w = TOk () w'" "tree_ok k w'" "adds_param (tp_name t) w w'" "named_bound p w'"
    "\<And>q. named_bound q w \<Longrightarrow> named_bound q w'" "\<And>q. map_option tp_name (obj_of q w') = map_option tp_name (obj_of q w)"
    "tw_registry w' = tw_registry w"
proof -
  have h: "hist_ok (api_hist (tw_api w))" using ok by (simp add: tree_ok_def)
  obtain u a where b: "Bind p w = TOk () (put_obj p (t\<lparr> tp_units := u, tp_parameter := Some (tp_name t) \<rparr>) (w\<lparr> tw_api := a \<rparr>))"
    "\<And>w'. tw_api w' = a \<Longrightarrow> adds_param (tp_name t) w w'"
  proof (cases "api_FindParameter (tp_name t) (tw_api w)")
    case None
    from add_free_number [OF h room None] obtain a where
      "api_AddParameter (tp_name t) (AssignParameterId (tw_api w)) (tp_units t) (tw_api w) = ApiOk a"
      "\<And>w'. tw_api w' = a \<Longrightarrow> adds_param (tp_name t) w w'" by blast
    then show thesis using that [of "tp_units t" a] t None by (simp add: Bind_def with_obj_def)
  next
    case (Some q)
    then show thesis using that [of "pa_units q" "tw_api w"] t adds_param_refl [OF h, of "tp_name t" q]
      by (simp add: Bind_def with_obj_def find_param_def)
  qed
  let ?t = "t\<lparr> tp_units := u, tp_parameter := Some (tp_name t) \<rparr>"
  let ?w' = "put_obj p ?t (w\<lparr> tw_api := a \<rparr>)"
  have ad: "adds_param (tp_name t) w ?w'" by (rule b(2)) simp
  have ob: "obj_of q ?w' = (if q = p then Some ?t else obj_of q w)" for q by (simp add: obj_of_def put_obj_def)
  have reg: "tw_registry ?w' = tw_registry w" by (simp add: put_obj_def)
  have nb: "named_bound p ?w'" using ad ob by (simp add: named_bound_def adds_param_def)
  show thesis
  proof (rule that [OF b(1) _ ad nb])
    have "p < k" using ok t by (auto simp: tree_ok_def not_less [symmetric])
    then show "tree_ok k ?w'"
      using ok ad ob unfolding tree_ok_def isRegistered_def reg by (auto simp: adds_param_def put_obj_def)
    show "named_bound q ?w'" if old: "named_bound q w" for q
    proof (cases "q = p")
      case False
      obtain s where s0: "obj_of q w = Some s" "tp_parameter s = Some (tp_name s)" "find_param w (tp_name s) \<noteq> None"
        using old unfolding named_bound_def by blast
      then obtain x where s: "obj_of q w = Some s" "tp_parameter s = Some (tp_name s)" "find_param w (tp_name s) = Some x"
        by blast
      then show ?thesis using ob [of q] False adds_param_keeps [OF ad s(3)] by (auto simp: named_bound_def)
    qed (use nb in simp)
    show "map_option tp_name (obj_of q ?w') = map_option tp_name (obj_of q w)" for q using ob t by simp
  qed (rule reg)
qed

lemma bind_all:
  assumes "tree_ok k w" "length (world_params w) + length ps < 2 ^ 32" "\<forall>p \<in> set ps. obj_of p w \<noteq> None"
  shows "\<exists>w'. for_each_param Bind ps w = TOk () w' \<and> tree_ok k w' \<and> (\<forall>p \<in> set ps. named_bound p w') \<and>
    (\<forall>q. named_bound q w \<longrightarrow> named_bound q w') \<and>
    (\<forall>q. map_option tp_name (obj_of q w') = map_option tp_name (obj_of q w)) \<and>
    (\<forall>nm q. find_param w nm = Some q \<longrightarrow> find_param w' nm = Some q) \<and> tw_registry w' = tw_registry w"
  using assms
proof (induction ps arbitrary: w)
  case (Cons p ps)
  obtain t where t: "obj_of p w = Some t" using Cons.prems(3) by auto
  have "length (world_params w) < 2 ^ 32" using Cons.prems(2) by simp
  from Bind_step [OF Cons.prems(1) this t] obtain v where v: "Bind p w = TOk () v" "tree_ok k v"
    "adds_param (tp_name t) w v" "named_bound p v" "\<And>q. named_bound q w \<Longrightarrow> named_bound q v"
    "\<And>q. map_option tp_name (obj_of q v) = map_option tp_name (obj_of q w)" "tw_registry v = tw_registry w" by blast
  have "hist_ok (api_hist (tw_api w))" using Cons.prems(1) by (simp add: tree_ok_def)
  from adds_param_length [OF this v(3)] have "length (world_params v) + length ps < 2 ^ 32"
    using Cons.prems(2) by simp
  moreover have "\<forall>q \<in> set ps. obj_of q v \<noteq> None" using Cons.prems(3) v(6) by (metis list.set_intros(2) option.map_disc_iff)
  ultimately obtain w' where w': "for_each_param Bind ps v = TOk () w'" "tree_ok k w'" "\<forall>p \<in> set ps. named_bound p w'"
    "\<forall>q. named_bound q v \<longrightarrow> named_bound q w'" "\<forall>q. map_option tp_name (obj_of q w') = map_option tp_name (obj_of q v)"
    "\<forall>nm q. find_param v nm = Some q \<longrightarrow> find_param w' nm = Some q" "tw_registry w' = tw_registry v"
    using Cons.IH [OF v(2)] by blast
  have "for_each_param Bind (p # ps) w = TOk () w'" using v(1) w'(1) by simp
  moreover have "find_param w' nm = Some q" if "find_param w nm = Some q" for nm q
    using adds_param_keeps [OF v(3) that] w'(6) by blast
  ultimately show ?case using w'(2-5,7) v(4-7) by (intro exI [of _ w']) simp
qed simp

subsection \<open>The decoder's map\<close>

definition entry :: "'v param_decoder \<Rightarrow> nat \<Rightarrow> string \<Rightarrow> bool" where
  "entry d i nm \<longleftrightarrow> i < length (pd_map d) \<and> (\<exists>q. pd_map d ! i = Some q \<and> isRegistered q (pd_world d) \<and>
     map_option tp_name (obj_of q (pd_world d)) = Some nm)"

definition pd_ok :: "'v param_decoder \<Rightarrow> bool" where
  "pd_ok d \<longleftrightarrow> tree_ok (pd_next d) (pd_world d) \<and>
     (\<forall>i q. i < length (pd_map d) \<and> pd_map d ! i = Some q \<longrightarrow> isRegistered q (pd_world d)) \<and>
     (\<forall>i j q. i < length (pd_map d) \<and> j < length (pd_map d) \<and> pd_map d ! i = Some q \<and> pd_map d ! j = Some q \<longrightarrow> i = j)"

lemma nth_resize_map: "i < n \<Longrightarrow> length m \<le> n \<Longrightarrow> resize_map n m ! i = (if i < length m then m ! i else None)"
  by (simp add: resize_map_def nth_append)

lemma length_resize_map [simp]: "length m \<le> n \<Longrightarrow> length (resize_map n m) = n"
  by (simp add: resize_map_def)

lemma define_parameter_spec:
  assumes ok: "pd_ok d" and room: "length (world_params (pd_world d)) < 2 ^ 32" and n: "n \<noteq> - 1"
  defines "i \<equiv> unat n"
  obtains d' where "define_parameter n nm d = Some d'" "pd_ok d'" "entry d' i nm"
    "\<And>j nm'. j \<noteq> i \<Longrightarrow> entry d j nm' \<Longrightarrow> entry d' j nm'" "adds_param nm (pd_world d) (pd_world d')"
    "length (tw_registry (pd_world d')) \<le> Suc (length (tw_registry (pd_world d)))"
proof -
  let ?p = "pd_next d" and ?w = "pd_world d"
  have t: "tree_ok ?p ?w" using ok by (simp add: pd_ok_def)
  from createParameter_spec [OF t room, of nm] obtain v s where v: "createParameter nm ?p ?w = Some v" "tree_ok (Suc ?p) v"
    "adds_param nm ?w v" "obj_of ?p v = Some s" "tp_name s = nm" "\<And>q. q \<noteq> ?p \<Longrightarrow> obj_of q v = obj_of q ?w"
    "\<And>q. isRegistered q v \<longleftrightarrow> q = ?p \<or> isRegistered q ?w"
    "length (tw_registry v) = Suc (length (tw_registry ?w))" by blast
  have "unat n \<noteq> 2 ^ 32 - 1"
    using n by (simp add: word_unat_eq_iff unsigned_minus_1_eq_mask mask_eq_exp_minus_1)
  then have i1: "unat (n + 1) = Suc i"
    using unat_less_power [of n] by (simp add: i_def unat_word_ariths)
  define m where "m = (if length (pd_map d) \<le> i then resize_map (Suc i) (pd_map d) else pd_map d)"
  have m: "i < length m" "length (pd_map d) \<le> length m"
    "\<And>j. j < length m \<Longrightarrow> m ! j = (if j < length (pd_map d) then pd_map d ! j else None)"
    by (auto simp: m_def nth_resize_map)
  define w' where "w' = (case m ! i of None \<Rightarrow> v | Some old \<Rightarrow> destroy_param old v)"
  define d' where "d' = d\<lparr> pd_map := m[i := Some ?p], pd_next := Suc ?p, pd_world := w' \<rparr>"
  have unreg: "\<not> isRegistered ?p ?w" using t by (auto simp: tree_ok_def)
  have old: "isRegistered q ?w" "q \<noteq> ?p" if "j < length m" "m ! j = Some q" for j q
    using that ok m(3) [of j] unreg by (auto simp: pd_ok_def split: if_splits)
  have w': "tree_ok (Suc ?p) w'" "tw_api w' = tw_api v" "length (tw_registry w') \<le> length (tw_registry v)"
    "\<And>q. m ! i \<noteq> Some q \<Longrightarrow> obj_of q w' = obj_of q v \<and> isRegistered q w' = isRegistered q v"
    using v(2) destroy_spec [OF v(2)] by (auto simp: w'_def split: option.splits)
  have inj: "j = k" if "j < length m" "k < length m" "m ! j = Some q" "m ! k = Some q" for j k q
    using that ok m(3) [of j] m(3) [of k] by (auto simp: pd_ok_def split: if_splits)
  have new: "m ! i \<noteq> Some ?p" using old m(1) by blast
  have here: "isRegistered ?p w'" "obj_of ?p w' = Some s" using w'(4) [OF new] v(4,7) by simp_all
  have others: "isRegistered q w' \<and> obj_of q w' = obj_of q ?w" if "j < length m" "j \<noteq> i" "m ! j = Some q" for j q
    using w'(4) [of q] inj [OF that(1) m(1) that(3)] that old [OF that(1,3)] v(6,7) by auto
  show thesis
  proof (rule that)
    show "define_parameter n nm d = Some d'"
      using m(1) by (simp add: define_parameter_def v(1) Let_def d'_def w'_def m_def i1 i_def [symmetric])
    show "entry d' i nm" using here m(1) v(5) by (simp add: entry_def d'_def)
    show "entry d' j nm'" if j: "j \<noteq> i" and e: "entry d j nm'" for j nm'
    proof -
      obtain q where q: "j < length (pd_map d)" "pd_map d ! j = Some q" "map_option tp_name (obj_of q ?w) = Some nm'"
        using e by (auto simp: entry_def)
      then have "j < length m" "m ! j = Some q" using m(2,3) by auto
      then show ?thesis using others [of j q] j q(3) by (auto simp: entry_def d'_def)
    qed
    show "adds_param nm ?w (pd_world d')" using v(3) w'(2) by (simp add: d'_def adds_param_def find_param_def)
    show "length (tw_registry (pd_world d')) \<le> Suc (length (tw_registry ?w))" using w'(3) v(8) by (simp add: d'_def)
    have "isRegistered q w'" if "j < length m" "m[i := Some ?p] ! j = Some q" for j q
      using that here(1) others [of j q] by (cases "j = i") auto
    moreover have "j = k" if "j < length m" "k < length m" "m[i := Some ?p] ! j = Some q" "m[i := Some ?p] ! k = Some q" for j k q
      using that inj [of j k q] old(2) [of j q] old(2) [of k q] by (cases "j = i"; cases "k = i") auto
    ultimately show "pd_ok d'" using w'(1) by (auto simp: pd_ok_def d'_def)
  qed
qed

lemma define_all_spec:
  assumes "pd_ok d" "length ids = length names" "distinct ids \<and> - 1 \<notin> set ids" "\<forall>nm \<in> set names. c_string nm"
    "length (world_params (pd_world d)) + length names < 2 ^ 32"
  shows "\<exists>b d'. definition_bytes names ids = Some b \<and> define_all (length names) (b @ r) d = Some d' \<and> pd_ok d' \<and>
    (\<forall>k < length names. entry d' (unat (ids ! k)) (names ! k)) \<and>
    (\<forall>j nm. j \<notin> unat ` set ids \<longrightarrow> entry d j nm \<longrightarrow> entry d' j nm) \<and>
    (\<forall>k p. find_param (pd_world d) k = Some p \<longrightarrow> find_param (pd_world d') k = Some p) \<and>
    length (tw_registry (pd_world d')) \<le> length (tw_registry (pd_world d)) + length names \<and>
    length (world_params (pd_world d')) \<le> length (world_params (pd_world d)) + length names"
  using assms
proof (induction names arbitrary: ids d)
  case (Cons nm names)
  then obtain i ids' where ids: "ids = i # ids'" by (cases ids) auto
  have "length (world_params (pd_world d)) < 2 ^ 32" "i \<noteq> - 1" using Cons.prems(3,5) ids by auto
  from define_parameter_spec [OF Cons.prems(1) this, of nm] obtain c where c:
    "define_parameter i nm d = Some c" "pd_ok c" "entry c (unat i) nm"
    "\<And>j nm'. j \<noteq> unat i \<Longrightarrow> entry d j nm' \<Longrightarrow> entry c j nm'" "adds_param nm (pd_world d) (pd_world c)"
    "length (tw_registry (pd_world c)) \<le> Suc (length (tw_registry (pd_world d)))" by blast
  have "hist_ok (api_hist (tw_api (pd_world d)))" using Cons.prems(1) by (simp add: pd_ok_def tree_ok_def)
  note len = adds_param_length [OF this c(5)]
  have "length ids' = length names" "distinct ids' \<and> - 1 \<notin> set ids'" "\<forall>nm \<in> set names. c_string nm"
    "length (world_params (pd_world c)) + length names < 2 ^ 32"
    using Cons.prems ids len by auto
  from Cons.IH [OF c(2) this] obtain b d' where d': "definition_bytes names ids' = Some b"
    "define_all (length names) (b @ r) c = Some d'" "pd_ok d'"
    "\<forall>k < length names. entry d' (unat (ids' ! k)) (names ! k)"
    "\<forall>j nm. j \<notin> unat ` set ids' \<longrightarrow> entry c j nm \<longrightarrow> entry d' j nm"
    "\<forall>k p. find_param (pd_world c) k = Some p \<longrightarrow> find_param (pd_world d') k = Some p"
    "length (tw_registry (pd_world d')) \<le> length (tw_registry (pd_world c)) + length names"
    "length (world_params (pd_world d')) \<le> length (world_params (pd_world c)) + length names" by blast
  have "unat i \<notin> unat ` set ids'" using Cons.prems(3) ids by (auto simp: word_unat_eq_iff [symmetric])
  then have "entry d' (unat i) nm" using d'(5) c(3) by blast
  then have "entry d' (unat (ids ! k)) ((nm # names) ! k)" if "k < length (nm # names)" for k
    using that d'(4) ids by (cases k) auto
  moreover have "c_string nm" using Cons.prems(4) by simp
  then have "define_all (length (nm # names)) ((put32 i @ put_cstring nm @ b) @ r) d = Some d'"
    using c(1) d'(2) by simp
  moreover have "entry d' j nm'" if "j \<notin> unat ` set ids" "entry d j nm'" for j nm'
    using that c(4) d'(5) ids by auto
  moreover have "find_param (pd_world d') k = Some p" if "find_param (pd_world d) k = Some p" for k p
    using d'(6) adds_param_keeps [OF c(5) that] by blast
  moreover have "definition_bytes (nm # names) ids = Some (put32 i @ put_cstring nm @ b)" using d'(1) ids by simp
  ultimately show ?case using d'(3,7,8) c(6) len
    by (intro exI [of _ "put32 i @ put_cstring nm @ b"] exI [of _ d']) simp
qed simp

text \<open>
  C26. Parameter definitions written in the FRIB format and read back: each number of the
  file leads the decoder to a tree parameter bound to the parameter of the name it was
  written with, whatever number that parameter has here; a parameter that did not exist
  is made, and those that did are unchanged.  The numbers are distinct and not 2^32 - 1, the names are C
  strings, and there is room for the new parameters below 2^32.
\<close>

theorem frib_definitions_roundtrip:
  assumes "pd_ok d" "length ids = length names" "distinct ids \<and> - 1 \<notin> set ids" "\<forall>nm \<in> set names. c_string nm"
    "length (world_params (pd_world d)) + length (tw_registry (pd_world d)) + 2 * length names < 2 ^ 32"
    "\<And>body. item_layout env PARAMETER_DEFINITIONS body"
  shows "\<exists>it d'. writeParameterDescriptions env names ids f = Some (write_item it f) \<and>
    pd_operator it d = Some (d', True) \<and> pd_ok d' \<and>
    (\<forall>k < length names. \<exists>q p. unat (ids ! k) < length (pd_map d') \<and> pd_map d' ! unat (ids ! k) = Some q \<and>
       find_param (pd_world d') (names ! k) = Some p \<and> bound q (pa_number p) (pd_world d')) \<and>
    (\<forall>nm p. find_param (pd_world d) nm = Some p \<longrightarrow> find_param (pd_world d') nm = Some p)"
proof -
  have "length (world_params (pd_world d)) + length names < 2 ^ 32" using assms(5) by simp
  from define_all_spec [OF assms(1-4) this, of "[]"] obtain b c where c:
    "definition_bytes names ids = Some b" "define_all (length names) b d = Some c" "pd_ok c"
    "\<forall>k < length names. entry c (unat (ids ! k)) (names ! k)"
    "\<forall>k p. find_param (pd_world d) k = Some p \<longrightarrow> find_param (pd_world c) k = Some p"
    "length (tw_registry (pd_world c)) \<le> length (tw_registry (pd_world d)) + length names"
    "length (world_params (pd_world c)) \<le> length (world_params (pd_world d)) + length names" by auto
  let ?w = "pd_world c" and ?ps = "map snd (tw_registry (pd_world c))"
  have t: "tree_ok (pd_next c) ?w" using c(3) by (simp add: pd_ok_def)
  have "\<forall>p \<in> set ?ps. obj_of p ?w \<noteq> None" using t by (simp add: tree_ok_def isRegistered_def)
  moreover have "length (world_params ?w) + length ?ps < 2 ^ 32" using c(6,7) assms(5) by simp
  ultimately obtain w' where w': "for_each_param Bind ?ps ?w = TOk () w'" "tree_ok (pd_next c) w'"
    "\<forall>p \<in> set ?ps. named_bound p w'" "\<forall>q. map_option tp_name (obj_of q w') = map_option tp_name (obj_of q ?w)"
    "\<forall>nm q. find_param ?w nm = Some q \<longrightarrow> find_param w' nm = Some q" "tw_registry w' = tw_registry ?w"
    using bind_all [OF t] by meson
  let ?it = "fe_item env PARAMETER_DEFINITIONS (put32 (of_nat (length names)) @ b)" and ?d' = "c\<lparr> pd_world := w' \<rparr>"
  have n: "unat (of_nat (length names) :: u32) = length names" using assms(5) by (simp add: unat_of_nat)
  have "pd_operator ?it d = Some (?d', True)"
    using item_layoutE [OF assms(6)] c(2) w'(1)
    by (simp add: pd_operator_def processParameterDefs_def n BindParameters_def)
  moreover have "writeParameterDescriptions env names ids f = Some (write_item ?it f)"
    by (simp add: writeParameterDescriptions_def c(1))
  moreover have "pd_ok ?d'" using c(3) w'(2,6) by (simp add: pd_ok_def isRegistered_def)
  moreover have "\<exists>q p. unat (ids ! k) < length (pd_map ?d') \<and> pd_map ?d' ! unat (ids ! k) = Some q \<and>
       find_param (pd_world ?d') (names ! k) = Some p \<and> bound q (pa_number p) (pd_world ?d')" if k: "k < length names" for k
  proof -
    obtain q where q: "unat (ids ! k) < length (pd_map c)" "pd_map c ! unat (ids ! k) = Some q"
      "isRegistered q ?w" "map_option tp_name (obj_of q ?w) = Some (names ! k)"
      using c(4) k by (auto simp: entry_def)
    then have "named_bound q w'" "map_option tp_name (obj_of q w') = Some (names ! k)"
      using w'(3) by (auto simp: isRegistered_def w'(4) [rule_format])
    from named_bound_bound [OF this] show ?thesis using q by auto
  qed
  ultimately show ?thesis using c(5) w'(5) by (intro exI [of _ ?it] exI [of _ ?d']) simp
qed

subsection \<open>Variables\<close>

lemma get_cstring_chars:
  "c_string s \<Longrightarrow> get_cstring (map (\<lambda>c. of_nat (of_char c)) s @ bs) = map_option (\<lambda>(t, r). (s @ t, r)) (get_cstring bs)"
proof (induction s)
  case (Cons c s)
  have s: "c_string s" using Cons.prems by (simp add: c_string_def)
  from Cons.prems have "c_string [c]" by (simp add: c_string_def)
  from get_put_cstring [OF this, of "[]"] have "(of_nat (of_char c) :: u8) \<noteq> 0"
    by (auto simp: put_cstring_def split: if_splits)
  then show ?case using Cons.IH [OF s] by (cases "get_cstring bs") (auto simp: of_char_byte)
qed (simp add: option.map_id0 [unfolded id_def] case_prod_unfold)

text \<open>The units a reader finds: units of 32 characters and more run on into the name.\<close>

definition units_read :: "string \<Rightarrow> string \<Rightarrow> string" where
  "units_read u nm = (if length u < MAX_UNITS_LENGTH then u else take MAX_UNITS_LENGTH u @ nm)"

lemma length_strncpy_units [simp]: "length (strncpy_units u) = 32"
  by (simp add: strncpy_units_def MAX_UNITS_LENGTH_def Let_def)

lemma get_strncpy_units:
  assumes "c_string u" "c_string nm"
  shows "map_option fst (get_cstring (strncpy_units u @ put_cstring nm @ r)) = Some (units_read u nm)"
proof -
  let ?b = "map (\<lambda>c. of_nat (of_char c)) (take MAX_UNITS_LENGTH u) :: u8 list"
  have c: "c_string (take MAX_UNITS_LENGTH u)" using assms(1) by (auto simp: c_string_def dest: in_set_takeD)
  have e: "strncpy_units u @ put_cstring nm @ r =
      ?b @ replicate (MAX_UNITS_LENGTH - length u) 0 @ put_cstring nm @ r"
    by (simp add: strncpy_units_def Let_def)
  show ?thesis
  proof (cases "length u < MAX_UNITS_LENGTH")
    case True
    then obtain n where "MAX_UNITS_LENGTH - length u = Suc n" by (metis Suc_diff_Suc)
    then show ?thesis using True unfolding e get_cstring_chars [OF c] by (simp add: units_read_def)
  next
    case False
    then show ?thesis using assms(2) unfolding e get_cstring_chars [OF c] by (simp add: units_read_def)
  qed
qed

definition put_variable :: "tree_variable \<Rightarrow> (string \<times> (string \<times> ptype)) list \<Rightarrow> (string \<times> (string \<times> ptype)) list" where
  "put_variable v vs = (case v of (nm, x, units) \<Rightarrow> smap_put nm (units_read units nm, x) vs)"

lemma variable_parts:
  "variable_bytes env (nm, x, u) = put64 (fe_bits env x) @ strncpy_units u @ put_cstring nm"
  "put_variable (nm, x, u) vs = smap_put nm (units_read u nm, x) vs"
  by (simp_all add: variable_bytes_def put_variable_def)

lemma define_variables_spec:
  assumes "\<forall>(nm, x, u) \<in> set vars. c_string nm \<and> c_string u \<and> f64_value (fe_bits env x) = x"
  shows "define_variables (length vars) (concat (map (variable_bytes env) vars) @ r) vs = Some (fold put_variable vars vs)"
  using assms
proof (induction vars arbitrary: vs)
  case (Cons v vars)
  obtain nm x u where v: "v = (nm, x, u)" by (cases v)
  let ?r = "concat (map (variable_bytes env) vars) @ r"
  have c: "c_string nm" "c_string u" "f64_value (fe_bits env x) = x" using Cons.prems v by auto
  obtain t where t: "get_cstring (strncpy_units u @ put_cstring nm @ ?r) = Some (units_read u nm, t)"
    using get_strncpy_units [OF c(2,1), of ?r] by auto
  have "get_cstring (drop (8 + MAX_UNITS_LENGTH) (variable_bytes env v @ ?r)) = Some (nm, ?r)"
    using c(1) by (simp add: v variable_parts MAX_UNITS_LENGTH_def)
  then have "define_variables (Suc (length vars)) (variable_bytes env v @ ?r) vs =
      define_variables (length vars) ?r (put_variable v vs)"
    using c(3) t by (simp add: v variable_parts)
  then show ?case using Cons.IH Cons.prems by simp
qed simp

text \<open>Variable values survive the FRIB format, and units of fewer than 32 characters.\<close>

lemma frib_variables_roundtrip:
  assumes "\<forall>(nm, x, u) \<in> set vars. c_string nm \<and> c_string u \<and> f64_value (fe_bits env x) = x"
    "length vars < 2 ^ 32" "\<And>body. item_layout env VARIABLE_VALUES body" "distinct (map fst vars)" "(nm, x, u) \<in> set vars"
  shows "\<exists>it d'. writeVariableDefs env vars f = write_item it f \<and> pd_operator it d = Some (d', True) \<and>
    getVariableDefinition nm d' = Some (if length u < MAX_UNITS_LENGTH then u else take MAX_UNITS_LENGTH u @ nm, x)"
proof -
  let ?body = "put32 (of_nat (length vars)) @ concat (map (variable_bytes env) vars)"
  let ?d' = "d\<lparr> pd_vars := fold put_variable vars (pd_vars d) \<rparr>"
  have n: "unat (of_nat (length vars) :: u32) = length vars" using assms(2) by (simp add: unat_of_nat)
  have "pd_operator (fe_item env VARIABLE_VALUES ?body) d = Some (?d', True)"
    using item_layoutE [OF assms(3)] define_variables_spec [OF assms(1), of "[]"]
    by (simp add: pd_operator_def processVariableDefs_def n)
  moreover have "writeVariableDefs env vars f = write_item (fe_item env VARIABLE_VALUES ?body) f"
    by (simp add: writeVariableDefs_def)
  moreover have "smap_get (fold put_variable vars vs) nm = Some (units_read u nm, x)" for vs
    using assms(4,5)
  proof (induction vars arbitrary: vs)
    case (Cons v vars)
    show ?case
    proof (cases "v = (nm, x, u)")
      case True
      have keep: "nm \<notin> fst ` set vs' \<Longrightarrow> smap_get (fold put_variable vs' m) nm = smap_get m nm" for vs' m
        by (induction vs' arbitrary: m) (auto simp: put_variable_def)
      show ?thesis using Cons.prems True by (simp add: keep variable_parts)
    qed (use Cons in auto)
  qed simp
  ultimately show ?thesis by (auto simp: getVariableDefinition_def units_read_def)
qed


definition empty_world :: tree_world where
  "empty_world = \<lparr> tw_api = new_api, tw_event = None, tw_objs = [], tw_registry = [], tw_strict = False \<rparr>"

theorem frib_definitions_roundtrip_witness:
  "\<exists>it d' q p. pd_operator it (new_param_decoder 0 empty_world ()) = Some (d', True) \<and>
     pd_map d' ! 3 = Some q \<and> find_param (pd_world d') ''a'' = Some p \<and> bound q (pa_number p) (pd_world d')"
proof -
  let ?d = "new_param_decoder 0 empty_world ()"
  have "pd_ok ?d" using new_api_facts(1)
    by (simp add: pd_ok_def tree_ok_def new_param_decoder_def empty_world_def obj_of_def isRegistered_def)
  moreover have "length (world_params (pd_world ?d)) + length (tw_registry (pd_world ?d)) + 2 * length [''a''] < 2 ^ 32"
    using new_api_facts(5) by (simp add: new_param_decoder_def empty_world_def world_params_def)
  ultimately obtain it d' where "pd_operator it ?d = Some (d', True)"
    "\<forall>k < length [''a'']. \<exists>q p. unat ([3 :: u32] ! k) < length (pd_map d') \<and> pd_map d' ! unat ([3 :: u32] ! k) = Some q \<and>
       find_param (pd_world d') ([''a''] ! k) = Some p \<and> bound q (pa_number p) (pd_world d')"
    using frib_definitions_roundtrip [OF _ _ _ _ _ demo_layout, of ?d "[3]" "[''a'']" "\<lparr> ff_trigger = 0, ff_ids = [], ff_file = [] \<rparr>"] by (auto simp: c_string_def)
  then show ?thesis by auto
qed

end
