(* ===== verification/Xdr.thy ===== *)
theory Xdr
  imports Bytes
begin

text \<open>
  The XDR streams of the filter files: CXdrOutputStream (src/main/Core/CXdrOutputStream.cpp),
  which collects items in a buffer and writes it as blocks of fixed size that start with the
  number of bytes used, and CXdrMemInputStream over CXdrInputStream (CXdrMemInputStream.cpp,
  CXdrInputStream.cpp), which reads one such block.  The XDR library is an argument; what
  is relied on of it, RFC 4506 for the types used, is stated with the round trips.
\<close>

subsection \<open>The XDR library\<close>

text \<open>
  Encodings of an int, a double by its bit pattern and a C string, and what is left in the
  buffer of an encoding that does not fit the room there is.  The decoders return the value,
  unless they fail, and how far they moved.
\<close>

record xdr_lib =
  xl_int :: "u32 \<Rightarrow> u8 list"
  xl_double :: "u64 \<Rightarrow> u8 list"
  xl_string :: "string \<Rightarrow> u8 list"
  xl_partial :: "nat \<Rightarrow> u8 list \<Rightarrow> u8 list"
  xl_get_int :: "u8 list \<Rightarrow> u32 option \<times> nat"
  xl_get_float :: "u8 list \<Rightarrow> u32 option \<times> nat"
  xl_get_double :: "u8 list \<Rightarrow> u64 option \<times> nat"
  xl_get_string :: "nat \<Rightarrow> u8 list \<Rightarrow> string option \<times> nat"

definition c_str :: "string \<Rightarrow> string" where
  "c_str s = takeWhile (\<lambda>c. c \<noteq> CHR 0x00) s"

lemma c_str_self [simp]: "c_string s \<Longrightarrow> c_str s = s"
  by (auto simp: c_str_def c_string_def takeWhile_eq_all_conv)

subsection \<open>Output streams\<close>

text \<open>
  xo_file is what write has been given and accepted; xo_write tells how many bytes the n-th
  call of write takes, None being an error.
\<close>

record xdr_out =
  xo_size :: nat
  xo_buffer :: "u8 list"
  xo_pos :: nat
  xo_open :: bool
  xo_freed :: bool
  xo_blocks :: nat
  xo_file :: "u8 list"
  xo_calls :: nat
  xo_write :: "nat \<Rightarrow> nat option"

definition new_xdr_out :: "nat \<Rightarrow> u8 list \<Rightarrow> (nat \<Rightarrow> nat option) \<Rightarrow> xdr_out" where
  "new_xdr_out n junk w =
     \<lparr> xo_size = n, xo_buffer = take n (junk @ replicate n 0), xo_pos = 0, xo_open = False, xo_freed = False,
       xo_blocks = 0, xo_file = [], xo_calls = 0, xo_write = w \<rparr>"

datatype xdr_error = ConverterFailed nat | WriteFailed | StreamOpen | StreamClosed | OpenFailed

type_synonym xdr_result = "(xdr_error \<times> xdr_out) + xdr_out"

definition bind_xdr :: "xdr_result \<Rightarrow> (xdr_out \<Rightarrow> xdr_result) \<Rightarrow> xdr_result" where
  "bind_xdr r f = (case r of Inl e \<Rightarrow> Inl e | Inr s \<Rightarrow> f s)"

lemma bind_xdr_simps [simp]: "bind_xdr (Inl e) f = Inl e" "bind_xdr (Inr s) f = f s"
  by (simp_all add: bind_xdr_def)

text \<open>A converter at work on the memory stream over the buffer.\<close>

definition emit :: "xdr_lib \<Rightarrow> u8 list \<Rightarrow> xdr_out \<Rightarrow> xdr_out \<times> bool" where
  "emit l enc s =
     (let room = xo_size s - xo_pos s; ok = length enc \<le> room;
          bs = (if ok then enc else xl_partial l room enc); p = xo_pos s
      in (s\<lparr> xo_buffer := take p (xo_buffer s) @ bs @ drop (p + length bs) (xo_buffer s),
             xo_pos := p + length bs \<rparr>, ok))"

text \<open>Position and size are compared as unsigned ints.\<close>

definition Test :: "nat \<Rightarrow> xdr_out \<Rightarrow> bool" where
  "Test nBytes s \<longleftrightarrow> (xo_pos s + nBytes * 2) mod 2 ^ 32 < xo_size s"

definition Flush :: "xdr_lib \<Rightarrow> xdr_out \<Rightarrow> xdr_result" where
  "Flush l s =
     (let hdr = xl_int l (of_nat (xo_pos s));
          s1 = fst (emit l hdr (s\<lparr> xo_pos := 0 \<rparr>));
          s2 = s1\<lparr> xo_calls := Suc (xo_calls s1) \<rparr>
      in case xo_write s (xo_calls s) of
           None \<Rightarrow> Inl (WriteFailed, s2)
         | Some n \<Rightarrow>
             (let s3 = s2\<lparr> xo_file := xo_file s2 @ take n (xo_buffer s2), xo_pos := 0 \<rparr>;
                  s4 = fst (emit l hdr s3)
              in Inr (s4\<lparr> xo_blocks := Suc (xo_blocks s4) \<rparr>)))"

definition Require :: "xdr_lib \<Rightarrow> nat \<Rightarrow> xdr_out \<Rightarrow> xdr_result" where
  "Require l nBytes s = (if \<not> Test nBytes s then Flush l s else Inr s)"

definition Put :: "xdr_lib \<Rightarrow> u8 list \<Rightarrow> xdr_out \<Rightarrow> xdr_result" where
  "Put l enc s =
     (let (s', status) = emit l enc s
      in if \<not> status then Inl (ConverterFailed (xo_pos s'), s') else Require l 1 s')"

definition put_int :: "xdr_lib \<Rightarrow> u32 \<Rightarrow> xdr_out \<Rightarrow> xdr_result" where
  "put_int l n = Put l (xl_int l n)"

definition put_double :: "xdr_lib \<Rightarrow> u64 \<Rightarrow> xdr_out \<Rightarrow> xdr_result" where
  "put_double l d = Put l (xl_double l d)"

definition put_string :: "xdr_lib \<Rightarrow> string \<Rightarrow> xdr_out \<Rightarrow> xdr_result" where
  "put_string l c s =
     bind_xdr (Require l (length (c_str c) + 1) s) (Put l (xl_string l (c_str c)))"

text \<open>Open: the argument tells whether the system could open the file.\<close>

definition xdr_Open :: "xdr_lib \<Rightarrow> bool \<Rightarrow> xdr_out \<Rightarrow> xdr_result" where
  "xdr_Open l opens s =
     (if xo_open s then Inl (StreamOpen, s)
      else if \<not> opens then Inl (OpenFailed, s\<lparr> xo_freed := True \<rparr>)
      else Inr (fst (emit l (xl_int l 0) (s\<lparr> xo_file := [], xo_open := True, xo_pos := 0 \<rparr>))))"

definition xdr_Close :: "xdr_lib \<Rightarrow> xdr_out \<Rightarrow> xdr_result" where
  "xdr_Close l s =
     (if \<not> xo_open s then Inl (StreamClosed, s)
      else bind_xdr (Flush l s) (\<lambda>s'. Inr (s'\<lparr> xo_open := False \<rparr>)))"

text \<open>The destructor: None is a second delete of the buffer; otherwise, what the file holds.\<close>

definition xdr_delete :: "xdr_lib \<Rightarrow> xdr_out \<Rightarrow> u8 list option" where
  "xdr_delete l s =
     (let s' = (if xo_open s then (case xdr_Close l s of Inl (_, s') \<Rightarrow> s' | Inr s' \<Rightarrow> s') else s)
      in if xo_freed s' then None else Some (xo_file s'))"

text \<open>The size of an item: its encoding in a buffer of its own.\<close>

definition sizeofItem :: "xdr_lib \<Rightarrow> u8 list \<Rightarrow> xdr_out \<Rightarrow> nat" where
  "sizeofItem l enc s =
     (if length enc \<le> xo_size s then length enc else length (xl_partial l (xo_size s) enc))"

definition sizeofInt :: "xdr_lib \<Rightarrow> u32 \<Rightarrow> xdr_out \<Rightarrow> nat" where
  "sizeofInt l junk = sizeofItem l (xl_int l junk)"

definition sizeofDouble :: "xdr_lib \<Rightarrow> u64 \<Rightarrow> xdr_out \<Rightarrow> nat" where
  "sizeofDouble l junk = sizeofItem l (xl_double l junk)"

definition sizeofString :: "xdr_lib \<Rightarrow> string \<Rightarrow> xdr_out \<Rightarrow> nat" where
  "sizeofString l s = sizeofItem l (xl_string l (c_str s))"

subsection \<open>Input streams\<close>

text \<open>m_nSize is not initialized: its first value is an argument.\<close>

record xdr_in =
  xi_source :: "u8 list"
  xi_buffer :: "u8 list"
  xi_pos :: nat
  xi_size :: i32
  xi_open :: bool
  xi_read :: bool

definition new_xdr_in :: "u8 list \<Rightarrow> u8 list \<Rightarrow> i32 \<Rightarrow> xdr_in" where
  "new_xdr_in source junk n =
     \<lparr> xi_source = source, xi_buffer = junk, xi_pos = 0, xi_size = n, xi_open = False, xi_read = False \<rparr>"

definition xi_Read :: "xdr_in \<Rightarrow> xdr_in \<times> nat" where
  "xi_Read s =
     (if \<not> xi_read s then (s\<lparr> xi_buffer := xi_source s, xi_read := True \<rparr>, length (xi_source s)) else (s, 0))"

definition DoRead :: "xdr_lib \<Rightarrow> xdr_in \<Rightarrow> xdr_in" where
  "DoRead l s =
     (let (s1, nRead) = xi_Read s;
          s2 = (if nRead = 0 then s1\<lparr> xi_open := False \<rparr> else s1);
          (v, n) = xl_get_int l (xi_buffer s2)
      in s2\<lparr> xi_pos := n, xi_size := (case v of None \<Rightarrow> xi_size s2 | Some w \<Rightarrow> w) \<rparr>)"

definition xi_Connect :: "xdr_lib \<Rightarrow> xdr_in \<Rightarrow> xdr_in" where
  "xi_Connect l s = DoRead l (s\<lparr> xi_open := True \<rparr>)"

definition ConditionalRead :: "xdr_lib \<Rightarrow> xdr_in \<Rightarrow> xdr_in" where
  "ConditionalRead l s = (if sint (xi_size s) \<le> int (xi_pos s) then DoRead l s else s)"

text \<open>Get: None is the exception of a stream that is not open.\<close>

definition xi_Get :: "xdr_lib \<Rightarrow> (u8 list \<Rightarrow> 'v option \<times> nat) \<Rightarrow> xdr_in \<Rightarrow> ('v option \<times> xdr_in) option" where
  "xi_Get l cvt s =
     (if \<not> xi_open s then None
      else (let (v, n) = cvt (drop (xi_pos s) (xi_buffer s))
            in Some (v, ConditionalRead l (s\<lparr> xi_pos := xi_pos s + n \<rparr>))))"

text \<open>Strings do not look whether the stream is open; a string that cannot be read is empty.\<close>

definition xi_string :: "xdr_lib \<Rightarrow> xdr_in \<Rightarrow> string \<times> xdr_in" where
  "xi_string l s =
     (let (v, n) = xl_get_string l (length (xi_source s)) (drop (xi_pos s) (xi_buffer s))
      in (case v of None \<Rightarrow> [] | Some t \<Rightarrow> c_str t, ConditionalRead l (s\<lparr> xi_pos := xi_pos s + n \<rparr>)))"

text \<open>n items in a row; a value that cannot be read is indeterminate (None in the list).\<close>

fun xi_items :: "xdr_lib \<Rightarrow> (u8 list \<Rightarrow> 'v option \<times> nat) \<Rightarrow> nat \<Rightarrow> xdr_in \<Rightarrow> ('v option list \<times> xdr_in) option" where
  "xi_items l cvt 0 s = Some ([], s)"
| "xi_items l cvt (Suc n) s = (case xi_Get l cvt s of
      None \<Rightarrow> None
    | Some (v, s') \<Rightarrow> map_option (\<lambda>(vs, s''). (v # vs, s'')) (xi_items l cvt n s'))"

end
