(* ===== verification/XdrFilter.thy ===== *)
theory XdrFilter
  imports Xdr Events
begin

text \<open>
  CXdrFilterOutputStage (src/main/Core/CXdrFilterOutputStage.cpp): the output stage of an
  event filter that writes XDR files.  Parameter names go to header blocks; an event is the
  string event, a bit mask of the parameters it has and their values.  The bit pattern of a
  double is an argument.
\<close>

subsection \<open>State\<close>

text \<open>xs_files are the contents of the files of the streams deleted so far.\<close>

record xdr_stage =
  xs_stream :: "xdr_out option"
  xs_ids :: "u32 list"
  xs_files :: "u8 list list"

definition new_xdr_stage :: xdr_stage where
  "new_xdr_stage = \<lparr> xs_stream = None, xs_ids = [], xs_files = [] \<rparr>"

datatype stage_error = Errno | XdrError xdr_error

text \<open>How a call ends; Exits is exit(EXIT_FAILURE), Running a loop out of fuel.\<close>

datatype 'a stage_result = StOk 'a | StThrow stage_error 'a | Exits | StUndefined | StRunning

definition xdr_buffersize :: nat where "xdr_buffersize = 8192"

definition xs_open :: "xdr_lib \<Rightarrow> bool \<Rightarrow> u8 list \<Rightarrow> (nat \<Rightarrow> nat option) \<Rightarrow> xdr_stage \<Rightarrow> xdr_stage stage_result" where
  "xs_open l opens junk w st = (case xs_stream st of
      Some _ \<Rightarrow> StThrow Errno st
    | None \<Rightarrow> (case xdr_Open l opens (new_xdr_out xdr_buffersize junk w) of
         Inl (e, _) \<Rightarrow> StThrow (XdrError e) st
       | Inr s \<Rightarrow> StOk (st\<lparr> xs_stream := Some s \<rparr>)))"

definition xs_close :: "xdr_lib \<Rightarrow> xdr_stage \<Rightarrow> xdr_stage stage_result" where
  "xs_close l st = (case xs_stream st of
      None \<Rightarrow> StThrow Errno st
    | Some s \<Rightarrow> (case xdr_delete l s of
         None \<Rightarrow> StUndefined
       | Some f \<Rightarrow> StOk (st\<lparr> xs_stream := None, xs_files := xs_files st @ [f] \<rparr>)))"

subsection \<open>Describing the events\<close>

text \<open>
  The loop that counts how many names fit: the size wanted so far and the number of names.
\<close>

fun fit_names :: "xdr_out \<Rightarrow> string list \<Rightarrow> nat \<Rightarrow> nat \<Rightarrow> nat \<times> nat" where
  "fit_names s [] nBytes nFit = (nBytes, nFit)"
| "fit_names s (nm # nms) nBytes nFit =
     (if Test nBytes s then fit_names s nms (nBytes + length nm) (Suc nFit) else (nBytes, nFit))"

fun put_strings :: "xdr_lib \<Rightarrow> string list \<Rightarrow> xdr_out \<Rightarrow> xdr_result" where
  "put_strings l [] s = Inr s"
| "put_strings l (nm # nms) s = bind_xdr (put_string l nm s) (put_strings l nms)"

definition write_header :: "xdr_lib \<Rightarrow> u32 \<Rightarrow> string list \<Rightarrow> xdr_out \<Rightarrow> xdr_result" where
  "write_header l nFit names s =
     bind_xdr (put_string l ''header'' s) (\<lambda>s1.
     bind_xdr (put_int l nFit s1) (\<lambda>s2.
     bind_xdr (put_strings l names s2) (Flush l)))"

text \<open>
  One header block per turn.  offset is where its names start, pc the count of names left;
  taking back the last name may take back one of the block before, or none there is.
\<close>

fun describe_loop ::
  "nat \<Rightarrow> xdr_lib \<Rightarrow> string list \<Rightarrow> nat \<Rightarrow> int \<Rightarrow> xdr_out \<Rightarrow> xdr_out stage_result" where
  "describe_loop 0 l names offset pc s = StRunning"
| "describe_loop (Suc k) l names offset pc s =
     (if pc = 0 then StOk s
      else (let (nBytes, fit) = fit_names s (drop offset names) (4 + length ''header'') 0;
                full = \<not> Test nBytes s; idx = offset + fit
            in if full \<and> idx = 0 then StUndefined
               else (let idx' = (if full then idx - 1 else idx); nFit = (if full then int fit - 1 else int fit)
                     in if nFit = 0 then describe_loop k l names idx' pc s
                        else (case write_header l (word_of_int nFit) (take (idx' - offset) (drop offset names)) s of
                                Inl (e, s') \<Rightarrow> StThrow (XdrError e) s'
                              | Inr s' \<Rightarrow> describe_loop k l names idx' (pc - nFit) s'))))"

definition xs_DescribeEvent ::
  "nat \<Rightarrow> xdr_lib \<Rightarrow> string list \<Rightarrow> u32 list \<Rightarrow> xdr_stage \<Rightarrow> xdr_stage stage_result" where
  "xs_DescribeEvent k l names ids st = (case xs_stream st of
      None \<Rightarrow> StThrow Errno st
    | Some s \<Rightarrow>
        (let st' = st\<lparr> xs_ids := ids \<rparr>
         in case describe_loop k l names 0 (int (length names)) s of
              StOk s' \<Rightarrow> StOk (st'\<lparr> xs_stream := Some s' \<rparr>)
            | StThrow e s' \<Rightarrow> StThrow e (st'\<lparr> xs_stream := Some s' \<rparr>)
            | Exits \<Rightarrow> Exits | StUndefined \<Rightarrow> StUndefined | StRunning \<Rightarrow> StRunning))"

subsection \<open>Writing an event\<close>

definition setBit :: "u32 list \<Rightarrow> nat \<Rightarrow> u32 list" where
  "setBit bits offset = bits[offset div 32 := or (bits ! (offset div 32)) (push_bit (offset mod 32) 1)]"

text \<open>(id < event.size()) && event[id].isValid(); the comparison is unsigned.\<close>

definition has_valid :: "u32 \<Rightarrow> event \<Rightarrow> (event \<times> bool) option" where
  "has_valid i e = (if i < ev_size e then ev_valid_at i e else Some (e, False))"

fun mark_valid :: "nat \<Rightarrow> u32 list \<Rightarrow> event \<Rightarrow> u32 list \<Rightarrow> nat \<Rightarrow> (event \<times> u32 list \<times> nat) option" where
  "mark_valid i [] e bits nValid = Some (e, bits, nValid)"
| "mark_valid i (p # ps) e bits nValid = (case has_valid p e of
      None \<Rightarrow> None
    | Some (e', b) \<Rightarrow>
        (if b then mark_valid (Suc i) ps e' (setBit bits i) (Suc nValid) else mark_valid (Suc i) ps e' bits nValid))"

fun put_ints :: "xdr_lib \<Rightarrow> u32 list \<Rightarrow> xdr_out \<Rightarrow> xdr_result" where
  "put_ints l [] s = Inr s"
| "put_ints l (n # ns) s = bind_xdr (put_int l n s) (put_ints l ns)"

text \<open>None is an access outside the event, or a value that is not valid after all.\<close>

fun write_values :: "xdr_lib \<Rightarrow> (ptype \<Rightarrow> u64) \<Rightarrow> u32 list \<Rightarrow> event \<Rightarrow> xdr_out \<Rightarrow> (event \<times> xdr_result) option" where
  "write_values l bits [] e s = Some (e, Inr s)"
| "write_values l bits (p # ps) e s = (case has_valid p e of
      None \<Rightarrow> None
    | Some (e', False) \<Rightarrow> write_values l bits ps e' s
    | Some (e', True) \<Rightarrow> (case ev_get p e' of
         Some (e'', Inr (Some v)) \<Rightarrow> (case put_double l (bits v) s of
            Inl x \<Rightarrow> Some (e'', Inl x)
          | Inr s' \<Rightarrow> write_values l bits ps e'' s')
       | _ \<Rightarrow> None))"

definition mask_words :: "nat \<Rightarrow> nat" where
  "mask_words n = (n + 4 * 8 - 1) div (4 * 8)"

text \<open>The whole handler; a sample of the items measured by sizeofInt and sizeofDouble is not initialized.\<close>

definition xs_event ::
  "xdr_lib \<Rightarrow> (ptype \<Rightarrow> u64) \<Rightarrow> event \<Rightarrow> xdr_stage \<Rightarrow> (xdr_stage \<times> event) stage_result" where
  "xs_event l bits e st = (case xs_stream st of
      None \<Rightarrow> Exits
    | Some s \<Rightarrow>
        (let nw = mask_words (length (xs_ids st))
         in case mark_valid 0 (xs_ids st) e (replicate nw 0) 0 of
              None \<Rightarrow> StUndefined
            | Some (e1, masks, nValid) \<Rightarrow>
                (if nValid = 0 then StOk (st, e1)
                 else (let need = nw * sizeofInt l 0 s + nValid * sizeofDouble l 0 s + sizeofString l ''event'' s
                       in if xo_size s < need then StOk (st, e1)
                          else (case bind_xdr (Require l need s) (\<lambda>s1.
                                     bind_xdr (put_string l ''event'' s1) (put_ints l masks)) of
                                  Inl _ \<Rightarrow> Exits
                                | Inr s2 \<Rightarrow> (case write_values l bits (xs_ids st) e1 s2 of
                                     None \<Rightarrow> StUndefined
                                   | Some (e2, Inl _) \<Rightarrow> Exits
                                   | Some (e2, Inr s3) \<Rightarrow> StOk (st\<lparr> xs_stream := Some s3 \<rparr>, e2)))))))"

end
