(* ===== verification/EventFilter.thy ===== *)
theory EventFilter
  imports XdrFilter SpecTclApi
begin

text \<open>
  Event filters: CEventFilter (src/main/Core/EventFilter.cpp), which describes a list of
  parameters to an output stage and hands it the events that meet a condition, and
  CGatedEventFilter (GatedEventFilter.cpp), whose condition is a gate.  The output stage
  (CFilterOutputStage.h) is a virtual interface: its state is of type 'o and its operations
  are a record; the XDR stage is one of them.
\<close>

subsection \<open>Output stages\<close>

record 'o stage_ops =
  so_open :: "string \<Rightarrow> 'o \<Rightarrow> 'o stage_result"
  so_close :: "'o \<Rightarrow> 'o stage_result"
  so_DescribeEvent :: "string list \<Rightarrow> u32 list \<Rightarrow> 'o \<Rightarrow> 'o stage_result"
  so_event :: "event \<Rightarrow> 'o \<Rightarrow> ('o \<times> event) stage_result"
  so_type :: "'o \<Rightarrow> string"

text \<open>The XDR stage; opens tells which files the system can open.\<close>

definition xdr_stage_ops ::
  "nat \<Rightarrow> xdr_lib \<Rightarrow> (ptype \<Rightarrow> u64) \<Rightarrow> (string \<Rightarrow> bool) \<Rightarrow> u8 list \<Rightarrow> (nat \<Rightarrow> nat option) \<Rightarrow> xdr_stage stage_ops" where
  "xdr_stage_ops k l bits opens junk w =
     \<lparr> so_open = (\<lambda>fn. xs_open l (opens fn) junk w), so_close = xs_close l,
       so_DescribeEvent = xs_DescribeEvent k l, so_event = xs_event l bits, so_type = (\<lambda>_. ''xdr'') \<rparr>"

subsection \<open>State and results\<close>

text \<open>
  ef_gate is the gate container of a gated filter, by name; ef_deleted the stages deleted
  when the format was changed, as they were.
\<close>

record 'o event_filter =
  ef_enabled :: bool
  ef_fileName :: string
  ef_names :: "string list"
  ef_ids :: "u32 list"
  ef_output :: "'o option"
  ef_gate :: "string option"
  ef_deleted :: "'o list"

datatype filter_error = NotSet | EnabledError | StageError stage_error | NoSuchId

datatype 'a fl_result = FlOk 'a | FlThrow filter_error 'a | FlExits | FlUndefined | FlRunning

primrec map_fl :: "('a \<Rightarrow> 'b) \<Rightarrow> 'a fl_result \<Rightarrow> 'b fl_result" where
  "map_fl f (FlOk x) = FlOk (f x)"
| "map_fl f (FlThrow e x) = FlThrow e (f x)"
| "map_fl f FlExits = FlExits"
| "map_fl f FlUndefined = FlUndefined"
| "map_fl f FlRunning = FlRunning"

primrec bind_fl :: "'a fl_result \<Rightarrow> ('a \<Rightarrow> 'a fl_result) \<Rightarrow> 'a fl_result" where
  "bind_fl (FlOk x) f = f x"
| "bind_fl (FlThrow e x) f = FlThrow e x"
| "bind_fl FlExits f = FlExits"
| "bind_fl FlUndefined f = FlUndefined"
| "bind_fl FlRunning f = FlRunning"

primrec of_stage :: "('o \<Rightarrow> 'a) \<Rightarrow> 'o stage_result \<Rightarrow> 'a fl_result" where
  "of_stage f (StOk x) = FlOk (f x)"
| "of_stage f (StThrow e x) = FlThrow (StageError e) (f x)"
| "of_stage f Exits = FlExits"
| "of_stage f StUndefined = FlUndefined"
| "of_stage f StRunning = FlRunning"

text \<open>home is the environment variable HOME.\<close>

definition DefaultFilterFilename :: "string option \<Rightarrow> string" where
  "DefaultFilterFilename home = (case home of Some h \<Rightarrow> h | None \<Rightarrow> ''.'') @ ''/filter.flt''"

definition new_event_filter :: "string option \<Rightarrow> string option \<Rightarrow> 'o event_filter" where
  "new_event_filter home gate =
     \<lparr> ef_enabled = False, ef_fileName = DefaultFilterFilename home, ef_names = [], ef_ids = [],
       ef_output = None, ef_gate = gate, ef_deleted = [] \<rparr>"

definition setParameterNames :: "string list \<Rightarrow> 'o event_filter \<Rightarrow> 'o event_filter" where
  "setParameterNames names f = f\<lparr> ef_names := names \<rparr>"

definition setGateContainer :: "string \<Rightarrow> 'o event_filter \<Rightarrow> 'o event_filter" where
  "setGateContainer g f = f\<lparr> ef_gate := Some g \<rparr>"

text \<open>The container's name and number; a container is never removed from its dictionary.\<close>

definition getGateName :: "'o event_filter \<Rightarrow> string" where
  "getGateName f = (case ef_gate f of Some g \<Rightarrow> g | None \<Rightarrow> ''-not yet defined-'')"

definition getGateID :: "gate_store \<Rightarrow> 'o event_filter \<Rightarrow> i32" where
  "getGateID st f = (case Option.bind (ef_gate f) (smap_get st) of Some c \<Rightarrow> gc_number c | None \<Rightarrow> - 1)"

definition outputFormat :: "'o stage_ops \<Rightarrow> 'o event_filter \<Rightarrow> string" where
  "outputFormat ops f = (case ef_output f of Some out \<Rightarrow> so_type ops out | None \<Rightarrow> ''--'')"

subsection \<open>Enabling and disabling\<close>

definition ef_Disable :: "'o stage_ops \<Rightarrow> 'o event_filter \<Rightarrow> 'o event_filter fl_result" where
  "ef_Disable ops f = (case ef_output f of
      None \<Rightarrow> FlThrow NotSet f
    | Some out \<Rightarrow>
        bind_fl (of_stage (\<lambda>out'. f\<lparr> ef_output := Some out' \<rparr>) (so_close ops out))
          (\<lambda>f'. FlOk (f'\<lparr> ef_enabled := False \<rparr>)))"

text \<open>pnum is the histogrammer's number of a parameter name.  Names without one are passed over.\<close>

fun name_ids :: "(string \<Rightarrow> u32 option) \<Rightarrow> string list \<Rightarrow> u32 list" where
  "name_ids pnum [] = []"
| "name_ids pnum (nm # nms) = (case pnum nm of Some n \<Rightarrow> n # name_ids pnum nms | None \<Rightarrow> name_ids pnum nms)"

definition NamesToIds :: "(string \<Rightarrow> u32 option) \<Rightarrow> 'o event_filter \<Rightarrow> 'o event_filter" where
  "NamesToIds pnum f = f\<lparr> ef_ids := name_ids pnum (ef_names f) \<rparr>"

fun IdsToNames :: "(u32 \<Rightarrow> string option) \<Rightarrow> u32 list \<Rightarrow> filter_error + string list" where
  "IdsToNames pname [] = Inr []"
| "IdsToNames pname (i # is) = (case pname i of
      None \<Rightarrow> Inl NoSuchId
    | Some nm \<Rightarrow> map_sum id (\<lambda>nms. nm # nms) (IdsToNames pname is))"

definition on_output :: "('o \<Rightarrow> 'o stage_result) \<Rightarrow> 'o event_filter \<Rightarrow> 'o event_filter fl_result" where
  "on_output g f = (case ef_output f of
      None \<Rightarrow> FlUndefined
    | Some out \<Rightarrow> of_stage (\<lambda>out'. f\<lparr> ef_output := Some out' \<rparr>) (g out))"

definition ef_Enable :: "'o stage_ops \<Rightarrow> (string \<Rightarrow> u32 option) \<Rightarrow> 'o event_filter \<Rightarrow> 'o event_filter fl_result" where
  "ef_Enable ops pnum f =
     (if ef_output f = None then FlThrow NotSet f
      else bind_fl (if ef_enabled f then ef_Disable ops f else FlOk f) (\<lambda>f1.
           bind_fl (on_output (so_open ops (ef_fileName f1)) (NamesToIds pnum f1)) (\<lambda>f2.
           bind_fl (on_output (so_DescribeEvent ops (ef_names f2) (ef_ids f2)) f2) (\<lambda>f3.
           FlOk (f3\<lparr> ef_enabled := True \<rparr>)))))"

definition setFileName :: "'o stage_ops \<Rightarrow> string \<Rightarrow> 'o event_filter \<Rightarrow> 'o event_filter fl_result" where
  "setFileName ops fn f =
     bind_fl (if ef_enabled f then ef_Disable ops f else FlOk f) (\<lambda>f'. FlOk (f'\<lparr> ef_fileName := fn \<rparr>))"

text \<open>onAttach, called on the new format, is not overridden by any stage: a null format is undefined.\<close>

definition setOutputFormat :: "'o option \<Rightarrow> 'o event_filter \<Rightarrow> 'o event_filter fl_result" where
  "setOutputFormat format f =
     (if ef_enabled f then FlThrow EnabledError f
      else (case format of
              None \<Rightarrow> FlUndefined
            | Some out \<Rightarrow> FlOk (f\<lparr> ef_output := Some out,
                ef_deleted := ef_deleted f @ (case ef_output f of None \<Rightarrow> [] | Some old \<Rightarrow> [old]) \<rparr>)))"

subsection \<open>Filtering\<close>

text \<open>
  CheckCondition of a gated filter: None when the evaluation of the gate does not end
  within the fuel, or is undefined.
\<close>

definition CheckCondition :: "nat \<Rightarrow> 'o event_filter \<Rightarrow> eval_state \<Rightarrow> (bool \<times> eval_state) option" where
  "CheckCondition k f s = (case ef_gate f of
      None \<Rightarrow> Some (False, s)
    | Some g \<Rightarrow> Option.bind (RecursiveReset k g (fst s)) (\<lambda>st. gate_op k g (st, snd s)))"

type_synonym 'o filtering = "gate_store \<times> event \<times> 'o event_filter"

definition filter_event :: "'o stage_ops \<Rightarrow> nat \<Rightarrow> gate_store \<Rightarrow> event \<Rightarrow> 'o event_filter \<Rightarrow> 'o filtering fl_result" where
  "filter_event ops k st e f = (case CheckCondition k f (st, e) of
      None \<Rightarrow> FlUndefined
    | Some (False, (st', e')) \<Rightarrow> FlOk (st', e', f)
    | Some (True, (st', e')) \<Rightarrow> (case ef_output f of
         None \<Rightarrow> FlUndefined
       | Some out \<Rightarrow> (case so_event ops e' out of
            StOk (out', e'') \<Rightarrow> FlOk (st', e'', f\<lparr> ef_output := Some out' \<rparr>)
          | StThrow x (out', e'') \<Rightarrow> FlThrow (StageError x) (st', e'', f\<lparr> ef_output := Some out' \<rparr>)
          | Exits \<Rightarrow> FlExits | StUndefined \<Rightarrow> FlUndefined | StRunning \<Rightarrow> FlRunning)))"

text \<open>
  operator() on an event list: its events up to the first null pointer, which an exception
  leaves as far as they have been dealt with.
\<close>

type_synonym 'o list_filtering = "gate_store \<times> event option list \<times> 'o event_filter"

fun filter_list :: "'o stage_ops \<Rightarrow> nat \<Rightarrow> gate_store \<Rightarrow> event option list \<Rightarrow> 'o event_filter \<Rightarrow> 'o list_filtering fl_result" where
  "filter_list ops k st [] f = FlOk (st, [], f)"
| "filter_list ops k st (None # es) f = FlOk (st, None # es, f)"
| "filter_list ops k st (Some e # es) f = (case filter_event ops k st e f of
      FlOk (st', e', f') \<Rightarrow> map_fl (\<lambda>(st'', es', f''). (st'', Some e' # es', f'')) (filter_list ops k st' es f')
    | FlThrow x (st', e', f') \<Rightarrow> FlThrow x (st', Some e' # es, f')
    | FlExits \<Rightarrow> FlExits | FlUndefined \<Rightarrow> FlUndefined | FlRunning \<Rightarrow> FlRunning)"

definition filter_events :: "'o stage_ops \<Rightarrow> nat \<Rightarrow> gate_store \<Rightarrow> event option list \<Rightarrow> 'o event_filter \<Rightarrow> 'o list_filtering fl_result" where
  "filter_events ops k st es f = (if ef_enabled f then filter_list ops k st es f else FlOk (st, es, f))"

end
