(* ===== verification/FilterCommand.thy ===== *)
theory FilterCommand
  imports EventFilter Pipelines
begin

text \<open>
  The filter command (src/main/Core/FilterCommand.cpp), the filter dictionary
  (FilterDictionary.cpp) and the factory of output stages (CFilterOutputStageFactory.cpp).
  Filters are objects on a heap; the dictionary of the API and the event sink pipeline hold
  their addresses.  What depends on Tcl (splitting a list, tilde substitution, glob
  matching) is an argument.  The formatted result strings are left out: a command results in
  the descriptions of the filters it lists.
\<close>

subsection \<open>State\<close>

record 'o filter_session =
  fs_api :: api
  fs_sinks :: sink_pipeline
  fs_heap :: "nat \<Rightarrow> 'o event_filter option"
  fs_next :: nat

record 'o filter_env =
  fe_ops :: "'o stage_ops"
  fe_creators :: "(string \<Rightarrow> 'o option) list"
  fe_home :: "string option"
  fe_split :: "string \<Rightarrow> string list option"
  fe_tilde :: "string \<Rightarrow> string"
  fe_match :: "string \<Rightarrow> string \<Rightarrow> bool"

subsection \<open>The factory of output stages\<close>

fun create_stage :: "(string \<Rightarrow> 'o option) list \<Rightarrow> string \<Rightarrow> 'o option" where
  "create_stage [] ty = None"
| "create_stage (p # ps) ty = (case p ty of Some out \<Rightarrow> Some out | None \<Rightarrow> create_stage ps ty)"

definition register_creator :: "(string \<Rightarrow> 'o option) \<Rightarrow> (string \<Rightarrow> 'o option) list \<Rightarrow> (string \<Rightarrow> 'o option) list" where
  "register_creator creator creators = creators @ [creator]"

definition xdr_creator :: "string \<Rightarrow> xdr_stage option" where
  "xdr_creator ty = (if ty = ''xdr'' then Some new_xdr_stage else None)"

subsection \<open>Looking at filters\<close>

text \<open>What ListFilter formats: name, gate, file, parameters, whether enabled, format.\<close>

type_synonym filter_info = "string \<times> string \<times> string \<times> string list \<times> bool \<times> string"

definition ListFilter :: "'o filter_env \<Rightarrow> string \<Rightarrow> 'o event_filter \<Rightarrow> filter_info" where
  "ListFilter env nm f =
     (nm, getGateName f, ef_fileName f, ef_names f, ef_enabled f, outputFormat (fe_ops env) f)"

datatype 'a cmd_result = TclOk "filter_info list" 'a | TclError 'a

type_synonym 'o cmd_end = "'o filter_session cmd_result fl_result"

definition SinkName :: "string \<Rightarrow> string" where
  "SinkName nm = ''Filter::'' @ nm"

definition filter_pnum :: "'o filter_session \<Rightarrow> string \<Rightarrow> u32 option" where
  "filter_pnum s nm = map_option pa_number (api_FindParameter nm (fs_api s))"

definition store_filter :: "nat \<Rightarrow> 'o event_filter \<Rightarrow> 'o filter_session \<Rightarrow> 'o filter_session" where
  "store_filter p f s = s\<lparr> fs_heap := (fs_heap s)(p \<mapsto> f) \<rparr>"

text \<open>A filter's operation through its pointer; a pointer to a deleted filter is undefined.\<close>

definition on_filter ::
  "nat \<Rightarrow> ('o event_filter \<Rightarrow> 'o event_filter fl_result) \<Rightarrow> 'o filter_session \<Rightarrow> ('o event_filter \<Rightarrow> 'o filter_session \<Rightarrow> 'o cmd_end) \<Rightarrow> 'o cmd_end" where
  "on_filter p g s r = (case fs_heap s p of
      None \<Rightarrow> FlUndefined
    | Some f \<Rightarrow> (case g f of
         FlOk f' \<Rightarrow> r f' (store_filter p f' s)
       | FlThrow x f' \<Rightarrow> FlThrow x (TclError (store_filter p f' s))
       | FlExits \<Rightarrow> FlExits | FlUndefined \<Rightarrow> FlUndefined | FlRunning \<Rightarrow> FlRunning))"

subsection \<open>The subcommands\<close>

definition cmd_Create :: "'o filter_env \<Rightarrow> string list \<Rightarrow> 'o filter_session \<Rightarrow> 'o cmd_end" where
  "cmd_Create env args s = (case args of
      [nm, gate, pars] \<Rightarrow> (case fe_split env pars of
         None \<Rightarrow> FlOk (TclError s)
       | Some names \<Rightarrow>
           (if findFilter nm (fs_api s) \<noteq> None then FlOk (TclError s)
            else (case api_FindGate gate (fs_api s) of
                    None \<Rightarrow> FlOk (TclError s)
                  | Some _ \<Rightarrow>
                      (if list_ex (\<lambda>n. api_FindParameter n (fs_api s) = None) names then FlOk (TclError s)
                       else (case setOutputFormat (create_stage (fe_creators env) ''xdr'')
                                    (setParameterNames names (setGateContainer gate (new_event_filter (fe_home env) None))) of
                               FlOk f \<Rightarrow>
                                 (let p = fs_next s;
                                      s1 = s\<lparr> fs_heap := (fs_heap s)(p \<mapsto> f), fs_next := Suc p,
                                             fs_api := (fs_api s)\<lparr> api_filters := fst (Enter nm p (api_filters (fs_api s))) \<rparr> \<rparr>
                                  in (case AddEventSink 0 p (Some (SinkName nm)) (fs_sinks s1) of
                                        None \<Rightarrow> FlUndefined
                                      | Some sk \<Rightarrow> FlOk (TclOk [ListFilter env nm f] (s1\<lparr> fs_sinks := sk \<rparr>))))
                             | _ \<Rightarrow> FlUndefined)))))
    | _ \<Rightarrow> FlOk (TclError s))"

text \<open>
  RemoveEventSink may not find the filter, and then the filter is taken from the dictionary
  all the same.
\<close>

definition cmd_Delete :: "'o filter_env \<Rightarrow> string list \<Rightarrow> 'o filter_session \<Rightarrow> 'o cmd_end" where
  "cmd_Delete env args s = (case args of
      [nm] \<Rightarrow>
        (if findFilter nm (fs_api s) = None then FlOk (TclError s)
         else (let (sk, found) = RemoveEventSink (SinkName nm) (fs_sinks s);
                   s1 = s\<lparr> fs_sinks := sk \<rparr>
               in (case deleteFilter_name nm (fs_api s1) of
                     ApiOk a \<Rightarrow>
                       (let s2 = s1\<lparr> fs_api := a \<rparr>
                        in (case found of
                              None \<Rightarrow> FlOk (TclError s2)
                            | Some p \<Rightarrow> on_filter p
                                (\<lambda>f. if ef_enabled f then ef_Disable (fe_ops env) f else FlOk f) s2
                                (\<lambda>f s3. FlOk (TclOk [] (s3\<lparr> fs_heap := (fs_heap s3)(p := None) \<rparr>)))))
                   | _ \<Rightarrow> FlUndefined)))
    | _ \<Rightarrow> FlOk (TclError s))"

definition with_filter ::
  "string \<Rightarrow> 'o filter_session \<Rightarrow> (nat \<Rightarrow> 'o cmd_end) \<Rightarrow> 'o cmd_end" where
  "with_filter nm s r = (case findFilter nm (fs_api s) of None \<Rightarrow> FlOk (TclError s) | Some p \<Rightarrow> r p)"

definition cmd_Enable :: "'o filter_env \<Rightarrow> string list \<Rightarrow> 'o filter_session \<Rightarrow> 'o cmd_end" where
  "cmd_Enable env args s = (case args of
      [nm] \<Rightarrow> with_filter nm s (\<lambda>p. on_filter p (ef_Enable (fe_ops env) (filter_pnum s)) s
        (\<lambda>f s'. FlOk (if ef_enabled f then TclOk [ListFilter env nm f] s' else TclError s')))
    | _ \<Rightarrow> FlOk (TclError s))"

definition cmd_Disable :: "'o filter_env \<Rightarrow> string list \<Rightarrow> 'o filter_session \<Rightarrow> 'o cmd_end" where
  "cmd_Disable env args s = (case args of
      [nm] \<Rightarrow> with_filter nm s (\<lambda>p. on_filter p (ef_Disable (fe_ops env)) s
        (\<lambda>f s'. FlOk (if \<not> ef_enabled f then TclOk [ListFilter env nm f] s' else TclError s')))
    | _ \<Rightarrow> FlOk (TclError s))"

text \<open>Regate looks the gate up in the event sink, which it takes for a histogrammer.\<close>

definition cmd_Regate :: "'o filter_env \<Rightarrow> string list \<Rightarrow> 'o filter_session \<Rightarrow> 'o cmd_end" where
  "cmd_Regate env args s = (case args of
      [nm, gate] \<Rightarrow> with_filter nm s (\<lambda>p.
        if FindGate gate (api_hist (fs_api s)) = None then FlOk (TclError s)
        else on_filter p (\<lambda>f. FlOk (setGateContainer gate f)) s (\<lambda>f s'. FlOk (TclOk [] s')))
    | _ \<Rightarrow> FlOk (TclError s))"

definition cmd_File :: "'o filter_env \<Rightarrow> string list \<Rightarrow> 'o filter_session \<Rightarrow> 'o cmd_end" where
  "cmd_File env args s = (case args of
      [fn, nm] \<Rightarrow> with_filter nm s (\<lambda>p. on_filter p (setFileName (fe_ops env) (fe_tilde env fn)) s
        (\<lambda>f s'. FlOk (TclOk [ListFilter env nm f] s')))
    | _ \<Rightarrow> FlOk (TclError s))"

fun list_filters :: "'o filter_env \<Rightarrow> 'o filter_session \<Rightarrow> string \<Rightarrow> (string \<times> nat) list \<Rightarrow> filter_info list option" where
  "list_filters env s pat [] = Some []"
| "list_filters env s pat ((nm, p) # ps) =
     (if fe_match env pat nm then (case fs_heap s p of
         None \<Rightarrow> None
       | Some f \<Rightarrow> map_option (\<lambda>is. ListFilter env nm f # is) (list_filters env s pat ps))
      else list_filters env s pat ps)"

definition cmd_List :: "'o filter_env \<Rightarrow> string list \<Rightarrow> 'o filter_session \<Rightarrow> 'o cmd_end" where
  "cmd_List env args s =
     (if 1 < length args then FlOk (TclError s)
      else (case list_filters env s (case args of [] \<Rightarrow> ''*'' | a # _ \<Rightarrow> a) (d_map (api_filters (fs_api s))) of
              None \<Rightarrow> FlUndefined
            | Some is \<Rightarrow> FlOk (TclOk is s)))"

definition cmd_Format :: "'o filter_env \<Rightarrow> string list \<Rightarrow> 'o filter_session \<Rightarrow> 'o cmd_end" where
  "cmd_Format env args s = (case args of
      [_, nm, format] \<Rightarrow> with_filter nm s (\<lambda>p. case fs_heap s p of
         None \<Rightarrow> FlUndefined
       | Some f \<Rightarrow>
           (if ef_enabled f then FlOk (TclError s)
            else (case create_stage (fe_creators env) format of
                    None \<Rightarrow> FlOk (TclError s)
                  | Some out \<Rightarrow> on_filter p (setOutputFormat (Some out)) s (\<lambda>f s'. FlOk (TclOk [] s')))))
    | _ \<Rightarrow> FlOk (TclError s))"

text \<open>
  operator() on the words after the command's name; with a word that is no switch the
  command is a creation, and -format does not drop its switch.
\<close>

datatype eSwitches = keNew | keDelete | keEnable | keDisable | keRegate | keFile | keList | keFormat | keNotSwitch

definition Switches :: "(string \<times> eSwitches) list" where
  "Switches = [(''-new'', keNew), (''-delete'', keDelete), (''-enable'', keEnable), (''-disable'', keDisable),
     (''-regate'', keRegate), (''-file'', keFile), (''-list'', keList), (''-format'', keFormat)]"

fun match_switch :: "(string \<times> eSwitches) list \<Rightarrow> string \<Rightarrow> eSwitches" where
  "match_switch [] sw = keNotSwitch"
| "match_switch ((t, k) # tbl) sw = (if sw = t then k else match_switch tbl sw)"

definition filter_command :: "'o filter_env \<Rightarrow> string list \<Rightarrow> 'o filter_session \<Rightarrow> 'o cmd_end" where
  "filter_command env args s = (case args of
      [] \<Rightarrow> FlOk (TclError s)
    | sw # rest \<Rightarrow> (case match_switch Switches sw of
         keDelete \<Rightarrow> cmd_Delete env rest s
       | keEnable \<Rightarrow> cmd_Enable env rest s
       | keDisable \<Rightarrow> cmd_Disable env rest s
       | keRegate \<Rightarrow> cmd_Regate env rest s
       | keFile \<Rightarrow> cmd_File env rest s
       | keList \<Rightarrow> cmd_List env rest s
       | keNew \<Rightarrow> cmd_Create env rest s
       | keNotSwitch \<Rightarrow> cmd_Create env args s
       | keFormat \<Rightarrow> cmd_Format env args s))"

text \<open>onExit of the filter dictionary: an exception ends it.\<close>

fun close_filters :: "'o filter_env \<Rightarrow> nat list \<Rightarrow> 'o filter_session \<Rightarrow> 'o filter_session fl_result" where
  "close_filters env [] s = FlOk s"
| "close_filters env (p # ps) s = (case fs_heap s p of
      None \<Rightarrow> FlUndefined
    | Some f \<Rightarrow>
        (if ef_enabled f then (case ef_Disable (fe_ops env) f of
            FlOk f' \<Rightarrow> close_filters env ps (store_filter p f' s)
          | FlThrow x f' \<Rightarrow> FlThrow x (store_filter p f' s)
          | FlExits \<Rightarrow> FlExits | FlUndefined \<Rightarrow> FlUndefined | FlRunning \<Rightarrow> FlRunning)
         else close_filters env ps s))"

definition filters_onExit :: "'o filter_env \<Rightarrow> 'o filter_session \<Rightarrow> 'o filter_session fl_result" where
  "filters_onExit env s = close_filters env (map snd (d_map (api_filters (fs_api s)))) s"

end
