(* ===== verification/FilterSessions.thy ===== *)
theory FilterSessions
  imports FilterCommand
begin

text \<open>
  What holds of the filters between commands.  The contract of an output stage is the locale
  output_stage; from it, an enabled filter always has its output open, and the filter
  dictionary, the heap and the event sink pipeline agree, whatever commands are given,
  whether they succeed, fail or throw, and whatever events are filtered.
\<close>

subsection \<open>The invariant\<close>

definition filter_ok :: "('o \<Rightarrow> bool) \<Rightarrow> 'o event_filter \<Rightarrow> bool" where
  "filter_ok is_open f \<longleftrightarrow> (case ef_output f of None \<Rightarrow> \<not> ef_enabled f | Some out \<Rightarrow> ef_enabled f \<longrightarrow> is_open out)"

definition session_ok :: "('o \<Rightarrow> bool) \<Rightarrow> 'o filter_session \<Rightarrow> bool" where
  "session_ok is_open s \<longleftrightarrow>
     dict_ok (api_filters (fs_api s)) \<and>
     (\<forall>nm p. findFilter nm (fs_api s) = Some p \<longrightarrow> p \<in> dom (fs_heap s)) \<and>
     (\<forall>f \<in> ran (fs_heap s). filter_ok is_open f) \<and>
     (\<forall>nm nm' p. findFilter nm (fs_api s) = Some p \<longrightarrow> findFilter nm' (fs_api s) = Some p \<longrightarrow> nm = nm') \<and>
     (\<forall>nm p. (SinkName nm, p) \<in> set (es_sinks (fs_sinks s)) \<longleftrightarrow> findFilter nm (fs_api s) = Some p) \<and>
     (\<forall>p \<in> dom (fs_heap s). p < fs_next s)"

text \<open>A property of the state a call leaves, if it leaves one.\<close>

primrec fl_all :: "('a \<Rightarrow> bool) \<Rightarrow> 'a fl_result \<Rightarrow> bool" where
  "fl_all P (FlOk x) = P x"
| "fl_all P (FlThrow e x) = P x"
| "fl_all P FlExits = True"
| "fl_all P FlUndefined = True"
| "fl_all P FlRunning = True"

primrec cmd_state :: "'a cmd_result \<Rightarrow> 'a" where
  "cmd_state (TclOk is s) = s"
| "cmd_state (TclError s) = s"

lemma fl_all_bind: "fl_all P r \<Longrightarrow> (\<And>x. r = FlOk x \<Longrightarrow> fl_all P (g x)) \<Longrightarrow> fl_all P (bind_fl r g)"
  by (cases r) auto

lemma SinkName_inject [simp]: "SinkName a = SinkName b \<longleftrightarrow> a = b"
  by (simp add: SinkName_def)

lemma session_okD:
  assumes "session_ok P s"
  shows "dict_ok (api_filters (fs_api s))"
    and "findFilter nm (fs_api s) = Some p \<Longrightarrow> p \<in> dom (fs_heap s)"
    and "fs_heap s p = Some f \<Longrightarrow> filter_ok P f"
    and "findFilter nm (fs_api s) = Some p \<Longrightarrow> findFilter nm' (fs_api s) = Some p \<Longrightarrow> nm = nm'"
    and "(SinkName nm, p) \<in> set (es_sinks (fs_sinks s)) \<longleftrightarrow> findFilter nm (fs_api s) = Some p"
    and "fs_heap s p = Some f \<Longrightarrow> p < fs_next s"
  using assms unfolding session_ok_def by (blast intro: ranI)+

lemma session_ok_store:
  assumes ok: "session_ok P s" and p: "fs_heap s p \<noteq> None" and f: "filter_ok P f"
  shows "session_ok P (store_filter p f s)"
proof -
  have "filter_ok P g" if "g \<in> ran ((fs_heap s)(p \<mapsto> f))" for g
    using that session_okD(3) [OF ok] f by (auto simp: ran_def split: if_splits)
  moreover have "p < fs_next s" using session_okD(6) [OF ok] p by blast
  ultimately show ?thesis using ok by (simp add: session_ok_def store_filter_def)
qed

lemma last_match_in: "last_match nm m es = Some p \<Longrightarrow> m = Some p \<or> (nm, p) \<in> set es"
proof (induction es arbitrary: m)
  case (Cons e es)
  then show ?case by (cases e) (auto split: if_splits dest!: Cons.IH)
qed simp

lemma session_ok_Create:
  assumes ok: "session_ok P s" and nm: "findFilter nm (fs_api s) = None" and f: "filter_ok P f"
    and sk: "es_sinks sk = es_sinks (fs_sinks s) @ [(SinkName nm, fs_next s)]"
  shows "session_ok P (s\<lparr> fs_heap := (fs_heap s)(fs_next s \<mapsto> f), fs_next := Suc (fs_next s),
    fs_api := (fs_api s)\<lparr> api_filters := fst (Enter nm (fs_next s) (api_filters (fs_api s))) \<rparr>, fs_sinks := sk \<rparr>)"
proof -
  let ?s = "s\<lparr> fs_heap := (fs_heap s)(fs_next s \<mapsto> f), fs_next := Suc (fs_next s),
    fs_api := (fs_api s)\<lparr> api_filters := fst (Enter nm (fs_next s) (api_filters (fs_api s))) \<rparr>, fs_sinks := sk \<rparr>"
  have fresh: "findFilter n (fs_api s) \<noteq> Some (fs_next s)" for n
    using session_okD(2) [OF ok, of n] session_okD(6) [OF ok] by blast
  have l: "findFilter n ((fs_api s)\<lparr> api_filters := fst (Enter nm (fs_next s) (api_filters (fs_api s))) \<rparr>) = (if n = nm then Some (fs_next s) else findFilter n (fs_api s))" for n
    by (simp add: findFilter_def)
  have h: "filter_ok P g" if "g \<in> ran (fs_heap ?s)" for g
    using that session_okD(3) [OF ok] f by (auto simp: ran_def split: if_splits)
  have k: "(SinkName n, p) \<in> set (es_sinks (fs_sinks ?s)) \<longleftrightarrow> findFilter n (fs_api ?s) = Some p" for n p
    using session_okD(5) [OF ok, of n p] nm by (auto simp: l sk)
  have i: "n = n'" if "findFilter n (fs_api ?s) = Some p" "findFilter n' (fs_api ?s) = Some p" for n n' p
    using that fresh session_okD(4) [OF ok, of n p n'] by (auto simp: l split: if_splits)
  have d: "p \<in> dom (fs_heap ?s)" if "findFilter n (fs_api ?s) = Some p" for n p
    using that session_okD(2) [OF ok, of n p] by (auto simp: l split: if_splits)
  have x: "p < fs_next ?s" if "p \<in> dom (fs_heap ?s)" for p
    using that session_okD(6) [OF ok, of p] by (auto split: if_splits intro: less_SucI)
  have m: "dict_ok (api_filters (fs_api ?s))" using session_okD(1) [OF ok] by simp
  show ?thesis unfolding session_ok_def
    by (intro conjI allI impI ballI; (rule m | rule k | erule d | erule h | erule (1) i | erule x))
qed

lemma session_ok_Remove:
  assumes ok: "session_ok P s" and nm: "findFilter nm (fs_api s) = Some q"
    and d: "Remove nm (api_filters (fs_api s)) = Some (d, ns)"
    and sk: "es_sinks sk = filter (\<lambda>e. fst e \<noteq> SinkName nm) (es_sinks (fs_sinks s))"
  shows "session_ok P (s\<lparr> fs_sinks := sk, fs_api := (fs_api s)\<lparr> api_filters := d \<rparr> \<rparr>)"
    and "findFilter nm' ((fs_api s)\<lparr> api_filters := d \<rparr>) \<noteq> Some q"
proof -
  note D = session_okD(1) [OF ok]
  have l: "findFilter n ((fs_api s)\<lparr> api_filters := d \<rparr>) = (if n = nm then None else findFilter n (fs_api s))" for n
    using Lookup_Remove [OF D d] by (simp add: findFilter_def)
  have "(SinkName n, p) \<in> set (es_sinks sk) \<longleftrightarrow> n \<noteq> nm \<and> findFilter n (fs_api s) = Some p" for n p
    using session_okD(5) [OF ok, of n p] by (auto simp: sk)
  then show "session_ok P (s\<lparr> fs_sinks := sk, fs_api := (fs_api s)\<lparr> api_filters := d \<rparr> \<rparr>)"
    using ok dict_ok_Remove [OF D d] by (simp add: session_ok_def l)
  show "findFilter nm' ((fs_api s)\<lparr> api_filters := d \<rparr>) \<noteq> Some q"
    using session_okD(4) [OF ok nm, of nm'] by (auto simp: l)
qed

subsection \<open>The contract of an output stage\<close>

locale output_stage =
  fixes ops :: "'o stage_ops" and is_open :: "'o \<Rightarrow> bool"
  assumes open_opens: "so_open ops fn out = StOk out' \<Longrightarrow> is_open out'"
    and describe_open: "so_DescribeEvent ops ns ids out = StOk out' \<Longrightarrow> is_open out'"
    and close_throws: "so_close ops out = StThrow x out' \<Longrightarrow> is_open out \<Longrightarrow> is_open out'"
    and event_open: "so_event ops e out = StOk (out', e') \<Longrightarrow> is_open out \<Longrightarrow> is_open out'"
    and event_throws: "so_event ops e out = StThrow x (out', e') \<Longrightarrow> is_open out \<Longrightarrow> is_open out'"
begin

lemma Disable_ok: "filter_ok is_open f \<Longrightarrow> fl_all (filter_ok is_open) (ef_Disable ops f)"
  by (cases "ef_output f"; cases "so_close ops (the (ef_output f))")
    (auto simp: ef_Disable_def filter_ok_def close_throws)

lemma Disable_disables: "ef_Disable ops f = FlOk f' \<Longrightarrow> \<not> ef_enabled f'"
  by (cases "ef_output f"; cases "so_close ops (the (ef_output f))") (auto simp: ef_Disable_def)

lemma on_output_ok: "\<not> ef_enabled f \<Longrightarrow> fl_all (\<lambda>f'. filter_ok is_open f' \<and> \<not> ef_enabled f' \<and> ef_output f' \<noteq> None) (on_output g f)"
  by (cases "ef_output f"; cases "g (the (ef_output f))") (auto simp: on_output_def filter_ok_def)

lemma on_output_describes: "on_output (so_DescribeEvent ops ns ids) f = FlOk f' \<Longrightarrow> \<exists>out. ef_output f' = Some out \<and> is_open out"
  by (cases "ef_output f"; cases "so_DescribeEvent ops ns ids (the (ef_output f))")
    (auto simp: on_output_def intro: describe_open)

lemma Enable_ok:
  assumes "filter_ok is_open f"
  shows "fl_all (filter_ok is_open) (ef_Enable ops pnum f)"
proof (cases "ef_output f")
  case Some
  let ?d = "if ef_enabled f then ef_Disable ops f else FlOk f"
  have d: "fl_all (filter_ok is_open) ?d" using Disable_ok [OF assms] assms by simp
  have n: "\<not> ef_enabled f1" if "?d = FlOk f1" for f1
    using that Disable_disables [of f f1] by (auto split: if_splits)
  have last: "fl_all (filter_ok is_open) (bind_fl (on_output (so_DescribeEvent ops (ef_names f2) (ef_ids f2)) f2)
      (\<lambda>f3. FlOk (f3\<lparr> ef_enabled := True \<rparr>)))" if "\<not> ef_enabled f2" for f2
  proof (rule fl_all_bind)
    show "fl_all (filter_ok is_open) (on_output (so_DescribeEvent ops (ef_names f2) (ef_ids f2)) f2)"
      using on_output_ok [OF that, of "so_DescribeEvent ops (ef_names f2) (ef_ids f2)"]
      by (cases "on_output (so_DescribeEvent ops (ef_names f2) (ef_ids f2)) f2") auto
    show "fl_all (filter_ok is_open) (FlOk (f3\<lparr> ef_enabled := True \<rparr>))"
      if "on_output (so_DescribeEvent ops (ef_names f2) (ef_ids f2)) f2 = FlOk f3" for f3
      using on_output_describes [OF that] by (auto simp: filter_ok_def)
  qed
  have mid: "fl_all (filter_ok is_open) (bind_fl (on_output (so_open ops (ef_fileName f1)) (NamesToIds pnum f1)) (\<lambda>f2.
      bind_fl (on_output (so_DescribeEvent ops (ef_names f2) (ef_ids f2)) f2) (\<lambda>f3. FlOk (f3\<lparr> ef_enabled := True \<rparr>))))"
    if "\<not> ef_enabled f1" for f1
  proof -
    have "\<not> ef_enabled (NamesToIds pnum f1)" using that by (simp add: NamesToIds_def)
    note o = on_output_ok [OF this, of "so_open ops (ef_fileName f1)"]
    show ?thesis
    proof (rule fl_all_bind)
      show "fl_all (filter_ok is_open) (on_output (so_open ops (ef_fileName f1)) (NamesToIds pnum f1))"
        using o by (cases "on_output (so_open ops (ef_fileName f1)) (NamesToIds pnum f1)") simp_all
    qed (use o last in simp)
  qed
  have "fl_all (filter_ok is_open) (bind_fl ?d (\<lambda>f1.
      bind_fl (on_output (so_open ops (ef_fileName f1)) (NamesToIds pnum f1)) (\<lambda>f2.
      bind_fl (on_output (so_DescribeEvent ops (ef_names f2) (ef_ids f2)) f2) (\<lambda>f3. FlOk (f3\<lparr> ef_enabled := True \<rparr>)))))"
    by (rule fl_all_bind [OF d]) (rule mid [OF n])
  then show ?thesis using Some by (simp only: ef_Enable_def option.distinct if_False)
qed (use assms in \<open>simp add: ef_Enable_def\<close>)

lemma setFileName_ok:
  assumes "filter_ok is_open f"
  shows "fl_all (filter_ok is_open) (setFileName ops fn f)"
  unfolding setFileName_def
proof (rule fl_all_bind)
  show d: "fl_all (filter_ok is_open) (if ef_enabled f then ef_Disable ops f else FlOk f)"
    using Disable_ok assms by auto
  show "fl_all (filter_ok is_open) (FlOk (f'\<lparr> ef_fileName := fn \<rparr>))"
    if "(if ef_enabled f then ef_Disable ops f else FlOk f) = FlOk f'" for f'
    using d unfolding that by (simp add: filter_ok_def split: option.splits)
qed

lemma setOutputFormat_ok: "filter_ok is_open f \<Longrightarrow> fl_all (filter_ok is_open) (setOutputFormat format f)"
  by (cases format) (auto simp: setOutputFormat_def filter_ok_def)

lemma filter_event_ok:
  assumes "filter_ok is_open f"
  shows "fl_all (\<lambda>(_, _, f'). filter_ok is_open f' \<and> ef_enabled f' = ef_enabled f) (filter_event ops k st e f)"
proof (cases "CheckCondition k f (st, e)")
  case (Some r)
  obtain b st' e' where r: "r = (b, (st', e'))" by (cases r) auto
  show ?thesis
  proof (cases "b \<and> ef_output f \<noteq> None")
    case True
    then obtain out where o: "ef_output f = Some out" by auto
    show ?thesis using Some r True o assms
      by (cases "so_event ops e' out") (auto simp: filter_event_def filter_ok_def event_open event_throws split: prod.splits)
  qed (use Some r assms in \<open>auto simp: filter_event_def split: option.splits bool.splits\<close>)
qed (simp add: filter_event_def)

lemma filter_list_ok:
  "filter_ok is_open f \<Longrightarrow> fl_all (\<lambda>(_, _, f'). filter_ok is_open f') (filter_list ops k st es f)"
proof (induction es arbitrary: st f)
  case (Cons a es)
  show ?case
  proof (cases a)
    case (Some e)
    note ev = filter_event_ok [OF Cons.prems, of k st e]
    show ?thesis
    proof (cases "filter_event ops k st e f")
      case (FlOk x)
      obtain st' e' f' where x: "x = (st', e', f')" by (cases x) auto
      then have "fl_all (\<lambda>(_, _, f'). filter_ok is_open f') (filter_list ops k st' es f')"
        using Cons.IH ev FlOk by simp
      then show ?thesis using FlOk x Some by (cases "filter_list ops k st' es f'") auto
    next
      case (FlThrow y x)
      then show ?thesis using ev Some by (cases x) auto
    qed (use Some in auto)
  qed (use Cons.prems in simp)
qed simp

lemma filter_events_ok:
  "filter_ok is_open f \<Longrightarrow> fl_all (\<lambda>(_, _, f'). filter_ok is_open f') (filter_events ops k st es f)"
  by (simp add: filter_events_def filter_list_ok)

lemma on_filter_ok:
  assumes "session_ok is_open s" "fs_heap s p = Some f" "fl_all (filter_ok is_open) (g f)"
    and "\<And>f' s'. g f = FlOk f' \<Longrightarrow> s' = store_filter p f' s \<Longrightarrow> session_ok is_open s' \<Longrightarrow> fl_all (session_ok is_open \<circ> cmd_state) (r f' s')"
  shows "fl_all (session_ok is_open \<circ> cmd_state) (on_filter p g s r)"
  using assms session_ok_store [OF assms(1), of p] by (cases "g f") (auto simp: on_filter_def)

lemma with_filter_ok:
  assumes "session_ok is_open s"
    and "\<And>p f. findFilter nm (fs_api s) = Some p \<Longrightarrow> fs_heap s p = Some f \<Longrightarrow> filter_ok is_open f \<Longrightarrow>
      fl_all (session_ok is_open \<circ> cmd_state) (r p)"
  shows "fl_all (session_ok is_open \<circ> cmd_state) (with_filter nm s r)"
proof (cases "findFilter nm (fs_api s)")
  case (Some p)
  then obtain f where "fs_heap s p = Some f" using session_okD(2) [OF assms(1)] by blast
  then show ?thesis using Some assms(2) session_okD(3) [OF assms(1)] by (simp add: with_filter_def)
qed (use assms(1) in \<open>simp add: with_filter_def\<close>)

lemma cmd_Create_ok:
  assumes "session_ok is_open s"
  shows "fl_all (session_ok is_open \<circ> cmd_state) (cmd_Create env args s)"
proof -
  have f: "filter_ok is_open f"
    if "setOutputFormat out (setParameterNames ns (setGateContainer g (new_event_filter h None))) = FlOk f" for out ns g h f
    using that setOutputFormat_ok [of "setParameterNames ns (setGateContainer g (new_event_filter h None))" out]
    by (simp add: filter_ok_def setParameterNames_def setGateContainer_def new_event_filter_def)
  note c = session_ok_Create [OF assms]
  show ?thesis
    using assms f c by (auto simp: cmd_Create_def AddEventSink_def InsertSink_def Let_def
        split: list.split option.split fl_result.split)
qed

lemma cmd_Delete_ok:
  assumes "session_ok is_open s" "fe_ops env = ops"
  shows "fl_all (session_ok is_open \<circ> cmd_state) (cmd_Delete env args s)"
proof (cases args rule: remdups_adj.cases)
  case (2 nm)
  show ?thesis
  proof (cases "findFilter nm (fs_api s)")
    case (Some q)
    obtain sk found where r: "RemoveEventSink (SinkName nm) (fs_sinks s) = (sk, found)" by fastforce
    obtain d ns where d: "Remove nm (api_filters (fs_api s)) = Some (d, ns)"
      using Some by (auto simp: Remove_def findFilter_def)
    have sk: "es_sinks sk = filter (\<lambda>e. fst e \<noteq> SinkName nm) (es_sinks (fs_sinks s))"
      using r by (auto simp: RemoveEventSink_def Let_def split: option.splits)
    let ?s = "s\<lparr> fs_sinks := sk, fs_api := (fs_api s)\<lparr> api_filters := d \<rparr> \<rparr>"
    note ok = session_ok_Remove [OF assms(1) Some d sk]
    have "p = q" if "found = Some p" for p
    proof -
      have "last_match (SinkName nm) None (es_sinks (fs_sinks s)) = Some p"
        using r that by (auto simp: RemoveEventSink_def Let_def split: option.splits)
      then show ?thesis using last_match_in session_okD(5) [OF assms(1), of nm p] Some by fastforce
    qed
    moreover obtain f where f: "fs_heap s q = Some f" using session_okD(2) [OF assms(1) Some] by blast
    have "fl_all (session_ok is_open \<circ> cmd_state) (on_filter q (\<lambda>f. if ef_enabled f then ef_Disable ops f else FlOk f) ?s
        (\<lambda>f s3. FlOk (TclOk [] (s3\<lparr> fs_heap := (fs_heap s3)(q := None) \<rparr>))))"
    proof (rule on_filter_ok [OF ok(1)])
      show "fs_heap ?s q = Some f" using f by simp
      show "fl_all (filter_ok is_open) (if ef_enabled f then ef_Disable ops f else FlOk f)"
        using Disable_ok session_okD(3) [OF assms(1) f] by simp
      fix f' s' assume s': "session_ok is_open s'" "s' = store_filter q f' ?s"
      have "findFilter n (fs_api s') \<noteq> Some q" for n using ok(2) s'(2) by (simp add: store_filter_def)
      then show "fl_all (session_ok is_open \<circ> cmd_state) (FlOk (TclOk [] (s'\<lparr> fs_heap := (fs_heap s')(q := None) \<rparr>)))"
        using s'(1) by (auto simp: session_ok_def ran_def split: if_splits)
    qed
    ultimately show ?thesis
      using 2 Some r d ok(1) assms(2) by (cases found) (auto simp: cmd_Delete_def deleteFilter_name_def Let_def)
  qed (use 2 assms(1) in \<open>simp add: cmd_Delete_def\<close>)
qed (use assms(1) in \<open>simp_all add: cmd_Delete_def\<close>)

lemma cmd_Enable_ok:
  assumes "session_ok is_open s" "fe_ops env = ops"
  shows "fl_all (session_ok is_open \<circ> cmd_state) (cmd_Enable env args s)"
  unfolding cmd_Enable_def assms(2) using assms(1)
  by (auto split: list.split intro!: with_filter_ok on_filter_ok Enable_ok)

lemma cmd_Disable_ok:
  assumes "session_ok is_open s" "fe_ops env = ops"
  shows "fl_all (session_ok is_open \<circ> cmd_state) (cmd_Disable env args s)"
  unfolding cmd_Disable_def assms(2) using assms(1)
  by (auto split: list.split intro!: with_filter_ok on_filter_ok Disable_ok)

lemma cmd_Regate_ok:
  "session_ok is_open s \<Longrightarrow> fl_all (session_ok is_open \<circ> cmd_state) (cmd_Regate env args s)"
  unfolding cmd_Regate_def
  by (auto split: list.split intro!: with_filter_ok on_filter_ok simp: filter_ok_def setGateContainer_def split: option.splits)

lemma cmd_File_ok:
  assumes "session_ok is_open s" "fe_ops env = ops"
  shows "fl_all (session_ok is_open \<circ> cmd_state) (cmd_File env args s)"
  unfolding cmd_File_def assms(2) using assms(1)
  by (auto split: list.split intro!: with_filter_ok on_filter_ok setFileName_ok)

lemma cmd_Format_ok:
  "session_ok is_open s \<Longrightarrow> fl_all (session_ok is_open \<circ> cmd_state) (cmd_Format env args s)"
  unfolding cmd_Format_def
  by (auto split: list.split option.split intro!: with_filter_ok on_filter_ok setOutputFormat_ok)

lemma filter_command_ok:
  "session_ok is_open s \<Longrightarrow> fe_ops env = ops \<Longrightarrow> fl_all (session_ok is_open \<circ> cmd_state) (filter_command env args s)"
  using cmd_Create_ok cmd_Delete_ok cmd_Enable_ok cmd_Disable_ok cmd_Regate_ok cmd_File_ok cmd_Format_ok
  by (auto simp: filter_command_def cmd_List_def split: list.split eSwitches.split option.split)

lemma session_events_ok:
  assumes "session_ok is_open s" "fs_heap s p = Some f"
  shows "fl_all (\<lambda>(_, _, f'). session_ok is_open (store_filter p f' s)) (filter_events ops k st es f)"
  using filter_events_ok [OF session_okD(3) [OF assms], of k st es] session_ok_store [OF assms(1), of p] assms(2)
  by (cases "filter_events ops k st es f") auto

end

subsection \<open>The XDR stage\<close>

interpretation xdr_output: output_stage "xdr_stage_ops k l bits opens junk w" "\<lambda>st. xs_stream st \<noteq> None"
proof (unfold_locales, goal_cases)
  case (1 fn out out')
  then show ?case by (auto simp: xdr_stage_ops_def xs_open_def split: option.splits sum.splits prod.splits)
next
  case (2 ns ids out out')
  then show ?case
    by (auto simp: xdr_stage_ops_def xs_DescribeEvent_def Let_def split: option.splits stage_result.splits)
next
  case (3 out x out')
  then show ?case by (auto simp: xdr_stage_ops_def xs_close_def split: option.splits)
next
  case (4 e out out' e')
  then show ?case
    by (auto simp: xdr_stage_ops_def xs_event_def Let_def split: option.splits if_splits prod.splits sum.splits)
next
  case (5 e out x out' e')
  then show ?case
    by (auto simp: xdr_stage_ops_def xs_event_def Let_def split: option.splits if_splits prod.splits sum.splits)
qed

subsection \<open>Reachable sessions\<close>

text \<open>
  Filter commands, events filtered by any filter there is, and changes of anything in the API
  but the filter dictionary, in any order; a call that throws leaves the state it had reached.
\<close>

inductive session_reach :: "'o filter_env \<Rightarrow> 'o filter_session \<Rightarrow> 'o filter_session \<Rightarrow> bool" for env s0 where
  start: "session_reach env s0 s0"
| command: "session_reach env s0 s \<Longrightarrow> filter_command env args s = FlOk r \<Longrightarrow> session_reach env s0 (cmd_state r)"
| command_throws:
    "session_reach env s0 s \<Longrightarrow> filter_command env args s = FlThrow x r \<Longrightarrow> session_reach env s0 (cmd_state r)"
| events: "session_reach env s0 s \<Longrightarrow> fs_heap s p = Some f \<Longrightarrow>
    filter_events (fe_ops env) k st es f = FlOk (st', es', f') \<Longrightarrow> session_reach env s0 (store_filter p f' s)"
| events_throw: "session_reach env s0 s \<Longrightarrow> fs_heap s p = Some f \<Longrightarrow>
    filter_events (fe_ops env) k st es f = FlThrow x (st', es', f') \<Longrightarrow> session_reach env s0 (store_filter p f' s)"
| api: "session_reach env s0 s \<Longrightarrow> api_filters a = api_filters (fs_api s) \<Longrightarrow> session_reach env s0 (s\<lparr> fs_api := a \<rparr>)"

text \<open>Before the first filter command.\<close>

definition no_filters :: "'o filter_session \<Rightarrow> bool" where
  "no_filters s \<longleftrightarrow> api_filters (fs_api s) = empty_dictionary \<and> fs_heap s = Map.empty \<and>
     (\<forall>nm p. (SinkName nm, p) \<notin> set (es_sinks (fs_sinks s)))"

context output_stage
begin

lemma session_reach_ok:
  assumes "session_reach env s0 s" "fe_ops env = ops" "no_filters s0"
  shows "session_ok is_open s"
  using assms(1)
proof (induction rule: session_reach.induct)
  case start
  show ?case using assms(3) by (simp add: no_filters_def session_ok_def findFilter_def)
next
  case (command s args r)
  then show ?case using filter_command_ok [OF command.IH assms(2), of args] by simp
next
  case (command_throws s args x r)
  then show ?case using filter_command_ok [OF command_throws.IH assms(2), of args] by simp
next
  case (events s p f k st es st' es' f')
  then show ?case using session_events_ok [OF events.IH events.hyps(2), of k st es] assms(2) by simp
next
  case (events_throw s p f k st es x st' es' f')
  then show ?case using session_events_ok [OF events_throw.IH events_throw.hyps(2), of k st es] assms(2) by simp
next
  case (api s a)
  then show ?case by (simp add: session_ok_def findFilter_def)
qed

end

text \<open>
  C16. In every session with the XDR stage, whatever filter commands were given and failed or
  threw, whatever was filtered and however parameters, spectra and gates were changed: the
  event sinks named for filters are exactly the filters of the dictionary, each is a live
  object, different names are different objects, and an enabled filter has its file open.
\<close>

theorem filter_sessions:
  assumes "session_reach env s0 s" "fe_ops env = xdr_stage_ops k l bits opens junk w" "no_filters s0"
  shows "(\<forall>nm p. (SinkName nm, p) \<in> set (es_sinks (fs_sinks s)) \<longleftrightarrow> findFilter nm (fs_api s) = Some p) \<and>
    (\<forall>nm p. findFilter nm (fs_api s) = Some p \<longrightarrow> (\<exists>f. fs_heap s p = Some f \<and>
       (ef_enabled f \<longrightarrow> (\<exists>st out. ef_output f = Some st \<and> xs_stream st = Some out)))) \<and>
    (\<forall>nm nm' p. findFilter nm (fs_api s) = Some p \<longrightarrow> findFilter nm' (fs_api s) = Some p \<longrightarrow> nm = nm')"
proof -
  have ok: "session_ok (\<lambda>st. xs_stream st \<noteq> None) s" by (rule xdr_output.session_reach_ok [OF assms])
  have "\<exists>f. fs_heap s p = Some f \<and> (ef_enabled f \<longrightarrow> (\<exists>st out. ef_output f = Some st \<and> xs_stream st = Some out))"
    if p: "findFilter nm (fs_api s) = Some p" for nm p
  proof -
    obtain f where f: "fs_heap s p = Some f" using session_okD(2) [OF ok p] by blast
    then show ?thesis using session_okD(3) [OF ok f] by (auto simp: filter_ok_def split: option.splits)
  qed
  then show ?thesis using session_okD(4,5) [OF ok] by blast
qed

definition demo_session :: "xdr_stage filter_session" where
  "demo_session = \<lparr> fs_api = new_api\<lparr> api_hist := new_histogrammer\<lparr>
       h_gates := (h_gates new_histogrammer)\<lparr> d_map := [(''g'', new_container ''g'' 0 (new_gate CTrueGate))] \<rparr> \<rparr> \<rparr>,
     fs_sinks = new_sinks, fs_heap = Map.empty, fs_next = 0 \<rparr>"

definition demo_env :: "xdr_stage stage_ops \<Rightarrow> xdr_stage filter_env" where
  "demo_env ops = \<lparr> fe_ops = ops, fe_creators = [xdr_creator], fe_home = None, fe_split = (\<lambda>s. Some []),
     fe_tilde = id, fe_match = (\<lambda>p s. True) \<rparr>"

theorem filter_sessions_witness:
  "\<forall>l bits. \<exists>s infos. filter_command (demo_env (xdr_stage_ops 0 l bits (\<lambda>_. True) [] (\<lambda>_. Some 8192))) [''f'', ''g'', []]
       demo_session = FlOk (TclOk infos s) \<and>
     (\<forall>nm p. (SinkName nm, p) \<in> set (es_sinks (fs_sinks s)) \<longleftrightarrow> findFilter nm (fs_api s) = Some p)"
proof (intro allI)
  fix l :: xdr_lib and bits :: "ptype \<Rightarrow> u64"
  let ?ops = "xdr_stage_ops 0 l bits (\<lambda>_. True) [] (\<lambda>_. Some 8192)"
  have n: "no_filters demo_session"
    by (simp add: no_filters_def demo_session_def new_api_def new_sinks_def)
  obtain infos s where r: "filter_command (demo_env ?ops) [''f'', ''g'', []] demo_session = FlOk (TclOk infos s)"
    by (simp add: filter_command_def Switches_def cmd_Create_def demo_env_def demo_session_def findFilter_def new_api_def
        api_FindGate_def Lookup_def setOutputFormat_def xdr_creator_def setParameterNames_def setGateContainer_def
        new_event_filter_def AddEventSink_def InsertSink_def empty_dictionary_def)
  have "session_reach (demo_env ?ops) demo_session s"
    using session_reach.command [OF session_reach.start r] by simp
  moreover have "fe_ops (demo_env ?ops) = ?ops" by (simp add: demo_env_def)
  ultimately show "\<exists>s infos. filter_command (demo_env ?ops) [''f'', ''g'', []] demo_session = FlOk (TclOk infos s) \<and>
     (\<forall>nm p. (SinkName nm, p) \<in> set (es_sinks (fs_sinks s)) \<longleftrightarrow> findFilter nm (fs_api s) = Some p)"
    using filter_sessions [OF _ _ n] r by blast
qed

end
