(* ===== verification/FilterSelection.thy ===== *)
theory FilterSelection
  imports FilterSessions GateSemantics
begin

text \<open>
  Which events a gated filter hands to its output stage.  CheckCondition resets the gate and,
  through and and or gates, what it depends on; with no not gate among them it decides by
  the meaning of the gate, whatever values are cached.
\<close>

subsection \<open>The constituents of a gate\<close>

inductive_set below :: "(string \<Rightarrow> gate_body option) \<Rightarrow> string \<Rightarrow> string set" for B nm where
  self: "nm \<in> below B nm"
| step: "x \<in> below B nm \<Longrightarrow> B x = Some b \<Longrightarrow> y \<in> set (getDependentGates b) \<Longrightarrow> y \<in> below B nm"

lemma below_trans: "y \<in> below B x \<Longrightarrow> x \<in> below B nm \<Longrightarrow> y \<in> below B nm"
  by (induction rule: below.induct) (auto intro: below.intros)

lemma below_cases:
  assumes "y \<in> below B nm"
  shows "y = nm \<or> (\<exists>b. B nm = Some b \<and> (\<exists>x \<in> set (getDependentGates b). y \<in> below B x))"
  using assms
proof (induction rule: below.induct)
  case (step x b y)
  from step.IH show ?case
  proof (elim disjE exE conjE bexE)
    assume "x = nm"
    then show ?thesis using step.hyps below.self [of y B] by blast
  next
    fix b' x' assume "B nm = Some b'" "x' \<in> set (getDependentGates b')" "x \<in> below B x'"
    then show ?thesis using step.hyps below.step [of x B x' b y] by blast
  qed
qed simp

definition no_not :: "(string \<Rightarrow> gate_body option) \<Rightarrow> string \<Rightarrow> bool" where
  "no_not B nm \<longleftrightarrow> (\<forall>x \<in> below B nm. \<forall>n. B x \<noteq> Some (CNot n))"

lemma no_not_below: "no_not B nm \<Longrightarrow> x \<in> below B nm \<Longrightarrow> no_not B x"
  using below_trans [of _ B x nm] by (auto simp: no_not_def)

definition ranked :: "(string \<Rightarrow> nat) \<Rightarrow> (string \<Rightarrow> gate_body option) \<Rightarrow> bool" where
  "ranked r B \<longleftrightarrow> (\<forall>nm b. B nm = Some b \<longrightarrow> (\<forall>d \<in> set (getDependentGates b). B d \<noteq> None \<and> r d < r nm))"

lemma rank_ok_ranked: "rank_ok r st \<Longrightarrow> ranked r (bodies st)"
  by (fastforce simp: rank_ok_def ranked_def bodies_def dest: smap_get_SomeD)

subsection \<open>Resetting\<close>

definition fewer_flags :: "gate_store \<Rightarrow> gate_store \<Rightarrow> bool" where
  "fewer_flags st st' \<longleftrightarrow> skeleton st' = skeleton st \<and> (\<forall>nm c c'. smap_get st nm = Some c \<longrightarrow>
     smap_get st' nm = Some c' \<longrightarrow> g_fChecked (gc_gate c') \<longrightarrow> g_fChecked (gc_gate c))"

lemma fewer_flags_refl [simp]: "fewer_flags st st"
  by (simp add: fewer_flags_def)

lemma skeleton_defined: "skeleton st = skeleton st' \<Longrightarrow> smap_get st nm = None \<longleftrightarrow> smap_get st' nm = None"
  using skeleton_bodies [of st st'] by (metis bodies_def option.map_disc_iff)

lemma fewer_flags_trans: "fewer_flags a b \<Longrightarrow> fewer_flags b c \<Longrightarrow> fewer_flags a c"
  unfolding fewer_flags_def using skeleton_defined [of a b] by (smt (verit) option.exhaust)

lemma fewer_flags_reset_one: "fewer_flags st (reset_one nm st)"
  by (auto simp: fewer_flags_def)

definition reset_in :: "string set \<Rightarrow> gate_store \<Rightarrow> bool" where
  "reset_in S st \<longleftrightarrow> (\<forall>nm \<in> S. \<forall>c. smap_get st nm = Some c \<longrightarrow> \<not> g_fChecked (gc_gate c))"

lemma reset_in_fewer: "reset_in S a \<Longrightarrow> fewer_flags a b \<Longrightarrow> reset_in S b"
  unfolding reset_in_def fewer_flags_def using skeleton_defined [of a b] by (metis option.exhaust)

lemma reset_all:
  assumes "\<And>n t. n \<in> set ns \<Longrightarrow> bodies t = B \<Longrightarrow> \<exists>t'. op n t = Some t' \<and> fewer_flags t t' \<and> reset_in (S n) t'"
    and "bodies st = B"
  shows "\<exists>st'. fold (\<lambda>n r. Option.bind r (op n)) ns (Some st) = Some st' \<and> fewer_flags st st' \<and>
    (\<forall>n \<in> set ns. reset_in (S n) st')"
  using assms
proof (induction ns arbitrary: st)
  case (Cons n ns)
  obtain t where t: "op n st = Some t" "fewer_flags st t" "reset_in (S n) t" using Cons.prems by force
  have "bodies t = B" using t(2) Cons.prems(2) skeleton_bodies [of t st] by (simp add: fewer_flags_def)
  with Cons obtain t' where t': "fold (\<lambda>n r. Option.bind r (op n)) ns (Some t) = Some t'" "fewer_flags t t'"
    "\<forall>n \<in> set ns. reset_in (S n) t'" by force
  then show ?case using t reset_in_fewer [OF t(3) t'(2)] fewer_flags_trans [OF t(2) t'(2)] by simp
qed simp

lemma RecursiveReset_resets:
  assumes "ranked r B" "no_not B nm" "bodies st = B" "B nm \<noteq> None" "r nm < k"
  shows "\<exists>st'. RecursiveReset k nm st = Some st' \<and> fewer_flags st st' \<and> reset_in (below B nm) st'"
  using assms(2-)
proof (induction k arbitrary: nm st)
  case (Suc k)
  obtain c where c: "smap_get st nm = Some c" using Suc.prems(2,3) by (auto simp: bodies_def)
  let ?b = "g_body (gc_gate c)" and ?st = "reset_one nm st"
  have b: "B nm = Some ?b" using c Suc.prems(2) by (auto simp: bodies_def)
  have own: "reset_in {nm} ?st" by (auto simp: reset_in_def)
  have dep: "\<exists>t'. RecursiveReset k n t = Some t' \<and> fewer_flags t t' \<and> reset_in (below B n) t'"
    if "n \<in> set (getDependentGates ?b)" "bodies t = B" for n t
  proof (rule Suc.IH [OF _ that(2)])
    show "no_not B n" using no_not_below [OF Suc.prems(1), of n] below.step [of nm B nm ?b n] below.self [of nm B] b that(1) by blast
    have "B n \<noteq> None \<and> r n < r nm" using assms(1) b that(1) unfolding ranked_def by blast
    then show "B n \<noteq> None" "r n < k" using Suc.prems(4) by simp_all
  qed
  have B: "bodies ?st = B" using Suc.prems(2) by simp
  obtain st' where st': "fold (\<lambda>n r. Option.bind r (RecursiveReset k n)) (getDependentGates ?b) (Some ?st) = Some st'"
    "fewer_flags ?st st'" "\<forall>n \<in> set (getDependentGates ?b). reset_in (below B n) st'"
    using reset_all [of "getDependentGates ?b" B "RecursiveReset k" "below B" ?st, OF dep B] by blast
  have e: "RecursiveReset (Suc k) nm st = Some st'"
  proof (cases ?b)
    case (CNot n)
    then show ?thesis using Suc.prems(1) b below.self [of nm B] by (auto simp: no_not_def)
  qed (use c st'(1) in \<open>simp_all add: getDependentGates_def\<close>)
  have "reset_in (below B nm) st'"
    unfolding reset_in_def using st'(3) reset_in_fewer [OF own st'(2)] below_cases [of _ B nm] b
    by (fastforce simp: reset_in_def)
  then show ?case using e fewer_flags_trans [OF fewer_flags_reset_one st'(2)] by blast
qed simp

subsection \<open>Deciding\<close>

text \<open>Evaluation looks at the flags of the gates in S only, when S is closed.\<close>

definition agree :: "(string \<Rightarrow> gate_body option) \<Rightarrow> string set \<Rightarrow> eval_state \<Rightarrow> eval_state \<Rightarrow> bool" where
  "agree B S s t \<longleftrightarrow> snd s = snd t \<and> skeleton (fst s) = skeleton (fst t) \<and> bodies (fst t) = B \<and>
     (\<forall>x \<in> S. smap_get (fst s) x = smap_get (fst t) x)"

definition follows ::
  "(string \<Rightarrow> gate_body option) \<Rightarrow> string set \<Rightarrow> (eval_state \<Rightarrow> (bool \<times> eval_state) option) \<Rightarrow> bool" where
  "follows B S f \<longleftrightarrow>
     (\<forall>s t v t'. agree B S s t \<longrightarrow> f t = Some (v, t') \<longrightarrow> (\<exists>s'. f s = Some (v, s') \<and> agree B S s' t'))"

lemma followsD:
  "follows B S f \<Longrightarrow> agree B S s t \<Longrightarrow> f t = Some (v, t') \<Longrightarrow> \<exists>s'. f s = Some (v, s') \<and> agree B S s' t'"
  unfolding follows_def by blast

lemma follows_and_loop: "(\<And>n. n \<in> set ns \<Longrightarrow> follows B S (op n)) \<Longrightarrow> follows B S (and_loop op ns)"
proof (induction ns)
  case (Cons n ns)
  have n: "follows B S (op n)" and ns: "follows B S (and_loop op ns)" using Cons by simp_all
  show ?case unfolding follows_def
  proof (intro allI impI)
    fix s t v t' assume a: "agree B S s t" "and_loop op (n # ns) t = Some (v, t')"
    then obtain b t1 where t1: "op n t = Some (b, t1)" by (auto split: option.splits)
    obtain s1 where s1: "op n s = Some (b, s1)" "agree B S s1 t1" using followsD [OF n a(1) t1] by blast
    show "\<exists>s'. and_loop op (n # ns) s = Some (v, s') \<and> agree B S s' t'"
      using a(2) t1 s1 followsD [OF ns s1(2)] by (cases b) auto
  qed
qed (simp add: follows_def)

lemma follows_or_loop: "(\<And>n. n \<in> set ns \<Longrightarrow> follows B S (op n)) \<Longrightarrow> follows B S (or_loop op ns)"
proof (induction ns)
  case (Cons n ns)
  have n: "follows B S (op n)" and ns: "follows B S (or_loop op ns)" using Cons by simp_all
  show ?case unfolding follows_def
  proof (intro allI impI)
    fix s t v t' assume a: "agree B S s t" "or_loop op (n # ns) t = Some (v, t')"
    then obtain b t1 where t1: "op n t = Some (b, t1)" by (auto split: option.splits)
    obtain s1 where s1: "op n s = Some (b, s1)" "agree B S s1 t1" using followsD [OF n a(1) t1] by blast
    show "\<exists>s'. or_loop op (n # ns) s = Some (v, s') \<and> agree B S s' t'"
      using a(2) t1 s1 followsD [OF ns s1(2)] by (cases b) auto
  qed
qed (simp add: follows_def)

lemma follows_leaf:
  "follows B S (\<lambda>s. map_option (\<lambda>(r, e). (r, (fst s, e))) (leaf_inGate b (snd s)))"
  by (auto simp: follows_def agree_def)

lemma follows_not: "follows B S (op n) \<Longrightarrow> follows B S (not_inGate op n)"
  unfolding follows_def not_inGate_def by fastforce

lemma follows_inGate:
  assumes "\<And>n. n \<in> set (getDependentGates b) \<Longrightarrow> follows B S (op n)"
  shows "follows B S (inGate op b)"
proof (cases "is_leaf b")
  case True
  then have "inGate op b = (\<lambda>s. map_option (\<lambda>(r, e). (r, (fst s, e))) (leaf_inGate b (snd s)))"
    by (cases b) (simp_all add: inGate_def is_leaf_def fun_eq_iff)
  then show ?thesis using follows_leaf by simp
next
  case False
  then consider ns where "b = CAndGate ns" | ns where "b = COrGate ns" | n where "b = CNot n"
    | "b = CTrueGate \<or> b = CFalseGate \<or> b = CDeletedGate"
    by (cases b) (auto simp: is_leaf_def)
  then show ?thesis
  proof cases
    case (1 ns)
    then have "inGate op b = and_loop op ns" by (simp add: inGate_def fun_eq_iff)
    then show ?thesis using assms follows_and_loop [of ns B S op] 1 by (simp add: getDependentGates_def)
  next
    case (2 ns)
    then have "inGate op b = or_loop op ns" by (simp add: inGate_def fun_eq_iff)
    then show ?thesis using assms follows_or_loop [of ns B S op] 2 by (simp add: getDependentGates_def)
  next
    case (3 n)
    then have "inGate op b = not_inGate op n" by (simp add: inGate_def fun_eq_iff)
    then show ?thesis using assms follows_not [of B S op n] 3 by (simp add: getDependentGates_def)
  next
    case 4
    then have "inGate op b = (\<lambda>s. None)" by (auto simp: inGate_def leaf_inGate_def fun_eq_iff)
    then show ?thesis by (simp add: follows_def)
  qed
qed

lemma agree_set_cached:
  "agree B S s (st, e) \<Longrightarrow> agree B S (set_cached nm v (fst s), snd s) (set_cached nm v st, e)"
  by (simp add: agree_def)

lemma follows_gate_op:
  assumes "\<And>x b. x \<in> S \<Longrightarrow> B x = Some b \<Longrightarrow> set (getDependentGates b) \<subseteq> S"
  shows "nm \<in> S \<Longrightarrow> follows B S (gate_op k nm)"
proof (induction k arbitrary: nm)
  case (Suc k)
  show ?case unfolding follows_def
  proof (intro allI impI)
    fix s t v t' assume a: "agree B S s t" "gate_op (Suc k) nm t = Some (v, t')"
    then obtain c where c: "smap_get (fst t) nm = Some c" by (auto split: option.splits)
    then have cs: "smap_get (fst s) nm = Some c" using a(1) Suc.prems by (simp add: agree_def)
    let ?b = "g_body (gc_gate c)"
    have "B nm = Some ?b" using a(1) c by (auto simp: agree_def bodies_def)
    then have f: "follows B S (inGate (gate_op k) ?b)"
      using follows_inGate Suc.IH assms [OF Suc.prems] by blast
    show "\<exists>s'. gate_op (Suc k) nm s = Some (v, s') \<and> agree B S s' t'"
    proof (cases "caches ?b \<and> \<not> g_fChecked (gc_gate c)")
      case True
      obtain b st' e' where i: "inGate (gate_op k) ?b t = Some (b, (st', e'))"
        "(v, t') = (b, (set_cached nm b st', e'))"
        using a(2) gate_op_computes [OF c] True by auto
      obtain s1 where s1: "inGate (gate_op k) ?b s = Some (b, s1)" "agree B S s1 (st', e')"
        using followsD [OF f a(1) i(1)] by blast
      have "gate_op (Suc k) nm s = Some (b, (set_cached nm b (fst s1), snd s1))"
        using gate_op_computes [OF cs] True s1(1) by (simp add: case_prod_unfold)
      then show ?thesis using agree_set_cached [OF s1(2), of nm b] i(2) by auto
    next
      case False
      then show ?thesis using a gate_op_answers [OF c False, of k] gate_op_answers [OF cs False, of k] by auto
    qed
  qed
qed (simp add: follows_def)

text \<open>The decision, with the effect on the gates and the event.\<close>

definition decided :: "gate_store \<times> event \<Rightarrow> gate_store \<times> event \<Rightarrow> bool" where
  "decided s s' \<longleftrightarrow> skeleton (fst s') = skeleton (fst s) \<and> ev_ok (snd s') \<and> ev_abs (snd s') = ev_abs (snd s)"

definition all_reset :: "gate_store \<Rightarrow> gate_store" where
  "all_reset st = map (\<lambda>(k, c). (k, c\<lparr> gc_gate := (gc_gate c)\<lparr> g_fChecked := False \<rparr> \<rparr>)) st"

lemma all_reset_facts [simp]:
  "smap_get (all_reset st) x = map_option (\<lambda>c. c\<lparr> gc_gate := (gc_gate c)\<lparr> g_fChecked := False \<rparr> \<rparr>) (smap_get st x)"
  "skeleton (all_reset st) = skeleton st"
  by (simp add: all_reset_def, auto simp: all_reset_def skeleton_def unflagged_def new_gate_def)

lemma consistent_all_reset: "consistent (all_reset st) ev"
  by (auto simp: consistent_def)

lemma agree_all_reset:
  assumes "reset_in S st"
  shows "agree (bodies st) S (st, e) (all_reset st, e)"
proof -
  have "smap_get st x = smap_get (all_reset st) x" if "x \<in> S" for x
    using that assms by (cases "smap_get st x") (auto simp: reset_in_def)
  then show ?thesis by (simp add: agree_def skeleton_bodies [OF all_reset_facts(2)])
qed

lemma rank_ok_skeleton: "rank_ok r (skeleton st) = rank_ok r st"
  by (fastforce simp: rank_ok_def skeleton_def unflagged_def new_gate_def)

lemma selects:
  assumes ok: "rank_ok r st" "bodies_ok st" "ev_ok e"
    and g: "ef_gate f = Some g" "no_not (bodies st) g" "smap_get st g \<noteq> None" "r g < k"
  shows "\<exists>v s'. CheckCondition k f (st, e) = Some (v, s') \<and>
    gate_den k (bodies st) (ev_abs e) g = Some v \<and> decided (st, e) s'"
proof -
  let ?B = "bodies st" and ?S = "below (bodies st) g"
  have B: "?B g \<noteq> None" using g(3) by (simp add: bodies_def)
  obtain st1 where st1: "RecursiveReset k g st = Some st1" "fewer_flags st st1" "reset_in ?S st1"
    using RecursiveReset_resets [OF rank_ok_ranked [OF ok(1)] g(2) refl B g(4)] by blast
  let ?st = "all_reset st1"
  have sk: "skeleton st1 = skeleton st" using st1(2) by (simp add: fewer_flags_def)
  then have sk2: "skeleton ?st = skeleton st" by simp
  have b: "bodies ?st = ?B" "bodies st1 = ?B" using skeleton_bodies [OF sk2] skeleton_bodies [OF sk] by auto
  have ok': "rank_ok r ?st" "bodies_ok ?st"
    using ok(1,2) sk2 rank_ok_skeleton bodies_ok_skeleton by metis+
  have here: "smap_get ?st g \<noteq> None" using g(3) by (simp add: skeleton_defined [OF sk] del: not_None_eq)
  obtain v st' e' where v: "gate_op k g (?st, e) = Some (v, (st', e'))" "gate_den k (bodies ?st) (ev_abs e) g = Some v"
    "skeleton st' = skeleton ?st" "ev_ok e'" "ev_abs e' = ev_abs e"
    using gate_evaluation_lemma [OF ok'(1,2) consistent_all_reset ok(3) here g(4)] by blast
  have f: "follows ?B ?S (gate_op k g)"
    by (rule follows_gate_op [OF _ below.self]) (auto intro: below.step)
  have "agree ?B ?S (st1, e) (?st, e)" using agree_all_reset [OF st1(3), of e] b(2) by simp
  from followsD [OF f this v(1)] obtain s' where s': "gate_op k g (st1, e) = Some (v, s')" "agree ?B ?S s' (st', e')"
    by blast
  show ?thesis
    using st1(1) g(1) s' v(2-5) b(1) sk by (intro exI [of _ v] exI [of _ s'])
      (auto simp: CheckCondition_def decided_def agree_def)
qed

subsection \<open>Not gates\<close>

text \<open>What a not gate negates is not reset; a value cached for another event decides.\<close>

lemma not_gate_stale:
  assumes "ef_gate f = Some g" "bodies st g = Some (CNot n)" "g \<noteq> n"
    and "smap_get st n = Some d" "caches (g_body (gc_gate d))" "g_fChecked (gc_gate d)"
  shows "\<exists>st'. CheckCondition (Suc (Suc k)) f (st, e) = Some (\<not> g_fCachedValue (gc_gate d), (st', e)) \<and>
    bodies st' = bodies st \<and> smap_get st' n = Some d"
proof -
  obtain c where c: "smap_get st g = Some c" "g_body (gc_gate c) = CNot n" using assms(2) by (auto simp: bodies_def)
  let ?st = "reset_one g st" and ?v = "\<not> g_fCachedValue (gc_gate d)"
  have n: "gate_op (Suc k) n (?st, e) = Some (g_fCachedValue (gc_gate d), (?st, e))"
    using gate_op_answers [of "(?st, e)" n d k] assms(3-6) by simp
  have "gate_op (Suc (Suc k)) g (?st, e) = Some (?v, (set_cached g ?v ?st, e))"
    using gate_op_computes [of "(?st, e)" g "c\<lparr> gc_gate := (gc_gate c)\<lparr> g_fChecked := False \<rparr> \<rparr>" "Suc k"] c n
    by (simp add: caches_iff inGate_def not_inGate_def del: gate_op.simps)
  then show ?thesis using assms(1,3,4) c by (simp add: CheckCondition_def del: gate_op.simps)
qed

end
