(* ===== verification/XdrStreams.thy ===== *)
theory XdrStreams
  imports XdrFilter
begin

text \<open>
  What the XDR output streams hold.  The XDR library is the locale xdr_library, the part of
  RFC 4506 the streams rely on; the stream is then a list of closed blocks and a current
  one, each a list of whole items (headers and events).
\<close>

subsection \<open>The library\<close>

definition padded :: "nat \<Rightarrow> nat" where
  "padded n = 4 * ((n + 3) div 4)"

locale xdr_library =
  fixes l :: xdr_lib
  assumes length_int: "length (xl_int l n) = 4"
    and get_int: "xl_get_int l (xl_int l n @ r) = (Some n, 4)"
    and length_double: "length (xl_double l d) = 8"
    and get_double: "xl_get_double l (xl_double l d @ r) = (Some d, 8)"
    and length_string: "c_string s \<Longrightarrow> length s < 2 ^ 32 \<Longrightarrow> length (xl_string l s) = 4 + padded (length s)"
    and get_string: "c_string s \<Longrightarrow> length s < 2 ^ 32 \<Longrightarrow> length s \<le> k \<Longrightarrow>
      xl_get_string l k (xl_string l s @ r) = (Some s, 4 + padded (length s))"
    and double_words: "xl_double l d = xl_int l (ucast (drop_bit 32 d)) @ xl_int l (ucast d)"
    and string_length: "xl_get_string l k bs = (Some t, m) \<Longrightarrow>
      \<exists>w r. bs = xl_int l w @ r \<and> unat w = length t \<and> length t \<le> k"
    and get_float: "4 \<le> length bs \<Longrightarrow> \<exists>f. xl_get_float l bs = (Some f, 4)"

text \<open>RFC 4506: big-endian, strings with their length in front and padded with zeros.\<close>

definition char_byte :: "char \<Rightarrow> u8" where
  "char_byte c = of_nat (of_char c)"

definition be_nat :: "u8 list \<Rightarrow> nat" where
  "be_nat bs = bytes_nat (rev bs)"

definition get_be :: "nat \<Rightarrow> u8 list \<Rightarrow> 'a::len word option \<times> nat" where
  "get_be n bs = (if length bs < n then (None, 0) else (Some (of_nat (be_nat (take n bs))), n))"

definition rfc4506 :: xdr_lib where
  "rfc4506 =
     \<lparr> xl_int = (\<lambda>n. rev (put32 n)), xl_double = (\<lambda>d. rev (put64 d)),
       xl_string = (\<lambda>s. rev (put32 (of_nat (length s))) @ map char_byte s @
         replicate (padded (length s) - length s) 0),
       xl_partial = (\<lambda>room bs. take (4 * (room div 4)) bs),
       xl_get_int = get_be 4, xl_get_float = get_be 4, xl_get_double = get_be 8,
       xl_get_string = (\<lambda>k bs. case get_be 4 bs of
           (None, n) \<Rightarrow> (None, n)
         | (Some (w :: u32), n) \<Rightarrow>
             (if k < unat w \<or> length bs < 4 + padded (unat w) then (None, 4)
              else (Some (map (\<lambda>b. char_of (unat b)) (take (unat w) (drop 4 bs))), 4 + padded (unat w)))) \<rparr>"

lemma get_be_rev:
  "get_be 4 (rev (put32 n) @ r) = (Some n, 4)" "get_be 8 (rev (put64 d) @ r) = (Some d, 8)"
  using unat_less_power [of n] unat_less_power [of d]
  by (simp_all add: get_be_def be_nat_def put32_def put64_def bytes_nat_bytes)

lemma padded_ge: "n \<le> padded n"
  by (simp add: padded_def)

lemma char_byte_inverse [simp]: "char_of (unat (char_byte c)) = c"
  by (simp add: char_byte_def of_char_byte)

lemma nat_bytes_add: "nat_bytes (m + n) x = nat_bytes m x @ nat_bytes n (x div 256 ^ m)"
  by (induction m arbitrary: x) (simp_all add: div_mult2_eq)

lemma put64_words: "put64 d = put32 (ucast d) @ put32 (ucast (drop_bit 32 d))"
proof -
  have "unat (ucast d :: u32) = unat d mod 2 ^ 32" by (simp add: unsigned_ucast_eq take_bit_eq_mod)
  moreover have "unat (ucast (drop_bit 32 d) :: u32) = unat d div 2 ^ 32"
  proof -
    have "unat d div 2 ^ 32 < 2 ^ 32" using unat_less_power [of d] by (simp add: less_mult_imp_div_less)
    moreover have "unat (drop_bit 32 d) = unat d div 2 ^ 32" by (rule trans [OF unat_drop_bit_eq drop_bit_eq_div])
    ultimately show ?thesis by (simp only: unsigned_ucast_eq take_bit_eq_mod) simp
  qed
  moreover have "nat_bytes 4 (x mod 2 ^ 32) = nat_bytes 4 x" for x
    using nat_bytes_bytes [of "nat_bytes 4 x"] by (simp add: bytes_nat_bytes)
  ultimately show ?thesis
    using nat_bytes_add [of 4 4 "unat d"] by (simp add: put64_def put32_def)
qed

lemma get_be_Some:
  assumes "get_be 4 bs = (Some (w :: u32), n)"
  shows "bs = rev (put32 w) @ drop 4 bs"
proof -
  have len: "4 \<le> length bs" and w: "w = of_nat (be_nat (take 4 bs))"
    using assms by (auto simp: get_be_def split: if_splits)
  have "bytes_nat (rev (take 4 bs)) < 2 ^ 32" using bytes_nat_less [of "rev (take 4 bs)"] len by simp
  then have "unat w = bytes_nat (rev (take 4 bs))" using w by (simp add: be_nat_def unat_of_nat)
  then have "put32 w = rev (take 4 bs)" using nat_bytes_bytes [of "rev (take 4 bs)"] len by (simp add: put32_def)
  then show ?thesis by simp
qed

interpretation rfc: xdr_library rfc4506
proof (unfold_locales, goal_cases)
  case (6 s k r)
  let ?pad = "replicate (padded (length s) - length s) (0 :: u8)"
  have n: "unat (of_nat (length s) :: u32) = length s" using 6(2) by (simp add: unat_of_nat)
  have "get_be 4 (xl_string rfc4506 s @ r) = (Some (of_nat (length s) :: u32), 4)"
    by (simp add: rfc4506_def get_be_rev)
  moreover have "length (xl_string rfc4506 s @ r) = 4 + padded (length s) + length r"
    using padded_ge [of "length s"] by (simp add: rfc4506_def)
  moreover have "take (length s) (drop 4 (xl_string rfc4506 s @ r)) = map char_byte s"
    by (simp add: rfc4506_def)
  ultimately show ?case using 6(3) n by (simp add: rfc4506_def o_def)
next
  case (5 s)
  then show ?case using padded_ge [of "length s"] by (simp add: rfc4506_def)
next
  case (7 d)
  then show ?case by (simp add: rfc4506_def put64_words)
next
  case (8 k bs t m)
  obtain v n where g: "get_be 4 bs = (v :: u32 option, n)" by fastforce
  then obtain w where w: "v = Some w" using 8 by (cases v) (auto simp: rfc4506_def)
  have t: "length t = unat w" "unat w \<le> k"
    using 8 g w padded_ge [of "unat w"] by (auto simp: rfc4506_def split: if_splits)
  show ?case
    using get_be_Some [of bs w n] g w t by (intro exI [of _ w] exI [of _ "drop 4 bs"]) (simp add: rfc4506_def)
next
  case (9 bs)
  then show ?case by (simp add: rfc4506_def get_be_def)
qed (simp_all add: rfc4506_def get_be_rev)

subsection \<open>Items and blocks\<close>

datatype filter_item = Header "string list" | Event "u32 list" "u64 list"

fun item_encs :: "xdr_lib \<Rightarrow> filter_item \<Rightarrow> u8 list list" where
  "item_encs l (Header names) =
     xl_string l ''header'' # xl_int l (of_nat (length names)) # map (xl_string l) names"
| "item_encs l (Event masks vals) = xl_string l ''event'' # map (xl_int l) masks @ map (xl_double l) vals"

definition item_bytes :: "xdr_lib \<Rightarrow> filter_item \<Rightarrow> u8 list" where
  "item_bytes l it = concat (item_encs l it)"

definition items_bytes :: "xdr_lib \<Rightarrow> filter_item list \<Rightarrow> u8 list" where
  "items_bytes l its = concat (map (item_bytes l) its)"

lemma items_bytes_simps [simp]:
  "items_bytes l [] = []" "items_bytes l (it # its) = item_bytes l it @ items_bytes l its"
  "items_bytes l (its @ its') = items_bytes l its @ items_bytes l its'"
  by (simp_all add: items_bytes_def)

text \<open>A block: the count of its bytes, the items, and anything up to the size.\<close>

definition is_block :: "xdr_lib \<Rightarrow> nat \<Rightarrow> u8 list \<Rightarrow> u8 list \<Rightarrow> bool" where
  "is_block l n bs x \<longleftrightarrow> length x = n \<and> (\<exists>r. x = xl_int l (of_nat (4 + length bs)) @ bs @ r)"

definition out_ok :: "xdr_out \<Rightarrow> u8 list \<Rightarrow> bool" where
  "out_ok s bs \<longleftrightarrow>
     xo_open s \<and> \<not> xo_freed s \<and> length (xo_buffer s) = xo_size s \<and> xo_size s < 2 ^ 30 \<and>
     xo_pos s = 4 + length bs \<and> 4 + length bs \<le> xo_size s \<and>
     (\<exists>h r. length h = 4 \<and> xo_buffer s = h @ bs @ r) \<and>
     (\<forall>i. \<exists>n. xo_write s i = Some n \<and> xo_size s \<le> n)"

definition file_holds :: "xdr_lib \<Rightarrow> nat \<Rightarrow> filter_item list list \<Rightarrow> u8 list \<Rightarrow> bool" where
  "file_holds l n blocks f \<longleftrightarrow>
     (\<exists>xs. f = concat xs \<and> list_all2 (\<lambda>b x. is_block l n (items_bytes l b) x) blocks xs)"

text \<open>bs are the bytes of the current block.\<close>

definition out_bytes :: "xdr_lib \<Rightarrow> nat \<Rightarrow> xdr_out \<Rightarrow> filter_item list list \<Rightarrow> u8 list \<Rightarrow> bool" where
  "out_bytes l n s blocks bs \<longleftrightarrow> out_ok s bs \<and> xo_size s = n \<and> file_holds l n blocks (xo_file s)"

definition out_holds :: "xdr_lib \<Rightarrow> nat \<Rightarrow> xdr_out \<Rightarrow> filter_item list list \<Rightarrow> filter_item list \<Rightarrow> bool" where
  "out_holds l n s blocks cur \<longleftrightarrow> out_bytes l n s blocks (items_bytes l cur)"

lemma file_holds_snoc:
  "file_holds l n blocks f \<Longrightarrow> is_block l n (items_bytes l b) x \<Longrightarrow> file_holds l n (blocks @ [b]) (f @ x)"
  unfolding file_holds_def
  by (elim exE conjE) (rule exI [where x = "_ @ [x]"], auto intro: list_all2_appendI)

lemma Test_small:
  "xo_pos s + 2 * k < 2 ^ 32 \<Longrightarrow> Test k s \<longleftrightarrow> xo_pos s + 2 * k < xo_size s"
  by (simp add: Test_def mult.commute)

context xdr_library
begin

lemma emit_fits:
  assumes "out_ok s bs" "4 + length bs + length enc \<le> xo_size s"
  shows "\<exists>s'. emit l enc s = (s', True) \<and> out_ok s' (bs @ enc) \<and> xo_size s' = xo_size s \<and> xo_file s' = xo_file s"
proof -
  obtain h r where b: "length h = 4" "xo_buffer s = h @ bs @ r" using assms(1) by (auto simp: out_ok_def)
  have p: "xo_pos s = 4 + length bs" "length (xo_buffer s) = xo_size s" using assms(1) by (auto simp: out_ok_def)
  have r: "length enc \<le> length r" using assms(2) b p by simp
  let ?s = "s\<lparr> xo_buffer := h @ bs @ enc @ drop (length enc) r, xo_pos := xo_pos s + length enc \<rparr>"
  have "emit l enc s = (?s, True)" using assms(2) b p by (simp add: emit_def Let_def)
  moreover have "out_ok ?s (bs @ enc)"
    using assms b p r by (auto simp: out_ok_def)
  ultimately show ?thesis by auto
qed

text \<open>Rewriting the count in front.\<close>

lemma emit_front:
  assumes "out_ok s bs" "length h = 4"
  shows "\<exists>r. fst (emit l h (s\<lparr> xo_pos := 0 \<rparr>)) = s\<lparr> xo_buffer := h @ bs @ r, xo_pos := 4 \<rparr> \<and>
    length (h @ bs @ r) = xo_size s"
proof -
  obtain h' r where b: "length h' = 4" "xo_buffer s = h' @ bs @ r" using assms(1) by (auto simp: out_ok_def)
  have "length (h @ bs @ r) = xo_size s" "4 \<le> xo_size s" using assms b by (auto simp: out_ok_def)
  then show ?thesis using b assms(2) by (intro exI [of _ r]) (simp add: emit_def Let_def)
qed

lemma Flush_bytes:
  assumes "out_ok s bs"
  shows "\<exists>s' x. Flush l s = Inr s' \<and> out_ok s' [] \<and> xo_size s' = xo_size s \<and> xo_file s' = xo_file s @ x \<and>
    is_block l (xo_size s) bs x"
proof -
  let ?h = "xl_int l (of_nat (xo_pos s))"
  have p: "xo_pos s = 4 + length bs" using assms by (simp add: out_ok_def)
  obtain r where r: "fst (emit l ?h (s\<lparr> xo_pos := 0 \<rparr>)) = s\<lparr> xo_buffer := ?h @ bs @ r, xo_pos := 4 \<rparr>"
    "length (?h @ bs @ r) = xo_size s"
    using emit_front [OF assms length_int] by blast
  obtain n where n: "xo_write s (xo_calls s) = Some n" "xo_size s \<le> n" using assms by (auto simp: out_ok_def)
  let ?x = "?h @ bs @ r"
  have t: "take n ?x = ?x" using n(2) r(2) by simp
  let ?u = "s\<lparr> xo_buffer := ?x, xo_calls := Suc (xo_calls s), xo_file := xo_file s @ ?x, xo_pos := 4 \<rparr>"
  let ?s = "?u\<lparr> xo_blocks := Suc (xo_blocks s) \<rparr>"
  have e: "fst (emit l ?h (s\<lparr> xo_buffer := ?x, xo_calls := Suc (xo_calls s), xo_file := xo_file s @ ?x, xo_pos := 0 \<rparr>)) = ?u"
    using length_int [of "of_nat (xo_pos s)"] r(2) by (simp add: emit_def Let_def)
  have "Flush l s = Inr ?s"
    using r(1) n(1) t e by (simp add: Flush_def Let_def)
  moreover have "out_ok ?s []"
    using assms r(2) length_int unfolding out_ok_def
    by auto
  moreover have "is_block l (xo_size s) bs ?x"
    using r(2) p by (auto simp: is_block_def)
  ultimately show ?thesis by auto
qed

lemma Flush_out:
  assumes "out_bytes l n s blocks (items_bytes l cur)"
  shows "\<exists>s'. Flush l s = Inr s' \<and> out_bytes l n s' (blocks @ [cur]) []"
proof -
  have s: "out_ok s (items_bytes l cur)" "xo_size s = n" "file_holds l n blocks (xo_file s)"
    using assms by (auto simp: out_bytes_def)
  obtain s' x where s': "Flush l s = Inr s'" "out_ok s' []" "xo_size s' = n" "xo_file s' = xo_file s @ x"
    "is_block l n (items_bytes l cur) x"
    using Flush_bytes [OF s(1)] s(2) by auto
  then show ?thesis using file_holds_snoc [OF s(3) s'(5)] by (auto simp: out_bytes_def)
qed

lemma out_bytes_pos: "out_bytes l n s blocks bs \<Longrightarrow> xo_pos s = 4 + length bs \<and> 4 + length bs \<le> n \<and> n < 2 ^ 30"
  by (auto simp: out_bytes_def out_ok_def)

lemma Test_out:
  assumes "out_bytes l n s blocks bs" "k < 2 ^ 30 + 2 ^ 29"
  shows "Test k s \<longleftrightarrow> 4 + length bs + 2 * k < n"
  using out_bytes_pos [OF assms(1)] assms by (subst Test_small) (auto simp: out_bytes_def)

end

text \<open>Several encodings in a row.\<close>

fun puts :: "xdr_lib \<Rightarrow> u8 list list \<Rightarrow> xdr_out \<Rightarrow> xdr_result" where
  "puts l [] s = Inr s"
| "puts l (enc # encs) s = bind_xdr (Put l enc s) (puts l encs)"

lemma bind_xdr_assoc: "bind_xdr (bind_xdr r f) g = bind_xdr r (\<lambda>s. bind_xdr (f s) g)"
  by (cases r) auto

lemma bind_xdr_Inr [simp]: "bind_xdr r Inr = r"
  by (cases r) auto

lemma puts_append: "puts l (as @ bs) s = bind_xdr (puts l as s) (puts l bs)"
proof (induction as arbitrary: s)
  case (Cons a as)
  then have "puts l (as @ bs) = (\<lambda>s. bind_xdr (puts l as s) (puts l bs))" by (intro ext)
  then show ?case by (simp add: bind_xdr_assoc)
qed simp

lemma puts_append_fun: "puts l (as @ bs) = (\<lambda>s. bind_xdr (puts l as s) (puts l bs))"
  by (rule ext) (rule puts_append)

lemma put_ints_puts: "put_ints l ns s = puts l (map (xl_int l) ns) s"
  by (induction ns arbitrary: s) (simp_all add: put_int_def, metis)

context xdr_library
begin

text \<open>
  Items that fit the block they are written to stay together; the block is closed at
  most after the last of them, when no two bytes are left.
\<close>

lemma puts_fit:
  assumes "out_bytes l n s blocks bs" "\<forall>e \<in> set encs. 4 \<le> length e" "encs \<noteq> []"
    and "4 + length bs + length (concat encs) \<le> n" "bs @ concat encs = items_bytes l cur"
  shows "\<exists>s'. puts l encs s = Inr s' \<and>
    (out_bytes l n s' blocks (items_bytes l cur) \<or> out_bytes l n s' (blocks @ [cur]) [])"
  using assms
proof (induction encs arbitrary: s bs)
  case (Cons e encs)
  have o: "out_ok s bs" "xo_size s = n" "file_holds l n blocks (xo_file s)"
    using Cons.prems(1) by (auto simp: out_bytes_def)
  have fit: "4 + length bs + length e \<le> xo_size s" using Cons.prems(4) o(2) by simp
  obtain s1 where e: "emit l e s = (s1, True)" "out_bytes l n s1 blocks (bs @ e)"
    using emit_fits [OF o(1) fit] o by (auto simp: out_bytes_def)
  have P: "Put l e s = (if Test 1 s1 then Inr s1 else Flush l s1)" using e(1) by (simp add: Put_def Require_def)
  show ?case
  proof (cases "encs = []")
    case True
    then have c: "bs @ e = items_bytes l cur" using Cons.prems(5) by simp
    show ?thesis
    proof (cases "Test 1 s1")
      case True
      then show ?thesis using P e(2) c \<open>encs = []\<close> by auto
    next
      case False
      obtain s2 where "Flush l s1 = Inr s2" "out_bytes l n s2 (blocks @ [cur]) []"
        using Flush_out [of n s1 blocks cur] e(2) c by auto
      then show ?thesis using P False \<open>encs = []\<close> by auto
    qed
  next
    case False
    then obtain e' es where es: "encs = e' # es" by (cases encs) auto
    then have "4 \<le> length e'" using Cons.prems(2) by simp
    then have "Test 1 s1" using Test_out [OF e(2), of 1] Cons.prems(4) es by simp
    then have "puts l (e # encs) s = puts l encs s1" using P by simp
    moreover have "4 + length (bs @ e) + length (concat encs) \<le> n" "(bs @ e) @ concat encs = items_bytes l cur"
      "\<forall>e \<in> set encs. 4 \<le> length e"
      using Cons.prems(2,4,5) by auto
    ultimately show ?thesis using Cons.IH [OF e(2) _ False] by auto
  qed
qed simp

text \<open>A string that is to start a run of items, on a stream with room enough.\<close>

lemma put_string_room:
  assumes "out_bytes l n s blocks bs" "c_string c" "length c + 1 < 2 ^ 30" "4 + length bs + 2 * (length c + 1) < n"
  shows "put_string l c s = Put l (xl_string l c) s"
  using Test_out [OF assms(1), of "length c + 1"] assms by (simp add: put_string_def Require_def)

end

end
