(* ===== verification/FilterDecoder.thy ===== *)
theory FilterDecoder
  imports Xdr
begin

text \<open>
  CFilterBufferDecoder (src/main/Core/FilterBufferDecoder.cpp): the blocks of an XDR filter
  file are translated, block by block, to the native format the filter event processor
  unpacks, and handed to the analyzer.  The analyzer and the run control are arguments:
  functions on a state of their own, an analyzer call also telling whether it returned
  normally.  The translated buffer is the list of the bytes written to it, fd_room its size.
\<close>

subsection \<open>State\<close>

record filter_decoder =
  fd_translated :: "u8 list option"
  fd_room :: nat
  fd_paramCount :: i32
  fd_nBytes :: i32
  fd_type :: u16
  fd_entities :: u16
  fd_seenHeader :: bool
  fd_translator :: bool
  fd_isSingle :: bool

definition new_filter_decoder :: "bool \<Rightarrow> filter_decoder" where
  "new_filter_decoder junk =
     \<lparr> fd_translated = None, fd_room = 0, fd_paramCount = 0, fd_nBytes = 0, fd_type = 0, fd_entities = 0,
       fd_seenHeader = False, fd_translator = False, fd_isSingle = junk \<rparr>"

definition fd_OnSourceAttach :: "filter_decoder \<Rightarrow> filter_decoder" where
  "fd_OnSourceAttach d =
     d\<lparr> fd_paramCount := 0, fd_seenHeader := False, fd_translator := False, fd_translated := None, fd_room := 0 \<rparr>"

definition fd_getBody :: "filter_decoder \<Rightarrow> u8 list option" where
  "fd_getBody d = fd_translated d"

definition fd_getBodySize :: "filter_decoder \<Rightarrow> u32" where
  "fd_getBodySize d = fd_nBytes d"

definition fd_getEntityCount :: "filter_decoder \<Rightarrow> u32" where
  "fd_getEntityCount d = ucast (fd_entities d)"

definition fd_getBufferType :: "filter_decoder \<Rightarrow> u32" where
  "fd_getBufferType d = ucast (fd_type d)"

text \<open>What does not depend on the data: run, sequence number, LAM and pattern counts, byte order, title.\<close>

definition fd_getRun :: "filter_decoder \<Rightarrow> u32" where "fd_getRun d = 0"
definition fd_getSequenceNo :: "filter_decoder \<Rightarrow> u32" where "fd_getSequenceNo d = 0"
definition fd_getLamCount :: "filter_decoder \<Rightarrow> u32" where "fd_getLamCount d = 0"
definition fd_getPatternCount :: "filter_decoder \<Rightarrow> u32" where "fd_getPatternCount d = 0"
definition fd_getByteOrder :: "filter_decoder \<Rightarrow> u16 \<times> u32" where "fd_getByteOrder d = (0x0102, 0x01020304)"
definition fd_getTitle :: "filter_decoder \<Rightarrow> string" where "fd_getTitle d = ''Filtered Data - no title''"

definition fd_PARAMDESCRIP :: u16 where "fd_PARAMDESCRIP = 30"
definition fd_DATABF :: u16 where "fd_DATABF = 1"

subsection \<open>Counting\<close>

text \<open>The count is converted to 64 bits, unsigned, for the division and back to an int.\<close>

definition numBitmasks :: "i32 \<Rightarrow> i32" where
  "numBitmasks n = ucast ((scast n + 4 * 8 - 1 :: u64) div (4 * 8))"

definition CountBits :: "u32 \<Rightarrow> nat" where
  "CountBits m = length (filter (bit m) (rev [0..<32]))"

text \<open>A loop for(i = 0; i < n; i++) over an int n.\<close>

definition times :: "i32 \<Rightarrow> nat" where
  "times n = nat (sint n)"

text \<open>The conversion of a float to a double, on bit patterns.\<close>

definition widen :: "u32 \<Rightarrow> u64" where
  "widen f =
     (let s = push_bit 63 (ucast (drop_bit 31 f) :: u64); ex = unat (take_bit 8 (drop_bit 23 f));
          fr = unat (take_bit 23 f); k = last (0 # filter (bit f) [0..<23])
      in if ex = 255 then or s (or (push_bit 52 0x7FF) (push_bit 29 (of_nat fr)))
         else if ex = 0 then
           (if fr = 0 then s
            else or s (or (push_bit 52 (of_nat (k + 874))) (push_bit (52 - k) (of_nat (fr - 2 ^ k)))))
         else or s (or (push_bit 52 (of_nat (ex + 896))) (push_bit 29 (of_nat fr))))"

subsection \<open>The analyzer\<close>

record 'w fd_clients =
  fc_OnOther :: "u32 \<Rightarrow> filter_decoder \<Rightarrow> 'w \<Rightarrow> 'w \<times> bool"
  fc_OnPhysics :: "filter_decoder \<Rightarrow> 'w \<Rightarrow> 'w \<times> bool"
  fc_OnEnd :: "'w \<Rightarrow> 'w"

text \<open>
  How a call ends: normally with the input stream as it is left, with an exception, with an
  access outside a buffer or the use of an indeterminate value, or out of fuel.
\<close>

datatype 'w fd_result =
    FdDone filter_decoder xdr_in 'w
  | FdThrows filter_decoder 'w
  | FdUndefined
  | FdRunning

fun read_names :: "xdr_lib \<Rightarrow> nat \<Rightarrow> xdr_in \<Rightarrow> string list \<times> xdr_in" where
  "read_names l 0 s = ([], s)"
| "read_names l (Suc n) s =
     (let (nm, s1) = xi_string l s; (nms, s2) = read_names l n s1 in (nm # nms, s2))"

text \<open>With testing, for the null analyzer, the names are only skipped.\<close>

definition ProcessHeader ::
  "xdr_lib \<Rightarrow> 'w fd_clients option \<Rightarrow> filter_decoder \<Rightarrow> xdr_in \<Rightarrow> 'w \<Rightarrow> 'w fd_result" where
  "ProcessHeader l clients d xdr w =
     (let testing = (clients = None);
          d0 = (if testing then d\<lparr> fd_nBytes := 0 \<rparr>
                else d\<lparr> fd_nBytes := 7, fd_translated := Some (put_cstring ''header'') \<rparr>)
      in case xi_Get l (xl_get_int l) xdr of
           None \<Rightarrow> FdThrows d0 w
         | Some (None, _) \<Rightarrow> FdUndefined
         | Some (Some n, xdr1) \<Rightarrow>
             (let (names, xdr2) = read_names l (times n) xdr1
              in case clients of
                   None \<Rightarrow> FdDone (d0\<lparr> fd_seenHeader := True \<rparr>) xdr2 w
                 | Some c \<Rightarrow>
                     (let body = put_cstring ''header'' @ put32 n @ concat (map put_cstring names)
                      in if fd_room d < length body then FdUndefined
                         else (let d1 = d0\<lparr> fd_translated := Some body, fd_nBytes := of_nat (length body),
                                      fd_seenHeader := True, fd_entities := ucast (fd_paramCount d),
                                      fd_type := fd_PARAMDESCRIP, fd_paramCount := fd_paramCount d + n \<rparr>;
                                   (w', ok) = fc_OnOther c (ucast fd_PARAMDESCRIP) d1 w
                               in if ok then FdDone d1 xdr2 w' else FdThrows d1 w'))))"

subsection \<open>Events\<close>

definition read_values :: "xdr_lib \<Rightarrow> bool \<Rightarrow> nat \<Rightarrow> xdr_in \<Rightarrow> (u64 option list \<times> xdr_in) option" where
  "read_values l single n s =
     (if single then map_option (\<lambda>(vs, s'). (map (map_option widen) vs, s')) (xi_items l (xl_get_float l) n s)
      else xi_items l (xl_get_double l) n s)"

text \<open>The translation of an event, once the string event was read.\<close>

datatype event_read = Translated "u8 list" xdr_in | ReadThrows | ReadUndefined

definition translate_event :: "xdr_lib \<Rightarrow> bool \<Rightarrow> nat \<Rightarrow> xdr_in \<Rightarrow> event_read" where
  "translate_event l single nBitmasks s = (case xi_items l (xl_get_int l) nBitmasks s of
      None \<Rightarrow> ReadThrows
    | Some (masks, s1) \<Rightarrow>
        (if None \<in> set masks then ReadUndefined
         else (let ms = map the masks
               in case read_values l single (sum_list (map CountBits ms)) s1 of
                    None \<Rightarrow> ReadThrows
                  | Some (vs, s2) \<Rightarrow>
                      (if None \<in> set vs then ReadUndefined
                       else Translated (put_cstring ''event'' @ concat (map put32 ms) @ concat (map put64 (map the vs))) s2))))"

text \<open>
  The loop; out is what has been translated so far, ent the entities of it.  What a loop that
  throws has written is not kept: the next block starts with a new buffer.
\<close>

datatype events_end = Closed "u8 list" u16 xdr_in | NotEvent "u8 list" u16 xdr_in | EvThrows u16 | EvUndefined | EvRunning

fun events_loop :: "nat \<Rightarrow> xdr_lib \<Rightarrow> bool \<Rightarrow> nat \<Rightarrow> nat \<Rightarrow> xdr_in \<Rightarrow> u8 list \<Rightarrow> u16 \<Rightarrow> events_end" where
  "events_loop 0 l single nBitmasks room s out ent = EvRunning"
| "events_loop (Suc k) l single nBitmasks room s out ent =
     (if \<not> xi_open s then Closed out ent s
      else (case translate_event l single nBitmasks s of
              ReadThrows \<Rightarrow> EvThrows ent
            | ReadUndefined \<Rightarrow> EvUndefined
            | Translated bs s1 \<Rightarrow>
                (let out' = out @ bs; ent' = ent + 1
                 in if room < length out' then EvUndefined
                    else if xi_open s1 then
                      (let (header, s2) = xi_string l s1
                       in if header \<noteq> ''event'' then NotEvent out' ent' s2
                          else events_loop k l single nBitmasks room s2 out' ent')
                    else events_loop k l single nBitmasks room s1 out' ent')))"

definition physics_decoder :: "u8 list \<Rightarrow> u16 \<Rightarrow> filter_decoder \<Rightarrow> filter_decoder" where
  "physics_decoder out ent d =
     d\<lparr> fd_translated := Some out, fd_entities := ent, fd_nBytes := of_nat (length out), fd_type := fd_DATABF \<rparr>"

definition ProcessEvents ::
  "nat \<Rightarrow> xdr_lib \<Rightarrow> 'w fd_clients \<Rightarrow> filter_decoder \<Rightarrow> xdr_in \<Rightarrow> 'w \<Rightarrow> 'w fd_result" where
  "ProcessEvents k l c d xdr w =
     (case events_loop k l (fd_isSingle d) (times (numBitmasks (fd_paramCount d))) (fd_room d) xdr [] 0 of
        EvRunning \<Rightarrow> FdRunning
      | EvUndefined \<Rightarrow> FdUndefined
      | EvThrows ent \<Rightarrow> FdThrows (d\<lparr> fd_entities := ent \<rparr>) w
      | Closed out ent s \<Rightarrow>
          (let d' = physics_decoder out ent d; (w', ok) = fc_OnPhysics c d' w
           in if ok then FdDone d' s w' else FdThrows d' w')
      | NotEvent out ent s \<Rightarrow>
          (let d' = physics_decoder out ent d; (w', ok) = fc_OnPhysics c d' w
           in if ok then FdDone d' s (fc_OnEnd c w') else FdThrows d' w'))"

text \<open>
  dataWidth reads the first event as if its values were floats and looks whether another
  event follows.  It returns whether it threw (None), or the answer; only m_nBytes and
  m_fSeenHeader of the decoder can change.
\<close>

datatype width_result = Width bool filter_decoder | WidthThrows filter_decoder | WidthUndefined

definition dataWidth :: "xdr_lib \<Rightarrow> i32 \<Rightarrow> u8 list \<Rightarrow> u8 list \<Rightarrow> filter_decoder \<Rightarrow> width_result" where
  "dataWidth l n0 junk data d =
     (let xdr = xi_Connect l (new_xdr_in data junk n0);
          (ty, x1) = xi_string l xdr;
          after = (\<lambda>d x. case xi_items l (xl_get_int l) (times (numBitmasks (fd_paramCount d))) x of
                  None \<Rightarrow> WidthThrows d
                | Some (masks, x2) \<Rightarrow>
                    (if None \<in> set masks then WidthUndefined
                     else (case xi_items l (xl_get_float l) (sum_list (map (CountBits \<circ> the) masks)) x2 of
                             None \<Rightarrow> WidthThrows d
                           | Some (_, x3) \<Rightarrow> Width (fst (xi_string l x3) = ''event'') d)))
      in if ty = ''header'' then
           (case ProcessHeader l None d x1 () of
              FdDone d' x2 _ \<Rightarrow> after d' (snd (xi_string l x2))
            | FdThrows d' _ \<Rightarrow> WidthThrows d'
            | _ \<Rightarrow> WidthUndefined)
         else after d x1)"

definition width_and_events ::
  "nat \<Rightarrow> xdr_lib \<Rightarrow> 'w fd_clients \<Rightarrow> i32 \<Rightarrow> u8 list \<Rightarrow> u8 list \<Rightarrow> filter_decoder \<Rightarrow> xdr_in \<Rightarrow> 'w \<Rightarrow> 'w fd_result" where
  "width_and_events k l c n0 junk data d xdr w = (case dataWidth l n0 junk data d of
      WidthUndefined \<Rightarrow> FdUndefined
    | WidthThrows d' \<Rightarrow> FdThrows d' w
    | Width b d' \<Rightarrow> ProcessEvents k l c (d'\<lparr> fd_isSingle := b \<rparr>) xdr w)"

text \<open>
  TranslateBuffer on a stream connected to the block: the first item is the header or an
  event; without a header seen so far the run is ended.
\<close>

definition TranslateBuffer ::
  "nat \<Rightarrow> xdr_lib \<Rightarrow> 'w fd_clients \<Rightarrow> i32 \<Rightarrow> u8 list \<Rightarrow> u8 list \<Rightarrow> filter_decoder \<Rightarrow> xdr_in \<Rightarrow> 'w \<Rightarrow> 'w fd_result" where
  "TranslateBuffer k l c n0 junk data d xdr w =
     (let d0 = d\<lparr> fd_translated := Some [], fd_room := length data * 2, fd_translator := True \<rparr>;
          (itemtype, x1) = xi_string l xdr;
          rest = (\<lambda>d x w.
            if \<not> fd_seenHeader d then FdDone d x (fc_OnEnd c w)
            else if \<not> xi_open x then FdDone d x w
            else if itemtype = ''event'' then width_and_events k l c n0 junk data d x w
            else (let (itemtype', x') = xi_string l x
                  in if itemtype' \<noteq> ''event'' then FdDone d x' w
                     else width_and_events k l c n0 junk data d x' w))
      in if itemtype = ''header'' then
           (case ProcessHeader l (Some c) d0 x1 w of FdDone d1 x2 w' \<Rightarrow> rest d1 x2 w' | r \<Rightarrow> r)
         else rest d0 x1 w)"

text \<open>operator(): exceptions are reported and dropped.\<close>

definition decode_block ::
  "nat \<Rightarrow> xdr_lib \<Rightarrow> 'w fd_clients \<Rightarrow> i32 \<Rightarrow> u8 list \<Rightarrow> u8 list \<Rightarrow> filter_decoder \<Rightarrow> 'w \<Rightarrow> (filter_decoder \<times> 'w) option" where
  "decode_block k l c n0 junk data d w =
     (case TranslateBuffer k l c n0 junk data d (xi_Connect l (new_xdr_in data junk n0)) w of
        FdDone d' _ w' \<Rightarrow> Some (d', w')
      | FdThrows d' w' \<Rightarrow> Some (d', w')
      | _ \<Rightarrow> None)"

end
