(* ===== verification/FilterProcessor.thy ===== *)
theory FilterProcessor
  imports FilterDecoder FribFilter TclAnalyzer Histogrammer
begin

text \<open>
  CFilterEventProcessor (src/main/Core/FilterEventProcessor.cpp): the event processor that
  unpacks what the filter buffer decoder translated, as an element of the analyzer's
  pipeline.  It keeps the parameters of the positions in the bit masks of the events.
\<close>

subsection \<open>State\<close>

text \<open>fp_bad: memory past the end of the body, or outside an event, has been used.\<close>

record filter_world =
  fp_map :: "i32 list"
  fp_bad :: bool

definition new_filter_world :: filter_world where
  "new_filter_world = \<lparr> fp_map = [], fp_bad = False \<rparr>"

definition fp_fail :: "filter_world tcl \<Rightarrow> filter_world tcl" where
  "fp_fail t = t\<lparr> ta_world := (ta_world t)\<lparr> fp_bad := True \<rparr> \<rparr>"

subsection \<open>Headers\<close>

definition map_number :: "(string \<Rightarrow> u32 option) \<Rightarrow> string \<Rightarrow> i32" where
  "map_number pnum nm = (case pnum nm of Some n \<Rightarrow> n | None \<Rightarrow> - 1)"

fun map_names :: "(string \<Rightarrow> u32 option) \<Rightarrow> nat \<Rightarrow> u8 list \<Rightarrow> i32 list \<Rightarrow> i32 list \<times> bool" where
  "map_names pnum 0 bs m = (m, True)"
| "map_names pnum (Suc n) bs m = (case get_cstring bs of
      None \<Rightarrow> (m, False)
    | Some (nm, r) \<Rightarrow> map_names pnum n r (m @ [map_number pnum nm]))"

text \<open>pnum is the histogrammer's lookup of a parameter's number by name.\<close>

definition fp_OnOther :: "(string \<Rightarrow> u32 option) \<Rightarrow> u8 list \<Rightarrow> filter_world tcl \<Rightarrow> filter_world tcl \<times> bool" where
  "fp_OnOther pnum body t =
     (case get_cstring body of
        None \<Rightarrow> (fp_fail t, True)
      | Some (hdr, r) \<Rightarrow>
          (if hdr \<noteq> ''header'' then (t, True)
           else (case get32 r of
                   None \<Rightarrow> (fp_fail t, True)
                 | Some numParams \<Rightarrow>
                     (let (m, ok) = map_names pnum (times numParams) (drop 4 r) (fp_map (ta_world t));
                          t' = t\<lparr> ta_world := (ta_world t)\<lparr> fp_map := m \<rparr> \<rparr>
                      in (if ok then t' else fp_fail t', True)))))"

subsection \<open>Events\<close>

datatype 'a fp_step = FpOk 'a | FpThrow | FpBad

text \<open>The bits of a mask; ParamNo counts the positions.\<close>

fun place_bits :: "i32 list \<Rightarrow> u32 \<Rightarrow> nat list \<Rightarrow> nat \<Rightarrow> i32 list \<Rightarrow> (nat \<times> i32 list) fp_step" where
  "place_bits pm msk [] no pl = FpOk (no, pl)"
| "place_bits pm msk (b # bs) no pl =
     (if bit msk b then
        (if no < length pm then place_bits pm msk bs (Suc no) (pl @ [pm ! no]) else FpThrow)
      else place_bits pm msk bs (Suc no) pl)"

fun read_masks :: "nat \<Rightarrow> i32 list \<Rightarrow> u8 list \<Rightarrow> nat \<Rightarrow> i32 list \<Rightarrow> (i32 list \<times> u8 list) fp_step" where
  "read_masks 0 pm bs no pl = FpOk (pl, bs)"
| "read_masks (Suc n) pm bs no pl = (case get32 bs of
      None \<Rightarrow> FpBad
    | Some msk \<Rightarrow> (case place_bits pm msk [0..<32] no pl of
         FpOk (no', pl') \<Rightarrow> read_masks n pm (drop 4 bs) no' pl'
       | FpThrow \<Rightarrow> FpThrow
       | FpBad \<Rightarrow> FpBad))"

fun read_parameters :: "i32 list \<Rightarrow> u8 list \<Rightarrow> event \<Rightarrow> (event \<times> u8 list) option" where
  "read_parameters [] bs e = Some (e, bs)"
| "read_parameters (nTarget # pl) bs e = (case get64 bs of
      None \<Rightarrow> None
    | Some w \<Rightarrow>
        (if 0 \<le> sint nTarget then (case ev_set nTarget (f64_value w) e of
            None \<Rightarrow> None
          | Some e' \<Rightarrow> read_parameters pl (drop 8 bs) e')
         else read_parameters pl (drop 8 bs) e))"

definition fp_masks :: "i32 list \<Rightarrow> nat" where
  "fp_masks m = (length m + 4 * 8 - 1) div (4 * 8)"

text \<open>An event format error of this processor never knows the event's size.\<close>

definition fp_operator :: "u8 list \<Rightarrow> nat \<Rightarrow> event \<Rightarrow> filter_world tcl \<Rightarrow>
    filter_world tcl \<times> event \<times> bool \<times> ep_result" where
  "fp_operator body d e t =
     (case get_cstring (drop d body) of
        None \<Rightarrow> (fp_fail t, e, False, Throws)
      | Some (header, r) \<Rightarrow>
          (if header \<noteq> ''event'' then (t, e, False, ThrowsFormat False)
           else if fp_map (ta_world t) = [] then (t, e, False, ThrowsFormat False)
           else (case read_masks (fp_masks (fp_map (ta_world t))) (fp_map (ta_world t)) r 0 [] of
                   FpThrow \<Rightarrow> (t, e, False, ThrowsFormat False)
                 | FpBad \<Rightarrow> (fp_fail t, e, False, Throws)
                 | FpOk (pl, r') \<Rightarrow> (case read_parameters pl r' e of
                      None \<Rightarrow> (fp_fail t, e, False, Throws)
                    | Some (e', r'') \<Rightarrow>
                        (SetEventSize (of_nat (length (drop d body) - length r'')) t, e', False, Success True)))))"

definition fp_OnEventSourceOpen :: "filter_world tcl \<Rightarrow> filter_world tcl \<times> bool" where
  "fp_OnEventSourceOpen t = (t\<lparr> ta_world := (ta_world t)\<lparr> fp_map := [] \<rparr> \<rparr>, True)"

text \<open>
  The processor for a buffer with this body; what it does not override is CEventProcessor's,
  which does nothing and succeeds.
\<close>

definition filter_processor :: "(string \<Rightarrow> u32 option) \<Rightarrow> u8 list \<Rightarrow> filter_world event_processor" where
  "filter_processor pnum body =
     \<lparr> ep_operator = fp_operator body, ep_OnBegin = (\<lambda>t. (t, True)), ep_OnEnd = (\<lambda>t. (t, True)),
       ep_OnPause = (\<lambda>t. (t, True)), ep_OnResume = (\<lambda>t. (t, True)),
       ep_OnOther = (\<lambda>n. fp_OnOther pnum body), ep_OnInitialize = (\<lambda>t. (t, True)),
       ep_OnEventSourceEOF = (\<lambda>t. (t, True)) \<rparr>"

text \<open>The lookup the processor does, on the histogrammer.\<close>

definition find_number :: "histogrammer \<Rightarrow> string \<Rightarrow> u32 option" where
  "find_number h nm = map_option pa_number (FindParameter nm h)"

end
