(* ===== verification/FilterMasks.thy ===== *)
theory FilterMasks
  imports FilterProcessor XdrFilter
begin

text \<open>
  The bit masks of filtered events: the masks the output stage builds from which parameters
  are valid, and what the decoder and the event processor make of them.
\<close>

subsection \<open>Building masks\<close>

fun set_flags :: "nat \<Rightarrow> bool list \<Rightarrow> u32 list \<Rightarrow> u32 list" where
  "set_flags i [] m = m"
| "set_flags i (b # bs) m = set_flags (Suc i) bs (if b then setBit m i else m)"

definition masks_of :: "bool list \<Rightarrow> u32 list" where
  "masks_of bs = set_flags 0 bs (replicate (mask_words (length bs)) 0)"

definition flags_of :: "u32 list \<Rightarrow> event \<Rightarrow> bool list" where
  "flags_of ps e = map (\<lambda>p. ev_abs e (unat p) \<noteq> None) ps"

definition values_of :: "u32 list \<Rightarrow> event \<Rightarrow> ptype list" where
  "values_of ps e = map (\<lambda>p. the (ev_abs e (unat p))) (filter (\<lambda>p. ev_abs e (unat p) \<noteq> None) ps)"

lemma length_setBit [simp]: "length (setBit m i) = length m"
  by (simp add: setBit_def)

lemma length_set_flags [simp]: "length (set_flags i bs m) = length m"
  by (induction bs arbitrary: i m) auto

lemma length_masks_of [simp]: "length (masks_of bs) = mask_words (length bs)"
  by (simp add: masks_of_def)

lemma bit_setBit:
  assumes "w < length m" "j < 32" "i div 32 < length m"
  shows "bit (setBit m i ! w) j \<longleftrightarrow> bit (m ! w) j \<or> 32 * w + j = i"
proof -
  have "32 * w + j = i \<longleftrightarrow> w = i div 32 \<and> j = i mod 32" using assms(2) by auto
  then show ?thesis
    using assms by (auto simp: setBit_def nth_list_update bit_simps)
qed

lemma bit_set_flags:
  assumes "w < length m" "j < 32" "i + length bs \<le> 32 * length m"
  shows "bit (set_flags i bs m ! w) j \<longleftrightarrow>
    bit (m ! w) j \<or> (i \<le> 32 * w + j \<and> 32 * w + j < i + length bs \<and> bs ! (32 * w + j - i))"
  using assms
proof (induction bs arbitrary: i m)
  case (Cons b bs)
  let ?m = "if b then setBit m i else m"
  have d: "i div 32 < length m" using Cons.prems(3) by simp
  have "bit (?m ! w) j \<longleftrightarrow> bit (m ! w) j \<or> (b \<and> 32 * w + j = i)"
    using bit_setBit [OF Cons.prems(1,2) d] by auto
  moreover have "bit (set_flags (Suc i) bs ?m ! w) j \<longleftrightarrow> bit (?m ! w) j \<or>
      (Suc i \<le> 32 * w + j \<and> 32 * w + j < Suc i + length bs \<and> bs ! (32 * w + j - Suc i))"
    using Cons.IH [of ?m "Suc i"] Cons.prems by auto
  moreover have "(b # bs) ! (32 * w + j - i) \<longleftrightarrow>
      (if 32 * w + j = i then b else bs ! (32 * w + j - Suc i))" if "i \<le> 32 * w + j"
    using that by (cases "32 * w + j = i") (auto simp: nth_Cons')
  ultimately show ?case by (auto simp: not_less_eq_eq Suc_le_eq split: if_splits)
qed auto

lemma sint_small: "k < 2 ^ 31 \<Longrightarrow> sint (of_nat k :: i32) = int k"
  by (simp add: signed_of_nat signed_take_bit_int_eq_self)

lemma mask_words_bounds: "n \<le> 32 * mask_words n" "mask_words n * 32 \<le> n + 31"
  by (simp_all add: mask_words_def)

lemma bit_masks_of:
  assumes "w < mask_words (length bs)" "j < 32"
  shows "bit (masks_of bs ! w) j \<longleftrightarrow> 32 * w + j < length bs \<and> bs ! (32 * w + j)"
  using bit_set_flags [of w "replicate (mask_words (length bs)) 0" j 0 bs] mask_words_bounds(1) [of "length bs"] assms
  by (simp add: masks_of_def)

lemma has_valid_spec:
  assumes "ev_ok e" "unat p < max_params"
  shows "\<exists>e'. has_valid p e = Some (e', ev_abs e (unat p) \<noteq> None) \<and> ev_ok e' \<and> ev_abs e' = ev_abs e"
proof (cases "p < ev_size e")
  case True
  from ev_get_spec [OF assms] obtain f where "ev_ok f" "ev_abs f = ev_abs e"
    "ev_valid_at p e = Some (f, ev_abs e (unat p) \<noteq> None)" by metis
  then show ?thesis using True by (auto simp: has_valid_def)
next
  case False
  have "unat (ev_size e) = length (ev_params e)"
    using assms(1) by (simp add: ev_ok_def slots_ok_def unat_of_small)
  then have "ev_abs e (unat p) = None" using False by (simp add: ev_abs_def word_less_nat_alt)
  then show ?thesis using assms False by (auto simp: has_valid_def)
qed

lemma mark_valid_spec:
  assumes "ev_ok e" "\<forall>p \<in> set ps. unat p < max_params"
  shows "\<exists>e'. mark_valid i ps e m k = Some (e', set_flags i (flags_of ps e) m, k + length (values_of ps e)) \<and>
    ev_ok e' \<and> ev_abs e' = ev_abs e"
  using assms
proof (induction ps arbitrary: i e m k)
  case (Cons p ps)
  obtain f where f: "has_valid p e = Some (f, ev_abs e (unat p) \<noteq> None)" "ev_ok f" "ev_abs f = ev_abs e"
    using has_valid_spec [of e p] Cons.prems by auto
  let ?m = "if ev_abs e (unat p) \<noteq> None then setBit m i else m"
  let ?k = "if ev_abs e (unat p) \<noteq> None then Suc k else k"
  obtain e' where "mark_valid (Suc i) ps f ?m ?k =
      Some (e', set_flags (Suc i) (flags_of ps f) ?m, ?k + length (values_of ps f))" "ev_ok e'" "ev_abs e' = ev_abs f"
    using Cons.IH [OF f(2), of "Suc i" ?m ?k] Cons.prems(2) by auto
  then show ?case using f by (auto simp: flags_of_def values_of_def)
qed (auto simp: flags_of_def values_of_def)

subsection \<open>Reading masks\<close>

text \<open>The positions of the bits set, counted over all masks from b.\<close>

fun positions :: "nat \<Rightarrow> u32 list \<Rightarrow> nat list" where
  "positions b [] = []"
| "positions b (m # ms) = map ((+) b) (filter (bit m) [0..<32]) @ positions (b + 32) ms"

lemma positions_filter:
  assumes "\<forall>w < length ms. \<forall>j < 32. bit (ms ! w) j \<longleftrightarrow> P (b + 32 * w + j)"
  shows "positions b ms = filter P [b..<b + 32 * length ms]"
  using assms
proof (induction ms arbitrary: b)
  case (Cons m ms)
  have "\<forall>w < length ms. \<forall>j < 32. bit (ms ! w) j \<longleftrightarrow> P (b + 32 + 32 * w + j)"
  proof (intro allI impI)
    fix w j :: nat
    assume "w < length ms" "j < 32"
    then show "bit (ms ! w) j \<longleftrightarrow> P (b + 32 + 32 * w + j)"
      using Cons.prems [rule_format, of "Suc w" j] by (simp add: algebra_simps)
  qed
  then have "positions (b + 32) ms = filter P [b + 32..<b + 32 + 32 * length ms]" by (rule Cons.IH)
  moreover have "filter (bit m) [0..<32] = filter (\<lambda>j. P (b + j)) [0..<32]"
    using Cons.prems [rule_format, of 0] by (intro filter_cong) auto
  moreover have "map ((+) b) (filter (\<lambda>j. P (b + j)) [0..<32]) = filter P (map ((+) b) [0..<32])"
    by (simp add: filter_map comp_def)
  moreover have "map ((+) b) [0..<32] = map (\<lambda>i. i + b) [0..<32]" by (rule map_cong) (rule refl, rule add.commute)
  then have "map ((+) b) [0..<32] = [b..<b + 32]" unfolding map_add_upt by (simp only: add.commute)
  moreover have "[b..<b + (32 + 32 * length ms)] = [b..<b + 32] @ [b + 32..<b + 32 + 32 * length ms]"
    using upt_add_eq_append [of b "b + 32" "32 * length ms"] by (simp add: add.assoc)
  ultimately show ?case by simp
qed simp

lemma positions_masks_of: "positions 0 (masks_of bs) = filter (\<lambda>i. bs ! i) [0..<length bs]"
proof -
  let ?P = "\<lambda>i. i < length bs \<and> bs ! i" and ?n = "32 * mask_words (length bs)"
  have "positions 0 (masks_of bs) = filter ?P [0..<?n]"
    using positions_filter [of "masks_of bs" ?P 0] by (simp add: bit_masks_of)
  also have "[0..<?n] = [0..<length bs] @ [length bs..<?n]"
    using mask_words_bounds(1) [of "length bs"] upt_add_eq_append [of 0 "length bs" "?n - length bs"] by simp
  also have "filter ?P \<dots> = filter (\<lambda>i. bs ! i) [0..<length bs]"
    by (auto simp: filter_empty_conv intro: filter_cong)
  finally show ?thesis .
qed

lemma length_filter_rev: "length (filter P (rev xs)) = length (filter P xs)"
  by (simp flip: rev_filter)

lemma sum_CountBits: "sum_list (map CountBits ms) = length (positions b ms)"
  by (induction ms arbitrary: b) (simp_all add: CountBits_def length_filter_rev del: upt_rec_numeral)

lemma place_bits_spec:
  assumes "\<forall>j < 32. bit m j \<longrightarrow> b + j < length pm" "k \<le> 32"
  shows "place_bits pm m [k..<32] (b + k) pl =
    FpOk (b + 32, pl @ map (\<lambda>j. pm ! (b + j)) (filter (bit m) [k..<32]))"
  using assms(2)
proof (induction "32 - k" arbitrary: k pl)
  case (Suc n)
  then have k: "[k..<32] = k # [Suc k..<32]" "k < 32" by (auto simp: upt_conv_Cons simp del: upt_rec_numeral)
  have IH: "place_bits pm m [Suc k..<32] (b + Suc k) pl' =
      FpOk (b + 32, pl' @ map (\<lambda>j. pm ! (b + j)) (filter (bit m) [Suc k..<32]))" for pl'
    using Suc.hyps(1) [of "Suc k" pl'] Suc.hyps(2) by simp
  show ?case
    unfolding k(1) using k(2) assms(1) IH by (auto simp del: upt_rec_numeral)
qed simp

lemma read_masks_spec:
  assumes "\<forall>p \<in> set (positions b ms). p < length pm"
  shows "read_masks (length ms) pm (concat (map put32 ms) @ r) b pl = FpOk (pl @ map ((!) pm) (positions b ms), r)"
  using assms
proof (induction ms arbitrary: b pl)
  case (Cons m ms)
  have "\<forall>j < 32. bit m j \<longrightarrow> b + j < length pm" using Cons.prems by (auto simp del: upt_rec_numeral)
  from place_bits_spec [OF this, of 0 pl]
  have "place_bits pm m [0..<32] b pl = FpOk (b + 32, pl @ map ((!) pm) (map ((+) b) (filter (bit m) [0..<32])))"
    by (simp add: comp_def del: upt_rec_numeral)
  then show ?case using Cons by (simp del: upt_rec_numeral)
qed simp

end
