(* ===== verification/XdrFilterProps.thy ===== *)
theory XdrFilterProps
  imports XdrStreams FilterMasks
begin

text \<open>
  What the XDR output stage writes: whole events, in order, whatever block they end up in,
  and the descriptions of the parameters; and the names it can not describe.
\<close>

subsection \<open>Events\<close>

text \<open>The item of an event.\<close>

definition event_item :: "(ptype \<Rightarrow> u64) \<Rightarrow> u32 list \<Rightarrow> event \<Rightarrow> filter_item" where
  "event_item bits ids e = Event (masks_of (flags_of ids e)) (map bits (values_of ids e))"

lemma write_values_puts:
  assumes "ev_ok e" "\<forall>p \<in> set ps. unat p < max_params"
    and "puts l (map (\<lambda>v. xl_double l (bits v)) (values_of ps e)) s = Inr s'"
  shows "\<exists>e'. write_values l bits ps e s = Some (e', Inr s') \<and> ev_ok e' \<and> ev_abs e' = ev_abs e"
  using assms
proof (induction ps arbitrary: e s)
  case (Cons p ps)
  have p: "unat p < max_params" using Cons.prems(2) by simp
  obtain f where f: "has_valid p e = Some (f, ev_abs e (unat p) \<noteq> None)" "ev_ok f" "ev_abs f = ev_abs e"
    using has_valid_spec [OF Cons.prems(1) p] by auto
  show ?case
  proof (cases "ev_abs e (unat p)")
    case None
    then show ?thesis using Cons.IH [OF f(2), of s] Cons.prems f by (simp add: values_of_def)
  next
    case (Some v)
    from ev_get_spec [OF f(2) p] Some f(3) obtain g where g: "ev_ok g" "ev_abs g = ev_abs e"
      "ev_get p f = Some (g, Inr (Some v))" by (metis option.simps(5))
    obtain s1 where s1: "Put l (xl_double l (bits v)) s = Inr s1"
      "puts l (map (\<lambda>v. xl_double l (bits v)) (values_of ps e)) s1 = Inr s'"
      using Cons.prems(3) Some
      by (cases "Put l (xl_double l (bits v)) s") (auto simp: values_of_def)
    then show ?thesis
      using Cons.IH [OF g(1), of s1] Cons.prems(2) f g Some by (auto simp: values_of_def put_double_def)
  qed
qed (simp add: values_of_def)

context xdr_library
begin

lemma c_string_event [simp]: "c_string ''event''" "c_string ''header''"
  by (simp_all add: c_string_def)

lemma length_labels: "length (xl_string l ''event'') = 12" "length (xl_string l ''header'') = 12"
  using length_string [of "''event''"] length_string [of "''header''"] by (simp_all add: padded_def)

lemma length_event_item:
  "length (item_bytes l (event_item bits ids e)) = 12 + 4 * mask_words (length ids) + 8 * length (values_of ids e)"
  by (simp add: item_bytes_def event_item_def length_labels length_concat comp_def length_int length_double
      flags_of_def sum_list_triv)

lemma event_written:
  assumes st: "xs_stream st = Some s" "out_holds l n s blocks cur"
    and e: "ev_ok e" "\<forall>p \<in> set (xs_ids st). unat p < max_params" "values_of (xs_ids st) e \<noteq> []"
    and fit: "4 + length (item_bytes l (event_item bits (xs_ids st) e)) \<le> n"
  shows "\<exists>s' e' more cur'. xs_event l bits e st = StOk (st\<lparr> xs_stream := Some s' \<rparr>, e') \<and>
    out_holds l n s' (blocks @ more) cur' \<and> ev_ok e' \<and> ev_abs e' = ev_abs e \<and>
    concat more @ cur' = cur @ [event_item bits (xs_ids st) e] \<and> length more \<le> 2"
proof -
  let ?ids = "xs_ids st" and ?it = "event_item bits (xs_ids st) e"
  let ?need = "length (item_bytes l ?it)" and ?ms = "masks_of (flags_of ?ids e)"
  let ?vs = "map (\<lambda>v. xl_double l (bits v)) (values_of ?ids e)"
  have n: "n < 2 ^ 30" "xo_size s = n" using st(2) by (auto simp: out_holds_def out_bytes_def out_ok_def)
  have need: "?need = 12 + 4 * mask_words (length ?ids) + 8 * length (values_of ?ids e)"
    by (rule length_event_item)
  have big: "20 \<le> ?need" using need e(3) by (cases "values_of ?ids e") auto
  obtain e1 where e1: "mark_valid 0 ?ids e (replicate (mask_words (length ?ids)) 0) 0 =
      Some (e1, ?ms, length (values_of ?ids e))" "ev_ok e1" "ev_abs e1 = ev_abs e"
    using mark_valid_spec [OF e(1,2), of 0 _ 0] by (auto simp: masks_of_def flags_of_def)
  have sizes: "mask_words (length ?ids) * sizeofInt l 0 s + length (values_of ?ids e) * sizeofDouble l 0 s +
      sizeofString l ''event'' s = ?need"
    using fit n need big
    by (simp add: sizeofInt_def sizeofDouble_def sizeofString_def sizeofItem_def length_int length_double length_labels)
  obtain s1 more1 cur1 where s1: "Require l ?need s = Inr s1" "out_holds l n s1 (blocks @ more1) cur1"
    "concat more1 @ cur1 = cur" "length more1 \<le> 1" "4 + length (items_bytes l cur1) + ?need \<le> n"
  proof (cases "Test ?need s")
    case True
    then have "4 + length (items_bytes l cur) + 2 * ?need < n"
      using Test_out [of n s blocks "items_bytes l cur" ?need] st(2) fit n by (auto simp: out_holds_def)
    then show thesis using that [of s "[]" cur] True st(2) by (simp add: Require_def)
  next
    case False
    obtain s1 where "Flush l s = Inr s1" "out_bytes l n s1 (blocks @ [cur]) []"
      using Flush_out [of n s blocks cur] st(2) by (auto simp: out_holds_def)
    then show thesis using that [of s1 "[cur]" "[]"] False fit by (simp add: Require_def out_holds_def)
  qed
  have "out_bytes l n s1 (blocks @ more1) (items_bytes l cur1)" using s1(2) by (simp add: out_holds_def)
  moreover have "4 + length (items_bytes l cur1) + 2 * (length ''event'' + 1) < n"
    using s1(5) big by simp
  ultimately have ps: "put_string l ''event'' s1 = Put l (xl_string l ''event'') s1"
    using put_string_room [of n s1 "blocks @ more1" "items_bytes l cur1" "''event''"] by simp
  have "\<forall>x \<in> set (item_encs l ?it). 4 \<le> length x" "item_encs l ?it \<noteq> []"
    by (auto simp: event_item_def length_labels length_int length_double)
  moreover have "4 + length (items_bytes l cur1) + length (concat (item_encs l ?it)) \<le> n"
    "items_bytes l cur1 @ concat (item_encs l ?it) = items_bytes l (cur1 @ [?it])"
    using s1(5) by (simp_all add: item_bytes_def)
  ultimately obtain s' where s': "puts l (item_encs l ?it) s1 = Inr s'"
    "out_bytes l n s' (blocks @ more1) (items_bytes l (cur1 @ [?it])) \<or> out_bytes l n s' ((blocks @ more1) @ [cur1 @ [?it]]) []"
    using puts_fit s1(2) unfolding out_holds_def by meson
  have split: "puts l (item_encs l ?it) s1 =
      bind_xdr (bind_xdr (put_string l ''event'' s1) (put_ints l ?ms)) (puts l ?vs)"
    using ps by (simp add: event_item_def puts_append_fun bind_xdr_assoc put_ints_puts [abs_def] comp_def)
  then obtain s2 where s2: "bind_xdr (put_string l ''event'' s1) (put_ints l ?ms) = Inr s2" "puts l ?vs s2 = Inr s'"
    using s'(1) by (cases "bind_xdr (put_string l ''event'' s1) (put_ints l ?ms)") auto
  have "values_of ?ids e1 = values_of ?ids e" using e1(3) by (simp add: values_of_def)
  then obtain e2 where e2: "write_values l bits ?ids e1 s2 = Some (e2, Inr s')" "ev_ok e2" "ev_abs e2 = ev_abs e"
    using write_values_puts [OF e1(2) e(2), of l bits s2 s'] s2(2) e1(3) by auto
  have run: "xs_event l bits e st = StOk (st\<lparr> xs_stream := Some s' \<rparr>, e2)"
    using st(1) e1(1) e(3) sizes fit n s1(1) s2(1) e2(1) by (simp add: xs_event_def Let_def)
  from s'(2) show ?thesis
  proof
    assume "out_bytes l n s' (blocks @ more1) (items_bytes l (cur1 @ [?it]))"
    then show ?thesis
      using run e2 s1(3,4) by (intro exI [of _ s'] exI [of _ e2] exI [of _ more1] exI [of _ "cur1 @ [?it]"])
        (simp add: out_holds_def flip: append_assoc)
  next
    assume "out_bytes l n s' ((blocks @ more1) @ [cur1 @ [?it]]) []"
    then show ?thesis
      using run e2 s1(3,4) by (intro exI [of _ s'] exI [of _ e2] exI [of _ "more1 @ [cur1 @ [?it]]"] exI [of _ "[]"])
        (simp add: out_holds_def flip: append_assoc)
  qed
qed

end

subsection \<open>Descriptions\<close>

lemma fit_names_spec:
  assumes "fit_names s nms b f0 = (B, f)"
  shows "f0 \<le> f \<and> f - f0 \<le> length nms \<and> B = b + sum_list (map length (take (f - f0) nms)) \<and>
    (\<forall>j < f - f0. Test (b + sum_list (map length (take j nms))) s) \<and> (f - f0 < length nms \<longrightarrow> \<not> Test B s)"
  using assms
proof (induction nms arbitrary: b f0)
  case (Cons nm nms)
  show ?case
  proof (cases "Test b s")
    case True
    then have "fit_names s nms (b + length nm) (Suc f0) = (B, f)" using Cons.prems by simp
    note IH = Cons.IH [OF this]
    then obtain d where d: "f - f0 = Suc d" "f - Suc f0 = d" by (cases "f - f0") auto
    show ?thesis
    proof (intro conjI allI impI)
      fix j assume "j < f - f0"
      then show "Test (b + sum_list (map length (take j (nm # nms)))) s"
        using IH True d by (cases j) (auto simp: add.assoc)
    qed (use IH d in auto)
  qed (use Cons.prems in auto)
qed simp

text \<open>
  The stage estimates what names need: names that alone are too long by it, names whose
  encoding is within it, and lists of names that can be described: all within it, or so few
  that they fit one block anyway.
\<close>

definition too_long :: "nat \<Rightarrow> string \<Rightarrow> bool" where
  "too_long n nm \<longleftrightarrow> n \<le> 24 + 2 * length nm"

definition estimated :: "string \<Rightarrow> bool" where
  "estimated nm \<longleftrightarrow> 4 + padded (length nm) \<le> 2 * length nm"

definition describable :: "nat \<Rightarrow> string list \<Rightarrow> bool" where
  "describable n names \<longleftrightarrow> (\<forall>nm \<in> set names. c_string nm \<and> \<not> too_long n nm) \<and>
     ((\<forall>nm \<in> set names. estimated nm) \<or>
      22 + sum_list (map (\<lambda>nm. 4 + padded (length nm) + 2 * length nm) names) < n)"

text \<open>Written from position p on, the names cause no flush.\<close>

fun fits_from :: "nat \<Rightarrow> nat \<Rightarrow> string list \<Rightarrow> bool" where
  "fits_from n p [] \<longleftrightarrow> True"
| "fits_from n p (nm # nms) \<longleftrightarrow> c_string nm \<and> p + 2 * (length nm + 1) < n \<and>
     p + (4 + padded (length nm)) + 2 < n \<and> fits_from n (p + (4 + padded (length nm))) nms"

lemma estimated_fits:
  "\<forall>nm \<in> set names. c_string nm \<and> estimated nm \<Longrightarrow> p + 2 * sum_list (map length names) + 2 < n \<Longrightarrow> fits_from n p names"
  by (induction names arbitrary: p) (auto simp: estimated_def)

lemma few_fit:
  "\<forall>nm \<in> set names. c_string nm \<Longrightarrow>
     p + sum_list (map (\<lambda>nm. 4 + padded (length nm) + 2 * length nm) names) + 2 < n \<Longrightarrow> fits_from n p names"
  by (induction names arbitrary: p) auto

lemma sum_list_part: "sum_list (map g (take f (drop k xs))) \<le> (sum_list (map g xs) :: nat)"
proof -
  have "xs = take k xs @ take f (drop k xs) @ drop f (drop k xs)" by (simp only: append_take_drop_id)
  then have "sum_list (map g xs) = sum_list (map g (take k xs @ take f (drop k xs) @ drop f (drop k xs)))" by (rule arg_cong)
  then show ?thesis by (simp only: map_append sum_list_append)
qed

lemma describable_fits:
  assumes "describable n names" "24 + 2 * sum_list (map length (take f (drop k names))) < n"
  shows "fits_from n 20 (take f (drop k names))"
proof -
  have sub: "set (take f (drop k names)) \<subseteq> set names" using set_take_subset set_drop_subset by fast
  have c: "\<forall>nm \<in> set (take f (drop k names)). c_string nm" using assms(1) sub by (auto simp: describable_def)
  consider "\<forall>nm \<in> set names. estimated nm"
    | "22 + sum_list (map (\<lambda>nm. 4 + padded (length nm) + 2 * length nm) names) < n"
    using assms(1) by (auto simp: describable_def)
  then show ?thesis
  proof cases
    case 1
    then show ?thesis using estimated_fits [of "take f (drop k names)" 20 n] c sub assms(2) by auto
  next
    case 2
    have "sum_list (map (\<lambda>nm. 4 + padded (length nm) + 2 * length nm) (take f (drop k names))) + 22 < n"
      using sum_list_part [of "\<lambda>nm. 4 + padded (length nm) + 2 * length nm" f k names] 2 by linarith
    then show ?thesis using few_fit [OF c, of 20 n] by linarith
  qed
qed

lemma too_long_take:
  assumes "24 + 2 * sum_list (map length (take j nms)) < n" "i < j" "i < length nms"
  shows "\<not> too_long n (nms ! i)"
proof -
  have "nms ! i \<in> set (take j nms)" using assms(2,3) by (metis in_set_conv_nth length_take min_less_iff_conj nth_take)
  then have "length (nms ! i) \<le> sum_list (map length (take j nms))"
    by (intro member_le_sum_list) simp_all
  then show ?thesis using assms(1) by (simp add: too_long_def)
qed

context xdr_library
begin

lemma Put_room:
  assumes "out_bytes l n s blocks bs" "4 + length bs + length enc + 2 < n"
  shows "\<exists>s'. Put l enc s = Inr s' \<and> out_bytes l n s' blocks (bs @ enc)"
proof -
  have o: "out_ok s bs" "xo_size s = n" using assms(1) by (auto simp: out_bytes_def)
  obtain s1 where e: "emit l enc s = (s1, True)" "out_bytes l n s1 blocks (bs @ enc)"
    using emit_fits [OF o(1), of enc] o(2) assms by (auto simp: out_bytes_def)
  then have "Test 1 s1" using Test_out [OF e(2), of 1] assms(2) by simp
  then show ?thesis using e by (auto simp: Put_def Require_def)
qed

lemma put_string_spec:
  assumes "out_bytes l n s blocks bs" "c_string c"
    and "4 + length bs + 2 * (length c + 1) < n" "4 + length bs + (4 + padded (length c)) + 2 < n"
  shows "\<exists>s'. put_string l c s = Inr s' \<and> out_bytes l n s' blocks (bs @ xl_string l c)"
proof -
  have "length c + 1 < 2 ^ 30" using out_bytes_pos [OF assms(1)] assms(3) by simp
  then show ?thesis
    using put_string_room [OF assms(1,2) _ assms(3)] Put_room [OF assms(1)] length_string [OF assms(2)] assms(4) by simp
qed

lemma put_strings_spec:
  assumes "out_bytes l n s blocks bs" "fits_from n (4 + length bs) names"
  shows "\<exists>s'. put_strings l names s = Inr s' \<and> out_bytes l n s' blocks (bs @ concat (map (xl_string l) names))"
  using assms
proof (induction names arbitrary: s bs)
  case (Cons nm names)
  have nm: "c_string nm" "4 + length bs + 2 * (length nm + 1) < n" "4 + length bs + (4 + padded (length nm)) + 2 < n"
    using Cons.prems(2) by auto
  obtain s1 where s1: "put_string l nm s = Inr s1" "out_bytes l n s1 blocks (bs @ xl_string l nm)"
    using put_string_spec [OF Cons.prems(1) nm] by auto
  have "length nm < 2 ^ 32" using out_bytes_pos [OF Cons.prems(1)] nm(2) by simp
  then have "length (xl_string l nm) = 4 + padded (length nm)" by (rule length_string [OF nm(1)])
  then have "fits_from n (4 + length (bs @ xl_string l nm)) names" using Cons.prems(2) by (simp add: ac_simps)
  then show ?case using Cons.IH [OF s1(2)] s1(1) by auto
qed simp

lemma write_header_spec:
  assumes "out_bytes l n s blocks []" "fits_from n 20 names" "24 < n"
  shows "\<exists>s'. write_header l (of_nat (length names)) names s = Inr s' \<and>
    out_bytes l n s' (blocks @ [[Header names]]) []"
proof -
  have p: "padded (length ''header'') = 8" by (simp add: padded_def)
  obtain s1 where s1: "put_string l ''header'' s = Inr s1" "out_bytes l n s1 blocks (xl_string l ''header'')"
    using put_string_spec [OF assms(1), of "''header''"] assms(3) p by auto
  obtain s2 where s2: "put_int l (of_nat (length names)) s1 = Inr s2"
    "out_bytes l n s2 blocks (xl_string l ''header'' @ xl_int l (of_nat (length names)))"
    using Put_room [OF s1(2), of "xl_int l (of_nat (length names))"] assms(3)
    by (auto simp: put_int_def length_int length_labels)
  obtain s3 where s3: "put_strings l names s2 = Inr s3" "out_bytes l n s3 blocks (items_bytes l [Header names])"
    using put_strings_spec [OF s2(2)] assms(2)
    by (auto simp: length_int length_labels item_bytes_def)
  obtain s4 where "Flush l s3 = Inr s4" "out_bytes l n s4 (blocks @ [[Header names]]) []"
    using Flush_out [OF s3(2)] by auto
  then show ?thesis using s1(1) s2(1) s3(1) by (simp add: write_header_def)
qed

text \<open>The names counted: at most one past the short ones, never more than fit.\<close>

lemma fit_bounds:
  assumes s: "out_bytes l n s blocks []" "24 < n" and f: "fit_names s nms 10 0 = (B, f)"
    and short: "\<forall>i < m. i < length nms \<longrightarrow> \<not> too_long n (nms ! i)"
    and long: "m < length nms \<longrightarrow> too_long n (nms ! m) \<and> length (nms ! m) < 2 ^ 30"
    and j: "j \<le> f"
  shows "j \<le> Suc m \<and> 10 + sum_list (map length (take j nms)) < 2 ^ 30 + 2 ^ 29"
  using j
proof (induction j)
  case (Suc j)
  let ?W = "10 + sum_list (map length (take j nms))"
  have n: "n < 2 ^ 30" using out_bytes_pos [OF s(1)] by simp
  have F: "f \<le> length nms" "\<forall>j < f. Test (10 + sum_list (map length (take j nms))) s"
    using fit_names_spec [OF f] by auto
  have IH: "j \<le> Suc m" "?W < 2 ^ 30 + 2 ^ 29" using Suc by auto
  have "Test ?W s" using F(2) Suc.prems by simp
  then have W: "4 + 2 * ?W < n" using Test_out [OF s(1) IH(2)] by simp
  have len: "j < length nms" using F(1) Suc.prems by simp
  have "j \<noteq> Suc m"
  proof
    assume "j = Suc m"
    then have "\<not> too_long n (nms ! m)" using too_long_take [of j nms n m] W len by simp
    then show False using long len \<open>j = Suc m\<close> by simp
  qed
  then have jm: "j \<le> m" using IH(1) by simp
  have "length (nms ! j) < 2 ^ 30"
  proof (cases "j = m")
    case False
    then have "\<not> too_long n (nms ! j)" using short len jm by simp
    then show ?thesis using n by (simp add: too_long_def)
  qed (use long len in simp)
  then show ?case using W n jm len by (simp add: take_Suc_conv_app_nth)
qed simp

text \<open>
  A turn of the loop on an empty block, m names from its start being short enough: either
  the next is too long for any block and nothing happens, or a block with names is written.
\<close>

lemma describe_turn:
  assumes s: "out_bytes l n s blocks []" "24 < n" and nms: "nms = drop offset names" "nms \<noteq> []"
    and short: "m \<le> length nms" "\<forall>i < m. \<not> too_long n (nms ! i)"
    and long: "m < length nms \<longrightarrow> too_long n (nms ! m) \<and> length (nms ! m) < 2 ^ 30"
    and est: "\<forall>f \<le> m. 24 + 2 * sum_list (map length (take f nms)) < n \<longrightarrow> fits_from n 20 (take f nms)"
    and pc: "pc = int (length nms)"
  shows "(m = 0 \<and> describe_loop (Suc k) l names offset pc s = describe_loop k l names offset pc s) \<or>
    (\<exists>f s'. 0 < f \<and> f \<le> m \<and> out_bytes l n s' (blocks @ [[Header (take f nms)]]) [] \<and>
      describe_loop (Suc k) l names offset pc s = describe_loop k l names (offset + f) (pc - int f) s')"
proof -
  define W where "W j = 10 + sum_list (map length (take j nms))" for j
  obtain B f where f: "fit_names s nms 10 0 = (B, f)" by fastforce
  have F: "f \<le> length nms" "B = W f" "\<forall>j < f. Test (W j) s" "f < length nms \<longrightarrow> \<not> Test B s"
    using fit_names_spec [OF f] by (auto simp: W_def)
  have bound: "j \<le> Suc m \<and> W j < 2 ^ 30 + 2 ^ 29" if "j \<le> f" for j
    using fit_bounds [OF s f _ long that] short by (simp add: W_def)
  have T: "Test (W j) s \<longleftrightarrow> 4 + 2 * W j < n" if "j \<le> f" for j
    using Test_out [OF s(1)] bound [OF that] by simp
  have below: "j \<le> m" if "j \<le> f" "Test (W j) s" for j
  proof (rule ccontr)
    assume "\<not> j \<le> m"
    then have "m < length nms" "m < j" using that(1) F(1) by auto
    then show False using too_long_take [of j nms n m] T [OF that(1)] that(2) long by (simp add: W_def)
  qed
  have "0 < f"
  proof (rule ccontr)
    assume "\<not> 0 < f"
    then have "\<not> Test (W 0) s" using F(2,4) nms(2) by simp
    then show False using T [of 0] s(2) by (simp add: W_def)
  qed
  define g where "g = (if Test B s then f else f - 1)"
  have g: "g \<le> f" "Test (W g) s" using F(2,3) \<open>0 < f\<close> by (auto simp: g_def)
  have gm: "g \<le> m" by (rule below [OF g])
  have pos: "pc \<noteq> 0" using pc nms(2) by simp
  have step: "describe_loop (Suc k) l names offset pc s =
      (if g = 0 then describe_loop k l names offset pc s
       else case write_header l (of_nat g) (take g nms) s of
           Inl (e, s') \<Rightarrow> StThrow (XdrError e) s'
         | Inr s' \<Rightarrow> describe_loop k l names (offset + g) (pc - int g) s')"
  proof (cases "Test B s")
    case True
    then have "g = f" by (simp add: g_def)
    show ?thesis unfolding \<open>g = f\<close> using f pos \<open>0 < f\<close> nms(1) True by simp
  next
    case False
    then have g': "f = Suc g" using \<open>0 < f\<close> by (simp add: g_def)
    show ?thesis using f pos nms(1) False unfolding g' by simp
  qed
  show ?thesis
  proof (cases "g = 0")
    case True
    have "m = 0"
    proof (rule ccontr)
      assume "m \<noteq> 0"
      then have "\<not> too_long n (nms ! 0)" using short by simp
      moreover have "f = 1" using True \<open>0 < f\<close> by (auto simp: g_def split: if_splits)
      then have "\<not> Test (W 1) s" using True F(2) by (auto simp: g_def)
      then have "\<not> 4 + 2 * W 1 < n" using T [of 1] \<open>f = 1\<close> by simp
      ultimately show False using nms(2) by (cases nms) (auto simp: W_def too_long_def)
    qed
    then show ?thesis using step True by simp
  next
    case False
    have l: "length (take g nms) = g" using g(1) F(1) by simp
    have "24 + 2 * sum_list (map length (take g nms)) < n" using T [OF g(1)] g(2) by (simp add: W_def)
    then have e: "fits_from n 20 (take g nms)" using est gm by blast
    obtain s' where "write_header l (of_nat g) (take g nms) s = Inr s'"
      "out_bytes l n s' (blocks @ [[Header (take g nms)]]) []"
      using write_header_spec [OF s(1) e s(2)] l by auto
    then show ?thesis using step False gm by (intro disjI2 exI [of _ g] exI [of _ s']) simp
  qed
qed

end

declare describe_loop.simps(2) [simp del]

context xdr_library
begin

text \<open>All names are described when each is short enough and within its estimate.\<close>

lemma describe_all:
  assumes "out_holds l n s blocks []" "24 < n" "describable n names"
    and "length names - offset < k" "offset \<le> length names"
  shows "\<exists>s' hs. describe_loop k l names offset (int (length names - offset)) s = StOk s' \<and>
    out_holds l n s' (blocks @ map (\<lambda>h. [Header h]) hs) [] \<and> concat hs = drop offset names \<and>
    length hs \<le> length names - offset"
  using assms(1,4,5)
proof (induction k arbitrary: offset s blocks)
  case (Suc k)
  let ?nms = "drop offset names"
  show ?case
  proof (cases "?nms = []")
    case True
    then show ?thesis using Suc.prems by (intro exI [of _ s] exI [of _ "[]"]) (simp add: describe_loop.simps(2))
  next
    case False
    have nth: "\<not> too_long n (?nms ! i)" if "i < length ?nms" for i
      using assms(3) nth_mem [OF that] in_set_dropD unfolding describable_def by metis
    have fit: "\<forall>f \<le> length ?nms. 24 + 2 * sum_list (map length (take f ?nms)) < n \<longrightarrow> fits_from n 20 (take f ?nms)"
      using describable_fits [OF assms(3)] by blast
    have o: "out_bytes l n s blocks []" using Suc.prems(1) by (simp add: out_holds_def)
    have m: "length ?nms \<noteq> 0" using False by simp
    have pc: "int (length names - offset) = int (length ?nms)" by simp
    obtain f s' where f: "0 < f" "f \<le> length ?nms" "out_bytes l n s' (blocks @ [[Header (take f ?nms)]]) []"
      "describe_loop (Suc k) l names offset (int (length names - offset)) s =
        describe_loop k l names (offset + f) (int (length names - offset) - int f) s'"
      using describe_turn [OF o assms(2) refl False order.refl _ _ fit pc, of k] nth m by auto
    have o': "out_holds l n s' (blocks @ [[Header (take f ?nms)]]) []" using f(3) by (simp add: out_holds_def)
    have le: "length names - (offset + f) < k" "offset + f \<le> length names" using f(1,2) Suc.prems(2,3) by simp_all
    have i: "int (length names - (offset + f)) = int (length names - offset) - int f" using f(2) by simp
    obtain s'' hs where h: "describe_loop k l names (offset + f) (int (length names - (offset + f))) s' = StOk s''"
      "out_holds l n s'' ((blocks @ [[Header (take f ?nms)]]) @ map (\<lambda>h. [Header h]) hs) []"
      "concat hs = drop (offset + f) names" "length hs \<le> length names - (offset + f)"
      using Suc.IH [OF o' le] by blast
    have "take f ?nms @ concat hs = ?nms" using h(3) by (metis append_take_drop_id drop_drop add.commute)
    then show ?thesis
      using f(1,2,4) h(1,2,4) i by (intro exI [of _ s''] exI [of _ "take f ?nms # hs"]) simp
  qed
qed simp

text \<open>A name too long for a block is never got over.\<close>

lemma describe_never:
  assumes "out_holds l n s blocks []" "24 < n" "offset \<le> j" "j < length names"
    and "describable n (take j names)"
    and "too_long n (names ! j)" "length (names ! j) < 2 ^ 30"
  shows "describe_loop k l names offset (int (length names - offset)) s = StRunning"
  using assms(1,3)
proof (induction k arbitrary: offset s blocks)
  case (Suc k)
  let ?nms = "drop offset names"
  have o: "out_bytes l n s blocks []" using Suc.prems(1) by (simp add: out_holds_def)
  have m: "j - offset < length ?nms" "?nms ! (j - offset) = names ! j" using Suc.prems(2) assms(4) by auto
  have sh: "\<forall>i < j - offset. \<not> too_long n (?nms ! i)"
  proof (intro allI impI)
    fix i assume i: "i < j - offset"
    then have "names ! (offset + i) \<in> set (take j names)"
      using assms(4) by (auto simp: in_set_conv_nth intro!: exI [of _ "offset + i"])
    then show "\<not> too_long n (?nms ! i)" using assms(4,5) i by (simp add: describable_def)
  qed
  have fit: "\<forall>f \<le> j - offset. 24 + 2 * sum_list (map length (take f ?nms)) < n \<longrightarrow> fits_from n 20 (take f ?nms)"
  proof (intro allI impI)
    fix f assume f: "f \<le> j - offset" "24 + 2 * sum_list (map length (take f ?nms)) < n"
    have "take f (drop offset (take j names)) = take f ?nms" using f(1) by (simp add: drop_take min_absorb1)
    then show "fits_from n 20 (take f ?nms)" using describable_fits [OF assms(5), of f offset] f(2) by simp
  qed
  have pc: "int (length names - offset) = int (length ?nms)" by simp
  have ne: "?nms \<noteq> []" using m(1) by auto
  have lg: "j - offset < length ?nms \<longrightarrow> too_long n (?nms ! (j - offset)) \<and> length (?nms ! (j - offset)) < 2 ^ 30"
    using m(2) assms(6,7) by simp
  from describe_turn [OF o assms(2) refl ne less_imp_le [OF m(1)] sh lg fit pc, of k]
  consider "describe_loop (Suc k) l names offset (int (length names - offset)) s =
      describe_loop k l names offset (int (length names - offset)) s"
    | f s' where "f \<le> j - offset" "out_bytes l n s' (blocks @ [[Header (take f ?nms)]]) []"
      "describe_loop (Suc k) l names offset (int (length names - offset)) s =
        describe_loop k l names (offset + f) (int (length names - offset) - int f) s'"
    by (elim disjE exE conjE)
  then show ?case
  proof cases
    case 1
    then show ?thesis using Suc.IH [OF Suc.prems] by simp
  next
    case 2
    have "int (length names - (offset + f)) = int (length names - offset) - int f"
      using 2(1) Suc.prems(2) assms(4) by simp
    then show ?thesis
      using Suc.IH [of s' "blocks @ [[Header (take f ?nms)]]" "offset + f"] 2 Suc.prems(2) by (simp add: out_holds_def)
  qed
qed simp

end

end
