(* ===== verification/FilterBlocks.thy ===== *)
theory FilterBlocks
  imports XdrFilterProps
begin

text \<open>
  What the filter buffer decoder makes of the blocks the output stage writes: the native
  events and headers it hands to the analyzer.
\<close>

subsection \<open>Reading a block\<close>

text \<open>The stream still has rest to read, with j after it; it is closed when nothing is left.\<close>

definition rd :: "u8 list \<Rightarrow> u8 list \<Rightarrow> xdr_in \<Rightarrow> u8 list \<Rightarrow> bool" where
  "rd x j s rest \<longleftrightarrow> xi_source s = x \<and> xi_buffer s = x \<and> xi_read s \<and>
     (if rest = [] then \<not> xi_open s
      else xi_open s \<and> sint (xi_size s) = int (xi_pos s + length rest) \<and> drop (xi_pos s) x = rest @ j)"

lemma rd_open: "rd x j s rest \<Longrightarrow> xi_open s \<longleftrightarrow> rest \<noteq> []"
  by (auto simp: rd_def)

context xdr_library
begin

lemma rd_advance:
  assumes "rd x j s (enc @ rest)" "enc \<noteq> []"
  shows "rd x j (ConditionalRead l (s\<lparr> xi_pos := xi_pos s + length enc \<rparr>)) rest"
proof (cases "rest = []")
  case True
  then show ?thesis
    using assms by (auto simp: rd_def ConditionalRead_def DoRead_def xi_Read_def split: prod.splits)
next
  case False
  have r: "drop (xi_pos s) x = enc @ rest @ j" "xi_open s"
    "sint (xi_size s) = int (xi_pos s + length (enc @ rest))" using assms by (auto simp: rd_def)
  have "drop (xi_pos s + length enc) x = rest @ j"
    using r(1) by (metis append_eq_conv_conj drop_drop add.commute)
  then show ?thesis using assms False r(2,3) by (auto simp: rd_def ConditionalRead_def)
qed

lemma rd_buffer: "rd x j s (enc @ rest) \<Longrightarrow> enc \<noteq> [] \<Longrightarrow> drop (xi_pos s) (xi_buffer s) = enc @ rest @ j \<and> xi_open s"
  by (auto simp: rd_def)

lemma Get_int:
  assumes "rd x j s (xl_int l v @ rest)"
  shows "\<exists>s'. xi_Get l (xl_get_int l) s = Some (Some v, s') \<and> rd x j s' rest"
proof -
  have ne: "xl_int l v \<noteq> []" using length_int [of v] by auto
  from rd_buffer [OF assms ne] rd_advance [OF assms ne] show ?thesis
    by (auto simp: xi_Get_def get_int length_int)
qed

lemma Get_double:
  assumes "rd x j s (xl_double l v @ rest)"
  shows "\<exists>s'. xi_Get l (xl_get_double l) s = Some (Some v, s') \<and> rd x j s' rest"
proof -
  have ne: "xl_double l v \<noteq> []" using length_double [of v] by auto
  from rd_buffer [OF assms ne] rd_advance [OF assms ne] show ?thesis
    by (auto simp: xi_Get_def get_double length_double)
qed

lemma Get_float:
  assumes "rd x j s (w @ rest)" "length w = 4"
  shows "\<exists>v s'. xi_Get l (xl_get_float l) s = Some (Some v, s') \<and> rd x j s' rest"
proof -
  have ne: "w \<noteq> []" using assms(2) by auto
  have r: "drop (xi_pos s) (xi_buffer s) = w @ rest @ j" "xi_open s" using rd_buffer [OF assms(1) ne] by auto
  obtain f where "xl_get_float l (w @ rest @ j) = (Some f, 4)" using get_float [of "w @ rest @ j"] assms(2) by auto
  then show ?thesis using r rd_advance [OF assms(1) ne] assms(2) by (auto simp: xi_Get_def)
qed

lemma items_int:
  "rd x j s (concat (map (xl_int l) vs) @ rest) \<Longrightarrow>
     \<exists>s'. xi_items l (xl_get_int l) (length vs) s = Some (map Some vs, s') \<and> rd x j s' rest"
proof (induction vs arbitrary: s)
  case (Cons v vs)
  obtain s1 where "xi_Get l (xl_get_int l) s = Some (Some v, s1)" "rd x j s1 (concat (map (xl_int l) vs) @ rest)"
    using Get_int [of x j s v "concat (map (xl_int l) vs) @ rest"] Cons.prems by auto
  then show ?case using Cons.IH [of s1] by auto
qed simp

lemma items_double:
  "rd x j s (concat (map (xl_double l) vs) @ rest) \<Longrightarrow>
     \<exists>s'. xi_items l (xl_get_double l) (length vs) s = Some (map Some vs, s') \<and> rd x j s' rest"
proof (induction vs arbitrary: s)
  case (Cons v vs)
  obtain s1 where "xi_Get l (xl_get_double l) s = Some (Some v, s1)" "rd x j s1 (concat (map (xl_double l) vs) @ rest)"
    using Get_double [of x j s v "concat (map (xl_double l) vs) @ rest"] Cons.prems by auto
  then show ?case using Cons.IH [of s1] by auto
qed simp

lemma items_float:
  "rd x j s (w @ rest) \<Longrightarrow> 4 * k \<le> length w \<Longrightarrow>
     \<exists>vs s'. xi_items l (xl_get_float l) k s = Some (vs, s') \<and> rd x j s' (drop (4 * k) w @ rest)"
proof (induction k arbitrary: s w)
  case (Suc k)
  have "w = take 4 w @ drop 4 w" "length (take 4 w) = 4" using Suc.prems(2) by auto
  then obtain v s1 where s1: "xi_Get l (xl_get_float l) s = Some (Some v, s1)" "rd x j s1 (drop 4 w @ rest)"
    using Get_float [of x j s "take 4 w" "drop 4 w @ rest"] Suc.prems(1) by (auto simp flip: append_assoc)
  have "4 * k \<le> length (drop 4 w)" using Suc.prems(2) by simp
  from Suc.IH [OF s1(2) this] s1(1) show ?case by (auto simp: add.commute)
qed auto

lemma string_item:
  assumes "rd x j s (xl_string l c @ rest)" "c_string c" "length c \<le> length x" "length x < 2 ^ 32"
  shows "\<exists>s'. xi_string l s = (c, s') \<and> rd x j s' rest"
proof -
  have len: "length c < 2 ^ 32" using assms(3,4) by simp
  have ne: "xl_string l c \<noteq> []" using length_string [OF assms(2) len] by auto
  have "xi_source s = x" using assms(1) by (simp add: rd_def)
  with rd_buffer [OF assms(1) ne] rd_advance [OF assms(1) ne] show ?thesis
    using assms(2,3) get_string [OF assms(2) len] length_string [OF assms(2) len] by (auto simp: xi_string_def)
qed

lemma string_items:
  assumes "rd x j s (concat (map (xl_string l) cs) @ rest)" "\<forall>c \<in> set cs. c_string c \<and> length c \<le> length x"
    and "length x < 2 ^ 32"
  shows "\<exists>s'. read_names l (length cs) s = (cs, s') \<and> rd x j s' rest"
  using assms(1,2)
proof (induction cs arbitrary: s)
  case (Cons c cs)
  obtain s1 where "xi_string l s = (c, s1)" "rd x j s1 (concat (map (xl_string l) cs) @ rest)"
    using string_item [of x j s c "concat (map (xl_string l) cs) @ rest"] Cons.prems assms(3) by auto
  then show ?case using Cons.IH [of s1] Cons.prems(2) by auto
qed simp

lemma Connect_block:
  assumes x: "x = xl_int l (of_nat (4 + length bs)) @ bs @ j" and "length x < 2 ^ 30" "bs \<noteq> []"
  shows "rd x j (xi_Connect l (new_xdr_in x junk n0)) bs"
proof -
  have "4 + length bs < 2 ^ 31" "x \<noteq> []" using x assms(2,3) by auto
  moreover have "xl_get_int l x = (Some (of_nat (4 + length bs)), 4)" unfolding x by (rule get_int)
  moreover have "drop 4 x = bs @ j" unfolding x using length_int by simp
  moreover have "sint (of_nat (4 + length bs) :: i32) = int (4 + length bs)" by (rule sint_small) (use calculation in simp)
  ultimately show ?thesis
    using assms(3) by (simp add: xi_Connect_def DoRead_def new_xdr_in_def xi_Read_def rd_def del: of_nat_add)
qed

end

subsection \<open>Blocks of events\<close>

type_synonym raw_event = "u32 list \<times> u64 list"

definition raw_item :: "raw_event \<Rightarrow> filter_item" where
  "raw_item ev = Event (fst ev) (snd ev)"

definition native :: "raw_event \<Rightarrow> u8 list" where
  "native ev = put_cstring ''event'' @ concat (map put32 (fst ev)) @ concat (map put64 (snd ev))"

text \<open>As many masks as the decoder expects, and a value for every bit, at least one.\<close>

definition raw_ok :: "nat \<Rightarrow> raw_event \<Rightarrow> bool" where
  "raw_ok nm ev \<longleftrightarrow> length (fst ev) = nm \<and> snd ev \<noteq> [] \<and> length (snd ev) = sum_list (map CountBits (fst ev))"

text \<open>The bytes of an event after its label.\<close>

definition raw_tail :: "xdr_lib \<Rightarrow> raw_event \<Rightarrow> u8 list" where
  "raw_tail l ev = concat (map (xl_int l) (fst ev)) @ concat (map (xl_double l) (snd ev))"

lemma raw_item_bytes: "item_bytes l (raw_item ev) = xl_string l ''event'' @ raw_tail l ev"
  by (simp add: raw_item_def item_bytes_def raw_tail_def)

text \<open>
  The block looks as if its first event, with v values, were one of floats: where another
  event would then start, the string event is read.
\<close>

definition misread :: "xdr_lib \<Rightarrow> u8 list \<Rightarrow> raw_event \<Rightarrow> bool" where
  "misread l x ev \<longleftrightarrow>
     (case fst (xl_get_string l (length x)
              (drop (4 + 12 + 4 * length (fst ev) + 4 * length (snd ev)) x)) of
        None \<Rightarrow> False
      | Some t \<Rightarrow> c_str t = ''event'')"

lemma take_drop_append: "take k xs @ drop k xs @ r = xs @ r"
  by (simp flip: append_assoc)

text \<open>The word in the middle of the values' big-endian words.\<close>

definition words_of :: "u64 list \<Rightarrow> u32 list" where
  "words_of v = concat (map (\<lambda>d. [ucast (drop_bit 32 d), ucast d]) v)"

definition mid_word :: "u64 list \<Rightarrow> u32" where
  "mid_word v = words_of v ! length v"

lemma length_words_of [simp]: "length (words_of v) = 2 * length v"
  by (induction v) (simp_all add: words_of_def)

lemma drop_prefix: "x = u @ w \<Longrightarrow> length u = p \<Longrightarrow> drop p x = w"
  by simp

context xdr_library
begin

lemma translate_native:
  assumes "rd x j s (raw_tail l ev @ rest)" "raw_ok nm ev"
  shows "\<exists>s'. translate_event l False nm s = Translated (native ev) s' \<and> rd x j s' rest"
proof -
  obtain m v where ev: "ev = (m, v)" by fastforce
  then have m: "length m = nm" "sum_list (map CountBits m) = length v" using assms(2) by (auto simp: raw_ok_def)
  obtain s1 where s1: "xi_items l (xl_get_int l) nm s = Some (map Some m, s1)"
    "rd x j s1 (concat (map (xl_double l) v) @ rest)"
    using items_int [of x j s m "concat (map (xl_double l) v) @ rest"] assms(1) ev m(1) by (auto simp: raw_tail_def)
  obtain s2 where s2: "xi_items l (xl_get_double l) (length v) s1 = Some (map Some v, s2)" "rd x j s2 rest"
    using items_double [OF s1(2)] by auto
  have n: "None \<notin> set (map Some m)" "None \<notin> set (map Some v)" by auto
  show ?thesis
    using s1(1) s2 n m(2) by (simp add: translate_event_def read_values_def native_def ev comp_def)
qed

lemma length_tail: "length (raw_tail l ev) = 4 * length (fst ev) + 8 * length (snd ev)"
  by (simp add: raw_tail_def length_concat comp_def length_int length_double sum_list_triv)

lemma length_native: "length (native ev) \<le> length (item_bytes l (raw_item ev))"
  by (simp add: native_def raw_item_bytes length_tail length_labels length_concat comp_def sum_list_triv)

lemma length_natives: "length (concat (map native evs)) \<le> length (items_bytes l (map raw_item evs))"
  using length_native by (induction evs) (auto intro: add_mono)

lemma tail_nonempty: "raw_ok nm ev \<Longrightarrow> raw_tail l ev @ r \<noteq> []"
  using length_tail [of ev] by (cases "snd ev") (auto simp: raw_ok_def)

lemma loop_native:
  assumes "rd x j s (raw_tail l ev @ items_bytes l (map raw_item evs))" "\<forall>e \<in> set (ev # evs). raw_ok nm e"
    and "length out + length (concat (map native (ev # evs))) \<le> room" "length evs + 2 \<le> k"
    and "5 \<le> length x" "length x < 2 ^ 32"
  shows "\<exists>s'. events_loop k l False nm room s out ent =
    Closed (out @ concat (map native (ev # evs))) (ent + of_nat (Suc (length evs))) s'"
  using assms(1-4)
proof (induction evs arbitrary: k s ev out ent)
  case Nil
  obtain k' where k: "k = Suc (Suc k')" using Nil.prems(4) by (cases k; cases "k - 1") auto
  have o: "xi_open s" using rd_open [OF Nil.prems(1)] tail_nonempty [of nm ev "items_bytes l (map raw_item [])"] Nil.prems(2) by auto
  obtain s' where s': "translate_event l False nm s = Translated (native ev) s'" "rd x j s' []"
    using translate_native [of x j s ev "[]" nm] Nil.prems(1,2) by auto
  then have "\<not> xi_open s'" by (simp add: rd_def)
  then show ?case using Nil.prems(3) s'(1) o by (simp add: k)
next
  case (Cons ev' evs)
  obtain k' where k: "k = Suc k'" "length evs + 2 \<le> k'" using Cons.prems(4) by (cases k) auto
  let ?rest = "raw_tail l ev' @ items_bytes l (map raw_item evs)"
  have o: "xi_open s" using rd_open [OF Cons.prems(1)] tail_nonempty [of nm ev "items_bytes l (map raw_item (ev' # evs))"] Cons.prems(2) by auto
  obtain s1 where s1: "translate_event l False nm s = Translated (native ev) s1"
    "rd x j s1 (xl_string l ''event'' @ ?rest)"
    using translate_native [of x j s ev "xl_string l ''event'' @ ?rest" nm] Cons.prems(1,2) by (auto simp: raw_item_bytes)
  have o1: "xi_open s1" using rd_open [OF s1(2)] length_labels by auto
  obtain s2 where s2: "xi_string l s1 = (''event'', s2)" "rd x j s2 ?rest"
    using string_item [OF s1(2)] assms(5,6) by auto
  obtain s' where "events_loop k' l False nm room s2 (out @ native ev) (ent + 1) =
      Closed ((out @ native ev) @ concat (map native (ev' # evs))) (ent + 1 + of_nat (Suc (length evs))) s'"
    using Cons.IH [OF s2(2), of "out @ native ev" k' "ent + 1"] Cons.prems(2,3) k(2) by auto
  then show ?case using Cons.prems(3) s1(1) s2(1) o o1 k(1) by (auto simp: ac_simps)
qed

text \<open>Where the string would be read: the middle of the first event's values.\<close>

lemma drop_mid:
  assumes "x = xl_int l c @ items_bytes l (map raw_item (ev # evs)) @ j"
  shows "drop (4 + 12 + 4 * length (fst ev) + 4 * length (snd ev)) x =
    drop (4 * length (snd ev)) (concat (map (xl_double l) (snd ev))) @ items_bytes l (map raw_item evs) @ j"
proof -
  let ?d = "concat (map (xl_double l) (snd ev))" and ?k = "4 * length (snd ev)"
  have "x = (xl_int l c @ xl_string l ''event'' @ concat (map (xl_int l) (fst ev)) @ take ?k ?d) @
      drop ?k ?d @ items_bytes l (map raw_item evs) @ j"
    using assms take_drop_append [of ?k ?d] by (simp add: raw_item_bytes raw_tail_def)
  then show ?thesis
    by (rule drop_prefix) (simp add: length_int length_labels length_double length_concat comp_def sum_list_triv)
qed

lemma doubles_words: "concat (map (xl_double l) v) = concat (map (xl_int l) (words_of v))"
  by (induction v) (simp_all add: words_of_def double_words)

lemma drop_ints: "drop (4 * k) (concat (map (xl_int l) ws)) = concat (map (xl_int l) (drop k ws))"
proof (induction ws arbitrary: k)
  case (Cons w ws)
  then show ?case by (cases k) (simp_all add: length_int)
qed simp

lemma int_inject: "xl_int l w @ r = xl_int l w' @ r' \<Longrightarrow> w = w'"
  using get_int [of w r] get_int [of w' r'] by simp

lemma misread_word:
  assumes x: "x = xl_int l c @ items_bytes l (map raw_item (ev # evs)) @ j"
    and ne: "snd ev \<noteq> []" and m: "misread l x ev"
  shows "5 \<le> unat (mid_word (snd ev)) \<and> unat (mid_word (snd ev)) \<le> length x"
proof -
  let ?v = "snd ev" and ?p = "4 + 12 + 4 * length (fst ev) + 4 * length (snd ev)"
  obtain t n where t: "xl_get_string l (length x) (drop ?p x) = (Some t, n)" "c_str t = ''event''"
    using m by (cases "xl_get_string l (length x) (drop ?p x)") (auto simp: misread_def split: option.splits)
  obtain w r where w: "drop ?p x = xl_int l w @ r" "unat w = length t" "length t \<le> length x"
    using string_length [OF t(1)] by blast
  have "drop (length ?v) (words_of ?v) = mid_word ?v # drop (Suc (length ?v)) (words_of ?v)"
    using ne by (simp add: mid_word_def Cons_nth_drop_Suc)
  then have "drop ?p x = xl_int l (mid_word ?v) @
      concat (map (xl_int l) (drop (Suc (length ?v)) (words_of ?v))) @ items_bytes l (map raw_item evs) @ j"
    using drop_mid [OF x] by (simp add: doubles_words drop_ints)
  then have "mid_word ?v = w" using w(1) int_inject by metis
  moreover have "length (c_str t) \<le> length t" by (simp add: c_str_def length_takeWhile_le)
  ultimately show ?thesis using w(2,3) t(2) by simp
qed

text \<open>The values are doubles, unless the block is misread.\<close>

lemma width_double:
  assumes b: "is_block l n (items_bytes l (map raw_item (ev # evs))) x" "n < 2 ^ 30"
    and ev: "raw_ok (times (numBitmasks (fd_paramCount d))) ev"
  shows "dataWidth l n0 junk x d = Width (misread l x ev) d"
proof -
  let ?s = "xi_Connect l (new_xdr_in x junk n0)" and ?nm = "times (numBitmasks (fd_paramCount d))"
  let ?rest = "items_bytes l (map raw_item evs)"
  obtain j where x: "x = xl_int l (of_nat (4 + length (items_bytes l (map raw_item (ev # evs))))) @
      items_bytes l (map raw_item (ev # evs)) @ j" "length x = n"
    using b(1) by (auto simp: is_block_def)
  have big: "5 \<le> length x" "length x < 2 ^ 32"
    using x b(2) by (auto simp: raw_item_bytes length_labels)
  have ne: "items_bytes l (map raw_item (ev # evs)) \<noteq> []" using length_labels by (auto simp: raw_item_bytes)
  have r0: "rd x j ?s (xl_string l ''event'' @ raw_tail l ev @ ?rest)"
    using Connect_block [OF x(1) _ ne, of junk n0] x(2) b(2) by (simp add: raw_item_bytes)
  obtain s1 where s1: "xi_string l ?s = (''event'', s1)" "rd x j s1 (raw_tail l ev @ ?rest)"
    using string_item [OF r0] big by auto
  obtain m v where mv: "ev = (m, v)" by fastforce
  have m: "length m = ?nm" "sum_list (map CountBits m) = length v" "v \<noteq> []" using ev mv by (auto simp: raw_ok_def)
  let ?d = "concat (map (xl_double l) v)"
  obtain s2 where s2: "xi_items l (xl_get_int l) ?nm s1 = Some (map Some m, s2)" "rd x j s2 (?d @ ?rest)"
    using items_int [of x j s1 m "?d @ ?rest"] s1(2) m(1) mv by (auto simp: raw_tail_def)
  have ld: "length ?d = 8 * length v" by (simp add: length_concat comp_def length_double sum_list_triv)
  obtain vs s3 where s3: "xi_items l (xl_get_float l) (length v) s2 = Some (vs, s3)"
    "rd x j s3 (drop (4 * length v) ?d @ ?rest)"
    using items_float [OF s2(2), of "length v"] ld by auto
  let ?p = "4 + 12 + 4 * length m + 4 * length v"
  have "length v \<noteq> 0" using m(3) by simp
  then have "drop (4 * length v) ?d @ ?rest \<noteq> []" using ld by auto
  then have "drop (xi_pos s3) x = drop (4 * length v) ?d @ ?rest @ j" "xi_source s3 = x" "xi_buffer s3 = x"
    using s3(2) by (auto simp: rd_def)
  moreover have "drop ?p x = drop (4 * length v) ?d @ ?rest @ j" using drop_mid [OF x(1)] mv by simp
  ultimately have "fst (xi_string l s3) = ''event'' \<longleftrightarrow> misread l x ev"
    by (simp add: xi_string_def misread_def mv case_prod_unfold split: option.splits)
  moreover have "sum_list (map (CountBits \<circ> the) (map Some m)) = length v" using m(2) by (simp add: comp_def)
  moreover have "None \<notin> set (map Some m)" by auto
  ultimately show ?thesis
    using s1(1) s2(1) s3(1) by (simp add: dataWidth_def)
qed

end

subsection \<open>What the analyzer is called with\<close>

definition fresh_decoder :: "u8 list \<Rightarrow> filter_decoder \<Rightarrow> filter_decoder" where
  "fresh_decoder x d = d\<lparr> fd_translated := Some [], fd_room := length x * 2, fd_translator := True \<rparr>"

definition events_decoder :: "u8 list \<Rightarrow> raw_event list \<Rightarrow> filter_decoder \<Rightarrow> filter_decoder" where
  "events_decoder x evs d =
     physics_decoder (concat (map native evs)) (of_nat (length evs)) ((fresh_decoder x d)\<lparr> fd_isSingle := False \<rparr>)"

definition header_body :: "string list \<Rightarrow> u8 list" where
  "header_body names = put_cstring ''header'' @ put32 (of_nat (length names)) @ concat (map put_cstring names)"

definition header_decoder :: "u8 list \<Rightarrow> string list \<Rightarrow> filter_decoder \<Rightarrow> filter_decoder" where
  "header_decoder x names d = (fresh_decoder x d)\<lparr> fd_translated := Some (header_body names),
     fd_nBytes := of_nat (length (header_body names)), fd_seenHeader := True, fd_entities := ucast (fd_paramCount d),
     fd_type := fd_PARAMDESCRIP, fd_paramCount := fd_paramCount d + of_nat (length names) \<rparr>"

lemma fresh_decoder_sel [simp]:
  "fd_room (fresh_decoder x d) = length x * 2" "fd_paramCount (fresh_decoder x d) = fd_paramCount d"
  "fd_seenHeader (fresh_decoder x d) = fd_seenHeader d"
  by (simp_all add: fresh_decoder_def)

context xdr_library
begin

lemma decode_events:
  assumes b: "is_block l n (items_bytes l (map raw_item (ev # evs))) x" "n < 2 ^ 30"
    and ev: "\<forall>e \<in> set (ev # evs). raw_ok (times (numBitmasks (fd_paramCount d))) e" "\<not> misread l x ev"
    and d: "fd_seenHeader d" and k: "length evs + 2 \<le> k"
  shows "decode_block k l c n0 junk x d w =
    Some (events_decoder x (ev # evs) d, fst (fc_OnPhysics c (events_decoder x (ev # evs) d) w))"
proof -
  let ?s = "xi_Connect l (new_xdr_in x junk n0)" and ?nm = "times (numBitmasks (fd_paramCount d))"
  let ?f = "fresh_decoder x d" and ?bs = "items_bytes l (map raw_item (ev # evs))"
  obtain j where x: "x = xl_int l (of_nat (4 + length ?bs)) @ ?bs @ j" "length x = n"
    using b(1) by (auto simp: is_block_def)
  have big: "5 \<le> length x" "length x < 2 ^ 32" using x b(2) by (auto simp: raw_item_bytes length_labels)
  have ne: "?bs \<noteq> []" using length_labels by (auto simp: raw_item_bytes)
  have r0: "rd x j ?s (xl_string l ''event'' @ raw_tail l ev @ items_bytes l (map raw_item evs))"
    using Connect_block [OF x(1) _ ne, of junk n0] x(2) b(2) by (simp add: raw_item_bytes)
  obtain s1 where s1: "xi_string l ?s = (''event'', s1)" "rd x j s1 (raw_tail l ev @ items_bytes l (map raw_item evs))"
    using string_item [OF r0] big by auto
  have o1: "xi_open s1" using rd_open [OF s1(2)] tail_nonempty [of ?nm ev "items_bytes l (map raw_item evs)"] ev(1) by auto
  have "length x = 4 + length ?bs + length j" using length_int by (subst x(1)) simp
  then have room: "length [] + length (concat (map native (ev # evs))) \<le> length x * 2"
    using length_natives [of "ev # evs"] by simp
  obtain s' where s': "events_loop k l False ?nm (length x * 2) s1 [] 0 =
      Closed ([] @ concat (map native (ev # evs))) (0 + of_nat (Suc (length evs))) s'"
    using loop_native [OF s1(2) ev(1) room k big, of 0] by auto
  have w: "dataWidth l n0 junk x ?f = Width False ?f"
    using width_double [OF b, of ?f] ev by (simp add: fresh_decoder_def)
  have "ProcessEvents k l c (?f\<lparr> fd_isSingle := False \<rparr>) s1 w =
      (let d' = events_decoder x (ev # evs) d; (w', ok) = fc_OnPhysics c d' w in if ok then FdDone d' s' w' else FdThrows d' w')"
    using s' by (simp add: ProcessEvents_def events_decoder_def fresh_decoder_def)
  then have "TranslateBuffer k l c n0 junk x d ?s w =
      (let d' = events_decoder x (ev # evs) d; (w', ok) = fc_OnPhysics c d' w in if ok then FdDone d' s' w' else FdThrows d' w')"
    using s1(1) o1 w d by (simp add: TranslateBuffer_def width_and_events_def fresh_decoder_def)
  then show ?thesis
    by (cases "fc_OnPhysics c (events_decoder x (ev # evs) d) w") (simp add: decode_block_def Let_def)
qed

lemma names_bytes:
  assumes "\<forall>nm \<in> set names. c_string nm \<and> length nm < 2 ^ 32"
  shows "length (concat (map put_cstring names)) \<le> length (concat (map (xl_string l) names)) \<and>
    4 * length names \<le> length (concat (map (xl_string l) names)) \<and>
    (\<forall>nm \<in> set names. length nm \<le> length (concat (map (xl_string l) names)))"
  using assms
proof (induction names)
  case (Cons nm names)
  have "length (xl_string l nm) = 4 + padded (length nm)" using length_string Cons.prems by auto
  then show ?case using Cons padded_ge [of "length nm"] by auto
qed simp

lemma decode_header:
  assumes b: "is_block l n (items_bytes l [Header names]) x" "n < 2 ^ 30"
    and names: "\<forall>nm \<in> set names. c_string nm \<and> length nm < 2 ^ 32"
  shows "decode_block k l c n0 junk x d w =
    Some (header_decoder x names d, fst (fc_OnOther c (ucast fd_PARAMDESCRIP) (header_decoder x names d) w))"
proof -
  let ?s = "xi_Connect l (new_xdr_in x junk n0)" and ?f = "fresh_decoder x d"
  let ?strs = "concat (map (xl_string l) names)" and ?cnt = "of_nat (length names) :: u32"
  let ?bs = "items_bytes l [Header names]"
  obtain j where x: "x = xl_int l (of_nat (4 + length ?bs)) @ ?bs @ j" "length x = n"
    using b(1) by (auto simp: is_block_def)
  have bs: "?bs = xl_string l ''header'' @ xl_int l ?cnt @ ?strs" by (simp add: item_bytes_def)
  have len: "length x = 4 + length ?bs + length j" using length_int by (subst x(1)) simp
  then have big: "length ?strs + 20 \<le> length x" unfolding bs by (simp add: length_labels length_int)
  note nb = names_bytes [OF names]
  have ne: "?bs \<noteq> []" unfolding bs using length_labels by auto
  have r0: "rd x j ?s (xl_string l ''header'' @ xl_int l ?cnt @ ?strs)"
    using Connect_block [OF x(1) _ ne, of junk n0] x(2) b(2) unfolding bs by simp
  obtain s1 where s1: "xi_string l ?s = (''header'', s1)" "rd x j s1 (xl_int l ?cnt @ ?strs)"
    using string_item [OF r0] big b(2) x(2) by auto
  obtain s2 where s2: "xi_Get l (xl_get_int l) s1 = Some (Some ?cnt, s2)" "rd x j s2 ?strs"
    using Get_int [OF s1(2)] by auto
  have fits: "\<forall>nm \<in> set names. c_string nm \<and> length nm \<le> length x" using nb names big by auto
  obtain s3 where s3: "read_names l (length names) s2 = (names, s3)" "rd x j s3 []"
    using string_items [of x j s2 names "[]"] s2(2) fits b(2) x(2) by auto
  have "length names < 2 ^ 31" using nb big b(2) x(2) by simp
  then have t: "times ?cnt = length names" by (simp add: times_def sint_small)
  have room: "length (header_body names) \<le> length x * 2" using nb big by (simp add: header_body_def)
  have ph: "ProcessHeader l (Some c) ?f s1 w =
      (let d1 = header_decoder x names d; (w', ok) = fc_OnOther c (ucast fd_PARAMDESCRIP) d1 w
       in if ok then FdDone d1 s3 w' else FdThrows d1 w')"
    using s2(1) s3(1) t room
    by (simp add: ProcessHeader_def header_decoder_def header_body_def Let_def split: prod.split)
  have "\<not> xi_open s3" "fd_seenHeader (header_decoder x names d)" using s3(2) by (simp_all add: rd_def header_decoder_def)
  then have "TranslateBuffer k l c n0 junk x d ?s w =
      (let d1 = header_decoder x names d; (w', ok) = fc_OnOther c (ucast fd_PARAMDESCRIP) d1 w
       in if ok then FdDone d1 s3 w' else FdThrows d1 w')"
    using s1(1) ph unfolding TranslateBuffer_def fresh_decoder_def
    by (simp add: Let_def split: prod.splits)
  then show ?thesis
    by (cases "fc_OnOther c (ucast fd_PARAMDESCRIP) (header_decoder x names d) w") (simp add: decode_block_def Let_def)
qed

text \<open>A block without items has no effect, whatever is left in it of the block before.\<close>

lemma decode_empty:
  assumes b: "is_block l n [] x" "0 < n" and d: "fd_seenHeader d"
  shows "\<exists>d'. decode_block k l c n0 junk x d w = Some (d', w) \<and> fd_seenHeader d' \<and> fd_paramCount d' = fd_paramCount d"
proof -
  let ?s = "xi_Connect l (new_xdr_in x junk n0)"
  obtain j where x: "x = xl_int l 4 @ j" "length x = n" using b(1) by (auto simp: is_block_def)
  have "xl_get_int l x = (Some 4, 4)" unfolding x(1) by (rule get_int)
  then have s: "xi_pos ?s = 4" "xi_size ?s = 4" "xi_read ?s"
    using b(2) x(2) by (simp_all add: xi_Connect_def DoRead_def new_xdr_in_def xi_Read_def)
  obtain t s1 where s1: "xi_string l ?s = (t, s1)" by fastforce
  have "\<not> xi_open s1"
    using s1 s by (auto simp: xi_string_def ConditionalRead_def DoRead_def xi_Read_def split: prod.splits)
  then show ?thesis
    using s1 d by (auto simp: decode_block_def TranslateBuffer_def ProcessHeader_def xi_Get_def Let_def)
qed

end

end
