(* ===== verification/FilterDelivery.thy ===== *)
theory FilterDelivery
  imports FilterBlocks
begin

text \<open>
  The filter event processor in the analyzer's pipeline: on a body the filter buffer decoder
  translated it keeps the contract of OnEvent (the locale packer), so that the event sinks
  get the events written, under the numbers the parameters have on the reading side.
\<close>

subsection \<open>One event\<close>

text \<open>What an event sets: the pairs of parameter and value whose parameter exists.\<close>

definition carried :: "i32 list \<Rightarrow> raw_event \<Rightarrow> (u32 \<times> ptype) list" where
  "carried pm ev = filter (\<lambda>(n, v). 0 \<le> sint n)
     (zip (map ((!) pm) (positions 0 (fst ev))) (map f64_value (snd ev)))"

definition carried_view :: "(u32 \<times> ptype) list \<Rightarrow> (nat \<Rightarrow> ptype option) \<times> nat list" where
  "carried_view nvs =
     (map_of (rev (map (\<lambda>(n, v). (unat n, v)) nvs)), first_seen [] (map (unat \<circ> fst) nvs))"

text \<open>An event all of whose positions are in the map, with parameters within the range of events.\<close>

definition mapped :: "i32 list \<Rightarrow> raw_event \<Rightarrow> bool" where
  "mapped pm ev \<longleftrightarrow> raw_ok (fp_masks pm) ev \<and> (\<forall>p \<in> set (positions 0 (fst ev)). p < length pm)"

definition map_ok :: "i32 list \<Rightarrow> bool" where
  "map_ok pm \<longleftrightarrow> pm \<noteq> [] \<and> (\<forall>n \<in> set pm. 0 \<le> sint n \<longrightarrow> unat n < max_params)"

lemma read_parameters_sets:
  assumes "length vs = length pl"
  shows "read_parameters pl (concat (map put64 vs) @ r) e =
    map_option (\<lambda>e'. (e', r)) (ev_sets (filter (\<lambda>(n, v). 0 \<le> sint n) (zip pl (map f64_value vs))) e)"
  using assms
proof (induction pl arbitrary: vs e)
  case (Cons n pl)
  then obtain w ws where "vs = w # ws" "length ws = length pl" by (cases vs) auto
  then show ?case using Cons.IH [of ws] by (auto split: option.split)
qed simp

lemma view_sets:
  assumes "blank e" "\<forall>(n, v) \<in> set nvs. unat n < max_params"
  shows "\<exists>e'. ev_sets nvs e = Some e' \<and> ev_ok e' \<and> ev_serial e' = ev_serial e \<and> view e' = carried_view nvs"
  using ev_sets_spec [of e nvs] assms by (auto simp: blank_def view_def carried_view_def)

lemma length_natives_ge: "6 \<le> length (native ev)"
  by (simp add: native_def)

text \<open>The processor at a native event.\<close>

lemma operator_native:
  assumes body: "drop d body = native ev @ r" and pm: "fp_map (ta_world t) = pm" "map_ok pm" "mapped pm ev"
    and e: "blank e"
  shows "\<exists>e'. fp_operator body d e t = (SetEventSize (of_nat (length (native ev))) t, e', False, Success True) \<and>
    ev_ok e' \<and> ev_serial e' = ev_serial e \<and> view e' = carried_view (carried pm ev)"
proof -
  obtain m v where ev: "ev = (m, v)" by fastforce
  have m: "length m = fp_masks pm" "length v = length (positions 0 m)" "\<forall>p \<in> set (positions 0 m). p < length pm"
    using pm(3) sum_CountBits [of m 0] by (auto simp: mapped_def raw_ok_def ev)
  let ?r = "concat (map put64 v) @ r" and ?pl = "map ((!) pm) (positions 0 m)"
  have c: "get_cstring (drop d body) = Some (''event'', concat (map put32 m) @ ?r)"
    using body by (simp add: native_def ev c_string_def)
  have masks: "read_masks (fp_masks pm) pm (concat (map put32 m) @ ?r) 0 [] = FpOk (?pl, ?r)"
    using read_masks_spec [OF m(3), of ?r "[]"] m(1) by simp
  have rp: "read_parameters ?pl ?r e = map_option (\<lambda>e'. (e', r)) (ev_sets (carried pm ev) e)"
    using read_parameters_sets [of v ?pl r e] m(2) by (simp add: carried_def ev)
  have "\<forall>(n, w) \<in> set (carried pm ev). unat n < max_params"
    using pm(2) m(3) by (auto simp: carried_def ev map_ok_def dest!: set_zip_leftD)
  then obtain e' where e': "ev_sets (carried pm ev) e = Some e'" "ev_ok e'" "ev_serial e' = ev_serial e"
    "view e' = carried_view (carried pm ev)"
    using view_sets [OF e] by blast
  then show ?thesis
    using c masks rp pm(1,2) body unfolding fp_operator_def by (simp add: map_ok_def)
qed

subsection \<open>The analyzer\<close>

text \<open>The pipeline has the filter event processor as its only element.\<close>

definition filter_OnEvent :: "(string \<Rightarrow> u32 option) \<Rightarrow> u8 list \<Rightarrow> filter_world tcl on_event" where
  "filter_OnEvent pnum body = tcl_OnEvent id (\<lambda>_. filter_processor pnum body)"

definition counted :: "filter_world tcl \<Rightarrow> filter_world tcl" where
  "counted t = IncrementCounter EventsAnalyzedThisRun 1 (IncrementCounter EventsAnalyzed 1 t)"

definition filter_pipeline :: "i32 list \<Rightarrow> filter_world tcl \<Rightarrow> bool" where
  "filter_pipeline pm t \<longleftrightarrow> length (current_elements (ta_pipelines t)) = 1 \<and> ta_world t = \<lparr> fp_map = pm, fp_bad = False \<rparr>"

definition filter_good :: "i32 list \<Rightarrow> u8 list \<Rightarrow> nat \<Rightarrow> filter_world tcl \<Rightarrow> bool" where
  "filter_good pm body d t \<longleftrightarrow> filter_pipeline pm t \<and> map_ok pm \<and> length body < 2 ^ 32 \<and> d \<le> length body \<and>
     (\<exists>evs. drop d body = concat (map native evs) \<and> (\<forall>ev \<in> set evs. mapped pm ev))"

lemma pipeline_steps [simp]:
  "filter_pipeline pm (counted t) \<longleftrightarrow> filter_pipeline pm t" "filter_pipeline pm (SetEventSize n t) \<longleftrightarrow> filter_pipeline pm t"
  "ta_world (counted t) = ta_world t"
  by (simp_all add: filter_pipeline_def counted_def IncrementCounter_def SetEventSize_def)

lemma filter_OnEvent_run:
  assumes "filter_pipeline pm t"
  shows "filter_OnEvent pnum body d e t = run_pipeline [filter_processor pnum body] d e (counted t)"
proof -
  have "current_elements (ta_pipelines (counted t)) = current_elements (ta_pipelines t)"
    by (simp add: counted_def IncrementCounter_def)
  then obtain el where "current_elements (ta_pipelines (counted t)) = [el]"
    using assms by (auto simp: filter_pipeline_def length_Suc_conv)
  then show ?thesis
    by (simp add: filter_OnEvent_def tcl_OnEvent_def current_processors_def Let_def flip: counted_def)
qed

lemma filter_step:
  assumes t: "filter_pipeline pm t" "map_ok pm" and ev: "drop d body = native ev @ r" "mapped pm ev"
    and e: "blank e" and len: "length body < 2 ^ 32"
  shows "\<exists>e'. filter_OnEvent pnum body d e t =
      (SetEventSize (of_nat (length (native ev))) (counted t), e', False, False, Size (of_nat (length (native ev)))) \<and>
    ev_ok e' \<and> ev_serial e' = ev_serial e \<and> view e' = carried_view (carried pm ev)"
proof -
  have w: "fp_map (ta_world (counted t)) = pm" using t(1) by (simp add: filter_pipeline_def)
  obtain e' where "fp_operator body d e (counted t) =
      (SetEventSize (of_nat (length (native ev))) (counted t), e', False, Success True)"
    "ev_ok e'" "ev_serial e' = ev_serial e" "view e' = carried_view (carried pm ev)"
    using operator_native [OF ev(1) w t(2) ev(2) e] by blast
  then show ?thesis
    by (simp add: filter_OnEvent_run [OF t(1)] filter_processor_def) (simp add: SetEventSize_def)
qed

lemma good_steps [simp]:
  "filter_good pm body d (SetEventSize n (counted t)) \<longleftrightarrow> filter_good pm body d t"
  by (simp add: filter_good_def)

lemma good_next:
  assumes g: "filter_good pm body d t" "d < length body"
  obtains ev r where "drop d body = native ev @ r" "mapped pm ev" "length (native ev) < 2 ^ 32"
    "filter_good pm body (d + length (native ev)) t"
proof -
  obtain evs where evs: "drop d body = concat (map native evs)" "\<forall>ev \<in> set evs. mapped pm ev"
    using g(1) by (auto simp: filter_good_def)
  have "drop d body \<noteq> []" using g(2) by simp
  then obtain ev evs' where e: "evs = ev # evs'" using evs(1) by (cases evs) auto
  have "length (drop d body) = length (native ev) + length (concat (map native evs'))"
    using evs(1) e by simp
  then have le: "d + length (native ev) \<le> length body" "length (native ev) < 2 ^ 32"
    using g by (auto simp: filter_good_def)
  have "drop (d + length (native ev)) body = concat (map native evs')"
  proof -
    have "drop (d + length (native ev)) body = drop (length (native ev)) (drop d body)" by (simp add: add.commute)
    then show ?thesis using evs(1) e by simp
  qed
  then have "filter_good pm body (d + length (native ev)) t"
    using g(1) le(1) evs(2) e by (auto simp: filter_good_def)
  then show thesis using that evs e le(2) by auto
qed

interpretation filter_packer: packer "filter_OnEvent pnum body" "length body" "filter_good pm body"
  for pnum body pm
proof (unfold_locales, goal_cases)
  case (1 d s e)
  let ?n = "\<lambda>ev. of_nat (length (native ev)) :: u32"
  obtain ev r where ev: "drop d body = native ev @ r" "mapped pm ev" "length (native ev) < 2 ^ 32"
    "filter_good pm body (d + length (native ev)) s"
    using good_next [OF 1(1,2)] by metis
  have u: "unat (?n ev) = length (native ev)" using ev(3) by (simp add: unat_of_nat)
  have p: "filter_pipeline pm s" "map_ok pm" "length body < 2 ^ 32" using 1(1) by (auto simp: filter_good_def)
  have "d + length (native ev) \<le> length body" using ev(4) by (simp add: filter_good_def)
  then have "0 < ?n ev" "d + unat (?n ev) < 2 ^ 32"
    using u length_natives_ge [of ev] p(3) by (auto simp: word_less_nat_alt)
  then show ?case using filter_step [OF p(1,2) ev(1,2) 1(3) p(3), of pnum] ev(4) u by auto
next
  case (2 d s e s1 e1 ab1 pa1 r1 s2 e2 ab2 pa2 r2)
  obtain ev r where ev: "drop d body = native ev @ r" "mapped pm ev" using good_next [OF 2(1,2)] by metis
  have p: "filter_pipeline pm s" "map_ok pm" "length body < 2 ^ 32" using 2(1) by (auto simp: filter_good_def)
  show ?case
    using filter_step [OF p(1,2) ev 2(3) p(3), of pnum] filter_step [OF p(1,2) ev blank_new_event p(3), of pnum] 2(4,5)
    by auto
qed

subsection \<open>A buffer of events\<close>

lemma unpack_natives:
  assumes "filter_good pm body d t" "drop d body = concat (map native evs)" "\<forall>ev \<in> set evs. mapped pm ev"
  shows "map view (fst (unpack_all (filter_OnEvent pnum body) (length body) (length evs) d t)) =
      map (\<lambda>ev. carried_view (carried pm ev)) evs \<and>
    filter_pipeline pm (snd (unpack_all (filter_OnEvent pnum body) (length body) (length evs) d t))"
  using assms
proof (induction evs arbitrary: d t)
  case Nil
  then show ?case by (simp add: unpack_all.simps [of _ _ 0] filter_good_def)
next
  case (Cons ev evs)
  let ?n = "of_nat (length (native ev)) :: u32" and ?t = "SetEventSize (of_nat (length (native ev))) (counted t)"
  have p: "filter_pipeline pm t" "map_ok pm" "length body < 2 ^ 32" using Cons.prems(1) by (auto simp: filter_good_def)
  have b: "drop d body = native ev @ concat (map native evs)" "mapped pm ev" using Cons.prems(2,3) by auto
  from filter_step [OF p(1,2) b blank_new_event p(3), of pnum]
  obtain e where e: "filter_OnEvent pnum body d new_event t = (?t, e, False, False, Size ?n)"
    "view e = carried_view (carried pm ev)" by (elim exE conjE)
  have "length (drop d body) = length (native ev) + length (concat (map native evs))" using b(1) by simp
  then have d: "d < length body" "d + length (native ev) \<le> length body" using length_natives_ge [of ev] by auto
  then have "unat ?n = length (native ev)" using p(3) by (simp add: unat_of_nat)
  moreover from this have "unat ?n \<noteq> 0" using length_natives_ge [of ev] by auto
  then have "?n \<noteq> 0" by (metis unat_0)
  ultimately have u: "unat ?n = length (native ev)" "?n \<noteq> 0" by auto
  have r: "drop (d + length (native ev)) body = concat (map native evs)"
  proof -
    have "drop (d + length (native ev)) body = drop (length (native ev)) (drop d body)" by (simp add: add.commute)
    then show ?thesis using b(1) by simp
  qed
  have g: "filter_good pm body (d + length (native ev)) ?t"
    using Cons.prems(1,3) d(2) r by (auto simp: filter_good_def)
  have "unpack_all (filter_OnEvent pnum body) (length body) (length (ev # evs)) d t =
      (let (es, s'') = unpack_all (filter_OnEvent pnum body) (length body) (length evs) (d + length (native ev)) ?t
       in (e # es, s''))"
    using e(1) u d(1) by (subst unpack_all.simps) (simp add: not_le)
  moreover have "\<forall>ev \<in> set evs. mapped pm ev" using Cons.prems(3) by simp
  ultimately show ?case using Cons.IH [OF g r] e(2) by (auto simp: case_prod_unfold Let_def)
qed

text \<open>The reading side between two blocks, with m more events or bytes allowed for.\<close>

definition reader_ok :: "i32 list \<Rightarrow> nat \<Rightarrow> filter_world tcl analyzer \<Rightarrow> bool" where
  "reader_ok pm m a \<longleftrightarrow> at_rest a m \<and> batches_within a \<and> an_threshold a \<noteq> 0 \<and> filter_pipeline pm (an_derived a)"

lemma owned_derived [simp]: "owned (a\<lparr> an_derived := t \<rparr>) ps xs m = owned a ps xs m"
  by (simp add: owned_def)

lemma derived_steps [simp]:
  "seen (a\<lparr> an_derived := t \<rparr>) = seen a" "batches_within (a\<lparr> an_derived := t \<rparr>) = batches_within a"
  by (simp_all add: seen_def batches_within_def)

lemma physics_natives:
  assumes a: "reader_ok pm m a" and pm: "map_ok pm" and evs: "\<forall>ev \<in> set evs. mapped pm ev"
    and body: "body = concat (map native evs)" "length body < 2 ^ 32" and n: "unat nEvents = length evs"
    and m: "2 * length body \<le> m" "m < 2 ^ 64 - 2"
  shows "\<exists>a'. tcl_OnPhysics (Suc (unat nEvents + unat (of_nat (length body) :: u32))) id
      (\<lambda>_. filter_processor pnum body) nEvents (of_nat (length body)) dc a = Done a' \<and>
    reader_ok pm (m - 2 * length body) a' \<and>
    seen a' = seen a @ map (\<lambda>ev. carried_view (carried pm ev)) evs"
proof -
  let ?s = "of_nat (length body) :: u32"
  have u: "unat ?s = length body" using body(2) by (simp add: unat_of_nat)
  have le: "length evs \<le> length body"
  proof -
    have "length evs \<le> length (concat (map native evs))"
      using length_natives_ge by (induction evs) (auto simp: native_def)
    then show ?thesis using body(1) by simp
  qed
  have g: "filter_good pm body 0 (an_derived a)"
    using a pm evs body by (auto simp: filter_good_def reader_ok_def)
  have un: "map view (fst (unpack_all (filter_OnEvent pnum body) (length body) (length evs) 0 (an_derived a))) =
      map (\<lambda>ev. carried_view (carried pm ev)) evs"
    "filter_pipeline pm (snd (unpack_all (filter_OnEvent pnum body) (length body) (length evs) 0 (an_derived a)))"
    using unpack_natives [OF g _ evs, of pnum] body(1) by auto
  obtain a' where a': "OnPhysics (Suc (unat nEvents + unat ?s)) (filter_OnEvent pnum body) nEvents ?s a = Done a'"
    "at_rest a' (m - (unat nEvents + length body))" "batches_within a'" "an_threshold a' = an_threshold a"
    "seen a' = seen a @ map (\<lambda>ev. carried_view (carried pm ev)) evs" "filter_pipeline pm (an_derived a')"
    using filter_packer.OnPhysics_delivers [of a m pm body ?s nEvents "Suc (unat nEvents + unat ?s)" pnum]
      a g u n le m un by (auto simp: reader_ok_def)
  have "at_rest a' (m - 2 * length body)" by (rule owned_mono [OF a'(2)]) (use n le in simp)
  moreover have "filter_pipeline pm (t\<lparr> ta_nBuffersAnalyzed := i, ta_nLastSequence := j \<rparr>) = filter_pipeline pm t" for t i j
    by (simp add: filter_pipeline_def)
  moreover have "an_threshold a \<noteq> 0" using a by (simp add: reader_ok_def)
  ultimately show ?thesis
    using a' by (simp add: tcl_OnPhysics_def reader_ok_def flip: filter_OnEvent_def)
qed

end
