(* ===== verification/XdrRoundtrip.thy ===== *)
theory XdrRoundtrip
  imports FilterDelivery
begin

text \<open>
  XDR filter files end to end: what the output stage writes for a run of events, read back
  block by block by the filter buffer decoder, unpacked by the filter event processor and
  handed to the event sinks by the analyzer.
\<close>

subsection \<open>Writing a file\<close>

definition bind_st :: "'a stage_result \<Rightarrow> ('a \<Rightarrow> 'a stage_result) \<Rightarrow> 'a stage_result" where
  "bind_st r f = (case r of StOk a \<Rightarrow> f a | _ \<Rightarrow> r)"

fun write_events :: "xdr_lib \<Rightarrow> (ptype \<Rightarrow> u64) \<Rightarrow> event list \<Rightarrow> xdr_stage \<Rightarrow> xdr_stage stage_result" where
  "write_events l bits [] st = StOk st"
| "write_events l bits (e # es) st = (case xs_event l bits e st of
      StOk (st', _) \<Rightarrow> write_events l bits es st'
    | StThrow x (st', _) \<Rightarrow> StThrow x st'
    | Exits \<Rightarrow> Exits | StUndefined \<Rightarrow> StUndefined | StRunning \<Rightarrow> StRunning)"

definition write_file ::
  "nat \<Rightarrow> xdr_lib \<Rightarrow> (ptype \<Rightarrow> u64) \<Rightarrow> u8 list \<Rightarrow> (nat \<Rightarrow> nat option) \<Rightarrow> string list \<Rightarrow> u32 list \<Rightarrow> event list \<Rightarrow>
     xdr_stage \<Rightarrow> xdr_stage stage_result" where
  "write_file k l bits junk w names ids es st =
     bind_st (xs_open l True junk w st) (\<lambda>st1.
     bind_st (xs_DescribeEvent k l names ids st1) (\<lambda>st2.
     bind_st (write_events l bits es st2) (xs_close l)))"

definition raw_of :: "(ptype \<Rightarrow> u64) \<Rightarrow> u32 list \<Rightarrow> event \<Rightarrow> raw_event" where
  "raw_of bits ids e = (masks_of (flags_of ids e), map bits (values_of ids e))"

lemma event_item_raw: "event_item bits ids e = raw_item (raw_of bits ids e)"
  by (simp add: event_item_def raw_item_def raw_of_def)

definition written :: "u32 list \<Rightarrow> event list \<Rightarrow> event list" where
  "written ids es = filter (\<lambda>e. values_of ids e \<noteq> []) es"

text \<open>An event without any of the parameters is not written.\<close>

lemma event_skipped:
  assumes "xs_stream st = Some s" "ev_ok e" "\<forall>p \<in> set (xs_ids st). unat p < max_params" "values_of (xs_ids st) e = []"
  shows "\<exists>e'. xs_event l bits e st = StOk (st, e') \<and> ev_abs e' = ev_abs e"
proof -
  obtain e' where "ev_abs e' = ev_abs e" "mark_valid 0 (xs_ids st) e (replicate (mask_words (length (xs_ids st))) 0) 0 =
      Some (e', set_flags 0 (flags_of (xs_ids st) e) (replicate (mask_words (length (xs_ids st))) 0), 0)"
    using mark_valid_spec [OF assms(2,3), of 0 _ 0] assms(4) by auto
  then show ?thesis using assms(1) by (simp add: xs_event_def Let_def)
qed

lemma concat_is_map:
  "concat bs @ c = map f xs \<Longrightarrow> \<exists>bs' c'. bs = map (map f) bs' \<and> c = map f c' \<and> concat bs' @ c' = xs"
proof (induction bs arbitrary: xs)
  case Nil
  then show ?case by (intro exI [of _ "[]"] exI [of _ xs]) simp
next
  case (Cons b bs)
  then obtain us vs where "xs = us @ vs" "b = map f us" "concat bs @ c = map f vs"
    by (auto simp: append_eq_map_conv)
  then show ?case using Cons.IH [of vs] by (auto intro: exI [of _ "us # _"])
qed

context xdr_library
begin

lemma written_events:
  assumes "xs_stream st = Some s" "out_holds l n s (bs @ map (map raw_item) ebs) (map raw_item cur)"
    and "\<forall>p \<in> set (xs_ids st). unat p < max_params" "\<forall>e \<in> set es. ev_ok e"
    and "16 + 4 * mask_words (length (xs_ids st)) + 8 * length (xs_ids st) \<le> n"
  shows "\<exists>st' s' ebs' cur'. write_events l bits es st = StOk st' \<and> xs_stream st' = Some s' \<and> xs_files st' = xs_files st \<and>
    out_holds l n s' (bs @ map (map raw_item) ebs') (map raw_item cur') \<and>
    concat ebs' @ cur' = concat ebs @ cur @ map (raw_of bits (xs_ids st)) (written (xs_ids st) es) \<and>
    length ebs' \<le> length ebs + 2 * length es"
  using assms
proof (induction es arbitrary: st s ebs cur)
  case Nil
  then show ?case by (auto simp: written_def)
next
  case (Cons e es)
  let ?ids = "xs_ids st"
  have e: "ev_ok e" and es: "\<forall>e \<in> set es. ev_ok e" using Cons.prems(4) by auto
  show ?case
  proof (cases "values_of ?ids e = []")
    case True
    then obtain e' where "xs_event l bits e st = StOk (st, e')" using event_skipped Cons.prems(1,3) e by blast
    then show ?thesis
      using Cons.IH [OF Cons.prems(1,2,3) es Cons.prems(5)] True by (fastforce simp: written_def)
  next
    case False
    have "length (values_of ?ids e) \<le> length ?ids" by (simp add: values_of_def)
    then have "4 + length (item_bytes l (event_item bits ?ids e)) \<le> n"
      using length_event_item [of bits ?ids e] Cons.prems(5) by simp
    from event_written [OF Cons.prems(1,2) e Cons.prems(3) False this]
    obtain s' e' more cur' where w: "xs_event l bits e st = StOk (st\<lparr> xs_stream := Some s' \<rparr>, e')"
      "out_holds l n s' ((bs @ map (map raw_item) ebs) @ more) cur'"
      "concat more @ cur' = map raw_item (cur @ [raw_of bits ?ids e])" "length more \<le> 2"
      by (auto simp: event_item_raw)
    obtain mr cr where m: "more = map (map raw_item) mr" "cur' = map raw_item cr"
      "concat mr @ cr = cur @ [raw_of bits ?ids e]" using concat_is_map [OF w(3)] by auto
    let ?st = "st\<lparr> xs_stream := Some s' \<rparr>"
    have "xs_stream ?st = Some s'" "out_holds l n s' (bs @ map (map raw_item) (ebs @ mr)) (map raw_item cr)"
      using w(2) m by simp_all
    from Cons.IH [OF this] Cons.prems(3,5) es obtain st' s2 ebs' cur2 where
      "write_events l bits es ?st = StOk st'" "xs_stream st' = Some s2" "xs_files st' = xs_files st"
      "out_holds l n s2 (bs @ map (map raw_item) ebs') (map raw_item cur2)"
      "concat ebs' @ cur2 = concat (ebs @ mr) @ cr @ map (raw_of bits ?ids) (written ?ids es)"
      "length ebs' \<le> length ebs + 2 * Suc (length es)"
      using w(4) m(1) by fastforce
    moreover have "concat (ebs @ mr) @ cr @ r = concat ebs @ cur @ raw_of bits ?ids e # r" for r
      using m(3) by (simp flip: append_assoc) (simp add: append_assoc)
    ultimately show ?thesis using w(1) False
      by (intro exI [of _ st'] exI [of _ s2] exI [of _ ebs'] exI [of _ cur2]) (simp add: written_def)
  qed
qed

lemma opened_holds:
  assumes "\<forall>i. \<exists>k. w i = Some k \<and> xdr_buffersize \<le> k" "xs_stream st = None"
  shows "\<exists>s. xs_open l True junk w st = StOk (st\<lparr> xs_stream := Some s \<rparr>) \<and> out_holds l xdr_buffersize s [] []"
proof -
  let ?n = "xdr_buffersize" and ?h = "xl_int l 0"
  let ?b = "take ?n (junk @ replicate ?n 0)"
  have b: "length ?b = ?n" "4 \<le> ?n" "?n < 2 ^ 30" by (simp_all add: xdr_buffersize_def)
  let ?s = "(new_xdr_out ?n junk w)\<lparr> xo_file := [], xo_open := True, xo_buffer := ?h @ drop 4 ?b, xo_pos := 4 \<rparr>"
  have "xdr_Open l True (new_xdr_out ?n junk w) = Inr ?s"
    using b length_int [of 0] by (simp add: xdr_Open_def new_xdr_out_def emit_def Let_def)
  moreover have "out_ok ?s []"
  proof -
    have "\<exists>h r. length h = 4 \<and> xo_buffer ?s = h @ [] @ r"
      using length_int [of 0] by (intro exI [of _ ?h] exI [of _ "drop 4 ?b"]) simp
    moreover have "length (xo_buffer ?s) = ?n" using b length_int [of 0] by simp
    ultimately show ?thesis using b(2,3) assms(1) unfolding out_ok_def by (simp add: new_xdr_out_def)
  qed
  then have "out_holds l ?n ?s [] []"
    by (simp add: out_holds_def out_bytes_def file_holds_def) (simp add: new_xdr_out_def)
  ultimately show ?thesis using assms(2) by (intro exI [of _ ?s]) (simp add: xs_open_def)
qed

lemma close_holds:
  assumes "xs_stream st = Some s" "out_holds l n s blocks cur"
  shows "\<exists>f. xs_close l st = StOk (st\<lparr> xs_stream := None, xs_files := xs_files st @ [f] \<rparr>) \<and>
    file_holds l n (blocks @ [cur]) f"
proof -
  obtain s' where s': "Flush l s = Inr s'" "out_bytes l n s' (blocks @ [cur]) []"
    using Flush_out assms(2) unfolding out_holds_def by blast
  have o: "xo_open s" "\<not> xo_freed s'" "file_holds l n (blocks @ [cur]) (xo_file s')"
    using assms(2) s'(2) by (auto simp: out_holds_def out_bytes_def out_ok_def)
  then have "xdr_delete l s = Some (xo_file s')" using s'(1) by (simp add: xdr_delete_def xdr_Close_def Let_def)
  then show ?thesis using assms(1) o(3) by (auto simp: xs_close_def)
qed

text \<open>The blocks of a file: headers, then events.\<close>

lemma file_written:
  assumes w: "\<forall>i. \<exists>k. w i = Some k \<and> xdr_buffersize \<le> k" and st: "xs_stream st = None"
    and names: "describable xdr_buffersize names"
    and ids: "\<forall>p \<in> set ids. unat p < max_params"
    and size: "16 + 4 * mask_words (length ids) + 8 * length ids \<le> xdr_buffersize"
    and es: "\<forall>e \<in> set es. ev_ok e"
  shows "\<exists>st' f hs ebs. write_file (Suc (length names)) l bits junk w names ids es st = StOk st' \<and>
    xs_files st' = xs_files st @ [f] \<and>
    file_holds l xdr_buffersize (map (\<lambda>h. [Header h]) hs @ map (map raw_item) ebs) f \<and>
    concat hs = names \<and> concat ebs = map (raw_of bits ids) (written ids es) \<and>
    length hs \<le> length names \<and> length ebs \<le> 2 * length es + 1"
proof -
  let ?n = xdr_buffersize
  obtain s where s: "xs_open l True junk w st = StOk (st\<lparr> xs_stream := Some s \<rparr>)" "out_holds l ?n s [] []"
    using opened_holds [OF w st] by blast
  have "24 < ?n" "length names - 0 < Suc (length names)" by (simp_all add: xdr_buffersize_def)
  from describe_all [OF s(2) this(1) names this(2)]
  obtain s1 hs where s1: "describe_loop (Suc (length names)) l names 0 (int (length names)) s = StOk s1"
    "out_holds l ?n s1 (map (\<lambda>h. [Header h]) hs) []" "concat hs = names" "length hs \<le> length names"
    by auto
  let ?st = "st\<lparr> xs_stream := Some s1, xs_ids := ids \<rparr>"
  have d: "xs_DescribeEvent (Suc (length names)) l names ids (st\<lparr> xs_stream := Some s \<rparr>) = StOk ?st"
    using s1(1) by (cases st) (simp add: xs_DescribeEvent_def)
  have ev: "xs_stream ?st = Some s1" "out_holds l ?n s1 (map (\<lambda>h. [Header h]) hs @ map (map raw_item) []) (map raw_item [])"
    "\<forall>p \<in> set (xs_ids ?st). unat p < max_params"
    "16 + 4 * mask_words (length (xs_ids ?st)) + 8 * length (xs_ids ?st) \<le> ?n"
    using s1(2) ids size by simp_all
  from written_events [OF ev(1-3) es ev(4), of bits]
  obtain st2 s2 ebs cur where e: "write_events l bits es ?st = StOk st2" "xs_stream st2 = Some s2" "xs_files st2 = xs_files st"
    "out_holds l ?n s2 (map (\<lambda>h. [Header h]) hs @ map (map raw_item) ebs) (map raw_item cur)"
    "concat ebs @ cur = map (raw_of bits ids) (written ids es)" "length ebs \<le> 2 * length es"
    by auto
  obtain f where f: "xs_close l st2 = StOk (st2\<lparr> xs_stream := None, xs_files := xs_files st2 @ [f] \<rparr>)"
    "file_holds l ?n (map (\<lambda>h. [Header h]) hs @ map (map raw_item) (ebs @ [cur])) f"
    using close_holds [OF e(2,4)] by auto
  have "write_file (Suc (length names)) l bits junk w names ids es st =
      StOk (st2\<lparr> xs_stream := None, xs_files := xs_files st2 @ [f] \<rparr>)"
    using s(1) d e(1) f(1) by (simp add: write_file_def bind_st_def)
  then show ?thesis using e(3,5,6) f(2) s1(3,4)
    by (intro exI [of _ "st2\<lparr> xs_stream := None, xs_files := xs_files st2 @ [f] \<rparr>"] exI [of _ f] exI [of _ hs]
        exI [of _ "ebs @ [cur]"]) simp
qed

end

subsection \<open>Reading a file\<close>

text \<open>
  The analyzer as the decoder calls it: CTclAnalyzer's OnOther and OnPhysics with the
  filter event processor in the pipeline, on the body the decoder presents.
\<close>

definition filter_clients ::
  "(string \<Rightarrow> u32 option) \<Rightarrow> decoder_view \<Rightarrow> (filter_world tcl analyzer \<Rightarrow> filter_world tcl analyzer) \<Rightarrow>
     filter_world tcl analyzer fd_clients" where
  "filter_clients pnum dc on_end =
     \<lparr> fc_OnOther = (\<lambda>ty d a. case fd_getBody d of
           None \<Rightarrow> (a, False)
         | Some body \<Rightarrow>
             (a\<lparr> an_derived := tcl_OnOther (\<lambda>_. filter_processor pnum body) ty (an_derived a) \<rparr>, True)),
       fc_OnPhysics = (\<lambda>d a. case fd_getBody d of
           None \<Rightarrow> (a, False)
         | Some body \<Rightarrow>
             (case tcl_OnPhysics (Suc (unat (fd_getEntityCount d) + unat (fd_getBodySize d))) id
                     (\<lambda>_. filter_processor pnum body) (fd_getEntityCount d) (fd_getBodySize d) dc a of
                Done a' \<Rightarrow> (a', True)
              | _ \<Rightarrow> (a, False))),
       fc_OnEnd = on_end \<rparr>"

fun decode_blocks ::
  "nat \<Rightarrow> xdr_lib \<Rightarrow> 'w fd_clients \<Rightarrow> i32 \<Rightarrow> u8 list \<Rightarrow> u8 list list \<Rightarrow> filter_decoder \<Rightarrow> 'w \<Rightarrow>
     (filter_decoder \<times> 'w) option" where
  "decode_blocks k l c n0 junk [] d w = Some (d, w)"
| "decode_blocks k l c n0 junk (x # xs) d w = (case decode_block k l c n0 junk x d w of
      None \<Rightarrow> None
    | Some (d', w') \<Rightarrow> decode_blocks k l c n0 junk xs d' w')"

lemma decode_blocks_append:
  "decode_blocks k l c n0 junk (xs @ ys) d w = (case decode_blocks k l c n0 junk xs d w of
      None \<Rightarrow> None
    | Some (d', w') \<Rightarrow> decode_blocks k l c n0 junk ys d' w')"
  by (induction xs arbitrary: d w) (auto split: option.splits)

lemma map_names_all:
  "\<forall>nm \<in> set names. c_string nm \<Longrightarrow>
     map_names pnum (length names) (concat (map put_cstring names) @ r) m = (m @ map (map_number pnum) names, True)"
  by (induction names arbitrary: m) auto

lemma OnOther_header:
  assumes "\<forall>nm \<in> set names. c_string nm" "length names < 2 ^ 31" "filter_pipeline pm t"
  shows "filter_pipeline (pm @ map (map_number pnum) names)
    (tcl_OnOther (\<lambda>_. filter_processor pnum (header_body names)) ty t)"
proof -
  have "times (of_nat (length names)) = length names" using assms(2) by (simp add: times_def sint_small)
  then have "fst (fp_OnOther pnum (header_body names) t) =
      t\<lparr> ta_world := \<lparr> fp_map = pm @ map (map_number pnum) names, fp_bad = False \<rparr> \<rparr>"
    using map_names_all [OF assms(1), of pnum "[]" pm] assms(3)
    by (simp add: fp_OnOther_def header_body_def c_string_def filter_pipeline_def)
  moreover have "tcl_OnOther (\<lambda>_. filter_processor pnum (header_body names)) ty t =
      fst (fp_OnOther pnum (header_body names) t)"
  proof -
    obtain el where "current_elements (ta_pipelines t) = [el]"
      using assms(3) by (auto simp: filter_pipeline_def length_Suc_conv)
    then show ?thesis
      by (simp add: tcl_OnOther_def current_processors_def filter_processor_def Let_def split: prod.splits)
  qed
  ultimately show ?thesis using assms(3) by (simp add: filter_pipeline_def)
qed

lemma reader_derived:
  "reader_ok pm m a \<Longrightarrow> filter_pipeline pm' t \<Longrightarrow> reader_ok pm' m (a\<lparr> an_derived := t \<rparr>)"
  by (simp add: reader_ok_def)

context xdr_library
begin

lemma read_headers:
  assumes "list_all2 (\<lambda>b x. is_block l n (items_bytes l b) x) (map (\<lambda>h. [Header h]) hs) xs" "n < 2 ^ 30"
    and "\<forall>nm \<in> set (concat hs). c_string nm \<and> length nm < 2 ^ 32"
    and "reader_ok pm m a"
  shows "\<exists>d' a'. decode_blocks k l (filter_clients pnum dc on_end) n0 junk xs d a = Some (d', a') \<and>
    reader_ok (pm @ map (map_number pnum) (concat hs)) m a' \<and> seen a' = seen a \<and>
    fd_paramCount d' = fd_paramCount d + of_nat (length (concat hs)) \<and>
    (hs \<noteq> [] \<longrightarrow> fd_seenHeader d')"
  using assms
proof (induction hs arbitrary: xs pm d a)
  case (Cons h hs)
  let ?c = "filter_clients pnum dc on_end"
  obtain x ys where xs: "xs = x # ys" "is_block l n (items_bytes l [Header h]) x"
    "list_all2 (\<lambda>b x. is_block l n (items_bytes l b) x) (map (\<lambda>h. [Header h]) hs) ys"
    using Cons.prems(1) by (auto simp: list_all2_Cons1)
  have h: "\<forall>nm \<in> set h. c_string nm \<and> length nm < 2 ^ 32" using Cons.prems(3) by auto
  have len: "length h < 2 ^ 31"
    using names_bytes [OF h] xs(2) Cons.prems(2) by (auto simp: is_block_def item_bytes_def)
  let ?d = "header_decoder x h d" and ?t = "tcl_OnOther (\<lambda>_. filter_processor pnum (header_body h)) (ucast fd_PARAMDESCRIP) (an_derived a)"
  have f: "fst (fc_OnOther ?c (ucast fd_PARAMDESCRIP) ?d a) = a\<lparr> an_derived := ?t \<rparr>"
    by (simp add: filter_clients_def fd_getBody_def header_decoder_def)
  have db: "decode_block k l ?c n0 junk x d a = Some (?d, a\<lparr> an_derived := ?t \<rparr>)"
    using decode_header [OF xs(2) Cons.prems(2) h, of k ?c n0 junk d a] f by simp
  have "filter_pipeline pm (an_derived a)" using Cons.prems(4) by (simp add: reader_ok_def)
  then have "filter_pipeline (pm @ map (map_number pnum) h) ?t" using OnOther_header [OF _ len] h by blast
  then have a: "reader_ok (pm @ map (map_number pnum) h) m (a\<lparr> an_derived := ?t \<rparr>)"
    using reader_derived Cons.prems(4) by blast
  have d: "fd_paramCount ?d = fd_paramCount d + of_nat (length h)" "fd_seenHeader ?d"
    by (simp_all add: header_decoder_def)
  have hs: "\<forall>nm \<in> set (concat hs). c_string nm \<and> length nm < 2 ^ 32" using Cons.prems(3) by auto
  obtain d' a' where IH: "decode_blocks k l ?c n0 junk ys ?d (a\<lparr> an_derived := ?t \<rparr>) = Some (d', a')"
    "reader_ok ((pm @ map (map_number pnum) h) @ map (map_number pnum) (concat hs)) m a'"
    "seen a' = seen a" "fd_paramCount d' = fd_paramCount ?d + of_nat (length (concat hs))"
    "hs \<noteq> [] \<longrightarrow> fd_seenHeader d'"
    using Cons.IH [OF xs(3) Cons.prems(2) hs a, of ?d] by auto
  have "hs = [] \<Longrightarrow> d' = ?d" using IH(1) xs(3) by simp
  then show ?case using IH db d xs(1) by (cases "hs = []") auto
qed simp

lemma read_events:
  assumes "list_all2 (\<lambda>b x. is_block l n (items_bytes l b) x) (map (map raw_item) ebs) xs" "0 < n" "n < 2 ^ 16"
    and evs: "\<forall>ev \<in> set (concat ebs). mapped pm ev \<and> \<not> (5 \<le> unat (mid_word (snd ev)) \<and> unat (mid_word (snd ev)) \<le> n)"
    and pm: "map_ok pm" "fp_masks pm = times (numBitmasks (fd_paramCount d))"
    and "reader_ok pm m a" "fd_seenHeader d" "2 * n * length ebs \<le> m" "m < 2 ^ 64 - 2"
  shows "\<exists>d' a'. decode_blocks n l (filter_clients pnum dc on_end) n0 junk xs d a = Some (d', a') \<and>
    seen a' = seen a @ map (\<lambda>ev. carried_view (carried pm ev)) (concat ebs)"
  using assms(1,4,6-9,10)
proof (induction ebs arbitrary: xs d a m)
  case (Cons eb ebs)
  let ?c = "filter_clients pnum dc on_end"
  obtain x ys where xs: "xs = x # ys" "is_block l n (items_bytes l (map raw_item eb)) x"
    "list_all2 (\<lambda>b x. is_block l n (items_bytes l b) x) (map (map raw_item) ebs) ys"
    using Cons.prems(1) by (auto simp: list_all2_Cons1)
  obtain d1 a1 m1 where 1: "decode_block n l ?c n0 junk x d a = Some (d1, a1)" "fd_seenHeader d1"
    "fd_paramCount d1 = fd_paramCount d" "reader_ok pm m1 a1" "2 * n * length ebs \<le> m1" "m1 < 2 ^ 64 - 2"
    "seen a1 = seen a @ map (\<lambda>ev. carried_view (carried pm ev)) eb"
  proof (cases eb)
    case Nil
    then have "is_block l n [] x" using xs(2) by simp
    from decode_empty [OF this assms(2) Cons.prems(5), of n ?c n0 junk a]
    obtain d1 where "decode_block n l ?c n0 junk x d a = Some (d1, a)" "fd_seenHeader d1" "fd_paramCount d1 = fd_paramCount d"
      by auto
    then show thesis using that [of d1 a m] Cons.prems(4,6,7) Nil by simp
  next
    case (Cons ev evs)
    let ?d = "events_decoder x eb d" and ?body = "concat (map native eb)"
    have ok: "\<forall>e \<in> set (ev # evs). raw_ok (times (numBitmasks (fd_paramCount d))) e"
      using Cons.prems(2,3) Cons by (auto simp: mapped_def)
    have b: "is_block l n (items_bytes l (map raw_item (ev # evs))) x" using xs(2) Cons by simp
    obtain j where x: "x = xl_int l (of_nat (4 + length (items_bytes l (map raw_item (ev # evs))))) @
        items_bytes l (map raw_item (ev # evs)) @ j" "length x = n"
      using b by (auto simp: is_block_def)
    have "\<not> misread l x ev"
      using misread_word [OF x(1)] Cons.prems(2) Cons x(2) ok by (auto simp: raw_ok_def)
    have blen: "length ?body \<le> length (items_bytes l (map raw_item eb))" by (rule length_natives)
    have "length x = 4 + length (items_bytes l (map raw_item eb)) + length j"
      using x(1) Cons length_int by (simp add: add.assoc) 
    then have body: "4 + length ?body \<le> n" using blen x(2) by simp
    have cnt: "6 * length eb \<le> length ?body"
      using length_natives_ge by (induction eb) (auto intro: add_mono)
    let ?s = "of_nat (length ?body) :: u32" and ?e = "ucast (of_nat (length eb) :: u16) :: u32"
    have e: "unat ?e = length eb" using cnt body assms(3) by (simp add: unsigned_ucast_eq unsigned_of_nat take_bit_nat_eq_self)
    have ph: "\<forall>e \<in> set eb. mapped pm e" "length ?body < 2 ^ 32" "2 * length ?body \<le> m"
      using Cons.prems(2,6) body assms(3) by auto
    obtain a1 where a1: "tcl_OnPhysics (Suc (unat ?e + unat ?s)) id (\<lambda>_. filter_processor pnum ?body) ?e ?s dc a = Done a1"
      "reader_ok pm (m - 2 * length ?body) a1" "seen a1 = seen a @ map (\<lambda>ev. carried_view (carried pm ev)) eb"
      using physics_natives [OF Cons.prems(4) pm(1) ph(1) refl ph(2) e ph(3) Cons.prems(7)] by blast
    have sel: "fd_getBody ?d = Some ?body" "fd_getEntityCount ?d = ?e" "fd_getBodySize ?d = ?s"
      "fd_seenHeader ?d" "fd_paramCount ?d = fd_paramCount d"
      using Cons.prems(5)
      by (simp_all add: fd_getBody_def fd_getEntityCount_def fd_getBodySize_def events_decoder_def physics_decoder_def)
    have "fst (fc_OnPhysics ?c ?d a) = a1" using sel(1-3) a1(1) by (simp add: filter_clients_def)
    moreover have "n < 2 ^ 30" "length evs + 2 \<le> n" using assms(3) cnt body Cons by simp_all
    ultimately have "decode_block n l ?c n0 junk x d a = Some (?d, a1)"
      using decode_events [OF b _ ok \<open>\<not> misread l x ev\<close> Cons.prems(5)] Cons by auto
    then show thesis using that [of ?d a1 "m - 2 * length ?body"] sel(4,5) a1(2,3) Cons.prems(6,7) body by auto
  qed
  have "\<forall>ev \<in> set (concat ebs). mapped pm ev \<and> \<not> (5 \<le> unat (mid_word (snd ev)) \<and> unat (mid_word (snd ev)) \<le> n)"
    using Cons.prems(2) by auto
  from Cons.IH [OF xs(3) this _ 1(4,2,5,6)] 1(1,3,7) Cons.prems(3) xs(1) show ?case by auto
qed simp

end

subsection \<open>The round trip\<close>

text \<open>
  What a reader is to see of an event: the parameters it has among those written, with the
  numbers they have on the reading side, in the order of the description.
\<close>

definition expected :: "i32 list \<Rightarrow> u32 list \<Rightarrow> event \<Rightarrow> (u32 \<times> ptype) list" where
  "expected pm ids e =
     [(n, the (ev_abs e (unat p))). (n, p) \<leftarrow> zip pm ids, ev_abs e (unat p) \<noteq> None, 0 \<le> sint n]"

lemma map_filter_nth: "map f (filter P xs) = map (\<lambda>i. f (xs ! i)) (filter (\<lambda>i. P (xs ! i)) [0..<length xs])"
  by (subst (1) map_nth [of xs, symmetric]) (simp add: filter_map comp_def)

lemma flags_nth: "filter (\<lambda>i. flags_of ids e ! i) [0..<length ids] =
    filter (\<lambda>i. ev_abs e (unat (ids ! i)) \<noteq> None) [0..<length ids]"
  by (rule filter_cong) (auto simp: flags_of_def)

lemma values_flags:
  "values_of ids e = map (\<lambda>i. the (ev_abs e (unat (ids ! i)))) (filter (\<lambda>i. flags_of ids e ! i) [0..<length ids])"
  unfolding values_of_def flags_nth by (rule map_filter_nth)

lemma positions_raw: "positions 0 (fst (raw_of bits ids e)) = filter (\<lambda>i. flags_of ids e ! i) [0..<length ids]"
  by (simp add: raw_of_def positions_masks_of) (simp add: flags_of_def)

text \<open>A reader with no fewer parameters than were written, and as many words of masks.\<close>

definition reads_as :: "nat \<Rightarrow> nat \<Rightarrow> bool" where
  "reads_as n i \<longleftrightarrow> i \<le> n \<and> mask_words n = mask_words i"

lemma reads_as_same [simp]: "reads_as n n"
  by (simp add: reads_as_def)

lemma mapped_raw:
  assumes "reads_as (length pm) (length ids)" "values_of ids e \<noteq> []"
  shows "mapped pm (raw_of bits ids e)"
proof -
  have "sum_list (map CountBits (fst (raw_of bits ids e))) = length (snd (raw_of bits ids e))"
    unfolding sum_CountBits [of _ 0] positions_raw by (simp add: raw_of_def values_flags)
  moreover have "\<forall>p \<in> set (positions 0 (fst (raw_of bits ids e))). p < length pm"
    unfolding positions_raw using assms(1) by (auto simp: reads_as_def)
  ultimately show ?thesis
    using assms by (simp add: mapped_def raw_ok_def) (simp add: raw_of_def fp_masks_def reads_as_def mask_words_def flags_of_def)
qed

lemma expected_filter:
  assumes "length ids \<le> length pm"
  shows "expected pm ids e = filter (\<lambda>(n, v). 0 \<le> sint n)
       (map (\<lambda>i. (pm ! i, the (ev_abs e (unat (ids ! i))))) (filter (\<lambda>i. flags_of ids e ! i) [0..<length ids]))"
proof -
  let ?f = "\<lambda>(n, p). (n, the (ev_abs e (unat p)))" and ?P = "\<lambda>(n :: i32, p). ev_abs e (unat p) \<noteq> None"
  have "expected pm ids e = filter (\<lambda>(n, v). 0 \<le> sint n) (map ?f (filter ?P (zip pm ids)))"
  proof -
    have "[(n, the (ev_abs e (unat p))). (n, p) \<leftarrow> xs, ev_abs e (unat p) \<noteq> None, 0 \<le> sint n] =
        filter (\<lambda>(n, v). 0 \<le> sint n) (map ?f (filter ?P xs))" for xs
      by (induction xs) auto
    then show ?thesis unfolding expected_def .
  qed
  also have "map ?f (filter ?P (zip pm ids)) = map (\<lambda>i. ?f (zip pm ids ! i)) (filter (\<lambda>i. ?P (zip pm ids ! i)) [0..<length ids])"
    using map_filter_nth [of ?f ?P "zip pm ids"] assms by simp
  also have "\<dots> = map (\<lambda>i. (pm ! i, the (ev_abs e (unat (ids ! i))))) (filter (\<lambda>i. flags_of ids e ! i) [0..<length ids])"
    unfolding flags_nth using assms by (intro map_cong filter_cong) auto
  finally show ?thesis .
qed

lemma carried_raw:
  assumes "length ids \<le> length pm" "\<forall>v \<in> set (values_of ids e). f64_value (bits v) = v"
  shows "carried pm (raw_of bits ids e) = expected pm ids e"
proof -
  have "map f64_value (snd (raw_of bits ids e)) = values_of ids e"
    using assms(2) by (simp add: raw_of_def map_idI)
  then show ?thesis
    by (simp add: carried_def positions_raw expected_filter [OF assms(1)] values_flags zip_map_map zip_same_conv_map comp_def)
qed

lemma numBitmasks_small: "n < 2 ^ 16 \<Longrightarrow> times (numBitmasks (of_nat n)) = mask_words n"
proof -
  assume n: "n < 2 ^ 16"
  let ?m = "(n + 31) div 32"
  have "scast (of_nat n :: u32) = (of_nat n :: u64)"
    using n by (simp add: scast_eq sint_small)
  then have "(scast (of_nat n :: u32) + 4 * 8 - 1 :: u64) = of_nat (n + 31)" by simp
  moreover have "unat (of_nat (n + 31) :: u64) = n + 31" using n by (simp add: unat_of_nat del: of_nat_add)
  ultimately have "unat ((scast (of_nat n :: u32) + 4 * 8 - 1 :: u64) div (4 * 8)) = ?m"
    by (simp add: unat_div_distrib del: of_nat_add)
  moreover have "ucast (x :: u64) = (of_nat (unat x) :: u32)" for x by simp
  ultimately have "numBitmasks (of_nat n) = of_nat ?m" unfolding numBitmasks_def by metis
  moreover have "?m < 2 ^ 31" using n by simp
  ultimately show ?thesis by (simp add: times_def sint_small mask_words_def)
qed

context xdr_library
begin

text \<open>The blocks of a file of these parameters, one after the other through the decoder.\<close>

lemma read_file:
  assumes f: "file_holds l xdr_buffersize (map (\<lambda>h. [Header h]) hs @ map (map raw_item) ebs) f"
    and names: "concat hs = names" "names \<noteq> []" "describable xdr_buffersize names" "length names < 2 ^ 16"
    and ids: "reads_as (length names) (length ids)" and ebs: "concat ebs = map (raw_of bits ids) evs"
    and evs: "\<forall>e \<in> set evs. values_of ids e \<noteq> []" "\<forall>e \<in> set evs. \<forall>v \<in> set (values_of ids e). f64_value (bits v) = v"
    and mid: "\<forall>e \<in> set evs. unat (mid_word (map bits (values_of ids e))) \<notin> {5..xdr_buffersize}"
    and pnum: "\<forall>nm \<in> set names. \<forall>n. pnum nm = Some n \<longrightarrow> unat n < max_params"
  shows "\<exists>xs. f = concat xs \<and> (\<forall>x \<in> set xs. length x = xdr_buffersize) \<and> length xs = length hs + length ebs \<and>
    (\<forall>m a. reader_ok [] m a \<and> m < 2 ^ 64 - 2 \<and> 2 * xdr_buffersize * length ebs \<le> m \<longrightarrow>
      (\<exists>d a'. decode_blocks xdr_buffersize l (filter_clients pnum dc on_end) n0 junk' xs (new_filter_decoder s) a = Some (d, a') \<and>
       seen a' = seen a @ map (\<lambda>e. carried_view (expected (map (map_number pnum) names) ids e)) evs))"
proof -
  let ?n = xdr_buffersize and ?c = "filter_clients pnum dc on_end" and ?pm = "map (map_number pnum) names"
  have n: "?n < 2 ^ 30" "?n < 2 ^ 16" "0 < ?n" by (simp_all add: xdr_buffersize_def)
  obtain xs ys where xs: "f = concat (xs @ ys)"
    "list_all2 (\<lambda>b x. is_block l ?n (items_bytes l b) x) (map (\<lambda>h. [Header h]) hs) xs"
    "list_all2 (\<lambda>b x. is_block l ?n (items_bytes l b) x) (map (map raw_item) ebs) ys"
    using f by (auto simp: file_holds_def list_all2_append1)
  have len: "\<forall>x \<in> set (xs @ ys). length x = ?n"
    using xs(2,3) by (auto simp: list_all2_conv_all_nth is_block_def in_set_conv_nth)
  have count: "length (xs @ ys) = length hs + length ebs" using list_all2_lengthD [OF xs(2)] list_all2_lengthD [OF xs(3)] by simp
  have nm: "\<forall>nm \<in> set (concat hs). c_string nm \<and> length nm < 2 ^ 32"
    using names by (auto simp: describable_def too_long_def xdr_buffersize_def)
  have "hs \<noteq> []" using names(1,2) by auto
  have pm: "reads_as (length ?pm) (length ids)" "length ids \<le> length ?pm" "map_ok ?pm"
    using ids names(2) pnum by (auto simp: reads_as_def map_ok_def map_number_def split: option.splits)
  have ev: "\<forall>ev \<in> set (concat ebs). mapped ?pm ev \<and> \<not> (5 \<le> unat (mid_word (snd ev)) \<and> unat (mid_word (snd ev)) \<le> ?n)"
    unfolding ebs using mapped_raw [OF pm(1)] mid evs(1) by (auto simp: raw_of_def)
  have "\<exists>d a'. decode_blocks ?n l ?c n0 junk' (xs @ ys) (new_filter_decoder s) a = Some (d, a') \<and>
      seen a' = seen a @ map (\<lambda>e. carried_view (expected ?pm ids e)) evs"
    if a: "reader_ok [] m a" "m < 2 ^ 64 - 2" "2 * ?n * length ebs \<le> m" for m a
  proof -
    obtain d1 a1 where 1: "decode_blocks ?n l ?c n0 junk' xs (new_filter_decoder s) a = Some (d1, a1)"
      "reader_ok ?pm m a1" "seen a1 = seen a" "fd_paramCount d1 = of_nat (length names)" "fd_seenHeader d1"
      using read_headers [OF xs(2) n(1) nm a(1), of ?n pnum dc on_end n0 junk' "new_filter_decoder s"]
        \<open>hs \<noteq> []\<close> names(1) by (auto simp: new_filter_decoder_def)
    have fm: "fp_masks ?pm = times (numBitmasks (fd_paramCount d1))"
      using numBitmasks_small [OF names(4)] 1(4) by (simp add: fp_masks_def mask_words_def)
    obtain d2 a2 where 2: "decode_blocks ?n l ?c n0 junk' ys d1 a1 = Some (d2, a2)"
      "seen a2 = seen a1 @ map (\<lambda>ev. carried_view (carried ?pm ev)) (concat ebs)"
      using read_events [OF xs(3) n(3,2) ev pm(3) fm 1(2,5) a(3,2)] by blast
    have "map (\<lambda>ev. carried_view (carried ?pm ev)) (concat ebs) = map (\<lambda>e. carried_view (expected ?pm ids e)) evs"
      unfolding ebs using carried_raw [OF pm(2)] evs(2) by auto
    then show ?thesis using 1(1,3) 2 by (simp add: decode_blocks_append)
  qed
  then show ?thesis using xs(1) len count by (intro exI [of _ "xs @ ys"]) blast
qed

end

text \<open>
  C5. Round trip of XDR filter files.  For any XDR library that encodes as RFC 4506 says:
  when a filter stage is opened, describes parameters whose names it can describe (none too
  long for a block, and either few or none shorter than its estimate allows for), is given any run of events over at most as many
  parameters as fit a block, and is closed, it writes a file of blocks of 8192 bytes; the
  filter buffer decoder, given these blocks, hands the analyzer what makes the event sinks
  see exactly the events that have one of the parameters, in order, each with these
  parameters' values under the numbers that the reading side has for their names, and no
  others.  Values are those a double holds, and no event may have, in the middle of its
  values, a word that could be the length of a string, which is how the decoder tells
  files of floats.
\<close>

theorem xdr_file_roundtrip:
  assumes lib: "xdr_library l" and w: "\<forall>i. \<exists>k. w i = Some k \<and> xdr_buffersize \<le> k" and st: "xs_stream st = None"
    and names: "names \<noteq> []" "describable xdr_buffersize names"
    and ids: "length ids = length names" "\<forall>p \<in> set ids. unat p < max_params"
    and size: "16 + 4 * mask_words (length ids) + 8 * length ids \<le> xdr_buffersize"
    and es: "\<forall>e \<in> set es. ev_ok e" "\<forall>e \<in> set es. \<forall>v \<in> set (values_of ids e). f64_value (bits v) = v"
    and mid: "\<forall>e \<in> set (written ids es). unat (mid_word (map bits (values_of ids e))) \<notin> {5..xdr_buffersize}"
    and pnum: "\<forall>nm \<in> set names. \<forall>n. pnum nm = Some n \<longrightarrow> unat n < max_params"
    and a: "reader_ok [] m a" "m < 2 ^ 64 - 2"
      "2 * xdr_buffersize * (length names + 2 * length es + 1) \<le> m"
  shows "\<exists>st' xs. write_file (Suc (length names)) l bits junk w names ids es st = StOk st' \<and>
    xs_files st' = xs_files st @ [concat xs] \<and> (\<forall>x \<in> set xs. length x = xdr_buffersize) \<and>
    (\<exists>d a'. decode_blocks xdr_buffersize l (filter_clients pnum dc on_end) n0 junk' xs (new_filter_decoder s) a = Some (d, a') \<and>
       seen a' = seen a @ map (\<lambda>e. carried_view (expected (map (map_number pnum) names) ids e)) (written ids es))"
proof -
  let ?n = xdr_buffersize
  obtain st' f hs ebs where f: "write_file (Suc (length names)) l bits junk w names ids es st = StOk st'"
    "xs_files st' = xs_files st @ [f]" "file_holds l ?n (map (\<lambda>h. [Header h]) hs @ map (map raw_item) ebs) f"
    "concat hs = names" "concat ebs = map (raw_of bits ids) (written ids es)"
    "length ebs \<le> 2 * length es + 1"
    using xdr_library.file_written [OF lib w st names(2) ids(2) size es(1), of bits junk] by blast
  have nids: "length names < 2 ^ 16" "reads_as (length names) (length ids)"
    using size ids(1) by (simp_all add: xdr_buffersize_def)
  have ev: "\<forall>e \<in> set (written ids es). values_of ids e \<noteq> []"
    "\<forall>e \<in> set (written ids es). \<forall>v \<in> set (values_of ids e). f64_value (bits v) = v"
    using es(2) by (auto simp: written_def)
  have "length ebs \<le> length names + 2 * length es + 1" using f(6) by simp
  then have "2 * ?n * length ebs \<le> m" using a(3) by (meson le_trans mult_le_mono2)
  then show ?thesis
    using xdr_library.read_file [OF lib f(3,4) names nids f(5) ev mid pnum, of dc on_end n0 junk' s] f(1,2) a(1,2)
    by blast
qed

definition filter_pipelines :: pipelines where
  "filter_pipelines = \<lparr> pm_pipelines = [(''default'', [(''filter'', 0)])], pm_processors = [(''filter'', 0)],
     pm_pCurrent = Some ''default'', pm_currentName = ''default'', pm_calls = [] \<rparr>"

definition demo_reader :: "filter_world tcl analyzer" where
  "demo_reader = new_analyzer 16 2 (new_tcl 4 filter_pipelines new_filter_world)"

lemma demo_reader_ok: "reader_ok [] m demo_reader"
  by (simp add: reader_ok_def demo_reader_def max_params_def filter_pipeline_def new_tcl_def filter_pipelines_def
      new_filter_world_def current_elements_def)

lemma demo_names: "describable xdr_buffersize [''energy'']"
  by (simp add: describable_def estimated_def c_string_def padded_def too_long_def xdr_buffersize_def)

theorem xdr_file_roundtrip_witness:
  "\<exists>e st' xs d a'. ev_abs e = [0 \<mapsto> 0] \<and>
     write_file 2 rfc4506 (\<lambda>_. 0) [] (\<lambda>_. Some 8192) [''energy''] [0] [e] new_xdr_stage = StOk st' \<and>
     xs_files st' = [concat xs] \<and>
     decode_blocks xdr_buffersize rfc4506 (filter_clients (\<lambda>_. Some 7) \<lparr> dc_run = 0, dc_title = [], dc_sequence = 0, dc_type = 0 \<rparr> id)
       0 [] xs (new_filter_decoder False) demo_reader = Some (d, a') \<and>
     seen a' = [([7 \<mapsto> 0], [7])]"
proof -
  have l: "unat (0 :: u32) < max_params" by (simp add: max_params_def)
  obtain e where e: "ev_ok e" "ev_abs e = [0 \<mapsto> 0]"
    by (rule ev_set_spec [OF ev_ok_new l, of 0]) (auto simp: fun_eq_iff)
  have v: "values_of [0] e = [0]" "written [0] [e] = [e]" using e(2) by (simp_all add: values_of_def written_def)
  have z: "f64_value 0 = 0" by (simp add: f64_value_def)
  have m: "unat (mid_word [0]) \<notin> {5..xdr_buffersize}" by (simp add: mid_word_def words_of_def)
  have n: "map_number (\<lambda>_. Some 7) nm = 7" for nm by (simp add: map_number_def)
  have x: "carried_view (expected [7] [0] e) = ([7 \<mapsto> 0], [7])"
    using e(2) by (simp add: expected_def carried_view_def)
  obtain st' xs d a' where r: "write_file (Suc (length [''energy''])) rfc4506 (\<lambda>_. 0) [] (\<lambda>_. Some 8192) [''energy''] [0] [e] new_xdr_stage = StOk st'"
    "xs_files st' = xs_files new_xdr_stage @ [concat xs]"
    "decode_blocks xdr_buffersize rfc4506 (filter_clients (\<lambda>_. Some 7) \<lparr> dc_run = 0, dc_title = [], dc_sequence = 0, dc_type = 0 \<rparr> id)
        0 [] xs (new_filter_decoder False) demo_reader = Some (d, a')"
    "seen a' = seen demo_reader @ map (\<lambda>e. carried_view (expected (map (map_number (\<lambda>_. Some 7)) [''energy'']) [0] e)) (written [0] [e])"
    using xdr_file_roundtrip [OF rfc.xdr_library_axioms _ _ _ _ _ _ _ _ _ _ _ demo_reader_ok [of "2 ^ 40"],
        of "\<lambda>_. Some 8192" new_xdr_stage "[''energy'']" "[0]" "[e]" "\<lambda>_. 0" "\<lambda>_. Some 7" "[]"
          "\<lparr> dc_run = 0, dc_title = [], dc_sequence = 0, dc_type = 0 \<rparr>" id 0 "[]" False]
      e v z m demo_names by (auto simp: new_xdr_stage_def xdr_buffersize_def mask_words_def max_params_def)
  moreover have "seen demo_reader = []" by (simp add: demo_reader_def)
  ultimately show ?thesis using e(2) v(2) n x
    by (intro exI [of _ e] exI [of _ st'] exI [of _ xs] exI [of _ d] exI [of _ a'])
      (simp add: new_xdr_stage_def numeral_2_eq_2)
qed

text \<open>
  C24. An event that fits a block of an XDR filter file is never torn: whatever the stream
  holds, the call of the output stage succeeds, closes at most two blocks, and the event is
  whole in one block, after all that was written before; the event's values are unchanged.
\<close>

theorem xdr_event_whole:
  assumes "xdr_library l" "xs_stream st = Some s" "out_holds l n s blocks cur"
    and "ev_ok e" "\<forall>p \<in> set (xs_ids st). unat p < max_params" "values_of (xs_ids st) e \<noteq> []"
    and "16 + 4 * mask_words (length (xs_ids st)) + 8 * length (values_of (xs_ids st) e) \<le> n"
  shows "\<exists>s' e' more cur'. xs_event l bits e st = StOk (st\<lparr> xs_stream := Some s' \<rparr>, e') \<and>
    out_holds l n s' (blocks @ more) cur' \<and> ev_ok e' \<and> ev_abs e' = ev_abs e \<and>
    concat more @ cur' = cur @ [event_item bits (xs_ids st) e] \<and> length more \<le> 2"
  using xdr_library.event_written [OF assms(1-6), of bits] xdr_library.length_event_item [OF assms(1), of bits "xs_ids st" e]
    assms(7) by simp

theorem xdr_event_whole_witness:
  "\<exists>e st s s' e' more cur'. ev_abs e = [0 \<mapsto> 0] \<and> xs_stream st = Some s \<and> xs_ids st = [0] \<and>
     xs_event rfc4506 (\<lambda>_. 0) e st = StOk (st\<lparr> xs_stream := Some s' \<rparr>, e') \<and>
     out_holds rfc4506 8192 s' more cur' \<and> concat more @ cur' = [Event [1] [0]]"
proof -
  have l: "unat (0 :: u32) < max_params" by (simp add: max_params_def)
  obtain e where e: "ev_ok e" "ev_abs e = [0 \<mapsto> 0]"
    by (rule ev_set_spec [OF ev_ok_new l, of 0]) (auto simp: fun_eq_iff)
  obtain s where s: "out_holds rfc4506 8192 s [] []"
    using rfc.opened_holds [of "\<lambda>_. Some 8192" new_xdr_stage "[]"] by (auto simp: new_xdr_stage_def xdr_buffersize_def)
  let ?st = "\<lparr> xs_stream = Some s, xs_ids = [0], xs_files = [] \<rparr>"
  have v: "values_of [0] e = [0]" "flags_of [0] e = [True]" using e(2) by (simp_all add: values_of_def flags_of_def)
  have it: "event_item (\<lambda>_. 0) [0] e = Event [1] [0]"
    using v by (simp add: event_item_def masks_of_def mask_words_def setBit_def)
  obtain s' e' more cur' where "xs_event rfc4506 (\<lambda>_. 0) e ?st = StOk (?st\<lparr> xs_stream := Some s' \<rparr>, e')"
    "out_holds rfc4506 8192 s' more cur'" "concat more @ cur' = [Event [1] [0]]"
    using xdr_event_whole [OF rfc.xdr_library_axioms, of ?st s 8192 "[]" "[]" e "\<lambda>_. 0"] s e(1) v l it
    by (auto simp: mask_words_def)
  then show ?thesis using e(2)
    by (intro exI [of _ e] exI [of _ ?st] exI [of _ s] exI [of _ s'] exI [of _ e'] exI [of _ more] exI [of _ cur']) simp
qed

text \<open>
  C21. Describing the parameters never ends when one of the names, after others that are
  short enough, needs more than the room of a block: the loop of DescribeEvent then takes
  the name back every time and writes nothing, whatever the fuel.
\<close>

theorem description_never_ends:
  assumes "xdr_library l" "\<forall>i. \<exists>k. w i = Some k \<and> xdr_buffersize \<le> k" "xs_stream st = None"
    and "describable xdr_buffersize pre"
    and "too_long xdr_buffersize nm" "length nm < 2 ^ 30"
  shows "\<exists>st'. xs_open l True junk w st = StOk st' \<and>
    (\<forall>k. xs_DescribeEvent k l (pre @ nm # post) ids st' = StRunning)"
proof -
  obtain s where s: "xs_open l True junk w st = StOk (st\<lparr> xs_stream := Some s \<rparr>)" "out_holds l xdr_buffersize s [] []"
    using xdr_library.opened_holds [OF assms(1-3)] by blast
  have "describe_loop k l (pre @ nm # post) 0 (int (length (pre @ nm # post) - 0)) s = StRunning" for k
    using xdr_library.describe_never [OF assms(1) s(2), of 0 "length pre" "pre @ nm # post" k] assms(4-6)
    by (auto simp: xdr_buffersize_def nth_append)
  then show ?thesis using s(1) by (intro exI [of _ "st\<lparr> xs_stream := Some s \<rparr>"]) (simp add: xs_DescribeEvent_def)
qed

theorem description_never_ends_witness:
  "\<exists>st'. xs_open rfc4506 True [] (\<lambda>_. Some 8192) new_xdr_stage = StOk st' \<and>
    xs_DescribeEvent 1000 rfc4506 [''energy'', replicate 4084 CHR ''x'', ''time''] [0, 1, 2] st' = StRunning"
  using description_never_ends [of rfc4506 "\<lambda>_. Some 8192" new_xdr_stage "[''energy'']" "replicate 4084 CHR ''x''" "[]" "[''time'']" "[0, 1, 2]"]
    rfc.xdr_library_axioms demo_names
  by (auto simp: xdr_buffersize_def new_xdr_stage_def too_long_def)

end
