(* ===== verification/FilterFiles.thy ===== *)
theory FilterFiles
  imports FilterSelection XdrRoundtrip
begin

text \<open>
  Gated filters with the XDR stage, from the command that enables them to the file they
  leave: the file describes the filter's parameters and holds the events in its gate.  Then
  where that goes wrong: parameters that no longer exist, and gates with a not gate.
\<close>

subsection \<open>Filtering a list of events\<close>

definition selected :: "nat \<Rightarrow> gate_store \<Rightarrow> string \<Rightarrow> u32 list \<Rightarrow> event list \<Rightarrow> event list" where
  "selected k gs g ids es = filter (\<lambda>e. gate_den k (bodies gs) (ev_abs e) g = Some True \<and> values_of ids e \<noteq> []) es"

lemma event_item_abs: "ev_abs e = ev_abs e' \<Longrightarrow> event_item bits ids e = event_item bits ids e'"
  by (simp add: event_item_def flags_of_def values_of_def)

lemma values_of_abs: "ev_abs e = ev_abs e' \<Longrightarrow> values_of ids e = values_of ids e'"
  by (simp add: values_of_def)

text \<open>A filter that is ready to select by its gate.\<close>

definition gate_ready :: "(string \<Rightarrow> nat) \<Rightarrow> nat \<Rightarrow> gate_store \<Rightarrow> string \<Rightarrow> bool" where
  "gate_ready r k gs g \<longleftrightarrow> rank_ok r gs \<and> bodies_ok gs \<and> no_not (bodies gs) g \<and> smap_get gs g \<noteq> None \<and> r g < k"

lemma gate_ready_skeleton: "gate_ready r k gs g \<Longrightarrow> skeleton gs' = skeleton gs \<Longrightarrow> gate_ready r k gs' g"
  unfolding gate_ready_def using rank_ok_skeleton bodies_ok_skeleton skeleton_bodies skeleton_defined by metis

context xdr_library
begin

lemma one_event:
  assumes f: "ef_gate f = Some g" "ef_output f = Some st" "xs_stream st = Some s" "out_holds l n s blocks cur"
    and g: "gate_ready r k gs g" and e: "ev_ok e" "\<forall>p \<in> set (xs_ids st). unat p < max_params"
    and fit: "16 + 4 * mask_words (length (xs_ids st)) + 8 * length (xs_ids st) \<le> n"
  shows "\<exists>gs' e' s' more cur'. filter_event (xdr_stage_ops K l bits opens junk w) k gs e f =
      FlOk (gs', e', f\<lparr> ef_output := Some (st\<lparr> xs_stream := Some s' \<rparr>) \<rparr>) \<and>
    skeleton gs' = skeleton gs \<and> ev_abs e' = ev_abs e \<and> out_holds l n s' (blocks @ more) cur' \<and>
    concat more @ cur' = cur @ map (event_item bits (xs_ids st)) (selected k gs g (xs_ids st) [e]) \<and> length more \<le> 2"
proof -
  obtain v gs' e' where c: "CheckCondition k f (gs, e) = Some (v, (gs', e'))"
    "gate_den k (bodies gs) (ev_abs e) g = Some v" "decided (gs, e) (gs', e')"
    using selects [of r gs e f g k] g e(1) f(1) by (auto simp: gate_ready_def)
  have d: "skeleton gs' = skeleton gs" "ev_ok e'" "ev_abs e' = ev_abs e" using c(3) by (simp_all add: decided_def)
  have same: "f\<lparr> ef_output := Some (st\<lparr> xs_stream := Some s \<rparr>) \<rparr> = f" using f(2,3) by simp
  have v: "values_of (xs_ids st) e' = values_of (xs_ids st) e" by (rule values_of_abs [OF d(3)])
  consider "\<not> v" | "v" "values_of (xs_ids st) e = []" | "v" "values_of (xs_ids st) e \<noteq> []" by blast
  then show ?thesis
  proof cases
    case 1
    then show ?thesis using c d f(4) same
      by (intro exI [of _ gs'] exI [of _ e'] exI [of _ s] exI [of _ "[]"] exI [of _ cur])
        (simp add: filter_event_def selected_def)
  next
    case 2
    have "values_of (xs_ids st) e' = []" using 2 v by simp
    then obtain e'' where "xs_event l bits e' st = StOk (st, e'')" "ev_abs e'' = ev_abs e'"
      using event_skipped [OF f(3) d(2) e(2)] by blast
    then show ?thesis using 2 c d f(2,4) same
      by (intro exI [of _ gs'] exI [of _ e''] exI [of _ s] exI [of _ "[]"] exI [of _ cur])
        (simp add: filter_event_def selected_def xdr_stage_ops_def)
  next
    case 3
    have "length (values_of (xs_ids st) e') \<le> length (xs_ids st)" by (simp add: values_of_def)
    then have "4 + length (item_bytes l (event_item bits (xs_ids st) e')) \<le> n" using fit by (simp add: length_event_item)
    moreover have "values_of (xs_ids st) e' \<noteq> []" using 3 v by simp
    ultimately obtain s' e'' more cur' where w: "xs_event l bits e' st = StOk (st\<lparr> xs_stream := Some s' \<rparr>, e'')"
      "out_holds l n s' (blocks @ more) cur'" "ev_abs e'' = ev_abs e'"
      "concat more @ cur' = cur @ [event_item bits (xs_ids st) e']" "length more \<le> 2"
      using event_written [OF f(3,4) d(2) e(2)] by blast
    then show ?thesis using 3 c d f(2) event_item_abs [OF d(3), of bits "xs_ids st"]
      by (intro exI [of _ gs'] exI [of _ e''] exI [of _ s'] exI [of _ more] exI [of _ cur'])
        (simp add: filter_event_def selected_def xdr_stage_ops_def)
  qed
qed

lemma selected_skeleton: "skeleton gs' = skeleton gs \<Longrightarrow> selected k gs' g ids es = selected k gs g ids es"
  using skeleton_bodies [of gs' gs] by (simp add: selected_def)

lemma event_list:
  assumes f: "ef_gate f = Some g" "ef_output f = Some st" "xs_stream st = Some s" "out_holds l n s blocks cur"
    and g: "gate_ready r k gs g" and es: "\<forall>e \<in> set es. ev_ok e" and ids: "\<forall>p \<in> set (xs_ids st). unat p < max_params"
    and fit: "16 + 4 * mask_words (length (xs_ids st)) + 8 * length (xs_ids st) \<le> n"
  shows "\<exists>gs' es' s' more cur'. filter_list (xdr_stage_ops K l bits opens junk w) k gs (map Some es) f =
      FlOk (gs', map Some es', f\<lparr> ef_output := Some (st\<lparr> xs_stream := Some s' \<rparr>) \<rparr>) \<and>
    skeleton gs' = skeleton gs \<and> map ev_abs es' = map ev_abs es \<and> out_holds l n s' (blocks @ more) cur' \<and>
    concat more @ cur' = cur @ map (event_item bits (xs_ids st)) (selected k gs g (xs_ids st) es) \<and>
    length more \<le> 2 * length es"
  using f g es fit ids
proof (induction es arbitrary: f st s blocks cur gs)
  case Nil
  have "f\<lparr> ef_output := Some (st\<lparr> xs_stream := Some s \<rparr>) \<rparr> = f" using Nil.prems(2,3) by simp
  then show ?case using Nil.prems(4)
    by (intro exI [of _ gs] exI [of _ "[]"] exI [of _ s] exI [of _ "[]"] exI [of _ cur]) (simp add: selected_def)
next
  case (Cons e es)
  have "ev_ok e" using Cons.prems(6) by simp
  from one_event [OF Cons.prems(1-5) this Cons.prems(8,7), of K bits opens junk w]
  obtain gs1 e1 s1 more1 cur1 where h: "filter_event (xdr_stage_ops K l bits opens junk w) k gs e f =
      FlOk (gs1, e1, f\<lparr> ef_output := Some (st\<lparr> xs_stream := Some s1 \<rparr>) \<rparr>)"
    "skeleton gs1 = skeleton gs" "ev_abs e1 = ev_abs e" "out_holds l n s1 (blocks @ more1) cur1"
    "concat more1 @ cur1 = cur @ map (event_item bits (xs_ids st)) (selected k gs g (xs_ids st) [e])"
    "length more1 \<le> 2" by blast
  let ?st = "st\<lparr> xs_stream := Some s1 \<rparr>" and ?f = "f\<lparr> ef_output := Some (st\<lparr> xs_stream := Some s1 \<rparr>) \<rparr>"
  have "\<exists>gs' es' s' more cur'. filter_list (xdr_stage_ops K l bits opens junk w) k gs1 (map Some es) ?f =
      FlOk (gs', map Some es', ?f\<lparr> ef_output := Some (?st\<lparr> xs_stream := Some s' \<rparr>) \<rparr>) \<and>
    skeleton gs' = skeleton gs1 \<and> map ev_abs es' = map ev_abs es \<and> out_holds l n s' ((blocks @ more1) @ more) cur' \<and>
    concat more @ cur' = cur1 @ map (event_item bits (xs_ids ?st)) (selected k gs1 g (xs_ids ?st) es) \<and>
    length more \<le> 2 * length es"
    using Cons.prems(1,6-8) h(4) gate_ready_skeleton [OF Cons.prems(5) h(2)] by (intro Cons.IH) simp_all
  then obtain gs' es' s' more cur' where t: "filter_list (xdr_stage_ops K l bits opens junk w) k gs1 (map Some es) ?f =
      FlOk (gs', map Some es', f\<lparr> ef_output := Some (st\<lparr> xs_stream := Some s' \<rparr>) \<rparr>)"
    "skeleton gs' = skeleton gs1" "map ev_abs es' = map ev_abs es" "out_holds l n s' (blocks @ more1 @ more) cur'"
    "concat more @ cur' = cur1 @ map (event_item bits (xs_ids st)) (selected k gs g (xs_ids st) es)" "length more \<le> 2 * length es"
    using selected_skeleton [OF h(2)] by auto
  let ?sel = "selected k gs g (xs_ids st)"
  have "concat (more1 @ more) @ cur' = concat more1 @ concat more @ cur'" by simp
  also have "\<dots> = (concat more1 @ cur1) @ map (event_item bits (xs_ids st)) (?sel es)" by (simp only: t(5) append_assoc)
  also have "\<dots> = cur @ map (event_item bits (xs_ids st)) (?sel [e] @ ?sel es)" by (simp only: h(5) map_append append_assoc)
  also have "?sel [e] @ ?sel es = ?sel (e # es)" by (simp add: selected_def)
  finally have "concat (more1 @ more) @ cur' = cur @ map (event_item bits (xs_ids st)) (?sel (e # es))" .
  then show ?case using h(1-3,6) t(1-4,6)
    by (intro exI [of _ gs'] exI [of _ "e1 # es'"] exI [of _ s'] exI [of _ "more1 @ more"] exI [of _ cur']) simp
qed

subsection \<open>The life of a filter\<close>

lemma Enable_describes:
  assumes f: "\<not> ef_enabled f" "ef_output f = Some st" "xs_stream st = None" "opens (ef_fileName f)"
    and w: "\<forall>i. \<exists>k. w i = Some k \<and> xdr_buffersize \<le> k"
    and names: "describable xdr_buffersize (ef_names f)" "length (ef_names f) < K"
  shows "\<exists>s hs. ef_Enable (xdr_stage_ops K l bits opens junk w) pnum f =
      FlOk (f\<lparr> ef_enabled := True, ef_ids := name_ids pnum (ef_names f),
        ef_output := Some (st\<lparr> xs_stream := Some s, xs_ids := name_ids pnum (ef_names f) \<rparr>) \<rparr>) \<and>
    out_holds l xdr_buffersize s (map (\<lambda>h. [Header h]) hs) [] \<and> concat hs = ef_names f \<and>
    length hs \<le> length (ef_names f)"
proof -
  obtain s where s: "xs_open l True junk w st = StOk (st\<lparr> xs_stream := Some s \<rparr>)" "out_holds l xdr_buffersize s [] []"
    using opened_holds [OF w f(3)] by blast
  have "24 < xdr_buffersize" "length (ef_names f) - 0 < K" using names(2) by (simp_all add: xdr_buffersize_def)
  from describe_all [OF s(2) this(1) names(1) this(2)]
  obtain s1 hs where s1: "describe_loop K l (ef_names f) 0 (int (length (ef_names f))) s = StOk s1"
    "out_holds l xdr_buffersize s1 (map (\<lambda>h. [Header h]) hs) []" "concat hs = ef_names f"
    "length hs \<le> length (ef_names f)" by auto
  show ?thesis
    using f s(1) s1 by (intro exI [of _ s1] exI [of _ hs])
      (simp add: ef_Enable_def on_output_def xdr_stage_ops_def NamesToIds_def xs_DescribeEvent_def)
qed

lemma Disable_closes:
  assumes "ef_output f = Some st" "xs_stream st = Some s" "out_holds l n s blocks cur"
  shows "\<exists>x. ef_Disable (xdr_stage_ops K l bits opens junk w) f =
      FlOk (f\<lparr> ef_enabled := False, ef_output := Some (st\<lparr> xs_stream := None, xs_files := xs_files st @ [x] \<rparr>) \<rparr>) \<and>
    file_holds l n (blocks @ [cur]) x"
proof -
  obtain x where "xs_close l st = StOk (st\<lparr> xs_stream := None, xs_files := xs_files st @ [x] \<rparr>)"
    "file_holds l n (blocks @ [cur]) x"
    using close_holds [OF assms(2,3)] by blast
  then show ?thesis using assms(1) by (intro exI [of _ x]) (simp add: ef_Disable_def xdr_stage_ops_def)
qed

lemma filter_life:
  assumes f: "\<not> ef_enabled f" "ef_output f = Some st" "xs_stream st = None" "opens (ef_fileName f)" "ef_gate f = Some g"
    and w: "\<forall>i. \<exists>k. w i = Some k \<and> xdr_buffersize \<le> k"
    and names: "describable xdr_buffersize (ef_names f)" "length (ef_names f) < K"
    and ids: "ids = name_ids pnum (ef_names f)" "\<forall>p \<in> set ids. unat p < max_params"
    and size: "16 + 4 * mask_words (length ids) + 8 * length ids \<le> xdr_buffersize"
    and g: "gate_ready r k gs g" and es: "\<forall>e \<in> set es. ev_ok e"
    and ops: "ops = xdr_stage_ops K l bits opens junk w"
  shows "\<exists>f1 gs' es' f2 f3 x hs ebs. ef_Enable ops pnum f = FlOk f1 \<and>
    filter_events ops k gs (map Some es) f1 = FlOk (gs', map Some es', f2) \<and> ef_Disable ops f2 = FlOk f3 \<and>
    ef_output f3 = Some (st\<lparr> xs_ids := ids, xs_files := xs_files st @ [x] \<rparr>) \<and>
    file_holds l xdr_buffersize (map (\<lambda>h. [Header h]) hs @ ebs) x \<and> concat hs = ef_names f \<and>
    concat ebs = map (event_item bits ids) (selected k gs g ids es) \<and>
    map ev_abs es' = map ev_abs es \<and> skeleton gs' = skeleton gs \<and>
    length hs + length ebs \<le> length (ef_names f) + 2 * length es + 1"
proof -
  obtain s hs where e: "ef_Enable ops pnum f = FlOk (f\<lparr> ef_enabled := True, ef_ids := ids,
      ef_output := Some (st\<lparr> xs_stream := Some s, xs_ids := ids \<rparr>) \<rparr>)"
    "out_holds l xdr_buffersize s (map (\<lambda>h. [Header h]) hs) []" "concat hs = ef_names f"
    "length hs \<le> length (ef_names f)"
    using Enable_describes [where opens = opens and w = w and K = K, OF f(1-4) w names, of bits junk pnum] ids(1) ops by blast
  let ?st = "st\<lparr> xs_stream := Some s, xs_ids := ids \<rparr>"
  let ?f = "f\<lparr> ef_enabled := True, ef_ids := ids, ef_output := Some ?st \<rparr>"
  have i: "ef_gate ?f = Some g" "ef_output ?f = Some ?st" "xs_stream ?st = Some s" using f(5) by simp_all
  have "\<forall>p \<in> set (xs_ids ?st). unat p < max_params"
    "16 + 4 * mask_words (length (xs_ids ?st)) + 8 * length (xs_ids ?st) \<le> xdr_buffersize" using ids(2) size by simp_all
  from event_list [OF i e(2) g es this, of K bits opens junk w]
  obtain gs' es' s' more cur' where l: "filter_list ops k gs (map Some es) ?f =
      FlOk (gs', map Some es', ?f\<lparr> ef_output := Some (?st\<lparr> xs_stream := Some s' \<rparr>) \<rparr>)"
    "skeleton gs' = skeleton gs" "map ev_abs es' = map ev_abs es"
    "out_holds l xdr_buffersize s' (map (\<lambda>h. [Header h]) hs @ more) cur'"
    "concat more @ cur' = map (event_item bits ids) (selected k gs g ids es)" "length more \<le> 2 * length es"
    unfolding ops by auto
  let ?f2 = "?f\<lparr> ef_output := Some (?st\<lparr> xs_stream := Some s' \<rparr>) \<rparr>"
  have "ef_output ?f2 = Some (?st\<lparr> xs_stream := Some s' \<rparr>)" "xs_stream (?st\<lparr> xs_stream := Some s' \<rparr>) = Some s'" by simp_all
  from Disable_closes [OF this l(4), of K bits opens junk w]
  obtain x where x: "ef_Disable ops ?f2 = FlOk (?f2\<lparr> ef_enabled := False,
      ef_output := Some (?st\<lparr> xs_stream := None, xs_files := xs_files st @ [x] \<rparr>) \<rparr>)"
    "file_holds l xdr_buffersize (map (\<lambda>h. [Header h]) hs @ more @ [cur']) x"
    unfolding ops by auto
  have y: "?st\<lparr> xs_stream := None, xs_files := xs_files st @ [x] \<rparr> = st\<lparr> xs_ids := ids, xs_files := xs_files st @ [x] \<rparr>"
    using f(3) by simp
  show ?thesis
    using e(1,3,4) l x y
    by (intro exI [of _ ?f] exI [of _ gs'] exI [of _ es'] exI [of _ ?f2] exI [of _ x] exI [of _ hs] exI [of _ "more @ [cur']"]
        exI [of _ "?f2\<lparr> ef_enabled := False, ef_output := Some (?st\<lparr> xs_stream := None, xs_files := xs_files st @ [x] \<rparr>) \<rparr>"])
      (simp add: filter_events_def)
qed

end

subsection \<open>Properties\<close>

text \<open>
  C6. A gated filter whose gate and all the gates it is made of are no not gates, enabled
  with the XDR format, given any list of events and disabled, leaves one file: blocks that
  describe its parameters, then those events, whole and in order, for which the gate is
  true and which have at least one of the parameters.  The values cached in the gates
  beforehand, for whatever event, do not matter, and the events themselves are not changed.
\<close>

theorem gated_filter_file:
  assumes lib: "xdr_library l" and ops: "ops = xdr_stage_ops K l bits opens junk w"
    and f: "\<not> ef_enabled f" "ef_output f = Some st" "xs_stream st = None" "opens (ef_fileName f)" "ef_gate f = Some g"
    and w: "\<forall>i. \<exists>k. w i = Some k \<and> xdr_buffersize \<le> k"
    and names: "describable xdr_buffersize (ef_names f)" "length (ef_names f) < K"
    and ids: "ids = name_ids pnum (ef_names f)" "\<forall>p \<in> set ids. unat p < max_params"
    and size: "16 + 4 * mask_words (length ids) + 8 * length ids \<le> xdr_buffersize"
    and g: "gate_ready r k gs g" and es: "\<forall>e \<in> set es. ev_ok e"
  shows "\<exists>f1 gs' es' f2 f3 x hs ebs. ef_Enable ops pnum f = FlOk f1 \<and>
    filter_events ops k gs (map Some es) f1 = FlOk (gs', map Some es', f2) \<and> ef_Disable ops f2 = FlOk f3 \<and>
    ef_output f3 = Some (st\<lparr> xs_ids := ids, xs_files := xs_files st @ [x] \<rparr>) \<and>
    file_holds l xdr_buffersize (map (\<lambda>h. [Header h]) hs @ ebs) x \<and> concat hs = ef_names f \<and>
    concat ebs = map (event_item bits ids) (selected k gs g ids es) \<and>
    map ev_abs es' = map ev_abs es \<and> skeleton gs' = skeleton gs"
  using xdr_library.filter_life [OF lib f w names ids size g es ops] by blast

definition demo_filter :: "xdr_stage event_filter" where
  "demo_filter = (setParameterNames [''energy''] (new_event_filter None (Some ''c'')))\<lparr> ef_output := Some new_xdr_stage \<rparr>"

definition demo_gates_of :: "gate_body \<Rightarrow> gate_store" where
  "demo_gates_of b = [(''c'', new_container ''c'' 0 (new_gate b))]"

lemma demo_gates_of_ready: "caches b \<Longrightarrow> is_leaf b \<Longrightarrow> body_ok b \<Longrightarrow> gate_ready (\<lambda>_. 0) 1 (demo_gates_of b) ''c''"
  by (cases b) (auto simp: gate_ready_def demo_gates_of_def new_container_def clone_def new_gate_def rank_ok_def bodies_ok_def
      getDependentGates_def no_not_def bodies_def is_leaf_def)

theorem gated_filter_file_witness:
  "\<exists>e f1 gs' es' f2 f3 x hs ebs. ev_abs e = [0 \<mapsto> 5] \<and>
     ef_Enable (xdr_stage_ops 2 rfc4506 (\<lambda>_. 0) (\<lambda>_. True) [] (\<lambda>_. Some 8192)) (\<lambda>_. Some 0) demo_filter = FlOk f1 \<and>
     filter_events (xdr_stage_ops 2 rfc4506 (\<lambda>_. 0) (\<lambda>_. True) [] (\<lambda>_. Some 8192)) 1 (demo_gates_of (CCut 0 10 0))
       [Some e, Some new_event] f1 = FlOk (gs', map Some es', f2) \<and>
     ef_Disable (xdr_stage_ops 2 rfc4506 (\<lambda>_. 0) (\<lambda>_. True) [] (\<lambda>_. Some 8192)) f2 = FlOk f3 \<and>
     file_holds rfc4506 xdr_buffersize (map (\<lambda>h. [Header h]) hs @ ebs) x \<and> concat hs = [''energy''] \<and>
     concat ebs = [Event [1] [0]]"
proof -
  have l: "unat (0 :: u32) < max_params" by (simp add: max_params_def)
  obtain e where e: "ev_ok e" "ev_abs e = [0 \<mapsto> 5]"
    by (rule ev_set_spec [OF ev_ok_new l, of 5]) (auto simp: fun_eq_iff)
  let ?w = "\<lambda>_ :: nat. Some (8192 :: nat)"
  let ?ops = "xdr_stage_ops 2 rfc4506 (\<lambda>_. 0) (\<lambda>_. True) [] ?w"
  have g: "gate_ready (\<lambda>_. 0) 1 (demo_gates_of (CCut 0 10 0)) ''c''"
    by (rule demo_gates_of_ready) (simp_all add: caches_iff is_leaf_def body_ok_def)
  have v: "values_of [0] e = [5]" "values_of [0] new_event = []" "flags_of [0] e = [True]"
    using e(2) by (simp_all add: values_of_def flags_of_def)
  have "leaf_den (CCut 0 10 0) (ev_abs e)" using e(2) f32_of_int [of 5] by (simp add: leaf_den_def cut_den_def cut_inGate_x_def)
  then have sel: "selected 1 (demo_gates_of (CCut 0 10 0)) ''c'' [0] [e, new_event] = [e]"
    using v by (simp add: selected_def demo_gates_of_def bodies_def new_container_def clone_def new_gate_def)
  have it: "event_item (\<lambda>_. 0) [0] e = Event [1] [0]"
    using v by (simp add: event_item_def masks_of_def mask_words_def setBit_def)
  have d: "describable xdr_buffersize [''energy'']" by (rule demo_names)
  from gated_filter_file [OF rfc.xdr_library_axioms refl, of demo_filter new_xdr_stage "\<lambda>_. True" "''c''" ?w 2 "[0]" "\<lambda>_. Some 0"
      "\<lambda>_. 0" 1 "demo_gates_of (CCut 0 10 0)" "[e, new_event]" "\<lambda>_. 0" "[]"]
  show ?thesis using g e(1) ev_ok_new l d sel it e(2)
    by (simp add: demo_filter_def new_event_filter_def setParameterNames_def new_xdr_stage_def xdr_buffersize_def
        mask_words_def) blast
qed

text \<open>
  C22. With a not gate the filter does not look at the event: what the not gate negates is not
  reset, so the value it was cached with, for any earlier event, decides.  Cached as true,
  no event of a list reaches the output stage; cached as false, every event meets the condition.
\<close>

theorem not_gate_filter_stale:
  assumes "ef_enabled f" "ef_gate f = Some g" "bodies gs g = Some (CNot n)" "g \<noteq> n"
    and "smap_get gs n = Some d" "caches (g_body (gc_gate d))" "g_fChecked (gc_gate d)"
  shows "if g_fCachedValue (gc_gate d)
    then \<exists>gs'. filter_events ops (Suc (Suc k)) gs (map Some es) f = FlOk (gs', map Some es, f)
    else \<forall>e. \<exists>gs'. CheckCondition (Suc (Suc k)) f (gs, e) = Some (True, (gs', e))"
proof (cases "g_fCachedValue (gc_gate d)")
  case True
  have "\<exists>gs'. filter_list ops (Suc (Suc k)) gs (map Some es) f = FlOk (gs', map Some es, f)"
    using assms(3,5)
  proof (induction es arbitrary: gs)
    case (Cons e es)
    obtain gs1 where g1: "CheckCondition (Suc (Suc k)) f (gs, e) = Some (False, (gs1, e))"
      "bodies gs1 = bodies gs" "smap_get gs1 n = Some d"
      using not_gate_stale [OF assms(2) Cons.prems(1) assms(4) Cons.prems(2) assms(6,7), of k e] True by auto
    then obtain gs' where "filter_list ops (Suc (Suc k)) gs1 (map Some es) f = FlOk (gs', map Some es, f)"
      using Cons.IH [of gs1] Cons.prems(1) by auto
    then show ?case using g1(1) by (simp add: filter_event_def)
  qed simp
  then show ?thesis using True assms(1) by (simp add: filter_events_def)
next
  case False
  then show ?thesis using not_gate_stale [OF assms(2-7)] by fastforce
qed

text \<open>The event has no parameters, so the cut is false on it and the not gate is true.\<close>

theorem not_gate_filter_stale_witness:
  "\<exists>gs gs'. gs = [(''c'', (new_container ''c'' 0 (new_gate (CCut 0 10 0)))\<lparr> gc_gate := \<lparr> g_fChecked = True, g_fCachedValue = True,
        g_body = CCut 0 10 0 \<rparr> \<rparr>), (''n'', new_container ''n'' 1 (new_gate (CNot ''c'')))] \<and>
     gate_den 2 (bodies gs) (ev_abs new_event) ''n'' = Some True \<and>
     filter_events (xdr_stage_ops 0 rfc4506 (\<lambda>_. 0) (\<lambda>_. True) [] (\<lambda>_. Some 8192)) 2 gs [Some new_event]
       (demo_filter\<lparr> ef_enabled := True, ef_gate := Some ''n'' \<rparr>) =
     FlOk (gs', [Some new_event], demo_filter\<lparr> ef_enabled := True, ef_gate := Some ''n'' \<rparr>)"
proof -
  let ?d = "(new_container ''c'' 0 (new_gate (CCut 0 10 0)))\<lparr> gc_gate := \<lparr> g_fChecked = True, g_fCachedValue = True, g_body = CCut 0 10 0 \<rparr> \<rparr>"
  let ?gs = "[(''c'', ?d), (''n'', new_container ''n'' 1 (new_gate (CNot ''c'')))]"
  have b: "bodies ?gs ''n'' = Some (CNot ''c'')" "bodies ?gs ''c'' = Some (CCut 0 10 0)"
    by (simp_all add: bodies_def new_container_def clone_def new_gate_def)
  then have "gate_den 2 (bodies ?gs) (ev_abs new_event) ''n'' = Some True"
    by (simp add: numeral_eq_Suc leaf_den_def cut_den_def)
  then show ?thesis
    using not_gate_filter_stale [of "demo_filter\<lparr> ef_enabled := True, ef_gate := Some ''n'' \<rparr>" "''n''" ?gs "''c''" ?d
        "xdr_stage_ops 0 rfc4506 (\<lambda>_. 0) (\<lambda>_. True) [] (\<lambda>_. Some 8192)" 0 "[new_event]"] b
    by (auto simp: caches_iff numeral_2_eq_2)
qed

lemma mask_words_Suc:
  assumes "n mod 32 \<noteq> 0"
  shows "mask_words (Suc n) = mask_words n"
proof -
  obtain q m where n: "n = m + q * 32" "m < 32" "m \<noteq> 0"
    using assms div_mult_mod_eq [of n 32] by (metis add.commute mod_less_divisor zero_less_numeral)
  have "(m + 31 + q * 32) div 32 = q + (m + 31) div 32" "(m + 32 + q * 32) div 32 = q + (m + 32) div 32" by simp_all
  moreover have "(m + 31) div 32 = 1" "(m + 32) div 32 = 1" using n(2,3) by (simp_all add: div_nat_eqI)
  ultimately show ?thesis by (simp add: mask_words_def n(1) ac_simps)
qed

text \<open>
  What comes back when names are described and the values of known, fewer parameters are
  written: the first value under the first name, and so on.
\<close>

definition read_under :: "(string \<Rightarrow> u32 option) \<Rightarrow> string list \<Rightarrow> (string \<Rightarrow> u32 option) \<Rightarrow> string list \<Rightarrow> event \<Rightarrow>
    (u32 \<times> ptype) list" where
  "read_under pnum' described pnum known e =
     [(map_number pnum' n', the (ev_abs e (unat (the (pnum n))))). (n', n) \<leftarrow> zip described known,
        ev_abs e (unat (the (pnum n))) \<noteq> None, 0 \<le> sint (map_number pnum' n')]"

lemma expected_read_under:
  "expected (map (map_number pnum') described) (map (\<lambda>n. the (pnum n)) known) e = read_under pnum' described pnum known e"
  unfolding expected_def read_under_def zip_map_map by (simp add: comp_def case_prod_unfold fst_conv snd_conv cong: if_cong)

lemma length_concat_same: "\<forall>x \<in> set xs. length x = n \<Longrightarrow> length (concat xs) = n * length xs"
  by (induction xs) simp_all

text \<open>
  C23. When a parameter of a filter has been deleted before the filter is enabled, its name is
  still described but the masks and values of the file are those of the others only: read back,
  the values of the parameters before it come under their own names, and each of the others'
  under the name before its own in the list, the first of them as the deleted parameter.  This is the
  file's way from the enabled filter through the decoder and the filter processor to
  the event sinks, for the events in the gate.  The number of parameters that are left must not be a
  multiple of 32, for otherwise the reader expects one mask word more than is written; the
  remaining conditions are those of the round trip (C5) and of the gated filter (C6).
\<close>

theorem missing_parameter_shifts:
  assumes lib: "xdr_library l" and ops: "ops = xdr_stage_ops K l bits opens junk w"
    and f: "\<not> ef_enabled f" "ef_output f = Some st" "xs_stream st = None" "opens (ef_fileName f)" "ef_gate f = Some g"
    and w: "\<forall>i. \<exists>k. w i = Some k \<and> xdr_buffersize \<le> k"
    and names: "ef_names f = pre @ nm # post" "describable xdr_buffersize (ef_names f)" "length (ef_names f) < K"
    and pnum: "pnum nm = None" "\<forall>n \<in> set (pre @ post). pnum n \<noteq> None" "ids = map (\<lambda>n. the (pnum n)) (pre @ post)"
      "\<forall>p \<in> set ids. unat p < max_params"
    and words: "length (pre @ post) mod 32 \<noteq> 0"
    and size: "16 + 4 * mask_words (length ids) + 8 * length ids \<le> xdr_buffersize"
    and g: "gate_ready r k gs g" and es: "\<forall>e \<in> set es. ev_ok e"
    and vals: "\<forall>e \<in> set (selected k gs g ids es). \<forall>v \<in> set (values_of ids e). f64_value (bits v) = v"
      "\<forall>e \<in> set (selected k gs g ids es). unat (mid_word (map bits (values_of ids e))) \<notin> {5..xdr_buffersize}"
    and pnum': "\<forall>n \<in> set (pre @ nm # post). \<forall>i. pnum' n = Some i \<longrightarrow> unat i < max_params"
    and a: "reader_ok [] m a" "m < 2 ^ 64 - 2"
      "2 * xdr_buffersize * (length (ef_names f) + 2 * length es + 1) \<le> m"
  shows "\<exists>f1 gs' es' f2 f3 xs. ef_Enable ops pnum f = FlOk f1 \<and>
    filter_events ops k gs (map Some es) f1 = FlOk (gs', map Some es', f2) \<and> ef_Disable ops f2 = FlOk f3 \<and>
    ef_output f3 = Some (st\<lparr> xs_ids := ids, xs_files := xs_files st @ [concat xs] \<rparr>) \<and>
    (\<forall>x \<in> set xs. length x = xdr_buffersize) \<and>
    (\<exists>d a'. decode_blocks xdr_buffersize l (filter_clients pnum' dc on_end) n0 junk' xs (new_filter_decoder s) a = Some (d, a') \<and>
       seen a' = seen a @ map (\<lambda>e. carried_view (read_under pnum' (pre @ nm # post) pnum (pre @ post) e))
         (selected k gs g ids es))"
proof -
  have known: "name_ids pnum ns = map (\<lambda>n. the (pnum n)) ns" if "\<forall>n \<in> set ns. pnum n \<noteq> None" for ns
    using that by (induction ns) auto
  have app: "name_ids pnum (ms @ ns) = name_ids pnum ms @ name_ids pnum ns" for ms ns
    by (induction ms) (auto split: option.splits)
  have ids: "ids = name_ids pnum (ef_names f)"
    using pnum known [of pre] known [of post] by (simp add: names(1) app)
  from xdr_library.filter_life [OF lib f w names(2,3) ids pnum(4) size g es ops]
  obtain f1 gs' es' f2 f3 x hs ebs where life: "ef_Enable ops pnum f = FlOk f1"
    "filter_events ops k gs (map Some es) f1 = FlOk (gs', map Some es', f2)" "ef_Disable ops f2 = FlOk f3"
    "ef_output f3 = Some (st\<lparr> xs_ids := ids, xs_files := xs_files st @ [x] \<rparr>)"
    and x: "file_holds l xdr_buffersize (map (\<lambda>h. [Header h]) hs @ ebs) x" "concat hs = ef_names f"
      "concat ebs @ [] = map raw_item (map (raw_of bits ids) (selected k gs g ids es))"
      "length hs + length ebs \<le> length (ef_names f) + 2 * length es + 1"
    by (auto simp: event_item_raw comp_def)
  obtain rbs where r: "ebs = map (map raw_item) rbs" "concat rbs = map (raw_of bits ids) (selected k gs g ids es)"
    using concat_is_map [OF x(3)] by auto
  have len: "length ids = length (pre @ post)" "length (ef_names f) = Suc (length (pre @ post))"
    using pnum(3) names(1) by simp_all
  then have as: "reads_as (length (ef_names f)) (length ids)" "length (ef_names f) < 2 ^ 16"
    using mask_words_Suc [OF words] size by (simp_all add: reads_as_def xdr_buffersize_def)
  have sel: "\<forall>e \<in> set (selected k gs g ids es). values_of ids e \<noteq> []" by (simp add: selected_def)
  obtain xs where xs: "x = concat xs" "\<forall>y \<in> set xs. length y = xdr_buffersize" "length xs = length hs + length rbs"
    "\<And>m a. reader_ok [] m a \<and> m < 2 ^ 64 - 2 \<and> 2 * xdr_buffersize * length rbs \<le> m \<Longrightarrow>
      \<exists>d a'. decode_blocks xdr_buffersize l (filter_clients pnum' dc on_end) n0 junk' xs (new_filter_decoder s) a = Some (d, a') \<and>
       seen a' = seen a @ map (\<lambda>e. carried_view (expected (map (map_number pnum') (ef_names f)) ids e)) (selected k gs g ids es)"
    using xdr_library.read_file [OF lib x(1) [unfolded r(1)] x(2) _ names(2) as(2,1) r(2) sel vals, of pnum' dc on_end n0 junk' s]
      names(1) pnum' by auto
  have "length rbs \<le> length (ef_names f) + 2 * length es + 1" using x(4) r(1) by simp
  then have m: "2 * xdr_buffersize * length rbs \<le> m" using a(3) by (meson le_trans mult_le_mono2)
  have e: "expected (map (map_number pnum') (ef_names f)) ids = read_under pnum' (pre @ nm # post) pnum (pre @ post)"
    unfolding pnum(3) names(1) by (rule ext) (rule expected_read_under)
  show ?thesis
    using life xs(2) xs(4) [unfolded e, of m a] a(1,2) m unfolding xs(1) by blast
qed

text \<open>The time, parameter 1, is read back as the energy, parameter 7 of the reading side.\<close>

theorem missing_parameter_shifts_witness:
  "\<exists>e f1 gs' es' f2 f3 xs d a'. ev_abs e = [1 \<mapsto> 0] \<and>
     ef_Enable (xdr_stage_ops 3 rfc4506 (\<lambda>_. 0) (\<lambda>_. True) [] (\<lambda>_. Some 8192))
       [''time'' \<mapsto> 1] (setParameterNames [''energy'', ''time''] demo_filter) = FlOk f1 \<and>
     filter_events (xdr_stage_ops 3 rfc4506 (\<lambda>_. 0) (\<lambda>_. True) [] (\<lambda>_. Some 8192)) 1 (demo_gates_of (CCut 0 10 1))
       [Some e] f1 = FlOk (gs', map Some es', f2) \<and>
     ef_Disable (xdr_stage_ops 3 rfc4506 (\<lambda>_. 0) (\<lambda>_. True) [] (\<lambda>_. Some 8192)) f2 = FlOk f3 \<and>
     map_option xs_files (ef_output f3) = Some [concat xs] \<and>
     decode_blocks xdr_buffersize rfc4506 (filter_clients [''energy'' \<mapsto> 7, ''time'' \<mapsto> 8]
         \<lparr> dc_run = 0, dc_title = [], dc_sequence = 0, dc_type = 0 \<rparr> id) 0 [] xs (new_filter_decoder False) demo_reader = Some (d, a') \<and>
     seen a' = [([7 \<mapsto> 0], [7])]"
proof -
  have l: "unat (1 :: u32) < max_params" by (simp add: max_params_def)
  obtain e where "ev_ok e" "ev_abs e = (ev_abs new_event)(unat (1 :: u32) \<mapsto> 0)" by (rule ev_set_spec [OF ev_ok_new l, of 0])
  then have e: "ev_ok e" "ev_abs e = [1 \<mapsto> 0]" by (simp_all add: fun_eq_iff)
  let ?f = "setParameterNames [''energy'', ''time''] demo_filter"
  let ?ops = "xdr_stage_ops 3 rfc4506 (\<lambda>_. 0) (\<lambda>_. True) [] (\<lambda>_. Some 8192)"
  let ?gs = "demo_gates_of (CCut 0 10 1)" and ?p = "[''time'' \<mapsto> 1] :: string \<Rightarrow> u32 option"
  have d: "describable xdr_buffersize (ef_names ?f)" "length (ef_names ?f) < 3"
    by (simp_all add: setParameterNames_def describable_def estimated_def c_string_def padded_def too_long_def xdr_buffersize_def)
  have f: "\<not> ef_enabled ?f" "ef_output ?f = Some new_xdr_stage" "xs_stream new_xdr_stage = None" "ef_gate ?f = Some ''c''"
    "ef_names ?f = [] @ ''energy'' # [''time'']" "length (ef_names ?f) = 2"
    by (simp_all add: demo_filter_def setParameterNames_def new_event_filter_def new_xdr_stage_def)
  have w: "\<forall>i. \<exists>k. (\<lambda>_ :: nat. Some 8192) i = Some k \<and> xdr_buffersize \<le> k" by (simp add: xdr_buffersize_def)
  have p: "?p ''energy'' = None" "\<forall>n \<in> set ([] @ [''time'']). ?p n \<noteq> None" "[1] = map (\<lambda>n. the (?p n)) ([] @ [''time''])"
    "\<forall>p \<in> set [1]. unat (p :: u32) < max_params" "length ([] @ [''time'']) mod 32 \<noteq> 0"
    "16 + 4 * mask_words (length [1 :: u32]) + 8 * length [1 :: u32] \<le> xdr_buffersize"
    using l by (simp_all add: mask_words_def xdr_buffersize_def)
  have g: "gate_ready (\<lambda>_. 0) 1 ?gs ''c''"
    by (rule demo_gates_of_ready) (simp_all add: caches_iff is_leaf_def body_ok_def)
  have v: "values_of [1] e = [0]" using e(2) by (simp add: values_of_def)
  have "leaf_den (CCut 0 10 1) (ev_abs e)" using e(2) f32_of_int [of 0] by (simp add: leaf_den_def cut_den_def cut_inGate_x_def)
  then have sel: "selected 1 ?gs ''c'' [1] [e] = [e]"
    using v by (simp add: selected_def demo_gates_of_def bodies_def new_container_def clone_def new_gate_def)
  have q: "\<forall>e' \<in> set (selected 1 ?gs ''c'' [1] [e]). \<forall>v \<in> set (values_of [1] e'). f64_value ((\<lambda>_. 0) v) = v"
    "\<forall>e' \<in> set (selected 1 ?gs ''c'' [1] [e]). unat (mid_word (map (\<lambda>_. 0) (values_of [1] e'))) \<notin> {5..xdr_buffersize}"
    unfolding sel using v by (simp_all add: f64_value_def mid_word_def words_of_def)
  have n: "\<forall>n \<in> set ([] @ ''energy'' # [''time'']). \<forall>i. [''energy'' \<mapsto> 7, ''time'' \<mapsto> 8] n = Some i \<longrightarrow> unat (i :: u32) < max_params"
    by (auto simp: max_params_def)
  have m: "(2 :: nat) ^ 40 < 2 ^ 64 - 2" "2 * xdr_buffersize * (length (ef_names ?f) + 2 * length [e] + 1) \<le> 2 ^ 40"
    by (simp_all add: xdr_buffersize_def f(6))
  have r: "carried_view (read_under [''energy'' \<mapsto> 7, ''time'' \<mapsto> 8] ([] @ ''energy'' # [''time'']) ?p ([] @ [''time'']) e) = ([7 \<mapsto> 0], [7])"
    using e(2) by (simp add: read_under_def map_number_def carried_view_def)
  have s: "seen demo_reader = []" by (simp add: demo_reader_def)
  have o: "\<forall>e \<in> set [e]. ev_ok e" using e(1) by simp
  note shift = missing_parameter_shifts [where l = rfc4506 and ops = ?ops and K = 3 and bits = "\<lambda>_. 0" and opens = "\<lambda>_. True" and
      junk = "[]" and w = "\<lambda>_. Some 8192" and f = ?f and st = new_xdr_stage and g = "''c''" and pre = "[]" and nm = "''energy''" and
      post = "[''time'']" and pnum = ?p and ids = "[1]" and r = "\<lambda>_. 0" and k = 1 and gs = ?gs and es = "[e]" and
      pnum' = "[''energy'' \<mapsto> 7, ''time'' \<mapsto> 8]" and m = "2 ^ 40" and a = demo_reader and junk' = "[]" and ?n0.0 = 0 and
      s = False and on_end = id and dc = "\<lparr> dc_run = 0, dc_title = [], dc_sequence = 0, dc_type = 0 \<rparr>"]
  from shift [OF rfc.xdr_library_axioms refl f(1-3) TrueI f(4) w f(5) d p g o q n demo_reader_ok m]
  obtain f1 gs' es' f2 f3 xs d a' where z: "ef_Enable ?ops ?p ?f = FlOk f1"
    "filter_events ?ops 1 ?gs (map Some [e]) f1 = FlOk (gs', map Some es', f2)" "ef_Disable ?ops f2 = FlOk f3"
    "ef_output f3 = Some (new_xdr_stage\<lparr> xs_ids := [1], xs_files := xs_files new_xdr_stage @ [concat xs] \<rparr>)"
    "decode_blocks xdr_buffersize rfc4506 (filter_clients [''energy'' \<mapsto> 7, ''time'' \<mapsto> 8]
         \<lparr> dc_run = 0, dc_title = [], dc_sequence = 0, dc_type = 0 \<rparr> id) 0 [] xs (new_filter_decoder False) demo_reader = Some (d, a')"
    "seen a' = [] @ map (\<lambda>e. carried_view (read_under [''energy'' \<mapsto> 7, ''time'' \<mapsto> 8] ([] @ ''energy'' # [''time'']) ?p ([] @ [''time'']) e)) [e]"
    unfolding sel s by (elim exE conjE) (rule that)
  have "map_option xs_files (ef_output f3) = Some [concat xs]" "seen a' = [([7 \<mapsto> 0], [7])]"
    using z(4,6) r by (simp_all add: new_xdr_stage_def)
  with z(1-3,5) e(2) show ?thesis unfolding list.map by blast
qed

end
