(* ===== verification/SpectrumObjects.thy ===== *)
theory SpectrumObjects
  imports SpecTclApi
begin

text \<open>
  Spectra as objects with axes: what the constructors of the classes make of their arguments
  and what GetDefinition gives back (src/main/Core/Spectrum.h, Spectrum.cpp, Spectrum1d.hpp,
  Spectrum2d.hpp, BitSpectrum.hpp, SummarySpectrum.hpp, SpectrumS.cpp, Gamma1D.hpp,
  Gamma2D.hpp, Gamma2DD.hpp, CSpectrum2Dm.cpp, CGammaSummarySpectrum.hpp, CM2Projection.hpp,
  Spectrum1DVec.hpp).  The classes Spectra models are spectrum_kind; the others are added here.
\<close>

subsection \<open>Types\<close>

datatype DataType_t = keByte | keWord | keLong | keFloat | keDouble | keUnknown_dt

datatype SpectrumType_t =
    ke1D | ke2D | keBitmask | keSummary | keG1D | keG2D | keUnknown | keStrip | ke2Dm | keG2DD
  | keGSummary | ke2DmProj | ke1DVec

text \<open>How types are named in commands and reports.\<close>

definition type_name :: "SpectrumType_t \<Rightarrow> string" where
  "type_name t = (case t of
      ke1D \<Rightarrow> ''1'' | ke2D \<Rightarrow> ''2'' | keBitmask \<Rightarrow> ''b'' | keSummary \<Rightarrow> ''s'' | keG1D \<Rightarrow> ''g1''
    | keStrip \<Rightarrow> ''S'' | keG2D \<Rightarrow> ''g2'' | keG2DD \<Rightarrow> ''gd'' | keGSummary \<Rightarrow> ''gs'' | ke2Dm \<Rightarrow> ''m2''
    | ke2DmProj \<Rightarrow> ''2dmproj'' | ke1DVec \<Rightarrow> ''1v'' | keUnknown \<Rightarrow> ''?'')"

definition name_type :: "string \<Rightarrow> SpectrumType_t" where
  "name_type w =
     (if w = ''1'' then ke1D else if w = ''2'' then ke2D else if w = ''2dmproj'' then ke2DmProj
      else if w = ''b'' then keBitmask else if w = ''s'' then keSummary else if w = ''S'' then keStrip
      else if w = ''g1'' then keG1D else if w = ''g2'' then keG2D else if w = ''gd'' then keG2DD
      else if w = ''gs'' then keGSummary else if w = ''m2'' then ke2Dm else if w = ''1v'' then ke1DVec
      else keUnknown)"

text \<open>
  An axis is an element of the parallel vectors m_nChannels, m_fLows, m_fHighs, m_Units; the
  channels include the two that ROOT adds.  A gamma summary spectrum has a CAxis per strip.
\<close>

record axis =
  ax_channels :: u32
  ax_low :: rat
  ax_high :: rat
  ax_units :: string

definition AddAxis :: "u32 \<Rightarrow> rat \<Rightarrow> rat \<Rightarrow> string \<Rightarrow> axis" where
  "AddAxis n lo hi units = \<lparr> ax_channels = n + 2, ax_low = lo, ax_high = hi, ax_units = units \<rparr>"

datatype spectrum_class =
    Listed spectrum_kind
  | CSpectrumS u32 u32
  | CSpectrum1DVec string
  | CM2Projection "(u32 \<times> u32) list" "string list" bool

record spectrum_object =
  so_name :: string
  so_number :: u32
  so_type :: SpectrumType_t
  so_storage :: DataType_t
  so_class :: spectrum_class
  so_axes :: "axis list"

subsection \<open>Constructors\<close>

text \<open>All get the name, the number and the type of the channels first.\<close>

definition new_1D :: "SpectrumType_t \<Rightarrow> string \<Rightarrow> u32 \<Rightarrow> DataType_t \<Rightarrow> parameter \<Rightarrow> u32 \<Rightarrow> rat \<Rightarrow> rat \<Rightarrow> spectrum_object" where
  "new_1D t nm i dt p n lo hi =
     \<lparr> so_name = nm, so_number = i, so_type = t, so_storage = dt,
       so_class = Listed (if t = keBitmask then CBitSpectrum (pa_number p) else CSpectrum1D (pa_number p)),
       so_axes = [AddAxis n lo hi (pa_units p)] \<rparr>"

definition float_of :: "u32 \<Rightarrow> rat" where
  "float_of n = f32 (of_nat (unat n))"

definition new_Bit :: "string \<Rightarrow> u32 \<Rightarrow> DataType_t \<Rightarrow> parameter \<Rightarrow> u32 \<Rightarrow> u32 \<Rightarrow> spectrum_object" where
  "new_Bit nm i dt p lo hi = new_1D keBitmask nm i dt p (hi - lo) (float_of lo) (float_of hi)"

definition new_Strip :: "string \<Rightarrow> u32 \<Rightarrow> parameter \<Rightarrow> parameter \<Rightarrow> u32 \<Rightarrow> rat \<Rightarrow> rat \<Rightarrow> spectrum_object" where
  "new_Strip nm i p time n lo hi =
     \<lparr> so_name = nm, so_number = i, so_type = keStrip, so_storage = keLong,
       so_class = CSpectrumS (pa_number time) (pa_number p), so_axes = [AddAxis n lo hi (pa_units p)] \<rparr>"

definition new_2D ::
  "string \<Rightarrow> u32 \<Rightarrow> DataType_t \<Rightarrow> parameter \<Rightarrow> parameter \<Rightarrow> u32 \<Rightarrow> rat \<Rightarrow> rat \<Rightarrow> u32 \<Rightarrow> rat \<Rightarrow> rat \<Rightarrow> spectrum_object" where
  "new_2D nm i dt px py nx xlo xhi ny ylo yhi =
     \<lparr> so_name = nm, so_number = i, so_type = ke2D, so_storage = dt,
       so_class = Listed (CSpectrum2D (pa_number px) (pa_number py)),
       so_axes = [AddAxis nx xlo xhi (pa_units px), AddAxis ny ylo yhi (pa_units py)] \<rparr>"

text \<open>A summary spectrum is a 2-d spectrum with one channel in x for each parameter.\<close>

definition new_Summary :: "string \<Rightarrow> u32 \<Rightarrow> DataType_t \<Rightarrow> parameter list \<Rightarrow> u32 \<Rightarrow> rat \<Rightarrow> rat \<Rightarrow> spectrum_object" where
  "new_Summary nm i dt ps ny lo hi =
     (new_2D nm i dt (ps ! 0) (ps ! 0) (of_nat (length ps)) 0 (f32 (of_nat (length ps))) ny lo hi)
       \<lparr> so_type := keSummary, so_class := Listed (CSummarySpectrum (map pa_number ps)) \<rparr>"

definition new_G1D :: "string \<Rightarrow> u32 \<Rightarrow> DataType_t \<Rightarrow> parameter list \<Rightarrow> u32 \<Rightarrow> rat \<Rightarrow> rat \<Rightarrow> spectrum_object" where
  "new_G1D nm i dt ps n lo hi =
     \<lparr> so_name = nm, so_number = i, so_type = keG1D, so_storage = dt,
       so_class = Listed (CGamma1D (map pa_number ps)), so_axes = [AddAxis n lo hi (pa_units (ps ! 0))] \<rparr>"

definition new_G2D ::
  "string \<Rightarrow> u32 \<Rightarrow> DataType_t \<Rightarrow> parameter list \<Rightarrow> u32 \<Rightarrow> u32 \<Rightarrow> rat \<Rightarrow> rat \<Rightarrow> rat \<Rightarrow> rat \<Rightarrow> spectrum_object" where
  "new_G2D nm i dt ps nx ny xlo xhi ylo yhi =
     \<lparr> so_name = nm, so_number = i, so_type = keG2D, so_storage = dt,
       so_class = Listed (CGamma2D (map pa_number ps)),
       so_axes = [AddAxis nx xlo xhi (pa_units (ps ! 0)), AddAxis ny ylo yhi (pa_units (ps ! 0))] \<rparr>"

definition new_G2DD ::
  "string \<Rightarrow> u32 \<Rightarrow> DataType_t \<Rightarrow> parameter list \<Rightarrow> parameter list \<Rightarrow> u32 \<Rightarrow> u32 \<Rightarrow> rat \<Rightarrow> rat \<Rightarrow> rat \<Rightarrow> rat \<Rightarrow> spectrum_object" where
  "new_G2DD nm i dt xs ys nx ny xlo xhi ylo yhi =
     \<lparr> so_name = nm, so_number = i, so_type = keG2DD, so_storage = dt,
       so_class = Listed (CGamma2DD (map pa_number xs) (map pa_number ys)),
       so_axes = [AddAxis nx xlo xhi (pa_units (xs ! 0)), AddAxis ny ylo yhi (pa_units (ys ! 0))] \<rparr>"

definition new_2Dm ::
  "string \<Rightarrow> u32 \<Rightarrow> DataType_t \<Rightarrow> parameter list \<Rightarrow> u32 \<Rightarrow> u32 \<Rightarrow> rat \<Rightarrow> rat \<Rightarrow> rat \<Rightarrow> rat \<Rightarrow> spectrum_object" where
  "new_2Dm nm i dt ps nx ny xlo xhi ylo yhi =
     \<lparr> so_name = nm, so_number = i, so_type = ke2Dm, so_storage = dt,
       so_class = Listed (CSpectrum2Dm (map pa_number ps)),
       so_axes = [AddAxis nx xlo xhi (pa_units (ps ! 0)), AddAxis ny ylo yhi (pa_units (ps ! 1))] \<rparr>"

text \<open>CreateAxes reads the first parameter of every strip: an empty strip is undefined.\<close>

definition new_GammaSummary ::
  "string \<Rightarrow> u32 \<Rightarrow> DataType_t \<Rightarrow> parameter list list \<Rightarrow> u32 \<Rightarrow> rat \<Rightarrow> rat \<Rightarrow> spectrum_object option" where
  "new_GammaSummary nm i dt pss ny lo hi =
     (if [] \<in> set pss then None
      else Some \<lparr> so_name = nm, so_number = i, so_type = keGSummary, so_storage = dt,
        so_class = Listed (CGammaSummarySpectrum (map (map pa_number) pss)),
        so_axes = map (\<lambda>ps. AddAxis ny lo hi (pa_units (ps ! 0))) pss \<rparr>)"

text \<open>CreateRootSpectrum and CreateChannels accept the two types the factory asks for.\<close>

definition new_1DVec :: "string \<Rightarrow> u32 \<Rightarrow> DataType_t \<Rightarrow> string \<Rightarrow> string \<Rightarrow> u32 \<Rightarrow> rat \<Rightarrow> rat \<Rightarrow> spectrum_object" where
  "new_1DVec nm i dt v units n lo hi =
     \<lparr> so_name = nm, so_number = i, so_type = ke1DVec, so_storage = dt,
       so_class = CSpectrum1DVec v, so_axes = [AddAxis n lo hi units] \<rparr>"

text \<open>
  The gates of a projection must be contours, as many as parameter pairs; then they are put in
  the order of the pairs.  A pair that no gate is defined on gets none.  Gates are given as
  names of containers with the gates they hold.
\<close>

definition contour_ids :: "gate_body \<Rightarrow> (u32 \<times> u32) option" where
  "contour_ids b = (case b of
      CContour pl _ \<Rightarrow> Some (pl_nxId pl, pl_nyId pl) | C2Bands pl _ \<Rightarrow> Some (pl_nxId pl, pl_nyId pl)
    | _ \<Rightarrow> None)"

definition gate_on :: "u32 \<times> u32 \<Rightarrow> gate_body \<Rightarrow> bool" where
  "gate_on xy b \<longleftrightarrow> contour_ids b = Some xy \<or> contour_ids b = Some (snd xy, fst xy)"

fun gates_in_order :: "(u32 \<times> u32) list \<Rightarrow> (string \<times> gate_body) list \<Rightarrow> string list" where
  "gates_in_order [] gs = []"
| "gates_in_order (xy # xys) gs = (case find (\<lambda>g. gate_on xy (snd g)) gs of
      None \<Rightarrow> gates_in_order xys gs
    | Some g \<Rightarrow> fst g # gates_in_order xys gs)"

definition OrderGateContainers :: "(u32 \<times> u32) list \<Rightarrow> (string \<times> gate_body) list \<Rightarrow> string list option" where
  "OrderGateContainers xys gs =
     (if length gs \<noteq> length xys then None
      else if list_ex (\<lambda>g. gate_type (snd g) \<noteq> ''c'') gs then None
      else Some (gates_in_order xys gs))"

text \<open>None is an exception of the constructor.\<close>

definition new_M2Projection ::
  "string \<Rightarrow> u32 \<Rightarrow> DataType_t \<Rightarrow> u32 list \<Rightarrow> u32 list \<Rightarrow> (string \<times> gate_body) list \<Rightarrow> u32 \<Rightarrow> rat \<Rightarrow> rat
    \<Rightarrow> string \<Rightarrow> bool \<Rightarrow> spectrum_object option" where
  "new_M2Projection nm i dt xs ys gs n lo hi units x =
     (if length xs \<noteq> length ys \<or> length xs \<noteq> length gs then None
      else map_option (\<lambda>ordered.
        \<lparr> so_name = nm, so_number = i, so_type = ke2DmProj, so_storage = dt,
          so_class = CM2Projection (zip xs ys) ordered x, so_axes = [AddAxis n lo hi units] \<rparr>)
        (OrderGateContainers (zip xs ys) gs))"

subsection \<open>What a spectrum says of itself\<close>

record SpectrumDefinition =
  sd_name :: string
  sd_nId :: u32
  sd_eType :: SpectrumType_t
  sd_eDataType :: DataType_t
  sd_vParameters :: "u32 list"
  sd_vyParameters :: "u32 list"
  sd_nChannels :: "u32 list"
  sd_fLows :: "rat list"
  sd_fHighs :: "rat list"

text \<open>The numbers of the parameters a tree parameter vector has so far are an argument.\<close>

definition object_parameters :: "(string \<Rightarrow> u32 list) \<Rightarrow> spectrum_class \<Rightarrow> u32 list" where
  "object_parameters created c = (case c of
      Listed k \<Rightarrow> GetParameterIds k
    | CSpectrumS t p \<Rightarrow> [t, p]
    | CSpectrum1DVec v \<Rightarrow> created v
    | CM2Projection xys _ x \<Rightarrow> map (if x then fst else snd) xys)"

definition Dimensionality :: "spectrum_object \<Rightarrow> nat" where
  "Dimensionality s = (if so_type s = keGSummary then 2 else length (so_axes s))"

definition base_GetDefinition :: "(string \<Rightarrow> u32 list) \<Rightarrow> spectrum_object \<Rightarrow> SpectrumDefinition" where
  "base_GetDefinition created s =
     \<lparr> sd_name = so_name s, sd_nId = so_number s, sd_eType = so_type s, sd_eDataType = so_storage s,
       sd_vParameters = object_parameters created (so_class s), sd_vyParameters = [],
       sd_nChannels = map (\<lambda>a. ax_channels a - 2) (so_axes s),
       sd_fLows = map ax_low (so_axes s), sd_fHighs = map ax_high (so_axes s) \<rparr>"

definition summary_GetDefinition :: "(string \<Rightarrow> u32 list) \<Rightarrow> spectrum_object \<Rightarrow> SpectrumDefinition" where
  "summary_GetDefinition created s =
     (let d = base_GetDefinition created s
      in d\<lparr> sd_nChannels := tl (sd_nChannels d), sd_fLows := tl (sd_fLows d), sd_fHighs := tl (sd_fHighs d) \<rparr>)"

definition deluxe_GetDefinition :: "u32 list \<Rightarrow> u32 list \<Rightarrow> spectrum_object \<Rightarrow> SpectrumDefinition" where
  "deluxe_GetDefinition xs ys s =
     (base_GetDefinition (\<lambda>_. []) s)\<lparr> sd_vParameters := xs, sd_vyParameters := ys \<rparr>"

text \<open>The rows of parameters end with UINT_MAX; the y axis is the first strip's.\<close>

definition gsummary_GetDefinition :: "u32 list list \<Rightarrow> spectrum_object \<Rightarrow> SpectrumDefinition option" where
  "gsummary_GetDefinition pss s = (case so_axes s of
      [] \<Rightarrow> None
    | a # _ \<Rightarrow> Some \<lparr> sd_name = so_name s, sd_nId = so_number s, sd_eType = keGSummary, sd_eDataType = so_storage s,
         sd_vParameters = concat (map (\<lambda>ps. ps @ [- 1]) pss), sd_vyParameters = [],
         sd_nChannels = [of_nat (length pss) + 2, ax_channels a - 2],
         sd_fLows = [0, ax_low a], sd_fHighs = [float_of (of_nat (length pss) + 1), ax_high a] \<rparr>)"

definition m2_GetDefinition :: "(u32 \<times> u32) list \<Rightarrow> spectrum_object \<Rightarrow> SpectrumDefinition" where
  "m2_GetDefinition xys s =
     (base_GetDefinition (\<lambda>_. []) s)\<lparr> sd_vParameters := map fst xys, sd_vyParameters := map snd xys \<rparr>"

definition GetDefinition :: "(string \<Rightarrow> u32 list) \<Rightarrow> spectrum_object \<Rightarrow> SpectrumDefinition option" where
  "GetDefinition created s = (case so_class s of
      Listed (CSummarySpectrum _) \<Rightarrow> Some (summary_GetDefinition created s)
    | Listed (CGamma2DD xs ys) \<Rightarrow> Some (deluxe_GetDefinition xs ys s)
    | Listed (CGammaSummarySpectrum pss) \<Rightarrow> gsummary_GetDefinition pss s
    | CM2Projection xys _ _ \<Rightarrow> Some (m2_GetDefinition xys s)
    | _ \<Rightarrow> Some (base_GetDefinition created s))"

text \<open>As the histogrammer sees a new spectrum: ungated, unfolded and empty.\<close>

definition fresh_spectrum :: "spectrum_object \<Rightarrow> spectrum option" where
  "fresh_spectrum s = (case so_class s of
      Listed k \<Rightarrow> Some \<lparr> sp_name = so_name s, sp_number = so_number s, sp_kind = k,
        sp_gate = DefaultGate, sp_fold = DefaultGate, sp_fills = [] \<rparr>
    | _ \<Rightarrow> None)"

lemma name_type_name [simp]: "name_type (type_name t) = t"
  by (cases t) (simp_all add: name_type_def type_name_def)

lemma base_definition_simps [simp]:
  "sd_name (base_GetDefinition c s) = so_name s" "sd_nId (base_GetDefinition c s) = so_number s"
  "sd_eType (base_GetDefinition c s) = so_type s" "sd_eDataType (base_GetDefinition c s) = so_storage s"
  "sd_fLows (base_GetDefinition c s) = map ax_low (so_axes s)"
  "sd_fHighs (base_GetDefinition c s) = map ax_high (so_axes s)"
  by (simp_all add: base_GetDefinition_def)

lemma AddAxis_simps [simp]:
  "ax_channels (AddAxis n lo hi u) = n + 2" "ax_low (AddAxis n lo hi u) = lo"
  "ax_high (AddAxis n lo hi u) = hi" "ax_units (AddAxis n lo hi u) = u"
  by (simp_all add: AddAxis_def)

end
