(* ===== verification/SpectrumFactory.thy ===== *)
theory SpectrumFactory
  imports SpectrumObjects
begin

text \<open>
  CSpectrumFactory (src/main/Core/SpectrumFactory.cpp): how spectra are made from a type, the
  names of parameters, channels and limits.  The factory reads the parameter dictionary and
  the set of tree parameter vectors; m_nNextId, which numbers the spectra, is the state that
  every operation threads.  A vector that may be missing (pLows, pHighs) is an option; None as
  the result of a helper, and FactoryUndefined, is an index past the end of a vector or a null
  dereference.
\<close>

subsection \<open>Results\<close>

datatype factory_reason =
    keBadSpectrumType | keBadDataType | keBadParameterCount | keBadResolutionCount
  | keBadTransformCount | keBadChannelCount | keNoMappingInformation | keConstructionFailed | keBadGateType

datatype factory_exception =
    SpectrumFactoryException factory_reason DataType_t SpectrumType_t string
  | DictionaryException string
  | ThrownString string

datatype factory_end =
    Made spectrum_object | NullSpectrum | FactoryThrows factory_exception | FactoryUndefined

type_synonym factory_result = "factory_end \<times> u32"

record factory_env =
  fe_api :: api
  fe_exceptions :: bool
  fe_vectors :: "string \<Rightarrow> string option"

text \<open>fe_vectors gives the units of the tree parameter vectors there are.\<close>

definition refuse :: "factory_reason \<Rightarrow> DataType_t \<Rightarrow> SpectrumType_t \<Rightarrow> string \<Rightarrow> u32 \<Rightarrow> factory_result" where
  "refuse r dt t nm nx = (FactoryThrows (SpectrumFactoryException r dt t nm), nx)"

text \<open>In the mode without exceptions some failures are a null pointer.\<close>

definition fail_softly :: "factory_env \<Rightarrow> factory_reason \<Rightarrow> DataType_t \<Rightarrow> SpectrumType_t \<Rightarrow> string \<Rightarrow> u32 \<Rightarrow> factory_result" where
  "fail_softly env r dt t nm nx = (if fe_exceptions env then refuse r dt t nm nx else (NullSpectrum, nx))"

subsection \<open>Helpers\<close>

definition NextId :: "u32 \<Rightarrow> u32 \<times> u32" where
  "NextId nx = (nx, nx + 1)"

definition NullParameter :: parameter where
  "NullParameter = \<lparr> pa_name = ''Undefined'', pa_number = - 1, pa_scale = 0, pa_low = 0, pa_high = 0,
     pa_units = [], pa_scaled = False \<rparr>"

text \<open>Inl is the name the exception is thrown for.\<close>

fun ParameterArray :: "factory_env \<Rightarrow> string list \<Rightarrow> string + parameter list" where
  "ParameterArray env [] = Inr []"
| "ParameterArray env (nm # nms) = (case api_FindParameter nm (fe_api env) of
      Some p \<Rightarrow> map_sum id ((#) p) (ParameterArray env nms)
    | None \<Rightarrow> if fe_exceptions env then Inl nm else map_sum id ((#) NullParameter) (ParameterArray env nms))"

text \<open>1 << n of an int: the sign bit for 31, undefined above.\<close>

definition shifted_one :: "u32 \<Rightarrow> rat option" where
  "shifted_one n = (if n < 31 then Some (2 ^ unat n) else if n = 31 then Some (- (2 ^ 31)) else None)"

definition DefaultAxisLength :: "u32 \<Rightarrow> parameter \<Rightarrow> rat option" where
  "DefaultAxisLength n p = (if pa_scaled p then shifted_one (pa_scale p) else Some (float_of (n - 1)))"

text \<open>The limits of axis k: as given, or from zero if none are given or they are equal.\<close>

definition axis_limits ::
  "nat \<Rightarrow> rat list option \<Rightarrow> rat list option \<Rightarrow> u32 \<Rightarrow> parameter \<Rightarrow> (rat \<times> rat) option" where
  "axis_limits k pLows pHighs n p = (case pLows of
      None \<Rightarrow> map_option (Pair 0) (DefaultAxisLength n p)
    | Some los \<Rightarrow> (case pHighs of
        None \<Rightarrow> None
      | Some his \<Rightarrow>
          if length los \<le> k \<or> length his \<le> k then None
          else if los ! k = his ! k then map_option (Pair 0) (DefaultAxisLength n p)
          else Some (los ! k, his ! k)))"

definition factory_Require ::
  "SpectrumType_t \<Rightarrow> 'a list \<Rightarrow> u32 list \<Rightarrow> nat \<Rightarrow> nat \<Rightarrow> factory_reason option" where
  "factory_Require t ps res nParams nRes =
     (if length ps \<noteq> nParams then Some keBadParameterCount
      else if t = keG2D \<and> nParams < 2 then Some keBadParameterCount
      else if t = keG1D \<and> nParams < 1 then Some keBadParameterCount
      else if length res \<noteq> nRes then Some keBadResolutionCount
      else None)"

definition MappedRequire :: "rat list \<Rightarrow> u32 list \<Rightarrow> parameter list \<Rightarrow> nat \<Rightarrow> nat \<Rightarrow> factory_reason option" where
  "MappedRequire tr chs ps nCoords nChans =
     (if length tr \<noteq> nCoords then Some keBadTransformCount
      else if length chs \<noteq> nChans then Some keBadChannelCount
      else if list_ex (\<lambda>n. n < 1) chs then Some keBadChannelCount
      else if list_ex (\<lambda>p. pa_low p = 0 \<and> pa_high p = 0) ps then Some keNoMappingInformation
      else None)"

subsection \<open>One creator per type\<close>

text \<open>The channel types a creator knows; the number is taken once the type has been decided.\<close>

definition make_object :: "DataType_t list \<Rightarrow> SpectrumType_t \<Rightarrow> string \<Rightarrow> DataType_t \<Rightarrow> (u32 \<Rightarrow> spectrum_object option) \<Rightarrow> u32 \<Rightarrow> factory_result" where
  "make_object known t nm dt new nx =
     (if dt \<in> set known
      then (case NextId nx of (i, nx') \<Rightarrow> (case new i of Some s \<Rightarrow> Made s | None \<Rightarrow> FactoryUndefined, nx'))
      else refuse keBadDataType dt t nm nx)"

text \<open>The constructors of most classes read the first n parameters.\<close>

definition reading :: "nat \<Rightarrow> 'a list \<Rightarrow> 'b \<Rightarrow> 'b option" where
  "reading n ps s = (if length ps < n then None else Some s)"

definition Create1D :: "string \<Rightarrow> DataType_t \<Rightarrow> parameter \<Rightarrow> u32 \<Rightarrow> rat \<Rightarrow> rat \<Rightarrow> u32 \<Rightarrow> factory_result" where
  "Create1D nm dt p n lo hi = make_object [keWord, keLong] ke1D nm dt (\<lambda>i. Some (new_1D ke1D nm i dt p n lo hi))"

definition Create1D_default :: "string \<Rightarrow> DataType_t \<Rightarrow> parameter \<Rightarrow> u32 \<Rightarrow> u32 \<Rightarrow> factory_result" where
  "Create1D_default nm dt p n = Create1D nm dt p n 0 (float_of (n - 1))"

text \<open>A strip chart of another type is refused as if it were a 1-d spectrum.\<close>

definition CreateStrip :: "string \<Rightarrow> DataType_t \<Rightarrow> parameter \<Rightarrow> parameter \<Rightarrow> u32 \<Rightarrow> rat \<Rightarrow> rat \<Rightarrow> u32 \<Rightarrow> factory_result" where
  "CreateStrip nm dt p time n lo hi = make_object [keLong] ke1D nm dt (\<lambda>i. Some (new_Strip nm i p time n lo hi))"

definition CreateStrip_default :: "string \<Rightarrow> DataType_t \<Rightarrow> parameter \<Rightarrow> parameter \<Rightarrow> u32 \<Rightarrow> u32 \<Rightarrow> factory_result" where
  "CreateStrip_default nm dt p time n = CreateStrip nm dt p time n 0 (float_of (n - 1))"

definition Create2D ::
  "string \<Rightarrow> DataType_t \<Rightarrow> parameter \<Rightarrow> parameter \<Rightarrow> u32 \<Rightarrow> rat \<Rightarrow> rat \<Rightarrow> u32 \<Rightarrow> rat \<Rightarrow> rat \<Rightarrow> u32 \<Rightarrow> factory_result" where
  "Create2D nm dt px py nx xlo xhi ny ylo yhi =
     make_object [keWord, keByte, keLong] ke2D nm dt (\<lambda>i. Some (new_2D nm i dt px py nx xlo xhi ny ylo yhi))"

definition Create2D_default :: "string \<Rightarrow> DataType_t \<Rightarrow> parameter \<Rightarrow> parameter \<Rightarrow> u32 \<Rightarrow> u32 \<Rightarrow> u32 \<Rightarrow> factory_result" where
  "Create2D_default nm dt px py nx ny =
     Create2D nm dt px py nx 0 (float_of (nx - 1)) ny 0 (float_of (ny - 1))"

definition CreateG1D :: "string \<Rightarrow> DataType_t \<Rightarrow> parameter list \<Rightarrow> u32 \<Rightarrow> rat \<Rightarrow> rat \<Rightarrow> u32 \<Rightarrow> factory_result" where
  "CreateG1D nm dt ps n lo hi = make_object [keWord, keLong] keG1D nm dt (\<lambda>i. reading 1 ps (new_G1D nm i dt ps n lo hi))"

definition CreateG1D_default :: "string \<Rightarrow> DataType_t \<Rightarrow> parameter list \<Rightarrow> u32 \<Rightarrow> u32 \<Rightarrow> factory_result" where
  "CreateG1D_default nm dt ps n nx =
     (if ps = [] then refuse keBadParameterCount dt keG1D nm nx
      else CreateG1D nm dt ps n 0 (float_of (n - 1)) nx)"

definition CreateG2D ::
  "string \<Rightarrow> DataType_t \<Rightarrow> parameter list \<Rightarrow> u32 \<Rightarrow> rat \<Rightarrow> rat \<Rightarrow> u32 \<Rightarrow> rat \<Rightarrow> rat \<Rightarrow> u32 \<Rightarrow> factory_result" where
  "CreateG2D nm dt ps nx xlo xhi ny ylo yhi =
     make_object [keByte, keWord, keLong] keG2D nm dt (\<lambda>i. reading 1 ps (new_G2D nm i dt ps nx ny xlo xhi ylo yhi))"

definition CreateG2D_default :: "string \<Rightarrow> DataType_t \<Rightarrow> parameter list \<Rightarrow> u32 \<Rightarrow> u32 \<Rightarrow> u32 \<Rightarrow> factory_result" where
  "CreateG2D_default nm dt ps nx ny =
     CreateG2D nm dt ps nx 0 (float_of (nx - 1)) ny 0 (float_of (ny - 1))"

definition CreateBit :: "string \<Rightarrow> DataType_t \<Rightarrow> parameter \<Rightarrow> u32 \<Rightarrow> u32 \<Rightarrow> u32 \<Rightarrow> factory_result" where
  "CreateBit nm dt p lo hi = make_object [keWord, keLong] keBitmask nm dt (\<lambda>i. Some (new_Bit nm i dt p lo hi))"

definition CreateBit_default :: "string \<Rightarrow> DataType_t \<Rightarrow> parameter \<Rightarrow> u32 \<Rightarrow> u32 \<Rightarrow> factory_result" where
  "CreateBit_default nm dt p n = CreateBit nm dt p 0 (n - 1)"

definition CreateSummary :: "string \<Rightarrow> DataType_t \<Rightarrow> parameter list \<Rightarrow> u32 \<Rightarrow> rat \<Rightarrow> rat \<Rightarrow> u32 \<Rightarrow> factory_result" where
  "CreateSummary nm dt ps n lo hi =
     make_object [keWord, keByte, keLong] keSummary nm dt (\<lambda>i. reading 1 ps (new_Summary nm i dt ps n lo hi))"

definition CreateSummary_default :: "string \<Rightarrow> DataType_t \<Rightarrow> parameter list \<Rightarrow> u32 \<Rightarrow> u32 \<Rightarrow> factory_result" where
  "CreateSummary_default nm dt ps n = CreateSummary nm dt ps n 0 (float_of (n - 1))"

definition Create2DMultiple ::
  "string \<Rightarrow> DataType_t \<Rightarrow> parameter list \<Rightarrow> u32 \<Rightarrow> rat \<Rightarrow> rat \<Rightarrow> u32 \<Rightarrow> rat \<Rightarrow> rat \<Rightarrow> u32 \<Rightarrow> factory_result" where
  "Create2DMultiple nm dt ps nx xlo xhi ny ylo yhi =
     make_object [keByte, keWord, keLong] ke2Dm nm dt (\<lambda>i. reading 2 ps (new_2Dm nm i dt ps nx ny xlo xhi ylo yhi))"

definition CreateG2dDeluxe ::
  "factory_env \<Rightarrow> string \<Rightarrow> DataType_t \<Rightarrow> parameter list \<Rightarrow> parameter list
    \<Rightarrow> u32 \<Rightarrow> rat \<Rightarrow> rat \<Rightarrow> u32 \<Rightarrow> rat \<Rightarrow> rat \<Rightarrow> u32 \<Rightarrow> factory_result" where
  "CreateG2dDeluxe env nm dt xs ys nx xlo xhi ny ylo yhi nxt =
     (if dt \<in> {keByte, keWord, keLong}
      then make_object [keByte, keWord, keLong] keG2DD nm dt (\<lambda>i. if xs = [] \<or> ys = [] then None
        else Some (new_G2DD nm i dt xs ys nx ny xlo xhi ylo yhi)) nxt
      else fail_softly env keBadDataType dt keG2DD nm nxt)"

text \<open>A gamma summary spectrum takes its number before the type is looked at.\<close>

definition CreateGammaSummary ::
  "factory_env \<Rightarrow> string \<Rightarrow> DataType_t \<Rightarrow> parameter list list \<Rightarrow> u32 \<Rightarrow> rat \<Rightarrow> rat \<Rightarrow> u32 \<Rightarrow> factory_result" where
  "CreateGammaSummary env nm dt pss ny lo hi nxt = (case NextId nxt of (i, nxt') \<Rightarrow>
     (if dt \<in> {keByte, keWord, keLong}
      then (case new_GammaSummary nm i dt pss ny lo hi of
              None \<Rightarrow> (FactoryUndefined, nxt') | Some s \<Rightarrow> (Made s, nxt'))
      else fail_softly env keBadDataType dt keGSummary nm nxt'))"

text \<open>
  Projections of 2-d multiply incremented spectra: parameters alternate x and y; the gates are
  names of containers.  The number is taken before the constructor, which may throw.
\<close>

fun marshallXYParameterIds :: "parameter list \<Rightarrow> (u32 list \<times> u32 list) option" where
  "marshallXYParameterIds [] = Some ([], [])"
| "marshallXYParameterIds [p] = None"
| "marshallXYParameterIds (p # q # ps) =
     map_option (map_prod ((#) (pa_number p)) ((#) (pa_number q))) (marshallXYParameterIds ps)"

definition projection_units :: "bool \<Rightarrow> parameter list \<Rightarrow> string option" where
  "projection_units xproj ps = (let k = if xproj then 0 else 1 in
     if k < length ps then Some (pa_units (ps ! k)) else None)"

definition construct_projection ::
  "factory_env \<Rightarrow> string \<Rightarrow> DataType_t \<Rightarrow> u32 list \<Rightarrow> u32 list \<Rightarrow> (string \<times> gate_body) list \<Rightarrow> bool
    \<Rightarrow> u32 \<Rightarrow> rat \<Rightarrow> rat \<Rightarrow> string \<Rightarrow> u32 \<Rightarrow> factory_result" where
  "construct_projection env nm dt xs ys gs xproj n lo hi units nxt =
     (if dt \<in> {keByte, keWord, keLong}
      then (case NextId nxt of (i, nxt') \<Rightarrow>
             (case new_M2Projection nm i dt xs ys gs n lo hi units xproj of
                Some s \<Rightarrow> (Made s, nxt')
              | None \<Rightarrow> fail_softly env keConstructionFailed dt ke2DmProj nm nxt'))
      else fail_softly env keBadDataType dt ke2DmProj nm nxt)"

text \<open>The gates given are in the dictionary, under the names of their containers.\<close>

definition held_gate :: "factory_env \<Rightarrow> string \<Rightarrow> (string \<times> gate_body) option" where
  "held_gate env g = map_option (\<lambda>c. (g, g_body (gc_gate c))) (api_FindGate g (fe_api env))"

definition CreateM2Projection_contours ::
  "factory_env \<Rightarrow> string \<Rightarrow> DataType_t \<Rightarrow> parameter list \<Rightarrow> string list \<Rightarrow> bool \<Rightarrow> u32 \<Rightarrow> rat \<Rightarrow> rat
    \<Rightarrow> u32 \<Rightarrow> factory_result" where
  "CreateM2Projection_contours env nm dt ps roi xproj n lo hi nxt =
     (case (projection_units xproj ps, those (map (held_gate env) roi)) of
        (Some units, Some gs) \<Rightarrow>
          (case marshallXYParameterIds ps of
             None \<Rightarrow> fail_softly env keBadParameterCount dt ke2DmProj nm nxt
           | Some (xs, ys) \<Rightarrow> construct_projection env nm dt xs ys gs xproj n lo hi units nxt)
      | _ \<Rightarrow> (FactoryUndefined, nxt))"

text \<open>Or the region of interest is an or gate over the contours.\<close>

definition CreateM2Projection_roi ::
  "factory_env \<Rightarrow> string \<Rightarrow> DataType_t \<Rightarrow> parameter list \<Rightarrow> string \<Rightarrow> bool \<Rightarrow> u32 \<Rightarrow> rat \<Rightarrow> rat
    \<Rightarrow> u32 \<Rightarrow> factory_result" where
  "CreateM2Projection_roi env nm dt ps roi xproj n lo hi nxt = (case marshallXYParameterIds ps of
      None \<Rightarrow> fail_softly env keBadParameterCount dt ke2DmProj nm nxt
    | Some (xs, ys) \<Rightarrow>
        (case (projection_units xproj ps, held_gate env roi) of
           (Some units, Some (_, b)) \<Rightarrow>
             (case b of
                COrGate ns \<Rightarrow>
                  (case those (map (held_gate env) ns) of
                     Some gs \<Rightarrow> construct_projection env nm dt xs ys gs xproj n lo hi units nxt
                   | None \<Rightarrow> (FactoryUndefined, nxt))
              | _ \<Rightarrow> fail_softly env keBadGateType dt ke2DmProj nm nxt)
         | _ \<Rightarrow> (FactoryUndefined, nxt)))"

subsection \<open>Creation by type\<close>

text \<open>A limit on each of one or two axes; f gets the limits.\<close>

definition with_limits :: "(rat \<times> rat) option \<Rightarrow> (rat \<Rightarrow> rat \<Rightarrow> u32 \<Rightarrow> factory_result) \<Rightarrow> u32 \<Rightarrow> factory_result" where
  "with_limits lm f nxt = (case lm of None \<Rightarrow> (FactoryUndefined, nxt) | Some (lo, hi) \<Rightarrow> f lo hi nxt)"

definition required :: "factory_reason option \<Rightarrow> SpectrumType_t \<Rightarrow> string \<Rightarrow> DataType_t \<Rightarrow> (u32 \<Rightarrow> factory_result) \<Rightarrow> u32 \<Rightarrow> factory_result" where
  "required r t nm dt f nxt = (case r of Some e \<Rightarrow> refuse e dt t nm nxt | None \<Rightarrow> f nxt)"

text \<open>
  The case of one spectrum type in CreateSpectrum, with the names, the channels and the limits
  of the request.
\<close>

record limits =
  l_channels :: "u32 list"
  l_lows :: "rat list option"
  l_highs :: "rat list option"

definition limit_of :: "nat \<Rightarrow> limits \<Rightarrow> parameter \<Rightarrow> (rat \<times> rat) option" where
  "limit_of k l p = axis_limits k (l_lows l) (l_highs l) (l_channels l ! k) p"

definition case_1D :: "string \<Rightarrow> DataType_t \<Rightarrow> parameter list \<Rightarrow> limits \<Rightarrow> u32 \<Rightarrow> factory_result" where
  "case_1D nm dt ps l = required (factory_Require ke1D ps (l_channels l) 1 1) ke1D nm dt
     (with_limits (limit_of 0 l (ps ! 0)) (Create1D nm dt (ps ! 0) (l_channels l ! 0)))"

definition case_Strip :: "string \<Rightarrow> DataType_t \<Rightarrow> parameter list \<Rightarrow> limits \<Rightarrow> u32 \<Rightarrow> factory_result" where
  "case_Strip nm dt ps l = required (factory_Require keStrip ps (l_channels l) 2 1) keStrip nm dt
     (with_limits (limit_of 0 l (ps ! 1)) (CreateStrip nm dt (ps ! 1) (ps ! 0) (l_channels l ! 0)))"

definition case_2D :: "string \<Rightarrow> DataType_t \<Rightarrow> parameter list \<Rightarrow> limits \<Rightarrow> u32 \<Rightarrow> factory_result" where
  "case_2D nm dt ps l = required (factory_Require ke2D ps (l_channels l) 2 2) ke2D nm dt
     (with_limits (limit_of 0 l (ps ! 0)) (\<lambda>xlo xhi. with_limits (limit_of 1 l (ps ! 1)) (\<lambda>ylo yhi.
        Create2D nm dt (ps ! 0) (ps ! 1) (l_channels l ! 0) xlo xhi (l_channels l ! 1) ylo yhi)))"

text \<open>The limits of a bit spectrum are bit numbers.\<close>

definition case_Bit :: "string \<Rightarrow> DataType_t \<Rightarrow> parameter list \<Rightarrow> limits \<Rightarrow> u32 \<Rightarrow> factory_result" where
  "case_Bit nm dt ps l = required (factory_Require keBitmask ps (l_channels l) 1 1) keBitmask nm dt (\<lambda>nxt.
     (case l_lows l of
        None \<Rightarrow> CreateBit_default nm dt (ps ! 0) (l_channels l ! 0) nxt
      | Some los \<Rightarrow> (case l_highs l of
          None \<Rightarrow> (FactoryUndefined, nxt)
        | Some his \<Rightarrow>
            if los = [] \<or> his = [] then (FactoryUndefined, nxt)
            else let nLow = to_u32 (los ! 0); nHigh = to_u32 (his ! 0)
                 in if nLow = nHigh then CreateBit nm dt (ps ! 0) 0 (l_channels l ! 0) nxt
                    else CreateBit nm dt (ps ! 0) nLow nHigh nxt)))"

definition case_Summary :: "string \<Rightarrow> DataType_t \<Rightarrow> parameter list \<Rightarrow> limits \<Rightarrow> u32 \<Rightarrow> factory_result" where
  "case_Summary nm dt ps l nxt =
     (if length (l_channels l) \<noteq> 1 then refuse keBadResolutionCount dt keSummary nm nxt
      else if length ps < 1 then refuse keBadParameterCount dt keSummary nm nxt
      else with_limits (limit_of 0 l (ps ! 0)) (CreateSummary nm dt ps (l_channels l ! 0)) nxt)"

definition case_G1D :: "string \<Rightarrow> DataType_t \<Rightarrow> parameter list \<Rightarrow> limits \<Rightarrow> u32 \<Rightarrow> factory_result" where
  "case_G1D nm dt ps l = required (factory_Require keG1D ps (l_channels l) (length ps) 1) keG1D nm dt
     (with_limits (limit_of 0 l (ps ! 0)) (CreateG1D nm dt ps (l_channels l ! 0)))"

definition case_G2D :: "string \<Rightarrow> DataType_t \<Rightarrow> parameter list \<Rightarrow> limits \<Rightarrow> u32 \<Rightarrow> factory_result" where
  "case_G2D nm dt ps l = required (factory_Require keG2D ps (l_channels l) (length ps) 2) keG2D nm dt
     (with_limits (limit_of 0 l (ps ! 0)) (\<lambda>xlo xhi. with_limits (limit_of 1 l (ps ! 1)) (\<lambda>ylo yhi.
        CreateG2D nm dt ps (l_channels l ! 0) xlo xhi (l_channels l ! 1) ylo yhi)))"

text \<open>The numbers of channels and parameters are not checked beyond parity.\<close>

definition case_2Dm :: "string \<Rightarrow> DataType_t \<Rightarrow> parameter list \<Rightarrow> limits \<Rightarrow> u32 \<Rightarrow> factory_result" where
  "case_2Dm nm dt ps l nxt =
     (if odd (length ps) then refuse keBadParameterCount dt ke2Dm nm nxt
      else if length ps < 2 \<or> length (l_channels l) < 2 then (FactoryUndefined, nxt)
      else with_limits (limit_of 0 l (ps ! 0)) (\<lambda>xlo xhi. with_limits (limit_of 1 l (ps ! 1)) (\<lambda>ylo yhi.
        Create2DMultiple nm dt ps (l_channels l ! 0) xlo xhi (l_channels l ! 1) ylo yhi)) nxt)"

text \<open>A spectrum over a tree parameter vector: every failure is soft.\<close>

definition validate1DVec :: "factory_env \<Rightarrow> string \<Rightarrow> DataType_t \<Rightarrow> string list \<Rightarrow> limits \<Rightarrow> factory_exception + string \<times> string" where
  "validate1DVec env nm dt names l =
     (let bad = (\<lambda>r. Inl (SpectrumFactoryException r dt ke1DVec nm)) in
      if dt \<noteq> keLong \<and> dt \<noteq> keWord then bad keBadDataType
      else if length names \<noteq> 1 then bad keBadParameterCount
      else if length (l_channels l) \<noteq> 1 then bad keBadChannelCount
      else if l_lows l = None \<or> l_highs l = None then bad keBadTransformCount
      else if length (the (l_lows l)) \<noteq> 1 \<or> length (the (l_highs l)) \<noteq> 1 then bad keBadTransformCount
      else (case fe_vectors env (hd names) of
              Some units \<Rightarrow> Inr (hd names, units) | None \<Rightarrow> Inl (DictionaryException (hd names))))"

definition case_1DVec :: "factory_env \<Rightarrow> string \<Rightarrow> DataType_t \<Rightarrow> string list \<Rightarrow> limits \<Rightarrow> u32 \<Rightarrow> factory_result" where
  "case_1DVec env nm dt names l nxt = (case validate1DVec env nm dt names l of
      Inl e \<Rightarrow> (if fe_exceptions env then FactoryThrows e else NullSpectrum, nxt)
    | Inr (v, units) \<Rightarrow>
        (Made (new_1DVec nm nxt (if dt = keLong then keLong else keWord) v units (hd (l_channels l))
                 (hd (the (l_lows l))) (hd (the (l_highs l)))), nxt + 1))"

definition CreateSpectrum ::
  "factory_env \<Rightarrow> string \<Rightarrow> SpectrumType_t \<Rightarrow> DataType_t \<Rightarrow> string list \<Rightarrow> limits \<Rightarrow> u32 \<Rightarrow> factory_result" where
  "CreateSpectrum env nm t dt names l nxt =
     (if t = ke1DVec then case_1DVec env nm dt names l nxt
      else case ParameterArray env names of
        Inl key \<Rightarrow> (FactoryThrows (DictionaryException key), nxt)
      | Inr ps \<Rightarrow>
          (case t of
             ke1D \<Rightarrow> case_1D nm dt ps l nxt
           | keStrip \<Rightarrow> case_Strip nm dt ps l nxt
           | ke2D \<Rightarrow> case_2D nm dt ps l nxt
           | keBitmask \<Rightarrow> case_Bit nm dt ps l nxt
           | keSummary \<Rightarrow> case_Summary nm dt ps l nxt
           | keG1D \<Rightarrow> case_G1D nm dt ps l nxt
           | keG2D \<Rightarrow> case_G2D nm dt ps l nxt
           | ke2Dm \<Rightarrow> case_2Dm nm dt ps l nxt
           | _ \<Rightarrow> refuse keBadSpectrumType dt t nm nxt))"

subsection \<open>Creation with x and y parameters, and of strips of parameters\<close>

definition deluxe_limit :: "nat \<Rightarrow> rat list option \<Rightarrow> rat \<Rightarrow> rat" where
  "deluxe_limit k vs d = (case vs of Some xs \<Rightarrow> if k < length xs then xs ! k else d | None \<Rightarrow> d)"

definition case_G2DD ::
  "factory_env \<Rightarrow> string \<Rightarrow> DataType_t \<Rightarrow> parameter list \<Rightarrow> parameter list \<Rightarrow> u32 \<Rightarrow> u32
    \<Rightarrow> rat list option \<Rightarrow> rat list option \<Rightarrow> u32 \<Rightarrow> factory_result" where
  "case_G2DD env nm dt xs ys nx ny pLows pHighs nxt =
     (if xs = [] \<or> ys = [] then (FactoryUndefined, nxt)
      else (case (DefaultAxisLength nx (xs ! 0), DefaultAxisLength ny (ys ! 0)) of
              (Some dx, Some dy) \<Rightarrow>
                CreateG2dDeluxe env nm dt xs ys nx (deluxe_limit 0 pLows 0) (deluxe_limit 0 pHighs dx)
                  ny (deluxe_limit 1 pLows 0) (deluxe_limit 1 pHighs dy) nxt
            | _ \<Rightarrow> (FactoryUndefined, nxt)))"

definition CreateSpectrum_xy ::
  "factory_env \<Rightarrow> string \<Rightarrow> SpectrumType_t \<Rightarrow> DataType_t \<Rightarrow> string list \<Rightarrow> string list \<Rightarrow> u32 \<Rightarrow> u32
    \<Rightarrow> rat list option \<Rightarrow> rat list option \<Rightarrow> u32 \<Rightarrow> factory_result" where
  "CreateSpectrum_xy env nm t dt xns yns nx ny pLows pHighs nxt =
     (if t = ke2D then
        (if length xns = 1 \<and> length yns = 1
         then CreateSpectrum env nm t dt [hd xns, hd yns] \<lparr> l_channels = [nx, ny], l_lows = pLows, l_highs = pHighs \<rparr> nxt
         else fail_softly env keBadParameterCount dt t nm nxt)
      else if t = keG2DD then
        (case ParameterArray env xns of
           Inl key \<Rightarrow> (FactoryThrows (DictionaryException key), nxt)
         | Inr xs \<Rightarrow> (case ParameterArray env yns of
              Inl key \<Rightarrow> (FactoryThrows (DictionaryException key), nxt)
            | Inr ys \<Rightarrow> case_G2DD env nm dt xs ys nx ny pLows pHighs nxt))
      else fail_softly env keBadSpectrumType dt t nm nxt)"

fun parameter_strips :: "factory_env \<Rightarrow> string list list \<Rightarrow> string + parameter list list" where
  "parameter_strips env [] = Inr []"
| "parameter_strips env (ns # nss) = (case ParameterArray env ns of
      Inl key \<Rightarrow> Inl key
    | Inr ps \<Rightarrow> map_sum id ((#) ps) (parameter_strips env nss))"

definition strip_low :: "rat list option \<Rightarrow> rat option" where
  "strip_low pLows = (case pLows of None \<Rightarrow> Some 0 | Some [] \<Rightarrow> None | Some (x # _) \<Rightarrow> Some x)"

definition strip_high :: "u32 \<Rightarrow> parameter list list \<Rightarrow> rat list option \<Rightarrow> rat option" where
  "strip_high n pss pHighs = (case pHighs of
      Some [] \<Rightarrow> None | Some (x # _) \<Rightarrow> Some x
    | None \<Rightarrow> (case pss of (p # _) # _ \<Rightarrow> DefaultAxisLength n p | _ \<Rightarrow> None))"

definition CreateSpectrum_strips ::
  "factory_env \<Rightarrow> string \<Rightarrow> SpectrumType_t \<Rightarrow> DataType_t \<Rightarrow> string list list \<Rightarrow> limits \<Rightarrow> u32 \<Rightarrow> factory_result" where
  "CreateSpectrum_strips env nm t dt nss l nxt =
     (if t \<noteq> keGSummary then refuse keBadSpectrumType dt t nm nxt
      else case parameter_strips env nss of
        Inl key \<Rightarrow> (FactoryThrows (DictionaryException key), nxt)
      | Inr pss \<Rightarrow>
          (if l_channels l = [] then (FactoryUndefined, nxt)
           else case (strip_low (l_lows l), strip_high (hd (l_channels l)) pss (l_highs l)) of
             (Some lo, Some hi) \<Rightarrow> CreateGammaSummary env nm dt pss (hd (l_channels l)) lo hi nxt
           | _ \<Rightarrow> (FactoryUndefined, nxt)))"

end
