(* ===== verification/SpectrumCreation.thy ===== *)
theory SpectrumCreation
  imports SpectrumFactory
begin

text \<open>
  The API's operations that create spectra (src/main/Core/SpecTcl.cpp): each makes a factory,
  which throws, and marshals its arguments.  A created spectrum is not in the dictionary yet.
\<close>

definition api_factory :: "(string \<Rightarrow> string option) \<Rightarrow> api \<Rightarrow> factory_env" where
  "api_factory vs a = \<lparr> fe_api = a, fe_exceptions = True, fe_vectors = vs \<rparr>"

definition api_CreateSpectrum ::
  "(string \<Rightarrow> string option) \<Rightarrow> api \<Rightarrow> string \<Rightarrow> SpectrumType_t \<Rightarrow> DataType_t \<Rightarrow> string list \<Rightarrow> limits \<Rightarrow> u32 \<Rightarrow> factory_result" where
  "api_CreateSpectrum vs a nm t dt ps l nxt = CreateSpectrum (api_factory vs a) nm t dt ps l nxt"

definition api_CreateG2DDeluxe ::
  "(string \<Rightarrow> string option) \<Rightarrow> api \<Rightarrow> string \<Rightarrow> DataType_t \<Rightarrow> string list \<Rightarrow> string list \<Rightarrow> limits \<Rightarrow> u32 \<Rightarrow> factory_result" where
  "api_CreateG2DDeluxe vs a nm dt xs ys l nxt =
     (if length (l_channels l) \<noteq> 2 then refuse keBadResolutionCount dt keG2DD nm nxt
      else CreateSpectrum_xy (api_factory vs a) nm keG2DD dt xs ys (l_channels l ! 0) (l_channels l ! 1)
             (l_lows l) (l_highs l) nxt)"

definition api_CreateSpectrum_xy ::
  "(string \<Rightarrow> string option) \<Rightarrow> api \<Rightarrow> string \<Rightarrow> SpectrumType_t \<Rightarrow> DataType_t \<Rightarrow> string list \<Rightarrow> string list \<Rightarrow> limits
    \<Rightarrow> u32 \<Rightarrow> factory_result" where
  "api_CreateSpectrum_xy vs a nm t dt xs ys l nxt =
     (if t = keG2DD then api_CreateG2DDeluxe vs a nm dt xs ys l nxt
      else api_CreateSpectrum vs a nm t dt (xs @ ys) l nxt)"

definition api_CreateGammaSummary ::
  "(string \<Rightarrow> string option) \<Rightarrow> api \<Rightarrow> string \<Rightarrow> DataType_t \<Rightarrow> string list list \<Rightarrow> u32
    \<Rightarrow> rat list option \<Rightarrow> rat list option \<Rightarrow> u32 \<Rightarrow> factory_result" where
  "api_CreateGammaSummary vs a nm dt pss n lows highs nxt =
     CreateSpectrum_strips (api_factory vs a) nm keGSummary dt pss
       \<lparr> l_channels = [n], l_lows = lows, l_highs = highs \<rparr> nxt"

definition api_CreateSpectrum_strips ::
  "(string \<Rightarrow> string option) \<Rightarrow> api \<Rightarrow> string \<Rightarrow> SpectrumType_t \<Rightarrow> DataType_t \<Rightarrow> string list list \<Rightarrow> limits
    \<Rightarrow> u32 \<Rightarrow> factory_result" where
  "api_CreateSpectrum_strips vs a nm t dt pss l nxt =
     (if t = keGSummary
      then (case l_channels l of
              [] \<Rightarrow> (FactoryUndefined, nxt)
            | n # _ \<Rightarrow> api_CreateGammaSummary vs a nm dt pss n (l_lows l) (l_highs l) nxt)
      else api_CreateSpectrum vs a nm t dt (concat pss) l nxt)"

subsection \<open>By class\<close>

definition api_Create1D :: "string \<Rightarrow> DataType_t \<Rightarrow> parameter \<Rightarrow> u32 \<Rightarrow> (rat \<times> rat) option \<Rightarrow> u32 \<Rightarrow> factory_result" where
  "api_Create1D nm dt p n lm = (case lm of
      None \<Rightarrow> Create1D_default nm dt p n | Some (lo, hi) \<Rightarrow> Create1D nm dt p n lo hi)"

definition api_Create2D :: "string \<Rightarrow> DataType_t \<Rightarrow> parameter \<Rightarrow> parameter \<Rightarrow> u32 \<Rightarrow> u32 \<Rightarrow> u32 \<Rightarrow> factory_result" where
  "api_Create2D nm dt px py nx ny = Create2D_default nm dt px py nx ny"

definition api_Create2D_limits ::
  "string \<Rightarrow> DataType_t \<Rightarrow> parameter \<Rightarrow> parameter \<Rightarrow> u32 \<Rightarrow> rat \<Rightarrow> rat \<Rightarrow> u32 \<Rightarrow> rat \<Rightarrow> rat \<Rightarrow> u32 \<Rightarrow> factory_result" where
  "api_Create2D_limits nm dt px py nx xlo xhi ny ylo yhi = Create2D nm dt px py nx xlo xhi ny ylo yhi"

definition api_CreateG1D :: "string \<Rightarrow> DataType_t \<Rightarrow> parameter list \<Rightarrow> u32 \<Rightarrow> (rat \<times> rat) option \<Rightarrow> u32 \<Rightarrow> factory_result" where
  "api_CreateG1D nm dt ps n lm = (case lm of
      None \<Rightarrow> CreateG1D_default nm dt ps n | Some (lo, hi) \<Rightarrow> CreateG1D nm dt ps n lo hi)"

definition api_CreateG2D :: "string \<Rightarrow> DataType_t \<Rightarrow> parameter list \<Rightarrow> u32 \<Rightarrow> u32 \<Rightarrow> u32 \<Rightarrow> factory_result" where
  "api_CreateG2D nm dt ps nx ny = CreateG2D_default nm dt ps nx ny"

definition api_CreateG2D_limits ::
  "string \<Rightarrow> DataType_t \<Rightarrow> parameter list \<Rightarrow> u32 \<Rightarrow> rat \<Rightarrow> rat \<Rightarrow> u32 \<Rightarrow> rat \<Rightarrow> rat \<Rightarrow> u32 \<Rightarrow> factory_result" where
  "api_CreateG2D_limits nm dt ps nx xlo xhi ny ylo yhi = CreateG2D nm dt ps nx xlo xhi ny ylo yhi"

text \<open>With a low bit, the channels end one before the number asked for as well.\<close>

definition api_CreateBit :: "string \<Rightarrow> DataType_t \<Rightarrow> parameter \<Rightarrow> u32 \<Rightarrow> u32 option \<Rightarrow> u32 \<Rightarrow> factory_result" where
  "api_CreateBit nm dt p n low = (case low of
      None \<Rightarrow> CreateBit_default nm dt p n | Some b \<Rightarrow> CreateBit nm dt p b (b + n - 1))"

definition api_CreateSummary :: "string \<Rightarrow> DataType_t \<Rightarrow> parameter list \<Rightarrow> u32 \<Rightarrow> (rat \<times> rat) option \<Rightarrow> u32 \<Rightarrow> factory_result" where
  "api_CreateSummary nm dt ps n lm = (case lm of
      None \<Rightarrow> CreateSummary_default nm dt ps n | Some (lo, hi) \<Rightarrow> CreateSummary nm dt ps n lo hi)"

definition api_CreateGamma2DD ::
  "(string \<Rightarrow> string option) \<Rightarrow> api \<Rightarrow> string \<Rightarrow> DataType_t \<Rightarrow> parameter list \<Rightarrow> parameter list
    \<Rightarrow> u32 \<Rightarrow> rat \<Rightarrow> rat \<Rightarrow> u32 \<Rightarrow> rat \<Rightarrow> rat \<Rightarrow> u32 \<Rightarrow> factory_result" where
  "api_CreateGamma2DD vs a nm dt xs ys nx xlo xhi ny ylo yhi =
     CreateG2dDeluxe (api_factory vs a) nm dt xs ys nx xlo xhi ny ylo yhi"

fun alternate :: "'a list \<Rightarrow> 'a list \<Rightarrow> 'a list" where
  "alternate (x # xs) (y # ys) = x # y # alternate xs ys"
| "alternate _ _ = []"

definition api_Create2DSum ::
  "string \<Rightarrow> DataType_t \<Rightarrow> parameter list \<Rightarrow> parameter list \<Rightarrow> u32 \<Rightarrow> rat \<Rightarrow> rat \<Rightarrow> u32 \<Rightarrow> rat \<Rightarrow> rat \<Rightarrow> u32 \<Rightarrow> factory_result" where
  "api_Create2DSum nm dt xs ys nx xlo xhi ny ylo yhi nxt =
     (if length xs \<noteq> length ys
      then (FactoryThrows (ThrownString ''SpecTcl::Create2DSum - number of x/y parameters not equal''), nxt)
      else Create2DMultiple nm dt (alternate xs ys) nx xlo xhi ny ylo yhi nxt)"

definition api_CreateStripChart :: "string \<Rightarrow> DataType_t \<Rightarrow> parameter \<Rightarrow> parameter \<Rightarrow> u32 \<Rightarrow> rat \<Rightarrow> rat \<Rightarrow> u32 \<Rightarrow> factory_result" where
  "api_CreateStripChart nm dt counts time n lo hi = CreateStrip nm dt counts time n lo hi"

definition api_CreateM2Projection ::
  "(string \<Rightarrow> string option) \<Rightarrow> api \<Rightarrow> string \<Rightarrow> DataType_t \<Rightarrow> parameter list \<Rightarrow> string \<Rightarrow> bool \<Rightarrow> u32 \<Rightarrow> rat \<Rightarrow> rat
    \<Rightarrow> u32 \<Rightarrow> factory_result" where
  "api_CreateM2Projection vs a nm dt ps roi xproj n lo hi =
     CreateM2Projection_roi (api_factory vs a) nm dt ps roi xproj n lo hi"

definition api_CreateM2Projection_contours ::
  "(string \<Rightarrow> string option) \<Rightarrow> api \<Rightarrow> string \<Rightarrow> DataType_t \<Rightarrow> parameter list \<Rightarrow> string list \<Rightarrow> bool \<Rightarrow> u32 \<Rightarrow> rat \<Rightarrow> rat
    \<Rightarrow> u32 \<Rightarrow> factory_result" where
  "api_CreateM2Projection_contours vs a nm dt ps roi xproj n lo hi =
     CreateM2Projection_contours (api_factory vs a) nm dt ps roi xproj n lo hi"

definition api_Create1DVecSpectrum ::
  "(string \<Rightarrow> string option) \<Rightarrow> api \<Rightarrow> string \<Rightarrow> DataType_t \<Rightarrow> string \<Rightarrow> u32 \<Rightarrow> rat \<Rightarrow> rat \<Rightarrow> u32 \<Rightarrow> factory_result" where
  "api_Create1DVecSpectrum vs a nm dt v n lo hi =
     CreateSpectrum (api_factory vs a) nm ke1DVec dt [v] \<lparr> l_channels = [n], l_lows = Some [lo], l_highs = Some [hi] \<rparr>"

end
