(* ===== verification/SpectrumDefinitions.thy ===== *)
theory SpectrumDefinitions
  imports SpectrumCreation
begin

text \<open>
  What the spectrum factory makes: the definition of a created spectrum is the request with its
  limits filled in, a spectrum can be made again from its definition, requests are accepted
  exactly if they fit their type, and numbers are given out once.
\<close>

subsection \<open>When a creator succeeds\<close>

named_theorems factory_simps

lemma make_object_Made [factory_simps]:
  "make_object known t nm dt new nx = (Made s, nx') \<longleftrightarrow> dt \<in> set known \<and> new nx = Some s \<and> nx' = nx + 1"
  by (auto simp: make_object_def NextId_def refuse_def split: option.splits)

lemma with_limits_Made [factory_simps]:
  "with_limits lm f nxt = (Made s, nx') \<longleftrightarrow> (\<exists>lo hi. lm = Some (lo, hi) \<and> f lo hi nxt = (Made s, nx'))"
  by (auto simp: with_limits_def split: option.splits)

lemma required_Made [factory_simps]:
  "required r t nm dt f nxt = (Made s, nx') \<longleftrightarrow> r = None \<and> f nxt = (Made s, nx')"
  by (auto simp: required_def refuse_def split: option.splits)

lemma refuse_Made [factory_simps]: "refuse r dt t nm nx \<noteq> (Made s, nx')"
  by (simp add: refuse_def)

lemma reading_Some [factory_simps]: "reading n ps x = Some y \<longleftrightarrow> n \<le> length ps \<and> y = x"
  by (auto simp: reading_def)

lemma factory_Require_None [factory_simps]:
  "factory_Require t ps res n m = None \<longleftrightarrow>
    length ps = n \<and> length res = m \<and> (t = keG2D \<longrightarrow> 2 \<le> n) \<and> (t = keG1D \<longrightarrow> 1 \<le> n)"
  by (simp add: factory_Require_def) linarith

lemmas creator_defs = Create1D_def CreateStrip_def Create2D_def CreateG1D_def CreateG2D_def CreateBit_def
  CreateSummary_def Create2DMultiple_def

lemmas case_defs = case_1D_def case_Strip_def case_2D_def case_G1D_def case_G2D_def case_Summary_def case_2Dm_def

lemmas new_defs = new_1D_def new_Strip_def new_2D_def new_G1D_def new_G2D_def new_Summary_def new_2Dm_def

lemmas definition_defs = GetDefinition_def base_GetDefinition_def summary_GetDefinition_def
  object_parameters_def GetParameterIds_def gamma_ids_def

subsection \<open>The definition of a created spectrum\<close>

text \<open>The parameter an axis takes its default limits from.\<close>

definition axis_parameters :: "SpectrumType_t \<Rightarrow> parameter list \<Rightarrow> parameter list" where
  "axis_parameters t ps =
     (if t = keStrip then [ps ! 1] else if t \<in> {ke2D, keG2D, ke2Dm} then [ps ! 0, ps ! 1] else [ps ! 0])"

definition request_limits :: "SpectrumType_t \<Rightarrow> parameter list \<Rightarrow> limits \<Rightarrow> (rat \<times> rat) list option" where
  "request_limits t ps l = those (map (\<lambda>(k, p). limit_of k l p) (enumerate 0 (axis_parameters t ps)))"

definition request_definition ::
  "string \<Rightarrow> u32 \<Rightarrow> SpectrumType_t \<Rightarrow> DataType_t \<Rightarrow> parameter list \<Rightarrow> u32 list \<Rightarrow> (rat \<times> rat) list \<Rightarrow> SpectrumDefinition" where
  "request_definition nm i t dt ps chs lms =
     \<lparr> sd_name = nm, sd_nId = i, sd_eType = t, sd_eDataType = dt, sd_vParameters = map pa_number ps,
       sd_vyParameters = [], sd_nChannels = chs, sd_fLows = map fst lms, sd_fHighs = map snd lms \<rparr>"

abbreviation plain_types :: "SpectrumType_t set" where
  "plain_types \<equiv> {ke1D, keStrip, ke2D, keSummary, keG1D, keG2D, ke2Dm}"

lemma length_1_nth: "length xs = Suc 0 \<Longrightarrow> [f (xs ! 0)] = map f xs" "length ys = Suc 0 \<Longrightarrow> [ys ! 0] = ys"
  by (cases xs; auto) (cases ys; auto)

lemma length_2_nth:
  "length xs = 2 \<Longrightarrow> [f (xs ! 0), f (xs ! Suc 0)] = map f xs" "length ys = 2 \<Longrightarrow> [ys ! 0, ys ! Suc 0] = ys"
  by (cases xs; cases "tl xs"; auto) (cases ys; cases "tl ys"; auto)

lemma take_2_nth: "2 \<le> length xs \<Longrightarrow> take (Suc (Suc 0)) xs = [xs ! 0, xs ! Suc 0]"
  by (cases xs; cases "tl xs") auto

definition storage_types :: "SpectrumType_t \<Rightarrow> DataType_t set" where
  "storage_types t =
     (if t = keStrip then {keLong} else if t \<in> {ke1D, keG1D, keBitmask} then {keWord, keLong}
      else {keByte, keWord, keLong})"

definition parameters_fit :: "SpectrumType_t \<Rightarrow> nat \<Rightarrow> bool" where
  "parameters_fit t n \<longleftrightarrow>
     (if t \<in> {ke1D, keBitmask} then n = 1 else if t \<in> {keStrip, ke2D} then n = 2
      else if t \<in> {keSummary, keG1D} then 1 \<le> n else 2 \<le> n \<and> (t = ke2Dm \<longrightarrow> even n))"

definition channels_fit :: "SpectrumType_t \<Rightarrow> nat \<Rightarrow> bool" where
  "channels_fit t n \<longleftrightarrow> (if t = ke2Dm then 2 \<le> n else n = (if t \<in> {ke2D, keG2D} then 2 else 1))"

definition fits :: "SpectrumType_t \<Rightarrow> DataType_t \<Rightarrow> parameter list \<Rightarrow> u32 list \<Rightarrow> bool" where
  "fits t dt ps chs \<longleftrightarrow>
     dt \<in> storage_types t \<and> parameters_fit t (length ps) \<and> channels_fit t (length chs)"

lemmas fits_defs = fits_def storage_types_def parameters_fit_def channels_fit_def

definition request_object ::
  "string \<Rightarrow> u32 \<Rightarrow> SpectrumType_t \<Rightarrow> DataType_t \<Rightarrow> parameter list \<Rightarrow> u32 list \<Rightarrow> (rat \<times> rat) list \<Rightarrow> spectrum_object" where
  "request_object nm i t dt ps chs lms =
     (let n = chs ! 0; m = chs ! 1; (lo, hi) = lms ! 0; (ylo, yhi) = lms ! 1 in
      (case t of
         keStrip \<Rightarrow> new_Strip nm i (ps ! 1) (ps ! 0) n lo hi
       | ke2D \<Rightarrow> new_2D nm i dt (ps ! 0) (ps ! 1) n lo hi m ylo yhi
       | keSummary \<Rightarrow> new_Summary nm i dt ps n lo hi
       | keG1D \<Rightarrow> new_G1D nm i dt ps n lo hi
       | keG2D \<Rightarrow> new_G2D nm i dt ps n m lo hi ylo yhi
       | ke2Dm \<Rightarrow> new_2Dm nm i dt ps n m lo hi ylo yhi
       | _ \<Rightarrow> new_1D ke1D nm i dt (ps ! 0) n lo hi))"

lemma those_Some: "those xs = Some ys \<longleftrightarrow> xs = map Some ys"
  by (induction xs arbitrary: ys) (auto split: option.splits simp: Cons_eq_map_conv)

lemma CreateSpectrum_Made:
  assumes "t \<in> plain_types" "ParameterArray env names = Inr ps"
  shows "CreateSpectrum env nm t dt names l nxt = (Made s, nxt') \<longleftrightarrow>
     fits t dt ps (l_channels l)
     \<and> (\<exists>lms. request_limits t ps l = Some lms \<and> s = request_object nm nxt t dt ps (l_channels l) lms)
     \<and> nxt' = nxt + 1"
proof -
  have even_pos: "even n \<Longrightarrow> \<not> n < 2 \<longleftrightarrow> 2 \<le> n" for n :: nat by auto
  show ?thesis using assms
    by (elim insertE emptyE; simp add: CreateSpectrum_def factory_simps creator_defs case_defs fits_defs
          request_limits_def axis_parameters_def request_object_def; (auto split: option.splits prod.splits)?)
qed

lemma length_axis_parameters: "length (axis_parameters t ps) = (if t \<in> {ke2D, keG2D, ke2Dm} then 2 else 1)"
  by (simp add: axis_parameters_def)

lemma request_object_definition:
  assumes "t \<in> plain_types" "fits t dt ps chs" "length lms = length (axis_parameters t ps)"
  shows "GetDefinition created (request_object nm i t dt ps chs lms) =
     Some (request_definition nm i t dt ps (take (length (axis_parameters t ps)) chs) lms)"
proof -
  have two: "t \<in> {ke2D, keG2D, ke2Dm} \<Longrightarrow> \<not> length chs < 2"
    using assms(2) by (auto simp: fits_def channels_fit_def)
  have lms: "lms = (if t \<in> {ke2D, keG2D, ke2Dm} then [lms ! 0, lms ! 1] else [lms ! 0])"
    using assms(3) by (auto simp: length_axis_parameters length_1_nth length_2_nth split: if_splits)
  show ?thesis
    using assms(1,2) two
    by (elim insertE emptyE; subst (2) lms; simp add: fits_defs request_object_def new_defs definition_defs
        request_definition_def axis_parameters_def length_1_nth length_2_nth take_2_nth split: prod.splits)
qed

lemma limit_again:
  assumes "axis_limits k pl ph n p = Some (lo, hi)" "k < length los" "k < length his" "los ! k = lo" "his ! k = hi"
  shows "axis_limits k (Some los) (Some his) n p = Some (lo, hi)"
  using assms by (auto simp: axis_limits_def split: option.splits if_splits)

text \<open>The request that asks for what a definition says.\<close>

definition definition_limits :: "SpectrumDefinition \<Rightarrow> limits" where
  "definition_limits d =
     \<lparr> l_channels = sd_nChannels d, l_lows = Some (sd_fLows d), l_highs = Some (sd_fHighs d) \<rparr>"

lemma request_limits_again:
  assumes "request_limits t ps l = Some lms" "t \<in> plain_types"
  shows "request_limits t ps \<lparr> l_channels = take (length (axis_parameters t ps)) (l_channels l),
           l_lows = Some (map fst lms), l_highs = Some (map snd lms) \<rparr> = Some lms"
  using assms
  by (auto simp: request_limits_def axis_parameters_def limit_of_def those_Some Cons_eq_map_conv map_eq_Cons_conv
      intro!: limit_again split: if_splits)

lemma fits_take: "fits t dt ps chs \<Longrightarrow> fits t dt ps (take (length (axis_parameters t ps)) chs)"
  by (auto simp: fits_def channels_fit_def length_axis_parameters split: if_splits)

lemma request_limits_length: "request_limits t ps l = Some lms \<Longrightarrow> length lms = length (axis_parameters t ps)"
  by (metis request_limits_def those_Some length_map length_enumerate)

lemma CreateSpectrum_parameters:
  "t \<noteq> ke1DVec \<Longrightarrow> CreateSpectrum env nm t dt names l nxt = (Made s, nxt') \<Longrightarrow> \<exists>ps. ParameterArray env names = Inr ps"
  by (auto simp: CreateSpectrum_def split: sum.splits)

text \<open>
  C27. For the plain types (1-d, strip chart, 2-d, summary, gamma 1-d, gamma 2-d and multiple 2-d
  spectra) the definition of a created spectrum is the request: the numbers of the parameters in
  the order of their names, one channel count for each axis, and the limits of each axis, those
  asked for or the defaults of its parameter; its number is the next one.  It is not so for the
  other types the factory makes: a bit spectrum's definition has one channel fewer than was asked
  for, that of a gamma summary begins with the number of its strips plus two, a gamma deluxe
  spectrum keeps its parameters in two lists and a vector spectrum is asked for by a vector's name.
\<close>

theorem created_definition:
  assumes "CreateSpectrum env nm t dt names l nxt = (Made s, nxt')" "t \<in> plain_types"
  shows "\<exists>ps lms. ParameterArray env names = Inr ps \<and> request_limits t ps l = Some lms
     \<and> GetDefinition created s =
         Some (request_definition nm nxt t dt ps (take (length (axis_parameters t ps)) (l_channels l)) lms)
     \<and> nxt' = nxt + 1"
proof -
  from assms obtain ps where ps: "ParameterArray env names = Inr ps"
    using CreateSpectrum_parameters [OF _ assms(1)] by auto
  from assms(1) obtain lms where "fits t dt ps (l_channels l)" "request_limits t ps l = Some lms"
      "s = request_object nm nxt t dt ps (l_channels l) lms" "nxt' = nxt + 1"
    by (auto simp: CreateSpectrum_Made [OF assms(2) ps])
  with ps show ?thesis
    using request_object_definition [OF assms(2), of dt ps "l_channels l" lms created nm nxt] request_limits_length
    by auto
qed

text \<open>
  C28. A spectrum of a plain type (1-d, strip chart, 2-d, summary, gamma 1-d, gamma 2-d or
  multiple 2-d) can be made again from its definition: the factory, asked for what the definition
  says and the same parameter names, makes a spectrum with the same definition but for the name and
  the number.  Other types are left out: bit spectra lose a channel each time, the channels of a gamma
  summary's definition begin with its strips plus two, and the factory refuses projections.
\<close>

theorem spectrum_made_again:
  assumes "CreateSpectrum env nm t dt names l nxt = (Made s, nxt')" "t \<in> plain_types"
    and "GetDefinition created s = Some d"
  shows "\<exists>s'. CreateSpectrum env nm' (sd_eType d) (sd_eDataType d) names (definition_limits d) nx = (Made s', nx + 1)
     \<and> GetDefinition created s' = Some (d\<lparr> sd_name := nm', sd_nId := nx \<rparr>)"
proof -
  from assms obtain ps where ps: "ParameterArray env names = Inr ps"
    using CreateSpectrum_parameters [OF _ assms(1)] by auto
  let ?chs = "take (length (axis_parameters t ps)) (l_channels l)"
  from assms(1) obtain lms where f: "fits t dt ps (l_channels l)" and lms: "request_limits t ps l = Some lms"
      and s: "s = request_object nm nxt t dt ps (l_channels l) lms"
    by (auto simp: CreateSpectrum_Made [OF assms(2) ps])
  have d: "d = request_definition nm nxt t dt ps ?chs lms"
    using assms(3) request_object_definition [OF assms(2) f request_limits_length [OF lms]] by (simp add: s)
  have again: "CreateSpectrum env nm' t dt names (definition_limits d) nx
      = (Made (request_object nm' nx t dt ps ?chs lms), nx + 1)"
    using fits_take [OF f] request_limits_again [OF lms assms(2)]
    by (simp add: CreateSpectrum_Made [OF assms(2) ps] d request_definition_def definition_limits_def)
  have "GetDefinition created (request_object nm' nx t dt ps ?chs lms) = Some (d\<lparr> sd_name := nm', sd_nId := nx \<rparr>)"
    using request_object_definition [OF assms(2) fits_take [OF f] request_limits_length [OF lms]]
    by (simp add: d request_definition_def)
  with again show ?thesis by (auto simp: d request_definition_def)
qed

subsection \<open>Requests that are refused\<close>

lemma ParameterArray_found:
  assumes "\<forall>n \<in> set names. api_FindParameter n (fe_api env) \<noteq> None"
  shows "ParameterArray env names = Inr (map (\<lambda>n. the (api_FindParameter n (fe_api env))) names)"
  using assms by (induction names) auto

lemma ParameterArray_missing:
  assumes "fe_exceptions env" "\<exists>n \<in> set names. api_FindParameter n (fe_api env) = None"
  shows "\<exists>n \<in> set names. api_FindParameter n (fe_api env) = None \<and> ParameterArray env names = Inl n"
  using assms by (induction names) (fastforce split: option.splits)+

text \<open>Limits that the code can read, and scales that it can shift by.\<close>

definition limits_given :: "SpectrumType_t \<Rightarrow> limits \<Rightarrow> bool" where
  "limits_given t l \<longleftrightarrow> (let n = (if t \<in> {ke2D, keG2D, ke2Dm} then 2 else 1) in
     (case l_lows l of
        None \<Rightarrow> True
      | Some los \<Rightarrow> n \<le> length los \<and> (case l_highs l of Some his \<Rightarrow> n \<le> length his | None \<Rightarrow> False)))"

definition scale_ok :: "parameter \<Rightarrow> bool" where
  "scale_ok p \<longleftrightarrow> (pa_scaled p \<longrightarrow> pa_scale p < 32)"

lemma DefaultAxisLength_ok: "scale_ok p \<Longrightarrow> \<exists>x. DefaultAxisLength n p = Some x"
proof -
  assume *: "scale_ok p"
  have "x < 31 \<or> x = 31" if "x < 32" for x :: u32
  proof -
    from that have "unat x < 32" by (simp add: word_less_nat_alt)
    then have "unat x < 31 \<or> unat x = 31" by linarith
    then show ?thesis by (auto simp: word_less_nat_alt word_unat_eq_iff)
  qed
  from this [of "pa_scale p"] * show ?thesis by (auto simp: scale_ok_def DefaultAxisLength_def shifted_one_def)
qed

lemma limit_of_ok:
  assumes "scale_ok p" "case l_lows l of None \<Rightarrow> True
      | Some los \<Rightarrow> k < length los \<and> (case l_highs l of Some his \<Rightarrow> k < length his | None \<Rightarrow> False)"
  shows "\<exists>lo hi. limit_of k l p = Some (lo, hi)"
proof -
  obtain x where "DefaultAxisLength (l_channels l ! k) p = Some x" using DefaultAxisLength_ok [OF assms(1)] by blast
  with assms(2) show ?thesis by (auto simp: limit_of_def axis_limits_def split: option.splits)
qed

lemma request_limits_ok:
  assumes "t \<in> plain_types" "limits_given t l" "parameters_fit t (length ps)" "\<forall>p \<in> set ps. scale_ok p"
  shows "\<exists>lms. request_limits t ps l = Some lms"
proof -
  have 1: "\<exists>lo hi. limit_of k l (ps ! i) = Some (lo, hi)"
    if "k < (if t \<in> {ke2D, keG2D, ke2Dm} then 2 else 1)" "i < length ps" for k i
    using assms(2,4) that by (intro limit_of_ok) (auto simp: limits_given_def split: option.splits if_splits)
  have len: "axis_parameters t ps = [ps ! (if t = keStrip then 1 else 0)]
      \<or> t \<in> {ke2D, keG2D, ke2Dm} \<and> axis_parameters t ps = [ps ! 0, ps ! 1] \<and> 1 < length ps"
    using assms(1,3) by (auto simp: axis_parameters_def parameters_fit_def)
  have one: "(if t = keStrip then 1 else 0) < length ps"
    using assms(1,3) by (auto simp: parameters_fit_def split: if_splits)
  from len show ?thesis
  proof
    assume "axis_parameters t ps = [ps ! (if t = keStrip then 1 else 0)]"
    moreover obtain a b where "limit_of 0 l (ps ! (if t = keStrip then 1 else 0)) = Some (a, b)"
      using 1 [of 0, OF _ one] by (cases "t \<in> {ke2D, keG2D, ke2Dm}") auto
    ultimately show ?thesis by (simp add: request_limits_def)
  next
    assume *: "t \<in> {ke2D, keG2D, ke2Dm} \<and> axis_parameters t ps = [ps ! 0, ps ! 1] \<and> 1 < length ps"
    then obtain a b c d where "limit_of 0 l (ps ! 0) = Some (a, b)" "limit_of 1 l (ps ! 1) = Some (c, d)"
      using 1 [of 0 0] 1 [of 1 1] by (cases "ps = []") auto
    with * show ?thesis by (simp add: request_limits_def)
  qed
qed

lemma make_object_end:
  "make_object known t nm dt new nxt = (r, nxt') \<Longrightarrow>
   (\<exists>s. r = Made s \<and> new nxt = Some s \<and> nxt' = nxt + 1) \<or> (\<exists>e. r = FactoryThrows e \<and> nxt' = nxt)
   \<or> r = FactoryUndefined \<and> new nxt = None"
  by (auto simp: make_object_def refuse_def NextId_def split: if_splits option.splits)

lemma CreateSpectrum_refuses:
  assumes "t \<in> plain_types" "ParameterArray env names = Inr ps" "\<not> fits t dt ps (l_channels l)"
    and "limits_given t l" "\<forall>p \<in> set ps. scale_ok p"
    and "t = ke2Dm \<Longrightarrow> 2 \<le> length ps \<and> 2 \<le> length (l_channels l)"
  shows "\<exists>e. CreateSpectrum env nm t dt names l nxt = (FactoryThrows e, nxt)"
proof (cases "parameters_fit t (length ps) \<and> channels_fit t (length (l_channels l))")
  case False
  with assms(1,2,6) show ?thesis
    by (auto simp: CreateSpectrum_def case_defs fits_defs required_def factory_Require_def refuse_def Suc_le_eq split: option.splits)
next
  case True
  then obtain lms where "request_limits t ps l = Some lms"
    using request_limits_ok [OF assms(1,4) _ assms(5)] by blast
  with True assms(1-3) show ?thesis
    by (auto simp: CreateSpectrum_def case_defs creator_defs fits_defs required_def factory_Require_def refuse_def
        request_limits_def those_Some Cons_eq_map_conv axis_parameters_def with_limits_def make_object_def)
qed

text \<open>
  C29. With exceptions on, a request for a plain type either makes a spectrum, which it does
  exactly if every name is a parameter and the channel type and the numbers of parameters and of
  channels fit the type, or throws and uses up no number.  (Limits given must be as many as
  axes, and a 2-d multiple spectrum must get two channel counts: that the code does not check.)
\<close>

theorem factory_outcome:
  assumes "fe_exceptions env" "t \<in> plain_types" "limits_given t l"
    and "\<forall>n \<in> set names. \<forall>p. api_FindParameter n (fe_api env) = Some p \<longrightarrow> scale_ok p"
    and "t = ke2Dm \<Longrightarrow> 2 \<le> length names \<and> 2 \<le> length (l_channels l)"
  shows "if (\<forall>n \<in> set names. api_FindParameter n (fe_api env) \<noteq> None)
      \<and> fits t dt (map (\<lambda>n. the (api_FindParameter n (fe_api env))) names) (l_channels l)
    then \<exists>s. CreateSpectrum env nm t dt names l nxt = (Made s, nxt + 1)
    else \<exists>e. CreateSpectrum env nm t dt names l nxt = (FactoryThrows e, nxt)"
proof (cases "\<forall>n \<in> set names. api_FindParameter n (fe_api env) \<noteq> None")
  case True
  let ?ps = "map (\<lambda>n. the (api_FindParameter n (fe_api env))) names"
  have ps: "ParameterArray env names = Inr ?ps" by (rule ParameterArray_found) (use True in blast)
  have sc: "\<forall>p \<in> set ?ps. scale_ok p" using True assms(4) by auto
  show ?thesis
  proof (cases "fits t dt ?ps (l_channels l)")
    case fit: True
    then obtain lms where "request_limits t ?ps l = Some lms"
      using request_limits_ok [OF assms(2,3) _ sc] by (auto simp: fits_def)
    with fit True show ?thesis using CreateSpectrum_Made [OF assms(2) ps] by auto
  next
    case False
    then show ?thesis using CreateSpectrum_refuses [OF assms(2) ps False assms(3) sc] assms(5) by auto
  qed
next
  case False
  then obtain n where "ParameterArray env names = Inl n" using ParameterArray_missing [OF assms(1), of names] by auto
  with False assms(2) show ?thesis by (auto simp: CreateSpectrum_def)
qed

subsection \<open>Numbers\<close>

text \<open>The operations of the factory, each from the next number to its end and the next number after it.\<close>

inductive factory_call :: "factory_env \<Rightarrow> u32 \<Rightarrow> factory_end \<Rightarrow> u32 \<Rightarrow> bool" for env where
  by_type: "CreateSpectrum env nm t dt names l nxt = (r, nxt') \<Longrightarrow> factory_call env nxt r nxt'"
| by_axes: "CreateSpectrum_xy env nm t dt xs ys nx ny lows highs nxt = (r, nxt') \<Longrightarrow> factory_call env nxt r nxt'"
| by_strips: "CreateSpectrum_strips env nm t dt nss l nxt = (r, nxt') \<Longrightarrow> factory_call env nxt r nxt'"
| by_roi: "CreateM2Projection_roi env nm dt ps roi x n lo hi nxt = (r, nxt') \<Longrightarrow> factory_call env nxt r nxt'"
| by_contours: "CreateM2Projection_contours env nm dt ps gs x n lo hi nxt = (r, nxt') \<Longrightarrow> factory_call env nxt r nxt'"

definition numbered :: "u32 \<Rightarrow> factory_end \<times> u32 \<Rightarrow> bool" where
  "numbered nxt r \<longleftrightarrow> (case fst r of Made s \<Rightarrow> so_number s = nxt \<and> snd r = nxt + 1 | _ \<Rightarrow> snd r \<in> {nxt, nxt + 1})"

lemma numbered_simps [simp]:
  "numbered nxt (Made s, nxt') \<longleftrightarrow> so_number s = nxt \<and> nxt' = nxt + 1"
  "numbered nxt (FactoryThrows e, nxt') \<longleftrightarrow> nxt' = nxt \<or> nxt' = nxt + 1"
  "numbered nxt (NullSpectrum, nxt') \<longleftrightarrow> nxt' = nxt \<or> nxt' = nxt + 1"
  "numbered nxt (FactoryUndefined, nxt') \<longleftrightarrow> nxt' = nxt \<or> nxt' = nxt + 1"
  by (auto simp: numbered_def)

lemma numbered_fail_softly [simp]:
  "numbered nxt (fail_softly env e dt t nm nx) \<longleftrightarrow> nx = nxt \<or> nx = nxt + 1"
  by (simp add: fail_softly_def refuse_def)

lemma numbered_refuse [simp]: "numbered nxt (refuse e dt t nm nx) \<longleftrightarrow> nx = nxt \<or> nx = nxt + 1"
  by (simp add: refuse_def)

lemma numbered_make [intro]:
  "(\<And>i s. new i = Some s \<Longrightarrow> so_number s = i) \<Longrightarrow> numbered nxt (make_object known t nm dt new nxt)"
  by (auto simp: make_object_def NextId_def split: option.splits)

lemma numbered_required [intro]: "numbered nxt (f nxt) \<Longrightarrow> numbered nxt (required e t nm dt f nxt)"
  by (simp add: required_def split: option.splits)

lemma numbered_with_limits [intro]:
  "(\<And>lo hi. numbered nxt (f lo hi nxt)) \<Longrightarrow> numbered nxt (with_limits lm f nxt)"
  by (simp add: with_limits_def split: option.splits prod.splits)

lemma numbered_creators [intro]:
  "numbered nxt (Create1D nm dt p n lo hi nxt)" "numbered nxt (CreateStrip nm dt p q n lo hi nxt)"
  "numbered nxt (Create2D nm dt p q n lo hi m ylo yhi nxt)" "numbered nxt (CreateBit nm dt p b c nxt)"
  "numbered nxt (CreateSummary nm dt ps n lo hi nxt)" "numbered nxt (CreateG1D nm dt ps n lo hi nxt)"
  "numbered nxt (CreateG2D nm dt ps n lo hi m ylo yhi nxt)"
  "numbered nxt (Create2DMultiple nm dt ps n lo hi m ylo yhi nxt)"
  "numbered nxt (CreateG2dDeluxe env nm dt ps qs n lo hi m ylo yhi nxt)"
  by (auto simp: creator_defs CreateG2dDeluxe_def new_defs new_Bit_def new_G2DD_def reading_def
      split: if_splits intro!: numbered_make)

lemma numbered_CreateSpectrum: "numbered nxt (CreateSpectrum env nm t dt names l nxt)"
proof -
  have "numbered nxt (case_1DVec env nm dt names l nxt)"
    by (auto simp: case_1DVec_def new_1DVec_def split: sum.splits)
  moreover have "numbered nxt (case_Bit nm dt ps l nxt)" for ps
    by (auto simp: case_Bit_def CreateBit_default_def Let_def split: option.splits intro!: numbered_required)
  ultimately show ?thesis
    by (auto simp: CreateSpectrum_def case_defs split: sum.splits SpectrumType_t.splits
        intro!: numbered_required numbered_with_limits)
qed

lemma numbered_xy: "numbered nxt (CreateSpectrum_xy env nm t dt xs ys nx ny lows highs nxt)"
  by (auto simp: CreateSpectrum_xy_def case_G2DD_def numbered_CreateSpectrum split: sum.splits option.splits)

lemma numbered_strips: "numbered nxt (CreateSpectrum_strips env nm t dt nss l nxt)"
  by (auto simp: CreateSpectrum_strips_def CreateGammaSummary_def NextId_def new_GammaSummary_def
      split: sum.splits option.splits if_splits)

lemma numbered_projection: "numbered nxt (construct_projection env nm dt xs ys gs x n lo hi units nxt)"
  by (auto simp: construct_projection_def NextId_def new_M2Projection_def split: option.splits if_splits)

lemma numbered_roi: "numbered nxt (CreateM2Projection_roi env nm dt ps roi x n lo hi nxt)"
  by (auto simp: CreateM2Projection_roi_def numbered_projection split: option.splits gate_body.splits)

lemma numbered_contours: "numbered nxt (CreateM2Projection_contours env nm dt ps gs x n lo hi nxt)"
  by (auto simp: CreateM2Projection_contours_def numbered_projection split: option.splits)

lemma factory_call_numbered: "factory_call env nxt r nxt' \<Longrightarrow> numbered nxt (r, nxt')"
  by (induction rule: factory_call.induct)
    (metis numbered_CreateSpectrum numbered_xy numbered_strips numbered_roi numbered_contours)+

text \<open>The spectra made by a number of calls, in order, from a program's start.\<close>

inductive factory_run :: "nat \<Rightarrow> spectrum_object list \<Rightarrow> u32 \<Rightarrow> bool" where
  start: "factory_run 0 [] 0"
| call: "factory_run k made nxt \<Longrightarrow> factory_call env nxt r nxt'
    \<Longrightarrow> factory_run (Suc k) (case r of Made s \<Rightarrow> made @ [s] | _ \<Rightarrow> made) nxt'"

lemma factory_run_numbers:
  "factory_run k made nxt \<Longrightarrow> k \<le> 2 ^ 32 \<Longrightarrow>
     (\<exists>m \<le> k. nxt = of_nat m \<and> (\<forall>s \<in> set made. unat (so_number s) < m)) \<and> distinct (map so_number made)"
proof (induction rule: factory_run.induct)
  case start
  then show ?case by auto
next
  case (call k made nxt env r nxt')
  then obtain m where m: "m \<le> k" "nxt = of_nat m" "\<forall>s \<in> set made. unat (so_number s) < m"
    and d: "distinct (map so_number made)" by auto
  have u: "unat nxt = m" using m(1,2) call.prems by (simp add: unat_of_nat)
  have n: "numbered nxt (r, nxt')" by (rule factory_call_numbered) (rule call)
  have new: "nxt \<notin> so_number ` set made" using m(3) u by auto
  have "nxt' = of_nat m \<or> nxt' = of_nat (Suc m)" using n m(2) by (cases r) auto
  then have old: "\<exists>m' \<le> Suc k. nxt' = of_nat m' \<and> (\<forall>s \<in> set made. unat (so_number s) < m')"
  proof
    assume "nxt' = of_nat m" with m(1,3) show ?thesis by (intro exI [of _ m]) auto
  next
    assume "nxt' = of_nat (Suc m)" with m(1,3) show ?thesis by (intro exI [of _ "Suc m"]) auto
  qed
  show ?case
  proof (cases r)
    case (Made s)
    with n have "so_number s = nxt" "nxt' = of_nat (Suc m)" by (auto simp: m(2))
    with Made m u d new show ?thesis by (auto intro!: exI [of _ "Suc m"])
  qed (use old d in simp_all)
qed

text \<open>
  C30. No two spectra made in the first 2^32 calls of the factory have the same number, whatever
  is asked for, in whichever mode, and whether the other calls succeed.
\<close>

theorem spectrum_numbers_distinct:
  assumes "factory_run k made nxt" "k \<le> 2 ^ 32"
  shows "distinct (map so_number made)"
  using factory_run_numbers [OF assms] by blast

subsection \<open>Bit spectra\<close>

lemma float_of_small:
  assumes "unat n < 2 ^ 24" shows "float_of n = of_nat (unat n)"
proof -
  have "int (unat n) < int (2 ^ 24)" using assms by (simp only: of_nat_less_iff)
  then have "\<bar>int (unat n)\<bar> < 2 ^ 24" by (simp only: abs_of_nat of_nat_power of_nat_numeral)
  from f32_of_int [OF this] show ?thesis by (simp only: float_of_def of_int_of_nat_eq)
qed

lemma to_u32_of_nat: "to_u32 (of_nat k) = of_nat k"
  by (simp add: to_u32_def)

lemma to_u32_float_of: "unat n < 2 ^ 24 \<Longrightarrow> to_u32 (float_of n) = n"
  by (simp only: float_of_small to_u32_of_nat) simp

text \<open>What the channels of a created bit spectrum are.\<close>

definition bit_axis :: "spectrum_object \<Rightarrow> (u32 \<times> rat \<times> rat) option" where
  "bit_axis s = (case so_axes s of [a] \<Rightarrow> Some (ax_channels a - 2, ax_low a, ax_high a) | _ \<Rightarrow> None)"

text \<open>
  C31. A bit spectrum asked for with n channels (more than one, fewer than 2^24) gets an axis
  of n - 1 channels from 0 to n - 1, in the types of channel it takes and both without
  limits and with the limits 0 and n - 1 of its first and last bit, which the comment in the
  factory calls inclusive.
\<close>

theorem bit_spectrum_one_short:
  assumes "api_FindParameter p (fe_api env) \<noteq> None" "dt \<in> {keWord, keLong}" "1 < n" "unat n < 2 ^ 24"
    and "lows = None \<and> highs = None \<or> lows = Some [0] \<and> highs = Some [float_of (n - 1)]"
  shows "\<exists>s. fst (CreateSpectrum env nm keBitmask dt [p] \<lparr> l_channels = [n], l_lows = lows, l_highs = highs \<rparr> nxt) = Made s
     \<and> bit_axis s = Some (n - 1, 0, of_nat (unat n) - 1)"
proof -
  obtain q where q: "api_FindParameter p (fe_api env) = Some q" using assms(1) by auto
  have "unat (n - 1) = unat n - 1" using assms(3) unat_sub [of 1 n] by (simp add: word_le_nat_alt word_less_nat_alt)
  moreover have "1 < unat n" using assms(3) by (simp add: word_less_nat_alt)
  ultimately have f: "float_of (n - 1) = of_nat (unat n) - 1" "n - 1 \<noteq> 0" and small: "unat (n - 1) < 2 ^ 24"
    using assms(4) by (auto simp: float_of_small of_nat_diff)
  note f = f to_u32_float_of [OF small]
  have z: "to_u32 0 = 0" "float_of 0 = 0" by (simp_all add: to_u32_def float_of_small)
  show ?thesis using assms(2,5) f z
    by (auto simp: CreateSpectrum_def q case_Bit_def required_def factory_Require_def CreateBit_default_def CreateBit_def
        make_object_def NextId_def new_Bit_def new_1D_def bit_axis_def Let_def)
qed

subsection \<open>Concrete requests\<close>

definition demo_parameter :: "string \<Rightarrow> u32 \<Rightarrow> parameter" where
  "demo_parameter nm n = \<lparr> pa_name = nm, pa_number = n, pa_scale = 0, pa_low = 0, pa_high = 0,
     pa_units = ''mm'', pa_scaled = False \<rparr>"

definition demo_factory :: factory_env where
  "demo_factory = \<lparr> fe_api = new_api\<lparr> api_hist := (api_hist new_api)\<lparr> h_params :=
       \<lparr> d_map = [(''a'', demo_parameter ''a'' 7), (''b'', demo_parameter ''b'' 9)], d_obs = [] \<rparr> \<rparr> \<rparr>,
     fe_exceptions = True, fe_vectors = (\<lambda>_. None) \<rparr>"

lemma demo_factory_find:
  "api_FindParameter ''a'' (fe_api demo_factory) = Some (demo_parameter ''a'' 7)"
  "api_FindParameter ''b'' (fe_api demo_factory) = Some (demo_parameter ''b'' 9)"
  "fe_exceptions demo_factory"
  by (simp_all add: demo_factory_def api_FindParameter_def Lookup_def)

definition demo_limits :: limits where
  "demo_limits = \<lparr> l_channels = [100, 200], l_lows = Some [-1, 5], l_highs = Some [1, 5] \<rparr>"

lemma demo_request:
  "CreateSpectrum demo_factory ''s'' ke2D keLong [''a'', ''b''] demo_limits 3 =
     (Made (new_2D ''s'' 3 keLong (demo_parameter ''a'' 7) (demo_parameter ''b'' 9) 100 (-1) 1 200 0 (float_of 199)), 4)"
  by (simp add: CreateSpectrum_def demo_factory_find case_2D_def required_def factory_Require_def with_limits_def limit_of_def
      axis_limits_def demo_limits_def DefaultAxisLength_def Create2D_def make_object_def NextId_def demo_parameter_def)

theorem created_definition_witness:
  "\<exists>lms. request_limits ke2D [demo_parameter ''a'' 7, demo_parameter ''b'' 9] demo_limits = Some lms"
  using created_definition [OF demo_request] by (auto simp: demo_factory_find)

theorem spectrum_made_again_witness:
  "\<exists>s d. CreateSpectrum demo_factory ''t'' ke2D keLong [''a'', ''b''] (definition_limits d) 8 = (Made s, 9)
     \<and> sd_vParameters d = [7, 9] \<and> sd_fLows d = [-1, 0]"
proof -
  let ?s = "new_2D ''s'' 3 keLong (demo_parameter ''a'' 7) (demo_parameter ''b'' 9) 100 (-1) 1 200 0 (float_of 199)"
  let ?d = "base_GetDefinition (\<lambda>_. []) ?s"
  have d: "GetDefinition (\<lambda>_. []) ?s = Some ?d" by (simp add: GetDefinition_def new_2D_def)
  have "sd_eType ?d = ke2D" "sd_eDataType ?d = keLong" "sd_vParameters ?d = [7, 9]" "sd_fLows ?d = [-1, 0]"
    by (simp_all add: new_2D_def definition_defs demo_parameter_def)
  then show ?thesis
    using spectrum_made_again [OF demo_request _ d, of "''t''" 8] by (subst ex_comm, intro exI [of _ ?d]) auto
qed

theorem factory_outcome_witness:
  "\<exists>e. CreateSpectrum demo_factory ''s'' ke2D keLong [''a'', ''c''] demo_limits 3 = (FactoryThrows e, 3)"
proof -
  have none: "api_FindParameter ''c'' (fe_api demo_factory) = None"
    by (simp add: demo_factory_def api_FindParameter_def Lookup_def)
  show ?thesis
    using factory_outcome [OF demo_factory_find(3), of ke2D demo_limits "[''a'', ''c'']" keLong "''s''" 3]
    by (simp add: demo_factory_find none limits_given_def demo_limits_def scale_ok_def demo_parameter_def)
qed

theorem spectrum_numbers_distinct_witness:
  "distinct (map so_number [new_2D ''s'' 0 keLong (demo_parameter ''a'' 7) (demo_parameter ''b'' 9) 100 (-1) 1 200 0 (float_of 199)])"
proof -
  have "CreateSpectrum demo_factory ''s'' ke2D keLong [''a'', ''b''] demo_limits 0 =
     (Made (new_2D ''s'' 0 keLong (demo_parameter ''a'' 7) (demo_parameter ''b'' 9) 100 (-1) 1 200 0 (float_of 199)), 1)"
    by (simp add: CreateSpectrum_def demo_factory_find case_2D_def required_def factory_Require_def with_limits_def limit_of_def
        axis_limits_def demo_limits_def DefaultAxisLength_def Create2D_def make_object_def NextId_def demo_parameter_def)
  from factory_run.call [OF factory_run.start factory_call.by_type [OF this]]
  have "factory_run (Suc 0) [new_2D ''s'' 0 keLong (demo_parameter ''a'' 7) (demo_parameter ''b'' 9) 100 (-1) 1 200 0 (float_of 199)] 1"
    by simp
  from spectrum_numbers_distinct [OF this] show ?thesis by simp
qed

theorem bit_spectrum_one_short_witness:
  "\<exists>s. fst (CreateSpectrum demo_factory ''b'' keBitmask keWord [''a'']
      \<lparr> l_channels = [16], l_lows = None, l_highs = None \<rparr> 0) = Made s \<and> bit_axis s = Some (15, 0, 15)"
  using bit_spectrum_one_short [of "''a''" demo_factory keWord 16 None None "''b''" 0]
  by (simp add: demo_factory_find)

end
