(* ===== verification/TreeArrays.thy ===== *)
theory TreeArrays
  imports TreeParameter
begin

text \<open>
  Arrays of tree parameters (src/main/Core/CTreeParameterArray.cpp).  An array is the identities
  of its elements and the index of the first; an identity is what new returned.  The names of the
  elements are made by snprintf into buffers of 100 bytes.
\<close>

subsection \<open>Names of the elements\<close>

text \<open>
  The width of the index is (int)(log10(n) + 1), through a float: it is the number of digits,
  except just below a power of ten from a million on, which is not represented.  None is the
  conversion of minus infinity.
\<close>

definition digits_exact :: "nat \<Rightarrow> bool" where
  "digits_exact n \<longleftrightarrow> n < 1000000 \<or> 2 ^ 31 \<le> n"

definition log_digits :: "nat \<Rightarrow> nat" where
  "log_digits n = (if n = 0 then 0 else length (show_nat n))"

text \<open>The upper end is computed in unsigned arithmetic.\<close>

definition index_digits :: "i32 \<Rightarrow> u32 \<Rightarrow> nat option" where
  "index_digits first elements =
     (let lo = nat \<bar>sint first\<bar>; hi = unat (first + elements) in
      if (lo = 0 \<and> hi = 0) \<or> \<not> digits_exact lo \<or> \<not> digits_exact hi then None
      else Some (max (log_digits lo) (log_digits hi)))"

definition pad_digits :: "nat \<Rightarrow> nat \<Rightarrow> string" where
  "pad_digits n k = replicate (n - length (show_nat k)) (CHR ''0'') @ show_nat k"

definition format_index :: "nat \<Rightarrow> int \<Rightarrow> string" where
  "format_index n i = (if i < 0 then ''-'' @ pad_digits n (nat (- i)) else pad_digits n (nat i))"

text \<open>
  The format is cut to 99 characters: a long base name loses the conversion.  A conversion that
  is cut, or one in the base name, is undefined.
\<close>

definition element_name :: "string \<Rightarrow> nat \<Rightarrow> int \<Rightarrow> string option" where
  "element_name baseName n i =
     (let f = takeWhile (\<lambda>c. c \<noteq> CHR 0x00) baseName @ ''.'' in
      if CHR ''%'' \<in> set f then None
      else if length f + 3 + 2 * length (show_nat n) \<le> 99 then Some (take 99 (f @ format_index n i))
      else if 99 \<le> length f then Some (take 99 f)
      else None)"

subsection \<open>Arrays\<close>

record tree_array =
  tpa_firstIndex :: i32
  tpa_Parameters :: "nat list"

definition raw_array :: tree_array where
  "raw_array = \<lparr> tpa_firstIndex = 0, tpa_Parameters = [] \<rparr>"

fun delete_elements :: "nat list \<Rightarrow> unit tree_op" where
  "delete_elements [] w = TOk () w"
| "delete_elements (p # ps) w = with_obj p (\<lambda>_ w. delete_elements ps (destroy_param p w)) w"

definition DeleteParameters :: "tree_array \<Rightarrow> tree_array tree_op" where
  "DeleteParameters a w =
     tbind (delete_elements (rev (tpa_Parameters a)) w) (\<lambda>_. TOk (a\<lparr> tpa_Parameters := [] \<rparr>))"

text \<open>The i-th object created is alloc i; an index that is not an int is undefined.\<close>

fun create_elements ::
  "(nat \<Rightarrow> nat) \<Rightarrow> (int \<Rightarrow> string option) \<Rightarrow> tree_param \<Rightarrow> nat \<Rightarrow> nat \<Rightarrow> tree_array \<Rightarrow> tree_array tree_op" where
  "create_elements alloc nm t i 0 a w = TOk a w"
| "create_elements alloc nm t i (Suc k) a w =
     (let index = sint (tpa_firstIndex a) + int i in
      if 2 ^ 31 \<le> index then TUndef
      else case nm index of
        None \<Rightarrow> TUndef
      | Some s \<Rightarrow> tbind (new_param_like (alloc i) s t w)
          (\<lambda>_. create_elements alloc nm t (Suc i) k (a\<lparr> tpa_Parameters := tpa_Parameters a @ [alloc i] \<rparr>)))"

definition CreateParameters ::
  "(nat \<Rightarrow> nat) \<Rightarrow> string \<Rightarrow> u32 \<Rightarrow> nat \<Rightarrow> tree_array \<Rightarrow> tree_array tree_op" where
  "CreateParameters alloc baseName elements template a w = tbind (DeleteParameters a w) (\<lambda>a.
     case index_digits (tpa_firstIndex a) elements of
       None \<Rightarrow> (\<lambda>_. TUndef)
     | Some n \<Rightarrow> with_obj template (\<lambda>t.
         create_elements alloc (element_name baseName n) t 0 (unat elements) a))"

subsection \<open>Initialization\<close>

text \<open>
  Each form makes a sample on the stack, registered under the base name like any tree parameter,
  creates the elements after it, and destroys it.
\<close>

definition init_array ::
  "(nat \<Rightarrow> unit tree_op) \<Rightarrow> nat \<Rightarrow> (nat \<Rightarrow> nat) \<Rightarrow> string \<Rightarrow> u32 \<Rightarrow> i32 \<Rightarrow> tree_array \<Rightarrow> tree_array tree_op" where
  "init_array make_sample sample alloc baseName elements first a w =
     tbind (construct sample (make_sample sample) w) (\<lambda>_ w.
     tbind (CreateParameters alloc baseName elements sample (a\<lparr> tpa_firstIndex := first \<rparr>) w) (\<lambda>a w.
     TOk a (destroy_param sample w)))"

definition Array_Initialize_resolution where
  "Array_Initialize_resolution sample alloc nm resolution elements first =
     init_array (\<lambda>s. Initialize_resolution s nm resolution) sample alloc nm elements first"

definition Array_Initialize_width where
  "Array_Initialize_width sample alloc nm resolution lo hw u given elements first =
     init_array (\<lambda>s. Initialize_width s nm resolution lo hw u given) sample alloc nm elements first"

definition Array_Initialize_name where
  "Array_Initialize_name sample alloc nm elements first =
     init_array (\<lambda>s. Initialize_name s nm) sample alloc nm elements first"

definition Array_Initialize_units where
  "Array_Initialize_units sample alloc nm u elements first =
     init_array (\<lambda>s. Initialize_units s nm u) sample alloc nm elements first"

text \<open>Limits without channels: the constructor of the sample takes 100.\<close>

definition Array_Initialize_limits where
  "Array_Initialize_limits sample alloc nm lo hi u elements first =
     init_array (\<lambda>s. Initialize_channels s nm 100 lo hi u) sample alloc nm elements first"

definition Array_Initialize_channels where
  "Array_Initialize_channels sample alloc nm channels lo hi u elements first =
     init_array (\<lambda>s. Initialize_channels s nm channels lo hi u) sample alloc nm elements first"

text \<open>The constructors initialize a raw array; the destructor deletes the elements.\<close>

definition new_array :: "(tree_array \<Rightarrow> tree_array tree_op) \<Rightarrow> tree_array tree_op" where
  "new_array init = init raw_array"

definition destroy_array :: "tree_array \<Rightarrow> unit tree_op" where
  "destroy_array a w = tbind (DeleteParameters a w) (\<lambda>_. TOk ())"

subsection \<open>Operations\<close>

text \<open>The subtraction of the first index is taken not to leave the int.\<close>

definition array_at :: "tree_array \<Rightarrow> i32 \<Rightarrow> nat tree_op" where
  "array_at a nIndex w =
     (let i = sint nIndex - sint (tpa_firstIndex a) in
      if i < - (2 ^ 31) \<or> 2 ^ 31 \<le> i then TUndef
      else if i < 0 \<or> int (length (tpa_Parameters a)) \<le> i then TThrows InvalidIndex w
      else TOk (tpa_Parameters a ! nat i) w)"

definition array_Reset :: "tree_array \<Rightarrow> unit tree_op" where
  "array_Reset a = for_each_param setInvalid (tpa_Parameters a)"

definition array_Bind :: "tree_array \<Rightarrow> unit tree_op" where
  "array_Bind a = for_each_param Bind (tpa_Parameters a)"

fun all_bound :: "nat list \<Rightarrow> bool tree_op" where
  "all_bound [] w = TOk True w"
| "all_bound (p # ps) w = tbind (isBound p w) (\<lambda>b. if b then all_bound ps else TOk False)"

definition array_isBound :: "tree_array \<Rightarrow> bool tree_op" where
  "array_isBound a = all_bound (tpa_Parameters a)"

definition array_size :: "tree_array \<Rightarrow> nat" where
  "array_size a = length (tpa_Parameters a)"

definition array_lowIndex :: "tree_array \<Rightarrow> i32" where
  "array_lowIndex a = tpa_firstIndex a"

subsection \<open>The elements of an array\<close>

lemma set_multimap_insert_entry [simp]: "set (multimap_insert k v m) = insert (k, v) (set m)"
  by (induction k v m rule: multimap_insert.induct) auto

lemma Register_sel [simp]:
  "obj_of q (Register p nm w) = obj_of q w" "tw_api (Register p nm w) = tw_api w"
  "tw_event (Register p nm w) = tw_event w"
  by (simp_all add: Register_def obj_of_def)

lemma put_obj_registry [simp]: "tw_registry (put_obj p t w) = tw_registry w"
  by (simp add: put_obj_def)

lemma registry_Register:
  "p \<notin> snd ` set (tw_registry w) \<Longrightarrow> set (tw_registry (Register p nm w)) = insert (nm, p) (set (tw_registry w))"
  by (auto simp: Register_def isRegistered_def)

lemma registry_Register_again:
  "p \<in> snd ` set (tw_registry w) \<Longrightarrow> Register p nm w = w"
  by (auto simp: Register_def isRegistered_def)

definition element :: "tree_param \<Rightarrow> string \<Rightarrow> tree_param" where
  "element t s = raw_param\<lparr> tp_name := s, tp_units := tp_units t, tp_low := tp_low t, tp_high := tp_high t,
     tp_channels := tp_channels t, tp_initialized := True \<rparr>"

text \<open>A world in which p is a new object, with its registration.\<close>

definition extends_by :: "nat \<Rightarrow> tree_param \<Rightarrow> tree_world \<Rightarrow> tree_world \<Rightarrow> bool" where
  "extends_by p t w w' \<longleftrightarrow> (\<forall>q. obj_of q w' = (if q = p then Some t else obj_of q w)) \<and>
     set (tw_registry w') = insert (tp_name t, p) (set (tw_registry w)) \<and>
     tw_api w' = tw_api w \<and> tw_event w' = tw_event w"

definition fresh_object :: "nat \<Rightarrow> tree_world \<Rightarrow> bool" where
  "fresh_object p w \<longleftrightarrow> obj_of p w = None \<and> p \<notin> snd ` set (tw_registry w)"

lemma with_obj_put [simp]: "with_obj p f (put_obj p t w) = f t (put_obj p t w)"
  by (simp add: with_obj_def)

lemma with_obj_Register [simp]: "with_obj p f (Register p s (put_obj p t w)) = f t (Register p s (put_obj p t w))"
  by (simp add: with_obj_def)

lemma construct_name:
  assumes "obj_of p w = None"
  shows "construct p (Initialize_name p s) w = TOk () (put_obj p (raw_param\<lparr> tp_name := s, tp_units := ''unknown'',
    tp_initialized := True \<rparr>) (Register p s (put_obj p raw_param w)))"
  using assms
  by (simp add: construct_def Initialize_name_def throwIfDoubleInit_def) (simp add: raw_param_def)

lemma construct_axis:
  assumes "obj_of p w = None"
  obtains w' where "construct p (Initialize_channels p s n lo hi u) w = TOk () w'"
    "\<And>q. obj_of q w' = (if q = p then Some (raw_param\<lparr> tp_name := s, tp_units := u, tp_low := lo, tp_high := hi,
       tp_channels := n, tp_initialized := True \<rparr>) else obj_of q w)"
    "tw_api w' = tw_api w" "tw_event w' = tw_event w"
    "p \<notin> snd ` set (tw_registry w) \<Longrightarrow> set (tw_registry w') = insert (s, p) (set (tw_registry w))"
proof -
  have "construct p (Initialize_channels p s n lo hi u) w =
    tbind (tbind (construct p (Initialize_name p s) w) (\<lambda>_. update_obj p (\<lambda>t. t\<lparr> tp_units := u, tp_initialized := True \<rparr>)))
      (\<lambda>_. update_obj p (\<lambda>t. t\<lparr> tp_low := lo, tp_high := hi, tp_channels := n, tp_initialized := True \<rparr>))"
    using assms by (simp add: construct_def Initialize_channels_def Initialize_units_def throwIfDoubleInit_def)
      (simp add: raw_param_def)
  then show thesis
    using assms that by (simp add: construct_name update_obj_def registry_Register)
qed

lemma construct_channels:
  assumes "fresh_object p w"
  obtains w' where "construct p (Initialize_channels p s n lo hi u) w = TOk () w'"
    "extends_by p (raw_param\<lparr> tp_name := s, tp_units := u, tp_low := lo, tp_high := hi, tp_channels := n,
       tp_initialized := True \<rparr>) w w'"
proof -
  have "obj_of p w = None" using assms by (simp add: fresh_object_def)
  from construct_axis [OF this, of s n lo hi u] show thesis
    using assms that by (auto simp: extends_by_def fresh_object_def)
qed

lemma new_param_like_fresh:
  assumes "fresh_object p w"
  obtains w' where "new_param_like p s t w = TOk () w'" "extends_by p (element t s) w w'"
  using construct_channels [OF assms] unfolding new_param_like_def element_def by metis

lemma extends_by_fresh: "extends_by p t w w' \<Longrightarrow> fresh_object q w \<Longrightarrow> q \<noteq> p \<Longrightarrow> fresh_object q w'"
  by (auto simp: extends_by_def fresh_object_def)

lemma create_elements_fresh:
  assumes "\<forall>j. i \<le> j \<and> j < i + k \<longrightarrow> fresh_object (alloc j) w \<and> nm (sint (tpa_firstIndex a) + int j) = Some (name j)"
    "inj_on alloc {i..<i + k}" "sint (tpa_firstIndex a) + int (i + k) \<le> 2 ^ 31"
  shows "\<exists>w'. create_elements alloc nm t i k a w =
      TOk (a\<lparr> tpa_Parameters := tpa_Parameters a @ map alloc [i..<i + k] \<rparr>) w' \<and>
    (\<forall>j. i \<le> j \<and> j < i + k \<longrightarrow> obj_of (alloc j) w' = Some (element t (name j)) \<and>
       (name j, alloc j) \<in> set (tw_registry w')) \<and>
    (\<forall>q. q \<notin> alloc ` {i..<i + k} \<longrightarrow> obj_of q w' = obj_of q w) \<and>
    set (tw_registry w) \<subseteq> set (tw_registry w') \<and> tw_api w' = tw_api w \<and> tw_event w' = tw_event w"
  using assms
proof (induction k arbitrary: i a w)
  case (Suc k)
  have fr: "fresh_object (alloc i) w" and nm: "nm (sint (tpa_firstIndex a) + int i) = Some (name i)"
    using Suc.prems(1) by auto
  obtain w1 where w1: "new_param_like (alloc i) (name i) t w = TOk () w1"
    "extends_by (alloc i) (element t (name i)) w w1"
    using new_param_like_fresh [OF fr] by blast
  let ?a = "a\<lparr> tpa_Parameters := tpa_Parameters a @ [alloc i] \<rparr>"
  have ne: "alloc j \<noteq> alloc i" if "Suc i \<le> j" "j < Suc i + k" for j
    using inj_onD [OF Suc.prems(2), of j i] that by fastforce
  have "\<forall>j. Suc i \<le> j \<and> j < Suc i + k \<longrightarrow> fresh_object (alloc j) w1 \<and> nm (sint (tpa_firstIndex ?a) + int j) = Some (name j)"
    using Suc.prems(1) extends_by_fresh [OF w1(2)] ne by simp
  moreover have "inj_on alloc {Suc i..<Suc i + k}" using Suc.prems(2) by (rule inj_on_subset) auto
  moreover have "sint (tpa_firstIndex ?a) + int (Suc i + k) \<le> 2 ^ 31" using Suc.prems(3) by simp
  ultimately obtain w' where w': "create_elements alloc nm t (Suc i) k ?a w1 =
      TOk (?a\<lparr> tpa_Parameters := tpa_Parameters ?a @ map alloc [Suc i..<Suc i + k] \<rparr>) w'"
    "\<forall>j. Suc i \<le> j \<and> j < Suc i + k \<longrightarrow> obj_of (alloc j) w' = Some (element t (name j)) \<and>
       (name j, alloc j) \<in> set (tw_registry w')"
    "\<forall>q. q \<notin> alloc ` {Suc i..<Suc i + k} \<longrightarrow> obj_of q w' = obj_of q w1"
    "set (tw_registry w1) \<subseteq> set (tw_registry w')" "tw_api w' = tw_api w1" "tw_event w' = tw_event w1"
    using Suc.IH [of "Suc i" w1 ?a] by blast
  have upt: "[i..<i + Suc k] = i # [Suc i..<Suc i + k]" by (simp add: upt_conv_Cons)
  have "sint (tpa_firstIndex a) + int i < 2 ^ 31" using Suc.prems(3) by simp
  then have c: "create_elements alloc nm t i (Suc k) a w =
      TOk (a\<lparr> tpa_Parameters := tpa_Parameters a @ map alloc [i..<i + Suc k] \<rparr>) w'"
    using w1(1) w'(1) nm unfolding upt by (simp del: upt_Suc)
  have x: "obj_of (alloc i) w1 = Some (element t (name i))" "(name i, alloc i) \<in> set (tw_registry w1)"
    "tw_api w1 = tw_api w" "tw_event w1 = tw_event w" "set (tw_registry w) \<subseteq> set (tw_registry w1)"
    "\<And>q. q \<noteq> alloc i \<Longrightarrow> obj_of q w1 = obj_of q w"
    using w1(2) by (auto simp: extends_by_def element_def)
  have "alloc i \<notin> alloc ` {Suc i..<Suc i + k}" using ne by force
  then have "obj_of (alloc i) w' = Some (element t (name i))" using w'(3) x(1) by simp
  then have "\<forall>j. i \<le> j \<and> j < i + Suc k \<longrightarrow> obj_of (alloc j) w' = Some (element t (name j)) \<and>
       (name j, alloc j) \<in> set (tw_registry w')"
    using w'(2,4) x(2) by (metis (no_types) Suc_leI add_Suc_shift subsetD le_neq_implies_less)
  moreover have "{i..<i + Suc k} = insert i {Suc i..<Suc i + k}" by auto
  then have "\<forall>q. q \<notin> alloc ` {i..<i + Suc k} \<longrightarrow> obj_of q w' = obj_of q w"
    using w'(3) x(6) by simp
  ultimately show ?case using c w'(4-6) x(3-5) by (intro exI [of _ w']) auto
qed auto

text \<open>Padded indices of one array are different strings.\<close>

lemma read_zeros: "read_digits (replicate n (CHR ''0'') @ s) = read_digits s"
  by (induction n) (simp_all add: read_digits_def)

lemma read_pad_digits [simp]: "read_digits (pad_digits n k) = k"
  by (simp add: pad_digits_def read_zeros)

lemma length_show_nat_mono: "m \<le> n \<Longrightarrow> length (show_nat m) \<le> length (show_nat n)"
proof (induction n arbitrary: m rule: show_nat.induct)
  case (1 n)
  then show ?case
    by (cases "n < 10"; cases "m < 10") (auto simp: show_nat.simps [of n] show_nat.simps [of m] div_le_mono)
qed

lemma length_pad_digits: "length (show_nat k) \<le> n \<Longrightarrow> length (pad_digits n k) = n"
  by (simp add: pad_digits_def)

text \<open>A base name that can be formatted whole.\<close>

definition plain_base :: "string \<Rightarrow> nat \<Rightarrow> bool" where
  "plain_base s n \<longleftrightarrow> CHR 0x00 \<notin> set s \<and> CHR ''%'' \<notin> set s \<and>
     length s + 4 + 2 * length (show_nat n) \<le> 99 \<and> length s + 1 + n \<le> 99"

lemma element_name_plain:
  assumes "plain_base s n" "length (show_nat i) \<le> n"
  shows "element_name s n (int i) = Some (s @ ''.'' @ pad_digits n i)"
proof -
  have "takeWhile (\<lambda>c. c \<noteq> CHR 0x00) s = s" using assms(1) by (auto simp: plain_base_def takeWhile_eq_all_conv)
  then show ?thesis
    using assms unfolding element_name_def plain_base_def by (simp only:) (simp add: format_index_def length_pad_digits, linarith)
qed

lemma sint_add_small:
  fixes a :: i32
  assumes "0 \<le> sint a" "sint a + int i < 2 ^ 31"
  shows "sint (a + of_nat i) = sint a + int i"
proof -
  have "sint (of_nat i :: i32) = int i"
    using assms by (simp add: signed_of_nat signed_take_bit_int_eq_self_iff)
  then show ?thesis
    using assms by (simp add: sint_word_ariths signed_take_bit_int_eq_self_iff)
qed

lemma index_digits_bounds:
  assumes "index_digits first elements = Some d" "0 \<le> sint first" "nat (sint first) + unat elements \<le> 2 ^ 31"
    "i < unat elements"
  shows "length (show_nat (nat (sint first) + i)) \<le> d"
proof -
  have u: "uint first = sint first"
  proof -
    have "sint first < 2 ^ 31" using sint_lt [of first] by simp
    moreover have "uint (word_of_int (sint first) :: i32) = sint first mod 2 ^ 32" by (subst uint_word_of_int) simp
    ultimately show ?thesis using assms(2) by simp
  qed
  then have "unat first = nat (sint first)" by (simp add: u [symmetric])
  then have "unat (first + elements) = nat (sint first) + unat elements"
    using assms(3) by (simp add: unat_word_ariths)
  then have "log_digits (nat (sint first) + unat elements) \<le> d"
    using assms(1) by (auto simp: index_digits_def Let_def split: if_splits)
  moreover have "length (show_nat (nat (sint first) + i)) \<le> length (show_nat (nat (sint first) + unat elements))"
    using assms(4) by (intro length_show_nat_mono) simp
  ultimately show ?thesis using assms(4) by (simp add: log_digits_def split: if_splits)
qed

lemma smap_get_erase_other: "k' \<noteq> k \<Longrightarrow> smap_get (smap_erase k m) k' = smap_get m k'"
  by (induction m) auto

lemma destroyed_elsewhere: "q \<noteq> p \<Longrightarrow> obj_of q (destroy_param p w) = obj_of q w"
  by (simp add: obj_of_def destroy_param_def Unregister_def smap_get_erase_other)

lemma destroyed_registry: "(nm, q) \<in> set (tw_registry w) \<Longrightarrow> q \<noteq> p \<Longrightarrow> (nm, q) \<in> set (tw_registry (destroy_param p w))"
proof -
  have "(nm, q) \<in> set r \<Longrightarrow> q \<noteq> p \<Longrightarrow> (nm, q) \<in> set (erase_registration p r)" for r
    by (induction r) auto
  then show "(nm, q) \<in> set (tw_registry w) \<Longrightarrow> q \<noteq> p \<Longrightarrow> ?thesis"
    by (simp add: destroy_param_def Unregister_def)
qed

lemma destroyed_sel [simp]: "tw_api (destroy_param p w) = tw_api w" "tw_event (destroy_param p w) = tw_event w"
  by (simp_all add: destroy_param_def Unregister_def)

text \<open>The elements of a new array: names with leading zeros, all different, the axis given, found by the index operator.\<close>

lemma array_created:
  assumes d: "index_digits first elements = Some d" "plain_base nm d"
    and ix: "0 \<le> sint first" "nat (sint first) + unat elements < 2 ^ 31"
    and fr: "fresh_object s w" "\<forall>i < unat elements. fresh_object (alloc i) w \<and> alloc i \<noteq> s"
    "inj_on alloc {..<unat elements}"
  shows "\<exists>a w'. new_array (Array_Initialize_channels s alloc nm channels lo hi u elements first) w = TOk a w' \<and>
    array_size a = unat elements \<and> tw_api w' = tw_api w \<and> tw_event w' = tw_event w \<and>
    (\<forall>i < unat elements. array_at a (first + of_nat i) w' = TOk (alloc i) w' \<and>
      (nm @ ''.'' @ pad_digits d (nat (sint first) + i), alloc i) \<in> set (tw_registry w') \<and>
      obj_of (alloc i) w' = Some (raw_param\<lparr> tp_name := nm @ ''.'' @ pad_digits d (nat (sint first) + i),
        tp_units := u, tp_low := lo, tp_high := hi, tp_channels := channels, tp_initialized := True \<rparr>)) \<and>
    inj_on (\<lambda>i. nm @ ''.'' @ pad_digits d (nat (sint first) + i)) {..<unat elements}"
proof -
  let ?n = "unat elements" and ?name = "\<lambda>i. nm @ ''.'' @ pad_digits d (nat (sint first) + i)"
  let ?t = "raw_param\<lparr> tp_name := nm, tp_units := u, tp_low := lo, tp_high := hi, tp_channels := channels,
       tp_initialized := True \<rparr>"
  let ?a = "raw_array\<lparr> tpa_firstIndex := first \<rparr>"
  obtain w1 where w1: "construct s (Initialize_channels s nm channels lo hi u) w = TOk () w1" "extends_by s ?t w w1"
    using construct_channels [OF fr(1)] by blast
  have name: "element_name nm d (sint first + int j) = Some (?name j)" if "j < ?n" for j
    using element_name_plain [OF d(2) index_digits_bounds [OF d(1) ix(1) _ that]] ix by (simp add: add.commute)
  have b: "sint first + int (0 + ?n) \<le> 2 ^ 31"
  proof -
    have "int (nat (sint first) + ?n) < int (2 ^ 31)" using ix(2) by (simp only: of_nat_less_iff)
    then show ?thesis using ix(1) by simp
  qed
  obtain w2 where w2: "create_elements alloc (element_name nm d) ?t 0 ?n ?a w1 =
      TOk (?a\<lparr> tpa_Parameters := map alloc [0..<?n] \<rparr>) w2"
    "\<forall>j < ?n. obj_of (alloc j) w2 = Some (element ?t (?name j)) \<and> (?name j, alloc j) \<in> set (tw_registry w2)"
    "tw_api w2 = tw_api w1" "tw_event w2 = tw_event w1"
    using create_elements_fresh [of 0 ?n alloc w1 "element_name nm d" ?a ?name ?t] fr name b
      extends_by_fresh [OF w1(2)]
    by (auto simp: raw_array_def lessThan_atLeast0)
  let ?r = "?a\<lparr> tpa_Parameters := map alloc [0..<?n] \<rparr>"
  have "obj_of s w1 = Some ?t" using w1(2) by (simp add: extends_by_def)
  then have "new_array (Array_Initialize_channels s alloc nm channels lo hi u elements first) w = TOk ?r (destroy_param s w2)"
    using w1(1) w2(1) d(1)
    by (simp add: new_array_def Array_Initialize_channels_def init_array_def CreateParameters_def DeleteParameters_def
        raw_array_def with_obj_def)
  moreover have "array_at ?r (first + of_nat i) w' = TOk (alloc i) w'" if "i < ?n" for i w'
  proof -
    have i: "int i < int ?n" using that by (simp only: of_nat_less_iff)
    then have "sint first + int i < 2 ^ 31" using b by simp
    then have "sint (first + of_nat i) - sint first = int i" using ix(1) by (simp add: sint_add_small)
    moreover have "map alloc [0..<?n] ! i = alloc i" using that by simp
    ultimately show ?thesis
      using i b ix(1) by (simp add: array_at_def Let_def raw_array_def del: nth_map nth_map_upt)
  qed
  moreover have "inj_on ?name {..<?n}"
    by (rule inj_onI) (metis add_left_cancel append_same_eq same_append_eq read_pad_digits)
  ultimately show ?thesis
    using w1(2) w2(2-4) fr(2)
    by (intro exI [of _ ?r] exI [of _ "destroy_param s w2"])
      (auto simp: array_size_def extends_by_def destroyed_elsewhere destroyed_registry element_def raw_param_def)
qed


end
