(* ===== verification/TreeVectors.thy ===== *)
theory TreeVectors
  imports TreeArrays
begin

text \<open>
  Tree parameter vectors (src/main/Core/CTreeParameterVector.cpp): vectors that grow with the
  elements pushed in an event.  All vectors with a base name share an information block, found
  through a static map; a block is its address in vw_infos.
\<close>

subsection \<open>State\<close>

record vec_info =
  vi_createdParameters :: "nat list"
  vi_event :: "nat list"
  vi_low :: rat
  vi_high :: rat
  vi_bins :: u32
  vi_units :: string

definition new_vec_info :: vec_info where
  "new_vec_info = \<lparr> vi_createdParameters = [], vi_event = [], vi_low = 0, vi_high = 100, vi_bins = 100, vi_units = [] \<rparr>"

record vec_world =
  vw_tree :: tree_world
  vw_baseNameMap :: "(string \<times> nat) list"
  vw_infos :: "(nat \<times> vec_info) list"

record tree_vector =
  tv_baseName :: string
  tv_pInfo :: nat

datatype 'a vec_result = VOk 'a vec_world | VThrows tree_error vec_world | VUndef

type_synonym 'a vec_op = "vec_world \<Rightarrow> 'a vec_result"

fun vbind :: "'a vec_result \<Rightarrow> ('a \<Rightarrow> 'b vec_op) \<Rightarrow> 'b vec_result" where
  "vbind (VOk x w) f = f x w"
| "vbind (VThrows e w) f = VThrows e w"
| "vbind VUndef f = VUndef"

definition on_tree :: "'a tree_op \<Rightarrow> 'a vec_op" where
  "on_tree f vw = (case f (vw_tree vw) of
      TOk x w \<Rightarrow> VOk x (vw\<lparr> vw_tree := w \<rparr>)
    | TThrows e w \<Rightarrow> VThrows e (vw\<lparr> vw_tree := w \<rparr>)
    | TUndef \<Rightarrow> VUndef)"

definition info_of :: "nat \<Rightarrow> vec_world \<Rightarrow> vec_info option" where
  "info_of i vw = smap_get (vw_infos vw) i"

definition put_info :: "nat \<Rightarrow> vec_info \<Rightarrow> vec_world \<Rightarrow> vec_world" where
  "put_info i vi vw = vw\<lparr> vw_infos := smap_put i vi (vw_infos vw) \<rparr>"

definition with_info :: "nat \<Rightarrow> (vec_info \<Rightarrow> 'a vec_op) \<Rightarrow> 'a vec_op" where
  "with_info i f vw = (case info_of i vw of None \<Rightarrow> VUndef | Some vi \<Rightarrow> f vi vw)"

definition update_info :: "nat \<Rightarrow> (vec_info \<Rightarrow> vec_info) \<Rightarrow> unit vec_op" where
  "update_info i f = with_info i (\<lambda>vi vw. VOk () (put_info i (f vi) vw))"

fun vec_for_each :: "('a \<Rightarrow> unit vec_op) \<Rightarrow> 'a list \<Rightarrow> unit vec_op" where
  "vec_for_each f [] vw = VOk () vw"
| "vec_for_each f (x # xs) vw = vbind (f x vw) (\<lambda>_. vec_for_each f xs)"

subsection \<open>Information blocks and construction\<close>

text \<open>addr is where a new block would be.\<close>

definition getInfoBlock :: "nat \<Rightarrow> string \<Rightarrow> nat vec_op" where
  "getInfoBlock addr nm vw = (case smap_get (vw_baseNameMap vw) nm of
      Some i \<Rightarrow> VOk i vw
    | None \<Rightarrow> (if info_of addr vw \<noteq> None then VUndef
        else VOk addr ((put_info addr new_vec_info vw)\<lparr> vw_baseNameMap := smap_put nm addr (vw_baseNameMap vw) \<rparr>)))"

definition getInfoBlock_axis :: "nat \<Rightarrow> string \<Rightarrow> rat \<Rightarrow> rat \<Rightarrow> u32 \<Rightarrow> string \<Rightarrow> nat vec_op" where
  "getInfoBlock_axis addr nm lo hi bins u vw = vbind (getInfoBlock addr nm vw) (\<lambda>i vw.
     vbind (update_info i (\<lambda>vi. vi\<lparr> vi_low := lo, vi_high := hi, vi_bins := bins, vi_units := u \<rparr>) vw)
       (\<lambda>_. VOk i))"

definition new_vector :: "nat \<Rightarrow> string \<Rightarrow> tree_vector vec_op" where
  "new_vector addr nm vw = vbind (getInfoBlock addr nm vw) (\<lambda>i. VOk \<lparr> tv_baseName = nm, tv_pInfo = i \<rparr>)"

definition new_vector_axis :: "nat \<Rightarrow> string \<Rightarrow> rat \<Rightarrow> rat \<Rightarrow> u32 \<Rightarrow> string \<Rightarrow> tree_vector vec_op" where
  "new_vector_axis addr nm lo hi bins u vw =
     vbind (getInfoBlock_axis addr nm lo hi bins u vw) (\<lambda>i. VOk \<lparr> tv_baseName = nm, tv_pInfo = i \<rparr>)"

definition same_vector :: "tree_vector \<Rightarrow> tree_vector \<Rightarrow> bool" where
  "same_vector v v' \<longleftrightarrow> tv_baseName v = tv_baseName v'"

definition find_vector :: "nat \<Rightarrow> string \<Rightarrow> tree_vector vec_op" where
  "find_vector addr nm vw =
     (if smap_get (vw_baseNameMap vw) nm \<noteq> None then new_vector addr nm vw
      else VThrows (NoSuchVector (''There is no vector parameter with the base name '' @ nm)) vw)"

definition numVectors :: "vec_world \<Rightarrow> nat" where
  "numVectors vw = length (vw_baseNameMap vw)"

subsection \<open>Elements\<close>

definition nextName :: "string \<Rightarrow> nat \<Rightarrow> string" where
  "nextName nm n = nm @ ''('' @ show_nat n @ '')''"

text \<open>The new object is p; its constructor takes 100 channels.\<close>

definition vec_createParameter :: "nat \<Rightarrow> tree_vector \<Rightarrow> nat vec_op" where
  "vec_createParameter p v = with_info (tv_pInfo v) (\<lambda>vi vw.
     vbind (on_tree (new_param p (nextName (tv_baseName v) (length (vi_createdParameters vi)))
              (vi_low vi) (vi_high vi) (vi_units vi)) vw) (\<lambda>_ vw.
     vbind (on_tree (Bind p) vw) (\<lambda>_ vw.
     vbind (update_info (tv_pInfo v) (\<lambda>vi. vi\<lparr> vi_createdParameters := vi_createdParameters vi @ [p] \<rparr>) vw)
       (\<lambda>_. VOk p))))"

definition createEventParameter :: "nat \<Rightarrow> tree_vector \<Rightarrow> nat vec_op" where
  "createEventParameter p v = with_info (tv_pInfo v) (\<lambda>vi vw.
     vbind (if length (vi_createdParameters vi) \<le> length (vi_event vi) then vec_createParameter p v vw
            else VOk (vi_createdParameters vi ! length (vi_event vi)) vw) (\<lambda>q vw.
     vbind (update_info (tv_pInfo v) (\<lambda>vi. vi\<lparr> vi_event := vi_event vi @ [q] \<rparr>) vw) (\<lambda>_. VOk q)))"

definition vec_push_back :: "nat \<Rightarrow> rat \<Rightarrow> tree_vector \<Rightarrow> nat vec_op" where
  "vec_push_back p value v vw = vbind (createEventParameter p v vw) (\<lambda>q vw.
     vbind (on_tree (tp_setValue q value) vw) (\<lambda>_. VOk q))"

definition vec_at :: "tree_vector \<Rightarrow> nat \<Rightarrow> nat vec_op" where
  "vec_at v i = with_info (tv_pInfo v) (\<lambda>vi.
     if length (vi_event vi) \<le> i then VThrows OutOfRange else VOk (vi_event vi ! i))"

definition vec_size :: "tree_vector \<Rightarrow> nat vec_op" where
  "vec_size v = with_info (tv_pInfo v) (\<lambda>vi. VOk (length (vi_event vi)))"

definition allocation :: "tree_vector \<Rightarrow> nat vec_op" where
  "allocation v = with_info (tv_pInfo v) (\<lambda>vi. VOk (length (vi_createdParameters vi)))"

definition vec_reset :: "tree_vector \<Rightarrow> unit vec_op" where
  "vec_reset v = update_info (tv_pInfo v) (\<lambda>vi. vi\<lparr> vi_event := [] \<rparr>)"

definition BeginEvent :: "unit vec_op" where
  "BeginEvent vw = vec_for_each (\<lambda>e. update_info (snd e) (\<lambda>vi. vi\<lparr> vi_event := [] \<rparr>)) (vw_baseNameMap vw) vw"

subsection \<open>Axes\<close>

definition vec_setLow :: "rat \<Rightarrow> tree_vector \<Rightarrow> unit vec_op" where
  "vec_setLow lo v vw = vbind (update_info (tv_pInfo v) (\<lambda>vi. vi\<lparr> vi_low := lo \<rparr>) vw) (\<lambda>_.
     with_info (tv_pInfo v) (\<lambda>vi. vec_for_each (\<lambda>p. on_tree (tp_setStart p lo)) (vi_createdParameters vi)))"

definition vec_setHigh :: "rat \<Rightarrow> tree_vector \<Rightarrow> unit vec_op" where
  "vec_setHigh hi v vw = vbind (update_info (tv_pInfo v) (\<lambda>vi. vi\<lparr> vi_high := hi \<rparr>) vw) (\<lambda>_.
     with_info (tv_pInfo v) (\<lambda>vi. vec_for_each (\<lambda>p. on_tree (tp_setStop p hi)) (vi_createdParameters vi)))"

definition vec_setUnits :: "string \<Rightarrow> tree_vector \<Rightarrow> unit vec_op" where
  "vec_setUnits u v vw = vbind (update_info (tv_pInfo v) (\<lambda>vi. vi\<lparr> vi_units := u \<rparr>) vw) (\<lambda>_.
     with_info (tv_pInfo v) (\<lambda>vi. vec_for_each (\<lambda>p. on_tree (tp_setUnit p u)) (vi_createdParameters vi)))"

text \<open>
  The body of setBins calls setBins itself for each parameter created.  The number is the depth of
  the stack; None is running out of it.
\<close>

fun bins_loop :: "(vec_world \<Rightarrow> unit vec_result option) \<Rightarrow> nat list \<Rightarrow> vec_world \<Rightarrow> unit vec_result option" where
  "bins_loop again [] vw = Some (VOk () vw)"
| "bins_loop again (p # ps) vw = (case again vw of
      None \<Rightarrow> None
    | Some (VOk _ vw') \<Rightarrow> bins_loop again ps vw'
    | Some (VThrows e vw') \<Rightarrow> Some (VThrows e vw')
    | Some VUndef \<Rightarrow> Some VUndef)"

fun vec_setBins :: "nat \<Rightarrow> u32 \<Rightarrow> tree_vector \<Rightarrow> vec_world \<Rightarrow> unit vec_result option" where
  "vec_setBins 0 bins v vw = None"
| "vec_setBins (Suc stack) bins v vw = (case info_of (tv_pInfo v) vw of
      None \<Rightarrow> Some VUndef
    | Some vi \<Rightarrow> bins_loop (vec_setBins stack bins v) (vi_createdParameters vi)
        (put_info (tv_pInfo v) (vi\<lparr> vi_bins := bins \<rparr>) vw))"

subsection \<open>Destruction\<close>

definition delete_info :: "nat \<Rightarrow> unit vec_op" where
  "delete_info i = with_info i (\<lambda>vi vw.
     vbind (on_tree (delete_elements (vi_createdParameters vi)) vw) (\<lambda>_ vw.
     VOk () (vw\<lparr> vw_infos := smap_erase i (vw_infos vw) \<rparr>)))"

definition ClearMap :: "unit vec_op" where
  "ClearMap vw = vbind (vec_for_each (\<lambda>e. delete_info (snd e)) (vw_baseNameMap vw) vw)
     (\<lambda>_ vw. VOk () (vw\<lparr> vw_baseNameMap := [] \<rparr>))"

subsection \<open>Binding with room for more parameters\<close>

definition params_of :: "tree_world \<Rightarrow> (string \<times> parameter) list" where
  "params_of w = d_map (h_params (api_hist (tw_api w)))"

definition room :: "nat \<Rightarrow> tree_world \<Rightarrow> bool" where
  "room k w \<longleftrightarrow> hist_ok (api_hist (tw_api w)) \<and> length (params_of w) + k \<le> max_params \<and>
     (\<forall>nm q. api_FindParameter nm (tw_api w) = Some q \<longrightarrow> unat (pa_number q) < max_params)"

lemma params_keys:
  assumes "hist_ok (api_hist (tw_api w))"
  shows "length (params_of w) = card {nm. api_FindParameter nm (tw_api w) \<noteq> None}"
    "finite {nm. api_FindParameter nm (tw_api w) \<noteq> None}"
proof -
  have ok: "smap_ok (params_of w)" using assms by (simp add: params_of_def hist_ok_defs dict_ok_def)
  have k: "{nm. api_FindParameter nm (tw_api w) \<noteq> None} = set (map fst (params_of w))"
    by (auto simp: api_FindParameter_def Lookup_def params_of_def smap_get_None_iff)
  have "distinct (map fst (params_of w))" using ok by (simp add: smap_ok_def strict_sorted_iff)
  then show "length (params_of w) = card {nm. api_FindParameter nm (tw_api w) \<noteq> None}"
    unfolding k by (simp only: distinct_card length_map)
  show "finite {nm. api_FindParameter nm (tw_api w) \<noteq> None}" unfolding k by simp
qed

lemma AssignParameterId_le:
  assumes "hist_ok (api_hist (tw_api w))" "length (params_of w) < 2 ^ 32"
  shows "unat (AssignParameterId (tw_api w)) \<le> length (params_of w)"
proof -
  let ?n = "AssignParameterId (tw_api w)" and ?S = "pa_number ` snd ` set (params_of w)"
  have "\<forall>m < ?n. m \<in> ?S" using AssignParameterId_mex(2) assms by (simp add: params_of_def)
  then have "{m. m < ?n} \<subseteq> ?S" by auto
  then have "card {m. m < ?n} \<le> card ?S" by (intro card_mono) simp_all
  also have "card ?S \<le> card (set (params_of w))"
    by (metis card_image_le finite_imageI finite_set order_trans)
  also have "\<dots> \<le> length (params_of w)" by (rule card_length)
  finally have "card {m. m < ?n} \<le> length (params_of w)" .
  moreover have l: "unat ?n < 2 ^ 32" by (rule order_less_le_trans [OF unsigned_less]) simp
  moreover have "{m. m < ?n} = of_nat ` {..<unat ?n}"
  proof -
    have "m = of_nat (unat m)" "unat m < unat ?n" if "m < ?n" for m using that by (simp_all add: word_less_nat_alt)
    moreover have "of_nat i < ?n" if "i < unat ?n" for i
      using that l by (simp add: word_less_nat_alt unat_of_nat)
    ultimately show ?thesis by blast
  qed
  moreover have "inj_on (of_nat :: nat \<Rightarrow> u32) {..<unat ?n}"
  proof (rule inj_onI)
    fix i j assume "i \<in> {..<unat ?n}" "j \<in> {..<unat ?n}" "(of_nat i :: u32) = of_nat j"
    then have "unat (of_nat i :: u32) = unat (of_nat j :: u32)" "i < 2 ^ 32" "j < 2 ^ 32" using l by auto
    then show "i = j" by (simp add: unat_of_nat)
  qed
  ultimately show ?thesis by (simp add: card_image)
qed

lemma Bind_objects:
  assumes "Bind p w = TOk () w'" "obj_of p w = Some t"
  shows "\<exists>t'. obj_of p w' = Some t' \<and> tp_parameter t' = Some (tp_name t)"
    "q \<noteq> p \<Longrightarrow> obj_of q w' = obj_of q w"
  using assms
  by (auto simp: Bind_def with_obj_def obj_of_def put_obj_def split: option.splits api_result.splits if_splits)

lemma Bind_room:
  assumes "room (Suc k) w" "obj_of p w = Some t"
  obtains w' q where "Bind p w = TOk () w'" "room k w'" "api_FindParameter (tp_name t) (tw_api w') = Some q"
    "\<forall>nm. nm \<noteq> tp_name t \<longrightarrow> api_FindParameter nm (tw_api w') = api_FindParameter nm (tw_api w)"
    "\<forall>q'. q' \<noteq> p \<longrightarrow> obj_of q' w' = obj_of q' w"
    "\<exists>t'. obj_of p w' = Some t' \<and> tp_parameter t' = Some (tp_name t)" "tw_event w' = tw_event w"
proof -
  have ok: "hist_ok (api_hist (tw_api w))" "length (params_of w) < 2 ^ 32"
    using assms(1) by (simp_all add: room_def max_params_def)
  obtain w' q where b: "Bind p w = TOk () w'" "hist_ok (api_hist (tw_api w'))"
    "api_FindParameter (tp_name t) (tw_api w') = Some q"
    "case api_FindParameter (tp_name t) (tw_api w) of
       Some q' \<Rightarrow> q = q' | None \<Rightarrow> pa_number q = AssignParameterId (tw_api w)"
    "\<forall>k. k \<noteq> tp_name t \<longrightarrow> api_FindParameter k (tw_api w') = api_FindParameter k (tw_api w)" "tw_event w' = tw_event w"
    using Bind_result [OF ok(1) _ assms(2)] ok(2) unfolding params_of_def by blast
  let ?K = "\<lambda>w. {nm. api_FindParameter nm (tw_api w) \<noteq> None}"
  have "?K w' \<subseteq> insert (tp_name t) (?K w)" using b(5) by auto
  then have "card (?K w') \<le> card (insert (tp_name t) (?K w))"
    using params_keys(2) [OF ok(1)] by (intro card_mono) simp_all
  also have "\<dots> \<le> Suc (card (?K w))" using params_keys(2) [OF ok(1)] by (simp add: card_insert_if)
  finally have "card (?K w') \<le> Suc (card (?K w))" .
  then have "length (params_of w') \<le> Suc (length (params_of w))"
    using params_keys(1) [OF ok(1)] params_keys(1) [OF b(2)] by simp
  moreover have "unat (pa_number q) < max_params"
    using b(4) assms(1) AssignParameterId_le [OF ok] by (auto simp: room_def split: option.splits)
  ultimately have "room k w'"
    using assms(1) b(2,3,5) unfolding room_def by (metis add_Suc_right add_Suc add_le_mono1 option.inject order_trans)
  then show thesis
    using that [of w' q] b Bind_objects [OF b(1) assms(2)] by (auto split: option.splits)
qed

subsection \<open>Pushing\<close>

definition vec_inv :: "tree_vector \<Rightarrow> vec_info \<Rightarrow> vec_world \<Rightarrow> bool" where
  "vec_inv v vi vw \<longleftrightarrow> info_of (tv_pInfo v) vw = Some vi \<and>
     (\<forall>k < length (vi_createdParameters vi). \<exists>t. obj_of (vi_createdParameters vi ! k) (vw_tree vw) = Some t \<and>
        tp_parameter t = Some (nextName (tv_baseName v) k) \<and>
        api_FindParameter (nextName (tv_baseName v) k) (tw_api (vw_tree vw)) \<noteq> None)"

definition vec_number :: "tree_vector \<Rightarrow> nat \<Rightarrow> tree_world \<Rightarrow> u32" where
  "vec_number v k w = pa_number (the (api_FindParameter (nextName (tv_baseName v) k) (tw_api w)))"

lemma nextName_inject [simp]: "nextName nm i = nextName nm j \<longleftrightarrow> i = j"
  by (simp add: nextName_def)

lemma vec_inv_bound:
  "vec_inv v vi vw \<Longrightarrow> k < length (vi_createdParameters vi) \<Longrightarrow>
   bound (vi_createdParameters vi ! k) (vec_number v k (vw_tree vw)) (vw_tree vw)"
  by (fastforce simp: vec_inv_def bound_def vec_number_def)

lemma info_of_put [simp]: "info_of j (put_info i vi vw) = (if j = i then Some vi else info_of j vw)"
  "vw_tree (put_info i vi vw) = vw_tree vw" "vw_baseNameMap (put_info i vi vw) = vw_baseNameMap vw"
  "info_of j (vw\<lparr> vw_tree := w \<rparr>) = info_of j vw"
  by (simp_all add: info_of_def put_info_def)

lemma new_param_fresh:
  assumes "obj_of p w = None"
  obtains w' t where "new_param p s lo hi u w = TOk () w'" "obj_of p w' = Some t" "tp_name t = s" "tp_channels t = 100"
    "\<And>q. q \<noteq> p \<Longrightarrow> obj_of q w' = obj_of q w" "tw_api w' = tw_api w" "tw_event w' = tw_event w"
proof -
  from construct_axis [OF assms, of s 100 lo hi u] obtain w' where
    "new_param p s lo hi u w = TOk () w'"
    "\<And>q. obj_of q w' = (if q = p then Some (raw_param\<lparr> tp_name := s, tp_units := u, tp_low := lo, tp_high := hi,
       tp_channels := 100, tp_initialized := True \<rparr>) else obj_of q w)"
    "tw_api w' = tw_api w" "tw_event w' = tw_event w" unfolding new_param_def by metis
  then show thesis using that by simp
qed

text \<open>Either way the element for the next value is bound and at its place in the list.\<close>

lemma createEventParameter_step:
  assumes inv: "vec_inv v vi vw" "vi_event vi = take n (vi_createdParameters vi)" "n \<le> length (vi_createdParameters vi)"
    and rm: "room (Suc k) (vw_tree vw)" and p: "obj_of p (vw_tree vw) = None"
  obtains vw' vi' where
    "createEventParameter p v vw = VOk (vi_createdParameters vi' ! n) vw'" "vec_inv v vi' vw'"
    "vi_createdParameters vi' = vi_createdParameters vi @ (if n < length (vi_createdParameters vi) then [] else [p])"
    "vi_event vi' = take (Suc n) (vi_createdParameters vi')" "room k (vw_tree vw')"
    "tw_event (vw_tree vw') = tw_event (vw_tree vw)"
    "\<And>j. j < length (vi_createdParameters vi) \<Longrightarrow> vec_number v j (vw_tree vw') = vec_number v j (vw_tree vw)"
    "\<And>q. q \<noteq> p \<Longrightarrow> obj_of q (vw_tree vw') = obj_of q (vw_tree vw)"
proof (cases "n < length (vi_createdParameters vi)")
  case True
  let ?vi = "vi\<lparr> vi_event := vi_event vi @ [vi_createdParameters vi ! n] \<rparr>"
  let ?vw = "put_info (tv_pInfo v) ?vi vw"
  have i: "info_of (tv_pInfo v) vw = Some vi" using inv(1) by (simp add: vec_inv_def)
  have "createEventParameter p v vw = VOk (vi_createdParameters vi ! n) ?vw"
    using i True inv(2) by (simp add: createEventParameter_def with_info_def update_info_def)
  moreover have "vec_inv v ?vi ?vw" using inv(1) by (simp add: vec_inv_def)
  moreover have "room k (vw_tree ?vw)" using rm by (simp add: room_def)
  ultimately show thesis
    using that [of ?vi ?vw] True inv(2) by (simp add: take_Suc_conv_app_nth)
next
  case False
  let ?c = "vi_createdParameters vi" and ?w = "vw_tree vw"
  let ?nm = "nextName (tv_baseName v) (length ?c)"
  have n: "n = length ?c" using False inv(3) by simp
  have i: "info_of (tv_pInfo v) vw = Some vi" using inv(1) by (simp add: vec_inv_def)
  obtain w1 t where w1: "new_param p ?nm (vi_low vi) (vi_high vi) (vi_units vi) ?w = TOk () w1"
    and t: "obj_of p w1 = Some t" "tp_name t = ?nm" and w1': "\<And>q. q \<noteq> p \<Longrightarrow> obj_of q w1 = obj_of q ?w"
    "tw_api w1 = tw_api ?w" "tw_event w1 = tw_event ?w"
    using new_param_fresh [OF p, of ?nm "vi_low vi" "vi_high vi" "vi_units vi"] by metis
  have "room (Suc k) w1" using rm w1'(2) by (simp add: room_def params_of_def)
  from Bind_room [OF this t(1)] obtain w2 q where w2: "Bind p w1 = TOk () w2" "room k w2"
    "api_FindParameter ?nm (tw_api w2) = Some q"
    "\<forall>nm. nm \<noteq> ?nm \<longrightarrow> api_FindParameter nm (tw_api w2) = api_FindParameter nm (tw_api w1)"
    "\<forall>q'. q' \<noteq> p \<longrightarrow> obj_of q' w2 = obj_of q' w1"
    "\<exists>t'. obj_of p w2 = Some t' \<and> tp_parameter t' = Some ?nm" "tw_event w2 = tw_event w1"
    unfolding t(2) by blast
  let ?vi = "vi\<lparr> vi_createdParameters := ?c @ [p], vi_event := vi_event vi @ [p] \<rparr>"
  let ?vw = "put_info (tv_pInfo v) ?vi (put_info (tv_pInfo v) (vi\<lparr> vi_createdParameters := ?c @ [p] \<rparr>) (vw\<lparr> vw_tree := w2 \<rparr>))"
  have "vec_createParameter p v vw = VOk p (put_info (tv_pInfo v) (vi\<lparr> vi_createdParameters := ?c @ [p] \<rparr>) (vw\<lparr> vw_tree := w2 \<rparr>))"
    using i w1 w2(1) by (simp add: vec_createParameter_def with_info_def update_info_def on_tree_def)
  then have "createEventParameter p v vw = VOk p ?vw"
    using i n inv(2) by (simp add: createEventParameter_def with_info_def update_info_def)
  moreover have "vec_inv v ?vi ?vw"
  proof -
    have "obj_of (?c ! j) w2 = obj_of (?c ! j) ?w" if "j < length ?c" for j
      using inv(1) p that w1'(1) w2(5) unfolding vec_inv_def by (metis option.distinct(1))
    moreover have "api_FindParameter (nextName (tv_baseName v) j) (tw_api w2) =
      api_FindParameter (nextName (tv_baseName v) j) (tw_api ?w)" if "j < length ?c" for j
      using that w2(4) w1'(2) by simp
    ultimately show ?thesis
      using inv(1) w2(3,6) by (auto simp: vec_inv_def nth_append less_Suc_eq)
  qed
  moreover have "vec_number v j w2 = vec_number v j ?w" if "j < length ?c" for j
    using that w2(4) w1'(2) by (simp add: vec_number_def)
  ultimately show thesis
    using that [of ?vi ?vw] n inv(2) w1'(1,3) w2(2,5,7) by simp
qed

text \<open>A vector that has taken ys in this event.\<close>

definition vec_holds :: "tree_vector \<Rightarrow> rat list \<Rightarrow> vec_info \<Rightarrow> vec_world \<Rightarrow> bool" where
  "vec_holds v ys vi vw \<longleftrightarrow> vec_inv v vi vw \<and> length ys \<le> length (vi_createdParameters vi) \<and>
     vi_event vi = take (length ys) (vi_createdParameters vi) \<and>
     (\<exists>e. tw_event (vw_tree vw) = Some e \<and> ev_ok e \<and>
       (\<forall>j < length ys. ev_abs e (unat (vec_number v j (vw_tree vw))) = Some (ys ! j)))"

lemma vec_number_room:
  assumes "room k (vw_tree vw)" "vec_inv v vi vw" "j < length (vi_createdParameters vi)"
  shows "unat (vec_number v j (vw_tree vw)) < max_params"
  using assms by (fastforce simp: vec_inv_def vec_number_def room_def)

lemma vec_number_inject:
  assumes "room k (vw_tree vw)" "vec_inv v vi vw" "j < length (vi_createdParameters vi)" "n < length (vi_createdParameters vi)"
    "vec_number v j (vw_tree vw) = vec_number v n (vw_tree vw)"
  shows "j = n"
proof -
  obtain p q where "api_FindParameter (nextName (tv_baseName v) j) (tw_api (vw_tree vw)) = Some p"
    "api_FindParameter (nextName (tv_baseName v) n) (tw_api (vw_tree vw)) = Some q"
    using assms(2-4) unfolding vec_inv_def by blast
  moreover have "unique_numbers pa_number (d_map (h_params (api_hist (tw_api (vw_tree vw)))))"
    using assms(1) by (simp add: room_def hist_ok_defs)
  ultimately have "nextName (tv_baseName v) j = nextName (tv_baseName v) n"
    using assms(5) by (fastforce simp: vec_number_def api_FindParameter_def Lookup_def unique_numbers_def)
  then show ?thesis by simp
qed

lemma push_step:
  assumes h: "vec_holds v ys vi vw" and rm: "room (Suc k) (vw_tree vw)" and p: "obj_of p (vw_tree vw) = None"
  obtains vw' vi' q where "vec_push_back p x v vw = VOk q vw'" "vec_holds v (ys @ [x]) vi' vw'" "room k (vw_tree vw')"
    "length (vi_createdParameters vi') = max (length (vi_createdParameters vi)) (Suc (length ys))"
    "\<forall>q. q \<noteq> p \<longrightarrow> obj_of q (vw_tree vw') = obj_of q (vw_tree vw)"
proof -
  let ?n = "length ys"
  have inv: "vec_inv v vi vw" "vi_event vi = take ?n (vi_createdParameters vi)" "?n \<le> length (vi_createdParameters vi)"
    using h by (simp_all add: vec_holds_def)
  obtain e where e: "tw_event (vw_tree vw) = Some e" "ev_ok e"
    "\<forall>j < ?n. ev_abs e (unat (vec_number v j (vw_tree vw))) = Some (ys ! j)"
    using h unfolding vec_holds_def by blast
  from createEventParameter_step [OF inv rm p] obtain vw1 vi' where c:
    "createEventParameter p v vw = VOk (vi_createdParameters vi' ! ?n) vw1" "vec_inv v vi' vw1"
    "vi_createdParameters vi' = vi_createdParameters vi @ (if ?n < length (vi_createdParameters vi) then [] else [p])"
    "vi_event vi' = take (Suc ?n) (vi_createdParameters vi')" "room k (vw_tree vw1)"
    "tw_event (vw_tree vw1) = tw_event (vw_tree vw)"
    "\<forall>j < length (vi_createdParameters vi). vec_number v j (vw_tree vw1) = vec_number v j (vw_tree vw)"
    "\<forall>q. q \<noteq> p \<longrightarrow> obj_of q (vw_tree vw1) = obj_of q (vw_tree vw)"
    by metis
  let ?w = "vw_tree vw1" and ?N = "vec_number v ?n (vw_tree vw1)"
  have n: "?n < length (vi_createdParameters vi')" using c(3) inv(3) by auto
  obtain e' where e': "ev_set ?N x e = Some e'" "ev_ok e'" "ev_abs e' = (ev_abs e)(unat ?N \<mapsto> x)"
    using ev_set_spec [OF e(2) vec_number_room [OF c(5,2) n]] by metis
  let ?vw = "vw1\<lparr> vw_tree := setEvent e' ?w \<rparr>"
  have "tp_setValue (vi_createdParameters vi' ! ?n) x ?w = TOk () (setEvent e' ?w)"
    using setValue_bound [OF vec_inv_bound [OF c(2) n] _ e'(1)] c(6) e(1) by simp
  then have "vec_push_back p x v vw = VOk (vi_createdParameters vi' ! ?n) ?vw"
    by (simp add: vec_push_back_def c(1) on_tree_def)
  moreover have "vec_inv v vi' ?vw" using c(2) by (simp add: vec_inv_def)
  moreover have "room k (vw_tree ?vw)" using c(5) by (simp add: room_def params_of_def)
  moreover have "vec_number v j (setEvent e' ?w) = vec_number v j ?w" for j by (simp add: vec_number_def)
  moreover have "ev_abs e' (unat (vec_number v j ?w)) = Some ((ys @ [x]) ! j)" if "j < Suc ?n" for j
  proof (cases "j = ?n")
    case False
    then have j: "j < ?n" using that by simp
    then have "vec_number v j ?w \<noteq> ?N" using vec_number_inject [OF c(5,2) _ n, of j] n by auto
    moreover have "vec_number v j ?w = vec_number v j (vw_tree vw)" using c(7) j inv(3) by simp
    ultimately show ?thesis using e(3) e'(3) j by (simp add: nth_append word_unat_eq_iff)
  qed (simp add: e'(3))
  moreover have "length (vi_createdParameters vi') = max (length (vi_createdParameters vi)) (Suc ?n)"
    using c(3) inv(3) by auto
  ultimately show thesis
    using that [of "vi_createdParameters vi' ! ?n" ?vw vi'] c(4,8) e'(2) n by (auto simp: vec_holds_def)
qed

text \<open>An event processor that pushes; each value comes with where a new object would be.\<close>

fun push_all :: "(nat \<times> rat) list \<Rightarrow> tree_vector \<Rightarrow> unit vec_op" where
  "push_all [] v vw = VOk () vw"
| "push_all ((p, x) # pxs) v vw = vbind (vec_push_back p x v vw) (\<lambda>_. push_all pxs v)"

lemma push_all_holds:
  assumes "vec_holds v ys vi vw" "room (length pxs) (vw_tree vw)" "distinct (map fst pxs)"
    "\<forall>p \<in> fst ` set pxs. obj_of p (vw_tree vw) = None"
  shows "\<exists>vw' vi'. push_all pxs v vw = VOk () vw' \<and> vec_holds v (ys @ map snd pxs) vi' vw' \<and> room 0 (vw_tree vw') \<and>
    length (vi_createdParameters vi') = max (length (vi_createdParameters vi)) (length ys + length pxs)"
  using assms
proof (induction pxs arbitrary: ys vi vw)
  case Nil
  then show ?case by (auto simp: vec_holds_def)
next
  case (Cons px pxs)
  obtain p x where px: "px = (p, x)" by fastforce
  have "room (Suc (length pxs)) (vw_tree vw)" "obj_of p (vw_tree vw) = None" using Cons.prems px by auto
  from push_step [OF Cons.prems(1) this, of x] obtain vw1 vi1 q where s: "vec_push_back p x v vw = VOk q vw1"
    "vec_holds v (ys @ [x]) vi1 vw1" "room (length pxs) (vw_tree vw1)"
    "length (vi_createdParameters vi1) = max (length (vi_createdParameters vi)) (Suc (length ys))"
    "\<forall>q. q \<noteq> p \<longrightarrow> obj_of q (vw_tree vw1) = obj_of q (vw_tree vw)" by metis
  have "distinct (map fst pxs)" "\<forall>p' \<in> fst ` set pxs. obj_of p' (vw_tree vw1) = None"
    using Cons.prems(3,4) px s(5) by (auto, metis fst_conv image_eqI)
  from Cons.IH [OF s(2,3) this] show ?case using s(1,4) px by (auto simp: max_def split: if_splits)
qed

subsection \<open>Starting an event\<close>

definition map_alive :: "vec_world \<Rightarrow> bool" where
  "map_alive vw \<longleftrightarrow> (\<forall>e \<in> set (vw_baseNameMap vw). info_of (snd e) vw \<noteq> None)"

lemma clear_all:
  assumes "\<forall>e \<in> set m. info_of (snd e) vw \<noteq> None"
  shows "\<exists>vw'. vec_for_each (\<lambda>e. update_info (snd e) (\<lambda>vi. vi\<lparr> vi_event := [] \<rparr>)) m vw = VOk () vw' \<and>
    vw_tree vw' = vw_tree vw \<and> (\<forall>i. info_of i vw' =
      (if i \<in> snd ` set m then map_option (\<lambda>vi. vi\<lparr> vi_event := [] \<rparr>) (info_of i vw) else info_of i vw))"
  using assms
proof (induction m arbitrary: vw)
  case (Cons e m)
  obtain vi where vi: "info_of (snd e) vw = Some vi" using Cons.prems by auto
  let ?vw = "put_info (snd e) (vi\<lparr> vi_event := [] \<rparr>) vw"
  have "\<forall>e' \<in> set m. info_of (snd e') ?vw \<noteq> None" using Cons.prems by simp
  from Cons.IH [OF this] show ?case
    using vi by (auto simp: update_info_def with_info_def)
qed simp

subsection \<open>Properties\<close>

text \<open>
  C32. In each event a vector holds what was pushed in it: after BeginEvent and any number of pushes
  its size is that number, the element at an index reads the value pushed there, the index after
  the last is out of range, and parameters were created only as far as the vector had never grown.
\<close>

theorem vector_event:
  assumes v: "vec_inv v vi vw" "map_alive vw" "(tv_baseName v, tv_pInfo v) \<in> set (vw_baseNameMap vw)"
    and w: "room (length pxs) (vw_tree vw)" "tw_event (vw_tree vw) = Some e" "ev_ok e"
    and p: "distinct (map fst pxs)" "\<forall>p \<in> fst ` set pxs. obj_of p (vw_tree vw) = None"
  shows "\<exists>vw1 vw2. BeginEvent vw = VOk () vw1 \<and> push_all pxs v vw1 = VOk () vw2 \<and>
    vec_size v vw2 = VOk (length pxs) vw2 \<and>
    allocation v vw2 = VOk (max (length (vi_createdParameters vi)) (length pxs)) vw2 \<and>
    (\<forall>i < length pxs. \<exists>q w'. vec_at v i vw2 = VOk q vw2 \<and> tp_getValue q (vw_tree vw2) = TOk (snd (pxs ! i)) w') \<and>
    vec_at v (length pxs) vw2 = VThrows OutOfRange vw2"
proof -
  obtain vw1 where b: "BeginEvent vw = VOk () vw1" "vw_tree vw1 = vw_tree vw"
    "\<forall>i. info_of i vw1 = (if i \<in> snd ` set (vw_baseNameMap vw)
       then map_option (\<lambda>vi. vi\<lparr> vi_event := [] \<rparr>) (info_of i vw) else info_of i vw)"
    using clear_all [of "vw_baseNameMap vw" vw] v(2) unfolding map_alive_def BeginEvent_def by blast
  let ?vi = "vi\<lparr> vi_event := [] \<rparr>"
  have "info_of (tv_pInfo v) vw1 = Some ?vi" using b(3) v(1,3) by (force simp: vec_inv_def)
  then have h: "vec_holds v [] ?vi vw1" using v(1) w(2,3) b(2) by (simp add: vec_holds_def vec_inv_def)
  have "room (length pxs) (vw_tree vw1)" "\<forall>p \<in> fst ` set pxs. obj_of p (vw_tree vw1) = None"
    using w(1) p(2) b(2) by simp_all
  from push_all_holds [OF h this(1) p(1) this(2)] obtain vw2 vi2 where s: "push_all pxs v vw1 = VOk () vw2"
    "vec_holds v (map snd pxs) vi2 vw2" "room 0 (vw_tree vw2)"
    "length (vi_createdParameters vi2) = max (length (vi_createdParameters vi)) (length pxs)" by auto
  have i: "info_of (tv_pInfo v) vw2 = Some vi2" "vec_inv v vi2 vw2"
    "vi_event vi2 = take (length pxs) (vi_createdParameters vi2)" "length pxs \<le> length (vi_createdParameters vi2)"
    using s(2) by (simp_all add: vec_holds_def vec_inv_def)
  obtain e2 where e2: "tw_event (vw_tree vw2) = Some e2" "ev_ok e2"
    "\<forall>j < length pxs. ev_abs e2 (unat (vec_number v j (vw_tree vw2))) = Some (snd (pxs ! j))"
    using s(2) unfolding vec_holds_def by auto
  have "\<exists>q w'. vec_at v j vw2 = VOk q vw2 \<and> tp_getValue q (vw_tree vw2) = TOk (snd (pxs ! j)) w'" if "j < length pxs" for j
  proof -
    have j: "j < length (vi_createdParameters vi2)" using that i(4) by simp
    from getValue_bound [OF vec_inv_bound [OF i(2) j] e2(1,2) vec_number_room [OF s(3) i(2) j]]
    have "\<exists>w'. tp_getValue (vi_createdParameters vi2 ! j) (vw_tree vw2) = TOk (snd (pxs ! j)) w'"
      using e2(3) that by auto
    moreover have "vec_at v j vw2 = VOk (vi_createdParameters vi2 ! j) vw2"
      using that i by (simp add: vec_at_def with_info_def)
    ultimately show ?thesis by blast
  qed
  then show ?thesis
    using b(1) s(1,4) i by (intro exI [of _ vw1] exI [of _ vw2])
      (simp add: vec_size_def allocation_def vec_at_def with_info_def)
qed

definition demo_vectors :: vec_world where
  "demo_vectors = \<lparr> vw_tree = demo_world, vw_baseNameMap = [(''v'', 0)], vw_infos = [(0, new_vec_info)] \<rparr>"

definition demo_vector :: tree_vector where
  "demo_vector = \<lparr> tv_baseName = ''v'', tv_pInfo = 0 \<rparr>"

theorem vector_event_witness:
  "\<exists>vw1 vw2. BeginEvent demo_vectors = VOk () vw1 \<and> push_all [(1, 5), (2, 7)] demo_vector vw1 = VOk () vw2 \<and>
     vec_size demo_vector vw2 = VOk 2 vw2"
proof -
  have "vec_inv demo_vector new_vec_info demo_vectors" "map_alive demo_vectors"
    "(tv_baseName demo_vector, tv_pInfo demo_vector) \<in> set (vw_baseNameMap demo_vectors)"
    by (simp_all add: vec_inv_def demo_vector_def demo_vectors_def new_vec_info_def info_of_def map_alive_def)
  moreover have "params_of demo_world = []"
    by (simp add: params_of_def demo_world_def new_api_facts)
  then have "room (length [(1 :: nat, 5 :: rat), (2, 7)]) (vw_tree demo_vectors)"
    using demo_world_facts by (simp add: room_def demo_vectors_def max_params_def)
  moreover have "tw_event (vw_tree demo_vectors) = Some new_event" by (simp add: demo_vectors_def demo_world_facts)
  moreover have "distinct (map fst [(1 :: nat, 5 :: rat), (2, 7)])"
    "\<forall>p \<in> fst ` set [(1 :: nat, 5 :: rat), (2, 7)]. obj_of p (vw_tree demo_vectors) = None"
    by (simp_all add: demo_vectors_def demo_world_def obj_of_def)
  ultimately show ?thesis
    using vector_event [of demo_vector new_vec_info demo_vectors "[(1, 5), (2, 7)]" new_event] by fastforce
qed

lemma setBins_never:
  "info_of (tv_pInfo v) vw = Some vi \<Longrightarrow> vi_createdParameters vi \<noteq> [] \<Longrightarrow> vec_setBins stack bins v vw = None"
proof (induction stack arbitrary: vi vw)
  case (Suc stack)
  obtain p ps where "vi_createdParameters vi = p # ps" using Suc.prems(2) by (cases "vi_createdParameters vi") auto
  then show ?case
    using Suc.prems(1) Suc.IH [of "put_info (tv_pInfo v) (vi\<lparr> vi_bins := bins \<rparr>) vw" "vi\<lparr> vi_bins := bins \<rparr>"] by simp
qed simp

text \<open>
  C33. setBins returns only for a vector that has created no parameter yet: for any other it calls
  itself without end, whatever the stack.
\<close>

theorem setBins_returns:
  assumes "info_of (tv_pInfo v) vw = Some vi"
  shows "(\<exists>stack. vec_setBins stack bins v vw \<noteq> None) \<longleftrightarrow> vi_createdParameters vi = []"
proof -
  have "vec_setBins 1 bins v vw \<noteq> None" if "vi_createdParameters vi = []" using assms that by simp
  then show ?thesis using setBins_never [OF assms] by (cases "vi_createdParameters vi = []") (metis, simp)
qed

theorem setBins_returns_witness:
  "vec_setBins 1000 200 demo_vector (put_info 0 (new_vec_info\<lparr> vi_createdParameters := [5] \<rparr>) demo_vectors) = None"
  using setBins_returns [of demo_vector "put_info 0 (new_vec_info\<lparr> vi_createdParameters := [5] \<rparr>) demo_vectors"
      "new_vec_info\<lparr> vi_createdParameters := [5] \<rparr>" 200]
  by (simp add: demo_vector_def)

end
