(* ===== verification/CaenHits.thy ===== *)
theory CaenHits
  imports Bytes TreeParameter "HOL-Library.Monad_Syntax" "HOL-Library.AList"
begin

text \<open>
  CAEN digitizers (src/main/Core/CAENHit.cpp, CAENModuleHits.cpp, CAENParser.cpp,
  CAENParameterMap.cpp, CAENEventProcessor.cpp): hits are unpacked from the fragments of built
  events, collected by module, and assigned to tree parameters.  The fragment index is the
  unified format library's: an event is the list of its fragments.  Memory behind a pointer is a
  list of bytes, None reading past its end.  An assignment to a tree parameter is recorded with
  its value.
\<close>

subsection \<open>Reading\<close>

definition rd8 :: "u8 list \<Rightarrow> (u8 \<times> u8 list) option" where
  "rd8 bs = (case bs of [] \<Rightarrow> None | b # r \<Rightarrow> Some (b, r))"

definition rd16 :: "u8 list \<Rightarrow> (u16 \<times> u8 list) option" where
  "rd16 bs = map_option (\<lambda>v. (v, drop 2 bs)) (get16 bs)"

definition rd32 :: "u8 list \<Rightarrow> (u32 \<times> u8 list) option" where
  "rd32 bs = map_option (\<lambda>v. (v, drop 4 bs)) (get32 bs)"

definition rd64 :: "u8 list \<Rightarrow> (u64 \<times> u8 list) option" where
  "rd64 bs = map_option (\<lambda>v. (v, drop 8 bs)) (get64 bs)"

fun rd_many :: "(u8 list \<Rightarrow> ('a \<times> u8 list) option) \<Rightarrow> nat \<Rightarrow> u8 list \<Rightarrow> ('a list \<times> u8 list) option" where
  "rd_many rd 0 bs = Some ([], bs)"
| "rd_many rd (Suc n) bs = do { (x, r) \<leftarrow> rd bs; (xs, r') \<leftarrow> rd_many rd n r; Some (x # xs, r') }"

definition skip :: "nat \<Rightarrow> u8 list \<Rightarrow> u8 list option" where
  "skip n bs = (if length bs < n then None else Some (drop n bs))"

lemma rd_put [simp]:
  "rd16 (put16 v @ r) = Some (v, r)" "rd32 (put32 w @ r) = Some (w, r)" "rd64 (put64 x @ r) = Some (x, r)"
  "rd8 (b # r) = Some (b, r)"
  by (simp_all add: rd8_def rd16_def rd32_def rd64_def)

lemma skip_append [simp]: "length p = n \<Longrightarrow> skip n (p @ r) = Some r"
  by (auto simp: skip_def)

lemma rd_many_put [simp]:
  assumes "\<And>x r. rd (put x @ r) = Some (x, r)"
  shows "rd_many rd (length xs) (concat (map put xs) @ r) = Some (xs, r)"
  by (induction xs) (simp_all add: assms)

subsection \<open>Hits\<close>

record hit_common =
  hit_timeTag :: u64
  hit_channel :: u32
  hit_trace1 :: "u16 list"
  hit_trace2 :: "u16 list"

datatype HitType = PSD | PHA

datatype caen_hit =
    CAENPHAHit hit_common u16 u16 u32 i32
  | CAENPSDHit hit_common u16 u16 u16 u16 u16 i32

fun hit_type :: "caen_hit \<Rightarrow> HitType" where
  "hit_type (CAENPHAHit _ _ _ _ _) = PHA"
| "hit_type (CAENPSDHit _ _ _ _ _ _ _) = PSD"

fun common :: "caen_hit \<Rightarrow> hit_common" where
  "common (CAENPHAHit c _ _ _ _) = c"
| "common (CAENPSDHit c _ _ _ _ _ _) = c"

text \<open>The flag for a second trace takes two bytes; of a PSD hit only the first byte counts.\<close>

definition unpackTraces :: "HitType \<Rightarrow> u8 list \<Rightarrow> (u16 list \<times> u16 list) option" where
  "unpackTraces t bs = do {
     (n, r) \<leftarrow> rd32 bs;
     if n = 0 then Some ([], [])
     else do {
       (dual, r) \<leftarrow> (case t of
           PSD \<Rightarrow> do { (d, r) \<leftarrow> rd8 r; (_, r) \<leftarrow> rd8 r; Some (d \<noteq> 0, r) }
         | PHA \<Rightarrow> do { (d, r) \<leftarrow> rd16 r; Some (d \<noteq> 0, r) });
       (t1, r) \<leftarrow> rd_many rd16 (unat n) r;
       if dual then do { (t2, r) \<leftarrow> rd_many rd16 (unat n) r; Some (t1, t2) }
       else Some (t1, [])
     }
   }"

definition unpack_pha :: "i32 \<Rightarrow> u8 list \<Rightarrow> caen_hit option" where
  "unpack_pha mul bs = do {
     r \<leftarrow> skip 8 bs;
     (ch, r) \<leftarrow> rd32 r;
     (tag, r) \<leftarrow> rd64 r;
     (energy, r) \<leftarrow> rd16 r;
     (x1, r) \<leftarrow> rd16 r;
     (x2, r) \<leftarrow> rd32 r;
     (t1, t2) \<leftarrow> unpackTraces PHA r;
     Some (CAENPHAHit \<lparr> hit_timeTag = tag, hit_channel = ch, hit_trace1 = t1, hit_trace2 = t2 \<rparr> energy x1 x2 mul)
   }"

text \<open>There are traces if the size of the trace block is more than that of the size itself.\<close>

definition unpack_psd :: "i32 \<Rightarrow> u8 list \<Rightarrow> caen_hit option" where
  "unpack_psd mul bs = do {
     r \<leftarrow> skip 8 bs;
     (time, r) \<leftarrow> rd64 r;
     (channel, r) \<leftarrow> rd16 r;
     (short, r) \<leftarrow> rd16 r;
     (long, r) \<leftarrow> rd16 r;
     (baseline, r) \<leftarrow> rd16 r;
     (pur, r) \<leftarrow> rd16 r;
     (cfd, r) \<leftarrow> rd32 r;
     (bsize, r) \<leftarrow> rd32 r;
     (t1, t2) \<leftarrow> (if 4 < bsize then unpackTraces PSD r else Some ([], []));
     Some (CAENPSDHit \<lparr> hit_timeTag = time, hit_channel = ucast channel, hit_trace1 = t1, hit_trace2 = t2 \<rparr>
             short long baseline pur (ucast (and cfd 0xff)) mul)
   }"

subsection \<open>Getters that compute\<close>

definition getExtra2 :: "u32 \<Rightarrow> u16" where
  "getExtra2 extra2 = ucast extra2"

definition int_double :: "i32 \<Rightarrow> rat" where
  "int_double n = of_int (sint n)"

definition u64_double :: "u64 \<Rightarrow> rat" where
  "u64_double n = f64 (of_nat (unat n))"

definition pha_getTime :: "u64 \<Rightarrow> u32 \<Rightarrow> i32 \<Rightarrow> rat" where
  "pha_getTime time extra2 mul =
     (let interpolation = f64 (f64 (int_double mul * 1000) * of_nat (unat (and extra2 0xffff))) / 65536
      in f64 (u64_double time + f64 (interpolation / 1000)))"

definition psd_getTime :: "u64 \<Rightarrow> u16 \<Rightarrow> i32 \<Rightarrow> rat" where
  "psd_getTime time cfd mul =
     (let fine = f64 (f64 (of_nat (unat cfd) * int_double mul) * 1000) / 1024
      in f64 (u64_double time + f64 (fine / 1000)))"

subsection \<open>Modules and the parser\<close>

text \<open>A module is found by its source id; hits are in the order they were added.\<close>

record module_info =
  mi_hitType :: HitType
  mi_multiplier :: i32
  mi_hits :: "caen_hit list"

record caen_parser =
  cp_modules :: "(u32 \<times> module_info) list"
  cp_hitModules :: "u32 list"

definition new_parser :: caen_parser where
  "new_parser = \<lparr> cp_modules = [], cp_hitModules = [] \<rparr>"

definition module_of :: "u32 \<Rightarrow> caen_parser \<Rightarrow> module_info option" where
  "module_of sid p = map_of (cp_modules p) sid"

definition put_module :: "u32 \<Rightarrow> module_info \<Rightarrow> caen_parser \<Rightarrow> caen_parser" where
  "put_module sid m p = p\<lparr> cp_modules := AList.update sid m (cp_modules p) \<rparr>"

definition addModule :: "u32 \<Rightarrow> HitType \<Rightarrow> i32 \<Rightarrow> caen_parser \<Rightarrow> caen_parser" where
  "addModule sid t mul p = put_module sid \<lparr> mi_hitType = t, mi_multiplier = mul, mi_hits = [] \<rparr> p"

definition unpack_hit :: "module_info \<Rightarrow> u8 list \<Rightarrow> caen_hit option" where
  "unpack_hit m bs = (case mi_hitType m of
      PSD \<Rightarrow> unpack_psd (mi_multiplier m) bs | PHA \<Rightarrow> unpack_pha (mi_multiplier m) bs)"

text \<open>A fragment's item starts with its body header, whose first longword is its size.\<close>

record fragment =
  fr_sourceId :: u32
  fr_timestamp :: u64
  fr_itembody :: "u8 list"

text \<open>The size is read of every fragment, the hit only of one whose source is a module.\<close>

definition fragment_size :: "fragment \<Rightarrow> u32 option" where
  "fragment_size f = get32 (fr_itembody f)"

definition fragment_hit :: "module_info \<Rightarrow> u32 \<Rightarrow> fragment \<Rightarrow> caen_hit option" where
  "fragment_hit m n f = Option.bind (skip (unat n) (fr_itembody f)) (unpack_hit m)"

definition add_hit :: "u32 \<Rightarrow> module_info \<Rightarrow> caen_hit \<Rightarrow> caen_parser \<Rightarrow> caen_parser" where
  "add_hit sid m h p =
     (let p' = (if mi_hits m = [] then p\<lparr> cp_hitModules := cp_hitModules p @ [sid] \<rparr> else p)
      in put_module sid (m\<lparr> mi_hits := mi_hits m @ [h] \<rparr>) p')"

fun parse_fragments :: "fragment list \<Rightarrow> caen_parser \<Rightarrow> caen_parser option" where
  "parse_fragments [] p = Some p"
| "parse_fragments (f # fs) p = (case fragment_size f of
      None \<Rightarrow> None
    | Some n \<Rightarrow> (case module_of (fr_sourceId f) p of
        None \<Rightarrow> parse_fragments fs p
      | Some m \<Rightarrow> (case fragment_hit m n f of
          None \<Rightarrow> None
        | Some h \<Rightarrow> parse_fragments fs (add_hit (fr_sourceId f) m h p))))"

definition parser_clear :: "caen_parser \<Rightarrow> caen_parser" where
  "parser_clear p =
     \<lparr> cp_modules = map (\<lambda>(s, m). (s, if s \<in> set (cp_hitModules p) then m\<lparr> mi_hits := [] \<rparr> else m)) (cp_modules p),
       cp_hitModules = [] \<rparr>"

subsection \<open>Bytes of a hit\<close>

definition put_traces :: "u8 list \<Rightarrow> u16 list \<Rightarrow> u16 list \<Rightarrow> u8 list" where
  "put_traces flag t1 t2 = put32 (of_nat (length t1)) @ flag @ concat (map put16 t1) @ concat (map put16 t2)"

definition trace_bytes :: "HitType \<Rightarrow> u16 list \<Rightarrow> u16 list \<Rightarrow> u8 list" where
  "trace_bytes t t1 t2 = (if t1 = [] then put32 0
     else put_traces (case t of PSD \<Rightarrow> [if t2 = [] then 0 else 1, 0] | PHA \<Rightarrow> put16 (if t2 = [] then 0 else 1)) t1 t2)"

fun hit_bytes :: "u8 list \<Rightarrow> u32 \<Rightarrow> caen_hit \<Rightarrow> u8 list" where
  "hit_bytes header block (CAENPHAHit c energy extra1 extra2 mul) =
     header @ put32 (hit_channel c) @ put64 (hit_timeTag c) @ put16 energy @ put16 extra1 @ put32 extra2 @
     trace_bytes PHA (hit_trace1 c) (hit_trace2 c)"
| "hit_bytes header block (CAENPSDHit c short long baseline pur cfd mul) =
     header @ put64 (hit_timeTag c) @ put16 (ucast (hit_channel c)) @ put16 short @ put16 long @ put16 baseline @
     put16 pur @ put32 (ucast cfd) @
     (if hit_trace1 c = [] then put32 4 else put32 block @ trace_bytes PSD (hit_trace1 c) (hit_trace2 c))"

definition traces_ok :: "hit_common \<Rightarrow> bool" where
  "traces_ok c \<longleftrightarrow> length (hit_trace1 c) < 2 ^ 32 \<and>
     (hit_trace2 c = [] \<or> length (hit_trace2 c) = length (hit_trace1 c))"

fun hit_ok :: "caen_hit \<Rightarrow> bool" where
  "hit_ok (CAENPHAHit c _ _ _ _) \<longleftrightarrow> traces_ok c"
| "hit_ok (CAENPSDHit c _ _ _ _ cfd _) \<longleftrightarrow> traces_ok c \<and> hit_channel c < 65536 \<and> cfd < 256"

fun hit_mult :: "caen_hit \<Rightarrow> i32" where
  "hit_mult (CAENPHAHit _ _ _ _ m) = m"
| "hit_mult (CAENPSDHit _ _ _ _ _ _ m) = m"

lemma unpack_trace_bytes:
  assumes "length t1 < 2 ^ 32" "t2 = [] \<or> length t2 = length t1"
  shows "unpackTraces t (trace_bytes t t1 t2 @ r) = (if t1 = [] then Some ([], []) else Some (t1, t2))"
proof (cases "t1 = []")
  case False
  then have n: "unat (of_nat (length t1) :: u32) = length t1" "(of_nat (length t1) :: u32) \<noteq> 0"
    using assms(1) by (auto simp: unat_of_nat word_unat_eq_iff)
  have many: "rd_many rd16 n (concat (map put16 xs) @ r) = Some (xs, r)" if "length xs = n" for n xs r
    unfolding that [symmetric] by (rule rd_many_put) simp
  show ?thesis
    using False n assms(2)
    by (cases t) (auto simp: unpackTraces_def trace_bytes_def put_traces_def many)
qed (simp add: unpackTraces_def trace_bytes_def)

text \<open>A hit written in the format of its module type is unpacked as it was, traces included.\<close>

lemma caen_hit_roundtrip:
  assumes "hit_ok h" "length header = 8" "4 < block"
  shows "unpack_hit \<lparr> mi_hitType = hit_type h, mi_multiplier = hit_mult h, mi_hits = hs \<rparr>
      (hit_bytes header block h @ r) = Some h"
proof (cases h)
  case (CAENPHAHit c energy x1 x2 m)
  then have "traces_ok c" using assms(1) by simp
  then show ?thesis
    using assms(2) unpack_trace_bytes [of "hit_trace1 c" "hit_trace2 c" PHA r] unfolding CAENPHAHit
    by (cases "hit_trace1 c = []") (auto simp: unpack_hit_def unpack_pha_def traces_ok_def)
next
  case (CAENPSDHit c short long baseline pur cfd m)
  then have ok: "traces_ok c" "hit_channel c < 65536" "cfd < 256" using assms(1) by simp_all
  have "ucast (ucast (hit_channel c) :: u16) = hit_channel c"
    using ok(2) by (simp add: word_unat_eq_iff word_less_nat_alt unsigned_ucast_eq unsigned_take_bit_eq take_bit_nat_eq_self_iff)
  moreover have "ucast (and (ucast cfd) 0xff :: u32) = cfd"
  proof -
    have "and (ucast cfd :: u32) 0xff = take_bit 8 (ucast cfd)" by (simp add: take_bit_eq_mask mask_eq_exp_minus_1)
    then show ?thesis
      using ok(3) by (simp add: word_unat_eq_iff word_less_nat_alt unsigned_ucast_eq unsigned_take_bit_eq take_bit_nat_eq_self_iff)
  qed
  ultimately show ?thesis
    using assms(2,3) ok(1) unpack_trace_bytes [of "hit_trace1 c" "hit_trace2 c" PSD r] unfolding CAENPSDHit
    by (cases "hit_trace1 c = []") (auto simp: unpack_hit_def unpack_psd_def traces_ok_def)
qed


subsection \<open>Hits by module\<close>

text \<open>The hits of the fragments of known modules, with their modules, in event order.\<close>

fun decoded_hits :: "caen_parser \<Rightarrow> fragment list \<Rightarrow> (u32 \<times> caen_hit) list option" where
  "decoded_hits p [] = Some []"
| "decoded_hits p (f # fs) = (case fragment_size f of
      None \<Rightarrow> None
    | Some n \<Rightarrow> (case module_of (fr_sourceId f) p of
        None \<Rightarrow> decoded_hits p fs
      | Some m \<Rightarrow> (case fragment_hit m n f of
          None \<Rightarrow> None
        | Some h \<Rightarrow> map_option ((#) (fr_sourceId f, h)) (decoded_hits p fs))))"

definition hits_of :: "u32 \<Rightarrow> (u32 \<times> caen_hit) list \<Rightarrow> caen_hit list" where
  "hits_of sid hs = map snd (filter (\<lambda>x. fst x = sid) hs)"

fun first_of :: "'a list \<Rightarrow> 'a list" where
  "first_of [] = []"
| "first_of (x # xs) = x # filter (\<lambda>y. y \<noteq> x) (first_of xs)"

definition no_hits :: "caen_parser \<Rightarrow> u32 \<Rightarrow> bool" where
  "no_hits p sid \<longleftrightarrow> (case module_of sid p of None \<Rightarrow> True | Some m \<Rightarrow> mi_hits m = [])"

definition collect_hits :: "(u32 \<times> caen_hit) list \<Rightarrow> caen_parser \<Rightarrow> caen_parser" where
  "collect_hits hs p =
     \<lparr> cp_modules = map (\<lambda>(s, m). (s, m\<lparr> mi_hits := mi_hits m @ hits_of s hs \<rparr>)) (cp_modules p),
       cp_hitModules = cp_hitModules p @ filter (no_hits p) (first_of (map fst hs)) \<rparr>"

definition parser_ok :: "caen_parser \<Rightarrow> bool" where
  "parser_ok p \<longleftrightarrow> distinct (map fst (cp_modules p))"

lemma update_existing:
  "distinct (map fst al) \<Longrightarrow> map_of al k = Some v \<Longrightarrow>
   AList.update k (f v) al = map (\<lambda>(s, m). (s, if s = k then f m else m)) al"
proof (induction al)
  case (Cons a al)
  show ?case
  proof (cases "fst a = k")
    case True
    then have "k \<notin> fst ` set al" using Cons.prems(1) by auto
    then have "map (\<lambda>(s, m). (s, if s = k then f m else m)) al = al"
      by (intro map_idI) (auto split: prod.split, force)
    then show ?thesis using True Cons.prems by (cases a) auto
  qed (use Cons in \<open>cases a, auto\<close>)
qed simp

lemma add_hit_modules:
  assumes "parser_ok p" "module_of sid p = Some m"
  shows "cp_modules (add_hit sid m h p) =
    map (\<lambda>(s, m). (s, if s = sid then m\<lparr> mi_hits := mi_hits m @ [h] \<rparr> else m)) (cp_modules p)"
    "cp_hitModules (add_hit sid m h p) = cp_hitModules p @ (if mi_hits m = [] then [sid] else [])"
proof -
  have "cp_modules (add_hit sid m h p) = AList.update sid (m\<lparr> mi_hits := mi_hits m @ [h] \<rparr>) (cp_modules p)"
    by (cases "mi_hits m = []") (simp_all add: add_hit_def put_module_def)
  also have "\<dots> = map (\<lambda>(s, m). (s, if s = sid then m\<lparr> mi_hits := mi_hits m @ [h] \<rparr> else m)) (cp_modules p)"
    using assms by (intro update_existing) (simp_all add: parser_ok_def module_of_def)
  finally show "cp_modules (add_hit sid m h p) = \<dots>" .
  show "cp_hitModules (add_hit sid m h p) = cp_hitModules p @ (if mi_hits m = [] then [sid] else [])"
    by (simp add: add_hit_def put_module_def)
qed

lemma module_of_add_hit:
  assumes "parser_ok p" "module_of sid p = Some m"
  shows "module_of s (add_hit sid m h p) =
    map_option (\<lambda>m. if s = sid then m\<lparr> mi_hits := mi_hits m @ [h] \<rparr> else m) (module_of s p)"
proof -
  have "map_of (map (\<lambda>(k, v). (k, f k v)) al) s = map_option (f s) (map_of al s)" for f :: "u32 \<Rightarrow> module_info \<Rightarrow> module_info" and al
    by (induction al) auto
  then show ?thesis using add_hit_modules(1) [OF assms] by (simp add: module_of_def)
qed

lemma fragment_hit_hits [simp]: "fragment_hit (m\<lparr> mi_hits := hs \<rparr>) = fragment_hit m"
proof -
  have "unpack_hit (m\<lparr> mi_hits := hs \<rparr>) = unpack_hit m"
    by (rule ext) (cases "mi_hitType m"; simp add: unpack_hit_def)
  then show ?thesis by (intro ext) (simp add: fragment_hit_def)
qed

lemma decoded_hits_add:
  assumes "parser_ok p" "module_of sid p = Some m"
  shows "decoded_hits (add_hit sid m h p) fs = decoded_hits p fs"
proof (induction fs)
  case (Cons f fs)
  then show ?case
    by (auto simp: module_of_add_hit [OF assms] split: option.split)
qed simp

lemma collect_hits_Cons:
  assumes ok: "parser_ok p" "module_of sid p = Some m"
  shows "collect_hits hs (add_hit sid m h p) = collect_hits ((sid, h) # hs) p"
proof -
  have "module_of sid (add_hit sid m h p) = Some (m\<lparr> mi_hits := mi_hits m @ [h] \<rparr>)"
    by (simp add: module_of_add_hit [OF ok] ok(2))
  moreover have "module_of s (add_hit sid m h p) = module_of s p" if "s \<noteq> sid" for s
    using that by (simp add: module_of_add_hit [OF ok] option.map_ident)
  ultimately have n: "no_hits (add_hit sid m h p) s \<longleftrightarrow> s \<noteq> sid \<and> no_hits p s" for s
    by (cases "s = sid") (simp_all add: no_hits_def)
  have f: "filter (no_hits (add_hit sid m h p)) xs = filter (no_hits p) (filter (\<lambda>s. s \<noteq> sid) xs)" for xs
    unfolding filter_filter by (rule filter_cong) (auto simp: n)
  have "cp_hitModules (collect_hits hs (add_hit sid m h p)) = cp_hitModules (collect_hits ((sid, h) # hs) p)"
    using ok(2) by (simp add: collect_hits_def add_hit_modules(2) [OF ok] f no_hits_def)
  moreover have "cp_modules (collect_hits hs (add_hit sid m h p)) = cp_modules (collect_hits ((sid, h) # hs) p)"
    by (simp add: collect_hits_def add_hit_modules(1) [OF ok] case_prod_unfold) (simp add: hits_of_def)
  ultimately show ?thesis by simp
qed

lemma parse_collect:
  assumes "parser_ok p"
  shows "parse_fragments fs p = map_option (\<lambda>hs. collect_hits hs p) (decoded_hits p fs)"
  using assms
proof (induction fs arbitrary: p)
  case Nil
  show ?case by (simp add: collect_hits_def hits_of_def)
next
  case (Cons f fs)
  show ?case
  proof (cases "fragment_size f")
    case (Some n)
    show ?thesis
    proof (cases "module_of (fr_sourceId f) p")
      case None
      then show ?thesis using Cons Some by simp
    next
      case m: (Some m)
      show ?thesis
      proof (cases "fragment_hit m n f")
        case h: (Some h)
        let ?q = "add_hit (fr_sourceId f) m h p"
        have "parser_ok ?q"
          using Cons.prems add_hit_modules(1) [OF Cons.prems m, of h] by (simp add: parser_ok_def comp_def case_prod_unfold)
        from Cons.IH [OF this] show ?thesis
          using Some m h decoded_hits_add [OF Cons.prems m] collect_hits_Cons [OF Cons.prems m]
          by (simp add: option.map_comp comp_def)
      qed (use Some m in simp)
    qed
  qed simp
qed

text \<open>
  C34. Parsing an event appends to each module the hits of its fragments, in event order, and lists
  the modules that had no hits, in the order of their first fragments; fragments of other sources
  change nothing, and the parse fails only where a hit does.
\<close>

theorem parse_groups:
  assumes "parser_ok p"
  shows "parse_fragments fs p = map_option (\<lambda>hs. collect_hits hs p) (decoded_hits p fs)"
  using assms by (rule parse_collect)

definition demo_hit :: caen_hit where
  "demo_hit = CAENPHAHit \<lparr> hit_timeTag = 7, hit_channel = 3, hit_trace1 = [], hit_trace2 = [] \<rparr> 10 20 30 1"

definition demo_fragment :: "u32 \<Rightarrow> fragment" where
  "demo_fragment sid = \<lparr> fr_sourceId = sid, fr_timestamp = 0, fr_itembody = put32 4 @ hit_bytes (replicate 8 0) 0 demo_hit \<rparr>"

lemma demo_decoded:
  "decoded_hits (addModule 1 PHA 1 new_parser) [demo_fragment 1, demo_fragment 2, demo_fragment 1] =
   Some [(1, demo_hit), (1, demo_hit)]"
  by code_simp

theorem parse_groups_witness:
  "map_option cp_hitModules (parse_fragments [demo_fragment 1, demo_fragment 2, demo_fragment 1]
     (addModule 1 PHA 1 new_parser)) = Some [1]"
proof -
  have ok: "parser_ok (addModule 1 PHA 1 new_parser)"
    by (simp add: parser_ok_def addModule_def put_module_def new_parser_def)
  show ?thesis unfolding parse_groups [OF ok] demo_decoded by code_simp
qed

end
