(* ===== verification/CaenProcessor.thy ===== *)
theory CaenProcessor
  imports CaenHits TreeArrays TclAnalyzer
begin

text \<open>
  Parameter maps and the event processor of CAEN digitizers (src/main/Core/CAENParameterMap.cpp,
  CAENEventProcessor.cpp).  Assertions are compiled in: a failed one ends the program.
\<close>

subsection \<open>Parameter maps\<close>

text \<open>
  Array maps have optional arrays of 16; parameter maps 16 optional tree parameters for each
  value.  PHA: times, energies, extras 1 and 2, high precision times; PSD: short and long gates,
  baselines, pile-up flags, times.
\<close>

datatype caen_map =
    CAENPHAArrayMapper "tree_array option" "tree_array option" "tree_array option" "tree_array option" "tree_array option"
  | CAENPHAParameterMapper "nat option list" "nat option list" "nat option list" "nat option list" "nat option list"
  | CAENPSDArrayMapper "tree_array option" "tree_array option" "tree_array option" "tree_array option" "tree_array option"
  | CAENPSDParameterMapper "nat option list" "nat option list" "nat option list" "nat option list" "nat option list"

text \<open>The dynamic_casts to CAENPSDMapper and CAENPHAMapper.\<close>

fun map_type :: "caen_map \<Rightarrow> HitType" where
  "map_type (CAENPHAArrayMapper _ _ _ _ _) = PHA"
| "map_type (CAENPHAParameterMapper _ _ _ _ _) = PHA"
| "map_type (CAENPSDArrayMapper _ _ _ _ _) = PSD"
| "map_type (CAENPSDParameterMapper _ _ _ _ _) = PSD"

definition set_element :: "tree_array option \<Rightarrow> u32 \<Rightarrow> rat \<Rightarrow> unit tree_op" where
  "set_element arr ch v w = (case arr of None \<Rightarrow> TOk () w | Some a \<Rightarrow> tbind (array_at a ch w) (\<lambda>p. tp_setValue p v))"

definition set_pointer :: "nat option list \<Rightarrow> u32 \<Rightarrow> rat \<Rightarrow> unit tree_op" where
  "set_pointer ps ch v w =
     (if length ps \<le> unat ch then TUndef
      else case ps ! unat ch of None \<Rightarrow> TOk () w | Some p \<Rightarrow> tp_setValue p v w)"

fun in_turn :: "unit tree_op list \<Rightarrow> unit tree_op" where
  "in_turn [] w = TOk () w"
| "in_turn (f # fs) w = tbind (f w) (\<lambda>_. in_turn fs)"

definition u16_double :: "u16 \<Rightarrow> rat" where
  "u16_double n = of_nat (unat n)"

text \<open>A pile-up is shown as 20, its absence as 40.\<close>

definition PUR_value :: "u16 \<Rightarrow> rat" where
  "PUR_value pur = (if pur \<noteq> 0 then 20 else 40)"

datatype assigned = Assigned tree_world | AssignThrows tree_world | AssignAborts | AssignUndef

fun assigned_from :: "unit tree_result \<Rightarrow> assigned" where
  "assigned_from (TOk _ w) = Assigned w"
| "assigned_from (TThrows _ w) = AssignThrows w"
| "assigned_from TUndef = AssignUndef"

text \<open>The bodies of the loops of assignParameters, one for each class.\<close>

definition pha_array_hit ::
  "tree_array option \<Rightarrow> tree_array option \<Rightarrow> tree_array option \<Rightarrow> tree_array option \<Rightarrow> tree_array option \<Rightarrow> hit_common \<Rightarrow> u16 \<Rightarrow> u16 \<Rightarrow> u32 \<Rightarrow> i32 \<Rightarrow> tree_world \<Rightarrow> assigned" where
  "pha_array_hit stamps energies extras1 extras2 hpstamps c en x1 x2 mul w =
     (let ch = hit_channel c in
      if 16 \<le> ch then AssignAborts
      else assigned_from (in_turn
        [set_element stamps ch (u64_double (hit_timeTag c)), set_element energies ch (u16_double en),
         set_element extras1 ch (u16_double x1), set_element extras2 ch (u16_double (getExtra2 x2)),
         set_element hpstamps ch (pha_getTime (hit_timeTag c) x2 mul)] w))"

definition pha_parameter_hit ::
  "nat option list \<Rightarrow> nat option list \<Rightarrow> nat option list \<Rightarrow> nat option list \<Rightarrow> nat option list \<Rightarrow> hit_common \<Rightarrow> u16 \<Rightarrow> u16 \<Rightarrow> u32 \<Rightarrow> i32 \<Rightarrow> tree_world \<Rightarrow> assigned" where
  "pha_parameter_hit stamps energies extras1 extras2 hpstamps c en x1 x2 mul w =
     (let ch = hit_channel c in
      if 16 \<le> ch then AssignAborts
      else assigned_from (in_turn
        [set_pointer stamps ch (u64_double (hit_timeTag c)), set_pointer energies ch (u16_double en),
         set_pointer extras1 ch (u16_double x1), set_pointer extras2 ch (u16_double (getExtra2 x2)),
         set_pointer hpstamps ch (pha_getTime (hit_timeTag c) x2 mul)] w))"

definition psd_array_hit ::
  "tree_array option \<Rightarrow> tree_array option \<Rightarrow> tree_array option \<Rightarrow> tree_array option \<Rightarrow> tree_array option \<Rightarrow> hit_common \<Rightarrow> u16 \<Rightarrow> u16 \<Rightarrow> u16 \<Rightarrow> u16 \<Rightarrow> u16 \<Rightarrow> i32 \<Rightarrow> tree_world \<Rightarrow> assigned" where
  "psd_array_hit shorts longs baselines purs stamps c sh lo bl pur cfd mul w =
     (let ch = hit_channel c in
      if 16 \<le> ch then AssignAborts
      else assigned_from (in_turn
        [set_element shorts ch (u16_double sh), set_element longs ch (u16_double lo),
         set_element baselines ch (u16_double bl), set_element purs ch (PUR_value pur),
         set_element stamps ch (psd_getTime (hit_timeTag c) cfd mul)] w))"

definition psd_parameter_hit ::
  "nat option list \<Rightarrow> nat option list \<Rightarrow> nat option list \<Rightarrow> nat option list \<Rightarrow> nat option list \<Rightarrow> hit_common \<Rightarrow> u16 \<Rightarrow> u16 \<Rightarrow> u16 \<Rightarrow> u16 \<Rightarrow> u16 \<Rightarrow> i32 \<Rightarrow> tree_world \<Rightarrow> assigned" where
  "psd_parameter_hit shorts longs baselines purs stamps c sh lo bl pur cfd mul w =
     (let ch = hit_channel c in
      assigned_from (in_turn
        [set_pointer shorts ch (u16_double sh), set_pointer longs ch (u16_double lo),
         set_pointer baselines ch (u16_double bl), set_pointer stamps ch (psd_getTime (hit_timeTag c) cfd mul),
         set_pointer purs ch (PUR_value pur)] w))"

text \<open>A hit of the other type is a bad_cast.\<close>

fun assign_hit :: "caen_map \<Rightarrow> caen_hit \<Rightarrow> tree_world \<Rightarrow> assigned" where
  "assign_hit (CAENPHAArrayMapper ts es xs1 xs2 hs) (CAENPHAHit c en x1 x2 mul) = pha_array_hit ts es xs1 xs2 hs c en x1 x2 mul"
| "assign_hit (CAENPHAParameterMapper ts es xs1 xs2 hs) (CAENPHAHit c en x1 x2 mul) =
     pha_parameter_hit ts es xs1 xs2 hs c en x1 x2 mul"
| "assign_hit (CAENPSDArrayMapper shs los bls ps ts) (CAENPSDHit c sh lo bl pur cfd mul) =
     psd_array_hit shs los bls ps ts c sh lo bl pur cfd mul"
| "assign_hit (CAENPSDParameterMapper shs los bls ps ts) (CAENPSDHit c sh lo bl pur cfd mul) =
     psd_parameter_hit shs los bls ps ts c sh lo bl pur cfd mul"
| "assign_hit _ _ = AssignThrows"

fun assignParameters :: "caen_map \<Rightarrow> caen_hit list \<Rightarrow> tree_world \<Rightarrow> assigned" where
  "assignParameters m [] w = Assigned w"
| "assignParameters m (h # hs) w = (case assign_hit m h w of Assigned w' \<Rightarrow> assignParameters m hs w' | r \<Rightarrow> r)"

text \<open>
  The constructors of the parameter maps: the tree parameters are made by a constructor of
  CTreeParameter, the i-th of a row at alloc i; an empty or missing name gives none.  More than 16
  names are an error of the PHA map only.
\<close>

definition map_row ::
  "(nat \<Rightarrow> string \<Rightarrow> unit tree_op) \<Rightarrow> (nat \<Rightarrow> nat) \<Rightarrow> string list \<Rightarrow> nat \<Rightarrow> nat option tree_op" where
  "map_row mk alloc names i w =
     (if i < length names \<and> names ! i \<noteq> [] then tbind (mk (alloc i) (names ! i) w) (\<lambda>_. TOk (Some (alloc i)))
      else TOk None w)"

definition new_plain :: "nat \<Rightarrow> string \<Rightarrow> unit tree_op" where
  "new_plain p nm = construct p (Initialize_name p nm)"

definition new_bits :: "nat \<Rightarrow> string \<Rightarrow> unit tree_op" where
  "new_bits p nm = construct p (Initialize_resolution p nm 16)"

text \<open>Channel by channel, the five rows in the order of the loop's body.\<close>

fun map_channels ::
  "(nat \<Rightarrow> string \<Rightarrow> unit tree_op) list \<Rightarrow> (nat \<Rightarrow> nat \<Rightarrow> nat) \<Rightarrow> string list list \<Rightarrow> nat \<Rightarrow> nat option list tree_op" where
  "map_channels [] alloc rows i w = TOk [] w"
| "map_channels (mk # mks) alloc [] i w = TOk [] w"
| "map_channels (mk # mks) alloc (names # rows) i w =
     tbind (map_row mk (alloc (length rows)) names i w) (\<lambda>p w.
     tbind (map_channels mks alloc rows i w) (\<lambda>ps. TOk (p # ps)))"

fun map_all ::
  "(nat \<Rightarrow> string \<Rightarrow> unit tree_op) list \<Rightarrow> (nat \<Rightarrow> nat \<Rightarrow> nat) \<Rightarrow> string list list \<Rightarrow> nat list \<Rightarrow> nat option list list tree_op" where
  "map_all mks alloc rows [] w = TOk [] w"
| "map_all mks alloc rows (i # is) w =
     tbind (map_channels mks alloc rows i w) (\<lambda>ps w. tbind (map_all mks alloc rows is w) (\<lambda>pss. TOk (ps # pss)))"

definition column :: "nat \<Rightarrow> nat option list list \<Rightarrow> nat option list" where
  "column k pss = map (\<lambda>ps. ps ! k) pss"

definition new_PHA_map ::
  "(nat \<Rightarrow> nat \<Rightarrow> nat) \<Rightarrow> string list \<Rightarrow> string list \<Rightarrow> string list \<Rightarrow> string list \<Rightarrow> string list \<Rightarrow> caen_map option tree_op" where
  "new_PHA_map alloc stamps energies extras1 extras2 hpstamps w =
     (let rows = [stamps, energies, extras1, extras2, hpstamps] in
      if list_ex (\<lambda>r. 16 < length r) rows then TOk None w
      else tbind (map_all [new_plain, new_bits, new_bits, new_bits, new_bits] alloc rows [0..<16] w) (\<lambda>pss.
        TOk (Some (CAENPHAParameterMapper (column 0 pss) (column 1 pss) (column 2 pss) (column 3 pss) (column 4 pss)))))"

definition new_PSD_map ::
  "(nat \<Rightarrow> nat \<Rightarrow> nat) \<Rightarrow> string list \<Rightarrow> string list \<Rightarrow> string list \<Rightarrow> string list \<Rightarrow> string list \<Rightarrow> caen_map tree_op" where
  "new_PSD_map alloc shorts longs baselines stamps purs w =
     tbind (map_all [new_bits, new_bits, new_bits, new_plain, new_bits] alloc
       [shorts, longs, baselines, stamps, purs] [0..<16] w) (\<lambda>pss.
     TOk (CAENPSDParameterMapper (column 0 pss) (column 1 pss) (column 2 pss) (column 4 pss) (column 3 pss)))"

text \<open>The array maps: a null name gives no array; the j-th array's objects are at sample j and alloc j.\<close>

definition optional_array ::
  "string option \<Rightarrow> (string \<Rightarrow> tree_array \<Rightarrow> tree_array tree_op) \<Rightarrow> tree_array option tree_op" where
  "optional_array nm init w = (case nm of None \<Rightarrow> TOk None w
     | Some s \<Rightarrow> tbind (new_array (init s) w) (\<lambda>a. TOk (Some a)))"

definition new_PHA_array_map ::
  "(nat \<Rightarrow> nat) \<Rightarrow> (nat \<Rightarrow> nat \<Rightarrow> nat) \<Rightarrow> string option \<Rightarrow> string option \<Rightarrow> string option \<Rightarrow> string option \<Rightarrow>
   string option \<Rightarrow> caen_map tree_op" where
  "new_PHA_array_map sample alloc time energy extra1 extra2 hptime w =
     (let plain = (\<lambda>j s. Array_Initialize_name (sample j) (alloc j) s 16 0);
          bits = (\<lambda>j s. Array_Initialize_resolution (sample j) (alloc j) s 16 16 0) in
      tbind (optional_array time (plain 0) w) (\<lambda>t w.
      tbind (optional_array energy (bits 1) w) (\<lambda>e w.
      tbind (optional_array extra1 (bits 2) w) (\<lambda>x1 w.
      tbind (optional_array extra2 (bits 3) w) (\<lambda>x2 w.
      tbind (optional_array hptime (plain 4) w) (\<lambda>h. TOk (CAENPHAArrayMapper t e x1 x2 h)))))))"

definition new_PSD_array_map ::
  "(nat \<Rightarrow> nat) \<Rightarrow> (nat \<Rightarrow> nat \<Rightarrow> nat) \<Rightarrow> string option \<Rightarrow> string option \<Rightarrow> string option \<Rightarrow> string option \<Rightarrow>
   string option \<Rightarrow> caen_map tree_op" where
  "new_PSD_array_map sample alloc time shortGate longGate baseline pur w =
     (let plain = (\<lambda>j s. Array_Initialize_name (sample j) (alloc j) s 16 0);
          bits = (\<lambda>j s. Array_Initialize_resolution (sample j) (alloc j) s 16 16 0);
          flag = (\<lambda>j s. Array_Initialize_channels (sample j) (alloc j) s 100 0 99 [] 16 0) in
      tbind (optional_array time (plain 0) w) (\<lambda>t w.
      tbind (optional_array shortGate (bits 1) w) (\<lambda>sh w.
      tbind (optional_array longGate (bits 2) w) (\<lambda>lg w.
      tbind (optional_array baseline (bits 3) w) (\<lambda>bl w.
      tbind (optional_array pur (flag 4) w) (\<lambda>pu. TOk (CAENPSDArrayMapper sh lg bl pu t)))))))"

subsection \<open>The event processor\<close>

record caen_processor =
  cv_parser :: caen_parser
  cv_maps :: "(u32 \<times> caen_map) list"
  cv_testMode :: bool

definition new_caen :: caen_processor where
  "new_caen = \<lparr> cv_parser = new_parser, cv_maps = [], cv_testMode = False \<rparr>"

definition addParameterMap :: "u32 \<Rightarrow> caen_map \<Rightarrow> i32 \<Rightarrow> caen_processor \<Rightarrow> caen_processor" where
  "addParameterMap sid m mul cp =
     cp\<lparr> cv_parser := addModule sid (map_type m) mul (cv_parser cp), cv_maps := AList.update sid m (cv_maps cp) \<rparr>"

text \<open>The modules with hits, in turn; one without a map is passed over.\<close>

fun assign_modules :: "(u32 \<times> caen_map) list \<Rightarrow> caen_parser \<Rightarrow> u32 list \<Rightarrow> tree_world \<Rightarrow> assigned" where
  "assign_modules maps p [] w = Assigned w"
| "assign_modules maps p (sid # sids) w = (case map_of maps sid of
      None \<Rightarrow> assign_modules maps p sids w
    | Some m \<Rightarrow> (case module_of sid p of
        None \<Rightarrow> AssignUndef
      | Some mi \<Rightarrow> (case assignParameters m (mi_hits mi) w of
          Assigned w' \<Rightarrow> assign_modules maps p sids w'
        | r \<Rightarrow> r)))"

datatype 'p caen_outcome = CaenReturns bool "'p tcl option" caen_processor tree_world | CaenAborts | CaenUndef

fun caen_return :: "'p tcl option \<Rightarrow> caen_processor \<Rightarrow> assigned \<Rightarrow> 'p caen_outcome" where
  "caen_return t cp (Assigned w) = CaenReturns True t cp w"
| "caen_return t cp (AssignThrows w) = CaenReturns False t cp w"
| "caen_return t cp AssignAborts = CaenAborts"
| "caen_return t cp AssignUndef = CaenUndef"

text \<open>
  The analyzer is None if it is not a CTclAnalyzer; index is the fragment index of the unified
  format library.
\<close>

definition caen_operator ::
  "(u8 list \<Rightarrow> fragment list) \<Rightarrow> u8 list \<Rightarrow> 'p tcl option \<Rightarrow> caen_processor \<Rightarrow> tree_world \<Rightarrow> 'p caen_outcome" where
  "caen_operator index pEvent t cp w =
     (case (if cv_testMode cp \<or> t = None then Some t
            else map_option (\<lambda>n. map_option (SetEventSize n) t) (get32 pEvent)) of
        None \<Rightarrow> CaenUndef
      | Some t' \<Rightarrow> (case parse_fragments (index pEvent) (cv_parser cp) of
          None \<Rightarrow> CaenUndef
        | Some p \<Rightarrow> caen_return t' (cp\<lparr> cv_parser := p \<rparr>) (assign_modules (cv_maps cp) p (cp_hitModules p) w)))"

subsection \<open>Hits of the type of their map\<close>

definition caen_ok :: "caen_processor \<Rightarrow> bool" where
  "caen_ok cp \<longleftrightarrow> parser_ok (cv_parser cp) \<and>
     (\<forall>sid m. module_of sid (cv_parser cp) = Some m \<longrightarrow> (\<forall>h \<in> set (mi_hits m). hit_type h = mi_hitType m) \<and>
        (\<exists>map. map_of (cv_maps cp) sid = Some map \<and> map_type map = mi_hitType m)) \<and>
     (\<forall>sid \<in> set (cp_hitModules (cv_parser cp)). module_of sid (cv_parser cp) \<noteq> None)"

lemma caen_ok_new: "caen_ok new_caen"
  by (simp add: caen_ok_def new_caen_def new_parser_def parser_ok_def module_of_def)

lemma caen_ok_addParameterMap: "caen_ok cp \<Longrightarrow> caen_ok (addParameterMap sid m mul cp)"
  by (auto simp: caen_ok_def addParameterMap_def addModule_def put_module_def module_of_def parser_ok_def
      distinct_update update_conv' split: if_splits)

lemma unpack_hit_type: "unpack_hit m bs = Some h \<Longrightarrow> hit_type h = mi_hitType m"
  by (auto simp: unpack_hit_def unpack_pha_def unpack_psd_def split: HitType.splits bind_splits if_splits prod.splits)

lemma caen_ok_parse:
  "caen_ok cp \<Longrightarrow> parse_fragments fs (cv_parser cp) = Some p \<Longrightarrow> caen_ok (cp\<lparr> cv_parser := p \<rparr>)"
proof (induction fs arbitrary: cp)
  case (Cons f fs)
  obtain n where n: "fragment_size f = Some n" using Cons.prems(2) by (auto split: option.splits)
  show ?case
  proof (cases "module_of (fr_sourceId f) (cv_parser cp)")
    case None
    then show ?thesis using Cons n by simp
  next
    case (Some m)
    obtain h where h: "fragment_hit m n f = Some h" "parse_fragments fs (add_hit (fr_sourceId f) m h (cv_parser cp)) = Some p"
      using Cons.prems(2) n Some by (auto split: option.splits)
    have ok: "parser_ok (cv_parser cp)" using Cons.prems(1) by (simp add: caen_ok_def)
    let ?p = "add_hit (fr_sourceId f) m h (cv_parser cp)"
    have "hit_type h = mi_hitType m" using h(1) unpack_hit_type by (auto simp: fragment_hit_def split: bind_splits)
    then have "caen_ok (cp\<lparr> cv_parser := ?p \<rparr>)"
      using Cons.prems(1) Some ok add_hit_modules [OF ok Some, of h]
      by (auto simp: caen_ok_def module_of_add_hit [OF ok Some] parser_ok_def comp_def case_prod_unfold)
    from Cons.IH [OF this] h(2) show ?thesis by simp
  qed
next
  case Nil
  then show ?case by (cases cp) simp
qed

lemma caen_ok_operator:
  "caen_ok cp \<Longrightarrow> caen_operator index bs t cp w = CaenReturns b t' cp' w' \<Longrightarrow> caen_ok cp'"
proof -
  assume ok: "caen_ok cp" and r: "caen_operator index bs t cp w = CaenReturns b t' cp' w'"
  obtain p where p: "parse_fragments (index bs) (cv_parser cp) = Some p"
    using r by (auto simp: caen_operator_def split: option.splits)
  have "cp' = cp\<lparr> cv_parser := p \<rparr>"
    using r p by (cases "assign_modules (cv_maps cp) p (cp_hitModules p) w")
      (auto simp: caen_operator_def split: option.splits if_splits)
  then show ?thesis using caen_ok_parse [OF ok p] by simp
qed

text \<open>What an event processor can come to.\<close>

inductive caen_reach :: "(u8 list \<Rightarrow> fragment list) \<Rightarrow> caen_processor \<Rightarrow> bool" for index where
  reach_new: "caen_reach index new_caen"
| reach_map: "caen_reach index cp \<Longrightarrow> caen_reach index (addParameterMap sid m mul cp)"
| reach_event: "caen_reach index cp \<Longrightarrow> caen_operator index bs (t :: unit tcl option) cp w = CaenReturns b t' cp' w' \<Longrightarrow>
    caen_reach index cp'"

lemma caen_reach_ok: "caen_reach index cp \<Longrightarrow> caen_ok cp"
  by (induction rule: caen_reach.induct) (auto intro: caen_ok_new caen_ok_addParameterMap caen_ok_operator)

text \<open>The casts of the parameter maps never fail: a module's hits are of the type of its map.\<close>

lemma caen_no_bad_cast:
  assumes "caen_reach index cp" "map_of (cv_maps cp) sid = Some m" "module_of sid (cv_parser cp) = Some mi"
    "h \<in> set (mi_hits mi)"
  shows "hit_type h = map_type m"
  using caen_reach_ok [OF assms(1)] assms(2-4) unfolding caen_ok_def by fastforce

definition demo_map :: caen_map where
  "demo_map = CAENPHAArrayMapper None None None None None"

definition demo_caen :: caen_processor where
  "demo_caen = addParameterMap 1 demo_map 1 new_caen"

definition demo_parser :: caen_parser where
  "demo_parser = \<lparr> cp_modules = [(1, \<lparr> mi_hitType = PHA, mi_multiplier = 1, mi_hits = [demo_hit] \<rparr>)], cp_hitModules = [1] \<rparr>"

lemma demo_parsed: "parse_fragments [demo_fragment 1] (cv_parser demo_caen) = Some demo_parser"
  by code_simp

lemma demo_event:
  "caen_operator (\<lambda>_. [demo_fragment 1]) [] None demo_caen w = CaenReturns True None (demo_caen\<lparr> cv_parser := demo_parser \<rparr>) w"
proof -
  have "assign_modules (cv_maps demo_caen) demo_parser (cp_hitModules demo_parser) w = Assigned w"
    by (simp add: demo_caen_def addParameterMap_def new_caen_def demo_parser_def module_of_def demo_map_def demo_hit_def
        pha_array_hit_def set_element_def Let_def)
  then show ?thesis by (simp add: caen_operator_def demo_parsed del: parse_fragments.simps)
qed


subsection \<open>Hits of earlier events\<close>

text \<open>Events in turn, each with the state of the tree parameters it starts in.\<close>

fun caen_events ::
  "(u8 list \<Rightarrow> fragment list) \<Rightarrow> (u8 list \<times> tree_world) list \<Rightarrow> 'p tcl option \<Rightarrow> caen_processor \<Rightarrow> caen_processor option" where
  "caen_events index [] t cp = Some cp"
| "caen_events index ((bs, w) # evs) t cp = (case caen_operator index bs t cp w of
      CaenReturns b t' cp' w' \<Rightarrow> caen_events index evs t' cp'
    | _ \<Rightarrow> None)"

lemma caen_operator_parser:
  "caen_operator index bs t cp w = CaenReturns b t' cp' w' \<Longrightarrow>
   \<exists>p. parse_fragments (index bs) (cv_parser cp) = Some p \<and> cp' = cp\<lparr> cv_parser := p \<rparr>"
  by (cases "assign_modules (cv_maps cp) (the (parse_fragments (index bs) (cv_parser cp)))
        (cp_hitModules (the (parse_fragments (index bs) (cv_parser cp)))) w")
    (auto simp: caen_operator_def split: option.splits if_splits)

lemma parse_append:
  "parse_fragments (fs @ gs) p = Option.bind (parse_fragments fs p) (parse_fragments gs)"
  by (induction fs p rule: parse_fragments.induct) (auto split: option.splits)

lemma caen_events_parser:
  "caen_events index evs t cp = Some cp' \<Longrightarrow>
   \<exists>p. parse_fragments (concat (map (index \<circ> fst) evs)) (cv_parser cp) = Some p \<and> cp' = cp\<lparr> cv_parser := p \<rparr>"
proof (induction index evs t cp rule: caen_events.induct)
  case (2 index bs w evs t cp)
  obtain b t1 cp1 w1 where o: "caen_operator index bs t cp w = CaenReturns b t1 cp1 w1" "caen_events index evs t1 cp1 = Some cp'"
    using "2.prems" by (auto split: caen_outcome.splits)
  obtain p where p: "parse_fragments (index bs) (cv_parser cp) = Some p" "cp1 = cp\<lparr> cv_parser := p \<rparr>"
    using caen_operator_parser [OF o(1)] by blast
  from "2.IH" [OF o] show ?case using p by (simp add: parse_append)
qed (auto simp: caen_processor.surjective)

text \<open>
  C35. Nothing is forgotten between events: after any events, the next one is processed as if its
  fragments came after those of all of them, so it sets the parameters of every hit so far again.
\<close>

theorem caen_hits_linger:
  assumes "caen_events index evs t cp = Some cp'"
  shows "caen_operator index bs None cp' w =
    (case parse_fragments (concat (map (index \<circ> fst) evs) @ index bs) (cv_parser cp) of
       None \<Rightarrow> CaenUndef
     | Some p \<Rightarrow> caen_return None (cp\<lparr> cv_parser := p \<rparr>) (assign_modules (cv_maps cp) p (cp_hitModules p) w))"
  using caen_events_parser [OF assms] by (auto simp: caen_operator_def parse_append split: option.splits)

theorem caen_hits_linger_witness:
  "map_option cp_hitModules (parse_fragments (concat [[demo_fragment 1], []]) (cv_parser demo_caen)) = Some [1] \<and>
   caen_operator (\<lambda>bs. if bs = [] then [demo_fragment 1] else []) [0] (None :: unit tcl option)
     (demo_caen\<lparr> cv_parser := demo_parser \<rparr>) demo_world =
   caen_return None (demo_caen\<lparr> cv_parser := demo_parser \<rparr>)
     (assign_modules (cv_maps demo_caen) demo_parser (cp_hitModules demo_parser) demo_world)"
proof -
  let ?index = "\<lambda>bs :: u8 list. if bs = [] then [demo_fragment 1] else []"
  have "caen_operator ?index [] (None :: unit tcl option) demo_caen demo_world =
      CaenReturns True None (demo_caen\<lparr> cv_parser := demo_parser \<rparr>) demo_world"
    using demo_event [of demo_world] by (simp add: caen_operator_def del: parse_fragments.simps)
  then have "caen_events ?index [([], demo_world)] (None :: unit tcl option) demo_caen = Some (demo_caen\<lparr> cv_parser := demo_parser \<rparr>)"
    by simp
  from caen_hits_linger [OF this, of "[0]" demo_world] show ?thesis
    by (simp add: demo_parsed del: parse_fragments.simps assign_modules.simps) (simp add: demo_parser_def)
qed

end
