(* ===== verification/EventBuilder.thy ===== *)
theory EventBuilder
  imports CaenProcessor
begin

text \<open>
  Unpacking of event built data (src/main/Core/CEventBuilderEventProcessor.cpp,
  CPipelineEventProcessor.cpp, CUnpackEvbCommand.cpp): a processor that gives each fragment of an
  event to the processor of its source, a processor that runs a pipeline, and the command that
  puts them together.  Event processors are identities; what their methods do, with the state of
  the tree parameters and any other state of theirs, is an argument of the definitions.
\<close>

subsection \<open>Event processors\<close>

datatype callback =
    CbAttach | CbDetach | CbBegin | CbEnd | CbPause | CbResume | CbOther u32
  | CbSourceOpen string | CbSourceEOF | CbInitialize

text \<open>A method returns a Bool_t, raises another exception, or is undefined.\<close>

datatype 's method_result = Returns bool 's | Raises 's | MethodUndef

record 'p methods =
  ep_operator :: "nat \<Rightarrow> u8 list \<Rightarrow> tree_world \<times> 'p \<Rightarrow> (tree_world \<times> 'p) method_result"
  ep_callback :: "callback \<Rightarrow> nat \<Rightarrow> tree_world \<times> 'p \<Rightarrow> (tree_world \<times> 'p) method_result"

subsection \<open>State\<close>

record source_data =
  sd_sourceId :: u32
  sd_SourcePresent :: "nat option"
  sd_processor :: "nat option"

definition no_source :: source_data where
  "no_source = \<lparr> sd_sourceId = 0, sd_SourcePresent = None, sd_processor = None \<rparr>"

record evb =
  eb_ClockMHz :: rat
  eb_sourceHandlers :: "(u32 \<times> source_data) list"
  eb_timeDifferenceParams :: "(u32 \<times> (u32 \<times> nat) list) list"
  eb_sourceCount :: nat
  eb_unrecognizedSourceCount :: nat
  eb_eventNumber :: nat
  eb_seconds :: nat
  eb_baseName :: string
  eb_nEvents :: u32

text \<open>The constructor; the four new objects are at the identities given.\<close>

definition new_evb :: "rat \<Rightarrow> string \<Rightarrow> nat \<Rightarrow> nat \<Rightarrow> nat \<Rightarrow> nat \<Rightarrow> evb tree_op" where
  "new_evb clock base p1 p2 p3 p4 w =
     tbind (construct p1 (Initialize_name p1 (base @ ''.sources'')) w) (\<lambda>_ w.
     tbind (construct p2 (Initialize_name p2 (base @ ''.unrecognized_source'')) w) (\<lambda>_ w.
     tbind (construct p3 (Initialize_name p3 (base @ ''.event_no'')) w) (\<lambda>_ w.
     tbind (construct p4 (Initialize_units p4 (base @ ''.run_time'') ''seconds'') w) (\<lambda>_.
     TOk \<lparr> eb_ClockMHz = clock, eb_sourceHandlers = [], eb_timeDifferenceParams = [], eb_sourceCount = p1,
       eb_unrecognizedSourceCount = p2, eb_eventNumber = p3, eb_seconds = p4, eb_baseName = base, eb_nEvents = 0 \<rparr>))))"

definition destroy_evb :: "evb \<Rightarrow> unit tree_op" where
  "destroy_evb eb = delete_elements
     ([eb_sourceCount eb, eb_unrecognizedSourceCount eb, eb_eventNumber eb, eb_seconds eb] @
      List.map_filter (sd_SourcePresent \<circ> snd) (eb_sourceHandlers eb) @
      concat (map (map snd \<circ> snd) (eb_timeDifferenceParams eb)))"

subsection \<open>Sources\<close>

definition tdiffParamName :: "string \<Rightarrow> u32 \<Rightarrow> u32 \<Rightarrow> string" where
  "tdiffParamName base sid1 sid2 = base @ ''.tdiffs.'' @ show_nat (unat sid1) @ ''-'' @ show_nat (unat sid2)"

text \<open>A parameter for every source so far with the new one; the one of source s is at alloc s.\<close>

fun add_tdiffs ::
  "string \<Rightarrow> (u32 \<Rightarrow> nat) \<Rightarrow> u32 \<Rightarrow> (u32 \<times> (u32 \<times> nat) list) list \<Rightarrow> (u32 \<times> (u32 \<times> nat) list) list tree_op" where
  "add_tdiffs base alloc i [] w = TOk [] w"
| "add_tdiffs base alloc i ((other, m) # ds) w =
     tbind (construct (alloc other) (Initialize_units (alloc other) (tdiffParamName base other i) ''ticks'') w) (\<lambda>_ w.
     tbind (add_tdiffs base alloc i ds w) (\<lambda>ds. TOk ((other, smap_put i (alloc other) m) # ds)))"

definition addEventSourceParameters :: "(u32 \<Rightarrow> nat) \<Rightarrow> u32 \<Rightarrow> evb \<Rightarrow> evb tree_op" where
  "addEventSourceParameters alloc i eb w =
     tbind (add_tdiffs (eb_baseName eb) alloc i (eb_timeDifferenceParams eb) w) (\<lambda>ds.
     TOk (eb\<lparr> eb_timeDifferenceParams := (if smap_get ds i = None then smap_put i [] ds else ds) \<rparr>))"

definition addEventProcessor :: "nat \<Rightarrow> (u32 \<Rightarrow> nat) \<Rightarrow> u32 \<Rightarrow> nat \<Rightarrow> evb \<Rightarrow> evb tree_op" where
  "addEventProcessor present alloc sid processor eb w =
     tbind (construct present (Initialize_name present (eb_baseName eb @ ''.'' @ show_nat (unat sid) @ ''_present'')) w)
       (\<lambda>_. addEventSourceParameters alloc sid (eb\<lparr> eb_sourceHandlers := smap_put sid
          \<lparr> sd_sourceId = sid, sd_SourcePresent = Some present, sd_processor = Some processor \<rparr> (eb_sourceHandlers eb) \<rparr>))"

definition haveEventProcessor :: "u32 \<Rightarrow> evb \<Rightarrow> bool" where
  "haveEventProcessor sid eb \<longleftrightarrow> smap_get (eb_sourceHandlers eb) sid \<noteq> None"

subsection \<open>Time stamp differences\<close>

text \<open>Subtraction of int64_t, converted to double; the values are those of unsigned stamps.\<close>

definition set_tdiff :: "nat \<Rightarrow> u64 \<Rightarrow> u64 \<Rightarrow> unit tree_op" where
  "set_tdiff p t1 t2 w =
     (let d = sint t1 - sint t2 in
      if d < - (2 ^ 63) \<or> 2 ^ 63 \<le> d then TUndef else tp_setValue p (f64 (of_int d)) w)"

definition tdiff_pair :: "(u32 \<times> (u32 \<times> nat) list) list \<Rightarrow> u32 \<times> u64 \<Rightarrow> u32 \<times> u64 \<Rightarrow> unit tree_op" where
  "tdiff_pair ds s1 s2 w = (case smap_get ds (fst s1) of
      Some m \<Rightarrow> (case smap_get m (fst s2) of Some p \<Rightarrow> set_tdiff p (snd s1) (snd s2) w | None \<Rightarrow> TOk () w)
    | None \<Rightarrow> (case smap_get ds (fst s2) of
        Some m \<Rightarrow> (case smap_get m (fst s1) of Some p \<Rightarrow> set_tdiff p (snd s2) (snd s1) w | None \<Rightarrow> TOk () w)
      | None \<Rightarrow> TOk () w))"

fun computeTimestampDifferences ::
  "(u32 \<times> (u32 \<times> nat) list) list \<Rightarrow> (u32 \<times> u64) list \<Rightarrow> unit tree_op" where
  "computeTimestampDifferences ds [] w = TOk () w"
| "computeTimestampDifferences ds (s # ss) w =
     tbind (in_turn (map (tdiff_pair ds s) ss) w) (\<lambda>_. computeTimestampDifferences ds ss)"

subsection \<open>Events\<close>

datatype 'p evb_outcome = EvbReturns bool evb "tree_world \<times> 'p" | EvbRaises evb "tree_world \<times> 'p" | EvbUndef

fun evb_bind :: "'a tree_result \<Rightarrow> evb \<Rightarrow> 'p \<Rightarrow> ('a \<Rightarrow> tree_world \<times> 'p \<Rightarrow> 'p evb_outcome) \<Rightarrow> 'p evb_outcome" where
  "evb_bind (TOk x w) eb p f = f x (w, p)"
| "evb_bind (TThrows e w) eb p f = EvbRaises eb (w, p)"
| "evb_bind TUndef eb p f = EvbUndef"

text \<open>
  The map is indexed with the source of the fragment, which enters a source without a handler.
  The rest of the fragments is not looked at after a processor returns false.
\<close>

fun fragments_loop ::
  "'p methods \<Rightarrow> fragment list \<Rightarrow> (u32 \<times> u64) list \<Rightarrow> evb \<Rightarrow> tree_world \<times> 'p \<Rightarrow>
   ((u32 \<times> u64) list \<Rightarrow> evb \<Rightarrow> tree_world \<times> 'p \<Rightarrow> 'p evb_outcome) \<Rightarrow> 'p evb_outcome" where
  "fragments_loop ep [] stamps eb s k = k stamps eb s"
| "fragments_loop ep (f # fs) stamps eb s k =
     (let sid = fr_sourceId f;
          stamps' = stamps @ [(sid, fr_timestamp f)];
          info = (case smap_get (eb_sourceHandlers eb) sid of Some d \<Rightarrow> d | None \<Rightarrow> no_source);
          eb' = eb\<lparr> eb_sourceHandlers := smap_put sid info (eb_sourceHandlers eb) \<rparr> in
      case sd_processor info of
        Some p \<Rightarrow> (case sd_SourcePresent info of
            None \<Rightarrow> EvbUndef
          | Some q \<Rightarrow> evb_bind (tp_setValue q 1 (fst s)) eb' (snd s) (\<lambda>_ s.
              case ep_operator ep p (fr_itembody f) s of
                Returns True s' \<Rightarrow> fragments_loop ep fs stamps' eb' s' k
              | Returns False s' \<Rightarrow> EvbReturns False eb' s'
              | Raises s' \<Rightarrow> EvbRaises eb' s'
              | MethodUndef \<Rightarrow> EvbUndef))
      | None \<Rightarrow> evb_bind (tp_getValue (eb_unrecognizedSourceCount eb) (fst s)) eb' (snd s) (\<lambda>v s.
          evb_bind (tp_setValue (eb_unrecognizedSourceCount eb) (f64 (v + 1)) (fst s)) eb' (snd s) (\<lambda>_ s.
            fragments_loop ep fs stamps' eb' s k)))"

text \<open>Seconds since the start; a clock of zero gives an infinity or NaN, which is not represented.\<close>

definition run_seconds :: "evb \<Rightarrow> u64 \<Rightarrow> rat option" where
  "run_seconds eb t =
     (if eb_ClockMHz eb = 0 then None else Some (f64 (u64_double t / f64 (1000000 * eb_ClockMHz eb))))"

definition finish_event :: "(u32 \<times> u64) list \<Rightarrow> evb \<Rightarrow> tree_world \<times> 'p \<Rightarrow> 'p evb_outcome" where
  "finish_event stamps eb s = (case stamps of
      [] \<Rightarrow> EvbReturns True eb s
    | st # _ \<Rightarrow> (case run_seconds eb (snd st) of
        None \<Rightarrow> EvbUndef
      | Some t \<Rightarrow> evb_bind (tp_setValue (eb_seconds eb) t (fst s)) eb (snd s) (\<lambda>_ s.
          evb_bind (computeTimestampDifferences (eb_timeDifferenceParams eb) stamps (fst s)) eb (snd s) (\<lambda>_ s.
            EvbReturns True eb s))))"

definition evb_operator ::
  "(u8 list \<Rightarrow> fragment list) \<Rightarrow> 'p methods \<Rightarrow> u8 list \<Rightarrow> evb \<Rightarrow> tree_world \<times> 'p \<Rightarrow> 'p evb_outcome" where
  "evb_operator index ep pEvent eb s =
     (let eb = eb\<lparr> eb_nEvents := eb_nEvents eb + 1 \<rparr>; frags = index pEvent in
      evb_bind (tp_setValue (eb_eventNumber eb) (of_nat (unat (eb_nEvents eb))) (fst s)) eb (snd s) (\<lambda>_ s.
      evb_bind (tp_setValue (eb_sourceCount eb) (of_nat (length frags)) (fst s)) eb (snd s) (\<lambda>_ s.
      evb_bind (tp_setValue (eb_unrecognizedSourceCount eb) 0 (fst s)) eb (snd s) (\<lambda>_ s.
        fragments_loop ep frags [] eb s finish_event))))"

subsection \<open>Callbacks\<close>

text \<open>Processors in turn, up to the first that returns false or raises an exception.\<close>

fun forward :: "(nat \<Rightarrow> 's \<Rightarrow> 's method_result) \<Rightarrow> nat list \<Rightarrow> 's \<Rightarrow> 's method_result" where
  "forward f [] s = Returns True s"
| "forward f (p # ps) s = (case f p s of Returns True s' \<Rightarrow> forward f ps s' | r \<Rightarrow> r)"

definition handler_processors :: "evb \<Rightarrow> nat list" where
  "handler_processors eb = List.map_filter (sd_processor \<circ> snd) (eb_sourceHandlers eb)"

definition evb_forward :: "'p methods \<Rightarrow> callback \<Rightarrow> evb \<Rightarrow> tree_world \<times> 'p \<Rightarrow> (tree_world \<times> 'p) method_result" where
  "evb_forward ep cb eb = forward (ep_callback ep cb) (handler_processors eb)"

definition evb_OnAttach where "evb_OnAttach ep eb = evb_forward ep CbAttach eb"
definition evb_OnDetach where "evb_OnDetach ep eb = evb_forward ep CbDetach eb"
definition evb_OnBegin where "evb_OnBegin ep eb s = (eb\<lparr> eb_nEvents := 0 \<rparr>, evb_forward ep CbBegin eb s)"
definition evb_OnEnd where "evb_OnEnd ep eb = evb_forward ep CbEnd eb"
definition evb_OnPause where "evb_OnPause ep eb = evb_forward ep CbPause eb"
definition evb_OnResume where "evb_OnResume ep eb = evb_forward ep CbResume eb"
definition evb_OnOther where "evb_OnOther n ep eb = evb_forward ep (CbOther n) eb"
definition evb_OnEventSourceOpen where "evb_OnEventSourceOpen nm ep eb = evb_forward ep (CbSourceOpen nm) eb"
definition evb_OnEventSourceEOF where "evb_OnEventSourceEOF ep eb = evb_forward ep CbSourceEOF eb"
definition evb_OnInitialize where "evb_OnInitialize ep eb = evb_forward ep CbInitialize eb"

text \<open>A pipeline as an event processor: any exception of a processor is a false.\<close>

fun swallow :: "'s method_result \<Rightarrow> 's method_result" where
  "swallow (Raises s) = Returns False s"
| "swallow r = r"

definition pipe_operator ::
  "'p methods \<Rightarrow> element list \<Rightarrow> u8 list \<Rightarrow> tree_world \<times> 'p \<Rightarrow> (tree_world \<times> 'p) method_result" where
  "pipe_operator ep pipe pEvent s = swallow (forward (\<lambda>p. ep_operator ep p pEvent) (map snd pipe) s)"

definition pipe_callback ::
  "'p methods \<Rightarrow> callback \<Rightarrow> element list \<Rightarrow> tree_world \<times> 'p \<Rightarrow> (tree_world \<times> 'p) method_result" where
  "pipe_callback ep cb pipe s = swallow (forward (ep_callback ep cb) (map snd pipe) s)"

definition pipe_OnAttach where "pipe_OnAttach ep = pipe_callback ep CbAttach"
definition pipe_OnDetach where "pipe_OnDetach ep = pipe_callback ep CbDetach"
definition pipe_OnBegin where "pipe_OnBegin ep = pipe_callback ep CbBegin"
definition pipe_OnEnd where "pipe_OnEnd ep = pipe_callback ep CbEnd"
definition pipe_OnPause where "pipe_OnPause ep = pipe_callback ep CbPause"
definition pipe_OnResume where "pipe_OnResume ep = pipe_callback ep CbResume"
definition pipe_OnOther where "pipe_OnOther n ep = pipe_callback ep (CbOther n)"
definition pipe_OnEventSourceOpen where "pipe_OnEventSourceOpen nm ep = pipe_callback ep (CbSourceOpen nm)"
definition pipe_OnEventSourceEOF where "pipe_OnEventSourceEOF ep = pipe_callback ep CbSourceEOF"
definition pipe_OnInitialize where "pipe_OnInitialize ep = pipe_callback ep CbInitialize"

subsection \<open>The command\<close>

text \<open>Event builder processors and pipeline processors are objects; the latter point to a pipeline.\<close>

record evb_world =
  ew_tree :: tree_world
  ew_pipes :: pipelines
  ew_Processors :: "(string \<times> nat) list"
  ew_evbs :: "(nat \<times> evb) list"
  ew_pipeProcessors :: "(nat \<times> string) list"

datatype evb_error =
    BadParameterCount | BadNumber | InvalidSubcommand | HelpRequested
  | NotManaged string
  | NoPipelineNamed string
  | AlreadyHasProcessor string u32
  | ManagerError pm_error
  | TreeError tree_error

datatype evb_command_result = EvbDone "string list" evb_world | EvbFails evb_error evb_world | EvbCommandUndef

fun on_tree_result :: "'a tree_result \<Rightarrow> evb_world \<Rightarrow> ('a \<Rightarrow> evb_world \<Rightarrow> evb_command_result) \<Rightarrow> evb_command_result" where
  "on_tree_result (TOk x w) ew f = f x (ew\<lparr> ew_tree := w \<rparr>)"
| "on_tree_result (TThrows e w) ew f = EvbFails (TreeError e) (ew\<lparr> ew_tree := w \<rparr>)"
| "on_tree_result TUndef ew f = EvbCommandUndef"

text \<open>alloc i is the address of the i-th object the command creates.\<close>

definition delete_evb :: "nat \<Rightarrow> evb_error \<Rightarrow> evb_world \<Rightarrow> evb_command_result" where
  "delete_evb e err ew = (case smap_get (ew_evbs ew) e of
      None \<Rightarrow> EvbCommandUndef
    | Some eb \<Rightarrow> on_tree_result (destroy_evb eb (ew_tree ew)) ew
        (\<lambda>_ ew. EvbFails err (ew\<lparr> ew_evbs := smap_erase e (ew_evbs ew) \<rparr>)))"

text \<open>If binding fails the processor is deleted, but stays registered.\<close>

definition evb_create :: "(nat \<Rightarrow> nat) \<Rightarrow> (string \<Rightarrow> rat option) \<Rightarrow> string list \<Rightarrow> evb_world \<Rightarrow> evb_command_result" where
  "evb_create alloc get_double objv ew =
     (if length objv \<noteq> 5 then EvbFails BadParameterCount ew
      else case get_double (objv ! 3) of
        None \<Rightarrow> EvbFails BadNumber ew
      | Some mhz \<Rightarrow> on_tree_result (new_evb mhz (objv ! 4) (alloc 1) (alloc 2) (alloc 3) (alloc 4) (ew_tree ew)) ew (\<lambda>eb ew.
          let ew = ew\<lparr> ew_evbs := smap_put (alloc 0) eb (ew_evbs ew) \<rparr> in
          case registerEventProcessor (objv ! 2) (alloc 0) (ew_pipes ew) of
            PmUndefined \<Rightarrow> EvbCommandUndef
          | PmThrows e \<Rightarrow> delete_evb (alloc 0) (ManagerError e) ew
          | PmOk pm \<Rightarrow>
             (let ew = ew\<lparr> ew_pipes := pm, ew_Processors := smap_put (objv ! 2) (alloc 0) (ew_Processors ew) \<rparr> in
              case BindParameters (ew_tree ew) of
                TOk _ w \<Rightarrow> EvbDone [] (ew\<lparr> ew_tree := w \<rparr>)
              | TThrows e w \<Rightarrow> delete_evb (alloc 0) (TreeError e) (ew\<lparr> ew_tree := w \<rparr>)
              | TUndef \<Rightarrow> EvbCommandUndef)))"

definition evb_addprocessor ::
  "(nat \<Rightarrow> nat) \<Rightarrow> (string \<Rightarrow> u32 option) \<Rightarrow> string list \<Rightarrow> evb_world \<Rightarrow> evb_command_result" where
  "evb_addprocessor alloc get_int objv ew =
     (if length objv \<noteq> 5 then EvbFails BadParameterCount ew
      else case get_int (objv ! 3) of
        None \<Rightarrow> EvbFails BadNumber ew
      | Some sid \<Rightarrow> (case smap_get (ew_Processors ew) (objv ! 2) of
          None \<Rightarrow> EvbFails (NotManaged (objv ! 2)) ew
        | Some e \<Rightarrow>
            if smap_get (pm_pipelines (ew_pipes ew)) (objv ! 4) = None then EvbFails (NoPipelineNamed (objv ! 4)) ew
            else case smap_get (ew_evbs ew) e of
              None \<Rightarrow> EvbCommandUndef
            | Some eb \<Rightarrow>
                if haveEventProcessor sid eb then EvbFails (AlreadyHasProcessor (objv ! 2) sid) ew
                else on_tree_result (addEventProcessor (alloc 1) (\<lambda>s. alloc (2 + unat s)) sid (alloc 0) eb (ew_tree ew))
                  (ew\<lparr> ew_pipeProcessors := smap_put (alloc 0) (objv ! 4) (ew_pipeProcessors ew) \<rparr>) (\<lambda>eb ew.
                    on_tree_result (BindParameters (ew_tree ew)) (ew\<lparr> ew_evbs := smap_put e eb (ew_evbs ew) \<rparr>)
                      (\<lambda>_ ew. EvbDone [] ew))))"

definition evb_list :: "(string \<Rightarrow> string \<Rightarrow> bool) \<Rightarrow> string list \<Rightarrow> evb_world \<Rightarrow> evb_command_result" where
  "evb_list matches objv ew =
     (if 3 < length objv then EvbFails BadParameterCount ew
      else EvbDone (filter (\<lambda>nm. matches nm (if length objv = 3 then objv ! 2 else ''*'')) (map fst (ew_Processors ew))) ew)"

definition evbunpack ::
  "(nat \<Rightarrow> nat) \<Rightarrow> (string \<Rightarrow> rat option) \<Rightarrow> (string \<Rightarrow> u32 option) \<Rightarrow> (string \<Rightarrow> string \<Rightarrow> bool) \<Rightarrow>
   string list \<Rightarrow> evb_world \<Rightarrow> evb_command_result" where
  "evbunpack alloc get_double get_int matches objv ew =
     (if length objv < 2 then EvbFails BadParameterCount ew
      else if objv ! 1 = ''create'' then evb_create alloc get_double objv ew
      else if objv ! 1 = ''addprocessor'' then evb_addprocessor alloc get_int objv ew
      else if objv ! 1 = ''list'' then evb_list matches objv ew
      else EvbFails (if objv ! 1 = ''help'' then HelpRequested else InvalidSubcommand) ew)"

subsection \<open>Sources of an event\<close>

lemma evb_bind_Returns:
  "evb_bind r eb p f = EvbReturns b eb' s' \<Longrightarrow> \<exists>x w. r = TOk x w \<and> f x (w, p) = EvbReturns b eb' s'"
  by (cases r) auto

lemma finish_event_Returns: "finish_event stamps eb s = EvbReturns b eb' s' \<Longrightarrow> eb' = eb"
  by (auto simp: finish_event_def split: list.splits option.splits dest!: evb_bind_Returns)

lemma fragments_loop_handlers:
  "fragments_loop ep fs stamps eb s finish_event = EvbReturns True eb' s' \<Longrightarrow>
   smap_get (eb_sourceHandlers eb') sid = (case smap_get (eb_sourceHandlers eb) sid of
      Some d \<Rightarrow> Some d | None \<Rightarrow> if sid \<in> fr_sourceId ` set fs then Some no_source else None)"
proof (induction fs arbitrary: stamps eb s)
  case Nil
  then show ?case by (auto dest: finish_event_Returns split: option.split)
next
  case (Cons f fs)
  let ?info = "case smap_get (eb_sourceHandlers eb) (fr_sourceId f) of Some d \<Rightarrow> d | None \<Rightarrow> no_source"
  let ?eb = "eb\<lparr> eb_sourceHandlers := smap_put (fr_sourceId f) ?info (eb_sourceHandlers eb) \<rparr>"
  have "\<exists>st s1. fragments_loop ep fs st ?eb s1 finish_event = EvbReturns True eb' s'"
  proof (cases "sd_processor ?info")
    case None
    then show ?thesis using Cons.prems by (auto simp: Let_def dest!: evb_bind_Returns)
  next
    case (Some p)
    then show ?thesis
      using Cons.prems
      by (auto simp: Let_def split: option.splits method_result.splits bool.splits dest!: evb_bind_Returns; blast)
  qed
  then show ?case using Cons.IH by (auto split: option.splits)
qed

lemma evb_operator_handlers:
  "evb_operator index ep ev eb s = EvbReturns True eb' s' \<Longrightarrow>
   smap_get (eb_sourceHandlers eb') sid = (case smap_get (eb_sourceHandlers eb) sid of
      Some d \<Rightarrow> Some d | None \<Rightarrow> if sid \<in> fr_sourceId ` set (index ev) then Some no_source else None)"
  unfolding evb_operator_def Let_def
  by (drule evb_bind_Returns, elim exE conjE)+ (drule fragments_loop_handlers [where sid = sid], simp)

text \<open>
  C36. A fragment of a source without a processor blocks the source: once an event with one has
  been processed the source counts as having a processor, so the command that should give it one
  fails, although fragments of the source are still counted as unrecognized.
\<close>

theorem unknown_source_blocked:
  assumes "evb_operator index ep ev eb s = EvbReturns True eb' s'" "f \<in> set (index ev)"
    "\<not> haveEventProcessor (fr_sourceId f) eb"
    "smap_get (ew_Processors ew) nm = Some e" "smap_get (ew_evbs ew) e = Some eb'"
    "smap_get (pm_pipelines (ew_pipes ew)) pipe \<noteq> None" "get_int sid = Some (fr_sourceId f)"
  shows "evbunpack alloc get_double get_int matches [cmd, ''addprocessor'', nm, sid, pipe] ew =
      EvbFails (AlreadyHasProcessor nm (fr_sourceId f)) ew \<and>
    map_option sd_processor (smap_get (eb_sourceHandlers eb') (fr_sourceId f)) = Some None"
proof -
  have "smap_get (eb_sourceHandlers eb') (fr_sourceId f) = Some no_source"
    using evb_operator_handlers [OF assms(1), of "fr_sourceId f"] assms(2,3) by (simp add: haveEventProcessor_def)
  then show ?thesis
    using assms(4-7) by (simp add: evbunpack_def evb_addprocessor_def haveEventProcessor_def no_source_def)
qed

text \<open>A tree parameter that can be set.\<close>

definition settable :: "nat \<Rightarrow> u32 \<Rightarrow> tree_world \<Rightarrow> bool" where
  "settable p n w \<longleftrightarrow> bound p n w \<and> unat n < max_params \<and> (\<exists>e. tw_event w = Some e \<and> ev_ok e)"

lemma settable_set:
  assumes "settable p n w"
  obtains w' w'' where "tp_setValue p v w = TOk () w'" "settable p n w'" "tp_getValue p w' = TOk v w''" "settable p n w''"
proof -
  obtain e where e: "tw_event w = Some e" "ev_ok e" "bound p n w" "unat n < max_params"
    using assms unfolding settable_def by blast
  obtain e' where e': "ev_set n v e = Some e'" "ev_ok e'" "ev_abs e' = (ev_abs e)(unat n \<mapsto> v)"
    using ev_set_spec [OF e(2,4)] by metis
  have b: "bound p n (setEvent e' w)" "tw_event (setEvent e' w) = Some e'" using e(3) by simp_all
  from getValue_bound [OF this e'(2) e(4)] obtain e'' where "ev_ok e''"
    "tp_getValue p (setEvent e' w) = TOk v (setEvent e'' (setEvent e' w))" using e'(3) by auto
  then show thesis
    using that [OF setValue_bound [OF e(3,1) e'(1)]] e' e(3,4) by (simp add: settable_def)
qed

definition demo_evb :: evb where
  "demo_evb = \<lparr> eb_ClockMHz = 1, eb_sourceHandlers = [], eb_timeDifferenceParams = [], eb_sourceCount = 0,
     eb_unrecognizedSourceCount = 0, eb_eventNumber = 0, eb_seconds = 0, eb_baseName = ''e'', eb_nEvents = 0 \<rparr>"

lemma demo_evb_event:
  assumes "settable 0 0 w" "index ev = [f]"
  obtains eb' s' where "evb_operator index ep ev demo_evb (w, p) = EvbReturns True eb' s'"
proof -
  obtain w1 where 1: "tp_setValue 0 1 w = TOk () w1" "settable 0 0 w1" using settable_set [OF assms(1)] by metis
  obtain w2 where 2: "tp_setValue 0 1 w1 = TOk () w2" "settable 0 0 w2" using settable_set [OF 1(2)] by metis
  obtain w3 w4 where 3: "tp_setValue 0 0 w2 = TOk () w3" "tp_getValue 0 w3 = TOk 0 w4" "settable 0 0 w4"
    using settable_set [OF 2(2)] by metis
  obtain w5 where 5: "tp_setValue 0 (f64 1) w4 = TOk () w5" "settable 0 0 w5" using settable_set [OF 3(3)] by metis
  obtain w6 where 6: "tp_setValue 0 (f64 (u64_double (fr_timestamp f) / f64 1000000)) w5 = TOk () w6"
    using settable_set [OF 5(2)] by metis
  show thesis
    using that 1 2 3 5 6 assms(2)
    by (simp add: evb_operator_def demo_evb_def no_source_def finish_event_def run_seconds_def)
qed

theorem unknown_source_blocked_witness:
  "\<exists>eb'. evbunpack id (\<lambda>_. None) (\<lambda>_. Some 5) (\<lambda>_ _. True) [''evbunpack'', ''addprocessor'', ''p'', ''5'', ''pipe'']
     \<lparr> ew_tree = demo_world, ew_pipes = \<lparr> pm_pipelines = [(''pipe'', [])], pm_processors = [], pm_pCurrent = None,
         pm_currentName = [], pm_calls = [] \<rparr>,
       ew_Processors = [(''p'', 9)], ew_evbs = [(9, eb')], ew_pipeProcessors = [] \<rparr> =
   EvbFails (AlreadyHasProcessor ''p'' 5) \<lparr> ew_tree = demo_world, ew_pipes = \<lparr> pm_pipelines = [(''pipe'', [])],
         pm_processors = [], pm_pCurrent = None, pm_currentName = [], pm_calls = [] \<rparr>,
       ew_Processors = [(''p'', 9)], ew_evbs = [(9, eb')], ew_pipeProcessors = [] \<rparr>"
proof -
  obtain w where "bound 0 0 w" "tw_event w = Some new_event" by (rule demo_bound)
  then have "settable 0 0 w" by (simp add: settable_def max_params_def)
  let ?f = "\<lparr> fr_sourceId = 5, fr_timestamp = 0, fr_itembody = [] \<rparr>"
  let ?ep = "\<lparr> ep_operator = (\<lambda>_ _. Returns True), ep_callback = (\<lambda>_ _. Returns True) \<rparr> :: unit methods"
  obtain eb' s' where e: "evb_operator (\<lambda>_. [?f]) ?ep [] demo_evb (w, ()) = EvbReturns True eb' s'"
    by (rule demo_evb_event [OF \<open>settable 0 0 w\<close> refl])
  let ?ew = "\<lparr> ew_tree = demo_world, ew_pipes = \<lparr> pm_pipelines = [(''pipe'', [])], pm_processors = [],
         pm_pCurrent = None, pm_currentName = [], pm_calls = [] \<rparr>,
       ew_Processors = [(''p'', 9)], ew_evbs = [(9, eb')], ew_pipeProcessors = [] \<rparr>"
  from unknown_source_blocked [OF e, of ?f ?ew "''p''" 9 "''pipe''" "\<lambda>_. Some 5" "''5''" id "\<lambda>_. None" "\<lambda>_ _. True"
      "''evbunpack''"]
  show ?thesis by (intro exI [of _ eb']) (simp add: demo_evb_def haveEventProcessor_def)
qed

subsection \<open>Order of registration\<close>

text \<open>Sources registered after x.\<close>

definition later :: "u32 \<Rightarrow> u32 list \<Rightarrow> u32 set" where
  "later x sids = set (tl (dropWhile (\<lambda>z. z \<noteq> x) sids))"

lemma later_snoc:
  "i \<notin> set sids \<Longrightarrow> later x (sids @ [i]) = (if x \<in> set sids then insert i (later x sids) else {})"
proof (cases "x \<in> set sids")
  case True
  then have "dropWhile (\<lambda>z. z \<noteq> x) (sids @ [i]) = dropWhile (\<lambda>z. z \<noteq> x) sids @ [i]"
    by (simp add: dropWhile_append1)
  moreover have "dropWhile (\<lambda>z. z \<noteq> x) sids \<noteq> []" using True by (simp add: dropWhile_eq_Nil_conv)
  ultimately show ?thesis using True by (simp add: later_def)
next
  case False
  then have "dropWhile (\<lambda>z. z \<noteq> x) (sids @ [i]) = dropWhile (\<lambda>z. z \<noteq> x) [i]"
    by (intro dropWhile_append2) auto
  then show ?thesis using False by (simp add: later_def)
qed

lemma tbind_TOk: "tbind r f = TOk x w \<Longrightarrow> \<exists>y w1. r = TOk y w1 \<and> f y w1 = TOk x w"
  by (cases r) auto

definition tdiffs_inv :: "u32 list \<Rightarrow> (u32 \<times> (u32 \<times> nat) list) list \<Rightarrow> bool" where
  "tdiffs_inv sids ds \<longleftrightarrow> (\<forall>x. smap_get ds x \<noteq> None \<longleftrightarrow> x \<in> set sids) \<and>
     (\<forall>x m y. smap_get ds x = Some m \<longrightarrow> (smap_get m y \<noteq> None \<longleftrightarrow> y \<in> later x sids))"

lemma add_tdiffs_get:
  "add_tdiffs base alloc i ds w = TOk ds' w' \<Longrightarrow>
   smap_get ds' x = map_option (\<lambda>m. smap_put i (alloc x) m) (smap_get ds x)"
proof (induction base alloc i ds w arbitrary: ds' rule: add_tdiffs.induct)
  case (2 base alloc i other m ds w)
  from "2.prems" obtain w1 ds1 where
    "construct (alloc other) (Initialize_units (alloc other) (tdiffParamName base other i) ''ticks'') w = TOk () w1"
    "add_tdiffs base alloc i ds w1 = TOk ds1 w'" "ds' = (other, smap_put i (alloc other) m) # ds1"
    by (auto dest!: tbind_TOk)
  then show ?case using "2.IH" by simp
qed simp

lemma addEventProcessor_tdiffs:
  assumes "addEventProcessor q alloc i p eb w = TOk eb' w'" "tdiffs_inv sids (eb_timeDifferenceParams eb)" "i \<notin> set sids"
  shows "tdiffs_inv (sids @ [i]) (eb_timeDifferenceParams eb')"
proof -
  obtain ds w0 w1 where ds: "add_tdiffs (eb_baseName eb) alloc i (eb_timeDifferenceParams eb) w0 = TOk ds w1"
    "eb_timeDifferenceParams eb' = (if smap_get ds i = None then smap_put i [] ds else ds)"
    using assms(1) by (auto simp: addEventProcessor_def addEventSourceParameters_def dest!: tbind_TOk)
  note get = add_tdiffs_get [OF ds(1)]
  have "smap_get (eb_timeDifferenceParams eb) i = None" using assms(2,3) by (auto simp: tdiffs_inv_def)
  then have new: "smap_get (eb_timeDifferenceParams eb') x =
      (if x = i then Some [] else map_option (\<lambda>m. smap_put i (alloc x) m) (smap_get (eb_timeDifferenceParams eb) x))" for x
    using ds(2) get by simp
  show ?thesis
    using assms(2,3) unfolding tdiffs_inv_def
    by (auto simp: new later_snoc [OF assms(3)] split: if_splits) blast
qed

text \<open>Sources given processors one after the other: objects, source, processor.\<close>

fun add_sources :: "(nat \<times> (u32 \<Rightarrow> nat) \<times> u32 \<times> nat) list \<Rightarrow> evb \<Rightarrow> evb tree_op" where
  "add_sources [] eb w = TOk eb w"
| "add_sources ((q, alloc, i, p) # xs) eb w = tbind (addEventProcessor q alloc i p eb w) (add_sources xs)"

lemma add_sources_tdiffs:
  assumes "add_sources xs eb w = TOk eb' w'" "tdiffs_inv sids (eb_timeDifferenceParams eb)"
    "distinct (sids @ map (\<lambda>(q, alloc, i, p). i) xs)"
  shows "tdiffs_inv (sids @ map (\<lambda>(q, alloc, i, p). i) xs) (eb_timeDifferenceParams eb')"
  using assms
proof (induction xs arbitrary: sids eb w)
  case (Cons x xs)
  obtain q alloc i p where x: "x = (q, alloc, i, p)" by (cases x)
  obtain eb1 w1 where a: "addEventProcessor q alloc i p eb w = TOk eb1 w1" "add_sources xs eb1 w1 = TOk eb' w'"
    using Cons.prems(1) x by (auto dest!: tbind_TOk)
  have "tdiffs_inv (sids @ [i]) (eb_timeDifferenceParams eb1)"
    using addEventProcessor_tdiffs [OF a(1) Cons.prems(2)] Cons.prems(3) x by simp
  from Cons.IH [OF a(2) this] show ?case using Cons.prems(3) x by simp
qed simp

text \<open>
  C37. A time difference is computed only for fragments in the order in which their sources were
  given processors: for two sources with processors, the pair sets the difference parameter if the
  source of the earlier fragment was registered first, and sets nothing at all otherwise.
\<close>

theorem tdiff_registration_order:
  assumes "add_sources xs eb w0 = TOk eb' w1" "eb_timeDifferenceParams eb = []"
    "sids = map (\<lambda>(q, alloc, i, p). i) xs" "distinct sids" "x \<in> set sids" "y \<in> set sids"
  shows "if y \<in> later x sids then \<exists>p. \<forall>w. tdiff_pair (eb_timeDifferenceParams eb') (x, t1) (y, t2) w = set_tdiff p t1 t2 w
    else \<forall>w. tdiff_pair (eb_timeDifferenceParams eb') (x, t1) (y, t2) w = TOk () w"
proof -
  have "tdiffs_inv [] (eb_timeDifferenceParams eb)" using assms(2) by (simp add: tdiffs_inv_def)
  from add_sources_tdiffs [OF assms(1) this] have inv: "tdiffs_inv sids (eb_timeDifferenceParams eb')"
    using assms(3,4) by simp
  then obtain m where m: "smap_get (eb_timeDifferenceParams eb') x = Some m"
    using assms(5) unfolding tdiffs_inv_def by blast
  then have "smap_get m y \<noteq> None \<longleftrightarrow> y \<in> later x sids" using inv by (auto simp: tdiffs_inv_def)
  then show ?thesis using m by (cases "smap_get m y") (auto simp: tdiff_pair_def)
qed

definition demo_sources :: "(nat \<times> (u32 \<Rightarrow> nat) \<times> u32 \<times> nat) list" where
  "demo_sources = [(1, \<lambda>_. 10, 7, 20), (2, \<lambda>_. 11, 4, 21)]"

lemma demo_sources_added: "\<exists>eb w. add_sources demo_sources demo_evb demo_world = TOk eb w"
proof -
  have "case add_sources demo_sources demo_evb demo_world of TOk _ _ \<Rightarrow> True | _ \<Rightarrow> False" by code_simp
  then show ?thesis by (cases "add_sources demo_sources demo_evb demo_world") auto
qed

theorem tdiff_registration_order_witness:
  "\<exists>eb w1. add_sources demo_sources demo_evb demo_world = TOk eb w1 \<and>
     (\<exists>p. \<forall>w. tdiff_pair (eb_timeDifferenceParams eb) (7, 100) (4, 90) w = set_tdiff p 100 90 w) \<and>
     (\<forall>w. tdiff_pair (eb_timeDifferenceParams eb) (4, 90) (7, 100) w = TOk () w)"
proof -
  obtain eb w1 where a: "add_sources demo_sources demo_evb demo_world = TOk eb w1" using demo_sources_added by blast
  have d: "eb_timeDifferenceParams demo_evb = []" "[7, 4] = map (\<lambda>(q, alloc, i, p). i) demo_sources"
    "distinct [7 :: u32, 4]" by (simp_all add: demo_evb_def demo_sources_def)
  note t = tdiff_registration_order [OF a d]
  have "(4 :: u32) \<in> later 7 [7, 4]" "(7 :: u32) \<notin> later 4 [7, 4]" by (simp_all add: later_def)
  then show ?thesis using t [of 7 4 100 90] t [of 4 7 90 100] a by simp
qed

end
