(* ===== verification/Vx2750.thy ===== *)
theory Vx2750
  imports EventBuilder
begin

text \<open>
  CAEN VX2750 digitizers (src/main/Core/VX2750ModuleUnpacker.cpp, VX2750EventProcessor.cpp,
  VX2750EventBuiltEventProcessor.cpp): unpacking of a hit into tree parameters and the unpacker's
  own arrays, the getters of those, the event processor of a module and the one of built events.
\<close>

subsection \<open>State\<close>

record vx_channel =
  vx_lowPriorityFlags :: u16
  vx_highPriorityFlags :: u16
  vx_downSampleSelection :: u16
  vx_failFlags :: u16
  vx_analogProbe1Type :: u16
  vx_analogProbe1Samples :: "u32 list"
  vx_analogProbe2Type :: u16
  vx_analogProbe2Samples :: "u32 list"
  vx_digitalProbe1Type :: u16
  vx_digitalProbe1Samples :: "u8 list"
  vx_digitalProbe2Type :: u16
  vx_digitalProbe2Samples :: "u8 list"
  vx_digitalProbe3Type :: u16
  vx_digitalProbe3Samples :: "u8 list"
  vx_digitalProbe4Type :: u16
  vx_digitalProbe4Samples :: "u8 list"

text \<open>The channels for which a duplicate was reported are a log.\<close>

record vx_unpacker =
  vx_moduleName :: string
  vx_channelMask :: u64
  vx_ns :: tree_array
  vx_rawTimestamp :: tree_array
  vx_fineTimestamp :: tree_array
  vx_energy :: tree_array
  vx_channels :: "vx_channel list"
  vx_duplicates :: "u16 list"

definition VX2750_MAX_CHANNELS :: nat where "VX2750_MAX_CHANNELS = 64"

text \<open>
  The arrays of flags and types are not initialized: their contents are an argument, without
  samples.  The j-th array's sample and elements are at sample j and alloc j.
\<close>

definition new_vx ::
  "vx_channel list \<Rightarrow> (nat \<Rightarrow> nat) \<Rightarrow> (nat \<Rightarrow> nat \<Rightarrow> nat) \<Rightarrow> string \<Rightarrow> string \<Rightarrow> vx_unpacker tree_op" where
  "new_vx raw sample alloc moduleName base w =
     (let make = (\<lambda>j suffix u. new_array (Array_Initialize_units (sample j) (alloc j) (base @ suffix) u 64 0)) in
      tbind (make 0 ''.ns'' ''ns'' w) (\<lambda>a0 w.
      tbind (make 1 ''.rawTime'' ''arb'' w) (\<lambda>a1 w.
      tbind (make 2 ''.fineTime'' ''arb'' w) (\<lambda>a2 w.
      tbind (make 3 ''.energy'' ''arb'' w) (\<lambda>a3.
      TOk \<lparr> vx_moduleName = moduleName, vx_channelMask = 0, vx_ns = a0, vx_rawTimestamp = a1, vx_fineTimestamp = a2,
        vx_energy = a3, vx_channels = raw, vx_duplicates = [] \<rparr>)))))"

definition destroy_vx :: "vx_unpacker \<Rightarrow> unit tree_op" where
  "destroy_vx u w = tbind (destroy_array (vx_ns u) w) (\<lambda>_ w. tbind (destroy_array (vx_rawTimestamp u) w) (\<lambda>_ w.
     tbind (destroy_array (vx_fineTimestamp u) w) (\<lambda>_. destroy_array (vx_energy u))))"

definition clear_samples :: "vx_channel \<Rightarrow> vx_channel" where
  "clear_samples c = c\<lparr> vx_analogProbe1Samples := [], vx_analogProbe2Samples := [], vx_digitalProbe1Samples := [],
     vx_digitalProbe2Samples := [], vx_digitalProbe3Samples := [], vx_digitalProbe4Samples := [] \<rparr>"

definition vx_reset :: "vx_unpacker \<Rightarrow> vx_unpacker" where
  "vx_reset u = u\<lparr> vx_channelMask := 0, vx_channels := map clear_samples (vx_channels u) \<rparr>"

subsection \<open>Unpacking\<close>

text \<open>After the size, the module name with its terminator, padded to an even length.\<close>

definition vx_header :: "u8 list \<Rightarrow> (string \<times> u8 list) option" where
  "vx_header bs = do {
     r \<leftarrow> skip 4 bs;
     (nm, r) \<leftarrow> get_cstring r;
     Some (nm, drop ((length nm + 1) mod 2) r)
   }"

definition probe32 :: "u8 list \<Rightarrow> (u16 \<times> u32 list \<times> u8 list) option" where
  "probe32 bs = do { (t, r) \<leftarrow> rd16 bs; (n, r) \<leftarrow> rd32 r; (xs, r) \<leftarrow> rd_many rd32 (unat n) r; Some (t, xs, r) }"

definition probe8 :: "u8 list \<Rightarrow> (u16 \<times> u8 list \<times> u8 list) option" where
  "probe8 bs = do { (t, r) \<leftarrow> rd16 bs; (n, r) \<leftarrow> rd32 r; (xs, r) \<leftarrow> rd_many rd8 (unat n) r; Some (t, xs, r) }"

definition vx_body :: "u8 list \<Rightarrow> (vx_channel \<times> u8 list) option" where
  "vx_body bs = do {
     (lp, r) \<leftarrow> rd16 bs;
     (hp, r) \<leftarrow> rd16 r;
     (ds, r) \<leftarrow> rd16 r;
     (ff, r) \<leftarrow> rd16 r;
     (at1, as1, r) \<leftarrow> probe32 r;
     (at2, as2, r) \<leftarrow> probe32 r;
     (dt1, ds1, r) \<leftarrow> probe8 r;
     (dt2, ds2, r) \<leftarrow> probe8 r;
     (dt3, ds3, r) \<leftarrow> probe8 r;
     (dt4, ds4, r) \<leftarrow> probe8 r;
     Some (\<lparr> vx_lowPriorityFlags = lp, vx_highPriorityFlags = hp, vx_downSampleSelection = ds, vx_failFlags = ff,
       vx_analogProbe1Type = at1, vx_analogProbe1Samples = as1, vx_analogProbe2Type = at2, vx_analogProbe2Samples = as2,
       vx_digitalProbe1Type = dt1, vx_digitalProbe1Samples = ds1, vx_digitalProbe2Type = dt2, vx_digitalProbe2Samples = ds2,
       vx_digitalProbe3Type = dt3, vx_digitalProbe3Samples = ds3, vx_digitalProbe4Type = dt4, vx_digitalProbe4Samples = ds4 \<rparr>, r)
   }"

definition set_read :: "tree_array \<Rightarrow> u16 \<Rightarrow> ('a \<Rightarrow> rat) \<Rightarrow> ('a \<times> u8 list) option \<Rightarrow> u8 list tree_op" where
  "set_read a ch val rd w = (case rd of
      None \<Rightarrow> TUndef
    | Some (x, r) \<Rightarrow> tbind (set_element (Some a) (ucast ch) (val x) w) (\<lambda>_. TOk r))"

definition vx_times :: "vx_unpacker \<Rightarrow> u16 \<Rightarrow> u8 list \<Rightarrow> u8 list tree_op" where
  "vx_times u ch r w =
     tbind (set_read (vx_ns u) ch u64_double (rd64 r) w) (\<lambda>r w.
     tbind (set_read (vx_rawTimestamp u) ch u64_double (rd64 r) w) (\<lambda>r w.
     tbind (set_read (vx_fineTimestamp u) ch u16_double (rd16 r) w) (\<lambda>r.
     set_read (vx_energy u) ch u16_double (rd16 r))))"

datatype vx_error = ModuleMismatch | VxTreeError tree_error

datatype vx_result = Unpacked nat vx_unpacker tree_world | UnpackThrows vx_error vx_unpacker tree_world | UnpackUndef

text \<open>
  A shift by more than 63 is undefined.  The test for a duplicate is m & (m_channelMask != 0).
  The number is that of the bytes up to the pointer returned.
\<close>

definition mark_channel :: "u16 \<Rightarrow> vx_unpacker \<Rightarrow> vx_unpacker" where
  "mark_channel ch u =
     (let m = push_bit (unat ch) 1 :: u64 in
      u\<lparr> vx_channelMask := or (vx_channelMask u) m,
         vx_duplicates := vx_duplicates u @ (if and m (if vx_channelMask u \<noteq> 0 then 1 else 0) \<noteq> 0 then [ch] else []) \<rparr>)"

definition unpackHit :: "u8 list \<Rightarrow> vx_unpacker \<Rightarrow> tree_world \<Rightarrow> vx_result" where
  "unpackHit pData u w = (case vx_header pData of
      None \<Rightarrow> UnpackUndef
    | Some (nm, r) \<Rightarrow>
        if nm \<noteq> vx_moduleName u then UnpackThrows ModuleMismatch u w
        else case rd16 r of
          None \<Rightarrow> UnpackUndef
        | Some (ch, r) \<Rightarrow>
            if VX2750_MAX_CHANNELS \<le> unat ch then UnpackUndef
            else (case vx_times u ch r w of
                TUndef \<Rightarrow> UnpackUndef
              | TThrows e w' \<Rightarrow> UnpackThrows (VxTreeError e) (mark_channel ch u) w'
              | TOk r w' \<Rightarrow> (case vx_body r of
                  None \<Rightarrow> UnpackUndef
                | Some (c, r) \<Rightarrow>
                    let n = length pData - length r;
                        u' = mark_channel ch u
                    in Unpacked (n + n mod 2) (u'\<lparr> vx_channels := (vx_channels u)[unat ch := c] \<rparr>) w')))"

subsection \<open>Getters\<close>

definition getChannelMask :: "vx_unpacker \<Rightarrow> u64" where
  "getChannelMask u = vx_channelMask u"

text \<open>1 << i in int, widened: the last bit is the sign, and further ones are undefined.\<close>

definition int_bit :: "nat \<Rightarrow> u64 option" where
  "int_bit i = (if i < 32 then Some (scast (push_bit i 1 :: i32)) else None)"

fun channel_loop :: "u64 \<Rightarrow> nat list \<Rightarrow> nat list option" where
  "channel_loop hit [] = Some []"
| "channel_loop hit (i # is) = (case int_bit i of
      None \<Rightarrow> None
    | Some m \<Rightarrow> map_option (\<lambda>s. if and hit m \<noteq> 0 then i # s else s) (channel_loop hit is))"

definition getChannelSet :: "vx_unpacker \<Rightarrow> nat set option" where
  "getChannelSet u = map_option set (channel_loop (vx_channelMask u) [0..<64])"

datatype 'a vx_get = Got 'a | OutOfRangeChannel | NotHit | GetUndef

definition checkChannel :: "u32 \<Rightarrow> vx_unpacker \<Rightarrow> unit vx_get" where
  "checkChannel ch u =
     (if VX2750_MAX_CHANNELS \<le> unat ch then OutOfRangeChannel
      else case int_bit (unat ch) of
        None \<Rightarrow> GetUndef
      | Some m \<Rightarrow> if and (vx_channelMask u) m = 0 then NotHit else Got ())"

definition vx_get :: "(vx_channel \<Rightarrow> 'a) \<Rightarrow> u32 \<Rightarrow> vx_unpacker \<Rightarrow> 'a vx_get" where
  "vx_get f ch u = (case checkChannel ch u of
      Got _ \<Rightarrow> Got (f (vx_channels u ! unat ch)) | OutOfRangeChannel \<Rightarrow> OutOfRangeChannel
    | NotHit \<Rightarrow> NotHit | GetUndef \<Rightarrow> GetUndef)"

definition getLowPriorityFlags where "getLowPriorityFlags = vx_get vx_lowPriorityFlags"
definition getHighPriorityFlags where "getHighPriorityFlags = vx_get vx_highPriorityFlags"
definition getDownSampleSelection where "getDownSampleSelection = vx_get vx_downSampleSelection"
definition getFailFlags where "getFailFlags = vx_get vx_failFlags"
definition getAnalogProbe1Type where "getAnalogProbe1Type = vx_get vx_analogProbe1Type"
definition getAnalogProbe1Samples where "getAnalogProbe1Samples = vx_get vx_analogProbe1Samples"
definition getAnalogProbe2Type where "getAnalogProbe2Type = vx_get vx_analogProbe2Type"
definition getAnalogProbe2Samples where "getAnalogProbe2Samples = vx_get vx_analogProbe2Samples"
definition getDigitalProbe1Type where "getDigitalProbe1Type = vx_get vx_digitalProbe1Type"
definition getDigitalProbe1Samples where "getDigitalProbe1Samples = vx_get vx_digitalProbe1Samples"
definition getDigitalProbe2Type where "getDigitalProbe2Type = vx_get vx_digitalProbe2Type"
definition getDigitalProbe2Samples where "getDigitalProbe2Samples = vx_get vx_digitalProbe2Samples"
definition getDigitalProbe3Type where "getDigitalProbe3Type = vx_get vx_digitalProbe3Type"
definition getDigitalProbe3Samples where "getDigitalProbe3Samples = vx_get vx_digitalProbe3Samples"
definition getDigitalProbe4Type where "getDigitalProbe4Type = vx_get vx_digitalProbe4Type"
definition getDigitalProbe4Samples where "getDigitalProbe4Samples = vx_get vx_digitalProbe4Samples"

subsection \<open>Event processors\<close>

text \<open>A processor points to an unpacker.\<close>

record vx_world =
  vxw_unpackers :: "(nat \<times> vx_unpacker) list"
  vxw_processors :: "(nat \<times> nat) list"

definition put_unpacker :: "nat \<Rightarrow> vx_unpacker \<Rightarrow> vx_world \<Rightarrow> vx_world" where
  "put_unpacker k u x = x\<lparr> vxw_unpackers := smap_put k u (vxw_unpackers x) \<rparr>"

definition unpacker_of :: "nat \<Rightarrow> vx_world \<Rightarrow> (nat \<times> vx_unpacker) option" where
  "unpacker_of p x = do { k \<leftarrow> smap_get (vxw_processors x) p; u \<leftarrow> smap_get (vxw_unpackers x) k; Some (k, u) }"

definition resetUnpacker :: "nat \<Rightarrow> vx_world \<Rightarrow> vx_world option" where
  "resetUnpacker p x = map_option (\<lambda>(k, u). put_unpacker k (vx_reset u) x) (unpacker_of p x)"

text \<open>
  The handler is for std::exception; is_std tells whether the tree parameters' exception, whose
  base class is a library's, is one.
\<close>

definition vx_operator :: "bool \<Rightarrow> nat \<Rightarrow> u8 list \<Rightarrow> tree_world \<times> vx_world \<Rightarrow> (tree_world \<times> vx_world) method_result" where
  "vx_operator is_std p pEvent s = (case (get32 pEvent, unpacker_of p (snd s)) of
      (Some nWords, Some (k, u)) \<Rightarrow> (case unpackHit pEvent u (fst s) of
          Unpacked nBytes u' w \<Rightarrow> Returns (nBytes = unat nWords * 2) (w, put_unpacker k u' (snd s))
        | UnpackThrows e u' w \<Rightarrow>
            (if e = ModuleMismatch \<or> is_std then Returns False else Raises) (w, put_unpacker k u' (snd s))
        | UnpackUndef \<Rightarrow> MethodUndef)
    | _ \<Rightarrow> MethodUndef)"

text \<open>The other methods are those of CEventProcessor, which return true.\<close>

definition vx_methods :: "bool \<Rightarrow> vx_world methods" where
  "vx_methods is_std = \<lparr> ep_operator = vx_operator is_std, ep_callback = (\<lambda>_ _. Returns True) \<rparr>"

record vx_built =
  vb_evb :: evb
  vb_eventProcessors :: "nat list"
  vb_createdEventProcessors :: "nat list"
  vb_createdModuleUnpackers :: "nat list"

definition new_vx_built :: "string \<Rightarrow> nat \<Rightarrow> nat \<Rightarrow> nat \<Rightarrow> nat \<Rightarrow> vx_built tree_op" where
  "new_vx_built base p1 p2 p3 p4 w = tbind (new_evb 1000 base p1 p2 p3 p4 w) (\<lambda>eb.
     TOk \<lparr> vb_evb = eb, vb_eventProcessors = [], vb_createdEventProcessors = [], vb_createdModuleUnpackers = [] \<rparr>)"

definition vb_addEventProcessor :: "nat \<Rightarrow> (u32 \<Rightarrow> nat) \<Rightarrow> u32 \<Rightarrow> nat \<Rightarrow> vx_built \<Rightarrow> vx_built tree_op" where
  "vb_addEventProcessor present alloc sid p vb w = tbind (addEventProcessor present alloc sid p (vb_evb vb) w) (\<lambda>eb.
     TOk (vb\<lparr> vb_evb := eb, vb_eventProcessors := vb_eventProcessors vb @ [p] \<rparr>))"

text \<open>With an unpacker k a processor is made at p, with names an unpacker at k first.\<close>

definition vb_addUnpacker ::
  "nat \<Rightarrow> (u32 \<Rightarrow> nat) \<Rightarrow> nat \<Rightarrow> u32 \<Rightarrow> nat \<Rightarrow> vx_world \<Rightarrow> vx_built \<Rightarrow> (vx_built \<times> vx_world) tree_op" where
  "vb_addUnpacker present alloc p sid k x vb w =
     (let x = x\<lparr> vxw_processors := smap_put p k (vxw_processors x) \<rparr>;
          vb = vb\<lparr> vb_createdEventProcessors := vb_createdEventProcessors vb @ [p] \<rparr> in
      tbind (vb_addEventProcessor present alloc sid p vb w) (\<lambda>vb. TOk (vb, x)))"

definition vb_addModule ::
  "vx_channel list \<Rightarrow> (nat \<Rightarrow> nat) \<Rightarrow> (nat \<Rightarrow> nat \<Rightarrow> nat) \<Rightarrow> nat \<Rightarrow> (u32 \<Rightarrow> nat) \<Rightarrow> nat \<Rightarrow> u32 \<Rightarrow> nat \<Rightarrow> string \<Rightarrow> string \<Rightarrow>
   vx_world \<Rightarrow> vx_built \<Rightarrow> (vx_built \<times> vx_world) tree_op" where
  "vb_addModule raw sample elem present alloc p sid k moduleName base x vb w =
     tbind (new_vx raw sample elem moduleName base w) (\<lambda>u.
       vb_addUnpacker present alloc p sid k (put_unpacker k u x)
         (vb\<lparr> vb_createdModuleUnpackers := vb_createdModuleUnpackers vb @ [k] \<rparr>))"

fun reset_all :: "nat list \<Rightarrow> vx_world \<Rightarrow> vx_world option" where
  "reset_all [] x = Some x"
| "reset_all (p # ps) x = Option.bind (resetUnpacker p x) (reset_all ps)"

definition vb_operator ::
  "bool \<Rightarrow> (u8 list \<Rightarrow> fragment list) \<Rightarrow> u8 list \<Rightarrow> vx_built \<Rightarrow> tree_world \<times> vx_world \<Rightarrow> vx_world evb_outcome" where
  "vb_operator is_std index pEvent vb s = (case reset_all (vb_eventProcessors vb) (snd s) of
      None \<Rightarrow> EvbUndef
    | Some x \<Rightarrow> evb_operator index (vx_methods is_std) pEvent (vb_evb vb) (fst s, x))"

subsection \<open>Channels from 31 on\<close>

lemma int_bit_31: "int_bit 31 = Some (not (mask 31))"
proof -
  have "(scast (push_bit 31 1 :: i32) :: u64) = not (mask 31)"
    by code_simp
  then show ?thesis by (simp add: int_bit_def)
qed

lemma int_bit_low: "i < 31 \<Longrightarrow> int_bit i = Some (push_bit i 1)"
proof -
  assume i: "i < 31"
  have "(scast (push_bit i 1 :: i32) :: u64) = push_bit i 1"
    using i by (intro bit_word_eqI) (auto simp: bit_simps)
  then show ?thesis using i by (simp add: int_bit_def)
qed

lemma above_31: "and x (not (mask 31)) = 0 \<longleftrightarrow> (x :: u64) < 2 ^ 31"
proof -
  have "and x (not (mask 31)) = 0 \<longleftrightarrow> take_bit 31 x = x"
    by (auto simp: bit_eq_iff bit_simps simp del: mask_numeral)
  also have "\<dots> \<longleftrightarrow> x < 2 ^ 31"
    by (simp add: word_unat_eq_iff unsigned_take_bit_eq take_bit_nat_eq_self_iff word_less_nat_alt)
  finally show ?thesis .
qed

lemma channel_loop_undefined: "\<exists>i \<in> set is. 32 \<le> i \<Longrightarrow> channel_loop hit is = None"
  by (induction "is") (auto simp: int_bit_def)

text \<open>The getters of the unpacker are right below channel 31, confused at 31, and undefined from 32 on.\<close>

lemma vx_getters:
  "getChannelSet u = None \<and>
   vx_get f ch u =
     (if 64 \<le> unat ch then OutOfRangeChannel
      else if 32 \<le> unat ch then GetUndef
      else if (if unat ch = 31 then 2 ^ 31 \<le> vx_channelMask u else bit (vx_channelMask u) (unat ch))
      then Got (f (vx_channels u ! unat ch)) else NotHit)"
proof -
  have "channel_loop (vx_channelMask u) [0..<64] = None" by (intro channel_loop_undefined bexI [of _ 40]) simp_all
  then have s: "getChannelSet u = None" by (simp add: getChannelSet_def)
  consider "64 \<le> unat ch" | "32 \<le> unat ch" "unat ch < 64" | "unat ch = 31" | "unat ch < 31" by linarith
  then show ?thesis
  proof cases
    case 3
    then show ?thesis using s above_31 [of "vx_channelMask u"]
      by (simp add: vx_get_def checkChannel_def VX2750_MAX_CHANNELS_def int_bit_31 linorder_not_less [symmetric])
  next
    case 4
    have "and (vx_channelMask u) (push_bit (unat ch) 1) = 0 \<longleftrightarrow> \<not> bit (vx_channelMask u) (unat ch)"
      by (simp add: bit_iff_and_push_bit_not_eq_0)
    then show ?thesis using s 4
      by (simp add: vx_get_def checkChannel_def VX2750_MAX_CHANNELS_def int_bit_low)
  qed (use s in \<open>simp_all add: vx_get_def checkChannel_def VX2750_MAX_CHANNELS_def int_bit_def\<close>)
qed

subsection \<open>Bytes of a hit\<close>

definition put_probe32 :: "u16 \<Rightarrow> u32 list \<Rightarrow> u8 list" where
  "put_probe32 t xs = put16 t @ put32 (of_nat (length xs)) @ concat (map put32 xs)"

definition put_probe8 :: "u16 \<Rightarrow> u8 list \<Rightarrow> u8 list" where
  "put_probe8 t xs = put16 t @ put32 (of_nat (length xs)) @ xs"

lemma rd_many_bytes [simp]: "rd_many rd8 (length xs) (xs @ r) = Some (xs, r)"
  by (induction xs) simp_all

lemma probe32_put [simp]:
  "length xs < 2 ^ 32 \<Longrightarrow> probe32 (put_probe32 t xs @ r) = Some (t, xs, r)"
  using rd_many_put [of rd32 put32 xs r] by (simp add: probe32_def put_probe32_def unat_of_nat)

lemma probe8_put [simp]:
  "length xs < 2 ^ 32 \<Longrightarrow> probe8 (put_probe8 t xs @ r) = Some (t, xs, r)"
  by (simp add: probe8_def put_probe8_def unat_of_nat)

definition body_bytes :: "vx_channel \<Rightarrow> u8 list" where
  "body_bytes c = put16 (vx_lowPriorityFlags c) @ put16 (vx_highPriorityFlags c) @ put16 (vx_downSampleSelection c) @
     put16 (vx_failFlags c) @ put_probe32 (vx_analogProbe1Type c) (vx_analogProbe1Samples c) @
     put_probe32 (vx_analogProbe2Type c) (vx_analogProbe2Samples c) @
     put_probe8 (vx_digitalProbe1Type c) (vx_digitalProbe1Samples c) @
     put_probe8 (vx_digitalProbe2Type c) (vx_digitalProbe2Samples c) @
     put_probe8 (vx_digitalProbe3Type c) (vx_digitalProbe3Samples c) @
     put_probe8 (vx_digitalProbe4Type c) (vx_digitalProbe4Samples c)"

definition channel_fits :: "vx_channel \<Rightarrow> bool" where
  "channel_fits c \<longleftrightarrow> length (vx_analogProbe1Samples c) < 2 ^ 32 \<and> length (vx_analogProbe2Samples c) < 2 ^ 32 \<and>
     length (vx_digitalProbe1Samples c) < 2 ^ 32 \<and> length (vx_digitalProbe2Samples c) < 2 ^ 32 \<and>
     length (vx_digitalProbe3Samples c) < 2 ^ 32 \<and> length (vx_digitalProbe4Samples c) < 2 ^ 32"

lemma vx_body_bytes: "channel_fits c \<Longrightarrow> vx_body (body_bytes c @ r) = Some (c, r)"
  by (simp add: vx_body_def body_bytes_def channel_fits_def)

definition vx_bytes :: "u32 \<Rightarrow> string \<Rightarrow> u16 \<Rightarrow> u64 \<Rightarrow> u64 \<Rightarrow> u16 \<Rightarrow> u16 \<Rightarrow> vx_channel \<Rightarrow> u8 list" where
  "vx_bytes nWords nm ch ns raw fine energy c =
     put32 nWords @ put_cstring nm @ replicate ((length nm + 1) mod 2) 0 @ put16 ch @ put64 ns @ put64 raw @ put16 fine @
     put16 energy @ body_bytes c"

lemma vx_header_bytes:
  "c_string nm \<Longrightarrow> vx_header (put32 n @ put_cstring nm @ replicate ((length nm + 1) mod 2) 0 @ r) = Some (nm, r)"
  by (simp add: vx_header_def)

text \<open>What a hit sets.\<close>

definition set_times :: "vx_unpacker \<Rightarrow> u16 \<Rightarrow> u64 \<Rightarrow> u64 \<Rightarrow> u16 \<Rightarrow> u16 \<Rightarrow> unit tree_op" where
  "set_times u ch ns raw fine energy = in_turn
     [set_element (Some (vx_ns u)) (ucast ch) (u64_double ns), set_element (Some (vx_rawTimestamp u)) (ucast ch) (u64_double raw),
      set_element (Some (vx_fineTimestamp u)) (ucast ch) (u16_double fine), set_element (Some (vx_energy u)) (ucast ch) (u16_double energy)]"

lemma tbind_assoc: "tbind (tbind r f) g = tbind r (\<lambda>x w. tbind (f x w) g)"
  by (cases r) simp_all

lemma vx_times_bytes:
  "vx_times u ch (put64 ns @ put64 raw @ put16 fine @ put16 energy @ r) w =
   tbind (set_times u ch ns raw fine energy w) (\<lambda>_. TOk r)"
  by (simp add: vx_times_def set_read_def set_times_def tbind_assoc)

text \<open>
  C38. A hit written in the format of the digitizer is unpacked whole: the processor sets the four
  parameters of its channel, keeps the channel's flags and probes as written, marks the channel
  as hit, and returns true when the size in the hit is right.
\<close>

theorem vx_hit_roundtrip:
  assumes "unpacker_of p x = Some (k, u)" "vx_moduleName u = nm" "c_string nm" "unat ch < 64" "channel_fits c"
    "length (vx_bytes nWords nm ch ns raw fine energy c) = l" "unat nWords * 2 = l + l mod 2"
  shows "vx_operator is_std p (vx_bytes nWords nm ch ns raw fine energy c @ r) (w, x) =
    (case set_times u ch ns raw fine energy w of
       TOk _ w' \<Rightarrow> Returns True (w', put_unpacker k
         ((mark_channel ch u)\<lparr> vx_channels := (vx_channels u)[unat ch := c] \<rparr>) x)
     | TThrows e w' \<Rightarrow> (if is_std then Returns False else Raises) (w', put_unpacker k (mark_channel ch u) x)
     | TUndef \<Rightarrow> MethodUndef)"
proof -
  let ?bs = "vx_bytes nWords nm ch ns raw fine energy c @ r"
  have g: "get32 ?bs = Some nWords" by (simp add: vx_bytes_def)
  have h: "vx_header ?bs = Some (nm, put16 ch @ put64 ns @ put64 raw @ put16 fine @ put16 energy @ body_bytes c @ r)"
    using vx_header_bytes [OF assms(3)] unfolding vx_bytes_def append_assoc by blast
  have "unpackHit ?bs u w = (case set_times u ch ns raw fine energy w of
       TOk _ w' \<Rightarrow> Unpacked (l + l mod 2) ((mark_channel ch u)\<lparr> vx_channels := (vx_channels u)[unat ch := c] \<rparr>) w'
     | TThrows e w' \<Rightarrow> UnpackThrows (VxTreeError e) (mark_channel ch u) w'
     | TUndef \<Rightarrow> UnpackUndef)"
    using assms(2,4,6) h vx_times_bytes [of u ch ns raw fine energy "body_bytes c @ r" w] vx_body_bytes [OF assms(5)]
    by (cases "set_times u ch ns raw fine energy w") (simp_all add: unpackHit_def VX2750_MAX_CHANNELS_def Let_def)
  then show ?thesis
    using assms(1,7) g by (cases "set_times u ch ns raw fine energy w") (simp_all add: vx_operator_def)
qed

definition demo_channel :: vx_channel where
  "demo_channel = \<lparr> vx_lowPriorityFlags = 1, vx_highPriorityFlags = 2, vx_downSampleSelection = 3, vx_failFlags = 4,
     vx_analogProbe1Type = 5, vx_analogProbe1Samples = [6], vx_analogProbe2Type = 7, vx_analogProbe2Samples = [],
     vx_digitalProbe1Type = 8, vx_digitalProbe1Samples = [9], vx_digitalProbe2Type = 0, vx_digitalProbe2Samples = [],
     vx_digitalProbe3Type = 0, vx_digitalProbe3Samples = [], vx_digitalProbe4Type = 0, vx_digitalProbe4Samples = [] \<rparr>"

definition one_parameter :: tree_array where
  "one_parameter = \<lparr> tpa_firstIndex = 0, tpa_Parameters = [0] \<rparr>"

definition demo_unpacker :: vx_unpacker where
  "demo_unpacker = \<lparr> vx_moduleName = ''vx'', vx_channelMask = 0, vx_ns = one_parameter, vx_rawTimestamp = one_parameter,
     vx_fineTimestamp = one_parameter, vx_energy = one_parameter, vx_channels = [clear_samples demo_channel], vx_duplicates = [] \<rparr>"

lemma demo_bytes_length: "length (vx_bytes 40 ''vx'' 0 10 20 30 40 demo_channel) = 79"
  by (simp add: vx_bytes_def body_bytes_def put_probe32_def put_probe8_def demo_channel_def)

theorem vx_hit_roundtrip_witness:
  "\<exists>w s. vx_operator True 1 (vx_bytes 40 ''vx'' 0 10 20 30 40 demo_channel @ [0])
     (w, \<lparr> vxw_unpackers = [(5, demo_unpacker)], vxw_processors = [(1, 5)] \<rparr>) = Returns True s"
proof -
  obtain w where "bound 0 0 w" "tw_event w = Some new_event" by (rule demo_bound)
  then have "settable 0 0 w" by (simp add: settable_def max_params_def)
  then obtain w1 where 1: "tp_setValue 0 (u64_double 10) w = TOk () w1" "settable 0 0 w1" using settable_set by metis
  obtain w2 where 2: "tp_setValue 0 (u64_double 20) w1 = TOk () w2" "settable 0 0 w2" using settable_set [OF 1(2)] by metis
  obtain w3 where 3: "tp_setValue 0 (u16_double 30) w2 = TOk () w3" "settable 0 0 w3" using settable_set [OF 2(2)] by metis
  obtain w4 where 4: "tp_setValue 0 (u16_double 40) w3 = TOk () w4" using settable_set [OF 3(2)] by metis
  have t: "set_times demo_unpacker 0 10 20 30 40 w = TOk () w4"
    using 1 2 3 4 by (simp add: set_times_def set_element_def demo_unpacker_def array_at_def one_parameter_def Let_def)
  have "unpacker_of 1 \<lparr> vxw_unpackers = [(5, demo_unpacker)], vxw_processors = [(1, 5)] \<rparr> = Some (5, demo_unpacker)"
    "vx_moduleName demo_unpacker = ''vx''" "c_string ''vx''" "channel_fits demo_channel"
    by (simp_all add: unpacker_of_def demo_unpacker_def c_string_def channel_fits_def demo_channel_def)
  from vx_hit_roundtrip [OF this(1-3) _ this(4) demo_bytes_length, of True "[0]" w] t show ?thesis by auto
qed

end
