(* ===== verification/VmModules.thy ===== *)
theory VmModules
  imports CaenHits
begin

unbundle bit_operations_syntax

text \<open>
  Unpackers of the VME modules read by a VM-USB or MVLC controller (src/main/vmusb/CModuleUnpacker.cpp,
  C785Unpacker.cpp, CMADC32Unpacker.cpp, CMQDC32Unpacker.cpp, CMTDC32Unpacker.cpp, CV977Unpacker.cpp,
  CVMUSBScalerUnpacker.cpp, CNADC2530Unpacker.cpp, CMDPP32QDCUnpacker.cpp, CMDPP32SCPSROUnpacker.cpp,
  CMDPP32SCPSROSoftTriggerUnpacker.cpp).  The argument mvlc is the preprocessor symbol MVLC.  An
  assembled event is a vector of 16-bit words, of fewer than 2^32 words, so that offsets are numbers;
  reading past its end is undefined.  Messages on the error stream are left out.
\<close>

subsection \<open>Parameter maps and results\<close>

record adc_mapping =
  am_name :: string
  am_vsn :: i32
  am_type :: i32
  am_map :: "i32 list"

definition new_mapping :: adc_mapping where
  "new_mapping = \<lparr> am_name = [], am_vsn = - 1, am_type = - 1, am_map = replicate 256 (- 1) \<rparr>"

definition mapping_ok :: "adc_mapping \<Rightarrow> bool" where
  "mapping_ok m \<longleftrightarrow> length (am_map m) = 256"

datatype vm_result = Unpacks nat event | Exits int | Faults

text \<open>An access past the map of channels is undefined.\<close>

definition set_channel :: "adc_mapping \<Rightarrow> nat \<Rightarrow> rat \<Rightarrow> event \<Rightarrow> event option" where
  "set_channel m ch v e =
     (if length (am_map m) \<le> ch then None
      else let n = am_map m ! ch in if n \<noteq> - 1 then ev_set n v e else Some e)"

definition getLong :: "u16 list \<Rightarrow> nat \<Rightarrow> u64 option" where
  "getLong ws offset =
     (if offset + 1 < length ws
      then Some (ucast (ws ! offset) OR push_bit 16 (ucast (ws ! (offset + 1)))) else None)"

definition BERR :: u64 where "BERR = 0xffffffff"

text \<open>What the conversions to int and to double make of a 32-bit quantity.\<close>

definition datum_value :: "u64 \<Rightarrow> rat" where
  "datum_value d = of_nat (unat d)"

lemma getLong_less: "getLong ws off = Some d \<Longrightarrow> off + 1 < length ws"
  by (simp add: getLong_def split: if_splits)

text \<open>
  The loop most unpackers share: while the datum satisfies P, process it and read the next.
\<close>

function read_while ::
  "(u64 \<Rightarrow> bool) \<Rightarrow> (u64 \<Rightarrow> event \<Rightarrow> event option) \<Rightarrow> u16 list \<Rightarrow> u64 \<Rightarrow> nat \<Rightarrow> event \<Rightarrow> (u64 \<times> nat \<times> event) option" where
  "read_while P f ws d off e =
     (if \<not> P d then Some (d, off, e)
      else case f d e of
        None \<Rightarrow> None
      | Some e' \<Rightarrow>
          (case getLong ws off of None \<Rightarrow> None | Some d' \<Rightarrow> read_while P f ws d' (off + 2) e'))"
  by pat_completeness auto
termination
  by (relation "measure (\<lambda>(P, f, ws, d, off, e). length ws - off)") (auto dest!: getLong_less)

declare read_while.simps [simp del]

subsection \<open>CAEN V785 and its relatives\<close>

definition caen_type :: "u64 \<Rightarrow> u64" where
  "caen_type d = drop_bit 24 (d AND 0x7000000)"

definition caen_geo :: "u64 \<Rightarrow> u64" where
  "caen_geo d = drop_bit 27 (d AND 0xf8000000)"

definition caen_channel :: "u64 \<Rightarrow> nat" where
  "caen_channel d = unat (drop_bit 16 (d AND 0x3f0000))"

definition data785 :: "adc_mapping \<Rightarrow> u64 \<Rightarrow> event \<Rightarrow> event option" where
  "data785 m d e =
     (if \<not> (d AND 0x1000 \<noteq> 0 \<or> d AND 0x2000 \<noteq> 0)
      then set_channel m (caen_channel d) (datum_value (d AND 0x0fff)) e else Some e)"

definition body785 :: "adc_mapping \<Rightarrow> u16 list \<Rightarrow> nat \<Rightarrow> event \<Rightarrow> (nat \<times> event) option" where
  "body785 m ws off e = do {
     datum \<leftarrow> getLong ws off;
     (datum, off, e) \<leftarrow> read_while (\<lambda>d. caen_type d = 0) (data785 m) ws datum (off + 2) e;
     (datum, off, e) \<leftarrow> read_while (\<lambda>d. caen_type d = 4) (\<lambda>d. Some) ws datum off e;
     Some (off - 2, e)
   }"

definition result_of :: "(nat \<times> event) option \<Rightarrow> vm_result" where
  "result_of r = (case r of None \<Rightarrow> Faults | Some (off, e) \<Rightarrow> Unpacks off e)"

definition unpack785 :: "bool \<Rightarrow> adc_mapping \<Rightarrow> u16 list \<Rightarrow> nat \<Rightarrow> event \<Rightarrow> vm_result" where
  "unpack785 mvlc m ws offset e = result_of (do {
     header \<leftarrow> getLong ws offset;
     if \<not> mvlc \<and> header = BERR then Some (offset + 2, e)
     else if ucast (caen_geo header) \<noteq> am_vsn m then Some (offset, e)
     else do {
       (off, e) \<leftarrow> (if caen_type header \<noteq> 4 then body785 m ws (offset + 2) e else Some (offset + 2, e));
       if mvlc then Some (off, e)
       else do {
         extra \<leftarrow> getLong ws off;
         Some (if extra = BERR then off + 2 else off, e)
       }
     }
   })"

subsection \<open>Mesytec modules\<close>

definition mesy_type :: "u64 \<Rightarrow> u64" where
  "mesy_type d = drop_bit 30 (d AND 0xc0000000)"

definition mesy_id :: "u64 \<Rightarrow> i32" where
  "mesy_id d = ucast (drop_bit 16 (d AND 0xff0000))"

text \<open>What distinguishes the MADC32 from the MQDC32, whose unpackers are the same otherwise.\<close>

definition set_count :: "adc_mapping \<Rightarrow> u64 \<Rightarrow> event \<Rightarrow> event option" where
  "set_count m d e =
     (if mesy_type d = 3 then set_channel m 32 (datum_value (d AND 0x3fffffff)) e else Some e)"

definition data_bank :: "u64 \<Rightarrow> adc_mapping \<Rightarrow> u64 \<Rightarrow> event \<Rightarrow> event option" where
  "data_bank overflow m d e =
     (if d AND 0x3fffffff = 0 \<or> d AND overflow \<noteq> 0 then Some e
      else set_channel m (unat (drop_bit 16 (d AND 0x1f0000))) (datum_value (d AND 0x1fff)) e)"

text \<open>
  The loop over the banks: the header is read again at every turn, at the offset after the datum
  in hand.  The count of the long words read is not used.
\<close>

function bank_loop ::
  "u64 \<Rightarrow> bool \<Rightarrow> adc_mapping \<Rightarrow> u16 list \<Rightarrow> nat \<Rightarrow> u64 \<Rightarrow> nat \<Rightarrow> event \<Rightarrow> vm_result" where
  "bank_loop overflow mvlc m ws bankctr datum offset e =
     (case getLong ws offset of
        None \<Rightarrow> Faults
      | Some header \<Rightarrow>
          if \<not> mvlc \<and> header = BERR then Unpacks (offset + 2) e
          else if mesy_type header = 1 then
            if mesy_id header \<noteq> am_vsn m then Unpacks offset e
            else case getLong ws (offset + 2) of
                None \<Rightarrow> Faults
              | Some d \<Rightarrow>
                  (case set_count m d e of
                     None \<Rightarrow> Faults
                   | Some e' \<Rightarrow> bank_loop overflow mvlc m ws bankctr d (offset + 4) e')
          else if mesy_type datum = 0 then
            case data_bank overflow m datum e of
              None \<Rightarrow> Faults
            | Some e' \<Rightarrow>
                (case set_count m header e' of
                   None \<Rightarrow> Faults
                 | Some e'' \<Rightarrow> bank_loop overflow mvlc m ws bankctr header (offset + 2) e'')
          else if datum AND 0xc0000002 \<noteq> 0 then
            case set_count m datum e of
              None \<Rightarrow> Faults
            | Some e' \<Rightarrow>
                if bankctr + 1 = 2 then Unpacks (offset + 2 + (if mvlc then 0 else 2)) e'
                else bank_loop overflow mvlc m ws (bankctr + 1) datum (offset + 2) e'
          else Exits 0)"
  by pat_completeness auto
termination
  by (relation "measure (\<lambda>(ov, mv, m, ws, b, d, off, e). length ws - off)") (auto dest!: getLong_less)

declare bank_loop.simps [simp del]

definition unpackMADC32 :: "bool \<Rightarrow> adc_mapping \<Rightarrow> u16 list \<Rightarrow> nat \<Rightarrow> event \<Rightarrow> vm_result" where
  "unpackMADC32 mvlc m ws offset e = bank_loop 0x4000 mvlc m ws 0 0 offset e"

definition unpackMQDC32 :: "bool \<Rightarrow> adc_mapping \<Rightarrow> u16 list \<Rightarrow> nat \<Rightarrow> event \<Rightarrow> vm_result" where
  "unpackMQDC32 mvlc m ws offset e = bank_loop 0x8000 mvlc m ws 0 0 offset e"

definition dataMTDC :: "adc_mapping \<Rightarrow> u64 \<Rightarrow> event \<Rightarrow> event option" where
  "dataMTDC m d e =
     (if d AND 0x3f800000 = 0x04000000
      then set_channel m (unat (drop_bit 16 (d AND 0x3f0000))) (datum_value (d AND 0xffff)) e else Some e)"

definition unpackMTDC32 :: "adc_mapping \<Rightarrow> u16 list \<Rightarrow> nat \<Rightarrow> event \<Rightarrow> vm_result" where
  "unpackMTDC32 m ws offset e = result_of (do {
     header \<leftarrow> getLong ws offset;
     if header = BERR then Some (offset + 2, e)
     else if mesy_type header \<noteq> 1 then Some (offset, e)
     else if mesy_id header \<noteq> am_vsn m then Some (offset, e)
     else do {
       datum \<leftarrow> getLong ws (offset + 2);
       (datum, off, e) \<leftarrow> read_while (\<lambda>d. mesy_type d = 0) (dataMTDC m) ws datum (offset + 4) e;
       e \<leftarrow> set_count m datum e;
       Some (off + 2, e)
     }
   })"

subsection \<open>CAEN V977 and the scalers of the controller\<close>

definition unpackV977 :: "adc_mapping \<Rightarrow> u16 list \<Rightarrow> nat \<Rightarrow> event \<Rightarrow> vm_result" where
  "unpackV977 m ws offset e = result_of
     (if length ws \<le> offset then None
      else map_option (Pair (offset + 1)) (set_channel m 0 (of_nat (unat (ws ! offset))) e))"

definition unpackVMUSBScaler :: "adc_mapping \<Rightarrow> u16 list \<Rightarrow> nat \<Rightarrow> event \<Rightarrow> vm_result" where
  "unpackVMUSBScaler m ws offset e = result_of (do {
     scaler \<leftarrow> getLong ws offset;
     e \<leftarrow> set_channel m 0 (datum_value scaler) e;
     scaler \<leftarrow> getLong ws (offset + 2);
     e \<leftarrow> set_channel m 1 (datum_value scaler) e;
     Some (offset + 4, e)
   })"

subsection \<open>Hytec NADC2530\<close>

text \<open>A channel keeps the largest of the values it is given.\<close>

definition keep_largest :: "adc_mapping \<Rightarrow> nat \<Rightarrow> rat \<Rightarrow> event \<Rightarrow> event option" where
  "keep_largest m ch adc e =
     (if length (am_map m) \<le> ch then None
      else let n = am_map m ! ch
           in if n = - 1 then Some e
              else (case read_param n e of
                      None \<Rightarrow> None
                    | Some (e', None) \<Rightarrow> ev_set n adc e'
                    | Some (e', Some v) \<Rightarrow> if v < adc then ev_set n adc e' else Some e'))"

text \<open>
  The high part of the time stamp is not initialized: using it before a datum sets it is undefined.
\<close>

fun nadc_loop :: "adc_mapping \<Rightarrow> u16 list \<Rightarrow> nat \<Rightarrow> nat \<Rightarrow> u32 option \<Rightarrow> event \<Rightarrow> event option" where
  "nadc_loop m ws 0 offset tsHigh e = Some e"
| "nadc_loop m ws (Suc n) offset tsHigh e =
     (case getLong ws offset of
        None \<Rightarrow> None
      | Some datum \<Rightarrow>
          (let type = datum AND 0x0f000000 in
           if type = 0 then
             (case keep_largest m (unat (drop_bit 16 (datum AND 0x00070000)) + 1) (datum_value (datum AND 0x1fff)) e of
                None \<Rightarrow> None
              | Some e' \<Rightarrow> nadc_loop m ws n (offset + 2) tsHigh e')
           else if type = 0x05000000 then
             nadc_loop m ws n (offset + 2) (Some (ucast (datum AND 0x00ffffff))) e
           else if type = 0x06000000 \<or> type = 0x0c000000 then
             (case tsHigh of
                None \<Rightarrow> None
              | Some high \<Rightarrow>
                  let timestamp = push_bit 24 (ucast high) OR (datum AND 0x00ffffff) in
                  (case set_channel m 0 (u64_double timestamp) e of
                     None \<Rightarrow> None
                   | Some e' \<Rightarrow> nadc_loop m ws n (offset + 2) tsHigh e'))
           else if type = 0x04000000 then Some e
           else nadc_loop m ws n (offset + 2) tsHigh e))"

definition unpackNADC2530 :: "bool \<Rightarrow> adc_mapping \<Rightarrow> u16 list \<Rightarrow> nat \<Rightarrow> event \<Rightarrow> vm_result" where
  "unpackNADC2530 mvlc m ws offset e = result_of (do {
     ident \<leftarrow> (if mvlc then map_option ucast (getLong ws offset)
           else if offset < length ws then Some (ucast (ws ! offset)) else None);
     if ident \<noteq> am_vsn m then Some (offset, e)
     else do {
       let off = offset + (if mvlc then 2 else 1);
       (if length ws \<le> off + 1 then None
        else let packetSize = unat (ws ! (off + 1) AND ws ! off)
             in map_option (Pair (off + 2 + packetSize * 2)) (nadc_loop m ws packetSize (off + 2) None e))
     }
   })"

subsection \<open>Mesytec MDPP-32\<close>

text \<open>
  The loop over the data of the QDC firmware: Inl is the return on a second extended time stamp.
  The extended time stamp and its shift have 32 bits.
\<close>

function mdpp_loop ::
  "adc_mapping \<Rightarrow> u16 list \<Rightarrow> u64 \<Rightarrow> u32 \<Rightarrow> nat \<Rightarrow> event \<Rightarrow> ((nat \<times> event) + (u64 \<times> u32 \<times> nat \<times> event)) option" where
  "mdpp_loop m ws datum extstamp off e =
     (if mesy_type datum \<noteq> 0 then Some (Inr (datum, extstamp, off, e))
      else let sub = datum AND 0x30000000;
               next_datum = (\<lambda>x e'. case getLong ws off of
                  None \<Rightarrow> None | Some d \<Rightarrow> mdpp_loop m ws d x (off + 2) e')
           in if sub = 0x10000000 then
                (case set_channel m (unat (drop_bit 16 (datum AND 0x7f0000))) (datum_value (datum AND 0xffff)) e of
                   None \<Rightarrow> None | Some e' \<Rightarrow> next_datum extstamp e')
              else if sub = 0x20000000 then
                if extstamp \<noteq> 0 then Some (Inl (off - 2, e)) else next_datum (ucast (datum AND 0xffff)) e
              else next_datum extstamp e)"
  by pat_completeness auto
termination
  by (relation "measure (\<lambda>(m, ws, d, x, off, e). length ws - off)") (auto dest!: getLong_less)

declare mdpp_loop.simps [simp del]

definition unpackMDPP32QDC :: "bool \<Rightarrow> adc_mapping \<Rightarrow> u16 list \<Rightarrow> nat \<Rightarrow> event \<Rightarrow> vm_result" where
  "unpackMDPP32QDC mvlc m ws offset e = result_of (do {
     header \<leftarrow> getLong ws offset;
     if \<not> mvlc \<and> header = BERR then do {
       ender \<leftarrow> getLong ws (offset + 2);
       Some (if ender = BERR then offset + 4 else offset + 2, e)
     }
     else if mesy_type header \<noteq> 1 then Some (offset, e)
     else if mesy_id header \<noteq> am_vsn m then Some (offset, e)
     else do {
       datum \<leftarrow> getLong ws (offset + 2);
       r \<leftarrow> mdpp_loop m ws datum 0 (offset + 4) e;
       (case r of
          Inl res \<Rightarrow> Some res
        | Inr (datum, extstamp, off, e) \<Rightarrow>
            if mesy_type datum \<noteq> 3 then Some (off - 2, e)
            else do {
              e \<leftarrow> set_channel m 128 (u64_double ((datum AND 0x3fffffff) OR ucast (push_bit 30 extstamp))) e;
              if mvlc then Some (off, e)
              else do {
                ender \<leftarrow> getLong ws (off + 2);
                Some (if ender = BERR then off + 4 else off + 2, e)
              }
            })
     }
   })"

text \<open>SCP firmware with streaming readout: one datum and its trailer.\<close>

definition sro_id :: "u64 \<Rightarrow> i32" where
  "sro_id d = ucast (drop_bit 24 (d AND 0x3f000000))"

definition sro_channel :: "u64 \<Rightarrow> nat" where
  "sro_channel d = unat (drop_bit 18 (d AND 0x007c0000))"

definition unpackMDPP32SCPSRO :: "bool \<Rightarrow> adc_mapping \<Rightarrow> u16 list \<Rightarrow> nat \<Rightarrow> event \<Rightarrow> vm_result" where
  "unpackMDPP32SCPSRO mvlc m ws offset e = result_of (do {
     header \<leftarrow> getLong ws offset;
     if \<not> mvlc \<and> header = BERR then Some (offset + 2, e)
     else if mesy_type header \<noteq> 1 then Some (offset, e)
     else if sro_id header \<noteq> am_vsn m then Some (offset, e)
     else do {
       e \<leftarrow> set_channel m (sro_channel header) (datum_value (header AND 0xffff)) e;
       trailer \<leftarrow> getLong ws (offset + 2);
       if \<not> mvlc \<and> trailer = BERR then Some (offset + 4, e)
       else if mesy_type trailer \<noteq> 3 then Some (offset + 2, e)
       else do {
         e \<leftarrow> set_channel m 32 (datum_value (trailer AND 0x3fffffff)) e;
         Some (offset + (if mvlc then 2 else 4), e)
       }
     }
   })"

text \<open>SCP firmware with software triggers: the turns of an endless loop, left by returning.\<close>

definition soft_trigger_stamps :: "adc_mapping \<Rightarrow> nat \<Rightarrow> u64 \<Rightarrow> u64 \<Rightarrow> u64 \<Rightarrow> event \<Rightarrow> (u64 \<times> event) option" where
  "soft_trigger_stamps m channel datum timestamp eventTimestamp e =
     (if mesy_type datum = 3 then do {
        let timestamp = timestamp OR (datum AND 0x3fffffff);
        e \<leftarrow> set_channel m (channel + 32) (u64_double timestamp) e;
        (if eventTimestamp = 0 then map_option (Pair timestamp) (set_channel m 64 (u64_double timestamp) e)
         else Some (eventTimestamp, e))
      }
      else Some (eventTimestamp, e))"

definition soft_trigger_hit ::
  "adc_mapping \<Rightarrow> u64 \<Rightarrow> u64 \<Rightarrow> u64 \<Rightarrow> u64 \<Rightarrow> event \<Rightarrow> (u64 \<times> event) option" where
  "soft_trigger_hit m d1 d2 d3 eventTimestamp e = do {
     let is_data = (mesy_type d1 = 0 \<and> d1 AND 0x30000000 = 0x10000000);
     let channel = (if is_data then unat (drop_bit 16 (d1 AND 0x7f0000)) else 0);
     e \<leftarrow> (if is_data then set_channel m channel (datum_value (d1 AND 0xffff)) e else Some e);
     soft_trigger_stamps m channel d3
       (if d2 AND 0x30000000 = 0x20000000 then push_bit 30 (d2 AND 0xfffffff) else 0) eventTimestamp e
   }"

function soft_trigger_loop ::
  "bool \<Rightarrow> adc_mapping \<Rightarrow> u16 list \<Rightarrow> u64 \<Rightarrow> nat \<Rightarrow> event \<Rightarrow> (nat \<times> event) option" where
  "soft_trigger_loop mvlc m ws eventTimestamp offset e =
     (case (getLong ws offset, getLong ws (offset + 2)) of
        (Some firstItem, Some secondItem) \<Rightarrow>
          if \<not> mvlc \<and> firstItem = BERR \<and> secondItem = BERR then Some (offset + 4, e)
          else if mesy_type firstItem \<noteq> 1 then Some (offset, e)
          else if mesy_id firstItem \<noteq> am_vsn m then Some (offset, e)
          else (case (getLong ws (offset + 4), getLong ws (offset + 6)) of
                  (Some d2, Some d3) \<Rightarrow>
                    (case soft_trigger_hit m secondItem d2 d3 eventTimestamp e of
                       None \<Rightarrow> None
                     | Some (stamp, e') \<Rightarrow> soft_trigger_loop mvlc m ws stamp (offset + 8) e')
                | _ \<Rightarrow> None)
      | _ \<Rightarrow> None)"
  by pat_completeness auto
termination
  by (relation "measure (\<lambda>(mv, m, ws, x, off, e). length ws - off)") (auto dest!: getLong_less getLong_less [OF sym])

declare soft_trigger_loop.simps [simp del]

definition unpackMDPP32SCPSROSoftTrigger ::
  "bool \<Rightarrow> adc_mapping \<Rightarrow> u16 list \<Rightarrow> nat \<Rightarrow> event \<Rightarrow> vm_result" where
  "unpackMDPP32SCPSROSoftTrigger mvlc m ws offset e = result_of (soft_trigger_loop mvlc m ws 0 offset e)"

subsection \<open>Long words and hits\<close>

definition long_words :: "u32 \<Rightarrow> u16 list" where
  "long_words w = [ucast w, ucast (drop_bit 16 w)]"

definition longs :: "u32 list \<Rightarrow> u16 list" where
  "longs ds = concat (map long_words ds)"

lemma length_longs [simp]: "length (longs ds) = 2 * length ds"
  by (induction ds) (simp_all add: longs_def long_words_def)

lemma longs_simps [simp]: "longs [] = []" "longs (d # ds) = long_words d @ longs ds"
  "longs (ds @ es) = longs ds @ longs es"
  by (simp_all add: longs_def)

lemma length_long_words [simp]: "length (long_words d) = 2"
  by (simp add: long_words_def)

lemma join_words:
  fixes w :: u32
  shows "ucast (ucast w :: u16) OR push_bit 16 (ucast (ucast (drop_bit 16 w) :: u16)) = (ucast w :: u64)"
proof (rule bit_eqI)
  fix n
  show "bit (ucast (ucast w :: u16) OR push_bit 16 (ucast (ucast (drop_bit 16 w) :: u16)) :: u64) n = bit (ucast w :: u64) n"
    by (auto simp: bit_or_iff bit_push_bit_iff bit_ucast_iff bit_drop_bit_eq dest: bit_imp_le_length)
qed

lemma getLong_words [simp]: "getLong (pre @ long_words w @ post) (length pre) = Some (ucast w)"
  by (simp add: getLong_def long_words_def nth_append join_words)

text \<open>A position past the words known.\<close>

lemma getLong_at:
  assumes "off = length pre" shows "getLong (pre @ long_words w @ post) off = Some (ucast w)"
  using assms by simp

text \<open>The assignments that hits, pairs of a channel and a value, amount to.\<close>

definition mapped :: "adc_mapping \<Rightarrow> (nat \<times> rat) list \<Rightarrow> (u32 \<times> rat) list" where
  "mapped m hs = map (\<lambda>(c, v). (am_map m ! c, v)) (filter (\<lambda>(c, v). am_map m ! c \<noteq> - 1) hs)"

lemma mapped_simps [simp]: "mapped m [] = []"
  "mapped m ((c, v) # hs) = (if am_map m ! c \<noteq> - 1 then (am_map m ! c, v) # mapped m hs else mapped m hs)"
  "mapped m (hs @ hs') = mapped m hs @ mapped m hs'"
  by (simp_all add: mapped_def)

lemma ev_sets_append: "ev_sets (xs @ ys) e = (case ev_sets xs e of None \<Rightarrow> None | Some e' \<Rightarrow> ev_sets ys e')"
  by (induction xs e rule: ev_sets.induct) (auto split: option.splits)

lemma set_channel_hits:
  "mapping_ok m \<Longrightarrow> c < 256 \<Longrightarrow> set_channel m c v e = ev_sets (mapped m [(c, v)]) e"
  by (auto simp: set_channel_def mapping_ok_def Let_def split: option.splits)

lemma masked_less: "unat (drop_bit n (d AND c) :: u64) < k" if "drop_bit n c < of_nat k" "k < 2 ^ 64"
proof -
  have "drop_bit n (d AND c) \<le> drop_bit n c"
    by (metis and.commute drop_bit_and word_and_le1)
  then have "drop_bit n (d AND c) < of_nat k"
    using that(1) by (rule order.strict_trans1)
  then show ?thesis
    using that(2) by (simp add: word_less_nat_alt unat_of_nat)
qed

lemma caen_channel_less: "caen_channel d < 256"
  unfolding caen_channel_def by (rule masked_less) simp_all

lemma bank_channel_less: "unat (drop_bit 16 (d AND 0x1f0000) :: u64) < 256"
  by (rule masked_less) simp_all

lemma mtdc_channel_less: "unat (drop_bit 16 (d AND 0x3f0000) :: u64) < 256"
  by (rule masked_less) simp_all

text \<open>A readout of a block: the marker that there was no data, or header, data and trailer.\<close>

datatype readout = NoData | Readout u32 "u32 list" u32

fun words_of :: "readout \<Rightarrow> u16 list" where
  "words_of NoData = longs [0xffffffff]"
| "words_of (Readout h ds t) = longs (h # ds @ [t, 0xffffffff])"

lemma BERR_word [simp]: "(0xffffffff :: u64) = BERR"
  by (simp add: BERR_def)

text \<open>
  The shared loop on long words: when the datum in hand is the first of ds @ [t] and the others
  follow, the loop processes ds in order and stops with t.
\<close>

lemma read_while_longs:
  assumes "\<forall>d \<in> set ds. P (ucast d)" "\<not> P (ucast t)"
    and f: "\<And>d e. d \<in> set ds \<Longrightarrow> f (ucast d) e = ev_sets (g d) e"
  shows "read_while P f (pre @ longs (tl (ds @ [t])) @ post) (ucast (hd (ds @ [t]))) (length pre) e =
     map_option (\<lambda>e'. (ucast t, length pre + 2 * length ds, e')) (ev_sets (concat (map g ds)) e)"
  using assms
proof (induction ds arbitrary: pre e)
  case Nil
  then show ?case by (simp add: read_while.simps)
next
  case (Cons d ds)
  obtain x xs where x: "ds @ [t] = x # xs" by (cases ds) auto
  have nx: "getLong (pre @ long_words x @ longs xs @ post) (length pre) = Some (ucast x)" by simp
  have IH: "read_while P f ((pre @ long_words x) @ longs xs @ post) (ucast x) (length (pre @ long_words x)) e' =
     map_option (\<lambda>e'. (ucast t, length (pre @ long_words x) + 2 * length ds, e')) (ev_sets (concat (map g ds)) e')" for e'
    using Cons.IH [of "pre @ long_words x" e'] Cons.prems x by simp
  then have IH': "read_while P f (pre @ long_words x @ longs xs @ post) (ucast x) (length pre + 2) e' =
     map_option (\<lambda>e'. (ucast t, length pre + 2 + 2 * length ds, e')) (ev_sets (concat (map g ds)) e')" for e'
    by simp
  show ?case
    using Cons.prems x nx IH'
    by (subst read_while.simps) (auto simp: ev_sets_append split: option.splits)
qed
end
