(* ===== verification/VmReadouts.thy ===== *)
theory VmReadouts
  imports VmModules
begin

text \<open>
  The contract between a stack unpacker and the unpackers of the modules, and its instances: what a
  module writes into the event is decoded into the hits it contains, wherever in the event it is and
  whatever follows, and the offset returned is that of the first word after it.
\<close>

locale module_reader =
  fixes unpack :: "adc_mapping \<Rightarrow> u16 list \<Rightarrow> nat \<Rightarrow> event \<Rightarrow> vm_result"
    and encode :: "'d \<Rightarrow> u16 list"
    and wellformed :: "adc_mapping \<Rightarrow> 'd \<Rightarrow> bool"
    and hits :: "'d \<Rightarrow> (nat \<times> rat) list"
  assumes decode: "mapping_ok m \<Longrightarrow> wellformed m x \<Longrightarrow>
    unpack m (pre @ encode x @ post) (length pre) e =
      result_of (map_option (Pair (length pre + length (encode x))) (ev_sets (mapped m (hits x)) e))"
begin

lemma decode_prefix:
  "mapping_ok m \<Longrightarrow> wellformed m x \<Longrightarrow> off = length pre \<Longrightarrow>
   unpack m (pre @ encode x @ post) off e =
     result_of (map_option (Pair (length pre + length (encode x))) (ev_sets (mapped m (hits x)) e))"
  using decode by simp

text \<open>Parameters of an event that can hold them all are assigned as the hits say.\<close>

lemma decoded_event:
  assumes "mapping_ok m" "wellformed m x" "ev_ok e" "\<forall>n \<in> set (am_map m). n \<noteq> - 1 \<longrightarrow> unat n < max_params"
    and "\<forall>(c, v) \<in> set (hits x). c < 256"
  shows "\<exists>e'. unpack m (pre @ encode x @ post) (length pre) e = Unpacks (length pre + length (encode x)) e' \<and>
    ev_ok e' \<and> ev_abs e' = ev_abs e ++ map_of (rev (map (\<lambda>(n, v). (unat n, v)) (mapped m (hits x))))"
proof -
  have "\<forall>(n, v) \<in> set (mapped m (hits x)). unat n < max_params"
    using assms(1,4,5) by (auto simp: mapped_def mapping_ok_def)
  from ev_sets_spec [OF assms(3) this] show ?thesis
    using decode [OF assms(1,2)] by (auto simp: result_of_def)
qed

end

subsection \<open>CAEN V785\<close>

definition datum_hits785 :: "u64 \<Rightarrow> (nat \<times> rat) list" where
  "datum_hits785 d =
     (if d AND 0x1000 \<noteq> 0 \<or> d AND 0x2000 \<noteq> 0 then [] else [(caen_channel d, datum_value (d AND 0xfff))])"

fun hits785 :: "readout \<Rightarrow> (nat \<times> rat) list" where
  "hits785 NoData = []"
| "hits785 (Readout h ds t) = concat (map (\<lambda>d. datum_hits785 (ucast d)) ds)"

fun wellformed785 :: "adc_mapping \<Rightarrow> readout \<Rightarrow> bool" where
  "wellformed785 m NoData \<longleftrightarrow> True"
| "wellformed785 m (Readout h ds t) \<longleftrightarrow>
     h \<noteq> 0xffffffff \<and> ucast (caen_geo (ucast h)) = am_vsn m \<and> caen_type (ucast h) \<noteq> 4 \<and>
     (\<forall>d \<in> set ds. caen_type (ucast d) = 0) \<and> caen_type (ucast t) = 4"

lemma mapped_concat: "mapped m (concat xs) = concat (map (mapped m) xs)"
  by (induction xs) auto

lemma data785_hits: "mapping_ok m \<Longrightarrow> data785 m d e = ev_sets (mapped m (datum_hits785 d)) e"
  using set_channel_hits [of m "caen_channel d"] by (auto simp: data785_def datum_hits785_def caen_channel_less)

lemma is_BERR [simp]: "(ucast (h :: u32) :: u64) = BERR \<longleftrightarrow> h = 0xffffffff"
proof -
  have "unat h < 2 ^ LENGTH(32)" by (rule unsigned_less)
  then have "unat (ucast h :: u64) = unat h"
    by (simp add: unsigned_ucast_eq take_bit_nat_eq_self_iff)
  then show ?thesis by (simp add: BERR_def word_unat_eq_iff del: BERR_word)
qed

lemma caen_type_BERR [simp]: "caen_type BERR = 7"
  by (simp add: caen_type_def BERR_def del: BERR_word)

lemma mesy_type_BERR [simp]: "mesy_type BERR = 3"
  by (simp add: mesy_type_def BERR_def del: BERR_word)

lemma body785_longs:
  assumes "mapping_ok m" "\<forall>d \<in> set ds. caen_type (ucast d) = 0" "caen_type (ucast t) = 4"
  shows "body785 m (pre @ longs (ds @ [t, 0xffffffff]) @ post) (length pre) e =
     map_option (Pair (length pre + 2 * length ds + 2))
       (ev_sets (mapped m (concat (map (\<lambda>d. datum_hits785 (ucast d)) ds))) e)"
proof -
  obtain x xs where x: "ds @ [t] = x # xs" by (cases ds) auto
  have first: "getLong (pre @ long_words x @ longs (xs @ [0xffffffff]) @ post) (length pre) = Some (ucast x)"
    by simp
  have data: "read_while (\<lambda>d. caen_type d = 0) (data785 m)
      ((pre @ long_words x) @ longs xs @ longs [0xffffffff] @ post) (ucast x) (length (pre @ long_words x)) e =
     map_option (\<lambda>e'. (ucast t, length (pre @ long_words x) + 2 * length ds, e'))
       (ev_sets (concat (map (\<lambda>d. mapped m (datum_hits785 (ucast d))) ds)) e)"
    using read_while_longs [of ds "\<lambda>d. caen_type d = 0" t "data785 m" "\<lambda>d. mapped m (datum_hits785 (ucast d))"
        "pre @ long_words x" "longs [0xffffffff] @ post" e] assms x
    by (simp add: data785_hits)
  have len: "length xs = length ds" using x by (metis length_append_singleton length_Cons nat.inject)
  have last: "getLong ((pre @ long_words x @ longs xs) @ long_words 0xffffffff @ post) (length pre + 2 + 2 * length ds) = Some BERR"
    by (subst getLong_at) (simp_all add: len)
  have "read_while (\<lambda>d. caen_type d = 4) (\<lambda>d. Some) (pre @ long_words x @ longs xs @ long_words 0xffffffff @ post)
     (ucast t) (length pre + 2 + 2 * length ds) e' = Some (BERR, length pre + 2 + 2 * length ds + 2, e')" for e'
    using assms(3) last by (subst read_while.simps) (simp add: read_while.simps)
  note trailer = this
  have eq: "pre @ longs (ds @ [t, 0xffffffff]) @ post = pre @ long_words x @ longs xs @ long_words 0xffffffff @ post"
    using arg_cong [OF x, of longs] by (simp del: append_assoc add: append_assoc [symmetric])
  show ?thesis
    unfolding eq
    using data first trailer
    by (cases "ev_sets (concat (map (\<lambda>d. mapped m (datum_hits785 (ucast d))) ds)) e")
      (simp_all add: body785_def mapped_concat comp_def)
qed

lemma unpack785_decodes:
  assumes "mapping_ok m" "wellformed785 m x"
  shows "unpack785 False m (pre @ words_of x @ post) (length pre) e =
    result_of (map_option (Pair (length pre + length (words_of x))) (ev_sets (mapped m (hits785 x)) e))"
proof (cases x)
  case NoData
  then show ?thesis by (simp add: unpack785_def)
next
  case (Readout h ds t)
  have body: "body785 m (pre @ long_words h @ longs (ds @ [t, 0xffffffff]) @ post) (length pre + 2) e =
     map_option (Pair (length pre + 2 + 2 * length ds + 2)) (ev_sets (mapped m (hits785 x)) e)"
    using body785_longs [OF assms(1), of ds t "pre @ long_words h" post e] assms(2) Readout by simp
  have extra: "getLong (pre @ long_words h @ longs ds @ long_words t @ long_words 0xffffffff @ post)
      (Suc (Suc (Suc (Suc (length pre + 2 * length ds))))) = Some BERR"
    using getLong_at [of _ "pre @ long_words h @ longs ds @ long_words t" "0xffffffff" post] by simp
  have len: "length pre + length (words_of x) = length pre + 2 + 2 * length ds + 2 + 2" by (simp add: Readout)
  show ?thesis
    unfolding len using assms(2) Readout body extra
    by (cases "ev_sets (mapped m (hits785 x)) e") (simp_all add: unpack785_def)
qed

interpretation r785: module_reader "unpack785 False" words_of wellformed785 hits785
  by unfold_locales (rule unpack785_decodes)


subsection \<open>Mesytec modules\<close>

fun wellformed_mesy :: "adc_mapping \<Rightarrow> readout \<Rightarrow> bool" where
  "wellformed_mesy m NoData \<longleftrightarrow> True"
| "wellformed_mesy m (Readout h ds t) \<longleftrightarrow>
     mesy_type (ucast h) = 1 \<and> mesy_id (ucast h) = am_vsn m \<and>
     (\<forall>d \<in> set ds. mesy_type (ucast d) = 0) \<and> mesy_type (ucast t) = 3 \<and> t \<noteq> 0xffffffff"

text \<open>The data's hits, and the trailer's count as that of channel 32.\<close>

fun hits_mesy :: "(u64 \<Rightarrow> (nat \<times> rat) list) \<Rightarrow> readout \<Rightarrow> (nat \<times> rat) list" where
  "hits_mesy g NoData = []"
| "hits_mesy g (Readout h ds t) =
     concat (map (\<lambda>d. g (ucast d)) ds) @ [(32, datum_value (ucast t AND 0x3fffffff))]"

definition bank_hits :: "u64 \<Rightarrow> u64 \<Rightarrow> (nat \<times> rat) list" where
  "bank_hits overflow d =
     (if d AND 0x3fffffff = 0 \<or> d AND overflow \<noteq> 0 then []
      else [(unat (drop_bit 16 (d AND 0x1f0000)), datum_value (d AND 0x1fff))])"

definition mtdc_hits :: "u64 \<Rightarrow> (nat \<times> rat) list" where
  "mtdc_hits d =
     (if d AND 0x3f800000 = 0x04000000
      then [(unat (drop_bit 16 (d AND 0x3f0000)), datum_value (d AND 0xffff))] else [])"

lemma data_bank_hits:
  "mapping_ok m \<Longrightarrow> data_bank overflow m d e = ev_sets (mapped m (bank_hits overflow d)) e"
  using set_channel_hits [OF _ bank_channel_less]
  by (simp only: data_bank_def bank_hits_def split: if_split) (simp only: mapped_simps(1) ev_sets.simps(1), blast)

lemma dataMTDC_hits: "mapping_ok m \<Longrightarrow> dataMTDC m d e = ev_sets (mapped m (mtdc_hits d)) e"
  using set_channel_hits [OF _ mtdc_channel_less]
  by (simp only: dataMTDC_def mtdc_hits_def split: if_split) (simp only: mapped_simps(1) ev_sets.simps(1), blast)

lemma set_count_trailer:
  "mapping_ok m \<Longrightarrow> mesy_type d = 3 \<Longrightarrow>
   set_count m d e = ev_sets (mapped m [(32, datum_value (d AND 0x3fffffff))]) e"
  using set_channel_hits [of m 32] by (simp add: set_count_def)

lemma set_count_other: "mesy_type d \<noteq> 3 \<Longrightarrow> set_count m d e = Some e"
  by (simp add: set_count_def)

text \<open>The loop over the banks, with the first of the words ds @ [t] in hand.\<close>

lemma bank_loop_longs:
  assumes "mapping_ok m" "\<forall>d \<in> set ds. mesy_type (ucast d) = 0" "mesy_type (ucast t) = 3" "t \<noteq> 0xffffffff"
  shows "bank_loop overflow False m (pre @ longs (tl (ds @ [t])) @ long_words 0xffffffff @ post) b
      (ucast (hd (ds @ [t]))) (length pre) e =
    result_of (map_option (Pair (length pre + 2 * length ds + 2))
      (ev_sets (mapped m (concat (map (\<lambda>d. bank_hits overflow (ucast d)) ds) @
         (if ds = [] then [] else [(32, datum_value (ucast t AND 0x3fffffff))]))) e))"
  using assms(2)
proof (induction ds arbitrary: pre e)
  case Nil
  then show ?case by (subst bank_loop.simps) (simp add: result_of_def)
next
  case (Cons d ds)
  obtain x xs where x: "ds @ [t] = x # xs" by (cases ds) auto
  have nb: "x \<noteq> 0xffffffff" and x1: "mesy_type (ucast x) \<noteq> 1"
    using x Cons.prems assms(3,4) by (cases ds; force)+
  have count: "set_count m (ucast x) e' =
      ev_sets (mapped m (if ds = [] then [(32, datum_value (ucast t AND 0x3fffffff))] else [])) e'" for e'
    using x Cons.prems assms(1,3) by (cases ds) (auto simp: set_count_trailer set_count_other)
  have IH: "bank_loop overflow False m (pre @ long_words x @ longs xs @ long_words 0xffffffff @ post) b
      (ucast x) (length pre + 2) e' =
    result_of (map_option (Pair (length pre + 2 + 2 * length ds + 2))
      (ev_sets (mapped m (concat (map (\<lambda>d. bank_hits overflow (ucast d)) ds) @
         (if ds = [] then [] else [(32, datum_value (ucast t AND 0x3fffffff))]))) e'))" for e'
    using Cons.IH [of "pre @ long_words x" e'] Cons.prems x by simp
  show ?case
  proof (cases "ev_sets (mapped m (bank_hits overflow (ucast d))) e")
    case None
    then show ?thesis
      using Cons.prems x nb x1 data_bank_hits [OF assms(1)]
      by (subst bank_loop.simps) (simp add: result_of_def ev_sets_append)
  next
    case (Some e')
    show ?thesis
      using Some Cons.prems x nb x1 data_bank_hits [OF assms(1)] IH count
      by (subst bank_loop.simps) (auto simp: result_of_def ev_sets_append split: option.splits)
  qed
qed

lemma unpack_bank_decodes:
  assumes "mapping_ok m" "wellformed_mesy m x"
  shows "bank_loop overflow False m (pre @ words_of x @ post) 0 0 (length pre) e =
    result_of (map_option (Pair (length pre + length (words_of x)))
      (ev_sets (mapped m (hits_mesy (bank_hits overflow) x)) e))"
proof (cases x)
  case NoData
  then show ?thesis by (subst bank_loop.simps) (simp add: result_of_def)
next
  case (Readout h ds t)
  obtain d xs where x: "ds @ [t] = d # xs" by (cases ds) auto
  have eq: "pre @ words_of x @ post = pre @ long_words h @ long_words d @ longs xs @ long_words 0xffffffff @ post"
    using arg_cong [OF x, of longs] Readout by (simp del: append_assoc add: append_assoc [symmetric])
  have h: "h \<noteq> 0xffffffff" using assms(2) Readout by auto
  have second: "getLong (pre @ long_words h @ long_words d @ longs xs @ long_words 0xffffffff @ post)
      (Suc (Suc (length pre))) = Some (ucast d)"
    using getLong_at [of _ "pre @ long_words h" d] by simp
  have count: "set_count m (ucast d) e =
      ev_sets (mapped m (if ds = [] then [(32, datum_value (ucast t AND 0x3fffffff))] else [])) e"
    using x assms Readout by (cases ds) (auto simp: set_count_trailer set_count_other)
  have rest: "bank_loop overflow False m (pre @ long_words h @ long_words d @ longs xs @ long_words 0xffffffff @ post) 0
      (ucast d) (length pre + 4) e' =
    result_of (map_option (Pair (length pre + 4 + 2 * length ds + 2))
      (ev_sets (mapped m (concat (map (\<lambda>d. bank_hits overflow (ucast d)) ds) @
         (if ds = [] then [] else [(32, datum_value (ucast t AND 0x3fffffff))]))) e'))" for e'
    using bank_loop_longs [OF assms(1), of ds t overflow "pre @ long_words h @ long_words d" post 0 e'] assms(2) Readout x
    by simp
  have len: "length pre + length (words_of x) = length pre + 4 + 2 * length ds + 2" by (simp add: Readout)
  show ?thesis
    unfolding eq len using assms(2) Readout h second count rest
    by (subst bank_loop.simps) (auto simp: result_of_def ev_sets_append split: option.splits if_splits)
qed

lemma unpackMTDC32_decodes:
  assumes "mapping_ok m" "wellformed_mesy m x"
  shows "unpackMTDC32 m (pre @ words_of x @ post) (length pre) e =
    result_of (map_option (Pair (length pre + length (words_of x))) (ev_sets (mapped m (hits_mesy mtdc_hits x)) e))"
proof (cases x)
  case NoData
  then show ?thesis by (simp add: unpackMTDC32_def)
next
  case (Readout h ds t)
  obtain d xs where x: "ds @ [t] = d # xs" by (cases ds) auto
  have eq: "pre @ words_of x @ post = pre @ long_words h @ long_words d @ longs xs @ long_words 0xffffffff @ post"
    using arg_cong [OF x, of longs] Readout by (simp del: append_assoc add: append_assoc [symmetric])
  have h: "h \<noteq> 0xffffffff" using assms(2) Readout by auto
  have second: "getLong (pre @ long_words h @ long_words d @ longs xs @ long_words 0xffffffff @ post)
      (Suc (Suc (length pre))) = Some (ucast d)"
    using getLong_at [of _ "pre @ long_words h" d] by simp
  have data: "read_while (\<lambda>d. mesy_type d = 0) (dataMTDC m)
      (pre @ long_words h @ long_words d @ longs xs @ long_words 0xffffffff @ post) (ucast d) (length pre + 4) e =
     map_option (\<lambda>e'. (ucast t, length pre + 4 + 2 * length ds, e'))
       (ev_sets (mapped m (concat (map (\<lambda>d. mtdc_hits (ucast d)) ds))) e)"
    using read_while_longs [of ds "\<lambda>d. mesy_type d = 0" t "dataMTDC m" "\<lambda>d. mapped m (mtdc_hits (ucast d))"
        "pre @ long_words h @ long_words d" "long_words 0xffffffff @ post" e] assms Readout x
    by (simp add: dataMTDC_hits mapped_concat comp_def)
  have count: "set_count m (ucast t) e' = ev_sets (mapped m [(32, datum_value (ucast t AND 0x3fffffff))]) e'" for e'
    using assms Readout by (simp add: set_count_trailer)
  have len: "length pre + length (words_of x) = length pre + 4 + 2 * length ds + 2" by (simp add: Readout)
  show ?thesis
    unfolding eq len using assms(2) Readout h second data count
    by (cases "ev_sets (mapped m (concat (map (\<lambda>d. mtdc_hits (ucast d)) ds))) e")
      (auto simp: unpackMTDC32_def ev_sets_append result_of_def split: option.splits)
qed

interpretation rMADC32: module_reader "unpackMADC32 False" words_of wellformed_mesy "hits_mesy (bank_hits 0x4000)"
  by unfold_locales (simp only: unpackMADC32_def unpack_bank_decodes)

interpretation rMQDC32: module_reader "unpackMQDC32 False" words_of wellformed_mesy "hits_mesy (bank_hits 0x8000)"
  by unfold_locales (simp only: unpackMQDC32_def unpack_bank_decodes)

interpretation rMTDC32: module_reader unpackMTDC32 words_of wellformed_mesy "hits_mesy mtdc_hits"
  by unfold_locales (rule unpackMTDC32_decodes)


subsection \<open>Modules without a loop\<close>

lemma unpackV977_decodes:
  assumes "mapping_ok m"
  shows "unpackV977 m (pre @ [w] @ post) (length pre) e =
    result_of (map_option (Pair (length pre + 1)) (ev_sets (mapped m [(0, of_nat (unat w))]) e))"
  using assms set_channel_hits [of m 0] by (simp add: unpackV977_def nth_append)

interpretation rV977: module_reader unpackV977 "\<lambda>w. [w]" "\<lambda>m w. True" "\<lambda>w. [(0, of_nat (unat w))]"
  using unpackV977_decodes by unfold_locales simp

fun scaler_hits :: "u32 \<times> u32 \<Rightarrow> (nat \<times> rat) list" where
  "scaler_hits (a, b) = [(0, datum_value (ucast a)), (1, datum_value (ucast b))]"

lemma unpackVMUSBScaler_decodes:
  assumes "mapping_ok m"
  shows "unpackVMUSBScaler m (pre @ longs [a, b] @ post) (length pre) e =
    result_of (map_option (Pair (length pre + 4)) (ev_sets (mapped m (scaler_hits (a, b))) e))"
proof -
  have second: "getLong (pre @ long_words a @ long_words b @ post) (Suc (Suc (length pre))) = Some (ucast b)"
    using getLong_at [of _ "pre @ long_words a" b post] by simp
  have set: "set_channel m 0 v e' = ev_sets (mapped m [(0, v)]) e'" "set_channel m 1 v e' = ev_sets (mapped m [(1, v)]) e'" for v e'
    using assms by (simp_all only: set_channel_hits)
  have split: "mapped m (scaler_hits (a, b)) = mapped m [(0, datum_value (ucast a))] @ mapped m [(1, datum_value (ucast b))]"
    by (simp add: mapped_def)
  show ?thesis
    unfolding split ev_sets_append unpackVMUSBScaler_def set
    using second by (auto simp: result_of_def simp del: mapped_simps(2) split: option.splits bind_splits)
qed

interpretation rScaler: module_reader unpackVMUSBScaler "\<lambda>(a, b). longs [a, b]" "\<lambda>m x. True" scaler_hits
  using unpackVMUSBScaler_decodes by unfold_locales (auto split: prod.splits)

text \<open>
  A datum of the streaming firmware and its trailer.  The long word the controller ends the transfer
  with is not part of what is taken.
\<close>

fun sro_wellformed :: "adc_mapping \<Rightarrow> u32 \<times> u32 \<Rightarrow> bool" where
  "sro_wellformed m (h, t) \<longleftrightarrow>
     mesy_type (ucast h) = 1 \<and> sro_id (ucast h) = am_vsn m \<and>
     mesy_type (ucast t) = 3 \<and> t \<noteq> 0xffffffff"

fun sro_hits :: "u32 \<times> u32 \<Rightarrow> (nat \<times> rat) list" where
  "sro_hits (h, t) =
     [(sro_channel (ucast h), datum_value (ucast h AND 0xffff)),
      (32, datum_value (ucast t AND 0x3fffffff))]"

lemma sro_channel_less: "sro_channel d < 256"
  unfolding sro_channel_def by (rule masked_less) simp_all

lemma unpackMDPP32SCPSRO_decodes:
  assumes "mapping_ok m" "sro_wellformed m (h, t)"
  shows "unpackMDPP32SCPSRO False m (pre @ longs [h, t] @ post) (length pre) e =
    result_of (map_option (Pair (length pre + 4)) (ev_sets (mapped m (sro_hits (h, t))) e))"
proof -
  have h: "h \<noteq> 0xffffffff" using assms(2) by auto
  have second: "getLong (pre @ long_words h @ long_words t @ post) (Suc (Suc (length pre))) = Some (ucast t)"
    using getLong_at [of _ "pre @ long_words h" t post] by simp
  let ?hit = "[(sro_channel (ucast h), datum_value (ucast h AND 0xffff))]"
  have set: "set_channel m (sro_channel (ucast h)) (datum_value (ucast h AND 0xffff)) e' =
      ev_sets (mapped m ?hit) e'" "set_channel m 32 v e' = ev_sets (mapped m [(32, v)]) e'" for v e'
    using assms(1) set_channel_hits [OF _ sro_channel_less] by (simp_all only: set_channel_hits)
  have split: "mapped m (sro_hits (h, t)) = mapped m ?hit @ mapped m [(32, datum_value (ucast t AND 0x3fffffff))]"
    by (simp add: mapped_def)
  show ?thesis
    unfolding split ev_sets_append unpackMDPP32SCPSRO_def
    using second h assms(2)
    by (auto simp: result_of_def set simp del: mapped_simps(2) split: option.splits bind_splits)
qed

interpretation rSCPSRO: module_reader "unpackMDPP32SCPSRO False" "\<lambda>(h, t). longs [h, t]" sro_wellformed sro_hits
proof (unfold_locales, goal_cases)
  case (1 m x pre post e)
  then show ?case using unpackMDPP32SCPSRO_decodes [of m "fst x" "snd x" pre post e] by (cases x) simp
qed

subsection \<open>Beyond the contract\<close>

text \<open>The exit of the bank loop is never reached: a datum that is not data has a bit of the mask set.\<close>

lemma mesy_type_bank: "mesy_type d \<noteq> 0 \<Longrightarrow> d AND 0xc0000002 \<noteq> 0"
proof
  assume t: "mesy_type d \<noteq> 0" and z: "d AND 0xc0000002 = 0"
  have "d AND 0xc0000000 = (d AND 0xc0000002) AND 0xc0000000" by (simp add: and.assoc)
  with z have "d AND 0xc0000000 = 0" by simp
  with t show False by (simp add: mesy_type_def)
qed

lemma bank_loop_no_exit: "bank_loop overflow mvlc m ws b d off e \<noteq> Exits k"
proof (induction overflow mvlc m ws b d off e rule: bank_loop.induct)
  case (1 overflow mvlc m ws b d off e)
  show ?case
  proof
    assume "bank_loop overflow mvlc m ws b d off e = Exits k"
    with 1 mesy_type_bank [of d] show False
      by (simp add: bank_loop.simps [of overflow mvlc m ws b d off e] split: option.splits if_splits)
  qed
qed

end
