(* ===== verification/VmStack.thy ===== *)
theory VmStack
  imports VmReadouts TclAnalyzer SpecTclApi
begin

text \<open>
  The event processors of VM-USB and MVLC data (src/main/vmusb/CStackUnpacker.cpp,
  src/main/MVLCSpecTcl/CStackUnpacker.cpp) and the commands that configure them
  (src/main/vmusb/CParamMapCommand.cpp, CStackMapCommand.cpp).  The fragments of an event are
  assembled, and the modules of the stack that produced it are unpacked one after the other.
\<close>

subsection \<open>Parameter maps and stack maps\<close>

record vm_maps =
  vm_parameters :: "(string \<times> adc_mapping) list"
  vm_stacks :: "adc_mapping list list"

definition new_vm_maps :: vm_maps where
  "new_vm_maps = \<lparr> vm_parameters = [], vm_stacks = replicate 8 [] \<rparr>"

datatype vm_error = WrongWordCount | InvalidWord | UnknownParameter string | BadStackNumber | UnmappedModule string

datatype vm_command = VmOk "string option" vm_maps | VmError vm_error vm_maps | VmUndefined

text \<open>
  The names of the parameters of the channels.  There is no check against the 256 elements of the
  map: writing past them is undefined.
\<close>

fun name_channels :: "(string \<Rightarrow> parameter option) \<Rightarrow> string list \<Rightarrow> nat \<Rightarrow> i32 list \<Rightarrow> (string + i32 list) option" where
  "name_channels finder [] i ids = Some (Inr ids)"
| "name_channels finder (nm # nms) i ids =
     (if nm \<noteq> [] then
        (case finder nm of
           None \<Rightarrow> Some (Inl nm)
         | Some p \<Rightarrow> if length ids \<le> i then None else name_channels finder nms (i + 1) (ids[i := pa_number p]))
      else if length ids \<le> i then None
      else name_channels finder nms (i + 1) (ids[i := - 1]))"

text \<open>
  The words follow the command's name.  Tcl's conversions to integers and lists are arguments, and
  so is whether this is a process of a parallel SpecTcl that does not unpack.
\<close>

definition paramMap ::
  "(string \<Rightarrow> i32 option) \<Rightarrow> (string \<Rightarrow> string list option) \<Rightarrow> bool \<Rightarrow> api \<Rightarrow> string list \<Rightarrow> vm_maps \<Rightarrow> vm_command" where
  "paramMap tcl_int tcl_list bystander api words s =
     (if bystander then VmOk None s
      else case words of
        [moduleName, type, slot, channels] \<Rightarrow>
          (case (tcl_int type, tcl_int slot, tcl_list channels) of
             (Some ty, Some vsn, Some names) \<Rightarrow>
               (case name_channels (\<lambda>nm. api_FindParameter nm api) names 0 (am_map new_mapping) of
                  None \<Rightarrow> VmUndefined
                | Some (Inl nm) \<Rightarrow> VmError (UnknownParameter nm) s
                | Some (Inr ids) \<Rightarrow>
                    VmOk (Some moduleName)
                      (s\<lparr> vm_parameters := smap_put moduleName
                          \<lparr> am_name = moduleName, am_vsn = vsn, am_type = ty, am_map = ids \<rparr> (vm_parameters s) \<rparr>))
           | _ \<Rightarrow> VmError InvalidWord s)
      | _ \<Rightarrow> VmError WrongWordCount s)"

fun find_modules :: "(string \<times> adc_mapping) list \<Rightarrow> string list \<Rightarrow> string + adc_mapping list" where
  "find_modules ps [] = Inr []"
| "find_modules ps (nm # nms) =
     (case smap_get ps nm of
        None \<Rightarrow> Inl nm
      | Some m \<Rightarrow> (case find_modules ps nms of Inl e \<Rightarrow> Inl e | Inr ms \<Rightarrow> Inr (m # ms)))"

text \<open>The stack map holds copies of the parameter maps.\<close>

definition stackMap ::
  "(string \<Rightarrow> i32 option) \<Rightarrow> (string \<Rightarrow> string list option) \<Rightarrow> bool \<Rightarrow> string list \<Rightarrow> vm_maps \<Rightarrow> vm_command" where
  "stackMap tcl_int tcl_list bystander words s =
     (if bystander then VmOk None s
      else case words of
        [number, modules] \<Rightarrow>
          (case (tcl_int number, tcl_list modules) of
             (Some n, Some names) \<Rightarrow>
               if sint n < 0 \<or> 7 < sint n then VmError BadStackNumber s
               else (case find_modules (vm_parameters s) names of
                       Inl nm \<Rightarrow> VmError (UnmappedModule nm) s
                     | Inr ms \<Rightarrow> VmOk None (s\<lparr> vm_stacks := (vm_stacks s)[nat (sint n) := ms] \<rparr>))
           | _ \<Rightarrow> VmError InvalidWord s)
      | _ \<Rightarrow> VmError WrongWordCount s)"

definition vm_getMap :: "int \<Rightarrow> vm_maps \<Rightarrow> range_error + adc_mapping list" where
  "vm_getMap number s =
     (if number < 0 \<or> 7 < number then Inl (CRangeError 0 7 number) else Inr (vm_stacks s ! nat number))"

subsection \<open>Assembling an event\<close>

text \<open>A word of the event, through the decoder's translator; None is past the data.\<close>

fun read_words :: "translator \<Rightarrow> u8 list \<Rightarrow> nat \<Rightarrow> nat \<Rightarrow> u16 list option" where
  "read_words tr buf off 0 = Some []"
| "read_words tr buf off (Suc n) =
     (case GetWord tr off buf of
        None \<Rightarrow> None
      | Some w \<Rightarrow> map_option ((#) w) (read_words tr buf (off + 2) n))"

lemma GetWord_bound: "GetWord tr off buf = Some w \<Longrightarrow> off + 2 \<le> length buf"
  by (simp add: GetWord_def GetBlock_def split: if_splits)

text \<open>
  The fragments: stack number, size in words with the headers, and the words without them.  The
  stack's number is that of the first header, - 1 before it.
\<close>

function assemble_fragments :: "translator \<Rightarrow> u8 list \<Rightarrow> nat \<Rightarrow> int \<Rightarrow> nat \<Rightarrow> u16 list \<Rightarrow> (int \<times> nat \<times> u16 list) option" where
  "assemble_fragments tr buf off stackId totalSize ev =
     (case GetWord tr off buf of
        None \<Rightarrow> None
      | Some header \<Rightarrow>
          (let fragmentSize = unat (header AND 0x0fff);
               stack = (if stackId < 0 then uint (drop_bit 13 (header AND 0xe000)) else stackId)
           in case read_words tr buf (off + 2) fragmentSize of
                None \<Rightarrow> None
              | Some ws \<Rightarrow>
                  if header AND 0x1000 = 0 then Some (stack, totalSize + 1 + fragmentSize, ev @ ws)
                  else assemble_fragments tr buf (off + 2 + 2 * fragmentSize) stack (totalSize + 1 + fragmentSize) (ev @ ws)))"
  by pat_completeness auto
termination
  by (relation "measure (\<lambda>(tr, buf, off, s, n, ev). length buf - off)") (auto dest!: GetWord_bound)

declare assemble_fragments.simps [simp del]

definition assembleEvent :: "translator \<Rightarrow> u8 list \<Rightarrow> (int \<times> nat \<times> u16 list) option" where
  "assembleEvent tr buf = assemble_fragments tr buf 0 (- 1) 0 []"

definition assembleEventMVLC :: "nat \<Rightarrow> translator \<Rightarrow> u8 list \<Rightarrow> (int \<times> nat \<times> u16 list) option" where
  "assembleEventMVLC nBytes tr buf =
     map_option (\<lambda>ws. (0, nBytes div 2, ws)) (read_words tr buf 0 (nBytes div 2))"

subsection \<open>Unpacking the modules of a stack\<close>

type_synonym unpacker = "adc_mapping \<Rightarrow> u16 list \<Rightarrow> nat \<Rightarrow> event \<Rightarrow> vm_result"

text \<open>
  The unpackers by module type; None is the null pointer of a type the MVLC does not support.
  Those with a state of their own (V1x90, MASE, HINP, PSD, V1729) are an argument.
\<close>

definition vm_unpackers :: "(nat \<Rightarrow> unpacker) \<Rightarrow> unpacker option list" where
  "vm_unpackers own =
     [Some (unpack785 False), Some (unpackNADC2530 False), Some (unpackMADC32 False), Some (own 3), Some unpackV977,
      Some (own 5), Some (unpack785 False), Some (own 7), Some (own 8), Some (own 9), Some unpackMTDC32,
      Some (unpackMQDC32 False), Some (unpackMDPP32QDC False), Some (unpackMDPP32SCPSRO False),
      Some unpackVMUSBScaler, Some (unpackMDPP32SCPSROSoftTrigger False)]"

definition mvlc_unpackers :: "(nat \<Rightarrow> unpacker) \<Rightarrow> unpacker option list" where
  "mvlc_unpackers own =
     [Some (unpack785 True), Some (unpackNADC2530 True), Some (unpackMADC32 True), Some (own 3), Some unpackV977,
      None, Some (unpack785 True), None, None, Some (own 9), Some unpackMTDC32,
      Some (unpackMQDC32 True), Some (unpackMDPP32QDC True), Some (unpackMDPP32SCPSRO True),
      None, Some (unpackMDPP32SCPSROSoftTrigger True)]"

text \<open>The type indexes the table without a check.\<close>

definition run_unpacker :: "unpacker option list \<Rightarrow> unpacker" where
  "run_unpacker table m ws off e =
     (if length table \<le> unat (am_type m) then Faults
      else case table ! unat (am_type m) of None \<Rightarrow> Faults | Some f \<Rightarrow> f m ws off e)"

fun run_modules :: "unpacker option list \<Rightarrow> adc_mapping list \<Rightarrow> u16 list \<Rightarrow> nat \<Rightarrow> event \<Rightarrow> vm_result" where
  "run_modules table [] ws off e = Unpacks off e"
| "run_modules table (m # ms) ws off e =
     (case run_unpacker table m ws off e of
        Unpacks off' e' \<Rightarrow> run_modules table ms ws off' e'
      | r \<Rightarrow> r)"

function skip_markers :: "u16 list \<Rightarrow> nat \<Rightarrow> nat" where
  "skip_markers ws off =
     (if off < length ws then (if ws ! off = 0xffff then skip_markers ws (off + 1) else off) else off)"
  by pat_completeness auto
termination
  by (relation "measure (\<lambda>(ws, off). length ws - off)") auto

declare skip_markers.simps [simp del]

datatype 'p stack_result = Unpacked "'p tcl" event bool | StackExits int | StackThrows range_error | StackFaults

text \<open>
  operator(): the size of the event is set before it is unpacked.  An event with words left over
  is not accepted, but what was unpacked stays in it.
\<close>

definition unpack_stack ::
  "unpacker option list \<Rightarrow> vm_maps \<Rightarrow> (int \<times> nat \<times> u16 list) option \<Rightarrow> event \<Rightarrow> 'p tcl \<Rightarrow> 'p stack_result" where
  "unpack_stack table s info e t = (case info of
      None \<Rightarrow> StackFaults
    | Some (stackId, size_in_words, ws) \<Rightarrow>
        (case vm_getMap stackId s of
           Inl r \<Rightarrow> StackThrows r
         | Inr ms \<Rightarrow>
             (case run_modules table ms ws 0 e of
                Faults \<Rightarrow> StackFaults
              | Exits n \<Rightarrow> StackExits n
              | Unpacks off e' \<Rightarrow>
                  Unpacked (SetEventSize (of_nat (size_in_words * 2)) t) e' (skip_markers ws off = length ws))))"

definition CStackUnpacker ::
  "(nat \<Rightarrow> unpacker) \<Rightarrow> vm_maps \<Rightarrow> translator \<Rightarrow> u8 list \<Rightarrow> event \<Rightarrow> 'p tcl \<Rightarrow> 'p stack_result" where
  "CStackUnpacker own s tr pEvent e t = unpack_stack (vm_unpackers own) s (assembleEvent tr pEvent) e t"

definition CStackUnpackerMVLC ::
  "(nat \<Rightarrow> unpacker) \<Rightarrow> vm_maps \<Rightarrow> translator \<Rightarrow> nat \<Rightarrow> u8 list \<Rightarrow> event \<Rightarrow> 'p tcl \<Rightarrow> 'p stack_result" where
  "CStackUnpackerMVLC own s tr bodySize pEvent e t =
     unpack_stack (mvlc_unpackers own) s (assembleEventMVLC bodySize tr pEvent) e t"


subsection \<open>The maps\<close>

definition vm_maps_ok :: "vm_maps \<Rightarrow> bool" where
  "vm_maps_ok s \<longleftrightarrow> smap_ok (vm_parameters s) \<and> (\<forall>(nm, m) \<in> set (vm_parameters s). mapping_ok m) \<and>
     length (vm_stacks s) = 8 \<and> (\<forall>ms \<in> set (vm_stacks s). \<forall>m \<in> set ms. mapping_ok m)"

lemma vm_maps_ok_new: "vm_maps_ok new_vm_maps"
  by (simp add: vm_maps_ok_def new_vm_maps_def)

lemma name_channels_length: "name_channels finder nms i ids = Some (Inr ids') \<Longrightarrow> length ids' = length ids"
  by (induction finder nms i ids rule: name_channels.induct) (auto split: if_splits option.splits)

text \<open>What the map of channels is when there are no more names than elements.\<close>

lemma name_channels_names:
  assumes "i + length nms \<le> length ids" "\<forall>nm \<in> set nms. nm \<noteq> [] \<longrightarrow> finder nm \<noteq> None"
  shows "name_channels finder nms i ids = Some (Inr (take i ids @
     map (\<lambda>nm. if nm = [] then - 1 else pa_number (the (finder nm))) nms @ drop (i + length nms) ids))"
  using assms
proof (induction finder nms i ids rule: name_channels.induct)
  case (2 finder nm nms i ids)
  have "take (i + 1) (ids[i := x]) = take i ids @ [x]" "drop (i + 1 + length nms) (ids[i := x]) = drop (i + length (nm # nms)) ids" for x
    using 2(3) by (simp_all add: take_Suc_conv_app_nth)
  with 2 show ?case by auto
qed simp

lemma find_modules_mappings:
  "find_modules ps nms = Inr ms \<Longrightarrow> \<forall>(nm, m) \<in> set ps. P m \<Longrightarrow> \<forall>m \<in> set ms. P m"
  by (induction ps nms arbitrary: ms rule: find_modules.induct)
    (auto split: option.splits sum.splits dest!: smap_get_SomeD)

lemma smap_put_all:
  "\<forall>(k, v) \<in> set m. P v \<Longrightarrow> P v' \<Longrightarrow> \<forall>(k, v) \<in> set (smap_put k' v' m). P v"
  by (induction k' v' m rule: smap_put.induct) auto

lemma paramMap_ok:
  assumes "vm_maps_ok s" "paramMap tcl_int tcl_list bystander api words s = VmOk r s'"
  shows "vm_maps_ok s'"
proof -
  have "vm_maps_ok (s\<lparr> vm_parameters := smap_put nm \<lparr> am_name = nm, am_vsn = vsn, am_type = ty, am_map = ids \<rparr> (vm_parameters s) \<rparr>)"
    if "name_channels finder names 0 (am_map new_mapping) = Some (Inr ids)" for nm vsn ty finder names ids
  proof -
    have "mapping_ok \<lparr> am_name = nm, am_vsn = vsn, am_type = ty, am_map = ids \<rparr>"
      using name_channels_length [OF that] by (simp add: mapping_ok_def new_mapping_def)
    then show ?thesis
      using assms(1) smap_put_all [of "vm_parameters s" mapping_ok] by (simp add: vm_maps_ok_def)
  qed
  then show ?thesis
    using assms by (auto simp: paramMap_def split: if_splits list.splits option.splits sum.splits)
qed

lemma stackMap_ok:
  assumes "vm_maps_ok s" "stackMap tcl_int tcl_list bystander words s = VmOk r s'"
  shows "vm_maps_ok s'"
proof -
  have "vm_maps_ok (s\<lparr> vm_stacks := (vm_stacks s)[n := ms] \<rparr>)" if "find_modules (vm_parameters s) nms = Inr ms" for n nms ms
    using assms(1) find_modules_mappings [OF that, of mapping_ok]
    by (auto simp: vm_maps_ok_def dest: set_update_subset_insert [THEN subsetD])
  then show ?thesis
    using assms by (auto simp: stackMap_def split: if_splits list.splits option.splits sum.splits)
qed

text \<open>A stack keeps the parameter maps it was made of.\<close>

lemma paramMap_keeps_stacks:
  "paramMap tcl_int tcl_list bystander api words s = VmOk r s' \<Longrightarrow> vm_stacks s' = vm_stacks s"
  by (auto simp: paramMap_def split: if_splits list.splits option.splits sum.splits)

subsection \<open>Fragments\<close>

definition put_word :: "translator \<Rightarrow> u16 \<Rightarrow> u8 list" where
  "put_word tr w = (case tr of NonSwappingBufferTranslator \<Rightarrow> put16 w | SwappingBufferTranslator \<Rightarrow> rev (put16 w))"

definition put_words :: "translator \<Rightarrow> u16 list \<Rightarrow> u8 list" where
  "put_words tr ws = concat (map (put_word tr) ws)"

lemma length_put_word [simp]: "length (put_word tr w) = 2"
  by (simp add: put_word_def split: translator.split)

lemma put_words_simps [simp]: "put_words tr [] = []" "put_words tr (w # ws) = put_word tr w @ put_words tr ws"
  "put_words tr (ws @ vs) = put_words tr ws @ put_words tr vs"
  by (simp_all add: put_words_def)

lemma length_put_words [simp]: "length (put_words tr ws) = 2 * length ws"
  by (induction ws) auto

lemma GetWord_put:
  assumes "off = length pre" shows "GetWord tr off (pre @ put_word tr w @ post) = Some w"
proof -
  have "of_nat (bytes_nat (put16 w)) = w"
    using unat_less_power [of w] by (simp add: put16_def bytes_nat_bytes)
  then show ?thesis
    using assms by (cases tr) (simp_all add: GetWord_def GetBlock_def put_word_def)
qed

lemma read_words_put:
  "off = length pre \<Longrightarrow> read_words tr (pre @ put_words tr ws @ post) off (length ws) = Some ws"
proof (induction ws arbitrary: pre off)
  case (Cons w ws)
  have "read_words tr ((pre @ put_word tr w) @ put_words tr ws @ post) (off + 2) (length ws) = Some ws"
    using Cons by (intro Cons.IH) simp
  then show ?case using GetWord_put [OF Cons.prems, of tr w "put_words tr ws @ post"] by simp
qed simp

text \<open>Fragments are headers with words; the length is in the header, and whether another one follows.\<close>

type_synonym fragment = "u16 \<times> u16 list"

fun fragments_ok :: "fragment list \<Rightarrow> bool" where
  "fragments_ok [] \<longleftrightarrow> False"
| "fragments_ok [(h, ws)] \<longleftrightarrow> unat (h AND 0x0fff) = length ws \<and> h AND 0x1000 = 0"
| "fragments_ok ((h, ws) # frs) \<longleftrightarrow> unat (h AND 0x0fff) = length ws \<and> h AND 0x1000 \<noteq> 0 \<and> fragments_ok frs"

definition fragment_bytes :: "translator \<Rightarrow> fragment list \<Rightarrow> u8 list" where
  "fragment_bytes tr frs = put_words tr (concat (map (\<lambda>(h, ws). h # ws) frs))"

definition fragment_stack :: "fragment list \<Rightarrow> int" where
  "fragment_stack frs = uint (drop_bit 13 (fst (hd frs) AND 0xe000))"

lemma fragment_bytes_simps [simp]: "fragment_bytes tr [] = []"
  "fragment_bytes tr ((h, ws) # frs) = put_word tr h @ put_words tr ws @ fragment_bytes tr frs"
  by (simp_all add: fragment_bytes_def)

lemma assemble_fragments_put:
  assumes "fragments_ok frs" "off = length pre"
  shows "assemble_fragments tr (pre @ fragment_bytes tr frs @ post) off stack n ev =
    Some (if stack < 0 then fragment_stack frs else stack, n + sum_list (map (\<lambda>(h, ws). 1 + length ws) frs),
          ev @ concat (map snd frs))"
  using assms
proof (induction frs arbitrary: pre off stack n ev rule: fragments_ok.induct)
  case (2 h ws)
  have "GetWord tr off (pre @ put_word tr h @ put_words tr ws @ post) = Some h"
    using GetWord_put [OF 2(2)] by blast
  moreover have "read_words tr ((pre @ put_word tr h) @ put_words tr ws @ post) (off + 2) (length ws) = Some ws"
    using 2(2) by (intro read_words_put) simp
  ultimately show ?case
    using 2(1) by (subst assemble_fragments.simps) (simp add: Let_def fragment_stack_def)
next
  case (3 h ws fr frs)
  have "GetWord tr off (pre @ put_word tr h @ put_words tr ws @ fragment_bytes tr (fr # frs) @ post) = Some h"
    using GetWord_put [OF 3(3)] by blast
  moreover have "read_words tr ((pre @ put_word tr h) @ put_words tr ws @ fragment_bytes tr (fr # frs) @ post) (off + 2) (length ws) = Some ws"
    using 3(3) by (intro read_words_put) simp
  moreover have "assemble_fragments tr ((pre @ put_word tr h @ put_words tr ws) @ fragment_bytes tr (fr # frs) @ post)
      (off + 2 + 2 * length ws) stack' n' ev' =
    Some (if stack' < 0 then fragment_stack (fr # frs) else stack', n' + sum_list (map (\<lambda>(h, ws). 1 + length ws) (fr # frs)),
          ev' @ concat (map snd (fr # frs)))" for stack' n' ev'
    using 3 by (intro 3(1)) simp_all
  ultimately show ?case
    using 3(2) by (subst assemble_fragments.simps) (simp add: Let_def fragment_stack_def)
qed simp


subsection \<open>A stack of modules\<close>

text \<open>The assignments the modules of a stack amount to, in the order of the stack.\<close>

definition stack_hits :: "('d \<Rightarrow> (nat \<times> rat) list) \<Rightarrow> (adc_mapping \<times> 'd) list \<Rightarrow> (u32 \<times> rat) list" where
  "stack_hits hs mxs = concat (map (\<lambda>(m, x). mapped m (hs x)) mxs)"

text \<open>The interface the stack unpackers rely on: their table, entered by a module's type.\<close>

locale stack_reader = module_reader "run_unpacker table" encode wellformed hits
  for table :: "unpacker option list" and encode :: "'d \<Rightarrow> u16 list"
    and wellformed :: "adc_mapping \<Rightarrow> 'd \<Rightarrow> bool" and hits :: "'d \<Rightarrow> (nat \<times> rat) list"
begin

lemma run_modules_decode:
  assumes "\<forall>(m, x) \<in> set mxs. mapping_ok m \<and> wellformed m x" "off = length pre"
  shows "run_modules table (map fst mxs) (pre @ concat (map (\<lambda>mx. encode (snd mx)) mxs) @ post) off e =
    result_of (map_option (Pair (length pre + length (concat (map (\<lambda>mx. encode (snd mx)) mxs)))) (ev_sets (stack_hits hits mxs) e))"
  using assms
proof (induction mxs arbitrary: pre off e)
  case Nil
  then show ?case by (simp add: stack_hits_def result_of_def)
next
  case (Cons mx mxs)
  obtain m x where mx: "mx = (m, x)" by fastforce
  have first: "run_unpacker table m (pre @ encode x @ concat (map (\<lambda>mx. encode (snd mx)) mxs) @ post) off e =
      result_of (map_option (Pair (length pre + length (encode x))) (ev_sets (mapped m (hits x)) e))"
    using Cons.prems mx by (intro decode_prefix) auto
  have rest: "run_modules table (map fst mxs) ((pre @ encode x) @ concat (map (\<lambda>mx. encode (snd mx)) mxs) @ post)
      (length (pre @ encode x)) e' =
    result_of (map_option (Pair (length (pre @ encode x) + length (concat (map (\<lambda>mx. encode (snd mx)) mxs)))) (ev_sets (stack_hits hits mxs) e'))" for e'
    using Cons.prems mx by (intro Cons.IH) auto
  have split: "stack_hits hits (mx # mxs) = mapped m (hits x) @ stack_hits hits mxs"
    by (simp add: mx stack_hits_def)
  show ?case
    unfolding split ev_sets_append
    using first rest mx
    by (cases "ev_sets (mapped m (hits x)) e") (simp_all add: result_of_def add.assoc)
qed

end

datatype module_data =
    V785 readout | MADC32 readout | MQDC32 readout | MTDC32 readout | V977 u16 | Scaler "u32 \<times> u32" | SCPSRO "u32 \<times> u32"

fun vm_encode :: "module_data \<Rightarrow> u16 list" where
  "vm_encode (V785 r) = words_of r"
| "vm_encode (MADC32 r) = words_of r"
| "vm_encode (MQDC32 r) = words_of r"
| "vm_encode (MTDC32 r) = words_of r"
| "vm_encode (V977 w) = [w]"
| "vm_encode (Scaler p) = (case p of (a, b) \<Rightarrow> longs [a, b])"
| "vm_encode (SCPSRO p) = (case p of (h, t) \<Rightarrow> longs [h, t])"

fun vm_wellformed :: "adc_mapping \<Rightarrow> module_data \<Rightarrow> bool" where
  "vm_wellformed m (V785 r) \<longleftrightarrow> am_type m \<in> {0, 6} \<and> wellformed785 m r"
| "vm_wellformed m (MADC32 r) \<longleftrightarrow> am_type m = 2 \<and> wellformed_mesy m r"
| "vm_wellformed m (MQDC32 r) \<longleftrightarrow> am_type m = 11 \<and> wellformed_mesy m r"
| "vm_wellformed m (MTDC32 r) \<longleftrightarrow> am_type m = 10 \<and> wellformed_mesy m r"
| "vm_wellformed m (V977 w) \<longleftrightarrow> am_type m = 4"
| "vm_wellformed m (Scaler p) \<longleftrightarrow> am_type m = 14"
| "vm_wellformed m (SCPSRO p) \<longleftrightarrow> am_type m = 13 \<and> sro_wellformed m p"

fun vm_hits :: "module_data \<Rightarrow> (nat \<times> rat) list" where
  "vm_hits (V785 r) = hits785 r"
| "vm_hits (MADC32 r) = hits_mesy (bank_hits 0x4000) r"
| "vm_hits (MQDC32 r) = hits_mesy (bank_hits 0x8000) r"
| "vm_hits (MTDC32 r) = hits_mesy mtdc_hits r"
| "vm_hits (V977 w) = [(0, of_nat (unat w))]"
| "vm_hits (Scaler p) = scaler_hits p"
| "vm_hits (SCPSRO p) = sro_hits p"

interpretation vm: stack_reader "vm_unpackers own" vm_encode vm_wellformed vm_hits for own
proof (unfold_locales, goal_cases)
  case (1 m x pre post e)
  then show ?case
    by (cases x)
      (auto simp: run_unpacker_def vm_unpackers_def unpack785_decodes rMADC32.decode rMQDC32.decode
         unpackMTDC32_decodes unpackV977_decodes [simplified] unpackVMUSBScaler_decodes [simplified]
         unpackMDPP32SCPSRO_decodes [simplified])
qed


lemma skip_markers_all: "off = length pre \<Longrightarrow> skip_markers (pre @ replicate k 0xffff) off = length pre + k"
proof (induction k arbitrary: pre off)
  case 0
  then show ?case by (subst skip_markers.simps) simp
next
  case (Suc k)
  have "skip_markers ((pre @ [0xffff]) @ replicate k 0xffff) (off + 1) = length (pre @ [0xffff :: u16]) + k"
    using Suc by (intro Suc.IH) simp
  with Suc.prems show ?case by (subst skip_markers.simps) (simp add: nth_append)
qed

lemma masked_less16: "unat (drop_bit 13 (h AND 0xe000) :: u16) < 8"
proof -
  have "drop_bit 13 (h AND 0xe000) \<le> drop_bit 13 (0xe000 :: u16)"
    by (metis and.commute drop_bit_and word_and_le1)
  then show ?thesis by (simp add: word_le_nat_alt)
qed

lemma stack_number: "uint (drop_bit 13 (h AND 0xe000) :: u16) \<le> 7"
  using masked_less16 [of h] by (simp only: uint_nat)

text \<open>
  C39. An event of a VM-USB: when the fragments, in either byte order, carry the data of the modules
  of the stack they name, in the stack's order and followed by any number of markers, the event is
  accepted, its size is that of the fragments in bytes, and the parameters assigned are exactly those
  the modules' hits are mapped to, the last hit of a parameter giving its value.
\<close>

theorem stack_event:
  assumes "vm_maps_ok s" "fragments_ok frs" "ev_ok e"
    and "map fst mxs = vm_stacks s ! nat (fragment_stack frs)" "\<forall>(m, x) \<in> set mxs. vm_wellformed m x"
    and "concat (map snd frs) = concat (map (\<lambda>mx. vm_encode (snd mx)) mxs) @ replicate k 0xffff"
    and "\<forall>(n, v) \<in> set (stack_hits vm_hits mxs). unat n < max_params"
  shows "\<exists>e'. CStackUnpacker own s tr (fragment_bytes tr frs @ rest) e t =
      Unpacked (SetEventSize (of_nat (sum_list (map (\<lambda>(h, ws). 1 + length ws) frs) * 2)) t) e' True \<and> ev_ok e' \<and>
    ev_abs e' = ev_abs e ++ map_of (rev (map (\<lambda>(n, v). (unat n, v)) (stack_hits vm_hits mxs)))"
proof -
  have range: "0 \<le> fragment_stack frs" "fragment_stack frs \<le> 7"
    using stack_number by (simp_all add: fragment_stack_def)
  have "\<forall>m \<in> fst ` set mxs. mapping_ok m"
  proof -
    have "vm_stacks s ! nat (fragment_stack frs) \<in> set (vm_stacks s)"
      using assms(1) range by (intro nth_mem) (simp add: vm_maps_ok_def)
    with assms(1,4) show ?thesis by (metis vm_maps_ok_def list.set_map)
  qed
  then have wf: "\<forall>(m, x) \<in> set mxs. mapping_ok m \<and> vm_wellformed m x"
    using assms(5) by fastforce
  obtain e' where e': "ev_sets (stack_hits vm_hits mxs) e = Some e'" "ev_ok e'"
    "ev_abs e' = ev_abs e ++ map_of (rev (map (\<lambda>(n, v). (unat n, v)) (stack_hits vm_hits mxs)))"
    using ev_sets_spec [OF assms(3,7)] by blast
  have "run_modules (vm_unpackers own) (map fst mxs) (concat (map snd frs)) 0 e =
      Unpacks (length (concat (map (\<lambda>mx. vm_encode (snd mx)) mxs))) e'"
    using vm.run_modules_decode [OF wf, of 0 "[]" own "replicate k 0xffff" e] e'(1) assms(6) by (simp add: result_of_def)
  then show ?thesis
    using assemble_fragments_put [OF assms(2), of 0 "[]" tr rest "- 1" 0 "[]"] range assms(4,6) e'(2,3)
    by (intro exI [of _ e'])
      (simp add: CStackUnpacker_def unpack_stack_def assembleEvent_def vm_getMap_def skip_markers_all)
qed


definition demo_adc :: adc_mapping where
  "demo_adc = \<lparr> am_name = ''adc'', am_vsn = 5, am_type = 0, am_map = (replicate 256 (- 1))[3 := 10] \<rparr>"

definition demo_scaler :: adc_mapping where
  "demo_scaler = \<lparr> am_name = ''scaler'', am_vsn = 0, am_type = 14, am_map = (replicate 256 (- 1))[0 := 300] \<rparr>"

definition demo_maps :: vm_maps where
  "demo_maps = \<lparr> vm_parameters = [(''adc'', demo_adc)], vm_stacks = (replicate 8 [])[2 := [demo_adc, demo_scaler]] \<rparr>"

definition demo_data :: "(adc_mapping \<times> module_data) list" where
  "demo_data = [(demo_adc, V785 (Readout 0x2A000000 [0x28030123] 0x2C000000)), (demo_scaler, Scaler (7, 9))]"

definition demo_fragments :: "fragment list" where
  "demo_fragments = (let ws = concat (map (\<lambda>mx. vm_encode (snd mx)) demo_data) @ [0xffff]
     in [(0x5005, take 5 ws), (0x4008, drop 5 ws)])"

definition demo_tcl :: "unit tcl" where
  "demo_tcl = new_tcl 0 \<lparr> pm_pipelines = [], pm_processors = [], pm_pCurrent = None, pm_currentName = [], pm_calls = [] \<rparr> ()"

lemma demo_hits: "stack_hits vm_hits demo_data = [(10, 291), (300, 7)]"
  by code_simp

lemma demo_maps_ok: "vm_maps_ok demo_maps"
  by (simp add: vm_maps_ok_def demo_maps_def demo_adc_def demo_scaler_def mapping_ok_def numeral_eq_Suc)

theorem stack_event_witness:
  "\<exists>e'. CStackUnpacker (\<lambda>_ _ _ _ _. Faults) demo_maps NonSwappingBufferTranslator
       (fragment_bytes NonSwappingBufferTranslator demo_fragments @ []) new_event demo_tcl =
     Unpacked (SetEventSize (of_nat (sum_list (map (\<lambda>(h, ws). 1 + length ws) demo_fragments) * 2)) demo_tcl) e' True \<and>
     ev_abs e' 10 = Some 291 \<and> ev_abs e' 300 = Some 7 \<and> ev_abs e' 3 = None"
proof -
  have "fragments_ok demo_fragments" "map fst demo_data = vm_stacks demo_maps ! nat (fragment_stack demo_fragments)"
    by code_simp+
  moreover have "\<forall>(m, x) \<in> set demo_data. vm_wellformed m x" by code_simp
  moreover have "concat (map snd demo_fragments) = concat (map (\<lambda>mx. vm_encode (snd mx)) demo_data) @ replicate 1 0xffff"
    by code_simp
  moreover have "\<forall>(n, v) \<in> set (stack_hits vm_hits demo_data). unat n < max_params"
    by (simp add: demo_hits max_params_def)
  ultimately show ?thesis
    using stack_event [OF demo_maps_ok _ ev_ok_new, of demo_fragments demo_data 1 "\<lambda>_ _ _ _ _. Faults" NonSwappingBufferTranslator "[]"
        demo_tcl]
    by (auto simp: demo_hits)
qed

subsection \<open>Stack numbers\<close>

lemma assemble_fragments_stack:
  "assemble_fragments tr buf off stack n ev = Some (stack', n', ev') \<Longrightarrow> stack \<le> 7 \<Longrightarrow> 0 \<le> stack' \<and> stack' \<le> 7"
proof (induction tr buf off stack n ev rule: assemble_fragments.induct)
  case (1 tr buf off stackId n ev)
  from "1.prems" show ?case
    using stack_number "1.IH"
    by (subst (asm) assemble_fragments.simps) (auto simp: Let_def split: option.splits if_splits)
qed

text \<open>The stack numbers of an event are always in the range of the stack maps.\<close>

lemma stack_never_throws: "CStackUnpacker own s tr pEvent e t \<noteq> StackThrows r"
proof (cases "assembleEvent tr pEvent")
  case (Some a)
  obtain st n ws where a: "a = (st, n, ws)" by (cases a)
  have "0 \<le> st \<and> st \<le> 7"
    using Some a assemble_fragments_stack [of tr pEvent 0 "- 1" 0 "[]"] by (simp add: assembleEvent_def)
  then show ?thesis
    using Some a by (simp add: CStackUnpacker_def unpack_stack_def vm_getMap_def split: vm_result.split)
qed (simp add: CStackUnpacker_def unpack_stack_def)

subsection \<open>Where the unpackers fall short of the contract\<close>

text \<open>
  A streaming module leaves the marker that ends its transfer to the next module, which takes it for
  its own lack of data: with two such modules the second one's data are not unpacked, and the event
  is rejected.
\<close>

definition two_sro :: "u16 list" where
  "two_sro = longs [0x41040011, 0xC0000001, 0xffffffff, 0x42040022, 0xC0000002, 0xffffffff]"

definition sro_mapping :: "i32 \<Rightarrow> i32 \<Rightarrow> adc_mapping" where
  "sro_mapping vsn n = \<lparr> am_name = [], am_vsn = vsn, am_type = 13, am_map = (replicate 256 (- 1))[1 := n] \<rparr>"

fun result_summary :: "nat list \<Rightarrow> vm_result \<Rightarrow> (nat \<times> rat option list) option" where
  "result_summary ns (Unpacks off e) = Some (off, map (ev_abs e) ns)"
| "result_summary ns r = None"

lemma second_streaming_module_lost:
  "result_summary [7, 8] (run_modules (vm_unpackers own) [sro_mapping 1 7, sro_mapping 2 8] two_sro 0 new_event) =
     Some (6, [Some 0x11, None])"
  "skip_markers two_sro 6 \<noteq> length two_sro"
  by (code_simp, code_simp)


text \<open>
  An MADC32 that has no data in the event decodes another module's: nothing tests that the first
  long word is a header.
\<close>

definition madc_mapping :: adc_mapping where
  "madc_mapping = \<lparr> am_name = [], am_vsn = 1, am_type = 2, am_map = (replicate 256 (- 1))[3 := 7] \<rparr>"

lemma foreign_data_decoded:
  "result_summary [7] (unpackMADC32 False madc_mapping (longs [0x04030009, 0x04010055, 0xffffffff]) 0 new_event) =
     Some (6, [Some 9])"
  by code_simp

text \<open>With an MVLC, which writes no markers, an MTDC32 skips the header of the module after it.\<close>

definition mtdc_mapping :: "i32 \<Rightarrow> i32 \<Rightarrow> adc_mapping" where
  "mtdc_mapping vsn n = \<lparr> am_name = [], am_vsn = vsn, am_type = 10, am_map = (replicate 256 (- 1))[2 := n] \<rparr>"

lemma mvlc_second_tdc_lost:
  "result_summary [7, 8] (run_modules (mvlc_unpackers own) [mtdc_mapping 1 7, mtdc_mapping 2 8]
      (longs [0x40010000, 0x04020011, 0xC0000001, 0x40020000, 0x04020022, 0xC0000002]) 0 new_event) =
     Some (8, [Some 0x11, None])"
  by code_simp

text \<open>The QDC firmware's unpacker reads the long word after the marker, past the event of a last module.\<close>

definition qdc_mapping :: adc_mapping where
  "qdc_mapping = \<lparr> am_name = [], am_vsn = 1, am_type = 12, am_map = (replicate 256 (- 1))[2 := 7, 128 := 9] \<rparr>"

lemma qdc_reads_past_event:
  "unpackMDPP32QDC False qdc_mapping (longs [0x40010000, 0x10020011, 0xC0000001, 0xffffffff]) 0 new_event = Faults"
  by code_simp

text \<open>Only two bits of the extended time stamp are kept.\<close>

definition qdc_words :: "u32 \<Rightarrow> u16 list" where
  "qdc_words stamp = longs [0x40010000, 0x20000000 OR stamp, 0xC0000001]"

lemma qdc_timestamp_truncated:
  "unpackMDPP32QDC True qdc_mapping (qdc_words 5) 0 e = unpackMDPP32QDC True qdc_mapping (qdc_words 1) 0 e"
proof -
  have words: "getLong (qdc_words 5) 0 = Some 0x40010000" "getLong (qdc_words 1) 0 = Some 0x40010000"
    "getLong (qdc_words 5) (Suc (Suc 0)) = Some 0x20000005" "getLong (qdc_words 1) (Suc (Suc 0)) = Some 0x20000001"
    by code_simp+
  have header: "mesy_type 0x40010000 = 1" "mesy_id 0x40010000 = am_vsn qdc_mapping" by code_simp+
  have loop: "mdpp_loop qdc_mapping (qdc_words 5) 0x20000005 0 4 e = Some (Inr (0xC0000001, 5, 6, e))"
    "mdpp_loop qdc_mapping (qdc_words 1) 0x20000001 0 4 e = Some (Inr (0xC0000001, 1, 6, e))"
    by code_simp+
  have "push_bit 30 (5 :: u32) = push_bit 30 1" by simp
  then show ?thesis
    using words header loop by (simp add: unpackMDPP32QDC_def)
qed

text \<open>
  C40. The MADC32 and MQDC32 unpackers contain a call of exit for data that make no sense.  They never
  reach it: whatever the words, the offset and the map, unpacking ends with an offset or by reading
  past the event.
\<close>

theorem banks_never_exit:
  "unpackMADC32 mvlc m ws off e \<noteq> Exits k \<and> unpackMQDC32 mvlc m ws off e \<noteq> Exits k"
  by (simp add: unpackMADC32_def unpackMQDC32_def bank_loop_no_exit)

end
