(* ===== verification/Spec2Isabelle.thy ===== *)
theory Spec2Isabelle
  imports GateCycles FoldCommand TclAnalyzer RingStream FribDefinitions FilterFiles SpectrumDefinitions
    TreeVectors Vx2750 VmStack
begin

text \<open>
  SpecTcl histograms events: it unpacks the buffers of a data source into parameters, tests
  gates on them and increments spectra.  This library models that path, from the bytes of a
  buffer to the Fill calls of a spectrum, the commands that configure it, and the files that
  filtered events are written to and read from.  File names are those of src/main/Core/.

  \<^bold>\<open>The parts and how they interact.\<close>
  A buffer decoder cuts buffers into events (RingDecoder, FilterDecoder) and calls the analyzer
  (Analyzer, TclAnalyzer), whose loop OnPhysics hands each event to the pipeline of event
  processors (Pipelines); these set parameters, directly or through tree parameters
  (TreeParameter, TreeArrays, TreeVectors, FribFilter, FilterProcessor), of an event (Events);
  CaenProcessor, EventBuilder, Vx2750 and VmStack are processors of digitizer and event built
  data.  Batches of events go down
  the event sink pipeline: to the histogrammer (Histogrammer), which tests gates (Gates,
  Geometry) and increments spectra (Spectra, Folds), and to event filters (EventFilter,
  FilterCommand), which write files (XdrFilter, Xdr, FribFilter).  The dictionaries
  (Dictionary) hold parameters, spectra and gates; the API (SpecTclApi), the gate factory
  (GateFactory) and the spectrum factory (SpectrumFactory) change them.

  \<^bold>\<open>Theories.\<close>
  \<^item> Prelude: machine types, std::map (sorted association list) and std::list, and the
    collections of facts.
  \<^item> Dictionary: CDictionary and its observers (Dictionary.h).
  \<^item> Events: CEvent, CValidValue, DopeVector; a slot is valid if its serial is the event's.
  \<^item> Geometry: single precision arithmetic and the inside tests of bands and contours.
  \<^item> Gates, GateSemantics, GateCycles: one constructor of gate_body per gate class, cached
    evaluation over the store of containers, its meaning gate_den without caches, and gates that
    come to demand themselves.
  \<^item> Folds, PointerList, Spectra, SpectraSemantics: gamma spectra and folds, DynamicList, what
    each kind of spectrum fills, the lists by parameter.
  \<^item> Histogrammer, HistogrammerProps, Histogramming, Registry: CHistogrammer with its two
    internal observers, its invariant hist_ok and reachable states, what an event does.
  \<^item> GateFactory, SpecTclApi, FoldCommand: creators of gates, the API and the gate and fold
    commands.
  \<^item> SpectrumObjects, SpectrumFactory, SpectrumCreation, SpectrumDefinitions: constructors and
    definitions of spectra, the spectrum factory with its API, and what they make.
  \<^item> TreeParameter, TreeArrays, TreeVectors, Pipelines: tree parameters, arrays and vectors of
    them, event processing and event sink pipelines.
  \<^item> CaenHits, CaenProcessor, EventBuilder, Vx2750: event processors of the repository: CAEN
    digitizers, event built data with the evbunpack command, and the VX2750.
  \<^item> VmModules, VmReadouts, VmStack (src/main/vmusb, src/main/MVLCSpecTcl): unpackers of VME
    modules, what they decode, and the stack unpackers with the commands that configure them.
  \<^item> Analyzer, AnalyzerProps, TclAnalyzer: the event loop with the pool of events, and what it
    delivers.
  \<^item> Bytes, RingDecoder, RingStream: reading integers, cutting buffers into ring items.
  \<^item> FribFilter, FribRoundtrip, FribDefinitions: the FRIB filter format and its decoder.
  \<^item> Xdr, XdrFilter, FilterDecoder, FilterProcessor, EventFilter, FilterCommand: XDR streams,
    filters and the filter command.  XdrStreams, FilterMasks, XdrFilterProps, FilterBlocks,
    FilterDelivery, XdrRoundtrip, FilterSessions, FilterSelection, FilterFiles: their lemmas.

  \<^bold>\<open>State and correspondence to the code.\<close>
  A class is a record whose fields are its members (h_ CHistogrammer, an_ CAnalyzer, ta_
  CTclAnalyzer, xs_ CXdrFilterOutputStage, fd_ CFilterBufferDecoder, ef_ CEventFilter, tw_ the
  world of tree parameters, sp_ CSpectrum); a class hierarchy is a datatype, one constructor per
  class.  A method is a definition of its name, or of its name with a prefix where two classes
  share it.  Pointers to dictionary entries are names; heap objects that die (events, filters)
  have addresses.  Exceptions are values; None or an Undefined constructor is undefined
  behaviour of C++, or a computation that does not return.

  \<^bold>\<open>What the lemmas show.\<close>
  The main line, each step a property: a gate evaluates to its meaning (gate_evaluation), an event
  adds to each spectrum the fills of its definition when its gate is true (histogram_event), and
  this in every state the operations reach (hist_reach_ok); the analyzer delivers each accepted
  event once, in order (physics_delivers); ring items are dispatched however the stream is cut
  (ring_stream_dispatch); filter files are read back as written (xdr_file_roundtrip,
  gated_filter_file, frib_event_roundtrip).  The remaining properties are the contracts of the
  operations, and the places where the code breaks them, which are also listed as findings.

  \<^bold>\<open>Interfaces.\<close>
  pointer_bag (interpreted on DynamicList as dl), registry (on the three dictionaries), packer
  (what the event loop needs of OnEvent, on the filter event processor as filter_packer),
  xdr_library (RFC 4506, as rfc), output_stage (what an event filter needs of its output, on the
  XDR stage as xdr_output), module_reader (what a stack unpacker needs of a module's, on seven of
  them as r785 and so on) and stack_reader (on the table of unpackers as vm).

  \<^bold>\<open>Fuel and bounds.\<close>
  Gate evaluation has fuel for the depth of dependency chains; rank_ok gives a sufficient bound,
  and where evaluation comes to demand a gate that depends on itself no fuel is enough.  The loop
  of the bit spectrum has fuel 33, one more than the bits of UInt_t.  The loop that describes parameters has fuel one more
  than the number of names, the loop over a block of the filter file the size of the block, each
  turn of a loop consuming at least one; AssignParameterId searches at most as many numbers as the
  dictionary has entries, and one.  Machine integers keep their width (u32, u64); doubles are
  rationals and Float_t operations are rounded explicitly, without infinities and NaN.

  \<^bold>\<open>Parameters of the model.\<close>
  Code that is not in the repository: ROOT's histograms (as the sequence of their Fill calls), the
  XDR library, the unified format library, Tcl (lists, string match, tilde substitution), event
  processors of the user, and the bit patterns of doubles.

  \<^bold>\<open>Not modelled.\<close>
  The Tcl command packages other than those named (they parse words and format results), the
  formatters of spectra, strip charts and projections (they work on ROOT's histograms), fits,
  integration and regions of interest (numerical display code), the displays and Xamine (X11 and
  shared memory), the database (SQLite), the servers (mirror, REST, HTTP), MPI transport and
  threads, the GUIs and scripts, and the packages outside Core other than the VM-USB and MVLC
  unpackers (CAMAC, DDAS, calibrated parameters).  Of those unpackers, the ones that create
  parameters or spectra from Tcl variables (V1x90, MASE, HINP, PSD, V1729) are arguments.  Copy constructors of decoders, analyzers and dynamic lists are left out too.
  What the plan has left: tree variables, the mediators between gates and the displays, and the
  unpackers with a state of their own.
\<close>

end
